(* ===== verification/Prelude.thy ===== *)
theory Prelude
  imports Main "HOL-Library.Word"
begin

section \<open>Shared types, automation and list, option and word lemmas\<close>

text \<open>
  What every component of the development uses: the names of Go's basic types, results
  that carry an error, big-endian byte layouts, and the collections of facts that the
  component proofs pass to the simplifier.
\<close>

named_theorems component_defs
  \<open>unfolding equations of the small non-recursive operations of a component\<close>

named_theorems wire_simps
  \<open>facts that evaluate an encoder against the matching decoder\<close>

type_synonym byte = "8 word"
type_synonym bytes = "byte list"

text \<open>Go's \<open>error\<close> result: \<open>Inl\<close> for a non-nil error, \<open>Inr\<close> for the value.\<close>

type_synonym ('e, 'a) result = "'e + 'a"

fun rbind :: "('e, 'a) result \<Rightarrow> ('a \<Rightarrow> ('e, 'b) result) \<Rightarrow> ('e, 'b) result" where
  "rbind (Inl e) f = Inl e"
| "rbind (Inr a) f = f a"

lemma rbind_eq_Inr_iff: "rbind r f = Inr b \<longleftrightarrow> (\<exists>a. r = Inr a \<and> f a = Inr b)"
  by (cases r) auto

lemma rbind_eq_Inl_iff:
  "rbind r f = Inl e \<longleftrightarrow> r = Inl e \<or> (\<exists>a. r = Inr a \<and> f a = Inl e)"
  by (cases r) auto

lemma rbind_cong [fundef_cong]:
  "r = r' \<Longrightarrow> (\<And>a. r' = Inr a \<Longrightarrow> f a = g a) \<Longrightarrow> rbind r f = rbind r' g"
  by (cases r') auto

subsection \<open>Go strings as byte sequences\<close>

text \<open>
  A Go string is a sequence of bytes. The models use HOL's \<open>string\<close> (a list of 8-bit
  characters) where the code has a \<open>string\<close> and \<open>bytes\<close> where it has a
  \<open>[]byte\<close>; the two conversions below are Go's \<open>[]byte(s)\<close> and \<open>string(b)\<close>.
\<close>

definition string_bytes :: "string \<Rightarrow> bytes" where
  "string_bytes s = map (\<lambda>c. word_of_nat (of_char c)) s"

definition bytes_string :: "bytes \<Rightarrow> string" where
  "bytes_string b = map (\<lambda>w. char_of (unat w)) b"

lemma bytes_string_string_bytes [simp, wire_simps]: "bytes_string (string_bytes s) = s"
  by (induction s) (auto simp: bytes_string_def string_bytes_def unat_of_nat)

lemma string_bytes_bytes_string [simp]: "string_bytes (bytes_string b) = b"
proof (induction b)
  case Nil
  show ?case by (simp add: bytes_string_def string_bytes_def)
next
  case (Cons w b)
  have "unat w < 256" using unsigned_less [of w] by simp
  with Cons show ?case by (simp add: bytes_string_def string_bytes_def)
qed

lemma length_string_bytes [simp]: "length (string_bytes s) = length s"
  by (simp add: string_bytes_def)

lemma length_bytes_string [simp]: "length (bytes_string b) = length b"
  by (simp add: bytes_string_def)

lemma string_bytes_eq_Nil_iff [simp]: "string_bytes s = [] \<longleftrightarrow> s = []"
  by (simp add: string_bytes_def)

lemma bytes_string_Nil [simp]: "bytes_string [] = []"
  by (simp add: bytes_string_def)

lemma string_bytes_Nil [simp]: "string_bytes [] = []"
  by (simp add: string_bytes_def)

subsection \<open>Big-endian integers\<close>

text \<open>
  \<open>encoding/binary\<close>'s big-endian layout: \<open>be_bytes k n\<close> is the \<open>k\<close> low bytes of
  \<open>n\<close>, most significant first, and \<open>be_nat\<close> reads such a sequence back.
\<close>

fun be_bytes :: "nat \<Rightarrow> nat \<Rightarrow> bytes" where
  "be_bytes 0 n = []"
| "be_bytes (Suc k) n = be_bytes k (n div 256) @ [word_of_nat n]"

definition be_nat :: "bytes \<Rightarrow> nat" where
  "be_nat b = foldl (\<lambda>acc w. acc * 256 + unat w) 0 b"

lemma length_be_bytes [simp]: "length (be_bytes k n) = k"
  by (induction k arbitrary: n) auto

lemma be_nat_snoc [simp]: "be_nat (b @ [w]) = be_nat b * 256 + unat w"
  by (simp add: be_nat_def)

lemma be_nat_Nil [simp]: "be_nat [] = 0"
  by (simp add: be_nat_def)

lemma be_nat_be_bytes: "be_nat (be_bytes k n) = n mod 256 ^ k"
proof (induction k arbitrary: n)
  case 0
  show ?case by simp
next
  case (Suc k)
  have "be_nat (be_bytes (Suc k) n) = (n div 256 mod 256 ^ k) * 256 + n mod 256"
    by (simp add: Suc.IH unat_of_nat)
  also have "\<dots> = n mod 256 ^ Suc k"
    by (simp add: mod_mult2_eq mult.commute)
  finally show ?case .
qed

lemma be_nat_be_bytes_id [wire_simps]: "n < 256 ^ k \<Longrightarrow> be_nat (be_bytes k n) = n"
  by (simp add: be_nat_be_bytes)

lemma be_nat_bound: "be_nat b < 256 ^ length b"
proof (induction b rule: rev_induct)
  case Nil
  show ?case by simp
next
  case (snoc w b)
  have "unat w < 256" using unsigned_less [of w] by simp
  moreover have "be_nat b * 256 + 256 \<le> 256 ^ length b * 256"
    using snoc.IH by (metis Suc_leI add.commute mult.commute mult_Suc_right mult_le_mono1)
  ultimately show ?case by simp
qed

subsection \<open>Association lists in which the first entry for a key counts\<close>

lemma map_of_filter_fst:
  "map_of (filter (\<lambda>p. P (fst p)) xs) k = (if P k then map_of xs k else None)"
  by (induction xs) auto

lemma disjoint_part: "P \<or> X \<subseteq> H \<Longrightarrow> H \<inter> Y = {} \<Longrightarrow> P \<or> X \<inter> Y = {}"
  by blast

end
