(* ===== verification/SerfQuery.thy ===== *)
theory SerfQuery
  imports Prelude
begin

section \<open>A query as its receiver holds it (serf/event.go, serf/messages.go)\<close>

text \<open>
  A received query carries a deadline; a zero deadline (\<open>None\<close>) marks it as answered.
  \<open>Respond\<close> formats, checks and sends the answer. The clock, the message encoding of
  go-msgpack and the network are parameters.
\<close>

unbundle bit_operations_syntax

type_synonym ltime = "64 word"

definition queryFlagAck :: "32 word" where "queryFlagAck = push_bit 0 1"
definition queryFlagNoBroadcast :: "32 word" where "queryFlagNoBroadcast = push_bit 1 1"

definition QueryResponseSizeLimit :: nat where "QueryResponseSizeLimit = 1024"

text \<open>Queries with this prefix are Serf's own.\<close>

definition InternalQueryPrefix :: string where "InternalQueryPrefix = ''_serf_''"

record messageQueryResponse =
  mqr_LTime :: ltime
  mqr_ID :: "32 word"
  mqr_From :: string
  mqr_Flags :: "32 word"
  mqr_Payload :: bytes

definition mqr_Ack :: "messageQueryResponse \<Rightarrow> bool" where
  "mqr_Ack m \<longleftrightarrow> (mqr_Flags m AND queryFlagAck) \<noteq> 0"

record squery =
  q_LTime :: ltime
  q_Name :: string
  q_Payload :: bytes
  q_id :: "32 word"
  q_addr :: bytes
  q_port :: "16 word"
  q_deadline :: "int option"

datatype respond_error =
  AlreadySent | PastDeadline | FormatFailed string | ExceedsLimit nat | SendFailed string

record packet =
  p_addr :: bytes
  p_port :: "16 word"
  p_raw :: bytes

record net_env =
  ne_now :: int
  ne_node :: string
  ne_encode :: "messageQueryResponse \<Rightarrow> (string, bytes) result"
  ne_send :: "packet \<Rightarrow> string option"

definition response_message :: "net_env \<Rightarrow> squery \<Rightarrow> bytes \<Rightarrow> messageQueryResponse" where
  "response_message env q buf =
     \<lparr>mqr_LTime = q_LTime q, mqr_ID = q_id q, mqr_From = ne_node env, mqr_Flags = 0,
      mqr_Payload = buf\<rparr>"

text \<open>The result is the error, the query as it is left, and the packets put on the network.\<close>

definition Respond :: "net_env \<Rightarrow> squery \<Rightarrow> bytes \<Rightarrow> respond_error option \<times> squery \<times> packet list" where
  "Respond env q buf =
     (case q_deadline q of
        None \<Rightarrow> (Some AlreadySent, q, [])
      | Some deadline \<Rightarrow>
          if deadline < ne_now env then (Some PastDeadline, q, [])
          else (case ne_encode env (response_message env q buf) of
                  Inl e \<Rightarrow> (Some (FormatFailed e), q, [])
                | Inr raw \<Rightarrow>
                    if QueryResponseSizeLimit < length raw
                    then (Some (ExceedsLimit QueryResponseSizeLimit), q, [])
                    else (let pkt = \<lparr>p_addr = q_addr q, p_port = q_port q, p_raw = raw\<rparr>
                          in case ne_send env pkt of
                               Some e \<Rightarrow> (Some (SendFailed e), q, [])
                             | None \<Rightarrow> (None, q\<lparr>q_deadline := None\<rparr>, [pkt]))))"

lemmas Respond_splits = option.splits sum.splits if_splits

lemma Respond_ok_iff:
  "fst (Respond env q buf) = None \<longleftrightarrow>
     (\<exists>deadline raw. q_deadline q = Some deadline \<and> ne_now env \<le> deadline
        \<and> ne_encode env (response_message env q buf) = Inr raw
        \<and> length raw \<le> QueryResponseSizeLimit
        \<and> ne_send env \<lparr>p_addr = q_addr q, p_port = q_port q, p_raw = raw\<rparr> = None)"
  by (auto simp: Respond_def Let_def split: Respond_splits)

lemma Respond_sent:
  "Respond env q buf = (err, q', sent) \<Longrightarrow>
     (case err of None \<Rightarrow> (\<exists>p. sent = [p]) \<and> q_deadline q' = None | Some _ \<Rightarrow> sent = [] \<and> q' = q)"
  by (auto simp: Respond_def Let_def split: Respond_splits)

text \<open>A second answer is refused, whatever the environment has become.\<close>

lemma Respond_once:
  "Respond env q buf = (None, q', sent) \<Longrightarrow> Respond env' q' buf' = (Some AlreadySent, q', [])"
  by (auto simp: Respond_def Let_def split: Respond_splits)

end
