(* ===== verification/Lamport.thy ===== *)
theory Lamport
  imports SerfQuery
begin

section \<open>Lamport clocks (serf/lamport.go)\<close>

text \<open>
  A clock is a 64-bit counter. \<open>Witness\<close> is a compare-and-swap loop; \<open>clock_Witness\<close> is what
  it does when nothing interferes, and \<open>clock_step\<close> below runs any number of callers
  concurrently, one atomic access at a time. The counter wraps like the code's: witnessing
  the largest time sets the clock to 0.
\<close>

definition clock_Increment :: "ltime \<Rightarrow> ltime" where
  "clock_Increment c = c + 1"

definition clock_Witness :: "ltime \<Rightarrow> ltime \<Rightarrow> ltime" where
  "clock_Witness v c = (if v < c then c else v + 1)"

lemma max_word_plus [simp]: "(- 1 :: ltime) + 1 = 0"
  by simp

lemma plus_one_greater:
  assumes "v \<noteq> (- 1 :: ltime)"
  shows "v < v + 1"
proof -
  have "v + 1 \<noteq> 0" using assms max_word_wrap by blast
  then have "unat (v + 1) = unat v + 1"
    by (metis Suc_eq_plus1 add.commute unatSuc)
  then show ?thesis by (simp add: word_less_nat_alt)
qed

lemma clock_Witness_greater: "v \<noteq> - 1 \<Longrightarrow> v < clock_Witness v c"
  by (simp add: clock_Witness_def plus_one_greater)

lemma clock_Witness_mono: "v \<noteq> - 1 \<Longrightarrow> c \<le> clock_Witness v c"
  using plus_one_greater [of v] by (auto simp: clock_Witness_def)

lemma clock_Witness_wrap: "clock_Witness (- 1) c = 0"
proof -
  have "\<not> (- 1 :: ltime) < c" by (simp add: not_less)
  then show ?thesis by (simp add: clock_Witness_def)
qed

text \<open>
  The contract the rest of Serf relies on: a clock that only goes forward and is ahead of
  every time it has witnessed, as long as no time is the largest one.
\<close>

locale logical_clock =
  fixes tick :: "'t :: linorder \<Rightarrow> 't" and witness :: "'t \<Rightarrow> 't \<Rightarrow> 't" and ok :: "'t \<Rightarrow> bool"
  assumes witness_ahead: "ok v \<Longrightarrow> v < witness v c"
    and witness_mono: "ok v \<Longrightarrow> c \<le> witness v c"
    and tick_ahead: "ok c \<Longrightarrow> c < tick c"
begin

lemma witness_fold_mono: "\<forall>v \<in> set vs. ok v \<Longrightarrow> c \<le> fold witness vs c"
proof (induction vs arbitrary: c)
  case (Cons v vs)
  then have "c \<le> witness v c" "witness v c \<le> fold witness vs (witness v c)"
    by (simp_all add: witness_mono)
  then show ?case by simp
qed simp

lemma witness_fold_ahead: "\<forall>v \<in> set vs. ok v \<Longrightarrow> v \<in> set vs \<Longrightarrow> v < fold witness vs c"
proof (induction vs arbitrary: c)
  case (Cons w vs)
  show ?case
  proof (cases "v = w")
    case True
    have "v < witness w c" using Cons.prems True by (simp add: witness_ahead)
    also have "\<dots> \<le> fold witness vs (witness w c)" using Cons.prems by (simp add: witness_fold_mono)
    finally show ?thesis by simp
  next
    case False
    with Cons show ?thesis by simp
  qed
qed simp

end

interpretation clock: logical_clock clock_Increment clock_Witness "\<lambda>v. v \<noteq> - 1"
  by unfold_locales
     (simp_all add: clock_Witness_greater clock_Witness_mono clock_Increment_def plus_one_greater)

subsection \<open>Concurrent callers\<close>

text \<open>
  A caller of \<open>Witness v\<close> is about to load the counter, or about to compare and swap against
  the value it loaded, or has returned. \<open>Increment\<close> is one atomic addition.
\<close>

datatype clock_pc =
    Loading ltime
  | Swapping ltime ltime
  | Returned ltime
  | Incrementing
  | Idle

record clock_state =
  cs_counter :: ltime
  cs_pc :: "nat \<Rightarrow> clock_pc"

inductive clock_step :: "clock_state \<Rightarrow> clock_state \<Rightarrow> bool" where
  load_old: "cs_pc s i = Loading v \<Longrightarrow> v < cs_counter s \<Longrightarrow>
    clock_step s (s\<lparr>cs_pc := (cs_pc s)(i := Returned v)\<rparr>)"
| load_new: "cs_pc s i = Loading v \<Longrightarrow> \<not> v < cs_counter s \<Longrightarrow>
    clock_step s (s\<lparr>cs_pc := (cs_pc s)(i := Swapping v (cs_counter s))\<rparr>)"
| swap_ok: "cs_pc s i = Swapping v cur \<Longrightarrow> cs_counter s = cur \<Longrightarrow>
    clock_step s (s\<lparr>cs_counter := v + 1, cs_pc := (cs_pc s)(i := Returned v)\<rparr>)"
| swap_failed: "cs_pc s i = Swapping v cur \<Longrightarrow> cs_counter s \<noteq> cur \<Longrightarrow>
    clock_step s (s\<lparr>cs_pc := (cs_pc s)(i := Loading v)\<rparr>)"
| increment: "cs_pc s i = Incrementing \<Longrightarrow>
    clock_step s (s\<lparr>cs_counter := cs_counter s + 1, cs_pc := (cs_pc s)(i := Idle)\<rparr>)"

inductive_cases clock_stepE: "clock_step s s'"

text \<open>Away from the end of the range: no caller carries the largest time, nor does the counter.\<close>

fun pc_fits :: "clock_pc \<Rightarrow> bool" where
  "pc_fits (Loading v) \<longleftrightarrow> v \<noteq> - 1"
| "pc_fits (Swapping v cur) \<longleftrightarrow> v \<noteq> - 1"
| "pc_fits _ \<longleftrightarrow> True"

definition clock_fits :: "clock_state \<Rightarrow> bool" where
  "clock_fits s \<longleftrightarrow> cs_counter s \<noteq> - 1 \<and> (\<forall>i. pc_fits (cs_pc s i))"

definition clock_inv :: "clock_state \<Rightarrow> bool" where
  "clock_inv s \<longleftrightarrow> (\<forall>i. case cs_pc s i of
      Returned v \<Rightarrow> v < cs_counter s | Swapping v cur \<Rightarrow> cur \<le> v | _ \<Rightarrow> True)"

lemma clock_step_mono:
  assumes "clock_step s s'" "clock_fits s" "clock_inv s"
  shows "cs_counter s \<le> cs_counter s'"
  using assms(1)
proof (cases rule: clock_step.cases)
  case (swap_ok i v cur)
  then have "v \<noteq> - 1" using assms(2) by (metis clock_fits_def pc_fits.simps(2))
  moreover have "cur \<le> v" using assms(3) swap_ok(2) by (auto simp: clock_inv_def dest: spec [of _ i])
  ultimately show ?thesis using swap_ok plus_one_greater [of v] by auto
next
  case (increment i)
  then show ?thesis using assms(2) plus_one_greater [of "cs_counter s"] by (auto simp: clock_fits_def)
qed simp_all

lemma clock_step_inv:
  assumes "clock_step s s'" "clock_fits s" "clock_inv s"
  shows "clock_inv s'"
proof -
  have mono: "cs_counter s \<le> cs_counter s'" by (rule clock_step_mono [OF assms])
  have other: "case cs_pc s j of Returned v \<Rightarrow> v < cs_counter s' | Swapping v cur \<Rightarrow> cur \<le> v | _ \<Rightarrow> True" for j
    using assms(3) mono
    by (auto simp: clock_inv_def split: clock_pc.splits dest: spec [of _ j] intro: order_less_le_trans)
  show ?thesis
    using assms(1)
  proof (cases rule: clock_step.cases)
    case (swap_ok i v cur)
    then have "v \<noteq> - 1" using assms(2) by (metis clock_fits_def pc_fits.simps(2))
    with swap_ok other show ?thesis by (auto simp: clock_inv_def plus_one_greater)
  qed (use other in \<open>auto simp: clock_inv_def\<close>)
qed

definition fitting_step :: "clock_state \<Rightarrow> clock_state \<Rightarrow> bool" where
  "fitting_step s s' \<longleftrightarrow> clock_step s s' \<and> clock_fits s"

lemma fitting_steps_inv:
  "fitting_step\<^sup>*\<^sup>* s s' \<Longrightarrow> clock_inv s \<Longrightarrow> clock_inv s' \<and> cs_counter s \<le> cs_counter s'"
proof (induction rule: rtranclp_induct)
  case (step s' s'')
  then have "clock_inv s'" "cs_counter s \<le> cs_counter s'" by simp_all
  with step.hyps(2) clock_step_mono [of s' s''] clock_step_inv [of s' s''] show ?case
    by (auto simp: fitting_step_def)
qed simp

subsection \<open>Properties\<close>

text \<open>With any number of concurrent callers, away from the end of the range, the clock never
  goes back, and a caller that has returned from \<open>Witness v\<close> finds the clock beyond \<open>v\<close>.\<close>

theorem witness_concurrent:
  assumes "fitting_step\<^sup>*\<^sup>* s s'"
    and "\<And>i. cs_pc s i = Idle \<or> cs_pc s i = Incrementing \<or> (\<exists>v. cs_pc s i = Loading v)"
  shows "cs_counter s \<le> cs_counter s' \<and> (\<forall>i v. cs_pc s' i \<noteq> Returned v \<or> v < cs_counter s')"
proof -
  have "clock_inv s" unfolding clock_inv_def
  proof
    fix i
    show "case cs_pc s i of Returned v \<Rightarrow> v < cs_counter s | Swapping v cur \<Rightarrow> cur \<le> v | _ \<Rightarrow> True"
      using assms(2) [of i] by (elim disjE exE) simp_all
  qed
  from fitting_steps_inv [OF assms(1) this] have inv: "clock_inv s'" "cs_counter s \<le> cs_counter s'"
    by simp_all
  have "v < cs_counter s'" if "cs_pc s' i = Returned v" for i v
    using inv(1) that by (auto simp: clock_inv_def dest: spec [of _ i])
  with inv(2) show ?thesis by blast
qed

definition demo_clock :: clock_state where
  "demo_clock = \<lparr>cs_counter = 3, cs_pc = (\<lambda>i. if i = 0 then Loading 5 else Idle)\<rparr>"

definition demo_clock_loaded :: clock_state where
  "demo_clock_loaded = demo_clock\<lparr>cs_pc := (cs_pc demo_clock)(0 := Swapping 5 3)\<rparr>"

definition demo_clock_done :: clock_state where
  "demo_clock_done =
     demo_clock_loaded\<lparr>cs_counter := 6, cs_pc := (cs_pc demo_clock_loaded)(0 := Returned 5)\<rparr>"

lemma demo_clock_steps: "fitting_step\<^sup>*\<^sup>* demo_clock demo_clock_done"
proof -
  have "clock_step demo_clock demo_clock_loaded"
    using clock_step.load_new [of demo_clock 0 5] by (simp add: demo_clock_def demo_clock_loaded_def)
  moreover have "clock_step demo_clock_loaded demo_clock_done"
    using clock_step.swap_ok [of demo_clock_loaded 0 5 3]
    by (simp add: demo_clock_def demo_clock_loaded_def demo_clock_done_def)
  moreover have "clock_fits demo_clock" "clock_fits demo_clock_loaded"
    by (simp_all add: clock_fits_def demo_clock_def demo_clock_loaded_def)
  ultimately have "fitting_step demo_clock demo_clock_loaded" "fitting_step demo_clock_loaded demo_clock_done"
    by (simp_all add: fitting_step_def)
  then show ?thesis by (meson converse_rtranclp_into_rtranclp rtranclp.rtrancl_refl)
qed

theorem witness_concurrent_witness:
  "cs_pc demo_clock_done 0 = Returned 5 \<and> (5 :: ltime) < cs_counter demo_clock_done"
proof -
  have "cs_pc demo_clock_done 0 = Returned 5" by (simp add: demo_clock_done_def)
  moreover have "cs_counter demo_clock \<le> cs_counter demo_clock_done
      \<and> (\<forall>i v. cs_pc demo_clock_done i \<noteq> Returned v \<or> v < cs_counter demo_clock_done)"
    by (rule witness_concurrent [OF demo_clock_steps]) (simp add: demo_clock_def)
  ultimately show ?thesis by blast
qed

end
