(* ===== verification/SerfMembers.thy ===== *)
theory SerfMembers
  imports Lamport "HOL-Library.Multiset"
begin

section \<open>The members of a Serf cluster (serf/serf.go)\<close>

text \<open>
  Serf keeps a map from names to pointers to \<open>memberState\<close>s and two slices of the same pointers,
  \<open>failedMembers\<close> and \<open>leftMembers\<close>: a handler that writes through one is seen through the
  others. The model keeps the pointers: \<open>sm_store\<close> maps locations to member states, and the map
  and the slices hold locations. Log lines and metrics are left out; what is put on \<open>EventCh\<close>
  is a result of each handler. The two rings of intents have a length that is not 0, as
  \<open>RecentIntentBuffer\<close> in every configuration.
\<close>

subsection \<open>Data\<close>

datatype MemberStatus = StatusNone | StatusAlive | StatusLeaving | StatusLeft | StatusFailed

text \<open>\<open>None\<close> is the panic on a number that is no status; the datatype has no such value.\<close>

fun MemberStatus_String :: "MemberStatus \<Rightarrow> string" where
  "MemberStatus_String StatusNone = ''none''"
| "MemberStatus_String StatusAlive = ''alive''"
| "MemberStatus_String StatusLeaving = ''leaving''"
| "MemberStatus_String StatusLeft = ''left''"
| "MemberStatus_String StatusFailed = ''failed''"

record Member =
  m_Name :: string
  m_Addr :: bytes
  m_Port :: "16 word"
  m_Tags :: "string \<rightharpoonup> string"
  m_Status :: MemberStatus
  m_ProtocolMin :: byte
  m_ProtocolMax :: byte
  m_ProtocolCur :: byte
  m_DelegateMin :: byte
  m_DelegateMax :: byte
  m_DelegateCur :: byte

text \<open>A \<open>memberState\<close> embeds a \<open>Member\<close>. The zero time is \<open>0\<close>, times count nanoseconds from it.\<close>

record memberState = Member +
  m_statusLTime :: ltime
  m_leaveTime :: int

record nodeIntent =
  ni_LTime :: ltime
  ni_Node :: string

text \<open>A node as memberlist reports it.\<close>

record Node =
  n_Name :: string
  n_Addr :: bytes
  n_Port :: "16 word"
  n_Meta :: bytes
  n_PMin :: byte
  n_PMax :: byte
  n_PCur :: byte
  n_DMin :: byte
  n_DMax :: byte
  n_DCur :: byte

record messageLeave =
  ml_LTime :: ltime
  ml_Node :: string

record messageJoin =
  mj_LTime :: ltime
  mj_Node :: string

datatype EventType =
  EventMemberJoin | EventMemberLeave | EventMemberFailed | EventMemberUpdate | EventMemberReap
| EventUser | EventQuery

record MemberEvent =
  me_Type :: EventType
  me_Members :: "Member list"

datatype SerfState = SerfAlive | SerfLeaving | SerfLeft | SerfShutdown

type_synonym loc = nat

record members_state =
  sm_store :: "loc \<Rightarrow> memberState"
  sm_next :: loc
  sm_members :: "string \<rightharpoonup> loc"
  sm_failed :: "loc list"
  sm_left :: "loc list"
  sm_recentLeave :: "nodeIntent list"
  sm_recentLeaveIndex :: nat
  sm_recentJoin :: "nodeIntent list"
  sm_recentJoinIndex :: nat
  sm_clock :: ltime
  sm_state :: SerfState

text \<open>
  The name of the node, what go-msgpack decodes into a map of tags (those before an error, which
  is only logged), and its encoding of the two messages.
\<close>

datatype gossip = JoinMessage messageJoin | LeaveMessage messageLeave

record members_env =
  sv_NodeName :: string
  sv_decode_map :: "bytes \<Rightarrow> (string \<rightharpoonup> string)"
  sv_encode :: "gossip \<Rightarrow> (string, bytes) result"

definition tagMagicByte :: byte where "tagMagicByte = 255"

definition decodeTags :: "members_env \<Rightarrow> bytes \<Rightarrow> string \<rightharpoonup> string" where
  "decodeTags env buf =
     (if buf = [] \<or> hd buf \<noteq> tagMagicByte then [''role'' \<mapsto> bytes_string buf]
      else sv_decode_map env (tl buf))"

subsection \<open>Lists of old members and rings of intents\<close>

text \<open>\<open>old[i], old[n-1] = old[n-1], nil; old = old[:n-1]\<close>\<close>

definition swap_remove :: "nat \<Rightarrow> 'a list \<Rightarrow> 'a list" where
  "swap_remove i old = butlast (old[i := last old])"

fun first_index :: "('a \<Rightarrow> bool) \<Rightarrow> 'a list \<Rightarrow> nat option" where
  "first_index P [] = None"
| "first_index P (x # xs) = (if P x then Some 0 else map_option Suc (first_index P xs))"

definition removeOldMember :: "(loc \<Rightarrow> memberState) \<Rightarrow> loc list \<Rightarrow> string \<Rightarrow> loc list" where
  "removeOldMember store old name =
     (case first_index (\<lambda>l. m_Name (store l) = name) old of
        Some i \<Rightarrow> swap_remove i old
      | None \<Rightarrow> old)"

text \<open>The newest intent of the node, up to the first entry with time 0.\<close>

fun recentIntent_from :: "nodeIntent option \<Rightarrow> nodeIntent list \<Rightarrow> string \<Rightarrow> nodeIntent option" where
  "recentIntent_from intent [] node = intent"
| "recentIntent_from intent (r # recent) node =
     (if ni_LTime r = 0 then intent
      else if ni_Node r = node then
        recentIntent_from
          (case intent of
             None \<Rightarrow> Some r
           | Some i \<Rightarrow> if ni_LTime i < ni_LTime r then Some r else Some i) recent node
      else recentIntent_from intent recent node)"

definition recentIntent :: "nodeIntent list \<Rightarrow> string \<Rightarrow> nodeIntent option" where
  "recentIntent recent node = recentIntent_from None recent node"

subsection \<open>Events from memberlist\<close>

text \<open>Writing through a pointer.\<close>

definition write_member :: "loc \<Rightarrow> (memberState \<Rightarrow> memberState) \<Rightarrow> members_state \<Rightarrow> members_state" where
  "write_member l f s = s\<lparr>sm_store := (sm_store s)(l := f (sm_store s l))\<rparr>"

definition member_event :: "EventType \<Rightarrow> memberState \<Rightarrow> MemberEvent" where
  "member_event t m = \<lparr>me_Type = t, me_Members = [Member.truncate m]\<rparr>"

text \<open>The \<open>memberState\<close> of a node that is not in the map.\<close>

definition new_member :: "members_env \<Rightarrow> Node \<Rightarrow> members_state \<Rightarrow> memberState" where
  "new_member env n s =
     (let m0 = \<lparr>m_Name = n_Name n, m_Addr = n_Addr n, m_Port = n_Port n,
                m_Tags = decodeTags env (n_Meta n), m_Status = StatusAlive,
                m_ProtocolMin = 0, m_ProtocolMax = 0, m_ProtocolCur = 0,
                m_DelegateMin = 0, m_DelegateMax = 0, m_DelegateCur = 0,
                m_statusLTime = 0, m_leaveTime = 0\<rparr>;
          m1 = (case recentIntent (sm_recentJoin s) (n_Name n) of
                  None \<Rightarrow> m0
                | Some join \<Rightarrow> m0\<lparr>m_statusLTime := ni_LTime join\<rparr>)
      in (case recentIntent (sm_recentLeave s) (n_Name n) of
            None \<Rightarrow> m1
          | Some leave \<Rightarrow>
              if m_statusLTime m1 < ni_LTime leave
              then m1\<lparr>m_Status := StatusLeaving, m_statusLTime := ni_LTime leave\<rparr>
              else m1))"

definition set_versions :: "Node \<Rightarrow> memberState \<Rightarrow> memberState" where
  "set_versions n m =
     m\<lparr>m_ProtocolMin := n_PMin n, m_ProtocolMax := n_PMax n, m_ProtocolCur := n_PCur n,
       m_DelegateMin := n_DMin n, m_DelegateMax := n_DMax n, m_DelegateCur := n_DCur n\<rparr>"

definition handleNodeJoin ::
  "members_env \<Rightarrow> Node \<Rightarrow> members_state \<Rightarrow> members_state \<times> MemberEvent list" where
  "handleNodeJoin env n s =
     (let (oldStatus, l, s1) =
        (case sm_members s (n_Name n) of
           None \<Rightarrow>
             (StatusNone, sm_next s,
              s\<lparr>sm_store := (sm_store s)(sm_next s := new_member env n s), sm_next := sm_next s + 1,
                sm_members := (sm_members s)(n_Name n \<mapsto> sm_next s)\<rparr>)
         | Some l \<Rightarrow>
             (m_Status (sm_store s l), l,
              write_member l (\<lambda>m. m\<lparr>m_Status := StatusAlive, m_leaveTime := 0, m_Addr := n_Addr n,
                m_Port := n_Port n, m_Tags := decodeTags env (n_Meta n)\<rparr>) s));
          s2 = write_member l (set_versions n) s1;
          name = m_Name (sm_store s2 l);
          s3 = (if oldStatus = StatusFailed \<or> oldStatus = StatusLeft
                then s2\<lparr>sm_failed := removeOldMember (sm_store s2) (sm_failed s2) name,
                        sm_left := removeOldMember (sm_store s2) (sm_left s2) name\<rparr>
                else s2)
      in (s3, [member_event EventMemberJoin (sm_store s3 l)]))"

definition handleNodeLeave ::
  "int \<Rightarrow> Node \<Rightarrow> members_state \<Rightarrow> members_state \<times> MemberEvent list" where
  "handleNodeLeave now n s =
     (case sm_members s (n_Name n) of
        None \<Rightarrow> (s, [])
      | Some l \<Rightarrow>
          (case m_Status (sm_store s l) of
             StatusLeaving \<Rightarrow>
               (let s1 = write_member l (\<lambda>m. m\<lparr>m_Status := StatusLeft, m_leaveTime := now\<rparr>) s
                in (s1\<lparr>sm_left := sm_left s1 @ [l]\<rparr>, [member_event EventMemberLeave (sm_store s1 l)]))
           | StatusAlive \<Rightarrow>
               (let s1 = write_member l (\<lambda>m. m\<lparr>m_Status := StatusFailed, m_leaveTime := now\<rparr>) s
                in (s1\<lparr>sm_failed := sm_failed s1 @ [l]\<rparr>, [member_event EventMemberFailed (sm_store s1 l)]))
           | _ \<Rightarrow> (s, [])))"

definition handleNodeUpdate ::
  "members_env \<Rightarrow> Node \<Rightarrow> members_state \<Rightarrow> members_state \<times> MemberEvent list" where
  "handleNodeUpdate env n s =
     (case sm_members s (n_Name n) of
        None \<Rightarrow> (s, [])
      | Some l \<Rightarrow>
          (let s1 = write_member l (\<lambda>m. m\<lparr>m_Addr := n_Addr n, m_Port := n_Port n,
                      m_Tags := decodeTags env (n_Meta n)\<rparr>) s
           in (s1, [member_event EventMemberUpdate (sm_store s1 l)])))"

subsection \<open>Intents\<close>

text \<open>
  The results are whether to rebroadcast, the state, and for a leave intent the time with which
  \<open>broadcastJoin\<close> is started in another goroutine to refute it.
\<close>

definition handleNodeLeaveIntent ::
  "members_env \<Rightarrow> messageLeave \<Rightarrow> members_state \<Rightarrow> bool \<times> members_state \<times> ltime option" where
  "handleNodeLeaveIntent env leaveMsg s0 =
     (let s = s0\<lparr>sm_clock := clock_Witness (ml_LTime leaveMsg) (sm_clock s0)\<rparr> in
      case sm_members s (ml_Node leaveMsg) of
        None \<Rightarrow>
          if recentIntent (sm_recentLeave s) (ml_Node leaveMsg) \<noteq> None then (False, s, None)
          else (True,
            s\<lparr>sm_recentLeave := (sm_recentLeave s)[sm_recentLeaveIndex s :=
                  \<lparr>ni_LTime = ml_LTime leaveMsg, ni_Node = ml_Node leaveMsg\<rparr>],
              sm_recentLeaveIndex := (sm_recentLeaveIndex s + 1) mod length (sm_recentLeave s)\<rparr>, None)
      | Some l \<Rightarrow>
          if ml_LTime leaveMsg \<le> m_statusLTime (sm_store s l) then (False, s, None)
          else if ml_Node leaveMsg = sv_NodeName env \<and> sm_state s = SerfAlive
          then (False, s, Some (sm_clock s))
          else
            (case m_Status (sm_store s l) of
               StatusAlive \<Rightarrow>
                 (True, write_member l (\<lambda>m. m\<lparr>m_Status := StatusLeaving,
                     m_statusLTime := ml_LTime leaveMsg\<rparr>) s, None)
             | StatusFailed \<Rightarrow>
                 (let s1 = write_member l (\<lambda>m. m\<lparr>m_Status := StatusLeft,
                             m_statusLTime := ml_LTime leaveMsg\<rparr>) s
                  in (True,
                      s1\<lparr>sm_failed := removeOldMember (sm_store s1) (sm_failed s1) (m_Name (sm_store s1 l)),
                        sm_left := sm_left s1 @ [l]\<rparr>, None))
             | _ \<Rightarrow> (False, s, None)))"

definition handleNodeJoinIntent ::
  "messageJoin \<Rightarrow> members_state \<Rightarrow> bool \<times> members_state" where
  "handleNodeJoinIntent joinMsg s0 =
     (let s = s0\<lparr>sm_clock := clock_Witness (mj_LTime joinMsg) (sm_clock s0)\<rparr> in
      case sm_members s (mj_Node joinMsg) of
        None \<Rightarrow>
          if recentIntent (sm_recentJoin s) (mj_Node joinMsg) \<noteq> None then (False, s)
          else (True,
            s\<lparr>sm_recentJoin := (sm_recentJoin s)[sm_recentJoinIndex s :=
                  \<lparr>ni_LTime = mj_LTime joinMsg, ni_Node = mj_Node joinMsg\<rparr>],
              sm_recentJoinIndex := (sm_recentJoinIndex s + 1) mod length (sm_recentJoin s)\<rparr>)
      | Some l \<Rightarrow>
          if mj_LTime joinMsg \<le> m_statusLTime (sm_store s l) then (False, s)
          else (True, write_member l (\<lambda>m. m\<lparr>m_statusLTime := mj_LTime joinMsg,
                  m_Status := (if m_Status m = StatusLeaving then StatusAlive else m_Status m)\<rparr>) s))"

subsection \<open>Reaping\<close>

text \<open>
  \<open>reap\<close> scans the list by index and removes a member whose time is up by swapping the last one
  into its place, so the index stays while the list shrinks. It also deletes the member from
  the map. The durations \<open>now.Sub(m.leaveTime)\<close> are not saturated.
\<close>

definition reapable :: "int \<Rightarrow> int \<Rightarrow> memberState \<Rightarrow> bool" where
  "reapable now timeout m \<longleftrightarrow> \<not> now - m_leaveTime m \<le> timeout"

function reap_from :: "(memberState \<Rightarrow> bool) \<Rightarrow> (loc \<Rightarrow> memberState) \<Rightarrow> nat \<Rightarrow> loc list \<Rightarrow>
    (string \<rightharpoonup> loc) \<Rightarrow> loc list \<times> (string \<rightharpoonup> loc) \<times> MemberEvent list" where
  "reap_from expired store i old members =
     (if i < length old then
        (let m = store (old ! i) in
         if \<not> expired m then reap_from expired store (i + 1) old members
         else
           (let (old', members', evs) =
              reap_from expired store i (swap_remove i old) (members(m_Name m := None))
            in (old', members', member_event EventMemberReap m # evs)))
      else (old, members, []))"
  by pat_completeness auto
termination
  by (relation "measure (\<lambda>(_, _, i, old, _). 2 * length old - i)") (auto simp: swap_remove_def)

declare reap_from.simps [simp del]

definition reap :: "int \<Rightarrow> int \<Rightarrow> loc list \<Rightarrow> members_state \<Rightarrow>
    loc list \<times> members_state \<times> MemberEvent list" where
  "reap now timeout old s =
     (let (old', members', evs) = reap_from (reapable now timeout) (sm_store s) 0 old (sm_members s)
      in (old', s\<lparr>sm_members := members'\<rparr>, evs))"

text \<open>One round of \<open>handleReap\<close>.\<close>

definition handleReap_round ::
  "int \<Rightarrow> int \<Rightarrow> int \<Rightarrow> int \<Rightarrow> members_state \<Rightarrow> members_state \<times> MemberEvent list" where
  "handleReap_round now1 reconnectTimeout now2 tombstoneTimeout s =
     (let (failed, s1, evs1) = reap now1 reconnectTimeout (sm_failed s) s;
          s2 = s1\<lparr>sm_failed := failed\<rparr>;
          (left, s3, evs2) = reap now2 tombstoneTimeout (sm_left s2) s2
      in (s3\<lparr>sm_left := left\<rparr>, evs1 @ evs2))"

subsection \<open>What the application reads\<close>

definition hasAliveMembers :: "members_env \<Rightarrow> members_state \<Rightarrow> bool" where
  "hasAliveMembers env s \<longleftrightarrow>
     (\<exists>n \<in> dom (sm_members s). m_Name (sm_store s (the (sm_members s n))) \<noteq> sv_NodeName env
        \<and> m_Status (sm_store s (the (sm_members s n))) = StatusAlive)"

text \<open>\<open>None\<close> is the nil pointer when the local node is not in the map.\<close>

definition LocalMember :: "members_env \<Rightarrow> members_state \<Rightarrow> Member option" where
  "LocalMember env s = map_option (\<lambda>l. Member.truncate (sm_store s l)) (sm_members s (sv_NodeName env))"

text \<open>The map is iterated in any order: the result is a set with one member for each name.\<close>

definition Members :: "members_state \<Rightarrow> Member set" where
  "Members s = (\<lambda>l. Member.truncate (sm_store s l)) ` ran (sm_members s)"

subsection \<open>Join, leave and shutdown\<close>

text \<open>\<open>broadcast\<close>: an error, or the message that is queued.\<close>

definition broadcast :: "members_env \<Rightarrow> gossip \<Rightarrow> string option \<times> bytes list" where
  "broadcast env msg = (case sv_encode env msg of Inl e \<Rightarrow> (Some e, []) | Inr raw \<Rightarrow> (None, [raw]))"

definition broadcastJoin ::
  "members_env \<Rightarrow> ltime \<Rightarrow> members_state \<Rightarrow> string option \<times> members_state \<times> bytes list" where
  "broadcastJoin env t s =
     (let msg = \<lparr>mj_LTime = t, mj_Node = sv_NodeName env\<rparr>;
          s1 = s\<lparr>sm_clock := clock_Witness t (sm_clock s)\<rparr>;
          s2 = snd (handleNodeJoinIntent msg s1);
          (err, out) = broadcast env (JoinMessage msg)
      in (err, s2, out))"

text \<open>\<open>Join\<close>, given what \<open>memberlist.Join\<close> returns. Its flag \<open>eventJoinIgnore\<close> is with the events.\<close>

definition serf_join_error :: string where
  "serf_join_error = ''Serf can'' @ [CHR 0x27] @ ''t Join after Leave or Shutdown''"

definition serf_Join ::
  "members_env \<Rightarrow> nat \<times> string option \<Rightarrow> members_state \<Rightarrow>
     (nat \<times> string option) \<times> members_state \<times> bytes list" where
  "serf_Join env joined s =
     (if sm_state s \<noteq> SerfAlive then ((0, Some serf_join_error), s, [])
      else if fst joined > 0 then
        (case broadcastJoin env (sm_clock s) s of
           (Some e, s', out) \<Rightarrow> ((fst joined, Some e), s', out)
         | (None, s', out) \<Rightarrow> (joined, s', out))
      else (joined, s, []))"

text \<open>
  \<open>Leave\<close> waits for its broadcast and for memberlist without holding a lock, so it has two
  halves: up to the wait, which it reaches having queued a broadcast or not, and from the wait.
\<close>

datatype leave_result = LeaveReturns "string option" | LeaveWaits bool

definition Leave_begin :: "members_env \<Rightarrow> members_state \<Rightarrow> leave_result \<times> members_state \<times> bytes list" where
  "Leave_begin env s =
     (case sm_state s of
        SerfLeft \<Rightarrow> (LeaveReturns None, s, [])
      | SerfLeaving \<Rightarrow> (LeaveReturns (Some ''Leave already in progress''), s, [])
      | SerfShutdown \<Rightarrow> (LeaveReturns (Some ''Leave called after Shutdown''), s, [])
      | SerfAlive \<Rightarrow>
          (let s1 = s\<lparr>sm_state := SerfLeaving\<rparr>;
               msg = \<lparr>ml_LTime = sm_clock s1, ml_Node = sv_NodeName env\<rparr>;
               s2 = s1\<lparr>sm_clock := clock_Increment (sm_clock s1)\<rparr>;
               s3 = fst (snd (handleNodeLeaveIntent env msg s2))
           in if hasAliveMembers env s3 then
                (case broadcast env (LeaveMessage msg) of
                   (Some e, out) \<Rightarrow> (LeaveReturns (Some e), s3, out)
                 | (None, out) \<Rightarrow> (LeaveWaits True, s3, out))
              else (LeaveWaits False, s3, [])))"

definition Leave_finish ::
  "bool \<Rightarrow> bool \<Rightarrow> string option \<Rightarrow> members_state \<Rightarrow> string option \<times> members_state" where
  "Leave_finish queued notified err s =
     (if queued \<and> \<not> notified then (Some ''timeout while waiting for graceful leave'', s)
      else
        (case err of
           Some e \<Rightarrow> (Some e, s)
         | None \<Rightarrow> (None, if sm_state s \<noteq> SerfShutdown then s\<lparr>sm_state := SerfLeft\<rparr> else s)))"

definition RemoveFailedNode ::
  "members_env \<Rightarrow> string \<Rightarrow> bool \<Rightarrow> members_state \<Rightarrow>
     string option \<times> members_state \<times> bytes list \<times> ltime option" where
  "RemoveFailedNode env node notified s =
     (let msg = \<lparr>ml_LTime = sm_clock s, ml_Node = node\<rparr>;
          s1 = s\<lparr>sm_clock := clock_Increment (sm_clock s)\<rparr>;
          (_, s2, refute) = handleNodeLeaveIntent env msg s1
      in if \<not> hasAliveMembers env s2 then (None, s2, [], refute)
         else
           (case broadcast env (LeaveMessage msg) of
              (Some e, out) \<Rightarrow> (Some e, s2, out, refute)
            | (None, out) \<Rightarrow>
                (if notified then None else Some ''timed out broadcasting node removal'', s2, out, refute)))"

text \<open>\<open>Shutdown\<close>, given the error of \<open>memberlist.Shutdown\<close>.\<close>

definition Shutdown :: "string option \<Rightarrow> members_state \<Rightarrow> string option \<times> members_state" where
  "Shutdown err s =
     (if sm_state s = SerfShutdown then (None, s) else (err, s\<lparr>sm_state := SerfShutdown\<rparr>))"

end
