(* ===== verification/Membership.thy ===== *)
theory Membership
  imports SerfMembers
begin

section \<open>The invariant of the member lists\<close>

text \<open>
  What keeps the map of members, the list of failed and the list of left members consistent:
  lemmas on removal by swapping, the scan of \<open>reap\<close>, the invariant and its preservation by
  each handler.
\<close>

subsection \<open>Removal by swapping\<close>

lemma swap_remove_last: "old \<noteq> [] \<Longrightarrow> swap_remove (length old - 1) old = butlast old"
  by (cases old rule: rev_cases) (simp_all add: swap_remove_def)

lemma mset_swap_remove: "i < length old \<Longrightarrow> mset (swap_remove i old) = mset old - {#old ! i#}"
proof (cases old rule: rev_cases)
  case (snoc xs x)
  assume "i < length old"
  then consider "i < length xs" | "i = length xs" using snoc by fastforce
  then show ?thesis
  proof cases
    case 1
    then have "mset (swap_remove i old) = mset (xs[i := x])"
      by (simp add: snoc swap_remove_def list_update_append)
    with 1 show ?thesis by (simp add: snoc mset_update nth_append)
  qed (simp add: snoc swap_remove_def)
qed simp

lemma length_swap_remove [simp]: "length (swap_remove i old) = length old - 1"
  by (simp add: swap_remove_def)

lemma swap_remove_set_distinct:
  assumes "i < length old" "distinct old"
  shows "set (swap_remove i old) = set old - {old ! i} \<and> distinct (swap_remove i old)"
proof -
  have m: "mset (swap_remove i old) = mset old - {#old ! i#}" by (rule mset_swap_remove [OF assms(1)])
  have "mset (removeAll (old ! i) old) = mset old - {#old ! i#}"
    using assms(2) by (simp add: distinct_remove1_removeAll [symmetric])
  with m have eq: "mset (swap_remove i old) = mset (removeAll (old ! i) old)" by simp
  show ?thesis
    using mset_eq_setD [OF eq] mset_eq_imp_distinct_iff [OF eq] assms(2) by (simp add: distinct_removeAll)
qed

lemma first_index_Some: "first_index P xs = Some i \<Longrightarrow> i < length xs \<and> P (xs ! i)"
  by (induction xs arbitrary: i) (auto split: if_splits)

lemma first_index_None: "first_index P xs = None \<longleftrightarrow> (\<forall>x \<in> set xs. \<not> P x)"
  by (induction xs) auto

text \<open>With one location of the name at most, removing by name removes that location.\<close>

lemma removeOldMember_set:
  assumes "distinct old" "\<forall>l' \<in> set old. m_Name (store l') = name \<longleftrightarrow> l' = l"
  shows "set (removeOldMember store old name) = set old - {l} \<and> distinct (removeOldMember store old name)"
proof (cases "first_index (\<lambda>l. m_Name (store l) = name) old")
  case None
  then have "removeOldMember store old name = old" by (simp add: removeOldMember_def)
  moreover have "l \<notin> set old" using None assms(2) by (auto simp: first_index_None)
  ultimately show ?thesis using assms(1) by simp
next
  case (Some i)
  from first_index_Some [OF this] assms(2) have "i < length old" "old ! i = l" by auto
  with Some assms(1) show ?thesis
    by (simp add: removeOldMember_def swap_remove_set_distinct)
qed

subsection \<open>The scan of reap\<close>

lemma take_swap_remove: "i < length old \<Longrightarrow> take i (swap_remove i old) = take i old"
  by (simp add: swap_remove_def take_butlast)

lemma drop_swap_remove:
  assumes "i < length old"
  shows "mset (drop i (swap_remove i old)) = mset (drop (Suc i) old)"
proof -
  have "mset (take i old) + mset (drop i (swap_remove i old)) = mset (swap_remove i old)"
    using take_swap_remove [OF assms] by (metis append_take_drop_id mset_append)
  also have "\<dots> = mset old - {#old ! i#}" by (rule mset_swap_remove [OF assms])
  also have "\<dots> = mset (take i old) + mset (drop (Suc i) old)"
    using assms by (subst id_take_nth_drop [OF assms]) simp
  finally show ?thesis by simp
qed

definition gone :: "(memberState \<Rightarrow> bool) \<Rightarrow> (loc \<Rightarrow> memberState) \<Rightarrow> loc list \<Rightarrow> string set" where
  "gone expired store old = {m_Name (store l) | l. l \<in> set old \<and> expired (store l)}"

lemma reap_from_cases:
  "\<not> i < length old \<Longrightarrow> reap_from expired store i old members = (old, members, [])"
  "i < length old \<Longrightarrow> \<not> expired (store (old ! i)) \<Longrightarrow>
     reap_from expired store i old members = reap_from expired store (i + 1) old members"
  "i < length old \<Longrightarrow> expired (store (old ! i)) \<Longrightarrow>
     reap_from expired store i old members =
       (case reap_from expired store i (swap_remove i old) (members(m_Name (store (old ! i)) := None)) of
          (old', members', evs) \<Rightarrow> (old', members', member_event EventMemberReap (store (old ! i)) # evs))"
  by (subst reap_from.simps, simp add: Let_def)+

lemma restrict_delete: "m(a := None) |` (- G) = m |` (- insert a G)"
  by (auto simp: restrict_map_def)

lemma reap_from_spec:
  "reap_from expired store i old members = (old', members', evs) \<Longrightarrow>
     take i old' = take i old
     \<and> mset (drop i old') = filter_mset (\<lambda>l. \<not> expired (store l)) (mset (drop i old))
     \<and> members' = members |` (- gone expired store (drop i old))
     \<and> mset evs = image_mset (\<lambda>l. member_event EventMemberReap (store l))
         (filter_mset (\<lambda>l. expired (store l)) (mset (drop i old)))"
proof (induction expired store i old members arbitrary: old' members' evs rule: reap_from.induct)
  case (1 expired store i old members)
  show ?case
  proof (cases "i < length old")
    case False
    with "1.prems" show ?thesis by (simp add: reap_from_cases(1) gone_def)
  next
    case i: True
    have drop: "drop i old = old ! i # drop (Suc i) old" by (simp add: Cons_nth_drop_Suc i)
    show ?thesis
    proof (cases "expired (store (old ! i))")
      case False
      then have "reap_from expired store (i + 1) old members = (old', members', evs)"
        using "1.prems" i by (simp add: reap_from_cases(2))
      from "1.IH"(1) [OF i refl _ this] False have IH:
        "take (Suc i) old' = take (Suc i) old"
        "mset (drop (Suc i) old') = filter_mset (\<lambda>l. \<not> expired (store l)) (mset (drop (Suc i) old))"
        "members' = members |` (- gone expired store (drop (Suc i) old))"
        "mset evs = image_mset (\<lambda>l. member_event EventMemberReap (store l))
           (filter_mset (\<lambda>l. expired (store l)) (mset (drop (Suc i) old)))"
        by simp_all
      have len: "i < length old'" using arg_cong [OF IH(1), of length] i by simp
      have "old' ! i = old ! i" using arg_cong [OF IH(1), of "\<lambda>xs. xs ! i"] i len by simp
      then have "drop i old' = old ! i # drop (Suc i) old'" using len by (metis Cons_nth_drop_Suc)
      moreover have "take i old' = take i old"
        using arg_cong [OF IH(1), of "take i"] by (simp add: min_def)
      moreover have "gone expired store (drop i old) = gone expired store (drop (Suc i) old)"
        using False by (auto simp: gone_def drop)
      ultimately show ?thesis using IH False by (simp add: drop)
    next
      case True
      then obtain evs' where rec: "reap_from expired store i (swap_remove i old)
          (members(m_Name (store (old ! i)) := None)) = (old', members', evs')"
        and evs: "evs = member_event EventMemberReap (store (old ! i)) # evs'"
        using "1.prems" i True by (auto simp: reap_from_cases(3) split: prod.splits)
      have "set (drop i (swap_remove i old)) = set (drop (Suc i) old)"
        using drop_swap_remove [OF i] by (rule mset_eq_setD)
      then have "gone expired store (drop i old) =
          insert (m_Name (store (old ! i))) (gone expired store (drop i (swap_remove i old)))"
        using True by (auto simp: gone_def drop)
      then have eq: "members(m_Name (store (old ! i)) := None) |` (- gone expired store (drop i (swap_remove i old)))
          = members |` (- gone expired store (drop i old))"
        by (simp only: restrict_delete)
      have "take i old' = take i (swap_remove i old)
        \<and> mset (drop i old') = filter_mset (\<lambda>l. \<not> expired (store l)) (mset (drop i (swap_remove i old)))
        \<and> members' = members(m_Name (store (old ! i)) := None)
            |` (- gone expired store (drop i (swap_remove i old)))
        \<and> mset evs' = image_mset (\<lambda>l. member_event EventMemberReap (store l))
           (filter_mset (\<lambda>l. expired (store l)) (mset (drop i (swap_remove i old))))"
        by (rule "1.IH"(2) [OF i refl _ rec]) (simp add: True)
      note IH = this [unfolded eq]
      show ?thesis
        using IH True unfolding evs drop drop_swap_remove [OF i] take_swap_remove [OF i] by simp
    qed
  qed
qed

subsection \<open>The invariant\<close>

text \<open>
  Every name in the map points to an allocated state of that name; the lists have no repetition
  and hold exactly the members in the map with the status the list stands for.
\<close>

definition lists_inv ::
  "(loc \<Rightarrow> memberState) \<Rightarrow> (string \<rightharpoonup> loc) \<Rightarrow> loc \<Rightarrow> loc list \<Rightarrow> loc list \<Rightarrow> bool" where
  "lists_inv store members next failed left \<longleftrightarrow>
     (\<forall>n l. members n = Some l \<longrightarrow> m_Name (store l) = n \<and> l < next)
     \<and> distinct failed \<and> distinct left
     \<and> set failed = {l \<in> ran members. m_Status (store l) = StatusFailed}
     \<and> set left = {l \<in> ran members. m_Status (store l) = StatusLeft}"

definition members_inv :: "members_state \<Rightarrow> bool" where
  "members_inv s \<longleftrightarrow> lists_inv (sm_store s) (sm_members s) (sm_next s) (sm_failed s) (sm_left s)"

lemma lists_invD:
  assumes "lists_inv store members next failed left"
  shows "members n = Some l \<Longrightarrow> m_Name (store l) = n" "members n = Some l \<Longrightarrow> l < next"
    and "distinct failed" "distinct left"
    and "l \<in> set failed \<longleftrightarrow> l \<in> ran members \<and> m_Status (store l) = StatusFailed"
    and "l \<in> set left \<longleftrightarrow> l \<in> ran members \<and> m_Status (store l) = StatusLeft"
  using assms by (auto simp: lists_inv_def)

lemma lists_inv_same_name:
  assumes "lists_inv store members next failed left" "members n = Some l" "l' \<in> ran members"
  shows "m_Name (store l') = n \<longleftrightarrow> l' = l"
  using assms by (auto simp: lists_inv_def ran_def)

text \<open>Writing one member, with the lists brought up to date.\<close>

lemma lists_inv_write:
  assumes inv: "lists_inv store members next failed left" and l: "members n = Some l" "m_Name m = n"
    and lists: "distinct failed'" "distinct left'"
      "set failed' = (if m_Status m = StatusFailed then insert l (set failed) else set failed - {l})"
      "set left' = (if m_Status m = StatusLeft then insert l (set left) else set left - {l})"
  shows "lists_inv (store(l := m)) members next failed' left'"
proof -
  have ran: "l \<in> ran members" by (rule ranI [of members n l, OF l(1)])
  have "m_Name ((store(l := m)) k) = a \<and> k < next" if "members a = Some k" for a k
    using that l lists_invD(1,2) [OF inv that] lists_invD(1) [OF inv l(1)] by auto
  moreover have "set failed' = {k \<in> ran members. m_Status ((store(l := m)) k) = StatusFailed}"
    using ran by (auto simp: lists(3) lists_invD(5) [OF inv])
  moreover have "set left' = {k \<in> ran members. m_Status ((store(l := m)) k) = StatusLeft}"
    using ran by (auto simp: lists(4) lists_invD(6) [OF inv])
  ultimately show ?thesis using lists(1,2) unfolding lists_inv_def by blast
qed

text \<open>A write that changes neither the name nor whether the status is failed or left.\<close>

lemma lists_inv_write_same:
  assumes "lists_inv store members next failed left" "members n = Some l" "m_Name m = n"
    and "m_Status m = StatusFailed \<longleftrightarrow> m_Status (store l) = StatusFailed"
    and "m_Status m = StatusLeft \<longleftrightarrow> m_Status (store l) = StatusLeft"
  shows "lists_inv (store(l := m)) members next failed left"
proof (rule lists_inv_write [OF assms(1,2,3)])
  note inv = lists_invD [OF assms(1)]
  show "distinct failed" "distinct left" by (fact inv(3) inv(4))+
  show "set failed = (if m_Status m = StatusFailed then insert l (set failed) else set failed - {l})"
    "set left = (if m_Status m = StatusLeft then insert l (set left) else set left - {l})"
    using assms(4,5) inv(5,6) [of l] ranI [of members n l, OF assms(2)] by auto
qed

lemma removeOldMember_inv:
  assumes "lists_inv store members next failed left" "members n = Some l" "set old \<subseteq> ran members"
    "distinct old" "m_Name m = n"
  shows "set (removeOldMember (store(l := m)) old n) = set old - {l}
    \<and> distinct (removeOldMember (store(l := m)) old n)"
proof (rule removeOldMember_set [OF assms(4)])
  show "\<forall>l'\<in>set old. (m_Name ((store(l := m)) l') = n) = (l' = l)"
    using lists_inv_same_name [OF assms(1,2)] assms(3,5) by auto
qed

subsection \<open>Every handler keeps the invariant\<close>

lemma members_inv_fields:
  "sm_store s' = sm_store s \<Longrightarrow> sm_members s' = sm_members s \<Longrightarrow> sm_next s' = sm_next s \<Longrightarrow>
     sm_failed s' = sm_failed s \<Longrightarrow> sm_left s' = sm_left s \<Longrightarrow> members_inv s' = members_inv s"
  by (simp add: members_inv_def)

lemma members_inv_clock [simp]:
  "members_inv (s\<lparr>sm_clock := c\<rparr>) = members_inv s" "members_inv (s\<lparr>sm_state := st\<rparr>) = members_inv s"
  by (simp_all add: members_inv_def)

lemma write_member_sel [simp]:
  "sm_store (write_member l f s) = (sm_store s)(l := f (sm_store s l))"
  "sm_members (write_member l f s) = sm_members s" "sm_next (write_member l f s) = sm_next s"
  "sm_failed (write_member l f s) = sm_failed s" "sm_left (write_member l f s) = sm_left s"
  "sm_clock (write_member l f s) = sm_clock s" "sm_state (write_member l f s) = sm_state s"
  "sm_recentLeave (write_member l f s) = sm_recentLeave s"
  "sm_recentJoin (write_member l f s) = sm_recentJoin s"
  by (simp_all add: write_member_def)

lemma set_versions_sel [simp]:
  "m_Name (set_versions n m) = m_Name m" "m_Status (set_versions n m) = m_Status m"
  "m_statusLTime (set_versions n m) = m_statusLTime m" "m_leaveTime (set_versions n m) = m_leaveTime m"
  by (simp_all add: set_versions_def)

lemma new_member_sel [simp]:
  "m_Name (new_member env n s) = n_Name n"
  "m_Status (new_member env n s) \<noteq> StatusFailed" "m_Status (new_member env n s) \<noteq> StatusLeft"
  by (auto simp: new_member_def Let_def split: option.splits)

lemma handleNodeJoin_inv:
  assumes "members_inv s"
  shows "members_inv (fst (handleNodeJoin env n s))"
proof (cases "sm_members s (n_Name n)")
  case None
  let ?m = "set_versions n (new_member env n s)"
  have st: "m_Status ?m \<noteq> StatusFailed" "m_Status ?m \<noteq> StatusLeft"
    by simp_all
  have inv: "lists_inv (sm_store s) (sm_members s) (sm_next s) (sm_failed s) (sm_left s)"
    using assms by (simp add: members_inv_def)
  have fresh: "sm_next s \<notin> ran (sm_members s)" using lists_invD(2) [OF inv] by (auto simp: ran_def)
  have "lists_inv ((sm_store s)(sm_next s := ?m)) ((sm_members s)(n_Name n \<mapsto> sm_next s)) (sm_next s + 1)
      (sm_failed s) (sm_left s)"
    unfolding lists_inv_def
  proof (intro conjI allI impI)
    fix a k assume "((sm_members s)(n_Name n \<mapsto> sm_next s)) a = Some k"
    then show "m_Name (((sm_store s)(sm_next s := ?m)) k) = a" "k < sm_next s + 1"
      using lists_invD(1,2) [OF inv, of a k] by (auto split: if_splits)
  next
    show "distinct (sm_failed s)" "distinct (sm_left s)" by (fact lists_invD(3,4) [OF inv])+
    show "set (sm_failed s) = {l \<in> ran ((sm_members s)(n_Name n \<mapsto> sm_next s)).
        m_Status (((sm_store s)(sm_next s := ?m)) l) = StatusFailed}"
      "set (sm_left s) = {l \<in> ran ((sm_members s)(n_Name n \<mapsto> sm_next s)).
        m_Status (((sm_store s)(sm_next s := ?m)) l) = StatusLeft}"
      using None st fresh lists_invD(5,6) [OF inv] by auto
  qed
  then show ?thesis
    using None by (simp add: handleNodeJoin_def members_inv_def Let_def)
next
  case (Some l)
  let ?m = "set_versions n ((sm_store s l)\<lparr>m_Status := StatusAlive, m_leaveTime := 0, m_Addr := n_Addr n,
                m_Port := n_Port n, m_Tags := decodeTags env (n_Meta n)\<rparr>)"
  have inv: "lists_inv (sm_store s) (sm_members s) (sm_next s) (sm_failed s) (sm_left s)"
    using assms by (simp add: members_inv_def)
  note D = lists_invD [OF inv]
  have name: "m_Name (sm_store s l) = n_Name n" by (rule D(1) [OF Some])
  have sub: "set (sm_failed s) \<subseteq> ran (sm_members s)" "set (sm_left s) \<subseteq> ran (sm_members s)"
    using D(5,6) by auto
  have "m_Name ?m = n_Name n" by (simp add: name)
  note rem = removeOldMember_inv [OF inv Some sub(1) D(3) this] removeOldMember_inv [OF inv Some sub(2) D(4) this]
  have "lists_inv ((sm_store s)(l := ?m)) (sm_members s) (sm_next s)
      (removeOldMember ((sm_store s)(l := ?m)) (sm_failed s) (n_Name n))
      (removeOldMember ((sm_store s)(l := ?m)) (sm_left s) (n_Name n))"
    by (rule lists_inv_write [OF inv Some]) (use name rem in simp_all)
  moreover have "lists_inv ((sm_store s)(l := ?m)) (sm_members s) (sm_next s) (sm_failed s) (sm_left s)"
    if "m_Status (sm_store s l) \<noteq> StatusFailed" "m_Status (sm_store s l) \<noteq> StatusLeft"
    by (rule lists_inv_write_same [OF inv Some]) (use name that in simp_all)
  ultimately show ?thesis
    using Some name by (simp add: handleNodeJoin_def members_inv_def Let_def)
qed

lemma lists_inv_append:
  assumes inv: "lists_inv store members next failed left" and l: "members n = Some l" "m_Name m = n"
    and old: "m_Status (store l) \<noteq> StatusFailed" "m_Status (store l) \<noteq> StatusLeft"
  shows "m_Status m = StatusFailed \<Longrightarrow> lists_inv (store(l := m)) members next (failed @ [l]) left"
    and "m_Status m = StatusLeft \<Longrightarrow> lists_inv (store(l := m)) members next failed (left @ [l])"
proof -
  note D = lists_invD [OF inv]
  have out: "l \<notin> set failed" "l \<notin> set left" using D(5,6) [of l] old by auto
  show "lists_inv (store(l := m)) members next (failed @ [l]) left" if "m_Status m = StatusFailed"
    by (rule lists_inv_write [OF inv l]) (use that out D(3,4) in simp_all)
  show "lists_inv (store(l := m)) members next failed (left @ [l])" if "m_Status m = StatusLeft"
    by (rule lists_inv_write [OF inv l]) (use that out D(3,4) in simp_all)
qed

lemma handleNodeLeave_inv:
  assumes "members_inv s"
  shows "members_inv (fst (handleNodeLeave now n s))"
proof (cases "sm_members s (n_Name n)")
  case (Some l)
  have inv: "lists_inv (sm_store s) (sm_members s) (sm_next s) (sm_failed s) (sm_left s)"
    using assms by (simp add: members_inv_def)
  have name: "m_Name (sm_store s l) = n_Name n" by (rule lists_invD(1) [OF inv Some])
  note app = lists_inv_append [OF inv Some]
  from Some name assms show ?thesis
    by (cases "m_Status (sm_store s l)") (simp_all add: handleNodeLeave_def members_inv_def Let_def app)
qed (simp add: handleNodeLeave_def assms)

lemma handleNodeUpdate_inv:
  assumes "members_inv s"
  shows "members_inv (fst (handleNodeUpdate env n s))"
proof (cases "sm_members s (n_Name n)")
  case (Some l)
  have inv: "lists_inv (sm_store s) (sm_members s) (sm_next s) (sm_failed s) (sm_left s)"
    using assms by (simp add: members_inv_def)
  have name: "m_Name (sm_store s l) = n_Name n" by (rule lists_invD(1) [OF inv Some])
  with Some lists_inv_write_same [OF inv Some] show ?thesis
    by (simp add: handleNodeUpdate_def members_inv_def Let_def)
qed (simp add: handleNodeUpdate_def assms)

lemma handleNodeJoinIntent_inv:
  assumes "members_inv s"
  shows "members_inv (snd (handleNodeJoinIntent msg s))"
proof (cases "sm_members s (mj_Node msg)")
  case None
  with assms show ?thesis by (simp add: handleNodeJoinIntent_def Let_def members_inv_def)
next
  case (Some l)
  have inv: "lists_inv (sm_store s) (sm_members s) (sm_next s) (sm_failed s) (sm_left s)"
    using assms by (simp add: members_inv_def)
  have name: "m_Name (sm_store s l) = mj_Node msg" by (rule lists_invD(1) [OF inv Some])
  note same = lists_inv_write_same [OF inv Some]
  show ?thesis
    by (cases "m_Status (sm_store s l) = StatusLeaving")
       (use Some assms name same in \<open>simp_all add: handleNodeJoinIntent_def Let_def members_inv_def\<close>)
qed

lemma handleNodeLeaveIntent_inv:
  assumes "members_inv s"
  shows "members_inv (fst (snd (handleNodeLeaveIntent env msg s)))"
proof (cases "sm_members s (ml_Node msg)")
  case None
  with assms show ?thesis by (simp add: handleNodeLeaveIntent_def Let_def members_inv_def)
next
  case (Some l)
  have inv: "lists_inv (sm_store s) (sm_members s) (sm_next s) (sm_failed s) (sm_left s)"
    using assms by (simp add: members_inv_def)
  note D = lists_invD [OF inv]
  have name: "m_Name (sm_store s l) = ml_Node msg" by (rule D(1) [OF Some])
  have sub: "set (sm_failed s) \<subseteq> ran (sm_members s)" using D(5) by auto
  have leaving: "lists_inv ((sm_store s)(l := (sm_store s l)\<lparr>m_Status := StatusLeaving, m_statusLTime := ml_LTime msg\<rparr>))
      (sm_members s) (sm_next s) (sm_failed s) (sm_left s)" if "m_Status (sm_store s l) = StatusAlive"
    by (rule lists_inv_write_same [OF inv Some]) (use name that in simp_all)
  let ?m = "(sm_store s l)\<lparr>m_Status := StatusLeft, m_statusLTime := ml_LTime msg\<rparr>"
  have "m_Name ?m = ml_Node msg" by (simp add: name)
  note rem = removeOldMember_inv [OF inv Some sub D(3) this]
  have left: "lists_inv ((sm_store s)(l := ?m)) (sm_members s) (sm_next s)
      (removeOldMember ((sm_store s)(l := ?m)) (sm_failed s) (ml_Node msg)) (sm_left s @ [l])"
    if "m_Status (sm_store s l) = StatusFailed"
  proof (rule lists_inv_write [OF inv Some])
    have "l \<notin> set (sm_left s)" using that D(6) [of l] by simp
    then show "distinct (sm_left s @ [l])" using D(4) by simp
  qed (use name rem in simp_all)
  show ?thesis
    using Some name leaving left inv
    by (cases "m_Status (sm_store s l)") (simp_all add: handleNodeLeaveIntent_def Let_def members_inv_def)
qed

lemma ran_without:
  assumes inv: "lists_inv store members next failed left" and D: "D \<subseteq> ran members"
  shows "ran (members |` (- (\<lambda>l. m_Name (store l)) ` D)) = ran members - D"
proof -
  have "n \<notin> (\<lambda>l. m_Name (store l)) ` D \<longleftrightarrow> l \<notin> D" if "members n = Some l" for n l
    using lists_inv_same_name [OF inv that] D by auto
  then show ?thesis by (auto simp: ran_def restrict_map_def)
qed

lemma reap_from_lists:
  assumes inv: "lists_inv store members next failed left" and old: "distinct old" "set old \<subseteq> ran members"
    and reap: "reap_from expired store 0 old members = (old', members', evs)"
  shows "set old' = {l \<in> set old. \<not> expired (store l)}" "distinct old'"
    and "ran members' = ran members - {l \<in> set old. expired (store l)}"
    and "\<And>n l. members' n = Some l \<Longrightarrow> members n = Some l"
proof -
  note spec = reap_from_spec [OF reap, simplified]
  have mset: "mset old' = mset (filter (\<lambda>l. \<not> expired (store l)) old)"
    using spec by simp
  show "set old' = {l \<in> set old. \<not> expired (store l)}" using mset_eq_setD [OF mset] by simp
  show "distinct old'" using mset_eq_imp_distinct_iff [OF mset] old(1) by simp
  have gone: "gone expired store old = (\<lambda>l. m_Name (store l)) ` {l \<in> set old. expired (store l)}"
    by (auto simp: gone_def)
  have members': "members' = members |` (- (\<lambda>l. m_Name (store l)) ` {l \<in> set old. expired (store l)})"
    using spec by (simp add: gone)
  show "ran members' = ran members - {l \<in> set old. expired (store l)}"
    unfolding members' by (rule ran_without [OF inv]) (use old(2) in blast)
  show "\<And>n l. members' n = Some l \<Longrightarrow> members n = Some l"
    unfolding members' by (auto simp: restrict_map_def split: if_splits)
qed

lemma reap_inv:
  assumes "members_inv s"
  shows "reap now timeout (sm_failed s) s = (old', s', evs) \<Longrightarrow> members_inv (s'\<lparr>sm_failed := old'\<rparr>)"
    and "reap now timeout (sm_left s) s = (old', s', evs) \<Longrightarrow> members_inv (s'\<lparr>sm_left := old'\<rparr>)"
proof -
  have inv: "lists_inv (sm_store s) (sm_members s) (sm_next s) (sm_failed s) (sm_left s)"
    using assms by (simp add: members_inv_def)
  note D = lists_invD [OF inv]
  have sub: "set (sm_failed s) \<subseteq> ran (sm_members s)" "set (sm_left s) \<subseteq> ran (sm_members s)"
    using D(5,6) by auto
  {
    assume "reap now timeout (sm_failed s) s = (old', s', evs)"
    then obtain members' where r: "reap_from (reapable now timeout) (sm_store s) 0 (sm_failed s) (sm_members s)
        = (old', members', evs)" and s': "s' = s\<lparr>sm_members := members'\<rparr>"
      by (auto simp: reap_def split: prod.splits)
    note L = reap_from_lists [OF inv D(3) sub(1) r]
    have "set old' = {l \<in> ran members'. m_Status (sm_store s l) = StatusFailed}"
      "set (sm_left s) = {l \<in> ran members'. m_Status (sm_store s l) = StatusLeft}"
      unfolding L(1,3) using D(5,6) by auto
    with D(1,2,4) L(2,4) show "members_inv (s'\<lparr>sm_failed := old'\<rparr>)"
      unfolding members_inv_def lists_inv_def s' by (simp; blast)
  }
  {
    assume "reap now timeout (sm_left s) s = (old', s', evs)"
    then obtain members' where r: "reap_from (reapable now timeout) (sm_store s) 0 (sm_left s) (sm_members s)
        = (old', members', evs)" and s': "s' = s\<lparr>sm_members := members'\<rparr>"
      by (auto simp: reap_def split: prod.splits)
    note L = reap_from_lists [OF inv D(4) sub(2) r]
    have "set old' = {l \<in> ran members'. m_Status (sm_store s l) = StatusLeft}"
      "set (sm_failed s) = {l \<in> ran members'. m_Status (sm_store s l) = StatusFailed}"
      unfolding L(1,3) using D(5,6) by auto
    with D(1,2,3) L(2,4) show "members_inv (s'\<lparr>sm_left := old'\<rparr>)"
      unfolding members_inv_def lists_inv_def s' by (simp; blast)
  }
qed

lemma handleReap_round_inv:
  assumes "members_inv s"
  shows "members_inv (fst (handleReap_round now1 rt now2 tt s))"
proof -
  obtain failed s1 evs1 where r1: "reap now1 rt (sm_failed s) s = (failed, s1, evs1)"
    by (cases "reap now1 rt (sm_failed s) s")
  let ?s2 = "s1\<lparr>sm_failed := failed\<rparr>"
  obtain left s3 evs2 where r2: "reap now2 tt (sm_left ?s2) ?s2 = (left, s3, evs2)"
    by (cases "reap now2 tt (sm_left ?s2) ?s2")
  from reap_inv(2) [OF reap_inv(1) [OF assms r1] r2] show ?thesis
    using r2 by (simp add: handleReap_round_def r1)
qed

subsection \<open>Join, leave and shutdown keep it\<close>

lemma broadcastJoin_inv: "members_inv s \<Longrightarrow> members_inv (fst (snd (broadcastJoin env t s)))"
  using handleNodeJoinIntent_inv [of "s\<lparr>sm_clock := clock_Witness t (sm_clock s)\<rparr>"]
  by (simp add: broadcastJoin_def Let_def case_prod_beta)

lemma serf_Join_inv: "members_inv s \<Longrightarrow> members_inv (fst (snd (serf_Join env joined s)))"
  using broadcastJoin_inv [of s env "sm_clock s"]
  by (auto simp: serf_Join_def case_prod_beta split: option.splits)

lemma Leave_begin_inv: "members_inv s \<Longrightarrow> members_inv (fst (snd (Leave_begin env s)))"
  using handleNodeLeaveIntent_inv [of "s\<lparr>sm_state := SerfLeaving, sm_clock := clock_Increment (sm_clock s)\<rparr>"]
  by (auto simp: Leave_begin_def Let_def case_prod_beta split: SerfState.split option.splits)

lemma Leave_finish_inv: "members_inv s \<Longrightarrow> members_inv (snd (Leave_finish queued notified err s))"
  by (auto simp: Leave_finish_def split: option.splits)

lemma RemoveFailedNode_inv: "members_inv s \<Longrightarrow> members_inv (fst (snd (RemoveFailedNode env node notified s)))"
  using handleNodeLeaveIntent_inv [of "s\<lparr>sm_clock := clock_Increment (sm_clock s)\<rparr>"]
  by (auto simp: RemoveFailedNode_def Let_def case_prod_beta split: option.splits)

lemma Shutdown_inv: "members_inv s \<Longrightarrow> members_inv (snd (Shutdown err s))"
  by (simp add: Shutdown_def)

lemmas handlers_inv =
  handleNodeJoin_inv handleNodeLeave_inv handleNodeUpdate_inv handleNodeLeaveIntent_inv
  handleNodeJoinIntent_inv handleReap_round_inv broadcastJoin_inv serf_Join_inv Leave_begin_inv
  Leave_finish_inv RemoveFailedNode_inv Shutdown_inv

end
