(* ===== verification/SerfLife.thy ===== *)
theory SerfLife
  imports Membership
begin

section \<open>The life of a member and of a node (serf/serf.go)\<close>

text \<open>
  Everything that changes the members is a step: what memberlist reports, the intents that are
  gossiped, the reaper, and the calls of the application. The steps interleave in any order.
  Over their runs this theory proves the invariant of the lists, the life cycle of a member
  as a refinement of an abstract machine, how intents converge, and what \<open>Leave\<close> guarantees.
\<close>

subsection \<open>Steps\<close>

inductive member_step :: "members_env \<Rightarrow> members_state \<Rightarrow> members_state \<Rightarrow> bool" for env where
  node_join: "member_step env s (fst (handleNodeJoin env n s))"
| node_leave: "member_step env s (fst (handleNodeLeave now n s))"
| node_update: "member_step env s (fst (handleNodeUpdate env n s))"
| leave_intent: "member_step env s (fst (snd (handleNodeLeaveIntent env lm s)))"
| join_intent: "member_step env s (snd (handleNodeJoinIntent jm s))"
| reap_round: "member_step env s (fst (handleReap_round now1 rt now2 tt s))"
| join: "member_step env s (fst (snd (serf_Join env joined s)))"
| refute: "member_step env s (fst (snd (broadcastJoin env t s)))"
| remove_failed: "member_step env s (fst (snd (RemoveFailedNode env node notified s)))"
| shutdown: "member_step env s (snd (Shutdown err s))"

text \<open>
  With \<open>Leave\<close>: the second component counts the calls between their two halves. A call that
  is refused, or fails before the wait, is over at once.
\<close>

inductive serf_step :: "members_env \<Rightarrow> members_state \<times> nat \<Rightarrow> members_state \<times> nat \<Rightarrow> bool" for env where
  member: "member_step env s s' \<Longrightarrow> serf_step env (s, k) (s', k)"
| leave_over: "Leave_begin env s = (LeaveReturns e, s', out) \<Longrightarrow> serf_step env (s, k) (s', k)"
| leave_waits: "Leave_begin env s = (LeaveWaits queued, s', out) \<Longrightarrow> serf_step env (s, k) (s', Suc k)"
| leave_ends: "serf_step env (s, Suc k) (snd (Leave_finish queued notified err s), k)"

inductive_cases serf_stepE: "serf_step env (s, k) (s', k')"

text \<open>The state \<open>Create\<close> builds, with rings of \<open>n\<close> intents.\<close>

definition members_init :: "nat \<Rightarrow> members_state" where
  "members_init n =
     \<lparr>sm_store = (\<lambda>_. \<lparr>m_Name = [], m_Addr = [], m_Port = 0, m_Tags = Map.empty, m_Status = StatusNone,
        m_ProtocolMin = 0, m_ProtocolMax = 0, m_ProtocolCur = 0,
        m_DelegateMin = 0, m_DelegateMax = 0, m_DelegateCur = 0, m_statusLTime = 0, m_leaveTime = 0\<rparr>),
      sm_next = 0, sm_members = Map.empty, sm_failed = [], sm_left = [],
      sm_recentLeave = replicate n \<lparr>ni_LTime = 0, ni_Node = []\<rparr>, sm_recentLeaveIndex = 0,
      sm_recentJoin = replicate n \<lparr>ni_LTime = 0, ni_Node = []\<rparr>, sm_recentJoinIndex = 0,
      sm_clock = 1, sm_state = SerfAlive\<rparr>"

definition serf_reach :: "members_env \<Rightarrow> nat \<Rightarrow> members_state \<times> nat \<Rightarrow> bool" where
  "serf_reach env n c \<longleftrightarrow> (serf_step env)\<^sup>*\<^sup>* (members_init n, 0) c"

lemma members_inv_init: "members_inv (members_init n)"
  by (simp add: members_inv_def lists_inv_def members_init_def)

lemma member_step_inv: "member_step env s s' \<Longrightarrow> members_inv s \<Longrightarrow> members_inv s'"
  by (induction rule: member_step.induct) (simp_all add: handlers_inv)

lemma serf_step_inv: "serf_step env c c' \<Longrightarrow> members_inv (fst c) \<Longrightarrow> members_inv (fst c')"
proof (induction rule: serf_step.induct)
  case (leave_over s e s' out k)
  with Leave_begin_inv [of s env] show ?case by simp
next
  case (leave_waits s queued s' out k)
  with Leave_begin_inv [of s env] show ?case by simp
qed (simp_all add: member_step_inv handlers_inv)

lemma serf_reach_inv: "serf_reach env n c \<Longrightarrow> members_inv (fst c)"
  unfolding serf_reach_def
  by (induction rule: rtranclp_induct) (simp_all add: members_inv_init serf_step_inv)

subsection \<open>The life cycle of a member\<close>

text \<open>The abstract machine: the status of one name, \<open>None\<close> while it is not a member.\<close>

definition status_of :: "members_state \<Rightarrow> string \<Rightarrow> MemberStatus option" where
  "status_of s n = map_option (\<lambda>l. m_Status (sm_store s l)) (sm_members s n)"

inductive lifecycle :: "MemberStatus option \<Rightarrow> MemberStatus option \<Rightarrow> bool" where
  stays: "lifecycle x x"
| appears: "lifecycle None (Some StatusAlive)"
| appears_leaving: "lifecycle None (Some StatusLeaving)"
| announces: "lifecycle (Some StatusAlive) (Some StatusLeaving)"
| leaves: "lifecycle (Some StatusLeaving) (Some StatusLeft)"
| fails: "lifecycle (Some StatusAlive) (Some StatusFailed)"
| removed: "lifecycle (Some StatusFailed) (Some StatusLeft)"
| returns: "lifecycle (Some st) (Some StatusAlive)"
| reaped: "st \<in> {StatusFailed, StatusLeft} \<Longrightarrow> lifecycle (Some st) None"

inductive_simps lifecycle_None [simp]: "lifecycle None x"
inductive_simps lifecycle_Some [simp]: "lifecycle (Some st) x"

text \<open>What happens without a report from memberlist: intents and the reaper.\<close>

inductive own_change :: "MemberStatus option \<Rightarrow> MemberStatus option \<Rightarrow> bool" where
  own_stays: "own_change x x"
| own_announces: "own_change (Some StatusAlive) (Some StatusLeaving)"
| own_reverts: "own_change (Some StatusLeaving) (Some StatusAlive)"
| own_removed: "own_change (Some StatusFailed) (Some StatusLeft)"
| own_reaped: "st \<in> {StatusFailed, StatusLeft} \<Longrightarrow> own_change (Some st) None"

lemma own_lifecycle: "own_change x y \<Longrightarrow> lifecycle x y"
  by (induction rule: own_change.induct) (auto intro: lifecycle.intros)

text \<open>A write through the pointer of one name changes the status of that name alone.\<close>

lemma status_of_write:
  assumes "members_inv s" "sm_members s n = Some l" "sm_members s' = sm_members s"
    and "sm_store s' = (sm_store s)(l := m)"
  shows "status_of s' n' = (if n' = n then Some (m_Status m) else status_of s n')"
proof -
  have inv: "lists_inv (sm_store s) (sm_members s) (sm_next s) (sm_failed s) (sm_left s)"
    using assms(1) by (simp add: members_inv_def)
  have "k \<noteq> l" if "sm_members s n' = Some k" "n' \<noteq> n" for k
    using lists_invD(1) [OF inv that(1)] lists_invD(1) [OF inv assms(2)] that(2) by auto
  with assms(2-4) show ?thesis by (cases "sm_members s n'") (auto simp: status_of_def)
qed

lemma status_of_same:
  "sm_members s' = sm_members s \<Longrightarrow> sm_store s' = sm_store s \<Longrightarrow> status_of s' = status_of s"
  by (simp add: status_of_def fun_eq_iff)

lemma status_of_Some: "sm_members s n = Some l \<Longrightarrow> status_of s n = Some (m_Status (sm_store s l))"
  by (simp add: status_of_def)

lemma write_member_rel:
  assumes "members_inv s" "sm_members s n = Some l"
    and "sm_members s' = sm_members s" "sm_store s' = (sm_store s)(l := m)"
    and "R (Some (m_Status (sm_store s l))) (Some (m_Status m))" "\<And>x. R x x"
  shows "R (status_of s n') (status_of s' n')"
  using status_of_write [OF assms(1-4), of n'] assms(2,5,6) status_of_Some [OF assms(2)]
  by (cases "n' = n") auto

lemmas write_member_status = write_member_rel [where R = lifecycle, OF _ _ _ _ _ stays]
lemmas write_member_own = write_member_rel [where R = own_change, OF _ _ _ _ _ own_stays]

lemma new_member_status:
  "m_Status (new_member env n s) = StatusAlive \<or> m_Status (new_member env n s) = StatusLeaving"
  by (simp add: new_member_def Let_def split: option.splits)

lemma join_lifecycle:
  assumes "members_inv s"
  shows "lifecycle (status_of s n') (status_of (fst (handleNodeJoin env n s)) n')"
proof (cases "sm_members s (n_Name n)")
  case None
  have inv: "lists_inv (sm_store s) (sm_members s) (sm_next s) (sm_failed s) (sm_left s)"
    using assms by (simp add: members_inv_def)
  have "status_of (fst (handleNodeJoin env n s)) n' =
      (if n' = n_Name n then Some (m_Status (new_member env n s)) else status_of s n')"
    using None lists_invD(2) [OF inv, of n']
    by (cases "sm_members s n'") (auto simp: handleNodeJoin_def Let_def status_of_def)
  then show ?thesis
    using None new_member_status [of env n s] by (auto simp: status_of_def intro: stays)
next
  case (Some l)
  show ?thesis
  proof (rule write_member_status [OF assms Some])
    show "sm_members (fst (handleNodeJoin env n s)) = sm_members s"
      using Some by (simp add: handleNodeJoin_def Let_def)
    show "sm_store (fst (handleNodeJoin env n s)) = (sm_store s)(l :=
        set_versions n ((sm_store s l)\<lparr>m_Status := StatusAlive, m_leaveTime := 0, m_Addr := n_Addr n,
          m_Port := n_Port n, m_Tags := decodeTags env (n_Meta n)\<rparr>))"
      using Some by (simp add: handleNodeJoin_def Let_def)
  qed (simp add: returns)
qed

lemma leave_lifecycle:
  assumes "members_inv s"
  shows "lifecycle (status_of s n') (status_of (fst (handleNodeLeave now n s)) n')"
proof (cases "sm_members s (n_Name n)")
  case (Some l)
  let ?s = "fst (handleNodeLeave now n s)"
  consider "m_Status (sm_store s l) = StatusLeaving" | "m_Status (sm_store s l) = StatusAlive"
    | "?s = s"
    using Some by (cases "m_Status (sm_store s l)") (simp_all add: handleNodeLeave_def)
  then show ?thesis
  proof cases
    case 1
    show ?thesis
      by (rule write_member_status [OF assms Some, where
            m = "(sm_store s l)\<lparr>m_Status := StatusLeft, m_leaveTime := now\<rparr>"])
         (simp_all add: handleNodeLeave_def Some 1 Let_def lifecycle.intros)
  next
    case 2
    show ?thesis
      by (rule write_member_status [OF assms Some, where
            m = "(sm_store s l)\<lparr>m_Status := StatusFailed, m_leaveTime := now\<rparr>"])
         (simp_all add: handleNodeLeave_def Some 2 Let_def lifecycle.intros)
  qed (simp add: stays)
qed (simp add: handleNodeLeave_def stays)

lemma update_lifecycle:
  assumes "members_inv s"
  shows "lifecycle (status_of s n') (status_of (fst (handleNodeUpdate env n s)) n')"
proof (cases "sm_members s (n_Name n)")
  case (Some l)
  show ?thesis
    by (rule write_member_status [OF assms Some, where m = "(sm_store s l)\<lparr>m_Addr := n_Addr n,
          m_Port := n_Port n, m_Tags := decodeTags env (n_Meta n)\<rparr>"])
       (simp_all add: handleNodeUpdate_def Some Let_def stays)
qed (simp add: handleNodeUpdate_def stays)

lemma leave_intent_own:
  assumes "members_inv s"
  shows "own_change (status_of s n') (status_of (fst (snd (handleNodeLeaveIntent env lm s))) n')"
proof (cases "sm_members s (ml_Node lm)")
  case None
  then have "status_of (fst (snd (handleNodeLeaveIntent env lm s))) = status_of s"
    by (intro status_of_same) (simp_all add: handleNodeLeaveIntent_def Let_def)
  then show ?thesis by (simp add: own_stays)
next
  case (Some l)
  let ?s = "fst (snd (handleNodeLeaveIntent env lm s))"
  consider (alive) "m_Status (sm_store s l) = StatusAlive" "sm_members ?s = sm_members s"
      "sm_store ?s = (sm_store s)(l := (sm_store s l)\<lparr>m_Status := StatusLeaving, m_statusLTime := ml_LTime lm\<rparr>)"
    | (failed) "m_Status (sm_store s l) = StatusFailed" "sm_members ?s = sm_members s"
      "sm_store ?s = (sm_store s)(l := (sm_store s l)\<lparr>m_Status := StatusLeft, m_statusLTime := ml_LTime lm\<rparr>)"
    | (same) "sm_members ?s = sm_members s" "sm_store ?s = sm_store s"
    using Some
    by (cases "ml_LTime lm \<le> m_statusLTime (sm_store s l)
          \<or> ml_Node lm = sv_NodeName env \<and> sm_state s = SerfAlive"; cases "m_Status (sm_store s l)")
       (auto simp: handleNodeLeaveIntent_def Let_def)
  then show ?thesis
  proof cases
    case alive
    show ?thesis
      by (rule write_member_own [OF assms Some alive(2,3)]) (simp add: alive(1) own_announces)
  next
    case failed
    show ?thesis
      by (rule write_member_own [OF assms Some failed(2,3)]) (simp add: failed(1) own_removed)
  next
    case same
    from status_of_same [OF same] show ?thesis by (simp add: own_stays)
  qed
qed

lemma join_intent_own:
  assumes "members_inv s"
  shows "own_change (status_of s n') (status_of (snd (handleNodeJoinIntent jm s)) n')"
proof (cases "sm_members s (mj_Node jm)")
  case None
  then have "status_of (snd (handleNodeJoinIntent jm s)) = status_of s"
    by (intro status_of_same) (simp_all add: handleNodeJoinIntent_def Let_def)
  then show ?thesis by (simp add: own_stays)
next
  case (Some l)
  show ?thesis
  proof (cases "mj_LTime jm \<le> m_statusLTime (sm_store s l)")
    case True
    with Some have "status_of (snd (handleNodeJoinIntent jm s)) = status_of s"
      by (intro status_of_same) (simp_all add: handleNodeJoinIntent_def Let_def)
    then show ?thesis by (simp add: own_stays)
  next
    case False
    let ?m = "(sm_store s l)\<lparr>m_statusLTime := mj_LTime jm, m_Status :=
      (if m_Status (sm_store s l) = StatusLeaving then StatusAlive else m_Status (sm_store s l))\<rparr>"
    show ?thesis
    proof (rule write_member_own [OF assms Some, where m = ?m])
      show "own_change (Some (m_Status (sm_store s l))) (Some (m_Status ?m))"
        by (cases "m_Status (sm_store s l)") (simp_all add: own_change.intros)
    qed (use False Some in \<open>simp_all add: handleNodeJoinIntent_def Let_def\<close>)
  qed
qed

text \<open>The reaper: a status stays, or it was failed or left and the member is gone.\<close>

definition reaps :: "MemberStatus option \<Rightarrow> MemberStatus option \<Rightarrow> bool" where
  "reaps x y \<longleftrightarrow> y = x \<or> y = None \<and> x \<in> {Some StatusFailed, Some StatusLeft}"

lemma reaps_trans: "reaps x y \<Longrightarrow> reaps y z \<Longrightarrow> reaps x z"
  by (auto simp: reaps_def)

lemma reaps_own: "reaps x y \<Longrightarrow> own_change x y"
  by (auto simp: reaps_def intro: own_change.intros)

lemma reap_reaps:
  assumes inv: "members_inv s" and old: "old = sm_failed s \<or> old = sm_left s"
    and r: "reap now timeout old s = (old', s', evs)"
  shows "reaps (status_of s n) (status_of s' n)"
proof -
  have L: "lists_inv (sm_store s) (sm_members s) (sm_next s) (sm_failed s) (sm_left s)"
    using inv by (simp add: members_inv_def)
  obtain members' where m: "reap_from (reapable now timeout) (sm_store s) 0 old (sm_members s) = (old', members', evs)"
    and s': "s' = s\<lparr>sm_members := members'\<rparr>"
    using r by (auto simp: reap_def split: prod.splits)
  have members': "members' = sm_members s |` (- gone (reapable now timeout) (sm_store s) old)"
    using reap_from_spec [OF m] by simp
  show ?thesis
  proof (cases "n \<in> gone (reapable now timeout) (sm_store s) old")
    case True
    then obtain l where l: "l \<in> set old" "m_Name (sm_store s l) = n" by (auto simp: gone_def)
    then have "l \<in> ran (sm_members s)" and st: "m_Status (sm_store s l) \<in> {StatusFailed, StatusLeft}"
      using old lists_invD(5,6) [OF L] by auto
    then obtain a where "sm_members s a = Some l" by (auto simp: ran_def)
    with lists_invD(1) [OF L] l(2) have "sm_members s n = Some l" by auto
    with True st show ?thesis
      unfolding s' members' by (auto simp: reaps_def status_of_def)
  next
    case False
    then show ?thesis unfolding s' members' by (simp add: reaps_def status_of_def)
  qed
qed

lemma reap_own:
  assumes "members_inv s"
  shows "own_change (status_of s n) (status_of (fst (handleReap_round now1 rt now2 tt s)) n)"
proof -
  obtain failed s1 evs1 where r1: "reap now1 rt (sm_failed s) s = (failed, s1, evs1)"
    by (cases "reap now1 rt (sm_failed s) s")
  let ?s2 = "s1\<lparr>sm_failed := failed\<rparr>"
  obtain left s3 evs2 where r2: "reap now2 tt (sm_left ?s2) ?s2 = (left, s3, evs2)"
    by (cases "reap now2 tt (sm_left ?s2) ?s2")
  have "reaps (status_of s n) (status_of s1 n)" by (rule reap_reaps [OF assms _ r1]) simp
  moreover have "reaps (status_of ?s2 n) (status_of s3 n)"
    by (rule reap_reaps [OF reap_inv(1) [OF assms r1] _ r2]) simp
  moreover have "fst (handleReap_round now1 rt now2 tt s) = s3\<lparr>sm_left := left\<rparr>"
    using r2 by (simp add: handleReap_round_def r1)
  moreover have "status_of ?s2 = status_of s1" "status_of (s3\<lparr>sm_left := left\<rparr>) = status_of s3"
    by (simp_all add: status_of_def fun_eq_iff)
  ultimately show ?thesis using reaps_trans reaps_own by simp
qed

lemma status_of_fields [simp]:
  "status_of (s\<lparr>sm_clock := c\<rparr>) = status_of s" "status_of (s\<lparr>sm_state := st\<rparr>) = status_of s"
  by (simp_all add: status_of_def fun_eq_iff)

lemma broadcastJoin_own:
  "members_inv s \<Longrightarrow> own_change (status_of s n) (status_of (fst (snd (broadcastJoin env t s))) n)"
  using join_intent_own [of "s\<lparr>sm_clock := clock_Witness t (sm_clock s)\<rparr>" n]
  by (simp add: broadcastJoin_def Let_def case_prod_beta)

lemma serf_Join_own:
  "members_inv s \<Longrightarrow> own_change (status_of s n) (status_of (fst (snd (serf_Join env joined s))) n)"
  using broadcastJoin_own [of s n env "sm_clock s"]
  by (auto simp: serf_Join_def case_prod_beta intro: own_stays split: option.splits)

lemma RemoveFailedNode_own:
  "members_inv s \<Longrightarrow> own_change (status_of s n) (status_of (fst (snd (RemoveFailedNode env node notified s))) n)"
  using leave_intent_own [of "s\<lparr>sm_clock := clock_Increment (sm_clock s)\<rparr>" n]
  by (auto simp: RemoveFailedNode_def Let_def case_prod_beta split: option.splits)

lemma Leave_begin_own:
  "members_inv s \<Longrightarrow> own_change (status_of s n) (status_of (fst (snd (Leave_begin env s))) n)"
  using leave_intent_own [of "s\<lparr>sm_state := SerfLeaving, sm_clock := clock_Increment (sm_clock s)\<rparr>" n]
  by (auto simp: Leave_begin_def Let_def case_prod_beta intro: own_stays split: SerfState.split option.splits)

lemma Leave_begin_lifecycle:
  "members_inv s \<Longrightarrow> lifecycle (status_of s n) (status_of (fst (snd (Leave_begin env s))) n)"
  by (rule own_lifecycle [OF Leave_begin_own])

lemmas own_lifecycles =
  leave_intent_own [THEN own_lifecycle] join_intent_own [THEN own_lifecycle] reap_own [THEN own_lifecycle]
  serf_Join_own [THEN own_lifecycle] broadcastJoin_own [THEN own_lifecycle] RemoveFailedNode_own [THEN own_lifecycle]

lemma member_step_lifecycle:
  "member_step env s s' \<Longrightarrow> members_inv s \<Longrightarrow> lifecycle (status_of s n) (status_of s' n)"
proof (induction rule: member_step.induct)
  case (shutdown s err)
  show ?case by (simp add: Shutdown_def stays)
qed (simp_all add: join_lifecycle leave_lifecycle update_lifecycle own_lifecycles)

lemma serf_step_lifecycle:
  assumes "serf_step env c c'" "members_inv (fst c)"
  shows "lifecycle (status_of (fst c) n) (status_of (fst c') n)"
  using assms
proof (induction rule: serf_step.induct)
  case (leave_over s e s' out k)
  with Leave_begin_lifecycle [of s n env] show ?case by simp
next
  case (leave_waits s queued s' out k)
  with Leave_begin_lifecycle [of s n env] show ?case by simp
next
  case (leave_ends s k queued notified err)
  show ?case by (simp add: Leave_finish_def stays split: option.splits)
qed (simp add: member_step_lifecycle)

subsection \<open>Calls of Leave\<close>

text \<open>
  A call of \<open>Leave\<close> that waits is alone, and the state is neither alive nor left while it does.
\<close>

definition leave_inv :: "members_state \<times> nat \<Rightarrow> bool" where
  "leave_inv c \<longleftrightarrow> snd c \<le> 1 \<and> (snd c = 1 \<longrightarrow> sm_state (fst c) \<in> {SerfLeaving, SerfShutdown})"

lemma handlers_state [simp]:
  "sm_state (fst (handleNodeJoin env n s)) = sm_state s"
  "sm_state (fst (handleNodeLeave now n s)) = sm_state s"
  "sm_state (fst (handleNodeUpdate env n s)) = sm_state s"
  "sm_state (fst (snd (handleNodeLeaveIntent env lm s))) = sm_state s"
  "sm_state (snd (handleNodeJoinIntent jm s)) = sm_state s"
  by (simp_all add: handleNodeJoin_def handleNodeLeave_def handleNodeUpdate_def handleNodeLeaveIntent_def
      handleNodeJoinIntent_def Let_def case_prod_beta split: option.split MemberStatus.split)

lemma reap_state [simp]: "sm_state (fst (handleReap_round now1 rt now2 tt s)) = sm_state s"
  by (simp add: handleReap_round_def reap_def Let_def case_prod_beta)

lemma calls_state [simp]:
  "sm_state (fst (snd (broadcastJoin env t s))) = sm_state s"
  "sm_state (fst (snd (serf_Join env joined s))) = sm_state s"
  "sm_state (fst (snd (RemoveFailedNode env node notified s))) = sm_state s"
  by (simp_all add: broadcastJoin_def serf_Join_def RemoveFailedNode_def Let_def case_prod_beta split: option.split)

lemma member_step_state:
  "member_step env s s' \<Longrightarrow> sm_state s' = sm_state s \<or> sm_state s' = SerfShutdown"
  by (induction rule: member_step.induct) (simp_all add: Shutdown_def)

lemma Leave_begin_state:
  "Leave_begin env s = (r, s', out) \<Longrightarrow>
     sm_state s' = (if sm_state s = SerfAlive then SerfLeaving else sm_state s)"
  "Leave_begin env s = (LeaveWaits q, s', out) \<Longrightarrow> sm_state s = SerfAlive"
  by (auto simp: Leave_begin_def Let_def split: SerfState.splits if_splits prod.splits option.splits)

lemma serf_step_leave_inv: "serf_step env c c' \<Longrightarrow> leave_inv c \<Longrightarrow> leave_inv c'"
proof (induction rule: serf_step.induct)
  case (member s s' k)
  from member_step_state [OF this(1)] this(2) show ?case by (auto simp: leave_inv_def)
next
  case (leave_over s e s' out k)
  from Leave_begin_state(1) [OF this(1)] this(2) show ?case by (auto simp: leave_inv_def)
next
  case (leave_waits s queued s' out k)
  from Leave_begin_state [OF this(1)] Leave_begin_state(2) [OF this(1)] this(2) show ?case
    by (auto simp: leave_inv_def le_Suc_eq)
next
  case (leave_ends s k queued notified err)
  then show ?case by (simp add: leave_inv_def)
qed

lemma leave_inv_init: "leave_inv (s, 0)"
  by (simp add: leave_inv_def)

lemma serf_reach_leave_inv: "serf_reach env n c \<Longrightarrow> leave_inv c"
  unfolding serf_reach_def
  by (induction rule: rtranclp_induct) (simp_all add: serf_step_leave_inv leave_inv_init)

text \<open>With no call waiting, a node that is leaving or shut down stays so.\<close>

definition left_behind :: "members_state \<times> nat \<Rightarrow> bool" where
  "left_behind c \<longleftrightarrow> snd c = 0 \<and> sm_state (fst c) \<in> {SerfLeaving, SerfShutdown}"

lemma left_behind_step: "serf_step env c c' \<Longrightarrow> left_behind c \<Longrightarrow> left_behind c'"
proof (induction rule: serf_step.induct)
  case (member s s' k)
  from member_step_state [OF this(1)] this(2) show ?case by (auto simp: left_behind_def)
next
  case (leave_over s e s' out k)
  from Leave_begin_state(1) [OF this(1)] this(2) show ?case by (auto simp: left_behind_def)
next
  case (leave_waits s queued s' out k)
  from Leave_begin_state(2) [OF this(1)] this(2) show ?case by (auto simp: left_behind_def)
qed (simp add: left_behind_def)

lemma left_behind_steps: "(serf_step env)\<^sup>*\<^sup>* c c' \<Longrightarrow> left_behind c \<Longrightarrow> left_behind c'"
  by (induction rule: rtranclp_induct) (simp_all add: left_behind_step)

subsection \<open>Intents about a known member\<close>

lemma clock_Witness_commute:
  assumes "a \<noteq> - 1" "b \<noteq> - 1"
  shows "clock_Witness a (clock_Witness b c) = clock_Witness b (clock_Witness a c)"
proof -
  have w: "clock_Witness v c = max c (v + 1)" if "v \<noteq> - 1" for v c
  proof (cases "v < c")
    case True
    then have "v + 1 \<le> c" using plus_one_greater [OF that] by (simp add: inc_le)
    with True show ?thesis by (simp add: clock_Witness_def max_def)
  next
    case False
    then have "c < v + 1" using plus_one_greater [OF that] by simp
    with False show ?thesis by (simp add: clock_Witness_def)
  qed
  show ?thesis using assms by (simp add: w max.left_commute max.commute)
qed

lemma leave_intent_known:
  assumes "sm_members s n = Some l" "n \<noteq> sv_NodeName env" "m_Status (sm_store s l) = StatusAlive"
  shows "fst (snd (handleNodeLeaveIntent env \<lparr>ml_LTime = t, ml_Node = n\<rparr> s)) =
    (if t \<le> m_statusLTime (sm_store s l) then s\<lparr>sm_clock := clock_Witness t (sm_clock s)\<rparr>
     else s\<lparr>sm_clock := clock_Witness t (sm_clock s), sm_store := (sm_store s)(l :=
       (sm_store s l)\<lparr>m_Status := StatusLeaving, m_statusLTime := t\<rparr>)\<rparr>)"
  using assms by (simp add: handleNodeLeaveIntent_def Let_def write_member_def)

lemma leave_intent_leaving:
  assumes "sm_members s n = Some l" "n \<noteq> sv_NodeName env" "m_Status (sm_store s l) = StatusLeaving"
  shows "fst (snd (handleNodeLeaveIntent env \<lparr>ml_LTime = t, ml_Node = n\<rparr> s)) =
     s\<lparr>sm_clock := clock_Witness t (sm_clock s)\<rparr>"
  using assms by (simp add: handleNodeLeaveIntent_def Let_def)

lemma join_intent_known:
  assumes "sm_members s n = Some l"
  shows "snd (handleNodeJoinIntent \<lparr>mj_LTime = t, mj_Node = n\<rparr> s) =
    (if t \<le> m_statusLTime (sm_store s l) then s\<lparr>sm_clock := clock_Witness t (sm_clock s)\<rparr>
     else s\<lparr>sm_clock := clock_Witness t (sm_clock s), sm_store := (sm_store s)(l :=
       (sm_store s l)\<lparr>m_statusLTime := t, m_Status := (if m_Status (sm_store s l) = StatusLeaving
          then StatusAlive else m_Status (sm_store s l))\<rparr>)\<rparr>)"
  using assms by (simp add: handleNodeJoinIntent_def Let_def write_member_def)

lemma same_status: "m_Status m = st \<Longrightarrow> m\<lparr>m_Status := st\<rparr> = m"
  by (cases m) simp

subsection \<open>Properties\<close>

text \<open>C9: In every reachable state the list of failed members and the list of left members hold
  each name once, and exactly the names of the members with that status.\<close>

theorem member_lists_consistent:
  assumes "serf_reach env k (s, p)"
  shows "distinct (map (\<lambda>l. m_Name (sm_store s l)) (sm_failed s))
    \<and> set (map (\<lambda>l. m_Name (sm_store s l)) (sm_failed s)) = {n. status_of s n = Some StatusFailed}
    \<and> distinct (map (\<lambda>l. m_Name (sm_store s l)) (sm_left s))
    \<and> set (map (\<lambda>l. m_Name (sm_store s l)) (sm_left s)) = {n. status_of s n = Some StatusLeft}"
proof -
  have inv: "lists_inv (sm_store s) (sm_members s) (sm_next s) (sm_failed s) (sm_left s)"
    using serf_reach_inv [OF assms] by (simp add: members_inv_def)
  note D = lists_invD [OF inv]
  have inj: "inj_on (\<lambda>l. m_Name (sm_store s l)) (ran (sm_members s))"
    using D(1) by (auto simp: inj_on_def ran_def)
  have names: "(\<lambda>l. m_Name (sm_store s l)) ` {l \<in> ran (sm_members s). m_Status (sm_store s l) = st}
      = {n. status_of s n = Some st}" for st
    using D(1) by (auto simp: status_of_def ran_def image_iff)
  have sets: "set (sm_failed s) = {l \<in> ran (sm_members s). m_Status (sm_store s l) = StatusFailed}"
    "set (sm_left s) = {l \<in> ran (sm_members s). m_Status (sm_store s l) = StatusLeft}"
    using D(5,6) by auto
  have "inj_on (\<lambda>l. m_Name (sm_store s l)) (set (sm_failed s))"
    "inj_on (\<lambda>l. m_Name (sm_store s l)) (set (sm_left s))"
    unfolding sets by (rule inj_on_subset [OF inj], blast)+
  with D(3,4) names show ?thesis by (simp add: distinct_map sets)
qed

text \<open>C10: In every reachable state each step, whichever name it is about, moves the status of every
  name along the life cycle: no member fails or leaves without having been alive or leaving,
  none is forgotten but a failed or left one, and none that left is failed later.\<close>

theorem member_lifecycle:
  assumes "serf_reach env k c" "serf_step env c c'"
  shows "lifecycle (status_of (fst c) n) (status_of (fst c') n)"
  by (rule serf_step_lifecycle [OF assms(2) serf_reach_inv [OF assms(1)]])

text \<open>C11: A join and a leave intent of different times about an alive member other than the node
  itself lead to the same state in either order.\<close>

theorem intents_commute:
  assumes "sm_members s n = Some l" "n \<noteq> sv_NodeName env" "m_Status (sm_store s l) = StatusAlive"
    and "tj \<noteq> tv" "tj \<noteq> - 1" "tv \<noteq> - 1"
  shows "fst (snd (handleNodeLeaveIntent env \<lparr>ml_LTime = tv, ml_Node = n\<rparr>
           (snd (handleNodeJoinIntent \<lparr>mj_LTime = tj, mj_Node = n\<rparr> s))))
       = snd (handleNodeJoinIntent \<lparr>mj_LTime = tj, mj_Node = n\<rparr>
           (fst (snd (handleNodeLeaveIntent env \<lparr>ml_LTime = tv, ml_Node = n\<rparr> s))))"
  using assms(1-4) clock_Witness_commute [OF assms(5,6), of "sm_clock s"]
  by (auto simp: leave_intent_known join_intent_known same_status)

text \<open>With two leave intents the order matters: a leave intent for a member that is already
  leaving is dropped with its time, so a join intent between the two makes the member alive
  again when it comes last, and leaves it leaving when it comes before the second.\<close>

theorem second_leave_forgotten:
  assumes "sm_members s n = Some l" "n \<noteq> sv_NodeName env" "m_Status (sm_store s l) = StatusAlive"
    and "m_statusLTime (sm_store s l) < t1" "t1 < t2" "t2 < t3"
  defines "L \<equiv> \<lambda>t s. fst (snd (handleNodeLeaveIntent env \<lparr>ml_LTime = t, ml_Node = n\<rparr> s))"
    and "J \<equiv> \<lambda>t s. snd (handleNodeJoinIntent \<lparr>mj_LTime = t, mj_Node = n\<rparr> s)"
  shows "status_of (J t2 (L t3 (L t1 s))) n = Some StatusAlive
    \<and> status_of (L t3 (J t2 (L t1 s))) n = Some StatusLeaving"
proof -
  have lt: "m_statusLTime (sm_store s l) < t3" "t1 < t3" using assms(4-6) by auto
  show ?thesis
    using assms(1-6) lt unfolding L_def J_def
    by (simp add: leave_intent_known leave_intent_leaving join_intent_known status_of_def not_le [symmetric])
qed

text \<open>A node that is told that it leaves, by an intent newer than its own state, keeps its
  members as they are and answers with a join intent of a later time; that intent makes it alive
  again on every other node which had believed the leave.\<close>

theorem refutation_restores:
  assumes "sm_members s (sv_NodeName env) = Some l" "sm_state s = SerfAlive"
    and "m_statusLTime (sm_store s l) < v" "v \<noteq> - 1"
    and "sm_members p (sv_NodeName env) = Some l'" "sv_NodeName env \<noteq> sv_NodeName env'"
    and "m_Status (sm_store p l') = StatusAlive" "m_statusLTime (sm_store p l') < v"
  shows "\<exists>t. handleNodeLeaveIntent env \<lparr>ml_LTime = v, ml_Node = sv_NodeName env\<rparr> s =
        (False, s\<lparr>sm_clock := clock_Witness v (sm_clock s)\<rparr>, Some t)
    \<and> (let p' = fst (snd (handleNodeLeaveIntent env' \<lparr>ml_LTime = v, ml_Node = sv_NodeName env\<rparr> p))
       in status_of p' (sv_NodeName env) = Some StatusLeaving
        \<and> status_of (snd (handleNodeJoinIntent \<lparr>mj_LTime = t, mj_Node = sv_NodeName env\<rparr> p'))
            (sv_NodeName env) = Some StatusAlive)"
proof (intro exI conjI)
  let ?t = "clock_Witness v (sm_clock s)"
  have later: "v < ?t" by (rule clock_Witness_greater [OF assms(4)])
  show "handleNodeLeaveIntent env \<lparr>ml_LTime = v, ml_Node = sv_NodeName env\<rparr> s =
        (False, s\<lparr>sm_clock := clock_Witness v (sm_clock s)\<rparr>, Some ?t)"
    using assms(1-3) by (simp add: handleNodeLeaveIntent_def Let_def not_le [symmetric])
  show "let p' = fst (snd (handleNodeLeaveIntent env' \<lparr>ml_LTime = v, ml_Node = sv_NodeName env\<rparr> p))
       in status_of p' (sv_NodeName env) = Some StatusLeaving
        \<and> status_of (snd (handleNodeJoinIntent \<lparr>mj_LTime = ?t, mj_Node = sv_NodeName env\<rparr> p'))
            (sv_NodeName env) = Some StatusAlive"
    using assms(5-8) later
    by (simp add: leave_intent_known [OF assms(5,6,7)] join_intent_known Let_def status_of_def not_le [symmetric])
qed

text \<open>Once a call of \<open>Leave\<close> has failed, by a timeout or an error of memberlist, no later call
  succeeds, whatever happens in between.\<close>

theorem failed_leave_is_final:
  assumes "serf_reach env k (s, 0)" "sm_state s = SerfLeaving" "(serf_step env)\<^sup>*\<^sup>* (s, 0) (s', p)"
  shows "\<exists>e. fst (Leave_begin env s') = LeaveReturns (Some e)"
proof -
  have "left_behind (s', p)"
    by (rule left_behind_steps [OF assms(3)]) (simp add: left_behind_def assms(2))
  then show ?thesis by (auto simp: left_behind_def Leave_begin_def)
qed

text \<open>The reaper terminates having removed exactly the members whose time is up from its list
  and their names from the map, with one event for each.\<close>

theorem reap_removes_expired:
  "\<exists>old' evs. reap now timeout old s =
       (old', s\<lparr>sm_members := sm_members s |` (- {m_Name (sm_store s l) | l.
          l \<in> set old \<and> timeout < now - m_leaveTime (sm_store s l)})\<rparr>, evs)
     \<and> mset old' = filter_mset (\<lambda>l. now - m_leaveTime (sm_store s l) \<le> timeout) (mset old)
     \<and> mset evs = image_mset (\<lambda>l. member_event EventMemberReap (sm_store s l))
         (filter_mset (\<lambda>l. timeout < now - m_leaveTime (sm_store s l)) (mset old))"
proof -
  obtain old' members' evs where r:
    "reap_from (reapable now timeout) (sm_store s) 0 old (sm_members s) = (old', members', evs)"
    by (metis prod_cases3)
  from reap_from_spec [OF r] r show ?thesis
    by (simp add: reap_def gone_def reapable_def not_le not_less)
qed

subsection \<open>Concrete runs\<close>

definition demo_serf :: members_env where
  "demo_serf = \<lparr>sv_NodeName = ''n1'', sv_decode_map = (\<lambda>_. Map.empty), sv_encode = (\<lambda>_. Inr [1])\<rparr>"

definition demo_member :: "string \<Rightarrow> Node" where
  "demo_member name = \<lparr>n_Name = name, n_Addr = [127, 0, 0, 1], n_Port = 7946, n_Meta = [],
     n_PMin = 1, n_PMax = 2, n_PCur = 2, n_DMin = 2, n_DMax = 4, n_DCur = 4\<rparr>"

text \<open>Two nodes have joined; then the second one fails, or the first one tries to leave in vain.\<close>

definition demo_pair :: members_state where
  "demo_pair = fst (handleNodeJoin demo_serf (demo_member ''n2'')
     (fst (handleNodeJoin demo_serf (demo_member ''n1'') (members_init 4))))"

definition demo_failed :: members_state where
  "demo_failed = fst (handleNodeLeave 7 (demo_member ''n2'') demo_pair)"

lemma recentIntent_init [simp]: "recentIntent (replicate n \<lparr>ni_LTime = 0, ni_Node = []\<rparr>) node = None"
  by (cases n) (simp_all add: recentIntent_def)

lemma demo_new_member:
  "sm_recentJoin s = replicate k \<lparr>ni_LTime = 0, ni_Node = []\<rparr> \<Longrightarrow>
   sm_recentLeave s = replicate k \<lparr>ni_LTime = 0, ni_Node = []\<rparr> \<Longrightarrow>
     m_Status (new_member env n s) = StatusAlive \<and> m_statusLTime (new_member env n s) = 0"
  by (simp add: new_member_def Let_def)

lemma demo_pair_members:
  "sm_clock demo_pair = 1"
  "sm_members demo_pair = [''n1'' \<mapsto> 0, ''n2'' \<mapsto> Suc 0]" "sm_state demo_pair = SerfAlive"
  "m_Name (sm_store demo_pair 0) = ''n1''" "m_Name (sm_store demo_pair (Suc 0)) = ''n2''"
  "m_Status (sm_store demo_pair 0) = StatusAlive" "m_Status (sm_store demo_pair (Suc 0)) = StatusAlive"
  "m_statusLTime (sm_store demo_pair 0) = 0" "m_statusLTime (sm_store demo_pair (Suc 0)) = 0"
  by (simp_all add: demo_pair_def handleNodeJoin_def Let_def members_init_def demo_member_def demo_new_member)

lemma demo_pair_reach: "serf_reach demo_serf 4 (demo_pair, 0)"
proof -
  have "serf_step demo_serf (members_init 4, 0) (fst (handleNodeJoin demo_serf (demo_member ''n1'') (members_init 4)), 0)"
    by (rule serf_step.member [OF member_step.node_join])
  moreover have "serf_step demo_serf
      (fst (handleNodeJoin demo_serf (demo_member ''n1'') (members_init 4)), 0) (demo_pair, 0)"
    unfolding demo_pair_def by (rule serf_step.member [OF member_step.node_join])
  ultimately show ?thesis unfolding serf_reach_def by (meson rtranclp.rtrancl_refl rtranclp.rtrancl_into_rtrancl)
qed

lemma serf_reach_step: "serf_reach env n c \<Longrightarrow> serf_step env c c' \<Longrightarrow> serf_reach env n c'"
  unfolding serf_reach_def by (rule rtranclp.rtrancl_into_rtrancl)

lemma demo_failed_step: "serf_step demo_serf (demo_pair, 0) (demo_failed, 0)"
  unfolding demo_failed_def by (rule serf_step.member [OF member_step.node_leave])

lemma demo_failed_status: "status_of demo_failed ''n2'' = Some StatusFailed"
  by (simp add: status_of_def demo_failed_def handleNodeLeave_def demo_member_def demo_pair_members Let_def)

theorem member_lists_consistent_witness:
  "''n2'' \<in> set (map (\<lambda>l. m_Name (sm_store demo_failed l)) (sm_failed demo_failed))"
  using member_lists_consistent [OF serf_reach_step [OF demo_pair_reach demo_failed_step]] demo_failed_status
  by blast

theorem member_lifecycle_witness:
  "lifecycle (status_of demo_pair ''n2'') (status_of demo_failed ''n2'')
     \<and> status_of demo_failed ''n2'' = Some StatusFailed"
  using member_lifecycle [OF demo_pair_reach demo_failed_step, of "''n2''"] demo_failed_status by simp

theorem intents_commute_witness:
  "fst (snd (handleNodeLeaveIntent demo_serf \<lparr>ml_LTime = 9, ml_Node = ''n2''\<rparr>
      (snd (handleNodeJoinIntent \<lparr>mj_LTime = 5, mj_Node = ''n2''\<rparr> demo_pair))))
   = snd (handleNodeJoinIntent \<lparr>mj_LTime = 5, mj_Node = ''n2''\<rparr>
      (fst (snd (handleNodeLeaveIntent demo_serf \<lparr>ml_LTime = 9, ml_Node = ''n2''\<rparr> demo_pair))))"
  by (rule intents_commute [where l = "Suc 0"]) (simp_all add: demo_pair_members demo_serf_def)

theorem second_leave_forgotten_witness:
  "status_of (snd (handleNodeJoinIntent \<lparr>mj_LTime = 6, mj_Node = ''n2''\<rparr>
      (fst (snd (handleNodeLeaveIntent demo_serf \<lparr>ml_LTime = 7, ml_Node = ''n2''\<rparr>
        (fst (snd (handleNodeLeaveIntent demo_serf \<lparr>ml_LTime = 5, ml_Node = ''n2''\<rparr> demo_pair)))))))) ''n2''
   = Some StatusAlive"
  using second_leave_forgotten [of demo_pair "''n2''" "Suc 0" demo_serf 5 6 7]
  by (simp add: demo_pair_members demo_serf_def)

theorem refutation_restores_witness:
  "\<exists>t. snd (snd (handleNodeLeaveIntent demo_serf \<lparr>ml_LTime = 5, ml_Node = ''n1''\<rparr> demo_pair)) = Some t"
  using refutation_restores [of demo_pair demo_serf 0 5 demo_pair 0 "demo_serf\<lparr>sv_NodeName := ''n2''\<rparr>"]
  by (auto simp: demo_pair_members demo_serf_def)

lemma demo_Leave: "\<exists>s. Leave_begin demo_serf demo_pair = (LeaveWaits True, s, [[1]]) \<and> sm_state s = SerfLeaving"
proof -
  let ?s = "demo_pair\<lparr>sm_state := SerfLeaving, sm_clock := clock_Increment 1\<rparr>"
  have h: "handleNodeLeaveIntent demo_serf \<lparr>ml_LTime = 1, ml_Node = ''n1''\<rparr> ?s =
      (True, write_member 0 (\<lambda>m. m\<lparr>m_Status := StatusLeaving, m_statusLTime := 1\<rparr>)
         (?s\<lparr>sm_clock := clock_Witness 1 (clock_Increment 1)\<rparr>), None)"
    by (simp add: handleNodeLeaveIntent_def Let_def demo_pair_members)
  have node: "sv_NodeName demo_serf = ''n1''" "sv_encode demo_serf m = Inr [1]" for m
    by (simp_all add: demo_serf_def)
  have "hasAliveMembers demo_serf (fst (snd (handleNodeLeaveIntent demo_serf \<lparr>ml_LTime = 1, ml_Node = ''n1''\<rparr> ?s)))"
    unfolding h by (simp add: hasAliveMembers_def demo_pair_members node)
  then have "Leave_begin demo_serf demo_pair =
      (LeaveWaits True, fst (snd (handleNodeLeaveIntent demo_serf \<lparr>ml_LTime = 1, ml_Node = ''n1''\<rparr> ?s)), [[1]])"
    by (simp add: Leave_begin_def demo_pair_members node broadcast_def Let_def)
  then show ?thesis by (simp add: h)
qed

lemma demo_clock_reach: "\<exists>s. serf_reach demo_serf 4 (s, 0) \<and> sm_state s = SerfLeaving"
proof -
  obtain s where l: "Leave_begin demo_serf demo_pair = (LeaveWaits True, s, [[1]])" "sm_state s = SerfLeaving"
    using demo_Leave by blast
  from serf_reach_step [OF serf_reach_step [OF demo_pair_reach serf_step.leave_waits [OF l(1)]]
      serf_step.leave_ends [of _ _ _ True False None]]
  have "serf_reach demo_serf 4 (s, 0)" by (simp add: Leave_finish_def)
  with l(2) show ?thesis by blast
qed

theorem failed_leave_is_final_witness:
  "\<exists>s e. serf_reach demo_serf 4 (s, 0) \<and> fst (Leave_begin demo_serf s) = LeaveReturns (Some e)"
  using demo_clock_reach failed_leave_is_final [of demo_serf 4] by blast

end
