(* ===== verification/SerfEvents.thy ===== *)
theory SerfEvents
  imports Lamport
begin

section \<open>Receiving user events and queries once (serf/serf.go, serf/query.go)\<close>

text \<open>
  Gossip delivers a message many times. Serf remembers the recent ones in a ring of slots
  indexed by Lamport time modulo the ring's size and drops what is too old for the ring.
  \<open>handleUserEvent\<close> and \<open>handleQuery\<close> share the scheme; its correctness is proved once, in the
  locale \<open>once_buffer\<close>, and both handlers are instances. Log lines and metrics are left out.
\<close>

subsection \<open>Any number of messages through a handler\<close>

fun accepted_by :: "('m \<Rightarrow> 's \<Rightarrow> bool \<times> 's) \<Rightarrow> 'm list \<Rightarrow> 's \<Rightarrow> 'm list" where
  "accepted_by accept [] s = []"
| "accepted_by accept (m # ms) s =
     (let (b, s') = accept m s in (if b then [m] else []) @ accepted_by accept ms s')"

subsection \<open>The contract of the ring\<close>

text \<open>
  \<open>slot s i\<close> is the time and the identities remembered in slot \<open>i\<close>. A message is accepted when
  it is not too old for the clock it has just advanced and its identity is not remembered; it
  is then remembered, over whatever older time the slot held.
\<close>

definition too_old :: "nat \<Rightarrow> ltime \<Rightarrow> ltime \<Rightarrow> bool" where
  "too_old n now t \<longleftrightarrow> n < unat now \<and> unat t < unat now - n"

definition remembered_at :: "(ltime \<times> 'k list) option \<Rightarrow> ltime \<Rightarrow> 'k list" where
  "remembered_at x t = (case x of Some (t', ks) \<Rightarrow> if t' = t then ks else [] | None \<Rightarrow> [])"

locale once_buffer =
  fixes accept :: "'m \<Rightarrow> 's \<Rightarrow> bool \<times> 's"
    and stamp :: "'m \<Rightarrow> ltime" and ident :: "'m \<Rightarrow> 'k"
    and clk :: "'s \<Rightarrow> ltime" and ring :: "'s \<Rightarrow> nat" and slot :: "'s \<Rightarrow> nat \<Rightarrow> (ltime \<times> 'k list) option"
  assumes accept_ring: "ring (snd (accept m s)) = ring s"
    and accept_clk: "clk (snd (accept m s)) = clock_Witness (stamp m) (clk s)"
    and rejected_slot: "\<not> fst (accept m s) \<Longrightarrow> slot (snd (accept m s)) i = slot s i"
    and accepted_new: "0 < ring s \<Longrightarrow> fst (accept m s) \<Longrightarrow>
        \<not> too_old (ring s) (clock_Witness (stamp m) (clk s)) (stamp m)
        \<and> ident m \<notin> set (remembered_at (slot s (unat (stamp m) mod ring s)) (stamp m))"
    and accepted_slot: "0 < ring s \<Longrightarrow> fst (accept m s) \<Longrightarrow>
        slot (snd (accept m s)) i =
          (if i = unat (stamp m) mod ring s
           then Some (stamp m, remembered_at (slot s i) (stamp m) @ [ident m]) else slot s i)"
begin

definition holds :: "'s \<Rightarrow> ltime \<Rightarrow> 'k \<Rightarrow> bool" where
  "holds s t k \<longleftrightarrow> t < clk s
     \<and> (k \<in> set (remembered_at (slot s (unat t mod ring s)) t) \<or> too_old (ring s) (clk s) t)"

lemma clk_mono: "stamp m \<noteq> - 1 \<Longrightarrow> clk s \<le> clk (snd (accept m s))"
  by (simp add: accept_clk clock_Witness_mono)

lemma too_old_mono: "too_old n c t \<Longrightarrow> c \<le> c' \<Longrightarrow> too_old n c' t"
  by (auto simp: too_old_def word_le_nat_alt)

lemma mod_eq_apart:
  assumes "(a :: nat) mod n = b mod n" "a < b"
  shows "a + n \<le> b"
proof -
  have "n dvd b - a" using assms by (metis mod_eq_dvd_iff_nat nat_less_le)
  then obtain k where "b - a = n * k" by auto
  moreover from this assms(2) have "k \<noteq> 0" by (intro notI) simp
  ultimately have "n \<le> b - a" by simp
  with assms(2) show ?thesis by simp
qed

lemma holds_accept_same_slot:
  assumes h: "holds s t k" and m: "stamp m \<noteq> - 1" "fst (accept m s)" "0 < ring s"
    and same: "unat (stamp m) mod ring s = unat t mod ring s" "stamp m \<noteq> t"
  shows "too_old (ring s) (clk (snd (accept m s))) t"
proof -
  let ?c = "clk (snd (accept m s))"
  have c: "unat t < unat ?c" "unat (stamp m) < unat ?c"
    using h clk_mono [OF m(1), of s] clock_Witness_greater [OF m(1), of "clk s"]
    by (auto simp: holds_def accept_clk word_less_nat_alt word_le_nat_alt)
  have "unat (stamp m) \<noteq> unat t" using same(2) by (simp add: word_unat_eq_iff)
  then consider "unat t < unat (stamp m)" | "unat (stamp m) < unat t" by linarith
  then show ?thesis
  proof cases
    case 1
    from mod_eq_apart [OF same(1) [symmetric] 1] c show ?thesis by (simp add: too_old_def)
  next
    case 2
    from mod_eq_apart [OF same(1) 2] c have "too_old (ring s) ?c (stamp m)"
      by (simp add: too_old_def)
    with accepted_new [OF m(3,2)] show ?thesis by (simp add: accept_clk)
  qed
qed

lemma holds_accept:
  assumes "holds s t k" "stamp m \<noteq> - 1" "0 < ring s"
  shows "holds (snd (accept m s)) t k"
proof -
  have lt: "t < clk (snd (accept m s))"
    using assms(1) clk_mono [OF assms(2), of s] by (auto simp: holds_def)
  show ?thesis
  proof (cases "too_old (ring s) (clk s) t")
    case True
    with lt clk_mono [OF assms(2), of s] show ?thesis
      by (auto simp: holds_def accept_ring intro: too_old_mono)
  next
    case False
    then have k: "k \<in> set (remembered_at (slot s (unat t mod ring s)) t)"
      using assms(1) by (simp add: holds_def)
    show ?thesis
    proof (cases "fst (accept m s) \<and> unat (stamp m) mod ring s = unat t mod ring s")
      case True
      then show ?thesis
        using holds_accept_same_slot [OF assms(1,2) _ assms(3)] k lt accepted_slot [OF assms(3)]
        by (cases "stamp m = t") (auto simp: holds_def accept_ring remembered_at_def)
    next
      case other: False
      then have "slot (snd (accept m s)) (unat t mod ring s) = slot s (unat t mod ring s)"
        using accepted_slot [OF assms(3), of m] rejected_slot by metis
      with k lt show ?thesis by (simp add: holds_def accept_ring)
    qed
  qed
qed

lemma accepted_holds:
  assumes "fst (accept m s)" "stamp m \<noteq> - 1" "0 < ring s"
  shows "holds (snd (accept m s)) (stamp m) (ident m)"
  using assms accepted_slot [OF assms(3,1)] clock_Witness_greater [OF assms(2), of "clk s"]
  by (simp add: holds_def accept_ring accept_clk remembered_at_def)

lemma holds_rejects:
  assumes "holds s (stamp m) (ident m)" "stamp m \<noteq> - 1" "0 < ring s"
  shows "\<not> fst (accept m s)"
proof
  assume "fst (accept m s)"
  from accepted_new [OF assms(3) this] have new: "\<not> too_old (ring s) (clk (snd (accept m s))) (stamp m)"
    "ident m \<notin> set (remembered_at (slot s (unat (stamp m) mod ring s)) (stamp m))"
    by (simp_all add: accept_clk)
  moreover have "too_old (ring s) (clk s) (stamp m)" using assms(1) new(2) by (simp add: holds_def)
  ultimately show False using too_old_mono clk_mono [OF assms(2), of s] by blast
qed

text \<open>At most once: no two accepted messages agree in time and identity.\<close>

lemma accepted_distinct:
  assumes "0 < ring s" "\<forall>m \<in> set ms. stamp m \<noteq> - 1" "\<forall>(t, k) \<in> H. holds s t k"
  shows "distinct (map (\<lambda>m. (stamp m, ident m)) (accepted_by accept ms s))
    \<and> (\<lambda>m. (stamp m, ident m)) ` set (accepted_by accept ms s) \<inter> H = {}"
  using assms
proof (induction ms arbitrary: s H)
  case (Cons m ms)
  obtain b s' where acc: "accept m s = (b, s')" by force
  then have s': "snd (accept m s) = s'" "fst (accept m s) = b" by simp_all
  have ring: "0 < ring s'" using Cons.prems(1) accept_ring [of m s] s' by simp
  have old: "\<forall>(t, k) \<in> H. holds s' t k"
    using Cons.prems holds_accept [of s _ _ m] s' by fastforce
  show ?case
  proof (cases b)
    case False
    with Cons.IH [OF ring _ old] Cons.prems(2) acc show ?thesis by simp
  next
    case True
    have "\<forall>(t, k) \<in> insert (stamp m, ident m) H. holds s' t k"
      using old accepted_holds [of m s] Cons.prems True s' by auto
    from Cons.IH [OF ring _ this] Cons.prems(2)
    have IH: "distinct (map (\<lambda>m. (stamp m, ident m)) (accepted_by accept ms s'))"
      "(\<lambda>m. (stamp m, ident m)) ` set (accepted_by accept ms s') \<inter> insert (stamp m, ident m) H = {}"
      by simp_all
    have "(stamp m, ident m) \<notin> H"
      using holds_rejects [of s m] Cons.prems True s' by auto
    with IH True acc show ?thesis by auto
  qed
qed simp

end

subsection \<open>handleUserEvent\<close>

record userEvent =
  ue_Name :: string
  ue_Payload :: bytes

record userEvents =
  ues_LTime :: ltime
  ues_Events :: "userEvent list"

record messageUserEvent =
  mu_LTime :: ltime
  mu_Name :: string
  mu_Payload :: bytes
  mu_CC :: bool

text \<open>What the application receives on the event channel.\<close>

record UserEvent =
  uev_LTime :: ltime
  uev_Name :: string
  uev_Payload :: bytes
  uev_Coalesce :: bool

record event_state =
  es_clock :: ltime
  es_buffer :: "userEvents option list"
  es_minTime :: ltime
  es_joinIgnore :: bool

definition userEvent_Equals :: "userEvent \<Rightarrow> userEvent \<Rightarrow> bool" where
  "userEvent_Equals a b \<longleftrightarrow> ue_Name a = ue_Name b \<and> ue_Payload a = ue_Payload b"

text \<open>
  The length of the buffer is a configuration value; the code panics when it is 0, so the
  statements below assume it is not. The result says whether to rebroadcast, and what was put
  on the event channel.
\<close>

definition handleUserEvent ::
  "messageUserEvent \<Rightarrow> event_state \<Rightarrow> bool \<times> event_state \<times> UserEvent list" where
  "handleUserEvent m s =
     (let s1 = s\<lparr>es_clock := clock_Witness (mu_LTime m) (es_clock s)\<rparr> in
      if mu_LTime m < es_minTime s1 then (False, s1, [])
      else
        (let curTime = es_clock s1;
             n = word_of_nat (length (es_buffer s1)) :: ltime
         in if n < curTime \<and> mu_LTime m < curTime - n then (False, s1, [])
            else
              (let idx = unat (mu_LTime m mod n);
                   ev = \<lparr>ue_Name = mu_Name m, ue_Payload = mu_Payload m\<rparr>;
                   (dup, seen) =
                     (case es_buffer s1 ! idx of
                        Some seen \<Rightarrow>
                          if ues_LTime seen = mu_LTime m
                          then (list_ex (\<lambda>p. userEvent_Equals p ev) (ues_Events seen), seen)
                          else (False, \<lparr>ues_LTime = mu_LTime m, ues_Events = []\<rparr>)
                      | None \<Rightarrow> (False, \<lparr>ues_LTime = mu_LTime m, ues_Events = []\<rparr>))
               in if dup then (False, s1, [])
                  else (True,
                        s1\<lparr>es_buffer := (es_buffer s1)[idx :=
                              Some (seen\<lparr>ues_Events := ues_Events seen @ [ev]\<rparr>)]\<rparr>,
                        [\<lparr>uev_LTime = mu_LTime m, uev_Name = mu_Name m,
                          uev_Payload = mu_Payload m, uev_Coalesce = mu_CC m\<rparr>]))))"

subsection \<open>User events are instances of the ring\<close>

definition event_accept :: "messageUserEvent \<Rightarrow> event_state \<Rightarrow> bool \<times> event_state" where
  "event_accept m s = (case handleUserEvent m s of (b, s', _) \<Rightarrow> (b, s'))"

definition event_ident :: "messageUserEvent \<Rightarrow> userEvent" where
  "event_ident m = \<lparr>ue_Name = mu_Name m, ue_Payload = mu_Payload m\<rparr>"

text \<open>A ring of a length that is a 64-bit number other than 0; any other counts as length 0.\<close>

definition ring_size :: "'a list \<Rightarrow> nat" where
  "ring_size buf = (if length buf < 2 ^ 64 then length buf else 0)"

definition event_slot :: "event_state \<Rightarrow> nat \<Rightarrow> (ltime \<times> userEvent list) option" where
  "event_slot s i =
     (if i < length (es_buffer s)
      then map_option (\<lambda>u. (ues_LTime u, ues_Events u)) (es_buffer s ! i) else None)"

lemma userEvent_Equals_iff [simp]: "userEvent_Equals a b \<longleftrightarrow> a = b"
  by (cases a; cases b) (simp add: userEvent_Equals_def)

lemma too_old_iff:
  assumes "length buf < 2 ^ 64"
  shows "(word_of_nat (length buf) < c \<and> t < c - word_of_nat (length buf)) \<longleftrightarrow>
    too_old (length buf) (c :: ltime) t"
proof -
  have n: "unat (word_of_nat (length buf) :: ltime) = length buf"
    using assms by (simp add: unsigned_of_nat take_bit_nat_eq_self)
  have "unat (c - word_of_nat (length buf)) = unat c - length buf"
    if "(word_of_nat (length buf) :: ltime) < c"
    using that n by (simp add: unat_sub less_imp_le)
  then show ?thesis by (auto simp: too_old_def word_less_nat_alt n)
qed

lemma ring_index:
  assumes "length buf < 2 ^ 64"
  shows "unat ((t :: ltime) mod word_of_nat (length buf)) = unat t mod length buf"
  using assms by (simp add: unat_mod unsigned_of_nat take_bit_nat_eq_self)

lemma ring_size_pos: "0 < ring_size buf \<longleftrightarrow> buf \<noteq> [] \<and> length buf < 2 ^ 64"
  by (auto simp: ring_size_def)

lemma event_accept_fst_snd:
  "fst (event_accept m s) = fst (handleUserEvent m s)"
  "snd (event_accept m s) = fst (snd (handleUserEvent m s))"
  by (simp_all add: event_accept_def case_prod_beta)

lemma event_clock [simp]:
  "es_clock (fst (snd (handleUserEvent m s))) = clock_Witness (mu_LTime m) (es_clock s)"
  "length (es_buffer (fst (snd (handleUserEvent m s)))) = length (es_buffer s)"
  by (simp_all add: handleUserEvent_def Let_def case_prod_beta)

lemma event_rejected:
  "\<not> fst (handleUserEvent m s) \<Longrightarrow> es_buffer (fst (snd (handleUserEvent m s))) = es_buffer s"
  by (auto simp: handleUserEvent_def Let_def case_prod_beta split: if_splits)

lemma userEvents_update:
  "ues_LTime a = t \<Longrightarrow> a\<lparr>ues_Events := es\<rparr> = \<lparr>ues_LTime = t, ues_Events = es\<rparr>"
  by (cases a) simp

lemma event_accepted:
  assumes "0 < ring_size (es_buffer s)" "fst (handleUserEvent m s)"
  defines "i \<equiv> unat (mu_LTime m) mod length (es_buffer s)"
  shows "\<not> too_old (length (es_buffer s)) (clock_Witness (mu_LTime m) (es_clock s)) (mu_LTime m)"
    and "event_ident m \<notin> set (remembered_at (event_slot s i) (mu_LTime m))"
    and "es_buffer (fst (snd (handleUserEvent m s))) = (es_buffer s)[i := Some
      \<lparr>ues_LTime = mu_LTime m, ues_Events = remembered_at (event_slot s i) (mu_LTime m) @ [event_ident m]\<rparr>]"
proof -
  have len: "length (es_buffer s) < 2 ^ 64" and i: "i < length (es_buffer s)"
    using assms(1) by (auto simp: ring_size_pos i_def)
  note facts = assms(2) ring_index [OF len, of "mu_LTime m", folded i_def]
    too_old_iff [OF len, of "clock_Witness (mu_LTime m) (es_clock s)" "mu_LTime m"] i
  show "\<not> too_old (length (es_buffer s)) (clock_Witness (mu_LTime m) (es_clock s)) (mu_LTime m)"
    using facts by (auto simp: handleUserEvent_def Let_def split: if_splits)
  show "event_ident m \<notin> set (remembered_at (event_slot s i) (mu_LTime m))"
    using facts by (cases "es_buffer s ! i")
      (auto simp: handleUserEvent_def Let_def event_slot_def remembered_at_def event_ident_def list_ex_iff
        split: if_splits)
  show "es_buffer (fst (snd (handleUserEvent m s))) = (es_buffer s)[i := Some
      \<lparr>ues_LTime = mu_LTime m, ues_Events = remembered_at (event_slot s i) (mu_LTime m) @ [event_ident m]\<rparr>]"
    using facts by (cases "es_buffer s ! i")
      (auto simp: handleUserEvent_def Let_def event_slot_def remembered_at_def event_ident_def
        userEvents_update split: if_splits)
qed

interpretation events: once_buffer event_accept mu_LTime event_ident es_clock
  "\<lambda>s. ring_size (es_buffer s)" event_slot
proof
  fix m :: messageUserEvent and s i
  show "ring_size (es_buffer (snd (event_accept m s))) = ring_size (es_buffer s)"
    by (simp add: event_accept_fst_snd ring_size_def)
  show "es_clock (snd (event_accept m s)) = clock_Witness (mu_LTime m) (es_clock s)"
    by (simp add: event_accept_fst_snd)
  show "\<not> fst (event_accept m s) \<Longrightarrow> event_slot (snd (event_accept m s)) i = event_slot s i"
    by (simp add: event_accept_fst_snd event_slot_def event_rejected)
  assume ring: "0 < ring_size (es_buffer s)" and acc: "fst (event_accept m s)"
  then have size: "ring_size (es_buffer s) = length (es_buffer s)"
    by (auto simp: ring_size_def split: if_splits)
  note accepted = event_accepted [OF ring acc [unfolded event_accept_fst_snd]]
  show "\<not> too_old (ring_size (es_buffer s)) (clock_Witness (mu_LTime m) (es_clock s)) (mu_LTime m) \<and>
      event_ident m \<notin> set (remembered_at
        (event_slot s (unat (mu_LTime m) mod ring_size (es_buffer s))) (mu_LTime m))"
    using accepted(1,2) by (simp add: size)
  show "event_slot (snd (event_accept m s)) i =
      (if i = unat (mu_LTime m) mod ring_size (es_buffer s)
       then Some (mu_LTime m, remembered_at (event_slot s i) (mu_LTime m) @ [event_ident m])
       else event_slot s i)"
    using accepted(3) ring
    by (auto simp: event_accept_fst_snd size event_slot_def ring_size_pos nth_list_update)
qed

subsection \<open>Properties\<close>

text \<open>The events a list of received messages puts on the event channel.\<close>

fun deliver_all :: "messageUserEvent list \<Rightarrow> event_state \<Rightarrow> UserEvent list" where
  "deliver_all [] s = []"
| "deliver_all (m # ms) s =
     (case handleUserEvent m s of (_, s', evs) \<Rightarrow> evs @ deliver_all ms s')"

definition event_of :: "messageUserEvent \<Rightarrow> UserEvent" where
  "event_of m = \<lparr>uev_LTime = mu_LTime m, uev_Name = mu_Name m, uev_Payload = mu_Payload m,
     uev_Coalesce = mu_CC m\<rparr>"

lemma handleUserEvent_events:
  "snd (snd (handleUserEvent m s)) = (if fst (handleUserEvent m s) then [event_of m] else [])"
  by (simp add: handleUserEvent_def Let_def case_prod_beta event_of_def)

lemma deliver_all_accepted: "deliver_all ms s = map event_of (accepted_by event_accept ms s)"
proof (induction ms arbitrary: s)
  case (Cons m ms)
  then show ?case
    using handleUserEvent_events [of m s]
    by (simp add: case_prod_beta Let_def event_accept_fst_snd)
qed simp

text \<open>C8: However often and in whatever order gossip delivers user events, the application gets
  each event (time, name and payload) at most once, if no message carries the largest time.\<close>

theorem user_events_at_most_once:
  assumes "es_buffer s \<noteq> []" "length (es_buffer s) < 2 ^ 64" "\<forall>m \<in> set ms. mu_LTime m \<noteq> - 1"
  shows "distinct (map (\<lambda>e. (uev_LTime e, uev_Name e, uev_Payload e)) (deliver_all ms s))"
proof -
  have "distinct (map (\<lambda>m. (mu_LTime m, event_ident m)) (accepted_by event_accept ms s))"
    using events.accepted_distinct [of s ms "{}"] assms by (simp add: ring_size_pos)
  then show ?thesis
    by (simp add: deliver_all_accepted event_of_def event_ident_def comp_def distinct_map inj_on_def)
qed

definition demo_event :: "ltime \<Rightarrow> messageUserEvent" where
  "demo_event t = \<lparr>mu_LTime = t, mu_Name = ''deploy'', mu_Payload = [], mu_CC = False\<rparr>"

definition demo_events :: event_state where
  "demo_events = \<lparr>es_clock = 0, es_buffer = replicate 512 None, es_minTime = 0, es_joinIgnore = False\<rparr>"

theorem user_events_at_most_once_witness:
  "distinct (map (\<lambda>e. (uev_LTime e, uev_Name e, uev_Payload e))
     (deliver_all [demo_event 5, demo_event 5, demo_event 517, demo_event 5] demo_events))"
  by (rule user_events_at_most_once) (simp_all add: demo_events_def demo_event_def)

text \<open>With the default ring of 512 slots, one message with the largest time resets the clock
  and frees the slot of an event of time 511, which is then delivered a second time.\<close>

theorem largest_time_replays:
  assumes "length (es_buffer s) = 512" "es_minTime s = 0" "es_clock s \<le> 512" "es_buffer s ! 511 = None"
    and "mu_LTime m = 511" "mu_LTime evil = - 1"
  shows "deliver_all [m, evil, m] s = [event_of m, event_of evil, event_of m]"
proof -
  have mods: "(511 :: ltime) mod 512 = 511" "(- 1 :: ltime) mod 512 = 511" by code_simp+
  have clk: "clock_Witness 511 (es_clock s) = 512"
  proof (cases "511 < es_clock s")
    case True
    with assms(3) have "es_clock s = 512" by (auto simp: word_less_nat_alt word_le_nat_alt word_unat_eq_iff)
    then show ?thesis by (simp add: clock_Witness_def)
  qed (simp add: clock_Witness_def)
  note handler = handleUserEvent_def Let_def assms clk mods clock_Witness_wrap event_of_def
  have "handleUserEvent m s = (True, s\<lparr>es_clock := 512, es_buffer := (es_buffer s)[511 := Some
      \<lparr>ues_LTime = 511, ues_Events = [\<lparr>ue_Name = mu_Name m, ue_Payload = mu_Payload m\<rparr>]\<rparr>]\<rparr>, [event_of m])"
    by (simp add: handler)
  moreover have "\<exists>s2. handleUserEvent evil (s\<lparr>es_clock := 512, es_buffer := (es_buffer s)[511 := Some
      \<lparr>ues_LTime = 511, ues_Events = [\<lparr>ue_Name = mu_Name m, ue_Payload = mu_Payload m\<rparr>]\<rparr>]\<rparr>)
    = (True, s2, [event_of evil]) \<and> es_clock s2 = 0 \<and> es_minTime s2 = 0 \<and> length (es_buffer s2) = 512
      \<and> (\<exists>u. es_buffer s2 ! 511 = Some u \<and> ues_LTime u = - 1)"
    by (simp add: handler)
  ultimately obtain s2 where s2: "deliver_all [m, evil, m] s =
      [event_of m, event_of evil] @ deliver_all [m] s2"
    "es_clock s2 = 0" "es_minTime s2 = 0" "length (es_buffer s2) = 512"
    "\<exists>u. es_buffer s2 ! 511 = Some u \<and> ues_LTime u = - 1"
    by auto
  have "fst (handleUserEvent m s2)"
    using s2(2-5) mods by (auto simp: handleUserEvent_def Let_def assms(5) clock_Witness_def)
  then have "deliver_all [m] s2 = [event_of m]"
    using handleUserEvent_events [of m s2] by (simp add: case_prod_beta)
  with s2(1) show ?thesis by simp
qed

theorem largest_time_replays_witness:
  "deliver_all [demo_event 511, demo_event (- 1), demo_event 511] demo_events =
     [event_of (demo_event 511), event_of (demo_event (- 1)), event_of (demo_event 511)]"
proof (rule largest_time_replays)
  show "es_buffer demo_events ! 511 = None" unfolding demo_events_def event_state.simps
    by (subst nth_replicate) simp_all
qed (simp_all add: demo_events_def demo_event_def)

end
