(* ===== verification/Channel.thy ===== *)
theory Channel
  imports Prelude "HOL-Library.Sublist"
begin

section \<open>Buffered Go channels\<close>

text \<open>
  A buffered channel is its queue, its capacity and whether it is closed. Modelled are the
  operations of the query client: a send inside a \<open>select\<close> with a \<open>default\<close> (which drops the
  value when the buffer is full), a receive inside a \<open>select\<close>, and \<open>close\<close>. Sending to and
  closing a closed channel panic (\<open>None\<close>).
\<close>

record 'a chan =
  ch_queue :: "'a list"
  ch_cap :: nat
  ch_closed :: bool

definition make_chan :: "nat \<Rightarrow> 'a chan" where
  "make_chan n = \<lparr>ch_queue = [], ch_cap = n, ch_closed = False\<rparr>"

definition chan_offer :: "'a \<Rightarrow> 'a chan \<Rightarrow> 'a chan option" where
  "chan_offer x c =
     (if ch_closed c then None
      else if length (ch_queue c) < ch_cap c then Some (c\<lparr>ch_queue := ch_queue c @ [x]\<rparr>)
      else Some c)"

text \<open>
  A receive is ready when the queue holds a value or the channel is closed; from a closed and
  drained channel it yields the zero value of the type.
\<close>

definition chan_ready :: "'a chan \<Rightarrow> bool" where
  "chan_ready c \<longleftrightarrow> ch_queue c \<noteq> [] \<or> ch_closed c"

definition chan_receive :: "'a \<Rightarrow> 'a chan \<Rightarrow> 'a \<times> 'a chan" where
  "chan_receive zero c =
     (case ch_queue c of [] \<Rightarrow> (zero, c) | x # xs \<Rightarrow> (x, c\<lparr>ch_queue := xs\<rparr>))"

definition chan_close :: "'a chan \<Rightarrow> 'a chan option" where
  "chan_close c = (if ch_closed c then None else Some (c\<lparr>ch_closed := True\<rparr>))"

lemma subseq_append_right: "subseq xs ys \<Longrightarrow> subseq xs (ys @ zs)"
  using list_emb_append_mono [of "(=)" xs ys "[]" zs] by simp

subsection \<open>The contract of a dropping queue\<close>

text \<open>
  What a producer that never blocks and its consumer rely on: a bounded first-in first-out
  queue that loses what does not fit, and nothing else.
\<close>

locale dropping_queue =
  fixes contents :: "'c \<Rightarrow> 'a list"
    and room :: "'c \<Rightarrow> bool"
    and offer :: "'a \<Rightarrow> 'c \<Rightarrow> 'c option"
    and receive :: "'c \<Rightarrow> ('a \<times> 'c) option"
  assumes offer_contents: "offer x c = Some c' \<Longrightarrow>
      contents c' = (if room c then contents c @ [x] else contents c)"
    and receive_contents: "receive c = Some (x, c') \<Longrightarrow> contents c = x # contents c'"
begin

lemma offer_subseq: "offer x c = Some c' \<Longrightarrow> subseq (contents c') (contents c @ [x])"
  by (cases "room c") (simp_all add: offer_contents subseq_append_right)

text \<open>
  What was received followed by what is still queued is a subsequence of what was sent: the
  invariant of a producer with history \<open>sent\<close> and a consumer with history \<open>got\<close>.
\<close>

definition history :: "'a list \<Rightarrow> 'a list \<Rightarrow> 'c \<Rightarrow> bool" where
  "history sent got c \<longleftrightarrow> subseq (got @ contents c) sent"

lemma history_offer: "history sent got c \<Longrightarrow> offer x c = Some c' \<Longrightarrow> history (sent @ [x]) got c'"
  unfolding history_def
  using list_emb_append_mono [of "(=)" "got @ contents c" sent "[x]" "[x]"]
  by (cases "room c") (simp_all add: offer_contents subseq_append_right)

lemma history_receive: "history sent got c \<Longrightarrow> receive c = Some (x, c') \<Longrightarrow> history sent (got @ [x]) c'"
  by (auto simp: history_def dest: receive_contents)

lemma history_got: "history sent got c \<Longrightarrow> subseq got sent"
  unfolding history_def by (metis subseq_order.order_trans list_emb_prefix subseq_order.order_refl)

lemma history_length: "history sent got c \<Longrightarrow> length got + length (contents c) \<le> length sent"
  unfolding history_def by (metis length_append list_emb_length)

end

definition chan_take :: "'a chan \<Rightarrow> ('a \<times> 'a chan) option" where
  "chan_take c = (case ch_queue c of [] \<Rightarrow> None | x # xs \<Rightarrow> Some (x, c\<lparr>ch_queue := xs\<rparr>))"

interpretation channel: dropping_queue ch_queue
  "\<lambda>c. length (ch_queue c) < ch_cap c" chan_offer chan_take
  by unfold_locales (auto simp: chan_offer_def chan_take_def split: if_splits list.splits)

lemma chan_receive_take: "ch_queue c \<noteq> [] \<Longrightarrow> chan_take c = Some (chan_receive zero c)"
  by (auto simp: chan_take_def chan_receive_def split: list.splits)

end
