(* ===== verification/SerfQueries.thy ===== *)
theory SerfQueries
  imports SerfEvents Channel
begin

section \<open>Queries inside Serf (serf/serf.go, serf/query.go, serf/messages.go)\<close>

text \<open>
  A query broadcast is remembered, filtered, acknowledged and handed to the application; its
  answers come back as \<open>messageQueryResponse\<close> and are put on the channels of the query that is
  still running. The message encoding of go-msgpack, regular expressions and the network are
  parameters.
\<close>

unbundle bit_operations_syntax

subsection \<open>Filters\<close>

record messageQuery =
  mq_LTime :: ltime
  mq_ID :: "32 word"
  mq_Addr :: bytes
  mq_Port :: "16 word"
  mq_Filters :: "bytes list"
  mq_Flags :: "32 word"
  mq_Timeout :: int
  mq_Name :: string
  mq_Payload :: bytes

definition mq_Ack :: "messageQuery \<Rightarrow> bool" where
  "mq_Ack m \<longleftrightarrow> (mq_Flags m AND queryFlagAck) \<noteq> 0"

definition mq_NoBroadcast :: "messageQuery \<Rightarrow> bool" where
  "mq_NoBroadcast m \<longleftrightarrow> (mq_Flags m AND queryFlagNoBroadcast) \<noteq> 0"

definition filterNodeType :: byte where "filterNodeType = 0"
definition filterTagType :: byte where "filterTagType = 1"

text \<open>
  The codec of the two filter bodies, and \<open>regexp.MatchString\<close>, whose \<open>None\<close> is an expression
  that does not compile.
\<close>

record filter_env =
  fe_encode_nodes :: "string list \<Rightarrow> (string, bytes) result"
  fe_encode_tag :: "string \<times> string \<Rightarrow> (string, bytes) result"
  fe_decode_nodes :: "bytes \<Rightarrow> string list option"
  fe_decode_tag :: "bytes \<Rightarrow> (string \<times> string) option"
  fe_regexp :: "string \<Rightarrow> string \<Rightarrow> bool option"

text \<open>The tags are a map iterated in any order, so their encoding takes them as a list.\<close>

fun encode_tag_filters :: "filter_env \<Rightarrow> (string \<times> string) list \<Rightarrow> (string, bytes list) result" where
  "encode_tag_filters fe [] = Inr []"
| "encode_tag_filters fe (t # ts) =
     rbind (fe_encode_tag fe t) (\<lambda>b.
     rbind (encode_tag_filters fe ts) (\<lambda>bs. Inr ((filterTagType # b) # bs)))"

definition encodeFilters ::
  "filter_env \<Rightarrow> string list \<Rightarrow> (string \<times> string) list \<Rightarrow> (string, bytes list) result" where
  "encodeFilters fe nodes tags =
     rbind (if nodes \<noteq> [] then rbind (fe_encode_nodes fe nodes) (\<lambda>b. Inr [filterNodeType # b])
            else Inr []) (\<lambda>nf.
     rbind (encode_tag_filters fe tags) (\<lambda>tf. Inr (nf @ tf)))"

text \<open>
  \<open>None\<close> is the panic of \<open>filter[0]\<close> on an empty filter, which nothing on the way rejects.
\<close>

fun shouldProcessQuery ::
  "filter_env \<Rightarrow> string \<Rightarrow> (string \<rightharpoonup> string) \<Rightarrow> bytes list \<Rightarrow> bool option" where
  "shouldProcessQuery fe node tags [] = Some True"
| "shouldProcessQuery fe node tags (f # fs) =
     (case f of
        [] \<Rightarrow> None
      | t # body \<Rightarrow>
          if t = filterNodeType then
            (case fe_decode_nodes fe body of
               None \<Rightarrow> Some False
             | Some nodes \<Rightarrow>
                 if node \<in> set nodes then shouldProcessQuery fe node tags fs else Some False)
          else if t = filterTagType then
            (case fe_decode_tag fe body of
               None \<Rightarrow> Some False
             | Some (tag, expr) \<Rightarrow>
                 (case fe_regexp fe expr (case tags tag of Some v \<Rightarrow> v | None \<Rightarrow> []) of
                    None \<Rightarrow> Some False
                  | Some matched \<Rightarrow>
                      if matched then shouldProcessQuery fe node tags fs else Some False))
          else Some False)"

lemma shouldProcessQuery_append:
  "shouldProcessQuery fe node tags (fs @ gs) =
     (case shouldProcessQuery fe node tags fs of
        Some True \<Rightarrow> shouldProcessQuery fe node tags gs | r \<Rightarrow> r)"
  by (induction fs) (auto split: list.splits option.splits bool.splits)

text \<open>What a codec and a regular expression library must do for filters to mean what they say.\<close>

definition filter_codec :: "filter_env \<Rightarrow> bool" where
  "filter_codec fe \<longleftrightarrow>
     (\<forall>ns b. fe_encode_nodes fe ns = Inr b \<longrightarrow> fe_decode_nodes fe b = Some ns)
     \<and> (\<forall>t b. fe_encode_tag fe t = Inr b \<longrightarrow> fe_decode_tag fe b = Some t)"

definition tag_matches :: "filter_env \<Rightarrow> (string \<rightharpoonup> string) \<Rightarrow> string \<times> string \<Rightarrow> bool" where
  "tag_matches fe tags t \<longleftrightarrow>
     fe_regexp fe (snd t) (case tags (fst t) of Some v \<Rightarrow> v | None \<Rightarrow> []) = Some True"

lemma shouldProcess_tags:
  "filter_codec fe \<Longrightarrow> encode_tag_filters fe ts = Inr fs \<Longrightarrow>
     shouldProcessQuery fe node tags fs = Some (\<forall>t \<in> set ts. tag_matches fe tags t)"
proof (induction fe ts arbitrary: fs rule: encode_tag_filters.induct)
  case (2 fe t ts)
  then obtain b bs where b: "fe_encode_tag fe t = Inr b" "encode_tag_filters fe ts = Inr bs"
    "fs = (filterTagType # b) # bs"
    by (auto simp: rbind_eq_Inr_iff)
  have "fe_decode_tag fe b = Some (fst t, snd t)"
    using "2.prems"(1) b(1) unfolding filter_codec_def prod.collapse by blast
  with b "2.IH" [OF b(1) "2.prems"(1) b(2)] show ?case
    by (cases t) (auto simp: tag_matches_def filterTagType_def filterNodeType_def
        split: option.splits bool.splits)
qed simp

lemma shouldProcess_encoded:
  assumes "filter_codec fe" "encodeFilters fe nodes ts = Inr fs"
  shows "shouldProcessQuery fe node tags fs =
    Some ((nodes = [] \<or> node \<in> set nodes) \<and> (\<forall>t \<in> set ts. tag_matches fe tags t))"
proof -
  obtain nf tf where fs: "fs = nf @ tf" "encode_tag_filters fe ts = Inr tf"
    and nf: "(if nodes \<noteq> [] then rbind (fe_encode_nodes fe nodes) (\<lambda>b. Inr [filterNodeType # b])
              else Inr []) = Inr nf"
    using assms(2) by (auto simp: encodeFilters_def rbind_eq_Inr_iff)
  have "shouldProcessQuery fe node tags nf = Some (nodes = [] \<or> node \<in> set nodes)"
    using nf assms(1) by (auto simp: rbind_eq_Inr_iff filter_codec_def split: if_splits)
  with fs shouldProcess_tags [OF assms(1) fs(2)] show ?thesis
    by (auto simp: shouldProcessQuery_append split: option.splits bool.splits)
qed

subsection \<open>handleQuery\<close>

record queries =
  qs_LTime :: ltime
  qs_IDs :: "32 word list"

record query_state =
  qy_clock :: ltime
  qy_buffer :: "queries option list"
  qy_minTime :: ltime

record serf_env =
  se_filter :: filter_env
  se_net :: net_env
  se_tags :: "string \<rightharpoonup> string"

text \<open>The first half: is it new, and the ring it is remembered in.\<close>

definition query_seen :: "messageQuery \<Rightarrow> query_state \<Rightarrow> bool \<times> query_state" where
  "query_seen q s =
     (let s1 = s\<lparr>qy_clock := clock_Witness (mq_LTime q) (qy_clock s)\<rparr> in
      if mq_LTime q < qy_minTime s1 then (False, s1)
      else
        (let curTime = qy_clock s1;
             n = word_of_nat (length (qy_buffer s1)) :: ltime
         in if n < curTime \<and> mq_LTime q < curTime - n then (False, s1)
            else
              (let idx = unat (mq_LTime q mod n);
                   (dup, seen) =
                     (case qy_buffer s1 ! idx of
                        Some seen \<Rightarrow>
                          if qs_LTime seen = mq_LTime q then (list_ex (\<lambda>p. p = mq_ID q) (qs_IDs seen), seen)
                          else (False, \<lparr>qs_LTime = mq_LTime q, qs_IDs = []\<rparr>)
                      | None \<Rightarrow> (False, \<lparr>qs_LTime = mq_LTime q, qs_IDs = []\<rparr>))
               in if dup then (False, s1)
                  else (True, s1\<lparr>qy_buffer := (qy_buffer s1)[idx :=
                          Some (seen\<lparr>qs_IDs := qs_IDs seen @ [mq_ID q]\<rparr>)]\<rparr>))))"

definition ack_message :: "serf_env \<Rightarrow> messageQuery \<Rightarrow> messageQueryResponse" where
  "ack_message env q =
     \<lparr>mqr_LTime = mq_LTime q, mqr_ID = mq_ID q, mqr_From = ne_node (se_net env),
      mqr_Flags = queryFlagAck, mqr_Payload = []\<rparr>"

definition send_ack :: "serf_env \<Rightarrow> messageQuery \<Rightarrow> packet list" where
  "send_ack env q =
     (if mq_Ack q then
        (case ne_encode (se_net env) (ack_message env q) of
           Inl _ \<Rightarrow> []
         | Inr raw \<Rightarrow>
             (let p = \<lparr>p_addr = mq_Addr q, p_port = mq_Port q, p_raw = raw\<rparr>
              in case ne_send (se_net env) p of None \<Rightarrow> [p] | Some _ \<Rightarrow> []))
      else [])"

text \<open>
  The whole handler: whether to rebroadcast, the state, the packets sent, and the query on the
  event channel. \<open>None\<close> is a panic in the filters.
\<close>

definition serf_handleQuery ::
  "serf_env \<Rightarrow> messageQuery \<Rightarrow> query_state \<Rightarrow> (bool \<times> query_state \<times> packet list \<times> squery list) option" where
  "serf_handleQuery env q s =
     (let (new, s') = query_seen q s in
      if \<not> new then Some (False, s', [], [])
      else
        (let rebroadcast = \<not> mq_NoBroadcast q in
         case shouldProcessQuery (se_filter env) (ne_node (se_net env)) (se_tags env) (mq_Filters q) of
           None \<Rightarrow> None
         | Some False \<Rightarrow> Some (rebroadcast, s', [], [])
         | Some True \<Rightarrow>
             Some (rebroadcast, s', send_ack env q,
               [\<lparr>q_LTime = mq_LTime q, q_Name = mq_Name q, q_Payload = mq_Payload q, q_id = mq_ID q,
                 q_addr = mq_Addr q, q_port = mq_Port q,
                 q_deadline = Some (ne_now (se_net env) + mq_Timeout q)\<rparr>])))"

subsection \<open>Queries are an instance of the ring\<close>

definition query_slot :: "query_state \<Rightarrow> nat \<Rightarrow> (ltime \<times> 32 word list) option" where
  "query_slot s i =
     (if i < length (qy_buffer s)
      then map_option (\<lambda>u. (qs_LTime u, qs_IDs u)) (qy_buffer s ! i) else None)"

lemma query_clock [simp]:
  "qy_clock (snd (query_seen m s)) = clock_Witness (mq_LTime m) (qy_clock s)"
  "length (qy_buffer (snd (query_seen m s))) = length (qy_buffer s)"
  by (simp_all add: query_seen_def Let_def case_prod_beta)

lemma query_rejected:
  "\<not> fst (query_seen m s) \<Longrightarrow> qy_buffer (snd (query_seen m s)) = qy_buffer s"
  by (auto simp: query_seen_def Let_def case_prod_beta split: if_splits)

lemma queries_update: "qs_LTime a = t \<Longrightarrow> a\<lparr>qs_IDs := ids\<rparr> = \<lparr>qs_LTime = t, qs_IDs = ids\<rparr>"
  by (cases a) simp

lemma query_accepted:
  assumes "0 < ring_size (qy_buffer s)" "fst (query_seen m s)"
  defines "i \<equiv> unat (mq_LTime m) mod length (qy_buffer s)"
  shows "\<not> too_old (length (qy_buffer s)) (clock_Witness (mq_LTime m) (qy_clock s)) (mq_LTime m)"
    and "mq_ID m \<notin> set (remembered_at (query_slot s i) (mq_LTime m))"
    and "qy_buffer (snd (query_seen m s)) = (qy_buffer s)[i := Some
      \<lparr>qs_LTime = mq_LTime m, qs_IDs = remembered_at (query_slot s i) (mq_LTime m) @ [mq_ID m]\<rparr>]"
proof -
  have len: "length (qy_buffer s) < 2 ^ 64" and i: "i < length (qy_buffer s)"
    using assms(1) by (auto simp: ring_size_pos i_def)
  note facts = assms(2) ring_index [OF len, of "mq_LTime m", folded i_def]
    too_old_iff [OF len, of "clock_Witness (mq_LTime m) (qy_clock s)" "mq_LTime m"] i
  show "\<not> too_old (length (qy_buffer s)) (clock_Witness (mq_LTime m) (qy_clock s)) (mq_LTime m)"
    using facts by (auto simp: query_seen_def Let_def split: if_splits)
  show "mq_ID m \<notin> set (remembered_at (query_slot s i) (mq_LTime m))"
    using facts by (cases "qy_buffer s ! i")
      (auto simp: query_seen_def Let_def query_slot_def remembered_at_def list_ex_iff split: if_splits)
  show "qy_buffer (snd (query_seen m s)) = (qy_buffer s)[i := Some
      \<lparr>qs_LTime = mq_LTime m, qs_IDs = remembered_at (query_slot s i) (mq_LTime m) @ [mq_ID m]\<rparr>]"
    using facts by (cases "qy_buffer s ! i")
      (auto simp: query_seen_def Let_def query_slot_def remembered_at_def queries_update split: if_splits)
qed

interpretation queries: once_buffer query_seen mq_LTime mq_ID qy_clock
  "\<lambda>s. ring_size (qy_buffer s)" query_slot
proof
  fix m :: messageQuery and s i
  show "ring_size (qy_buffer (snd (query_seen m s))) = ring_size (qy_buffer s)"
    by (simp add: ring_size_def)
  show "qy_clock (snd (query_seen m s)) = clock_Witness (mq_LTime m) (qy_clock s)" by simp
  show "\<not> fst (query_seen m s) \<Longrightarrow> query_slot (snd (query_seen m s)) i = query_slot s i"
    by (simp add: query_slot_def query_rejected)
  assume ring: "0 < ring_size (qy_buffer s)" and acc: "fst (query_seen m s)"
  then have size: "ring_size (qy_buffer s) = length (qy_buffer s)"
    by (auto simp: ring_size_def split: if_splits)
  note accepted = query_accepted [OF ring acc]
  show "\<not> too_old (ring_size (qy_buffer s)) (clock_Witness (mq_LTime m) (qy_clock s)) (mq_LTime m) \<and>
      mq_ID m \<notin> set (remembered_at
        (query_slot s (unat (mq_LTime m) mod ring_size (qy_buffer s))) (mq_LTime m))"
    using accepted(1,2) by (simp add: size)
  show "query_slot (snd (query_seen m s)) i =
      (if i = unat (mq_LTime m) mod ring_size (qy_buffer s)
       then Some (mq_LTime m, remembered_at (query_slot s i) (mq_LTime m) @ [mq_ID m])
       else query_slot s i)"
    using accepted(3) ring by (auto simp: size query_slot_def ring_size_pos nth_list_update)
qed

subsection \<open>Collecting the answers: QueryResponse\<close>

record node_response =
  nrs_From :: string
  nrs_Payload :: bytes

text \<open>\<open>ackCh\<close> is nil (\<open>None\<close>) when no acknowledgements were asked for.\<close>

record query_response =
  qr_ackCh :: "string chan option"
  qr_deadline :: int
  qr_id :: "32 word"
  qr_lTime :: ltime
  qr_respCh :: "node_response chan"
  qr_closed :: bool

definition newQueryResponse :: "int \<Rightarrow> nat \<Rightarrow> messageQuery \<Rightarrow> query_response" where
  "newQueryResponse now n q =
     \<lparr>qr_ackCh = (if mq_Ack q then Some (make_chan n) else None), qr_deadline = now + mq_Timeout q,
      qr_id = mq_ID q, qr_lTime = mq_LTime q, qr_respCh = make_chan n, qr_closed = False\<rparr>"

definition QueryResponse_Close :: "query_response \<Rightarrow> query_response option" where
  "QueryResponse_Close r =
     (if qr_closed r then Some r
      else
        (case (case qr_ackCh r of None \<Rightarrow> Some None | Some c \<Rightarrow> map_option Some (chan_close c)) of
           None \<Rightarrow> None
         | Some a \<Rightarrow>
             (case chan_close (qr_respCh r) of
                None \<Rightarrow> None
              | Some c \<Rightarrow> Some (r\<lparr>qr_closed := True, qr_ackCh := a, qr_respCh := c\<rparr>))))"

definition QueryResponse_Finished :: "int \<Rightarrow> query_response \<Rightarrow> bool" where
  "QueryResponse_Finished now r \<longleftrightarrow> qr_closed r \<or> qr_deadline r < now"

text \<open>
  \<open>handleQueryResponse\<close> looks the running query up by Lamport time, checks it, and only then
  sends, no longer holding the lock under which the timer closes the channels. The two halves
  are separate here; a send on a nil channel inside the \<open>select\<close> takes the default.
\<close>

type_synonym running_queries = "ltime \<rightharpoonup> query_response"

definition response_wanted ::
  "int \<Rightarrow> messageQueryResponse \<Rightarrow> running_queries \<Rightarrow> bool" where
  "response_wanted now resp m =
     (case m (mqr_LTime resp) of
        None \<Rightarrow> False
      | Some query \<Rightarrow> qr_id query = mqr_ID resp \<and> \<not> QueryResponse_Finished now query)"

definition response_deliver :: "messageQueryResponse \<Rightarrow> query_response \<Rightarrow> query_response option" where
  "response_deliver resp r =
     (if mqr_Ack resp then
        (case qr_ackCh r of
           None \<Rightarrow> Some r
         | Some c \<Rightarrow> map_option (\<lambda>c'. r\<lparr>qr_ackCh := Some c'\<rparr>) (chan_offer (mqr_From resp) c))
      else
        map_option (\<lambda>c'. r\<lparr>qr_respCh := c'\<rparr>)
          (chan_offer \<lparr>nrs_From = mqr_From resp, nrs_Payload = mqr_Payload resp\<rparr> (qr_respCh r)))"

definition handleQueryResponse ::
  "int \<Rightarrow> messageQueryResponse \<Rightarrow> running_queries \<Rightarrow> running_queries option" where
  "handleQueryResponse now resp m =
     (if response_wanted now resp m then
        (case response_deliver resp (the (m (mqr_LTime resp))) of
           None \<Rightarrow> None
         | Some r \<Rightarrow> Some (m(mqr_LTime resp \<mapsto> r)))
      else Some m)"

text \<open>\<open>registerQueryResponse\<close>, and what its timer does.\<close>

definition registerQueryResponse :: "query_response \<Rightarrow> running_queries \<Rightarrow> running_queries" where
  "registerQueryResponse r m = m(qr_lTime r \<mapsto> r)"

definition query_timeout ::
  "query_response \<Rightarrow> running_queries \<Rightarrow> (query_response \<times> running_queries) option" where
  "query_timeout r m =
     (case QueryResponse_Close r of
        None \<Rightarrow> None
      | Some r' \<Rightarrow> Some (r', m(qr_lTime r := None)))"

definition response_inv :: "query_response \<Rightarrow> bool" where
  "response_inv r \<longleftrightarrow> (ch_closed (qr_respCh r) \<longleftrightarrow> qr_closed r)
     \<and> (case qr_ackCh r of None \<Rightarrow> True | Some c \<Rightarrow> ch_closed c \<longleftrightarrow> qr_closed r)"

lemma response_inv_new: "response_inv (newQueryResponse now n q)"
  by (simp add: response_inv_def newQueryResponse_def make_chan_def)

lemma Close_inv: "response_inv r \<Longrightarrow> \<exists>r'. QueryResponse_Close r = Some r' \<and> response_inv r' \<and> qr_closed r'"
  by (auto simp: response_inv_def QueryResponse_Close_def chan_close_def split: option.splits)

lemma deliver_inv:
  "response_inv r \<Longrightarrow> \<not> qr_closed r \<Longrightarrow> \<exists>r'. response_deliver resp r = Some r' \<and> response_inv r'
     \<and> qr_closed r' = qr_closed r"
  by (auto simp: response_inv_def response_deliver_def chan_offer_def split: option.splits)

lemma handleQueryResponse_inv:
  assumes "\<forall>t r. m t = Some r \<longrightarrow> response_inv r"
  shows "\<exists>m'. handleQueryResponse now resp m = Some m' \<and> (\<forall>t r. m' t = Some r \<longrightarrow> response_inv r)"
proof (cases "response_wanted now resp m")
  case True
  then obtain r where r: "m (mqr_LTime resp) = Some r" "\<not> qr_closed r"
    by (auto simp: response_wanted_def QueryResponse_Finished_def split: option.splits)
  then obtain r' where "response_deliver resp r = Some r'" "response_inv r'"
    using assms deliver_inv by blast
  with True r assms show ?thesis by (simp add: handleQueryResponse_def)
next
  case False
  with assms show ?thesis by (simp add: handleQueryResponse_def)
qed

subsection \<open>Properties\<close>

text \<open>A node that handles a list of queries, with what reaches its application; \<open>None\<close> is a panic.\<close>

fun deliver_queries :: "serf_env \<Rightarrow> messageQuery list \<Rightarrow> query_state \<Rightarrow> squery list option" where
  "deliver_queries env [] s = Some []"
| "deliver_queries env (q # qs) s =
     (case serf_handleQuery env q s of
        None \<Rightarrow> None
      | Some (_, s', _, out) \<Rightarrow> map_option (\<lambda>rest. out @ rest) (deliver_queries env qs s'))"

lemma handleQuery_out:
  "serf_handleQuery env q s = Some (b, s', ps, out) \<Longrightarrow>
     s' = snd (query_seen q s)
     \<and> map (\<lambda>q. (q_LTime q, q_id q)) out =
         (if fst (query_seen q s)
            \<and> shouldProcessQuery (se_filter env) (ne_node (se_net env)) (se_tags env) (mq_Filters q) = Some True
          then [(mq_LTime q, mq_ID q)] else [])"
  by (auto simp: serf_handleQuery_def Let_def split: prod.splits if_splits option.splits bool.splits)

lemma deliver_queries_accepted:
  "deliver_queries env qs s = Some out \<Longrightarrow>
     map (\<lambda>q. (q_LTime q, q_id q)) out =
       map (\<lambda>q. (mq_LTime q, mq_ID q))
         (filter (\<lambda>q. shouldProcessQuery (se_filter env) (ne_node (se_net env)) (se_tags env) (mq_Filters q)
                    = Some True) (accepted_by query_seen qs s))"
proof (induction qs arbitrary: s out)
  case (Cons q qs)
  then obtain b s' ps o1 rest where q: "serf_handleQuery env q s = Some (b, s', ps, o1)"
    "deliver_queries env qs s' = Some rest" "out = o1 @ rest"
    by (auto split: option.splits)
  from handleQuery_out [OF q(1)] Cons.IH [OF q(2)] q(3) show ?case
    by (simp add: case_prod_beta Let_def)
qed simp

text \<open>However often and in whatever order a query is gossiped, a node hands it to its
  application at most once, if no message carries the largest time.\<close>

theorem queries_at_most_once:
  assumes "qy_buffer s \<noteq> []" "length (qy_buffer s) < 2 ^ 64" "\<forall>q \<in> set qs. mq_LTime q \<noteq> - 1"
    and "deliver_queries env qs s = Some out"
  shows "distinct (map (\<lambda>q. (q_LTime q, q_id q)) out)"
proof -
  have "distinct (map (\<lambda>m. (mq_LTime m, mq_ID m)) (accepted_by query_seen qs s))"
    using queries.accepted_distinct [of s qs "{}"] assms(1-3) by (simp add: ring_size_pos)
  then show ?thesis
    unfolding deliver_queries_accepted [OF assms(4)] by (rule distinct_map_filter)
qed

definition demo_filter :: filter_env where
  "demo_filter =
     \<lparr>fe_encode_nodes = (\<lambda>ns. if ns = [''n1''] then Inr [1] else Inl ''unsupported''),
      fe_encode_tag = (\<lambda>t. if t = (''agent'', ''true'') then Inr [2] else Inl ''unsupported''),
      fe_decode_nodes = (\<lambda>b. if b = [1] then Some [''n1''] else None),
      fe_decode_tag = (\<lambda>b. if b = [2] then Some (''agent'', ''true'') else None),
      fe_regexp = (\<lambda>expr s. Some (expr = s))\<rparr>"

lemma demo_filter_codec: "filter_codec demo_filter"
  by (simp add: filter_codec_def demo_filter_def)

definition demo_node :: serf_env where
  "demo_node = \<lparr>se_filter = demo_filter,
     se_net = \<lparr>ne_now = 0, ne_node = ''n1'', ne_encode = (\<lambda>_. Inr [5]), ne_send = (\<lambda>_. None)\<rparr>,
     se_tags = [''agent'' \<mapsto> ''true'']\<rparr>"

definition demo_gossip :: messageQuery where
  "demo_gossip = \<lparr>mq_LTime = 7, mq_ID = 42, mq_Addr = [127, 0, 0, 1], mq_Port = 7946,
     mq_Filters = [[0, 1], [1, 2]], mq_Flags = 1, mq_Timeout = 10, mq_Name = ''deploy'', mq_Payload = []\<rparr>"

definition demo_queries :: query_state where
  "demo_queries = \<lparr>qy_clock = 0, qy_buffer = [None, None], qy_minTime = 0\<rparr>"

lemma demo_delivered:
  "\<exists>out. deliver_queries demo_node [demo_gossip, demo_gossip] demo_queries = Some out \<and> length out = 1"
proof -
  have "(7 :: ltime) mod 2 = 1" by code_simp
  moreover have "clock_Witness 7 0 = 8" "clock_Witness 7 8 = 8" by (simp_all add: clock_Witness_def)
  ultimately show ?thesis
    by (simp add: serf_handleQuery_def query_seen_def demo_node_def demo_gossip_def demo_queries_def
        demo_filter_def filterNodeType_def filterTagType_def Let_def)
qed

theorem queries_at_most_once_witness:
  "\<exists>out. deliver_queries demo_node [demo_gossip, demo_gossip] demo_queries = Some out \<and> length out = 1
     \<and> distinct (map (\<lambda>q. (q_LTime q, q_id q)) out)"
proof -
  obtain out where out: "deliver_queries demo_node [demo_gossip, demo_gossip] demo_queries = Some out"
    "length out = 1"
    using demo_delivered by blast
  with queries_at_most_once [OF _ _ _ out(1)] show ?thesis
    by (simp add: demo_queries_def demo_gossip_def)
qed

text \<open>A node processes a query with encoded filters exactly when it is among the nodes named,
  or none is, and each tag expression matches its tag; no such query makes it panic.\<close>

theorem filters_select_nodes:
  assumes "filter_codec fe" "encodeFilters fe nodes ts = Inr fs"
  shows "shouldProcessQuery fe node tags fs =
    Some ((nodes = [] \<or> node \<in> set nodes) \<and> (\<forall>t \<in> set ts. tag_matches fe tags t))"
  by (rule shouldProcess_encoded [OF assms])

theorem filters_select_nodes_witness:
  "shouldProcessQuery demo_filter ''n1'' [''agent'' \<mapsto> ''true''] [[0, 1], [1, 2]] = Some True"
proof -
  have "encodeFilters demo_filter [''n1''] [(''agent'', ''true'')] = Inr [[0, 1], [1, 2]]"
    by (simp add: encodeFilters_def demo_filter_def filterNodeType_def filterTagType_def)
  from filters_select_nodes [OF demo_filter_codec this, of "''n1''" "[''agent'' \<mapsto> ''true'']"] show ?thesis
    by (simp add: tag_matches_def demo_filter_def)
qed

text \<open>A query that carries an empty filter makes every node panic that has not seen it and
  matches the filters before.\<close>

theorem empty_filter_panics:
  assumes "fst (query_seen q s)" "mq_Filters q = fs @ [] # gs"
    and "shouldProcessQuery (se_filter env) (ne_node (se_net env)) (se_tags env) fs = Some True"
  shows "serf_handleQuery env q s = None"
  using assms by (simp add: serf_handleQuery_def case_prod_beta shouldProcessQuery_append Let_def)

theorem empty_filter_panics_witness:
  "serf_handleQuery demo_node (demo_gossip\<lparr>mq_Filters := [[]]\<rparr>) demo_queries = None"
proof (rule empty_filter_panics [where fs = "[]" and gs = "[]"])
  have "(7 :: ltime) mod 2 = 1" by code_simp
  then show "fst (query_seen (demo_gossip\<lparr>mq_Filters := [[]]\<rparr>) demo_queries)"
    by (simp add: query_seen_def demo_gossip_def demo_queries_def clock_Witness_def Let_def)
qed simp_all

text \<open>Handled without interruption, no answer makes a node panic, in any state reached by
  answers; but an answer that passed the checks panics on its send when the query's timer
  closed the channels in between.\<close>

theorem answer_races_with_timer:
  assumes "\<forall>t r. m t = Some r \<longrightarrow> response_inv r"
  shows "(\<exists>m'. handleQueryResponse now resp m = Some m' \<and> (\<forall>t r. m' t = Some r \<longrightarrow> response_inv r))
    \<and> (response_wanted now resp m \<and> \<not> mqr_Ack resp \<longrightarrow>
        (\<exists>r. QueryResponse_Close (the (m (mqr_LTime resp))) = Some r \<and> response_deliver resp r = None))"
proof (intro conjI impI handleQueryResponse_inv [OF assms])
  assume w: "response_wanted now resp m \<and> \<not> mqr_Ack resp"
  then obtain r where "m (mqr_LTime resp) = Some r"
    by (auto simp: response_wanted_def split: option.splits)
  with w Close_inv [of r] assms
  show "\<exists>r. QueryResponse_Close (the (m (mqr_LTime resp))) = Some r \<and> response_deliver resp r = None"
    by (auto simp: response_deliver_def chan_offer_def response_inv_def)
qed

definition demo_running :: running_queries where
  "demo_running = registerQueryResponse (newQueryResponse 0 3 demo_gossip) Map.empty"

theorem answer_races_with_timer_witness:
  "\<exists>r. QueryResponse_Close (the (demo_running 7)) = Some r
     \<and> response_deliver \<lparr>mqr_LTime = 7, mqr_ID = 42, mqr_From = ''n2'', mqr_Flags = 0, mqr_Payload = []\<rparr> r = None"
proof -
  let ?resp = "\<lparr>mqr_LTime = 7, mqr_ID = 42, mqr_From = ''n2'', mqr_Flags = 0, mqr_Payload = []\<rparr>"
  have "\<forall>t r. demo_running t = Some r \<longrightarrow> response_inv r"
    by (simp add: demo_running_def registerQueryResponse_def response_inv_new)
  from answer_races_with_timer [OF this, of 0 ?resp] show ?thesis
    by (simp add: demo_running_def registerQueryResponse_def newQueryResponse_def demo_gossip_def
        response_wanted_def QueryResponse_Finished_def mqr_Ack_def)
qed

end
