(* ===== verification/SerfDelegate.thy ===== *)
theory SerfDelegate
  imports SerfQueries SerfLife
begin

section \<open>A whole Serf node between memberlist and the application (serf/delegate.go, serf/serf.go)\<close>

text \<open>
  A node is its members, events, queries and running queries. Memberlist hands it messages
  (\<open>NotifyMsg\<close>) and the states of other nodes (\<open>MergeRemoteState\<close>), asks it for its own
  (\<open>LocalState\<close>), and the application sends events and queries. Each operation returns what it
  queues for gossip, what it sends and what it puts on the event channel. The decoders and
  encoders of go-msgpack are parameters. Log lines and metrics are left out.
\<close>

subsection \<open>Messages and effects\<close>

definition messageLeaveType :: byte where "messageLeaveType = 0"
definition messageJoinType :: byte where "messageJoinType = 1"
definition messagePushPullType :: byte where "messagePushPullType = 2"
definition messageUserEventType :: byte where "messageUserEventType = 3"
definition messageQueryType :: byte where "messageQueryType = 4"
definition messageQueryResponseType :: byte where "messageQueryResponseType = 5"

lemmas message_types = messageLeaveType_def messageJoinType_def messagePushPullType_def
  messageUserEventType_def messageQueryType_def messageQueryResponseType_def

text \<open>
  The status times of a push-pull message are a map that is iterated in any order: an association
  list without a repeated name, in that order. A missing name reads as time 0.
\<close>

record messagePushPull =
  pp_LTime :: ltime
  pp_StatusLTimes :: "(string \<times> ltime) list"
  pp_LeftMembers :: "string list"
  pp_EventLTime :: ltime
  pp_Events :: "userEvents option list"
  pp_QueryLTime :: ltime

record wire_env =
  we_leave :: "bytes \<Rightarrow> messageLeave option"
  we_join :: "bytes \<Rightarrow> messageJoin option"
  we_event :: "bytes \<Rightarrow> messageUserEvent option"
  we_query :: "bytes \<Rightarrow> messageQuery option"
  we_response :: "bytes \<Rightarrow> messageQueryResponse option"
  we_pushpull :: "bytes \<Rightarrow> messagePushPull option"
  we_encode_event :: "messageUserEvent \<Rightarrow> (string, bytes) result"
  we_encode_query :: "messageQuery \<Rightarrow> (string, bytes) result"
  we_encode_pushpull :: "messagePushPull \<Rightarrow> (string, bytes) result"

record node_env =
  nd_members :: members_env
  nd_serf :: serf_env
  nd_wire :: wire_env

record serf_node =
  sn_members :: members_state
  sn_events :: event_state
  sn_queries :: query_state
  sn_running :: running_queries

datatype serf_event = SawMembers MemberEvent | SawUser UserEvent | SawQuery squery

datatype gossip_queue = Broadcasts | EventBroadcasts | QueryBroadcasts

record effects =
  ef_events :: "serf_event list"
  ef_packets :: "packet list"
  ef_queued :: "(gossip_queue \<times> bytes) list"
  ef_refutes :: "ltime list"

definition no_effects :: effects where
  "no_effects = \<lparr>ef_events = [], ef_packets = [], ef_queued = [], ef_refutes = []\<rparr>"

definition rebroadcast :: "bool \<Rightarrow> gossip_queue \<Rightarrow> bytes \<Rightarrow> effects \<Rightarrow> effects" where
  "rebroadcast b q buf e = (if b then e\<lparr>ef_queued := ef_queued e @ [(q, buf)]\<rparr> else e)"

subsection \<open>NotifyMsg\<close>

text \<open>\<open>None\<close> is a panic, in the filters of a query or on a closed channel.\<close>

definition NotifyMsg :: "node_env \<Rightarrow> bytes \<Rightarrow> serf_node \<Rightarrow> (serf_node \<times> effects) option" where
  "NotifyMsg env buf node =
     (case buf of
        [] \<Rightarrow> Some (node, no_effects)
      | t # body \<Rightarrow>
          if t = messageLeaveType then
            (case we_leave (nd_wire env) body of
               None \<Rightarrow> Some (node, no_effects)
             | Some leave \<Rightarrow>
                 (let (b, ms, refute) = handleNodeLeaveIntent (nd_members env) leave (sn_members node)
                  in Some (node\<lparr>sn_members := ms\<rparr>,
                       rebroadcast b Broadcasts buf
                         (no_effects\<lparr>ef_refutes := (case refute of None \<Rightarrow> [] | Some r \<Rightarrow> [r])\<rparr>))))
          else if t = messageJoinType then
            (case we_join (nd_wire env) body of
               None \<Rightarrow> Some (node, no_effects)
             | Some join \<Rightarrow>
                 (let (b, ms) = handleNodeJoinIntent join (sn_members node)
                  in Some (node\<lparr>sn_members := ms\<rparr>, rebroadcast b Broadcasts buf no_effects)))
          else if t = messageUserEventType then
            (case we_event (nd_wire env) body of
               None \<Rightarrow> Some (node, no_effects)
             | Some event \<Rightarrow>
                 (let (b, es, out) = handleUserEvent event (sn_events node)
                  in Some (node\<lparr>sn_events := es\<rparr>,
                       rebroadcast b EventBroadcasts buf (no_effects\<lparr>ef_events := map SawUser out\<rparr>))))
          else if t = messageQueryType then
            (case we_query (nd_wire env) body of
               None \<Rightarrow> Some (node, no_effects)
             | Some query \<Rightarrow>
                 (case serf_handleQuery (nd_serf env) query (sn_queries node) of
                    None \<Rightarrow> None
                  | Some (b, qs, sent, out) \<Rightarrow>
                      Some (node\<lparr>sn_queries := qs\<rparr>,
                        rebroadcast b QueryBroadcasts buf
                          (no_effects\<lparr>ef_packets := sent, ef_events := map SawQuery out\<rparr>))))
          else if t = messageQueryResponseType then
            (case we_response (nd_wire env) body of
               None \<Rightarrow> Some (node, no_effects)
             | Some resp \<Rightarrow>
                 (case handleQueryResponse (ne_now (se_net (nd_serf env))) resp (sn_running node) of
                    None \<Rightarrow> None
                  | Some running \<Rightarrow> Some (node\<lparr>sn_running := running\<rparr>, no_effects)))
          else Some (node, no_effects))"

subsection \<open>Anti-entropy: LocalState and MergeRemoteState\<close>

text \<open>\<open>names\<close> is the order in which the map of members is iterated.\<close>

definition local_push_pull :: "string list \<Rightarrow> serf_node \<Rightarrow> messagePushPull" where
  "local_push_pull names node =
     (let ms = sn_members node in
      \<lparr>pp_LTime = sm_clock ms,
       pp_StatusLTimes = map (\<lambda>n. (n, m_statusLTime (sm_store ms (the (sm_members ms n))))) names,
       pp_LeftMembers = map (\<lambda>l. m_Name (sm_store ms l)) (sm_left ms),
       pp_EventLTime = es_clock (sn_events node),
       pp_Events = es_buffer (sn_events node),
       pp_QueryLTime = qy_clock (sn_queries node)\<rparr>)"

definition LocalState :: "node_env \<Rightarrow> string list \<Rightarrow> serf_node \<Rightarrow> bytes" where
  "LocalState env names node =
     (case we_encode_pushpull (nd_wire env) (local_push_pull names node) of Inl _ \<Rightarrow> [] | Inr buf \<Rightarrow> buf)"

text \<open>No message with the remote clock's time has been sent yet, hence the \<open>- 1\<close>.\<close>

definition witness_remote :: "ltime \<Rightarrow> ltime \<Rightarrow> ltime" where
  "witness_remote t c = (if 0 < t then clock_Witness (t - 1) c else c)"

definition status_time :: "messagePushPull \<Rightarrow> string \<Rightarrow> ltime" where
  "status_time pp name = (case map_of (pp_StatusLTimes pp) name of Some t \<Rightarrow> t | None \<Rightarrow> 0)"

primrec merge_leaves ::
  "members_env \<Rightarrow> messagePushPull \<Rightarrow> string list \<Rightarrow> members_state \<Rightarrow> members_state \<times> ltime list" where
  "merge_leaves env pp [] s = (s, [])"
| "merge_leaves env pp (name # names) s =
     (let (_, s1, refute) = handleNodeLeaveIntent env \<lparr>ml_LTime = status_time pp name, ml_Node = name\<rparr> s;
          (s2, refutes) = merge_leaves env pp names s1
      in (s2, (case refute of None \<Rightarrow> [] | Some r \<Rightarrow> [r]) @ refutes))"

primrec merge_joins ::
  "string list \<Rightarrow> (string \<times> ltime) list \<Rightarrow> members_state \<Rightarrow> members_state" where
  "merge_joins left [] s = s"
| "merge_joins left (p # ps) s =
     merge_joins left ps
       (if fst p \<in> set left then s
        else snd (handleNodeJoinIntent \<lparr>mj_LTime = snd p, mj_Node = fst p\<rparr> s))"

text \<open>The messages replayed for the remote events; they do not coalesce.\<close>

definition events_of_slot :: "userEvents option \<Rightarrow> messageUserEvent list" where
  "events_of_slot slot =
     (case slot of
        None \<Rightarrow> []
      | Some us \<Rightarrow> map (\<lambda>e. \<lparr>mu_LTime = ues_LTime us, mu_Name = ue_Name e, mu_Payload = ue_Payload e,
                     mu_CC = False\<rparr>) (ues_Events us))"

fun merge_events :: "messageUserEvent list \<Rightarrow> event_state \<Rightarrow> event_state \<times> UserEvent list" where
  "merge_events [] s = (s, [])"
| "merge_events (m # ms) s =
     (let (_, s1, out1) = handleUserEvent m s; (s2, out2) = merge_events ms s1 in (s2, out1 @ out2))"

definition merge_push_pull ::
  "node_env \<Rightarrow> bool \<Rightarrow> messagePushPull \<Rightarrow> serf_node \<Rightarrow> serf_node \<times> effects" where
  "merge_push_pull env isJoin pp node =
     (let ms0 = sn_members node; es0 = sn_events node; qs0 = sn_queries node;
          ms1 = ms0\<lparr>sm_clock := witness_remote (pp_LTime pp) (sm_clock ms0)\<rparr>;
          es1 = es0\<lparr>es_clock := witness_remote (pp_EventLTime pp) (es_clock es0)\<rparr>;
          qs1 = qs0\<lparr>qy_clock := witness_remote (pp_QueryLTime pp) (qy_clock qs0)\<rparr>;
          (ms2, refutes) = merge_leaves (nd_members env) pp (pp_LeftMembers pp) ms1;
          ms3 = merge_joins (pp_LeftMembers pp) (pp_StatusLTimes pp) ms2;
          es2 = (if isJoin \<and> es_joinIgnore es1 \<and> es_minTime es1 < pp_EventLTime pp
                 then es1\<lparr>es_minTime := pp_EventLTime pp\<rparr> else es1);
          (es3, out) = merge_events (concat (map events_of_slot (pp_Events pp))) es2
      in (node\<lparr>sn_members := ms3, sn_events := es3, sn_queries := qs1\<rparr>,
          no_effects\<lparr>ef_events := map SawUser out, ef_refutes := refutes\<rparr>))"

text \<open>\<open>None\<close> is the panic of \<open>buf[0]\<close> on an empty state.\<close>

definition MergeRemoteState ::
  "node_env \<Rightarrow> bytes \<Rightarrow> bool \<Rightarrow> serf_node \<Rightarrow> (serf_node \<times> effects) option" where
  "MergeRemoteState env buf isJoin node =
     (case buf of
        [] \<Rightarrow> None
      | t # body \<Rightarrow>
          if t \<noteq> messagePushPullType then Some (node, no_effects)
          else (case we_pushpull (nd_wire env) body of
                  None \<Rightarrow> Some (node, no_effects)
                | Some pp \<Rightarrow> Some (merge_push_pull env isJoin pp node)))"

subsection \<open>Sending events and queries\<close>

definition UserEventSizeLimit :: nat where "UserEventSizeLimit = 512"
definition QuerySizeLimit :: nat where "QuerySizeLimit = 1024"

definition event_too_large :: string where
  "event_too_large = ''user event exceeds limit of 512 bytes''"

definition query_too_large :: string where
  "query_too_large = ''query exceeds limit of 1024 bytes''"

definition Serf_UserEvent ::
  "node_env \<Rightarrow> string \<Rightarrow> bytes \<Rightarrow> bool \<Rightarrow> serf_node \<Rightarrow> string option \<times> serf_node \<times> effects" where
  "Serf_UserEvent env name payload coalesce node =
     (if UserEventSizeLimit < length name + length payload then (Some event_too_large, node, no_effects)
      else
        (let es = sn_events node;
             msg = \<lparr>mu_LTime = es_clock es, mu_Name = name, mu_Payload = payload, mu_CC = coalesce\<rparr>;
             (_, es', out) = handleUserEvent msg (es\<lparr>es_clock := clock_Increment (es_clock es)\<rparr>);
             node' = node\<lparr>sn_events := es'\<rparr>;
             e = no_effects\<lparr>ef_events := map SawUser out\<rparr>
         in case we_encode_event (nd_wire env) msg of
              Inl err \<Rightarrow> (Some err, node', e)
            | Inr raw \<Rightarrow> (None, node', e\<lparr>ef_queued := [(EventBroadcasts, raw)]\<rparr>)))"

text \<open>
  The parameters of a query, and what \<open>Query\<close> reads of the node and of memberlist: the protocol
  version, the default timeout (which goes through floating point), the address of the local node,
  the number of members, and the random identity.
\<close>

record query_params =
  sq_FilterNodes :: "string list"
  sq_FilterTags :: "(string \<times> string) list"
  sq_RequestAck :: bool
  sq_Timeout :: int

record query_local =
  lo_Protocol :: nat
  lo_DefaultTimeout :: int
  lo_Addr :: bytes
  lo_Port :: "16 word"
  lo_NumMembers :: nat
  lo_ID :: "32 word"

definition DefaultQueryParams :: "query_local \<Rightarrow> query_params" where
  "DefaultQueryParams lo =
     \<lparr>sq_FilterNodes = [], sq_FilterTags = [], sq_RequestAck = False, sq_Timeout = lo_DefaultTimeout lo\<rparr>"

definition query_message ::
  "query_local \<Rightarrow> ltime \<Rightarrow> bytes list \<Rightarrow> query_params \<Rightarrow> string \<Rightarrow> bytes \<Rightarrow> messageQuery" where
  "query_message lo t filters params name payload =
     \<lparr>mq_LTime = t, mq_ID = lo_ID lo, mq_Addr = lo_Addr lo, mq_Port = lo_Port lo, mq_Filters = filters,
      mq_Flags = (if sq_RequestAck params then queryFlagAck else 0), mq_Timeout = sq_Timeout params,
      mq_Name = name, mq_Payload = payload\<rparr>"

text \<open>
  \<open>Query\<close>: an error, or the time under which the running query is registered. It starts the query's
  timer, and handles the query locally as any node does. \<open>None\<close> is a panic there.
\<close>

definition Serf_Query ::
  "node_env \<Rightarrow> query_local \<Rightarrow> string \<Rightarrow> bytes \<Rightarrow> query_params option \<Rightarrow> serf_node \<Rightarrow>
     ((string, ltime) result \<times> serf_node \<times> effects) option" where
  "Serf_Query env lo name payload params node =
     (if lo_Protocol lo < 4 then Some (Inl ''Feature not supported'', node, no_effects)
      else
        (let ps = (case params of
                     None \<Rightarrow> DefaultQueryParams lo
                   | Some p \<Rightarrow> if sq_Timeout p = 0 then p\<lparr>sq_Timeout := lo_DefaultTimeout lo\<rparr> else p)
         in case encodeFilters (se_filter (nd_serf env)) (sq_FilterNodes ps) (sq_FilterTags ps) of
              Inl err \<Rightarrow> Some (Inl (''Failed to format filters: '' @ err), node, no_effects)
            | Inr filters \<Rightarrow>
                (let q = query_message lo (qy_clock (sn_queries node)) filters ps name payload
                 in case we_encode_query (nd_wire env) q of
                      Inl err \<Rightarrow> Some (Inl err, node, no_effects)
                    | Inr raw \<Rightarrow>
                        if QuerySizeLimit < length raw then Some (Inl query_too_large, node, no_effects)
                        else
                          (let resp = newQueryResponse (ne_now (se_net (nd_serf env))) (lo_NumMembers lo) q;
                               running = registerQueryResponse resp (sn_running node)
                           in case serf_handleQuery (nd_serf env) q (sn_queries node) of
                                None \<Rightarrow> None
                              | Some (_, qs, sent, out) \<Rightarrow>
                                  Some (Inr (mq_LTime q), node\<lparr>sn_queries := qs, sn_running := running\<rparr>,
                                    no_effects\<lparr>ef_events := map SawQuery out, ef_packets := sent,
                                      ef_queued := [(QueryBroadcasts, raw)]\<rparr>)))))"

subsection \<open>Joining\<close>

definition add_effects :: "effects \<Rightarrow> effects \<Rightarrow> effects" where
  "add_effects a b =
     \<lparr>ef_events = ef_events a @ ef_events b, ef_packets = ef_packets a @ ef_packets b,
      ef_queued = ef_queued a @ ef_queued b, ef_refutes = ef_refutes a @ ef_refutes b\<rparr>"

primrec merge_all :: "node_env \<Rightarrow> messagePushPull list \<Rightarrow> serf_node \<Rightarrow> serf_node \<times> effects" where
  "merge_all env [] node = (node, no_effects)"
| "merge_all env (pp # pps) node =
     (let (node1, e1) = merge_push_pull env True pp node; (node2, e2) = merge_all env pps node1
      in (node2, add_effects e1 e2))"

definition set_joinIgnore :: "bool \<Rightarrow> serf_node \<Rightarrow> serf_node" where
  "set_joinIgnore b node = node\<lparr>sn_events := (sn_events node)\<lparr>es_joinIgnore := b\<rparr>\<rparr>"

text \<open>
  \<open>Join\<close> with its flag. \<open>memberlist.Join\<close> is a parameter: how many nodes it contacted, its error, and
  the states it exchanged on the way, which are merged while the flag is set.
\<close>

definition node_Join ::
  "node_env \<Rightarrow> bool \<Rightarrow> nat \<times> string option \<times> messagePushPull list \<Rightarrow> serf_node \<Rightarrow>
     (nat \<times> string option) \<times> serf_node \<times> effects" where
  "node_Join env ignoreOld joined node =
     (if sm_state (sn_members node) \<noteq> SerfAlive then ((0, Some serf_join_error), node, no_effects)
      else
        (let (num, err, pps) = joined;
             (node1, e) = merge_all env pps (if ignoreOld then set_joinIgnore True node else node);
             (res, ms, out) = serf_Join (nd_members env) (num, err) (sn_members node1);
             node2 = node1\<lparr>sn_members := ms\<rparr>
         in (res, if ignoreOld then set_joinIgnore False node2 else node2,
             e\<lparr>ef_queued := ef_queued e @ map (Pair Broadcasts) out\<rparr>)))"

end
