(* ===== verification/SerfSync.thy ===== *)
theory SerfSync
  imports SerfDelegate
begin

section \<open>Exchanging states: what a node knows after a merge\<close>

text \<open>
  A ring of recent messages that also says why it rejects one catches up with any list of
  messages replayed to it; user events and queries are instances. With it, the push-pull
  exchange is shown to bring over every event, and to change nothing when a node merges its own
  state.
\<close>

subsection \<open>Rings that catch up\<close>

locale catch_up_buffer = once_buffer +
  fixes floor :: "'b \<Rightarrow> ltime"
  assumes floor_accept: "floor (snd (accept m s)) = floor s"
    and rejected_why: "0 < ring s \<Longrightarrow> \<not> fst (accept m s) \<Longrightarrow>
      stamp m < floor s \<or> too_old (ring s) (clk (snd (accept m s))) (stamp m)
      \<or> ident m \<in> set (remembered_at (slot s (unat (stamp m) mod ring s)) (stamp m))"
begin

lemma accept_holds:
  assumes "0 < ring s" "stamp m \<noteq> - 1" "floor s \<le> stamp m"
  shows "holds (snd (accept m s)) (stamp m) (ident m)"
proof (cases "fst (accept m s)")
  case True
  then show ?thesis by (rule accepted_holds [OF _ assms(2,1)])
next
  case False
  have "stamp m < clk (snd (accept m s))"
    by (simp add: accept_clk clock_Witness_greater assms(2))
  with rejected_why [OF assms(1) False] assms(3) rejected_slot [OF False] show ?thesis
    by (auto simp: holds_def accept_ring)
qed

definition replay :: "'a list \<Rightarrow> 'b \<Rightarrow> 'b" where
  "replay ms s = fold (\<lambda>m s. snd (accept m s)) ms s"

lemma replay_simps [simp]:
  "replay [] s = s" "replay (m # ms) s = replay ms (snd (accept m s))"
  by (simp_all add: replay_def)

lemma replay_ring [simp]: "ring (replay ms s) = ring s"
  by (induction ms arbitrary: s) (simp_all add: accept_ring)

lemma replay_floor [simp]: "floor (replay ms s) = floor s"
  by (induction ms arbitrary: s) (simp_all add: floor_accept)

lemma replay_keeps:
  "holds s t k \<Longrightarrow> \<forall>m \<in> set ms. stamp m \<noteq> - 1 \<Longrightarrow> 0 < ring s \<Longrightarrow> holds (replay ms s) t k"
  by (induction ms arbitrary: s) (simp_all add: holds_accept accept_ring)

lemma replay_holds:
  "0 < ring s \<Longrightarrow> \<forall>m \<in> set ms. stamp m \<noteq> - 1 \<Longrightarrow> m \<in> set ms \<Longrightarrow> floor s \<le> stamp m \<Longrightarrow>
     holds (replay ms s) (stamp m) (ident m)"
proof (induction ms arbitrary: s)
  case (Cons m' ms)
  show ?case
  proof (cases "m = m'")
    case True
    have "holds (snd (accept m' s)) (stamp m) (ident m)"
      unfolding True by (rule accept_holds) (use Cons.prems True in auto)
    from replay_keeps [OF this, of ms] Cons.prems show ?thesis by (simp add: accept_ring)
  next
    case False
    with Cons show ?thesis by (simp add: accept_ring floor_accept)
  qed
qed simp

end

lemma event_floor: "es_minTime (fst (snd (handleUserEvent m s))) = es_minTime s"
  by (simp add: handleUserEvent_def Let_def case_prod_beta)

lemma event_rejected_why:
  assumes "0 < ring_size (es_buffer s)" "\<not> fst (handleUserEvent m s)"
  defines "i \<equiv> unat (mu_LTime m) mod length (es_buffer s)"
  shows "mu_LTime m < es_minTime s
    \<or> too_old (length (es_buffer s)) (clock_Witness (mu_LTime m) (es_clock s)) (mu_LTime m)
    \<or> event_ident m \<in> set (remembered_at (event_slot s i) (mu_LTime m))"
proof -
  have len: "length (es_buffer s) < 2 ^ 64" and i: "i < length (es_buffer s)"
    using assms(1) by (auto simp: ring_size_pos i_def)
  note facts = assms(2) ring_index [OF len, of "mu_LTime m", folded i_def]
    too_old_iff [OF len, of "clock_Witness (mu_LTime m) (es_clock s)" "mu_LTime m"] i
  show ?thesis
    using facts by (cases "es_buffer s ! i")
      (auto simp: handleUserEvent_def Let_def event_slot_def remembered_at_def event_ident_def list_ex_iff
        split: if_splits)
qed

interpretation event_sync: catch_up_buffer event_accept mu_LTime event_ident es_clock
  "\<lambda>s. ring_size (es_buffer s)" event_slot es_minTime
proof
  fix m :: messageUserEvent and s
  show "es_minTime (snd (event_accept m s)) = es_minTime s"
    by (simp add: event_accept_fst_snd event_floor)
  assume ring: "0 < ring_size (es_buffer s)" and rej: "\<not> fst (event_accept m s)"
  then have "ring_size (es_buffer s) = length (es_buffer s)" by (auto simp: ring_size_def split: if_splits)
  with event_rejected_why [OF ring rej [unfolded event_accept_fst_snd]]
  show "mu_LTime m < es_minTime s
    \<or> too_old (ring_size (es_buffer s)) (es_clock (snd (event_accept m s))) (mu_LTime m)
    \<or> event_ident m \<in> set (remembered_at (event_slot s (unat (mu_LTime m) mod ring_size (es_buffer s))) (mu_LTime m))"
    by (simp add: event_accept_fst_snd)
qed

lemma query_rejected_why:
  assumes "0 < ring_size (qy_buffer s)" "\<not> fst (query_seen m s)"
  defines "i \<equiv> unat (mq_LTime m) mod length (qy_buffer s)"
  shows "mq_LTime m < qy_minTime s
    \<or> too_old (length (qy_buffer s)) (clock_Witness (mq_LTime m) (qy_clock s)) (mq_LTime m)
    \<or> mq_ID m \<in> set (remembered_at (query_slot s i) (mq_LTime m))"
proof -
  have len: "length (qy_buffer s) < 2 ^ 64" and i: "i < length (qy_buffer s)"
    using assms(1) by (auto simp: ring_size_pos i_def)
  note facts = assms(2) ring_index [OF len, of "mq_LTime m", folded i_def]
    too_old_iff [OF len, of "clock_Witness (mq_LTime m) (qy_clock s)" "mq_LTime m"] i
  show ?thesis
    using facts by (cases "qy_buffer s ! i")
      (auto simp: query_seen_def Let_def query_slot_def remembered_at_def list_ex_iff split: if_splits)
qed

interpretation query_sync: catch_up_buffer query_seen mq_LTime mq_ID qy_clock
  "\<lambda>s. ring_size (qy_buffer s)" query_slot qy_minTime
proof
  fix m :: messageQuery and s
  show "qy_minTime (snd (query_seen m s)) = qy_minTime s"
    by (simp add: query_seen_def Let_def case_prod_beta)
  assume ring: "0 < ring_size (qy_buffer s)" and rej: "\<not> fst (query_seen m s)"
  then have "ring_size (qy_buffer s) = length (qy_buffer s)" by (auto simp: ring_size_def split: if_splits)
  with query_rejected_why [OF ring rej]
  show "mq_LTime m < qy_minTime s
    \<or> too_old (ring_size (qy_buffer s)) (qy_clock (snd (query_seen m s))) (mq_LTime m)
    \<or> mq_ID m \<in> set (remembered_at (query_slot s (unat (mq_LTime m) mod ring_size (qy_buffer s))) (mq_LTime m))"
    by simp
qed

subsection \<open>Merging events\<close>

lemma merge_events_replay: "fst (merge_events ms s) = event_sync.replay ms s"
  by (induction ms arbitrary: s) (simp_all add: case_prod_beta Let_def event_accept_fst_snd)

lemma merge_events_out: "snd (merge_events ms s) = deliver_all ms s"
  by (induction ms arbitrary: s) (simp_all add: case_prod_beta Let_def)

text \<open>The state of the events just before the replay.\<close>

definition before_replay :: "bool \<Rightarrow> messagePushPull \<Rightarrow> event_state \<Rightarrow> event_state" where
  "before_replay isJoin pp es =
     (let es1 = es\<lparr>es_clock := witness_remote (pp_EventLTime pp) (es_clock es)\<rparr>
      in if isJoin \<and> es_joinIgnore es1 \<and> es_minTime es1 < pp_EventLTime pp
         then es1\<lparr>es_minTime := pp_EventLTime pp\<rparr> else es1)"

lemma before_replay_buffer [simp]: "es_buffer (before_replay isJoin pp es) = es_buffer es"
  by (simp add: before_replay_def Let_def)

lemma merge_push_pull_events:
  "sn_events (fst (merge_push_pull env isJoin pp node)) =
     event_sync.replay (concat (map events_of_slot (pp_Events pp))) (before_replay isJoin pp (sn_events node))"
  by (simp add: merge_push_pull_def before_replay_def Let_def case_prod_beta merge_events_replay)

lemma replay_buffer_length: "length (es_buffer (event_sync.replay ms s)) = length (es_buffer s)"
  by (induction ms arbitrary: s) (simp_all add: event_accept_fst_snd)

subsection \<open>Well-formed nodes\<close>

text \<open>
  Every time that is stored is behind the clock, and a slot of the ring holds events of a time that
  belongs there. All messages whose time is not the largest one keep this.
\<close>

definition times_ok :: "members_state \<Rightarrow> bool" where
  "times_ok s \<longleftrightarrow> 0 < sm_clock s \<and> (\<forall>l \<in> ran (sm_members s). m_statusLTime (sm_store s l) < sm_clock s)
     \<and> (\<forall>r \<in> set (sm_recentLeave s) \<union> set (sm_recentJoin s). ni_LTime r < sm_clock s)"

definition events_ok :: "event_state \<Rightarrow> bool" where
  "events_ok s \<longleftrightarrow> es_buffer s \<noteq> [] \<and> length (es_buffer s) < 2 ^ 64
     \<and> (\<forall>i < length (es_buffer s). \<forall>u. es_buffer s ! i = Some u \<longrightarrow>
          ues_LTime u < es_clock s \<and> unat (ues_LTime u) mod length (es_buffer s) = i)"

definition node_ok :: "serf_node \<Rightarrow> bool" where
  "node_ok node \<longleftrightarrow> members_inv (sn_members node) \<and> times_ok (sn_members node) \<and> events_ok (sn_events node)"

lemma times_ok_witness:
  "times_ok s \<Longrightarrow> t \<noteq> - 1 \<Longrightarrow> times_ok (s\<lparr>sm_clock := clock_Witness t (sm_clock s)\<rparr>)"
  using clock_Witness_mono [of t "sm_clock s"]
  by (auto simp: times_ok_def intro: order_less_le_trans)

lemma times_ok_write:
  assumes "times_ok s" "m_statusLTime (f (sm_store s l)) < sm_clock s"
  shows "times_ok (write_member l f s)"
  using assms by (auto simp: times_ok_def)

lemma set_list_update_subset: "x \<in> set (xs[i := y]) \<Longrightarrow> x = y \<or> x \<in> set xs"
  using set_update_subset_insert [of xs i y] by auto

lemma leave_intent_times:
  assumes "times_ok s" "ml_LTime msg \<noteq> - 1"
  shows "times_ok (fst (snd (handleNodeLeaveIntent env msg s)))"
proof -
  let ?s = "s\<lparr>sm_clock := clock_Witness (ml_LTime msg) (sm_clock s)\<rparr>"
  have ok: "times_ok ?s" by (rule times_ok_witness [OF assms])
  have lt: "ml_LTime msg < sm_clock ?s" using clock_Witness_greater [OF assms(2)] by simp
  have writes: "times_ok (write_member l (\<lambda>m. m\<lparr>m_Status := st, m_statusLTime := ml_LTime msg\<rparr>) ?s)" for l st
    by (rule times_ok_write [OF ok]) (use lt in simp)
  have lists: "times_ok (r\<lparr>sm_failed := xs, sm_left := ys\<rparr>) = times_ok r" for r xs ys
    by (simp add: times_ok_def)
  have ring: "times_ok (?s\<lparr>sm_recentLeave := (sm_recentLeave ?s)[i := \<lparr>ni_LTime = ml_LTime msg, ni_Node = n\<rparr>],
      sm_recentLeaveIndex := j\<rparr>)" for i j n
    using ok lt by (auto simp: times_ok_def dest!: set_list_update_subset)
  show ?thesis
    using ok writes ring lists
    by (auto simp: handleNodeLeaveIntent_def Let_def split: option.splits MemberStatus.splits)
qed

lemma join_intent_times:
  assumes "times_ok s" "mj_LTime msg \<noteq> - 1"
  shows "times_ok (snd (handleNodeJoinIntent msg s))"
proof -
  let ?s = "s\<lparr>sm_clock := clock_Witness (mj_LTime msg) (sm_clock s)\<rparr>"
  have ok: "times_ok ?s" by (rule times_ok_witness [OF assms])
  have lt: "mj_LTime msg < sm_clock ?s" using clock_Witness_greater [OF assms(2)] by simp
  have writes: "times_ok (write_member l (\<lambda>m. m\<lparr>m_statusLTime := mj_LTime msg,
      m_Status := (if m_Status m = StatusLeaving then StatusAlive else m_Status m)\<rparr>) ?s)" for l
    by (rule times_ok_write [OF ok]) (use lt in simp)
  have ring: "times_ok (?s\<lparr>sm_recentJoin := (sm_recentJoin ?s)[i := \<lparr>ni_LTime = mj_LTime msg, ni_Node = n\<rparr>],
      sm_recentJoinIndex := j\<rparr>)" for i j n
    using ok lt by (auto simp: times_ok_def dest!: set_list_update_subset)
  show ?thesis
    using ok writes ring by (auto simp: handleNodeJoinIntent_def Let_def split: option.splits)
qed

lemma user_event_ok:
  assumes "events_ok s" "mu_LTime m \<noteq> - 1"
  shows "events_ok (fst (snd (handleUserEvent m s)))"
proof -
  let ?s = "fst (snd (handleUserEvent m s))"
  have ring: "0 < ring_size (es_buffer s)" using assms(1) by (simp add: events_ok_def ring_size_pos)
  have mono: "es_clock s \<le> es_clock ?s" using clock_Witness_mono [OF assms(2)] by simp
  have lt: "mu_LTime m < es_clock ?s" using clock_Witness_greater [OF assms(2)] by simp
  have old: "ues_LTime u < es_clock ?s \<and> unat (ues_LTime u) mod length (es_buffer s) = i"
    if "i < length (es_buffer s)" "es_buffer s ! i = Some u" for i u
    using assms(1) that mono by (auto simp: events_ok_def intro: order_less_le_trans)
  show ?thesis
  proof (cases "fst (handleUserEvent m s)")
    case False
    from event_rejected [OF this] old assms(1) show ?thesis by (simp add: events_ok_def)
  next
    case True
    from event_accepted(3) [OF ring True] old lt assms(1) show ?thesis
      by (auto simp: events_ok_def nth_list_update split: if_splits)
  qed
qed

lemma leave_intent_ok:
  assumes "members_inv s \<and> times_ok s" "ml_LTime msg \<noteq> - 1"
  shows "members_inv (fst (snd (handleNodeLeaveIntent env msg s)))
    \<and> times_ok (fst (snd (handleNodeLeaveIntent env msg s)))"
  using assms by (simp add: handleNodeLeaveIntent_inv leave_intent_times)

lemma join_intent_ok:
  assumes "members_inv s \<and> times_ok s" "mj_LTime msg \<noteq> - 1"
  shows "members_inv (snd (handleNodeJoinIntent msg s)) \<and> times_ok (snd (handleNodeJoinIntent msg s))"
  using assms by (simp add: handleNodeJoinIntent_inv join_intent_times)

lemma merge_leaves_ok:
  "members_inv s \<and> times_ok s \<Longrightarrow> \<forall>(n, t) \<in> set (pp_StatusLTimes pp). t \<noteq> - 1 \<Longrightarrow>
     members_inv (fst (merge_leaves env pp names s)) \<and> times_ok (fst (merge_leaves env pp names s))"
proof (induction names arbitrary: s)
  case (Cons name names)
  have "status_time pp name \<noteq> - 1"
    using Cons.prems(2) by (auto simp: status_time_def split: option.splits dest!: map_of_SomeD)
  then show ?case
    using Cons.IH [OF leave_intent_ok [OF Cons.prems(1)] Cons.prems(2)]
    by (simp add: case_prod_beta Let_def)
qed simp

lemma merge_joins_ok:
  "members_inv s \<and> times_ok s \<Longrightarrow> \<forall>(n, t) \<in> set ps. t \<noteq> - 1 \<Longrightarrow>
     members_inv (merge_joins left ps s) \<and> times_ok (merge_joins left ps s)"
proof (induction ps arbitrary: s)
  case (Cons p ps)
  have "members_inv (if fst p \<in> set left then s
        else snd (handleNodeJoinIntent \<lparr>mj_LTime = snd p, mj_Node = fst p\<rparr> s))
      \<and> times_ok (if fst p \<in> set left then s
        else snd (handleNodeJoinIntent \<lparr>mj_LTime = snd p, mj_Node = fst p\<rparr> s))"
    using join_intent_ok [OF Cons.prems(1), of "\<lparr>mj_LTime = snd p, mj_Node = fst p\<rparr>"] Cons.prems by auto
  from Cons.IH [OF this] Cons.prems(2) show ?case by simp
qed simp

lemma replay_ok:
  "events_ok s \<Longrightarrow> \<forall>m \<in> set ms. mu_LTime m \<noteq> - 1 \<Longrightarrow> events_ok (event_sync.replay ms s)"
  by (induction ms arbitrary: s) (simp_all add: event_accept_fst_snd user_event_ok)

lemma witness_remote_mono: "t \<noteq> 0 \<Longrightarrow> c \<le> witness_remote t c" "c \<le> witness_remote 0 c"
proof -
  assume "t \<noteq> 0"
  then have "t - 1 \<noteq> - 1" by simp
  from clock_Witness_mono [OF this] show "c \<le> witness_remote t c"
    by (simp add: witness_remote_def)
qed (simp add: witness_remote_def)

lemma witness_remote_le: "c \<le> witness_remote t c"
  using witness_remote_mono by (cases "t = 0") simp_all

lemma times_ok_clock: "times_ok s \<Longrightarrow> sm_clock s \<le> c \<Longrightarrow> times_ok (s\<lparr>sm_clock := c\<rparr>)"
  by (auto simp: times_ok_def intro: order_less_le_trans)

lemma events_ok_before: "events_ok es \<Longrightarrow> events_ok (before_replay isJoin pp es)"
  using witness_remote_le [of "es_clock es" "pp_EventLTime pp"]
  by (auto simp: events_ok_def before_replay_def Let_def intro: order_less_le_trans)

text \<open>A push-pull message in which no time is the largest one.\<close>

definition pp_fits :: "messagePushPull \<Rightarrow> bool" where
  "pp_fits pp \<longleftrightarrow> (\<forall>(n, t) \<in> set (pp_StatusLTimes pp). t \<noteq> - 1)
     \<and> (\<forall>u. Some u \<in> set (pp_Events pp) \<longrightarrow> ues_LTime u \<noteq> - 1)"

lemma replayed_fit:
  assumes "pp_fits pp" "m \<in> set (concat (map events_of_slot (pp_Events pp)))"
  shows "mu_LTime m \<noteq> - 1"
  using assms by (auto simp: events_of_slot_def pp_fits_def split: option.splits)

lemma merge_push_pull_ok:
  assumes "node_ok node" "pp_fits pp"
  shows "node_ok (fst (merge_push_pull env isJoin pp node))"
proof -
  let ?ms = "(sn_members node)\<lparr>sm_clock := witness_remote (pp_LTime pp) (sm_clock (sn_members node))\<rparr>"
  have fit: "\<forall>(n, t) \<in> set (pp_StatusLTimes pp). t \<noteq> - 1" using assms(2) by (simp add: pp_fits_def)
  have "members_inv ?ms \<and> times_ok ?ms"
    using assms(1) by (simp add: node_ok_def times_ok_clock witness_remote_le)
  from merge_joins_ok [OF merge_leaves_ok [OF this fit] fit]
  have "members_inv (sn_members (fst (merge_push_pull env isJoin pp node)))
      \<and> times_ok (sn_members (fst (merge_push_pull env isJoin pp node)))"
    by (simp add: merge_push_pull_def Let_def case_prod_beta)
  moreover have "events_ok (sn_events (fst (merge_push_pull env isJoin pp node)))"
    unfolding merge_push_pull_events
    by (rule replay_ok) (use assms replayed_fit in \<open>auto simp: node_ok_def intro!: events_ok_before\<close>)
  ultimately show ?thesis by (simp add: node_ok_def)
qed

definition wire_fits :: "wire_env \<Rightarrow> bool" where
  "wire_fits w \<longleftrightarrow> (\<forall>b m. we_leave w b = Some m \<longrightarrow> ml_LTime m \<noteq> - 1)
     \<and> (\<forall>b m. we_join w b = Some m \<longrightarrow> mj_LTime m \<noteq> - 1)
     \<and> (\<forall>b m. we_event w b = Some m \<longrightarrow> mu_LTime m \<noteq> - 1)
     \<and> (\<forall>b pp. we_pushpull w b = Some pp \<longrightarrow> pp_fits pp)"

lemma NotifyMsg_members_events:
  assumes "NotifyMsg env buf node = Some (node', e)"
  shows "(sn_members node' = sn_members node \<and> sn_events node' = sn_events node)
    \<or> (\<exists>leave. we_leave (nd_wire env) (tl buf) = Some leave \<and> sn_events node' = sn_events node
         \<and> sn_members node' = fst (snd (handleNodeLeaveIntent (nd_members env) leave (sn_members node))))
    \<or> (\<exists>join. we_join (nd_wire env) (tl buf) = Some join \<and> sn_events node' = sn_events node
         \<and> sn_members node' = snd (handleNodeJoinIntent join (sn_members node)))
    \<or> (\<exists>m. we_event (nd_wire env) (tl buf) = Some m \<and> sn_members node' = sn_members node
         \<and> sn_events node' = fst (snd (handleUserEvent m (sn_events node))))"
proof (cases buf)
  case (Cons t body)
  consider "t = messageLeaveType" | "t = messageJoinType" | "t = messageUserEventType"
    | "t = messageQueryType" | "t = messageQueryResponseType"
    | "t \<notin> {messageLeaveType, messageJoinType, messageUserEventType, messageQueryType, messageQueryResponseType}"
    by blast
  then show ?thesis
    by cases (use assms Cons in \<open>auto simp: NotifyMsg_def message_types Let_def case_prod_beta
          split: option.splits\<close>)
qed (use assms in \<open>simp add: NotifyMsg_def\<close>)

lemma NotifyMsg_ok:
  assumes "node_ok node" "wire_fits (nd_wire env)" "NotifyMsg env buf node = Some (node', e)"
  shows "node_ok node'"
  using NotifyMsg_members_events [OF assms(3)] assms(1,2)
  by (elim disjE exE conjE)
     (simp_all add: node_ok_def wire_fits_def leave_intent_ok join_intent_ok user_event_ok)

subsection \<open>Merging one's own state\<close>

lemma witness_remote_own: "witness_remote c c = c"
proof (cases "c = 0")
  case False
  then have "c - 1 < c" by (simp add: word_less_nat_alt unat_minus_one unat_gt_0)
  with False show ?thesis by (simp add: witness_remote_def clock_Witness_def word_neq_0_conv)
qed (simp add: witness_remote_def)

lemma own_leave_intent:
  assumes "times_ok s" "sm_members s n = Some l" "t = m_statusLTime (sm_store s l)"
  shows "handleNodeLeaveIntent env \<lparr>ml_LTime = t, ml_Node = n\<rparr> s = (False, s, None)"
  using assms ranI [of "sm_members s" n l, OF assms(2)]
  by (simp add: handleNodeLeaveIntent_def Let_def times_ok_def clock_Witness_def)

lemma own_join_intent:
  assumes "times_ok s" "sm_members s n = Some l" "t = m_statusLTime (sm_store s l)"
  shows "handleNodeJoinIntent \<lparr>mj_LTime = t, mj_Node = n\<rparr> s = (False, s)"
  using assms ranI [of "sm_members s" n l, OF assms(2)]
  by (simp add: handleNodeJoinIntent_def Let_def times_ok_def clock_Witness_def)

lemma own_leaves:
  assumes "times_ok s"
    and "\<forall>n \<in> set ns. \<exists>l. sm_members s n = Some l \<and> status_time pp n = m_statusLTime (sm_store s l)"
  shows "merge_leaves env pp ns s = (s, [])"
  using assms(2)
proof (induction ns)
  case (Cons n ns)
  then obtain l where "sm_members s n = Some l" "status_time pp n = m_statusLTime (sm_store s l)" by auto
  from own_leave_intent [OF assms(1) this] Cons show ?case by simp
qed simp

lemma own_joins:
  assumes "times_ok s"
    and "\<forall>(n, t) \<in> set ps. \<exists>l. sm_members s n = Some l \<and> t = m_statusLTime (sm_store s l)"
  shows "merge_joins left ps s = s"
  using assms(2)
proof (induction ps)
  case (Cons p ps)
  then obtain l where "sm_members s (fst p) = Some l" "snd p = m_statusLTime (sm_store s l)" by auto
  from own_join_intent [OF assms(1) this] Cons show ?case by simp
qed simp

text \<open>An event that is remembered, or too old, or before the minimum, changes nothing.\<close>

lemma remembered_event:
  assumes ok: "events_ok s" and slot: "Some u \<in> set (es_buffer s)" "e \<in> set (ues_Events u)"
    and m: "mu_LTime m = ues_LTime u" "event_ident m = e"
  shows "handleUserEvent m s = (False, s, [])"
proof -
  obtain i where i: "i < length (es_buffer s)" "es_buffer s ! i = Some u"
    using slot(1) by (auto simp: in_set_conv_nth)
  have lt: "ues_LTime u < es_clock s" and idx: "unat (ues_LTime u) mod length (es_buffer s) = i"
    and len: "length (es_buffer s) < 2 ^ 64"
    using ok i by (auto simp: events_ok_def)
  have clk: "clock_Witness (ues_LTime u) (es_clock s) = es_clock s"
    using lt by (simp add: clock_Witness_def)
  have "e = \<lparr>ue_Name = mu_Name m, ue_Payload = mu_Payload m\<rparr>" using m(2) by (simp add: event_ident_def)
  then have dup: "list_ex (\<lambda>p. userEvent_Equals p \<lparr>ue_Name = mu_Name m, ue_Payload = mu_Payload m\<rparr>) (ues_Events u)"
    using slot(2) by (auto simp: list_ex_iff)
  show ?thesis
    using i(2) idx ring_index [OF len, of "mu_LTime m"] dup m(1)
    by (simp add: handleUserEvent_def Let_def clk)
qed

lemma own_events:
  assumes "events_ok s" "\<forall>m \<in> set ms. \<exists>u. Some u \<in> set (es_buffer s) \<and> mu_LTime m = ues_LTime u
      \<and> event_ident m \<in> set (ues_Events u)"
  shows "merge_events ms s = (s, [])"
  using assms(2)
proof (induction ms)
  case (Cons m ms)
  then have "handleUserEvent m s = (False, s, [])" using remembered_event [OF assms(1)] by auto
  with Cons show ?case by simp
qed simp

lemma slots_remembered:
  "m \<in> set (concat (map events_of_slot buf)) \<Longrightarrow>
     \<exists>u. Some u \<in> set buf \<and> mu_LTime m = ues_LTime u \<and> event_ident m \<in> set (ues_Events u)"
proof -
  assume "m \<in> set (concat (map events_of_slot buf))"
  then obtain u e where u: "Some u \<in> set buf" "e \<in> set (ues_Events u)"
    and m: "m = \<lparr>mu_LTime = ues_LTime u, mu_Name = ue_Name e, mu_Payload = ue_Payload e, mu_CC = False\<rparr>"
    by (auto simp: events_of_slot_def split: option.splits)
  have "event_ident m = e" by (cases e) (simp add: m event_ident_def)
  with u show ?thesis by (auto simp: m)
qed

subsection \<open>Properties\<close>

text \<open>C23: Whatever messages and states a node receives, if none carries the largest time, its
  lists of members agree with the map, every time it stores is behind its clocks, and its ring
  of events holds each time in its slot.\<close>

theorem node_stays_well_formed:
  assumes "node_ok node" "wire_fits (nd_wire env)"
  shows "(\<forall>node' e. NotifyMsg env buf node = Some (node', e) \<longrightarrow> node_ok node')
    \<and> (\<forall>node' e. MergeRemoteState env buf isJoin node = Some (node', e) \<longrightarrow> node_ok node')"
proof (intro conjI allI impI)
  fix node' e
  show "NotifyMsg env buf node = Some (node', e) \<Longrightarrow> node_ok node'"
    by (rule NotifyMsg_ok [OF assms])
  assume "MergeRemoteState env buf isJoin node = Some (node', e)"
  then have "node' = node
      \<or> (\<exists>pp. we_pushpull (nd_wire env) (tl buf) = Some pp \<and> node' = fst (merge_push_pull env isJoin pp node))"
    by (auto simp: MergeRemoteState_def split: list.splits if_splits option.splits)
  with assms merge_push_pull_ok [OF assms(1)] show "node_ok node'"
    by (auto simp: wire_fits_def)
qed

text \<open>C24: After a merge a node knows every user event the other one had in its ring: it remembers
  it, or the event is too old for its own ring, or before the time from which it was told to
  take events.\<close>

theorem merge_catches_up:
  fixes env :: node_env and isJoin :: bool
  assumes "events_ok (sn_events node)" "pp_fits pp" "Some u \<in> set (pp_Events pp)" "e \<in> set (ues_Events u)"
  defines "es \<equiv> sn_events (fst (merge_push_pull env isJoin pp node))"
  assumes "es_minTime es \<le> ues_LTime u"
  shows "e \<in> set (remembered_at (event_slot es (unat (ues_LTime u) mod length (es_buffer es))) (ues_LTime u))
    \<or> too_old (length (es_buffer es)) (es_clock es) (ues_LTime u)"
proof -
  let ?es = "before_replay isJoin pp (sn_events node)"
  let ?ms = "concat (map events_of_slot (pp_Events pp))"
  let ?m = "\<lparr>mu_LTime = ues_LTime u, mu_Name = ue_Name e, mu_Payload = ue_Payload e, mu_CC = False\<rparr>"
  have es: "es = event_sync.replay ?ms ?es" by (simp add: es_def merge_push_pull_events)
  have ring: "0 < ring_size (es_buffer ?es)" using assms(1) by (simp add: events_ok_def ring_size_pos)
  have "es_minTime ?es \<le> mu_LTime ?m" using assms(6) by (simp add: es)
  moreover have "?m \<in> set ?ms" using assms(3,4) by (force simp: events_of_slot_def)
  ultimately have "events.holds es (mu_LTime ?m) (event_ident ?m)"
    unfolding es using replayed_fit [OF assms(2)] event_sync.replay_holds [OF ring, of ?ms ?m] by blast
  moreover have "ring_size (es_buffer es) = length (es_buffer es)"
    using assms(1) by (simp add: es replay_buffer_length ring_size_def events_ok_def)
  moreover have "event_ident ?m = e" by (cases e) (simp add: event_ident_def)
  ultimately show ?thesis by (simp add: events.holds_def)
qed

text \<open>A well-formed node that merges its own state, in whatever order the members are iterated,
  changes nothing and has no effect.\<close>

theorem merge_own_state:
  assumes "node_ok node" "set names = dom (sm_members (sn_members node))"
    and "\<not> (isJoin \<and> es_joinIgnore (sn_events node))"
  shows "merge_push_pull env isJoin (local_push_pull names node) node = (node, no_effects)"
proof -
  let ?pp = "local_push_pull names node" and ?ms = "sn_members node" and ?es = "sn_events node"
  have ok: "members_inv ?ms" "times_ok ?ms" "events_ok ?es" using assms(1) by (simp_all add: node_ok_def)
  have inv: "lists_inv (sm_store ?ms) (sm_members ?ms) (sm_next ?ms) (sm_failed ?ms) (sm_left ?ms)"
    using ok(1) by (simp add: members_inv_def)
  have time: "status_time ?pp n = m_statusLTime (sm_store ?ms l)" if "sm_members ?ms n = Some l" for n l
  proof -
    have "n \<in> set names" using that assms(2) by auto
    then have "map_of (pp_StatusLTimes ?pp) n = Some (m_statusLTime (sm_store ?ms (the (sm_members ?ms n))))"
      by (simp add: local_push_pull_def Let_def map_of_map_restrict)
    with that show ?thesis by (simp add: status_time_def)
  qed
  have "\<exists>l. sm_members ?ms n = Some l" if n: "n \<in> set (pp_LeftMembers ?pp)" for n
  proof -
    obtain k where k: "k \<in> set (sm_left ?ms)" "n = m_Name (sm_store ?ms k)"
      using n by (auto simp: local_push_pull_def Let_def)
    then obtain a where "sm_members ?ms a = Some k" using lists_invD(6) [OF inv] by (auto simp: ran_def)
    with lists_invD(1) [OF inv this] k(2) show ?thesis by auto
  qed
  with time have leaves: "merge_leaves (nd_members env) ?pp (pp_LeftMembers ?pp) ?ms = (?ms, [])"
    by (intro own_leaves [OF ok(2)]) blast
  have joins: "merge_joins (pp_LeftMembers ?pp) (pp_StatusLTimes ?pp) ?ms = ?ms"
    by (rule own_joins [OF ok(2)]) (use assms(2) in \<open>auto simp: local_push_pull_def Let_def\<close>)
  have events: "merge_events (concat (map events_of_slot (pp_Events ?pp))) ?es = (?es, [])"
    by (rule own_events [OF ok(3)]) (use slots_remembered in \<open>auto simp: local_push_pull_def Let_def\<close>)
  have clocks: "pp_LTime ?pp = sm_clock ?ms" "pp_EventLTime ?pp = es_clock ?es"
    "pp_QueryLTime ?pp = qy_clock (sn_queries node)"
    by (simp_all add: local_push_pull_def Let_def)
  have keep: "(isJoin \<and> es_joinIgnore ?es \<and> b) = False" for b using assms(3) by blast
  show ?thesis
    unfolding merge_push_pull_def
    by (simp add: Let_def clocks witness_remote_own leaves joins events keep no_effects_def)
qed

subsection \<open>Concrete nodes\<close>

definition demo_ring :: event_state where
  "demo_ring = \<lparr>es_clock = 8, es_buffer = [None, Some \<lparr>ues_LTime = 7,
     ues_Events = [\<lparr>ue_Name = ''deploy'', ue_Payload = []\<rparr>]\<rparr>], es_minTime = 0, es_joinIgnore = False\<rparr>"

definition demo_sn :: serf_node where
  "demo_sn = \<lparr>sn_members = demo_pair, sn_events = demo_ring, sn_queries = demo_queries, sn_running = Map.empty\<rparr>"

text \<open>A node that knows no event yet.\<close>

definition demo_new :: serf_node where
  "demo_new = demo_sn\<lparr>sn_events := \<lparr>es_clock = 1, es_buffer = [None, None], es_minTime = 0,
     es_joinIgnore = False\<rparr>\<rparr>"

definition demo_wire :: wire_env where
  "demo_wire = \<lparr>we_leave = (\<lambda>_. None), we_join = (\<lambda>_. None), we_event = (\<lambda>_. Some (demo_event 9)),
     we_query = (\<lambda>_. None), we_response = (\<lambda>_. None), we_pushpull = (\<lambda>_. None),
     we_encode_event = (\<lambda>_. Inr [1]), we_encode_query = (\<lambda>_. Inr [2]), we_encode_pushpull = (\<lambda>_. Inr [3])\<rparr>"

definition demo_nd :: node_env where
  "demo_nd = \<lparr>nd_members = demo_serf, nd_serf = demo_node, nd_wire = demo_wire\<rparr>"

lemma all_below_2: "(\<forall>i < Suc (Suc 0). P i) \<longleftrightarrow> P 0 \<and> P (Suc 0)"
  by (auto simp: less_Suc_eq)

lemma demo_ring_ok: "events_ok demo_ring"
proof -
  have "unat (7 :: ltime) mod Suc (Suc 0) = Suc 0" by (simp add: numeral_2_eq_2 [symmetric])
  then show ?thesis by (simp add: events_ok_def demo_ring_def all_below_2)
qed

lemma demo_pair_times: "times_ok demo_pair"
proof -
  have r: "ran (sm_members demo_pair) = {0, Suc 0}"
    by (simp add: demo_pair_members ran_map_upd insert_commute)
  have "sm_recentLeave demo_pair = replicate 4 \<lparr>ni_LTime = 0, ni_Node = []\<rparr>"
    "sm_recentJoin demo_pair = replicate 4 \<lparr>ni_LTime = 0, ni_Node = []\<rparr>"
    by (simp_all add: demo_pair_def handleNodeJoin_def Let_def members_init_def demo_member_def)
  with r show ?thesis by (simp add: times_ok_def demo_pair_members)
qed

lemma demo_sn_ok: "node_ok demo_sn"
  using serf_reach_inv [OF demo_pair_reach] demo_pair_times demo_ring_ok
  by (simp add: node_ok_def demo_sn_def)

theorem node_stays_well_formed_witness:
  "\<exists>node' e. NotifyMsg demo_nd [3] demo_sn = Some (node', e) \<and> node_ok node'"
proof -
  have "wire_fits (nd_wire demo_nd)" by (simp add: wire_fits_def demo_nd_def demo_wire_def demo_event_def)
  from node_stays_well_formed [OF demo_sn_ok this, of "[3]"]
  have "\<forall>node' e. NotifyMsg demo_nd [3] demo_sn = Some (node', e) \<longrightarrow> node_ok node'" by blast
  moreover have "\<exists>node' e. NotifyMsg demo_nd [3] demo_sn = Some (node', e)"
    by (simp add: NotifyMsg_def message_types demo_nd_def demo_wire_def case_prod_beta Let_def)
  ultimately show ?thesis by blast
qed

theorem merge_catches_up_witness:
  "let es = sn_events (fst (merge_push_pull demo_nd False (local_push_pull [''n1'', ''n2''] demo_sn) demo_new))
   in \<lparr>ue_Name = ''deploy'', ue_Payload = []\<rparr> \<in> set (remembered_at (event_slot es (unat (7 :: ltime) mod length (es_buffer es))) 7)
     \<or> too_old (length (es_buffer es)) (es_clock es) 7"
proof -
  let ?u = "\<lparr>ues_LTime = 7, ues_Events = [\<lparr>ue_Name = ''deploy'', ue_Payload = []\<rparr>]\<rparr>"
  let ?pp = "local_push_pull [''n1'', ''n2''] demo_sn"
  have new: "events_ok (sn_events demo_new)"
    by (simp add: demo_new_def events_ok_def all_below_2)
  have fits: "pp_fits ?pp"
    by (simp add: pp_fits_def local_push_pull_def Let_def demo_sn_def demo_pair_members demo_ring_def)
  have u: "Some ?u \<in> set (pp_Events ?pp)"
    by (simp add: local_push_pull_def Let_def demo_sn_def demo_ring_def)
  have floor: "es_minTime (sn_events (fst (merge_push_pull demo_nd False ?pp demo_new))) \<le> 7"
    by (simp add: merge_push_pull_events before_replay_def Let_def demo_new_def)
  show ?thesis
    using merge_catches_up [OF new fits u, of "\<lparr>ue_Name = ''deploy'', ue_Payload = []\<rparr>" demo_nd False] floor
    by (simp add: Let_def)
qed

theorem merge_own_state_witness:
  "merge_push_pull demo_nd False (local_push_pull [''n1'', ''n2''] demo_sn) demo_sn = (demo_sn, no_effects)"
  by (rule merge_own_state [OF demo_sn_ok]) (auto simp: demo_sn_def demo_pair_members)

end
