(* ===== verification/GoStd.thy ===== *)
theory GoStd
  imports Prelude "HOL-Library.Char_ord" "HOL-Library.List_Lexorder"
begin

section \<open>The parts of Go's standard library the program uses\<close>

text \<open>
  \<open>strings.Split\<close>, \<open>strings.TrimSpace\<close>, \<open>strconv.Atoi\<close>, \<open>strconv.Quote\<close>
  (the verb \<open>%q\<close>), decimal and hexadecimal verbs, and \<open>encoding/base64\<close>, as
  functions on byte strings. Go compares strings bytewise, which is the lexicographic
  order of the imported theories.
\<close>

subsection \<open>strings.Split with a one-byte separator\<close>

fun split_on :: "char \<Rightarrow> string \<Rightarrow> string list" where
  "split_on sep [] = [[]]"
| "split_on sep (c # cs) =
     (if c = sep then [] # split_on sep cs
      else (case split_on sep cs of
              [] \<Rightarrow> [[c]]
            | f # fs \<Rightarrow> (c # f) # fs))"

fun join_with :: "char \<Rightarrow> string list \<Rightarrow> string" where
  "join_with sep [] = []"
| "join_with sep [f] = f"
| "join_with sep (f # g # fs) = f @ sep # join_with sep (g # fs)"

lemma split_on_nonempty [simp]: "split_on sep s \<noteq> []"
  by (induction s) (auto split: list.splits)

lemma split_on_no_sep: "sep \<notin> set s \<Longrightarrow> split_on sep s = [s]"
  by (induction s) auto

lemma split_on_append_sep: "sep \<notin> set f \<Longrightarrow> split_on sep (f @ sep # s) = f # split_on sep s"
  by (induction f) auto

lemma length_split_on: "length (split_on sep s) = Suc (count_list s sep)"
  by (induction s) (auto split: list.splits)

lemma sep_notin_split_on: "f \<in> set (split_on sep s) \<Longrightarrow> sep \<notin> set f"
  by (induction s arbitrary: f) (auto split: if_splits list.splits)

lemma join_with_Cons_Cons: "join_with sep ((c # f) # fs) = c # join_with sep (f # fs)"
  by (cases fs) auto

lemma join_split_on: "join_with sep (split_on sep s) = s"
proof (induction s)
  case Nil
  show ?case by simp
next
  case (Cons c s)
  obtain f fs where "split_on sep s = f # fs"
    by (cases "split_on sep s") auto
  with Cons show ?case
    by (auto simp: join_with_Cons_Cons)
qed

lemma split_join_with:
  "fs \<noteq> [] \<Longrightarrow> \<forall>f \<in> set fs. sep \<notin> set f \<Longrightarrow> split_on sep (join_with sep fs) = fs"
  by (induction sep fs rule: join_with.induct)
     (auto simp: split_on_no_sep split_on_append_sep)

text \<open>A string splits into exactly two fields iff it has exactly one separator.\<close>

lemma split_on_pair_iff:
  "split_on sep s = [k, v] \<longleftrightarrow> s = k @ sep # v \<and> sep \<notin> set k \<and> sep \<notin> set v"
proof
  assume eq: "split_on sep s = [k, v]"
  then have "s = join_with sep [k, v]" by (metis join_split_on)
  moreover have "sep \<notin> set k" "sep \<notin> set v"
    using eq sep_notin_split_on [of k sep s] sep_notin_split_on [of v sep s] by auto
  ultimately show "s = k @ sep # v \<and> sep \<notin> set k \<and> sep \<notin> set v" by simp
qed (auto simp: split_on_append_sep split_on_no_sep)

subsection \<open>strings.TrimSpace\<close>

text \<open>
  The encodings of the runes for which \<open>unicode.IsSpace\<close> holds: tab, line feed,
  vertical tab, form feed, carriage return, space, U+0085, U+00A0, U+1680, U+2000 to
  U+200A, U+2028, U+2029, U+202F, U+205F and U+3000.
\<close>

definition space_encodings :: "string list" where
  "space_encodings = map (map (char_of :: nat \<Rightarrow> char))
     ([[9], [10], [11], [12], [13], [32], [194, 133], [194, 160], [225, 154, 128],
       [226, 128, 168], [226, 128, 169], [226, 128, 175], [226, 129, 159], [227, 128, 128]]
      @ map (\<lambda>k. [226, 128, k]) [128, 129, 130, 131, 132, 133, 134, 135, 136, 137, 138])"

fun strip_prefix :: "'a list \<Rightarrow> 'a list \<Rightarrow> 'a list option" where
  "strip_prefix [] s = Some s"
| "strip_prefix (p # ps) [] = None"
| "strip_prefix (p # ps) (c # s) = (if p = c then strip_prefix ps s else None)"

fun strip_any :: "'a list list \<Rightarrow> 'a list \<Rightarrow> 'a list option" where
  "strip_any [] s = None"
| "strip_any (p # ps) s =
     (case strip_prefix p s of Some r \<Rightarrow> if p = [] then strip_any ps s else Some r
                             | None \<Rightarrow> strip_any ps s)"

lemma strip_prefix_Some_iff: "strip_prefix p s = Some r \<longleftrightarrow> s = p @ r"
  by (induction p s rule: strip_prefix.induct) auto

lemma strip_any_Some:
  "strip_any ps s = Some r \<Longrightarrow> \<exists>p \<in> set ps. p \<noteq> [] \<and> s = p @ r"
  by (induction ps) (auto simp: strip_prefix_Some_iff split: option.splits if_splits)

lemma strip_any_shorter: "strip_any ps s = Some r \<Longrightarrow> length r < length s"
  by (auto dest!: strip_any_Some)

function trim_left_by :: "'a list list \<Rightarrow> 'a list \<Rightarrow> 'a list" where
  "trim_left_by ps s = (case strip_any ps s of None \<Rightarrow> s | Some r \<Rightarrow> trim_left_by ps r)"
  by pat_completeness auto
termination
  by (relation "measure (\<lambda>(ps, s). length s)") (auto dest: strip_any_shorter)

declare trim_left_by.simps [simp del]

definition trim_space :: "string \<Rightarrow> string" where
  "trim_space s =
     rev (trim_left_by (map rev space_encodings) (rev (trim_left_by space_encodings s)))"

lemma trim_left_by_stuck: "strip_any ps (trim_left_by ps s) = None"
proof (induction ps s rule: trim_left_by.induct)
  case (1 ps s)
  then show ?case
    by (subst trim_left_by.simps) (auto split: option.splits)
qed

lemma trim_left_by_suffix: "\<exists>p. s = p @ trim_left_by ps s"
proof (induction ps s rule: trim_left_by.induct)
  case (1 ps s)
  show ?case
  proof (cases "strip_any ps s")
    case None
    then show ?thesis by (simp add: trim_left_by.simps [of ps s])
  next
    case (Some r)
    then obtain p where "s = p @ r" by (auto dest: strip_any_Some)
    moreover obtain q where "r = q @ trim_left_by ps r" using 1 [OF Some] by blast
    ultimately have "s = (p @ q) @ trim_left_by ps r" by simp
    moreover have "trim_left_by ps s = trim_left_by ps r"
      using Some by (subst trim_left_by.simps) simp
    ultimately show ?thesis by metis
  qed
qed

lemma trim_left_by_stuck_id: "strip_any ps s = None \<Longrightarrow> trim_left_by ps s = s"
  by (simp add: trim_left_by.simps [of ps s])

lemma trim_space_Nil [simp]: "trim_space [] = []"
proof -
  have "strip_any space_encodings [] = None" "strip_any (map rev space_encodings) [] = None"
    by (auto simp: space_encodings_def)
  then show ?thesis by (simp add: trim_space_def trim_left_by_stuck_id)
qed

subsection \<open>Numbers: strconv.Atoi and the verbs %d and %x\<close>

definition digit_char :: "nat \<Rightarrow> char" where
  "digit_char d = (if d < 10 then char_of (48 + d) else char_of (87 + d))"

function show_base :: "nat \<Rightarrow> nat \<Rightarrow> string" where
  "show_base b n =
     (if b < 2 \<or> n < b then [digit_char n] else show_base b (n div b) @ [digit_char (n mod b)])"
  by pat_completeness auto
termination
  by (relation "measure (\<lambda>(b, n). n)") (auto intro: div_less_dividend)

declare show_base.simps [simp del]

definition show_nat :: "nat \<Rightarrow> string" where
  "show_nat n = show_base 10 n"

definition show_int :: "int \<Rightarrow> string" where
  "show_int i = (if i < 0 then CHR ''-'' # show_nat (nat (- i)) else show_nat (nat i))"

definition digit_val :: "char \<Rightarrow> nat option" where
  "digit_val c = (if 48 \<le> (of_char c :: nat) \<and> of_char c \<le> (57 :: nat)
                  then Some (of_char c - 48) else None)"

fun parse_digits :: "nat \<Rightarrow> string \<Rightarrow> nat option" where
  "parse_digits acc [] = Some acc"
| "parse_digits acc (c # cs) =
     (case digit_val c of None \<Rightarrow> None | Some d \<Rightarrow> parse_digits (acc * 10 + d) cs)"

definition parse_unsigned :: "string \<Rightarrow> nat option" where
  "parse_unsigned s = (if s = [] then None else parse_digits 0 s)"

text \<open>
  \<open>Atoi\<close> accepts an optional sign and decimal digits, and fails outside the range of a
  64-bit \<open>int\<close>.
\<close>

definition atoi :: "string \<Rightarrow> int option" where
  "atoi s =
     (case s of
        [] \<Rightarrow> None
      | c # cs \<Rightarrow>
          (let neg = (c = CHR ''-'');
               body = (if c = CHR ''-'' \<or> c = CHR ''+'' then cs else s)
           in case parse_unsigned body of
                None \<Rightarrow> None
              | Some n \<Rightarrow>
                  if neg then (if n \<le> 2 ^ 63 then Some (- int n) else None)
                  else (if n < 2 ^ 63 then Some (int n) else None)))"

lemma of_char_digit_char: "d < 10 \<Longrightarrow> of_char (digit_char d) = (48 + d :: nat)"
  by (simp add: digit_char_def)

lemma digit_val_digit_char [simp]: "d < 10 \<Longrightarrow> digit_val (digit_char d) = Some d"
  by (simp add: digit_val_def of_char_digit_char)

lemma parse_digits_append:
  "parse_digits acc (xs @ ys) =
     (case parse_digits acc xs of None \<Rightarrow> None | Some a \<Rightarrow> parse_digits a ys)"
  by (induction acc xs rule: parse_digits.induct) (auto split: option.splits)

lemma show_base_nonempty [simp]: "show_base b n \<noteq> []"
  by (subst show_base.simps) simp

lemma parse_digits_show_base: "parse_digits 0 (show_base 10 n) = Some n"
proof (induction n rule: less_induct)
  case (less n)
  show ?case
  proof (cases "n < 10")
    case True
    then show ?thesis by (simp add: show_base.simps [of 10 n])
  next
    case False
    then have "parse_digits 0 (show_base 10 (n div 10)) = Some (n div 10)"
      by (intro less.IH) simp
    with False show ?thesis
      by (simp add: show_base.simps [of 10 n] parse_digits_append)
  qed
qed

lemma parse_unsigned_show_nat [simp]: "parse_unsigned (show_nat n) = Some n"
  by (simp add: parse_unsigned_def show_nat_def parse_digits_show_base)

lemma show_base_chars: "set (show_base 10 n) \<subseteq> digit_char ` {0..<10}"
proof (induction n rule: less_induct)
  case (less n)
  show ?case
    using less.IH [of "n div 10"] by (subst show_base.simps) auto
qed

lemma char_minus_not_digit: "d < 10 \<Longrightarrow> digit_char d \<noteq> CHR ''-'' \<and> digit_char d \<noteq> CHR ''+''"
  by (auto dest: arg_cong [where f = "of_char :: char \<Rightarrow> nat"] simp: of_char_digit_char)

lemma hd_show_nat: "show_nat n = c # cs \<Longrightarrow> c \<noteq> CHR ''-'' \<and> c \<noteq> CHR ''+''"
  using show_base_chars [of n] char_minus_not_digit by (auto simp: show_nat_def)

lemma atoi_show_nat: "n < 2 ^ 63 \<Longrightarrow> atoi (show_nat n) = Some (int n)"
  using hd_show_nat [of n] parse_unsigned_show_nat [of n]
  by (cases "show_nat n") (auto simp: atoi_def Let_def show_nat_def)

lemma atoi_range: "atoi s = Some i \<Longrightarrow> - (2 ^ 63) \<le> i \<and> i < 2 ^ 63"
  by (auto simp: atoi_def Let_def split: list.splits option.splits if_splits)

subsection \<open>strconv.Quote\<close>

text \<open>
  \<open>decode_rune\<close> is \<open>utf8.DecodeRuneInString\<close> on the byte values of a string: the
  rune and its width, \<open>(0xFFFD, 1)\<close> for an invalid encoding.
\<close>

definition is_cont :: "nat \<Rightarrow> bool" where
  "is_cont b \<longleftrightarrow> 128 \<le> b \<and> b < 192"

definition decode_rune :: "nat list \<Rightarrow> nat \<times> nat" where
  "decode_rune bs =
     (case bs of
        [] \<Rightarrow> (65533, 0)
      | b0 # r0 \<Rightarrow>
          if b0 < 128 then (b0, 1)
          else case r0 of
            [] \<Rightarrow> (65533, 1)
          | b1 # r1 \<Rightarrow>
              if \<not> is_cont b1 then (65533, 1)
              else if 194 \<le> b0 \<and> b0 < 224 then ((b0 - 192) * 64 + (b1 - 128), 2)
              else case r1 of
                [] \<Rightarrow> (65533, 1)
              | b2 # r2 \<Rightarrow>
                  if \<not> is_cont b2 then (65533, 1)
                  else if 224 \<le> b0 \<and> b0 < 240 then
                    (let r = (b0 - 224) * 4096 + (b1 - 128) * 64 + (b2 - 128)
                     in if r < 2048 \<or> (55296 \<le> r \<and> r \<le> 57343) then (65533, 1) else (r, 3))
                  else case r2 of
                    [] \<Rightarrow> (65533, 1)
                  | b3 # r3 \<Rightarrow>
                      if \<not> is_cont b3 \<or> b0 < 240 \<or> 248 \<le> b0 then (65533, 1)
                      else (let r = (b0 - 240) * 262144 + (b1 - 128) * 4096
                                    + (b2 - 128) * 64 + (b3 - 128)
                            in if r < 65536 \<or> 1114111 < r then (65533, 1) else (r, 4)))"

definition hex_pad :: "nat \<Rightarrow> nat \<Rightarrow> string" where
  "hex_pad k n = (let h = show_base 16 n in replicate (k - length h) (CHR ''0'') @ h)"

text \<open>
  \<open>is_print\<close> is \<open>strconv.IsPrint\<close> above ASCII, a table of the Unicode database and so
  a parameter here; below 128 the printable characters are 32 to 126.
\<close>

definition quote_escape :: "nat \<Rightarrow> string" where
  "quote_escape r =
     (if r = 7 then (CHR 0x5C # ''a'') else if r = 8 then (CHR 0x5C # ''b'') else if r = 12 then (CHR 0x5C # ''f'')
      else if r = 10 then (CHR 0x5C # ''n'') else if r = 13 then (CHR 0x5C # ''r'') else if r = 9 then (CHR 0x5C # ''t'')
      else if r = 11 then (CHR 0x5C # ''v'')
      else if r < 32 then (CHR 0x5C # ''x'') @ hex_pad 2 r
      else if r < 65536 then (CHR 0x5C # ''u'') @ hex_pad 4 r
      else (CHR 0x5C # ''U'') @ hex_pad 8 r)"

function quote_body :: "(nat \<Rightarrow> bool) \<Rightarrow> string \<Rightarrow> string" where
  "quote_body is_print [] = []"
| "quote_body is_print (c # cs) =
     (let (r, width) = decode_rune (map of_char (c # cs));
          rest = drop (width - 1) cs
      in if width \<le> 1 \<and> r = 65533 then (CHR 0x5C # ''x'') @ hex_pad 2 (of_char c) @ quote_body is_print cs
         else if r = 34 \<or> r = 92 then CHR 0x5C # char_of r # quote_body is_print rest
         else if (if r < 128 then 32 \<le> r \<and> r \<le> 126 else is_print r)
              then c # take (width - 1) cs @ quote_body is_print rest
         else quote_escape r @ quote_body is_print rest)"
  by pat_completeness auto
termination
  by (relation "measure (\<lambda>(p, s). length s)") auto

definition go_quote :: "(nat \<Rightarrow> bool) \<Rightarrow> string \<Rightarrow> string" where
  "go_quote is_print s = CHR 0x22 # quote_body is_print s @ [CHR 0x22]"

text \<open>On printable ASCII without quotes and backslashes, quoting only adds the quotes.\<close>

definition plain_ascii :: "string \<Rightarrow> bool" where
  "plain_ascii s \<longleftrightarrow>
     (\<forall>c \<in> set s. 32 \<le> (of_char c :: nat) \<and> of_char c \<le> (126 :: nat) \<and> c \<noteq> CHR 0x22 \<and> c \<noteq> CHR 0x5C)"

lemma of_char_quote_iff: "(of_char c = (34 :: nat)) = (c = CHR 0x22)"
    "(of_char c = (92 :: nat)) = (c = CHR 0x5C)"
proof -
  have "of_char (CHR 0x22) = (34 :: nat)" "of_char (CHR 0x5C) = (92 :: nat)" by simp_all
  then show "(of_char c = (34 :: nat)) = (c = CHR 0x22)" "(of_char c = (92 :: nat)) = (c = CHR 0x5C)"
    by (metis of_char_eq_iff)+
qed

lemma quote_body_plain: "plain_ascii s \<Longrightarrow> quote_body p s = s"
  by (induction s) (auto simp: plain_ascii_def decode_rune_def of_char_quote_iff)

lemma go_quote_plain: "plain_ascii s \<Longrightarrow> go_quote p s = CHR 0x22 # s @ [CHR 0x22]"
  by (simp add: go_quote_def quote_body_plain)

end
