(* ===== verification/AgentStream.thy ===== *)
theory AgentStream
  imports SerfDelegate Channel GoStd
begin

section \<open>Events of an agent and their subscribers (serf/command/agent)\<close>

text \<open>
  The agent reads Serf's events one by one and hands each to the registered handlers
  (\<open>agent.go\<close>). A handler of the RPC server is an event stream (\<open>ipc_event_stream.go\<close>): it
  keeps the events its filters admit (\<open>event_handler.go\<close>) and offers them to a channel that its
  goroutine drains. A query is shared by all its readers, so an event holds its location.
\<close>

subsection \<open>Filters\<close>

fun EventType_String :: "EventType \<Rightarrow> string" where
  "EventType_String EventMemberJoin = ''member-join''"
| "EventType_String EventMemberLeave = ''member-leave''"
| "EventType_String EventMemberFailed = ''member-failed''"
| "EventType_String EventMemberUpdate = ''member-update''"
| "EventType_String EventMemberReap = ''member-reap''"
| "EventType_String EventUser = ''user''"
| "EventType_String EventQuery = ''query''"

datatype ipc_event = AeMembers MemberEvent | AeUser UserEvent | AeQuery loc

fun event_type :: "ipc_event \<Rightarrow> EventType" where
  "event_type (AeMembers e) = me_Type e"
| "event_type (AeUser _) = EventUser"
| "event_type (AeQuery _) = EventQuery"

record EventFilter =
  fl_Event :: string
  fl_Name :: string

text \<open>The last two tests are the type assertions: an event that claims to be one and is not fails.\<close>

definition filter_Invoke :: "(loc \<Rightarrow> squery) \<Rightarrow> EventFilter \<Rightarrow> ipc_event \<Rightarrow> bool" where
  "filter_Invoke queries f e =
     (if fl_Event f = ''*'' then True
      else if EventType_String (event_type e) \<noteq> fl_Event f then False
      else if fl_Event f = ''user'' \<and> fl_Name f \<noteq> []
        \<and> (case e of AeUser u \<Rightarrow> uev_Name u \<noteq> fl_Name f | _ \<Rightarrow> True) then False
      else if fl_Event f = ''query'' \<and> fl_Name f \<noteq> []
        \<and> (case e of AeQuery l \<Rightarrow> q_Name (queries l) \<noteq> fl_Name f | _ \<Rightarrow> True) then False
      else True)"

definition filter_Valid :: "EventFilter \<Rightarrow> bool" where
  "filter_Valid f \<longleftrightarrow> fl_Event f \<in> {''member-join'', ''member-leave'', ''member-failed'',
     ''member-update'', ''member-reap'', ''user'', ''query'', ''*''}"

definition parse_filter :: "string \<Rightarrow> EventFilter" where
  "parse_filter event =
     (case strip_prefix ''user:'' event of
        Some name \<Rightarrow> \<lparr>fl_Event = ''user'', fl_Name = name\<rparr>
      | None \<Rightarrow>
          (case strip_prefix ''query:'' event of
             Some name \<Rightarrow> \<lparr>fl_Event = ''query'', fl_Name = name\<rparr>
           | None \<Rightarrow> \<lparr>fl_Event = event, fl_Name = []\<rparr>))"

definition ParseEventFilter :: "string \<Rightarrow> EventFilter list" where
  "ParseEventFilter v = map parse_filter (split_on CHR '','' (if v = [] then ''*'' else v))"

subsection \<open>Streams and handlers\<close>

record eventStream =
  st_chan :: "ipc_event chan"
  st_filters :: "EventFilter list"
  st_seq :: "64 word"

definition newEventStream :: "EventFilter list \<Rightarrow> 64 word \<Rightarrow> eventStream" where
  "newEventStream filters seq = \<lparr>st_chan = make_chan 512, st_filters = filters, st_seq = seq\<rparr>"

text \<open>\<open>None\<close> is the panic of a send on a channel that \<open>Stop\<close> has closed.\<close>

definition HandleEvent :: "(loc \<Rightarrow> squery) \<Rightarrow> ipc_event \<Rightarrow> eventStream \<Rightarrow> eventStream option" where
  "HandleEvent queries e es =
     (if list_ex (\<lambda>f. filter_Invoke queries f e) (st_filters es)
      then (case chan_offer e (st_chan es) of None \<Rightarrow> None | Some c \<Rightarrow> Some (es\<lparr>st_chan := c\<rparr>))
      else Some es)"

definition stream_Stop :: "eventStream \<Rightarrow> eventStream option" where
  "stream_Stop es = (case chan_close (st_chan es) of None \<Rightarrow> None | Some c \<Rightarrow> Some (es\<lparr>st_chan := c\<rparr>))"

text \<open>
  The agent: the queries its handlers share, its streams, and the handlers that are registered,
  whose list has any order.
\<close>

record agent_state =
  ag_queries :: "loc \<Rightarrow> squery"
  ag_streams :: "loc \<Rightarrow> eventStream"
  ag_next :: loc
  ag_handlers :: "loc list"

definition RegisterEventHandler :: "loc \<Rightarrow> agent_state \<Rightarrow> agent_state" where
  "RegisterEventHandler l a = a\<lparr>ag_handlers := List.insert l (ag_handlers a)\<rparr>"

definition DeregisterEventHandler :: "loc \<Rightarrow> agent_state \<Rightarrow> agent_state" where
  "DeregisterEventHandler l a = a\<lparr>ag_handlers := filter (\<lambda>k. k \<noteq> l) (ag_handlers a)\<rparr>"

text \<open>The event loop reads one event and the list of handlers, then calls them one by one.\<close>

fun agent_receive :: "serf_event \<Rightarrow> agent_state \<Rightarrow> ipc_event \<times> agent_state" where
  "agent_receive (SawMembers e) a = (AeMembers e, a)"
| "agent_receive (SawUser e) a = (AeUser e, a)"
| "agent_receive (SawQuery q) a =
     (AeQuery (ag_next a), a\<lparr>ag_queries := (ag_queries a)(ag_next a := q), ag_next := Suc (ag_next a)\<rparr>)"

definition hand_event :: "ipc_event \<Rightarrow> loc \<Rightarrow> agent_state \<Rightarrow> agent_state option" where
  "hand_event e l a =
     (case HandleEvent (ag_queries a) e (ag_streams a l) of
        None \<Rightarrow> None
      | Some es \<Rightarrow> Some (a\<lparr>ag_streams := (ag_streams a)(l := es)\<rparr>))"

primrec hand_out :: "ipc_event \<Rightarrow> loc list \<Rightarrow> agent_state \<Rightarrow> agent_state option" where
  "hand_out e [] a = Some a"
| "hand_out e (l # ls) a = (case hand_event e l a of None \<Rightarrow> None | Some a' \<Rightarrow> hand_out e ls a')"

definition event_round :: "serf_event \<Rightarrow> agent_state \<Rightarrow> agent_state option" where
  "event_round e a = (let (ev, a') = agent_receive e a in hand_out ev (ag_handlers a') a')"

subsection \<open>What a filter admits\<close>

lemma parse_filter_user [simp]: "parse_filter (''user:'' @ name) = \<lparr>fl_Event = ''user'', fl_Name = name\<rparr>"
  by (simp add: parse_filter_def)

lemma parse_filter_query [simp]: "parse_filter (''query:'' @ name) = \<lparr>fl_Event = ''query'', fl_Name = name\<rparr>"
  by (simp add: parse_filter_def)

lemma ParseEventFilter_join:
  assumes "vs \<noteq> []" "\<forall>v \<in> set vs. CHR '','' \<notin> set v" "vs \<noteq> [[]]"
  shows "ParseEventFilter (join_with CHR '','' vs) = map parse_filter vs"
proof -
  have "join_with CHR '','' vs \<noteq> []" using assms by (cases vs; cases "tl vs") auto
  then show ?thesis using split_join_with [of vs "CHR '',''"] assms by (simp add: ParseEventFilter_def)
qed

lemma event_type_query: "event_type (AeQuery l) = EventQuery" by simp

lemma query_filter_iff:
  "filter_Invoke queries \<lparr>fl_Event = ''query'', fl_Name = name\<rparr> (AeQuery l) \<longleftrightarrow>
     name = [] \<or> q_Name (queries l) = name"
  by (auto simp: filter_Invoke_def)

lemma HandleEvent_open:
  "\<not> ch_closed (st_chan es) \<Longrightarrow> \<exists>es'. HandleEvent queries e es = Some es'"
  by (simp add: HandleEvent_def chan_offer_def)

lemma HandleEvent_closed:
  "ch_closed (st_chan es) \<Longrightarrow>
     HandleEvent queries e es = (if list_ex (\<lambda>f. filter_Invoke queries f e) (st_filters es) then None else Some es)"
  by (simp add: HandleEvent_def chan_offer_def)

end
