(* ===== verification/Cli.thy ===== *)
theory Cli
  imports GoStd
begin

section \<open>The command line library (codegangsta/cli) over Go's package flag\<close>

text \<open>
  Flags are applied to a \<open>FlagSet\<close>, the arguments are parsed against it, and an \<open>App\<close> chooses
  the command to run. Modelled are the flag types the program and the library declare, flags
  with several names, environment variables, the two ways a command is run (\<open>Command.Run\<close>,
  and \<open>startApp\<close> with \<open>RunAsSubcommand\<close> when it has a \<open>Before\<close>), help and version. Commands
  have no subcommands and no \<open>After\<close> hook, and bash completion is off, as in the program.

  The text of \<open>time.Duration\<close> values goes through floating point in the standard library
  and is a parameter of the model: \<open>parse_duration\<close> and \<open>duration_string\<close>.
\<close>

subsection \<open>Flags and flag sets\<close>

text \<open>The fields are \<open>Name\<close>, \<open>Value\<close>, \<open>Usage\<close> and \<open>EnvVar\<close>, those each type has.\<close>

datatype Flag =
    StringFlag string string string string
  | StringSliceFlag string "string list option" string string
  | BoolFlag string string string
  | BoolTFlag string string string
  | DurationFlag string int string string

fun getName :: "Flag \<Rightarrow> string" where
  "getName (StringFlag n _ _ _) = n"
| "getName (StringSliceFlag n _ _ _) = n"
| "getName (BoolFlag n _ _) = n"
| "getName (BoolTFlag n _ _) = n"
| "getName (DurationFlag n _ _ _) = n"

datatype flag_value =
    VString string
  | VSlice "string list"
  | VBool bool
  | VDuration int

text \<open>
  Every name of a flag points to a cell. The names of a \<open>StringSliceFlag\<close> share one cell (one
  \<open>*StringSlice\<close>), called by the flag's whole name; every other name has a cell of its own.
\<close>

record FlagSet =
  fs_formal :: "string \<rightharpoonup> string"
  fs_cell :: "string \<rightharpoonup> flag_value"
  fs_actual :: "string set"
  fs_args :: "string list"

record cli_env =
  os_getenv :: "string \<Rightarrow> string"
  parse_duration :: "string \<Rightarrow> int option"
  duration_string :: "int \<Rightarrow> string"

definition new_FlagSet :: FlagSet where
  "new_FlagSet = \<lparr>fs_formal = Map.empty, fs_cell = Map.empty, fs_actual = {}, fs_args = []\<rparr>"

definition fs_Lookup :: "FlagSet \<Rightarrow> string \<Rightarrow> flag_value option" where
  "fs_Lookup fs name = (case fs_formal fs name of None \<Rightarrow> None | Some c \<Rightarrow> fs_cell fs c)"

text \<open>\<open>FlagSet.Var\<close> panics on a name that is already defined.\<close>

definition fs_Var :: "string \<Rightarrow> string \<Rightarrow> flag_value \<Rightarrow> FlagSet \<Rightarrow> FlagSet option" where
  "fs_Var name c v fs =
     (if fs_formal fs name \<noteq> None then None
      else Some (fs\<lparr>fs_formal := (fs_formal fs)(name \<mapsto> c), fs_cell := (fs_cell fs)(c \<mapsto> v)\<rparr>))"

definition trim_blanks :: "string \<Rightarrow> string" where
  "trim_blanks s = rev (dropWhile (\<lambda>c. c = CHR '' '') (rev (dropWhile (\<lambda>c. c = CHR '' '') s)))"

definition flag_names :: "string \<Rightarrow> string list" where
  "flag_names longName = map trim_blanks (split_on (CHR '','') longName)"

fun eachName :: "string list \<Rightarrow> (string \<Rightarrow> FlagSet \<Rightarrow> FlagSet option) \<Rightarrow> FlagSet \<Rightarrow> FlagSet option" where
  "eachName [] fn fs = Some fs"
| "eachName (n # ns) fn fs = (case fn n fs of None \<Rightarrow> None | Some fs' \<Rightarrow> eachName ns fn fs')"

text \<open>\<open>strconv.ParseBool\<close>\<close>

definition parse_bool :: "string \<Rightarrow> bool option" where
  "parse_bool s =
     (if s \<in> {''1'', ''t'', ''T'', ''TRUE'', ''true'', ''True''} then Some True
      else if s \<in> {''0'', ''f'', ''F'', ''FALSE'', ''false'', ''False''} then Some False
      else None)"

text \<open>
  The first variable of the list \<open>EnvVar\<close> that is set to something other than the empty
  string; the flag types differ in what they do when it does not parse.
\<close>

definition env_values :: "cli_env \<Rightarrow> string \<Rightarrow> string list" where
  "env_values env envVar =
     (if envVar = [] then []
      else filter (\<lambda>v. v \<noteq> []) (map (\<lambda>n. os_getenv env (trim_space n)) (split_on (CHR '','') envVar)))"

fun first_parsed :: "(string \<Rightarrow> 'a option) \<Rightarrow> string list \<Rightarrow> 'a option" where
  "first_parsed p [] = None"
| "first_parsed p (v # vs) = (case p v of Some x \<Rightarrow> Some x | None \<Rightarrow> first_parsed p vs)"

fun flag_default :: "cli_env \<Rightarrow> Flag \<Rightarrow> flag_value" where
  "flag_default env (StringFlag _ value _ e) =
     VString (case env_values env e of v # _ \<Rightarrow> v | [] \<Rightarrow> value)"
| "flag_default env (StringSliceFlag _ value _ e) =
     VSlice (case env_values env e of
               v # _ \<Rightarrow> map trim_space (split_on (CHR '','') v)
             | [] \<Rightarrow> (case value of None \<Rightarrow> [] | Some l \<Rightarrow> l))"
| "flag_default env (BoolFlag _ _ e) =
     VBool (case env_values env e of
              v # _ \<Rightarrow> (case parse_bool v of Some b \<Rightarrow> b | None \<Rightarrow> False)
            | [] \<Rightarrow> False)"
| "flag_default env (BoolTFlag _ _ e) =
     VBool (case first_parsed parse_bool (env_values env e) of Some b \<Rightarrow> b | None \<Rightarrow> True)"
| "flag_default env (DurationFlag _ value _ e) =
     VDuration (case first_parsed (parse_duration env) (env_values env e) of Some d \<Rightarrow> d | None \<Rightarrow> value)"

definition Apply :: "cli_env \<Rightarrow> Flag \<Rightarrow> FlagSet \<Rightarrow> FlagSet option" where
  "Apply env f fs =
     eachName (flag_names (getName f))
       (\<lambda>n. fs_Var n (case f of StringSliceFlag longName _ _ _ \<Rightarrow> longName | _ \<Rightarrow> n) (flag_default env f)) fs"

fun apply_flags :: "cli_env \<Rightarrow> Flag list \<Rightarrow> FlagSet \<Rightarrow> FlagSet option" where
  "apply_flags env [] fs = Some fs"
| "apply_flags env (f # flags) fs =
     (case Apply env f fs of None \<Rightarrow> None | Some fs' \<Rightarrow> apply_flags env flags fs')"

definition flagSet :: "cli_env \<Rightarrow> Flag list \<Rightarrow> FlagSet option" where
  "flagSet env flags = apply_flags env flags new_FlagSet"

subsection \<open>Setting and parsing\<close>

fun value_String :: "cli_env \<Rightarrow> flag_value \<Rightarrow> string" where
  "value_String env (VString s) = s"
| "value_String env (VSlice l) = ''['' @ join_with (CHR '' '') l @ '']''"
| "value_String env (VBool b) = (if b then ''true'' else ''false'')"
| "value_String env (VDuration d) = duration_string env d"

fun value_Set :: "cli_env \<Rightarrow> flag_value \<Rightarrow> string \<Rightarrow> flag_value option" where
  "value_Set env (VString _) s = Some (VString s)"
| "value_Set env (VSlice l) s = Some (VSlice (l @ [s]))"
| "value_Set env (VBool _) s = map_option VBool (parse_bool s)"
| "value_Set env (VDuration _) s = map_option VDuration (parse_duration env s)"

text \<open>Setting a flag writes its cell and marks the name as set; \<open>None\<close> is an error.\<close>

definition fs_Set :: "cli_env \<Rightarrow> string \<Rightarrow> string \<Rightarrow> FlagSet \<Rightarrow> FlagSet option" where
  "fs_Set env name value fs =
     (case fs_formal fs name of
        None \<Rightarrow> None
      | Some c \<Rightarrow>
          (case fs_cell fs c of
             None \<Rightarrow> None
           | Some v \<Rightarrow>
               (case value_Set env v value of
                  None \<Rightarrow> None
                | Some v' \<Rightarrow> Some (fs\<lparr>fs_cell := (fs_cell fs)(c \<mapsto> v'),
                                    fs_actual := insert name (fs_actual fs)\<rparr>))))"

datatype flag_error =
    BadSyntax string
  | HelpRequested
  | NotDefined string
  | NeedsArgument string
  | InvalidBool string string
  | InvalidValue string string
  | TwoForms string string

definition is_bool_value :: "flag_value \<Rightarrow> bool" where
  "is_bool_value v = (case v of VBool _ \<Rightarrow> True | _ \<Rightarrow> False)"

text \<open>The name and the value of \<open>name=value\<close>; an equals sign is not the first character.\<close>

definition split_flag :: "string \<Rightarrow> string \<times> string option" where
  "split_flag s =
     (case s of
        [] \<Rightarrow> ([], None)
      | c # cs \<Rightarrow>
          (case dropWhile (\<lambda>x. x \<noteq> CHR ''='') cs of
             [] \<Rightarrow> (s, None)
           | _ # value \<Rightarrow> (c # takeWhile (\<lambda>x. x \<noteq> CHR ''='') cs, Some value)))"

text \<open>
  \<open>parse_name\<close> is the part of \<open>parseOne\<close> once the argument is known to be a flag: it returns
  the set and the arguments left, or an error.
\<close>

definition parse_name ::
  "cli_env \<Rightarrow> FlagSet \<Rightarrow> string \<Rightarrow> string option \<Rightarrow> string list
     \<Rightarrow> (flag_error \<times> string list, FlagSet \<times> string list) result" where
  "parse_name env fs name value args =
     (case fs_Lookup fs name of
        None \<Rightarrow>
          Inl (if name = ''help'' \<or> name = ''h'' then HelpRequested else NotDefined name, args)
      | Some v \<Rightarrow>
          if is_bool_value v then
            (let s = (case value of Some x \<Rightarrow> x | None \<Rightarrow> ''true'') in
             case fs_Set env name s fs of
               None \<Rightarrow> Inl (InvalidBool s name, args)
             | Some fs' \<Rightarrow> Inr (fs', args))
          else
            (let (value', rest) = (case (value, args) of
                    (Some x, _) \<Rightarrow> (Some x, args)
                  | (None, x # xs) \<Rightarrow> (Some x, xs)
                  | (None, []) \<Rightarrow> (None, [])) in
             case value' of
               None \<Rightarrow> Inl (NeedsArgument name, rest)
             | Some x \<Rightarrow>
                 (case fs_Set env name x fs of
                    None \<Rightarrow> Inl (InvalidValue x name, rest)
                  | Some fs' \<Rightarrow> Inr (fs', rest))))"

datatype parse_step =
    StopParsing "string list"
  | ParseError flag_error "string list"
  | ParsedFlag FlagSet "string list"

definition parseOne :: "cli_env \<Rightarrow> FlagSet \<Rightarrow> string list \<Rightarrow> parse_step" where
  "parseOne env fs args =
     (case args of
        [] \<Rightarrow> StopParsing []
      | s # rest \<Rightarrow>
          if length s < 2 \<or> hd s \<noteq> CHR ''-'' then StopParsing args
          else if s = ''--'' then StopParsing rest
          else
            (let name = (if s ! 1 = CHR ''-'' then drop 2 s else drop 1 s) in
             if name = [] \<or> hd name = CHR ''-'' \<or> hd name = CHR ''='' then ParseError (BadSyntax s) args
             else (let (n, value) = split_flag name in
                   case parse_name env fs n value rest of
                     Inl (e, rest') \<Rightarrow> ParseError e rest'
                   | Inr (fs', rest') \<Rightarrow> ParsedFlag fs' rest')))"

lemma parseOne_shorter: "parseOne env fs args = ParsedFlag fs' rest \<Longrightarrow> length rest < length args"
  by (auto simp: parseOne_def parse_name_def Let_def
      split: list.splits if_splits option.splits sum.splits prod.splits)

text \<open>\<open>FlagSet.Parse\<close>: the set as it is left, and the error. Every flag takes an argument away.\<close>

function fs_Parse :: "cli_env \<Rightarrow> FlagSet \<Rightarrow> string list \<Rightarrow> FlagSet \<times> flag_error option" where
  "fs_Parse env fs args =
     (case parseOne env fs args of
        StopParsing rest \<Rightarrow> (fs\<lparr>fs_args := rest\<rparr>, None)
      | ParseError e rest \<Rightarrow> (fs\<lparr>fs_args := rest\<rparr>, Some e)
      | ParsedFlag fs' rest \<Rightarrow> fs_Parse env fs' rest)"
  by pat_completeness auto
termination
  by (relation "measure (\<lambda>(_, _, args). length args)") (auto dest: parseOne_shorter)

declare fs_Parse.simps [simp del]

subsection \<open>Names of one flag\<close>

text \<open>
  \<open>copyFlag\<close> sets the other names of a flag that was given under one of them; its error is
  not looked at. \<open>normalizeFlags\<close> works on the names visited at its start.
\<close>

definition copyFlag :: "cli_env \<Rightarrow> string \<Rightarrow> flag_value \<Rightarrow> FlagSet \<Rightarrow> FlagSet" where
  "copyFlag env name v fs =
     (case v of
        VSlice _ \<Rightarrow> fs
      | _ \<Rightarrow> (case fs_Set env name (value_String env v) fs of None \<Rightarrow> fs | Some fs' \<Rightarrow> fs'))"

fun visited_form ::
  "string set \<Rightarrow> string list \<Rightarrow> string option \<Rightarrow> (flag_error, string option) result" where
  "visited_form visited [] ff = Inr ff"
| "visited_form visited (n # ns) ff =
     (if n \<in> visited then
        (case ff of Some g \<Rightarrow> Inl (TwoForms n g) | None \<Rightarrow> visited_form visited ns (Some n))
      else visited_form visited ns ff)"

fun copy_to_others :: "cli_env \<Rightarrow> string set \<Rightarrow> string \<Rightarrow> string list \<Rightarrow> FlagSet \<Rightarrow> FlagSet" where
  "copy_to_others env visited g [] fs = fs"
| "copy_to_others env visited g (n # ns) fs =
     copy_to_others env visited g ns
       (if n \<in> visited then fs
        else (case fs_Lookup fs g of None \<Rightarrow> fs | Some v \<Rightarrow> copyFlag env n v fs))"

fun normalize_from ::
  "cli_env \<Rightarrow> string set \<Rightarrow> Flag list \<Rightarrow> FlagSet \<Rightarrow> FlagSet \<times> flag_error option" where
  "normalize_from env visited [] fs = (fs, None)"
| "normalize_from env visited (f # flags) fs =
     (let names = flag_names (getName f) in
      if length names = 1 then normalize_from env visited flags fs
      else (case visited_form visited names None of
              Inl e \<Rightarrow> (fs, Some e)
            | Inr None \<Rightarrow> normalize_from env visited flags fs
            | Inr (Some g) \<Rightarrow>
                normalize_from env visited flags (copy_to_others env visited g names fs)))"

definition normalizeFlags ::
  "cli_env \<Rightarrow> Flag list \<Rightarrow> FlagSet \<Rightarrow> FlagSet \<times> flag_error option" where
  "normalizeFlags env flags fs = normalize_from env (fs_actual fs) flags fs"

subsection \<open>Contexts\<close>

text \<open>
  A context holds its flag set, the flag sets of its parents (nearest first) and the cache of
  \<open>GlobalIsSet\<close>, which is filled by the first call and then kept.
\<close>

record Context =
  ctx_flagSet :: FlagSet
  ctx_parents :: "FlagSet list"
  ctx_globalSetFlags :: "string set option"

definition NewContext :: "FlagSet \<Rightarrow> FlagSet list \<Rightarrow> Context" where
  "NewContext fs parents = \<lparr>ctx_flagSet = fs, ctx_parents = parents, ctx_globalSetFlags = None\<rparr>"

definition ctx_Args :: "Context \<Rightarrow> string list" where
  "ctx_Args c = fs_args (ctx_flagSet c)"

definition args_First :: "string list \<Rightarrow> string" where
  "args_First a = (if length a > 0 then a ! 0 else [])"

definition args_Tail :: "string list \<Rightarrow> string list" where
  "args_Tail a = (if length a \<ge> 2 then drop 1 a else [])"

definition lookupString :: "cli_env \<Rightarrow> string \<Rightarrow> FlagSet \<Rightarrow> string" where
  "lookupString env name fs =
     (case fs_Lookup fs name of Some v \<Rightarrow> value_String env v | None \<Rightarrow> [])"

text \<open>The type assertion of \<open>lookupStringSlice\<close> panics (\<open>None\<close>) on any other flag type.\<close>

definition lookupStringSlice :: "string \<Rightarrow> FlagSet \<Rightarrow> string list option" where
  "lookupStringSlice name fs =
     (case fs_Lookup fs name of None \<Rightarrow> Some [] | Some (VSlice l) \<Rightarrow> Some l | Some _ \<Rightarrow> None)"

definition lookupDuration :: "cli_env \<Rightarrow> string \<Rightarrow> FlagSet \<Rightarrow> int" where
  "lookupDuration env name fs =
     (case fs_Lookup fs name of
        Some v \<Rightarrow> (case parse_duration env (value_String env v) of Some d \<Rightarrow> d | None \<Rightarrow> 0)
      | None \<Rightarrow> 0)"

definition lookupBool :: "cli_env \<Rightarrow> string \<Rightarrow> FlagSet \<Rightarrow> bool" where
  "lookupBool env name fs =
     (case fs_Lookup fs name of
        Some v \<Rightarrow> (case parse_bool (value_String env v) of Some b \<Rightarrow> b | None \<Rightarrow> False)
      | None \<Rightarrow> False)"

text \<open>The sets a global lookup tries: the parents of a context, or itself when it has none.\<close>

definition global_sets :: "Context \<Rightarrow> FlagSet list" where
  "global_sets c = (if ctx_parents c = [] then [ctx_flagSet c] else ctx_parents c)"

definition lookupGlobalFlagSet :: "string \<Rightarrow> Context \<Rightarrow> FlagSet option" where
  "lookupGlobalFlagSet name c = List.find (\<lambda>fs. fs_formal fs name \<noteq> None) (global_sets c)"

definition GlobalString :: "cli_env \<Rightarrow> Context \<Rightarrow> string \<Rightarrow> string" where
  "GlobalString env c name =
     (case lookupGlobalFlagSet name c of Some fs \<Rightarrow> lookupString env name fs | None \<Rightarrow> [])"

definition GlobalBool :: "cli_env \<Rightarrow> Context \<Rightarrow> string \<Rightarrow> bool" where
  "GlobalBool env c name =
     (case lookupGlobalFlagSet name c of Some fs \<Rightarrow> lookupBool env name fs | None \<Rightarrow> False)"

definition ctx_IsSet :: "Context \<Rightarrow> string \<Rightarrow> bool" where
  "ctx_IsSet c name \<longleftrightarrow> name \<in> fs_actual (ctx_flagSet c)"

fun collect_global :: "string \<Rightarrow> FlagSet list \<Rightarrow> string set \<Rightarrow> string set" where
  "collect_global name [] seen = seen"
| "collect_global name (fs # sets) seen =
     (if name \<in> seen then seen else collect_global name sets (seen \<union> fs_actual fs))"

definition GlobalIsSet :: "Context \<Rightarrow> string \<Rightarrow> bool \<times> Context" where
  "GlobalIsSet c name =
     (let seen = (case ctx_globalSetFlags c of
                    Some seen \<Rightarrow> seen
                  | None \<Rightarrow> collect_global name (global_sets c) {})
      in (name \<in> seen, c\<lparr>ctx_globalSetFlags := Some seen\<rparr>))"

definition checkHelp :: "cli_env \<Rightarrow> Context \<Rightarrow> bool" where
  "checkHelp env c \<longleftrightarrow> GlobalBool env c ''h'' \<or> GlobalBool env c ''help''
     \<or> lookupBool env ''h'' (ctx_flagSet c) \<or> lookupBool env ''help'' (ctx_flagSet c)"

definition checkCommandHelp :: "cli_env \<Rightarrow> Context \<Rightarrow> bool" where
  "checkCommandHelp env c \<longleftrightarrow>
     lookupBool env ''h'' (ctx_flagSet c) \<or> lookupBool env ''help'' (ctx_flagSet c)"

definition checkVersion :: "cli_env \<Rightarrow> Context \<Rightarrow> bool" where
  "checkVersion env c \<longleftrightarrow> GlobalBool env c ''version'' \<or> GlobalBool env c ''v''
     \<or> lookupBool env ''version'' (ctx_flagSet c) \<or> lookupBool env ''v'' (ctx_flagSet c)"

subsection \<open>Commands and apps\<close>

text \<open>
  The hooks are the application's own: the library only decides when they are called. An
  outcome says what a run ends in; \<open>Invoke\<close> calls the \<open>Before\<close> hook when there is one and then,
  unless it failed, the action, both with the context.
\<close>

datatype 'a cmd_action = HelpCommandAction | UserAction 'a

record ('b, 'a) Command =
  cmd_Name :: string
  cmd_ShortName :: string
  cmd_Aliases :: "string list"
  cmd_Before :: "'b option"
  cmd_Action :: "'a cmd_action"
  cmd_Flags :: "Flag list"
  cmd_SkipFlagParsing :: bool
  cmd_HideHelp :: bool

record ('b, 'a) App =
  app_Commands :: "('b, 'a) Command list"
  app_Flags :: "Flag list"
  app_HideHelp :: bool
  app_HideVersion :: bool

datatype ('b, 'a) outcome =
    FlagRedefined
  | IncorrectUsage flag_error
  | AppHelp
  | VersionPrinted
  | CommandHelp string
  | Invoke "'b option" 'a Context

definition HelpFlag :: Flag where "HelpFlag = BoolFlag ''help, h'' ''show help'' []"
definition VersionFlag :: Flag where "VersionFlag = BoolFlag ''version, v'' ''print the version'' []"

definition helpCommand :: "('b, 'a) Command" where
  "helpCommand =
     \<lparr>cmd_Name = ''help'', cmd_ShortName = [], cmd_Aliases = [''h''], cmd_Before = None,
      cmd_Action = HelpCommandAction, cmd_Flags = [], cmd_SkipFlagParsing = False,
      cmd_HideHelp = False\<rparr>"

definition cmd_Names :: "('b, 'a) Command \<Rightarrow> string list" where
  "cmd_Names c =
     cmd_Name c # (if cmd_ShortName c \<noteq> [] then [cmd_ShortName c] else []) @ cmd_Aliases c"

definition HasName :: "('b, 'a) Command \<Rightarrow> string \<Rightarrow> bool" where
  "HasName c name \<longleftrightarrow> name \<in> set (cmd_Names c)"

definition app_Command :: "('b, 'a) App \<Rightarrow> string \<Rightarrow> ('b, 'a) Command option" where
  "app_Command app name = List.find (\<lambda>c. HasName c name) (app_Commands app)"

definition appendFlag :: "Flag \<Rightarrow> Flag list \<Rightarrow> Flag list" where
  "appendFlag f flags = (if f \<in> set flags then flags else flags @ [f])"

definition run_action :: "'b option \<Rightarrow> 'a cmd_action \<Rightarrow> Context \<Rightarrow> ('b, 'a) outcome" where
  "run_action before action c =
     (case action of
        UserAction a \<Rightarrow> Invoke before a c
      | HelpCommandAction \<Rightarrow>
          if ctx_Args c \<noteq> [] then CommandHelp (args_First (ctx_Args c)) else AppHelp)"

text \<open>
  \<open>Command.Run\<close> of a command without \<open>Before\<close> moves the flags before the other arguments:
  it looks for the first argument that starts with a dash, up to a terminator \<open>--\<close>.
\<close>

fun scan_args :: "nat \<Rightarrow> nat option \<Rightarrow> string list \<Rightarrow> nat option \<times> nat option" where
  "scan_args index first [] = (first, None)"
| "scan_args index first (arg # args) =
     (if arg = ''--'' then (first, Some index)
      else if strip_prefix ''-'' arg \<noteq> None \<and> first = None then scan_args (index + 1) (Some index) args
      else scan_args (index + 1) first args)"

definition slice :: "'a list \<Rightarrow> nat \<Rightarrow> nat \<Rightarrow> 'a list" where
  "slice xs i j = drop i (take j xs)"

definition reorder_args :: "bool \<Rightarrow> string list \<Rightarrow> string list" where
  "reorder_args skip args =
     (case scan_args 0 None args of
        (Some firstFlag, terminator) \<Rightarrow>
          if skip then args_Tail args
          else (case terminator of
                  Some t \<Rightarrow> slice args firstFlag t @ slice args 1 firstFlag @ drop t args
                | None \<Rightarrow> drop firstFlag args @ slice args 1 firstFlag)
      | (None, _) \<Rightarrow> args_Tail args)"

definition RunAsSubcommand ::
  "cli_env \<Rightarrow> Flag list \<Rightarrow> 'b option \<Rightarrow> 'a cmd_action \<Rightarrow> Context \<Rightarrow> ('b, 'a) outcome" where
  "RunAsSubcommand env flags before action ctx =
     (case flagSet env flags of
        None \<Rightarrow> FlagRedefined
      | Some set0 \<Rightarrow>
          (let (set1, err) = fs_Parse env set0 (args_Tail (ctx_Args ctx));
               (set2, nerr) = normalizeFlags env flags set1;
               context = NewContext set2 (ctx_flagSet ctx # ctx_parents ctx)
           in case nerr of
                Some e \<Rightarrow> IncorrectUsage e
              | None \<Rightarrow>
                  (case err of
                     Some e \<Rightarrow> IncorrectUsage e
                   | None \<Rightarrow>
                       if checkCommandHelp env ctx then CommandHelp (args_First (ctx_Args context))
                       else run_action before action context)))"

definition Command_Run ::
  "cli_env \<Rightarrow> ('b, 'a) Command \<Rightarrow> Context \<Rightarrow> ('b, 'a) outcome" where
  "Command_Run env c ctx =
     (if cmd_Before c \<noteq> None then
        RunAsSubcommand env (cmd_Flags c) (cmd_Before c) (cmd_Action c) ctx
      else
        (let flags = cmd_Flags c @ (if cmd_HideHelp c then [] else [HelpFlag]) in
         case flagSet env flags of
           None \<Rightarrow> FlagRedefined
         | Some set0 \<Rightarrow>
             (let (set1, err) =
                    fs_Parse env set0 (reorder_args (cmd_SkipFlagParsing c) (ctx_Args ctx))
              in case err of
                   Some e \<Rightarrow> IncorrectUsage e
                 | None \<Rightarrow>
                     (let (set2, nerr) = normalizeFlags env flags set1 in
                      case nerr of
                        Some e \<Rightarrow> IncorrectUsage e
                      | None \<Rightarrow>
                          (let context = NewContext set2 (ctx_flagSet ctx # ctx_parents ctx) in
                           if checkCommandHelp env context then CommandHelp (cmd_Name c)
                           else run_action None (cmd_Action c) context)))))"

text \<open>\<open>App.Run\<close>; the default action of the app is to show its help.\<close>

definition App_Run :: "cli_env \<Rightarrow> ('b, 'a) App \<Rightarrow> string list \<Rightarrow> ('b, 'a) outcome" where
  "App_Run env a arguments =
     (let add_help = (app_Command a (cmd_Name (helpCommand :: ('b, 'a) Command)) = None \<and> \<not> app_HideHelp a);
          a1 = (if add_help then
                  a\<lparr>app_Commands := app_Commands a @ [helpCommand],
                    app_Flags := appendFlag HelpFlag (app_Flags a)\<rparr>
                else a);
          flags = (if app_HideVersion a then app_Flags a1 else appendFlag VersionFlag (app_Flags a1))
      in case flagSet env flags of
           None \<Rightarrow> FlagRedefined
         | Some set0 \<Rightarrow>
             (let (set1, err) = fs_Parse env set0 (drop 1 arguments);
                  (set2, nerr) = normalizeFlags env flags set1;
                  context = NewContext set2 []
              in case nerr of
                   Some e \<Rightarrow> IncorrectUsage e
                 | None \<Rightarrow>
                     (case err of
                        Some e \<Rightarrow> IncorrectUsage e
                      | None \<Rightarrow>
                          if checkHelp env context then AppHelp
                          else if checkVersion env context then VersionPrinted
                          else (case ctx_Args context of
                                  [] \<Rightarrow> AppHelp
                                | name # _ \<Rightarrow>
                                    (case app_Command a1 name of
                                       Some c \<Rightarrow> Command_Run env c context
                                     | None \<Rightarrow> AppHelp)))))"

subsection \<open>Parsing what was written as options\<close>

definition positional :: "string \<Rightarrow> bool" where
  "positional s \<longleftrightarrow> length s < 2 \<or> hd s \<noteq> CHR ''-''"

lemma fs_Parse_positional:
  "args = [] \<or> positional (hd args) \<Longrightarrow> fs_Parse env fs args = (fs\<lparr>fs_args := args\<rparr>, None)"
  by (subst fs_Parse.simps) (auto simp: parseOne_def positional_def split: list.splits)

definition plain_name :: "string \<Rightarrow> bool" where
  "plain_name n \<longleftrightarrow> n \<noteq> [] \<and> hd n \<noteq> CHR ''-'' \<and> CHR ''='' \<notin> set n"

definition render_options :: "(string \<times> string) list \<Rightarrow> string list" where
  "render_options opts = concat (map (\<lambda>(n, v). [''--'' @ n, v]) opts)"

lemma render_options_simps [simp]:
  "render_options [] = []"
  "render_options ((n, v) # opts) = (''--'' @ n) # v # render_options opts"
  by (simp_all add: render_options_def)

fun set_all :: "cli_env \<Rightarrow> (string \<times> string) list \<Rightarrow> FlagSet \<Rightarrow> FlagSet option" where
  "set_all env [] fs = Some fs"
| "set_all env ((n, v) # opts) fs =
     (case fs_Set env n v fs of None \<Rightarrow> None | Some fs' \<Rightarrow> set_all env opts fs')"

definition takes_value :: "FlagSet \<Rightarrow> string \<Rightarrow> bool" where
  "takes_value fs n = (case fs_Lookup fs n of None \<Rightarrow> False | Some v \<Rightarrow> \<not> is_bool_value v)"

lemma is_bool_value_Set: "value_Set env v s = Some v' \<Longrightarrow> is_bool_value v' = is_bool_value v"
  by (cases v) (auto simp: is_bool_value_def)

lemma takes_value_Set:
  "fs_Set env n v fs = Some fs' \<Longrightarrow> takes_value fs' m = takes_value fs m"
  by (auto simp: fs_Set_def takes_value_def fs_Lookup_def split: option.splits if_splits
      dest: is_bool_value_Set)

lemma split_flag_plain: "CHR ''='' \<notin> set n \<Longrightarrow> split_flag n = (n, None)"
proof (cases n)
  case (Cons c cs)
  assume "CHR ''='' \<notin> set n"
  then have "\<forall>x \<in> set cs. x \<noteq> CHR ''=''" using Cons by auto
  then have "dropWhile (\<lambda>x. x \<noteq> CHR ''='') cs = []"
    unfolding dropWhile_eq_Nil_conv .
  with Cons show ?thesis by (simp only: split_flag_def list.case)
qed (simp add: split_flag_def)

lemma parseOne_option:
  assumes "plain_name n" "takes_value fs n" "fs_Set env n v fs = Some fs'"
  shows "parseOne env fs ((''--'' @ n) # v # rest) = ParsedFlag fs' rest"
proof -
  have "hd n \<noteq> CHR ''=''" "n \<noteq> []" using assms(1) by (metis plain_name_def hd_in_set)+
  with assms show ?thesis
    by (auto simp: parseOne_def parse_name_def plain_name_def split_flag_plain takes_value_def
        split: option.splits)
qed

lemma fs_Parse_options:
  "\<forall>(n, _) \<in> set opts. plain_name n \<and> takes_value fs n \<Longrightarrow> set_all env opts fs = Some fs' \<Longrightarrow>
     fs_Parse env fs (render_options opts @ rest) = fs_Parse env fs' rest"
proof (induction env opts fs rule: set_all.induct)
  case (2 env n v opts fs)
  then obtain fs1 where "fs_Set env n v fs = Some fs1" "set_all env opts fs1 = Some fs'"
    by (auto split: option.splits)
  moreover from this(1) 2 have "fs_Parse env fs1 (render_options opts @ rest) = fs_Parse env fs' rest"
    using \<open>set_all env opts fs1 = Some fs'\<close> by (intro "2.IH") (auto simp: takes_value_Set)
  ultimately show ?case
    using "2.prems"(1)
    by (simp add: fs_Parse.simps [of env fs] parseOne_option [simplified])
qed simp


lemma env_values_Nil [simp]: "env_values env [] = []"
  by (simp add: env_values_def)

lemma visited_form_none: "set names \<inter> visited = {} \<Longrightarrow> visited_form visited names ff = Inr ff"
  by (induction visited names ff rule: visited_form.induct) auto

lemma normalizeFlags_untouched:
  "\<forall>f \<in> set flags. length (flag_names (getName f)) = 1 \<or> set (flag_names (getName f)) \<inter> fs_actual fs = {}
     \<Longrightarrow> normalizeFlags env flags fs = (fs, None)"
  unfolding normalizeFlags_def
  by (induction flags) (auto simp: Let_def visited_form_none)

lemma set_all_actual: "set_all env opts fs = Some fs' \<Longrightarrow> fs_actual fs' = fs_actual fs \<union> fst ` set opts"
  by (induction env opts fs rule: set_all.induct)
     (auto simp: fs_Set_def split: option.splits)

lemma scan_args_dash:
  "\<forall>a \<in> set pos. strip_prefix ''-'' a = None \<Longrightarrow> ''--'' \<notin> set opts \<Longrightarrow> strip_prefix ''-'' o1 \<noteq> None \<Longrightarrow>
     o1 \<noteq> ''--'' \<Longrightarrow> scan_args i None (pos @ o1 # opts) = (Some (i + length pos), None)"
proof (induction pos arbitrary: i)
  case Nil
  have "''--'' \<notin> set xs \<Longrightarrow> scan_args k (Some j) xs = (Some j, None)" for k j xs
    by (induction xs arbitrary: k) auto
  with Nil show ?case by simp
next
  case (Cons a pos)
  then have "a \<noteq> ''--''" "strip_prefix ''-'' a = None" by auto
  with Cons show ?case by simp
qed

lemma reorder_args_moves:
  assumes "\<forall>a \<in> set (name # pos). strip_prefix ''-'' a = None" "''--'' \<notin> set opts"
    "strip_prefix ''-'' o1 \<noteq> None" "o1 \<noteq> ''--''"
  shows "reorder_args False (name # pos @ o1 # opts) = (o1 # opts) @ pos"
  using scan_args_dash [of "name # pos" opts o1 0] assms
  by (simp add: reorder_args_def slice_def)

lemma scan_args_plain:
  "\<forall>a \<in> set pos. strip_prefix ''-'' a = None \<Longrightarrow> scan_args i None pos = (None, None)"
  by (induction pos arbitrary: i) auto

lemma set_all_strings:
  "\<forall>(n, _) \<in> set opts. fs_formal fs n = Some n \<and> (\<exists>s. fs_cell fs n = Some (VString s)) \<Longrightarrow>
   set_all env opts fs =
     Some (fs\<lparr>fs_cell := fs_cell fs ++ map_of (rev (map (\<lambda>(n, v). (n, VString v)) opts)),
              fs_actual := fs_actual fs \<union> fst ` set opts\<rparr>)"
proof (induction opts arbitrary: fs)
  case (Cons o1 opts)
  obtain n v where o1: "o1 = (n, v)" by (cases o1)
  let ?fs = "fs\<lparr>fs_cell := (fs_cell fs)(n \<mapsto> VString v), fs_actual := insert n (fs_actual fs)\<rparr>"
  have "fs_Set env n v fs = Some ?fs"
    using Cons.prems o1 by (auto simp: fs_Set_def)
  moreover have "set_all env opts ?fs = Some (?fs\<lparr>
      fs_cell := fs_cell ?fs ++ map_of (rev (map (\<lambda>(n, v). (n, VString v)) opts)),
      fs_actual := fs_actual ?fs \<union> fst ` set opts\<rparr>)"
    using Cons.prems o1 by (intro Cons.IH) auto
  ultimately show ?case using o1 by simp
qed simp

lemma set_all_tags:
  "fs_formal fs n = Some n \<Longrightarrow> fs_cell fs n = Some (VSlice l) \<Longrightarrow>
   set_all env (map (Pair n) ts) fs =
     Some (fs\<lparr>fs_cell := (fs_cell fs)(n \<mapsto> VSlice (l @ ts)),
              fs_actual := fs_actual fs \<union> (if ts = [] then {} else {n})\<rparr>)"
proof (induction ts arbitrary: fs l)
  case Nil
  then show ?case by (cases fs) (simp add: fun_upd_idem)
next
  case (Cons t ts)
  then show ?case
    by (simp add: fs_Set_def fun_upd_def [symmetric] Cons.IH [where l = "l @ [t]"] insert_absorb2)
qed

lemma set_all_append:
  "set_all env (xs @ ys) fs = (case set_all env xs fs of None \<Rightarrow> None | Some fs' \<Rightarrow> set_all env ys fs')"
  by (induction env xs fs rule: set_all.induct) (auto split: option.splits)

lemma NewContext_simps [simp]:
  "ctx_flagSet (NewContext fs ps) = fs" "ctx_parents (NewContext fs ps) = ps"
  "ctx_globalSetFlags (NewContext fs ps) = None"
  by (simp_all add: NewContext_def)

lemma GlobalBool_top: "GlobalBool env (NewContext fs []) n = lookupBool env n fs"
  by (simp add: GlobalBool_def lookupGlobalFlagSet_def global_sets_def lookupBool_def
      fs_Lookup_def)

end
