(* ===== verification/Base64.thy ===== *)
theory Base64
  imports GoStd
begin

section \<open>encoding/base64, standard alphabet with padding\<close>

text \<open>
  \<open>base64.StdEncoding.DecodeString\<close>, through which keys reach the program (carriage
  returns and line feeds are dropped, then four characters are read at a time), and the
  matching encoder. The decoder's error value carries an offset the program only prints; here
  an error is \<open>None\<close>.
\<close>

definition b64_char :: "nat \<Rightarrow> char" where
  "b64_char v =
     (if v < 26 then char_of (65 + v) else if v < 52 then char_of (71 + v)
      else if v < 62 then char_of (v - 4) else if v = 62 then CHR ''+'' else CHR ''/'')"

definition b64_val :: "char \<Rightarrow> nat option" where
  "b64_val c =
     (let n = of_char c :: nat in
      if 65 \<le> n \<and> n \<le> 90 then Some (n - 65)
      else if 97 \<le> n \<and> n \<le> 122 then Some (n - 71)
      else if 48 \<le> n \<and> n \<le> 57 then Some (n + 4)
      else if n = 43 then Some 62
      else if n = 47 then Some 63
      else None)"

text \<open>One quantum with no padding, one with one and one with two padding characters.\<close>

definition b64_three :: "char \<Rightarrow> char \<Rightarrow> char \<Rightarrow> char \<Rightarrow> bytes option" where
  "b64_three a b c d =
     (case (b64_val a, b64_val b, b64_val c, b64_val d) of
        (Some u, Some v, Some w, Some x) \<Rightarrow>
          Some [word_of_nat (u * 4 + v div 16), word_of_nat (v mod 16 * 16 + w div 4),
                word_of_nat (w mod 4 * 64 + x)]
      | _ \<Rightarrow> None)"

definition b64_two :: "char \<Rightarrow> char \<Rightarrow> char \<Rightarrow> bytes option" where
  "b64_two a b c =
     (case (b64_val a, b64_val b, b64_val c) of
        (Some u, Some v, Some w) \<Rightarrow>
          Some [word_of_nat (u * 4 + v div 16), word_of_nat (v mod 16 * 16 + w div 4)]
      | _ \<Rightarrow> None)"

definition b64_one :: "char \<Rightarrow> char \<Rightarrow> bytes option" where
  "b64_one a b =
     (case (b64_val a, b64_val b) of
        (Some u, Some v) \<Rightarrow> Some [word_of_nat (u * 4 + v div 16)]
      | _ \<Rightarrow> None)"

fun b64_quanta :: "string \<Rightarrow> bytes option" where
  "b64_quanta [] = Some []"
| "b64_quanta (a # b # c # d # r) =
     (if d = CHR ''='' \<and> c = CHR ''='' then (if r = [] then b64_one a b else None)
      else if d = CHR ''='' then (if r = [] then b64_two a b c else None)
      else (case b64_three a b c d of
              None \<Rightarrow> None
            | Some q \<Rightarrow> (case b64_quanta r of None \<Rightarrow> None | Some qs \<Rightarrow> Some (q @ qs))))"
| "b64_quanta _ = None"

definition newline_char :: "char \<Rightarrow> bool" where
  "newline_char c \<longleftrightarrow> of_char c = (10::nat) \<or> of_char c = (13::nat)"

definition b64_decode :: "string \<Rightarrow> bytes option" where
  "b64_decode s = b64_quanta (filter (\<lambda>c. \<not> newline_char c) s)"

fun b64_encode :: "bytes \<Rightarrow> string" where
  "b64_encode [] = []"
| "b64_encode [x] =
     [b64_char (unat x div 4), b64_char (unat x mod 4 * 16), CHR ''='', CHR ''='']"
| "b64_encode [x, y] =
     [b64_char (unat x div 4), b64_char (unat x mod 4 * 16 + unat y div 16),
      b64_char (unat y mod 16 * 4), CHR ''='']"
| "b64_encode (x # y # z # r) =
     [b64_char (unat x div 4), b64_char (unat x mod 4 * 16 + unat y div 16),
      b64_char (unat y mod 16 * 4 + unat z div 64), b64_char (unat z mod 64)] @ b64_encode r"

lemma b64_val_char [simp]: "v < 64 \<Longrightarrow> b64_val (b64_char v) = Some v"
  by (auto simp: b64_val_def b64_char_def Let_def)

lemma b64_val_pad [simp]: "b64_val (CHR ''='') = None"
  by (simp add: b64_val_def)

lemma b64_char_not_pad [simp]: "v < 64 \<Longrightarrow> b64_char v \<noteq> CHR ''=''"
  using b64_val_char [of v] by fastforce

lemma b64_char_not_newline [simp]: "v < 64 \<Longrightarrow> \<not> newline_char (b64_char v)"
  by (auto simp: newline_char_def b64_char_def)

lemma pad_not_newline [simp]: "\<not> newline_char (CHR ''='')"
  by (simp add: newline_char_def)

lemma unat_byte_less: "unat (x :: byte) < 256"
  using unsigned_less [of x] by simp

lemma b64_digit_bounds [simp]:
  "unat (x :: byte) div 4 < 64" "unat x mod 4 * 16 < 64" "unat x mod 4 * 16 + unat (y :: byte) div 16 < 64"
  "unat y mod 16 * 4 < 64" "unat y mod 16 * 4 + unat (z :: byte) div 64 < 64" "unat z mod 64 < 64"
  using unat_byte_less [of x] unat_byte_less [of y] unat_byte_less [of z] by auto

lemma b64_encode_no_newline: "filter (\<lambda>c. \<not> newline_char c) (b64_encode bs) = b64_encode bs"
  by (induction bs rule: b64_encode.induct) (simp_all only: b64_encode.simps filter.simps
      append.simps b64_char_not_newline pad_not_newline b64_digit_bounds if_True simp_thms)

lemma b64_quanta_encode: "b64_quanta (b64_encode bs) = Some bs"
proof (induction bs rule: b64_encode.induct)
  case (2 x)
  have "unat x div 4 * 4 + unat x mod 4 * 16 div 16 = unat x" by simp
  then show ?case
    by (simp add: b64_one_def)
next
  case (3 x y)
  have "unat x div 4 * 4 + (unat x mod 4 * 16 + unat y div 16) div 16 = unat x"
    "(unat x mod 4 * 16 + unat y div 16) mod 16 * 16 + unat y mod 16 * 4 div 4 = unat y"
    using unat_byte_less [of x] unat_byte_less [of y] by auto
  then show ?case
    by (simp add: b64_two_def)
next
  case (4 x y z r)
  have "unat x div 4 * 4 + (unat x mod 4 * 16 + unat y div 16) div 16 = unat x"
    "(unat x mod 4 * 16 + unat y div 16) mod 16 * 16 + (unat y mod 16 * 4 + unat z div 64) div 4 = unat y"
    "(unat y mod 16 * 4 + unat z div 64) mod 4 * 64 + unat z mod 64 = unat z"
    using unat_byte_less [of x] unat_byte_less [of y] unat_byte_less [of z] by auto
  then show ?case
    using 4 by (simp add: b64_three_def)
qed simp

lemma b64_decode_encode: "b64_decode (b64_encode bs) = Some bs"
  by (simp add: b64_decode_def b64_encode_no_newline b64_quanta_encode)

end
