(* ===== verification/Util.thy ===== *)
theory Util
  imports Base64
begin

section \<open>Argument parsing and member filtering (util.go)\<close>

text \<open>
  \<open>parseTagArgs\<close>, \<open>parseHostArgs\<close>, \<open>keyToBytes\<close>, \<open>FilterMembers\<close> and
  \<open>Contains\<close>. Go returns a map together with an error, so \<open>parseTagArgs\<close> returns the
  map built so far and an optional error message. \<open>FilterMembers\<close> sorts the caller's
  slice in place, so its model returns the members and the slice as it is left.
\<close>

text \<open>A member as the RPC client reports it (client/const.go).\<close>

record client_member =
  cm_name :: string
  cm_addr :: bytes
  cm_port :: "16 word"
  cm_tags :: "string \<rightharpoonup> string"
  cm_status :: string
  cm_protocol :: "byte \<times> byte \<times> byte" \<comment> \<open>minimum, maximum, current\<close>
  cm_delegate :: "byte \<times> byte \<times> byte"

subsection \<open>parseTagArgs and parseHostArgs\<close>

definition tag_arg_error :: "string \<Rightarrow> string" where
  "tag_arg_error t =
     ''tag must take parameters of the format tag=value! '' @ t @ '' is fucked up''"

fun parse_tags_from ::
  "(string \<rightharpoonup> string) \<Rightarrow> string list \<Rightarrow> (string \<rightharpoonup> string) \<times> string option" where
  "parse_tags_from m [] = (m, None)"
| "parse_tags_from m (t # ts) =
     (case split_on (CHR ''='') t of
        [k, v] \<Rightarrow> parse_tags_from (m(k \<mapsto> v)) ts
      | _ \<Rightarrow> (m, Some (tag_arg_error t)))"

definition parseTagArgs :: "string list \<Rightarrow> (string \<rightharpoonup> string) \<times> string option" where
  "parseTagArgs ts = parse_tags_from Map.empty ts"

definition parseHostArgs :: "string \<Rightarrow> string list" where
  "parseHostArgs s = (if s \<noteq> [] then split_on (CHR '','') s else [])"

definition keyToBytes :: "string \<Rightarrow> bytes option" where
  "keyToBytes key = b64_decode key"

text \<open>A well-formed tag argument is \<open>key=value\<close> with no further equals sign.\<close>

definition tag_pair :: "string \<Rightarrow> (string \<times> string) option" where
  "tag_pair t = (case split_on (CHR ''='') t of [k, v] \<Rightarrow> Some (k, v) | _ \<Rightarrow> None)"

lemma tag_pair_Some_iff:
  "tag_pair t = Some (k, v) \<longleftrightarrow>
     t = k @ CHR ''='' # v \<and> CHR ''='' \<notin> set k \<and> CHR ''='' \<notin> set v"
  unfolding split_on_pair_iff [symmetric] by (auto simp: tag_pair_def split: list.splits)

lemma tag_pair_None_iff: "tag_pair t = None \<longleftrightarrow> count_list t (CHR ''='') \<noteq> 1"
  using length_split_on [of "CHR ''=''" t]
  by (auto simp: tag_pair_def split: list.splits)

lemma parse_tags_from_Cons:
  "parse_tags_from m (t # ts) =
     (case tag_pair t of
        Some (k, v) \<Rightarrow> parse_tags_from (m(k \<mapsto> v)) ts
      | None \<Rightarrow> (m, Some (tag_arg_error t)))"
  by (auto simp: tag_pair_def split: list.splits)

declare parse_tags_from.simps(2) [simp del] parse_tags_from_Cons [simp]

lemma parse_tags_from_ok:
  "map tag_pair ts = map Some ps \<Longrightarrow> parse_tags_from m ts = (m ++ map_of (rev ps), None)"
proof (induction ts arbitrary: m ps)
  case Nil
  then show ?case by simp
next
  case (Cons t ts)
  then obtain k v qs where "ps = (k, v) # qs" "tag_pair t = Some (k, v)"
    "map tag_pair ts = map Some qs"
    by (cases ps) auto
  then have "parse_tags_from m (t # ts) = (m(k \<mapsto> v) ++ map_of (rev qs), None)"
    using Cons.IH by (simp add: fun_upd_def)
  also have "m(k \<mapsto> v) ++ map_of (rev qs) = m ++ map_of (rev ps)"
    using \<open>ps = (k, v) # qs\<close> by simp
  finally show ?case .
qed

lemma parse_tags_from_error:
  "snd (parse_tags_from m ts) = None \<longleftrightarrow> (\<forall>t \<in> set ts. tag_pair t \<noteq> None)"
  by (induction ts arbitrary: m) (auto split: option.splits)

subsection \<open>Contains: sort.Search over a sorted slice\<close>

text \<open>
  \<open>sort.Search(n, f)\<close> keeps a window \<open>[i, j)\<close> and halves it until it is empty; \<open>Contains\<close>
  searches the first index whose element is at least the value.
\<close>

function search_between :: "(nat \<Rightarrow> bool) \<Rightarrow> nat \<Rightarrow> nat \<Rightarrow> nat" where
  "search_between f i j =
     (if i < j then
        (let h = i + (j - i) div 2
         in if \<not> f h then search_between f (h + 1) j else search_between f i h)
      else i)"
  by pat_completeness auto
termination
  by (relation "measure (\<lambda>(f, i, j). j - i)") (auto simp: Let_def)

declare search_between.simps [simp del]

definition go_search :: "nat \<Rightarrow> (nat \<Rightarrow> bool) \<Rightarrow> nat" where
  "go_search n f = search_between f 0 n"

definition Contains :: "string list \<Rightarrow> string \<Rightarrow> bool" where
  "Contains l val =
     (let i = go_search (length l) (\<lambda>i. val \<le> l ! i)
      in i < length l \<and> l ! i = val)"

text \<open>
  With a predicate that, once true, stays true, the search returns the least index at which
  it holds.
\<close>

lemma search_between_least:
  assumes "\<And>a b. a \<le> b \<Longrightarrow> b < n \<Longrightarrow> f a \<Longrightarrow> f b"
    and "i \<le> j" "j \<le> n" "\<forall>k<i. \<not> f k" "\<forall>k. j \<le> k \<and> k < n \<longrightarrow> f k"
  shows "search_between f i j \<le> n \<and> (\<forall>k < search_between f i j. \<not> f k)
         \<and> (\<forall>k. search_between f i j \<le> k \<and> k < n \<longrightarrow> f k)"
  using assms
proof (induction f i j rule: search_between.induct)
  case (1 f i j)
  let ?h = "i + (j - i) div 2"
  show ?case
  proof (cases "i < j")
    case False
    then have "search_between f i j = i" by (simp add: search_between.simps [of f i j])
    with False "1.prems" show ?thesis by auto
  next
    case ij: True
    then have h: "i \<le> ?h" "?h < j" "?h < n" using "1.prems"(3) by auto
    show ?thesis
    proof (cases "f ?h")
      case True
      then have "\<forall>k. ?h \<le> k \<and> k < n \<longrightarrow> f k" using "1.prems"(1) by blast
      with True ij h "1.prems" have "search_between f i ?h \<le> n
          \<and> (\<forall>k < search_between f i ?h. \<not> f k)
          \<and> (\<forall>k. search_between f i ?h \<le> k \<and> k < n \<longrightarrow> f k)"
        by (intro "1.IH"(2)) auto
      moreover have "search_between f i j = search_between f i ?h"
        using ij True by (simp add: search_between.simps [of f i j])
      ultimately show ?thesis by simp
    next
      case False
      then have "\<forall>k < ?h + 1. \<not> f k" using "1.prems"(1) h(3)
        by (metis Suc_eq_plus1 less_Suc_eq_le)
      with False ij h "1.prems" have "search_between f (?h + 1) j \<le> n
          \<and> (\<forall>k < search_between f (?h + 1) j. \<not> f k)
          \<and> (\<forall>k. search_between f (?h + 1) j \<le> k \<and> k < n \<longrightarrow> f k)"
        by (intro "1.IH"(1)) auto
      moreover have "search_between f i j = search_between f (?h + 1) j"
        using ij False by (simp add: search_between.simps [of f i j])
      ultimately show ?thesis by simp
    qed
  qed
qed

lemma go_search_least:
  assumes "\<And>a b. a \<le> b \<Longrightarrow> b < n \<Longrightarrow> f a \<Longrightarrow> f b"
  shows "go_search n f \<le> n \<and> (\<forall>k < go_search n f. \<not> f k)
         \<and> (\<forall>k. go_search n f \<le> k \<and> k < n \<longrightarrow> f k)"
  unfolding go_search_def by (rule search_between_least) (use assms in auto)

lemma Contains_sorted:
  assumes "sorted l"
  shows "Contains l v \<longleftrightarrow> v \<in> set l"
proof -
  let ?f = "\<lambda>i. v \<le> l ! i" and ?i = "go_search (length l) (\<lambda>i. v \<le> l ! i)"
  have mono: "\<And>a b. a \<le> b \<Longrightarrow> b < length l \<Longrightarrow> ?f a \<Longrightarrow> ?f b"
    using assms by (meson order_trans sorted_nth_mono)
  show ?thesis
  proof
    assume "v \<in> set l"
    then obtain k where k: "k < length l" "l ! k = v" by (auto simp: in_set_conv_nth)
    have least: "\<forall>k < ?i. \<not> ?f k" "\<forall>k. ?i \<le> k \<and> k < length l \<longrightarrow> ?f k"
      using go_search_least [of "length l" ?f] mono by blast+
    then have le: "?i \<le> k" using k by (metis linorder_not_le order_refl)
    then have "?i < length l" using k(1) by simp
    then have "v \<le> l ! ?i" using least(2) by simp
    moreover have "l ! ?i \<le> v" using assms le k by (metis sorted_nth_mono)
    ultimately show "Contains l v"
      using \<open>?i < length l\<close> by (simp add: Contains_def Let_def)
  qed (auto simp: Contains_def Let_def in_set_conv_nth)
qed

subsection \<open>FilterMembers\<close>

text \<open>
  What \<open>FilterMembers\<close> relies on, as an interface: a preparation of the name list and a
  test on the prepared list which together decide membership in the list as it was given.
\<close>

locale member_test =
  fixes prep :: "string list \<Rightarrow> string list"
    and test :: "string list \<Rightarrow> string \<Rightarrow> bool"
  assumes test_prep: "test (prep l) v \<longleftrightarrow> v \<in> set l"
    and prep_idem: "prep (prep l) = prep l"
begin

lemma filter_test: "filter (\<lambda>m. test (prep l) (name m)) ms = filter (\<lambda>m. name m \<in> set l) ms"
  by (simp add: test_prep)

lemma test_prep_prep: "test (prep (prep l)) v \<longleftrightarrow> v \<in> set l"
  by (simp add: prep_idem test_prep)

lemma set_prep: "v \<in> set (prep l) \<longleftrightarrow> v \<in> set l"
  using test_prep_prep test_prep by blast

end

text \<open>
  \<open>sort.Sort\<close> with the bytewise order of \<open>SortableStringSlice\<close> leaves the one sorted
  permutation of the slice, HOL's \<open>sort\<close>.
\<close>

definition sort_names :: "string list \<Rightarrow> string list" where
  "sort_names l = sort l"

interpretation names: member_test sort_names Contains
  by unfold_locales (simp_all add: sort_names_def Contains_sorted sorted_sort_id)

definition FilterMembers ::
  "client_member list \<Rightarrow> string list \<Rightarrow> client_member list \<times> string list" where
  "FilterMembers members filterNames =
     (if filterNames = [] then (members, filterNames)
      else (let sorted_names = sort_names filterNames
            in (filter (\<lambda>m. Contains sorted_names (cm_name m)) members, sorted_names)))"

lemma fst_FilterMembers:
  "fst (FilterMembers ms ns) =
     (if ns = [] then ms else filter (\<lambda>m. cm_name m \<in> set ns) ms)"
  by (simp add: FilterMembers_def Let_def names.filter_test)

lemma length_FilterMembers_le: "length (fst (FilterMembers ms ns)) \<le> length ms"
  by (simp add: fst_FilterMembers)

subsection \<open>Properties\<close>

text \<open>\<open>parseTagArgs\<close> succeeds exactly when every argument holds one equals sign, and its
  map then gives each key the value of the last argument with that key.\<close>

theorem parseTagArgs_correct:
  "parseTagArgs ts = (m, None) \<longleftrightarrow>
     (\<exists>ps. map tag_pair ts = map Some ps \<and> m = map_of (rev ps))"
proof
  assume *: "parseTagArgs ts = (m, None)"
  then have "\<forall>t \<in> set ts. tag_pair t \<noteq> None"
    using parse_tags_from_error [of Map.empty ts] by (simp add: parseTagArgs_def)
  then have ps: "map tag_pair ts = map Some (map (the \<circ> tag_pair) ts)" by simp
  from parse_tags_from_ok [OF ps, of Map.empty] * have "m = map_of (rev (map (the \<circ> tag_pair) ts))"
    by (simp add: parseTagArgs_def)
  with ps show "\<exists>ps. map tag_pair ts = map Some ps \<and> m = map_of (rev ps)" by blast
qed (auto simp: parseTagArgs_def parse_tags_from_ok)

text \<open>C5: \<open>FilterMembers\<close> keeps exactly the members whose name was given, in their order, and
  all of them when no name was given, although it looks names up by binary search.\<close>

theorem FilterMembers_keeps_named:
  "FilterMembers ms ns =
     (filter (\<lambda>m. ns = [] \<or> cm_name m \<in> set ns) ms, if ns = [] then ns else sort_names ns)"
  by (simp add: FilterMembers_def Let_def names.filter_test)

text \<open>\<open>keyToBytes\<close> recovers any key from its base64 text.\<close>

theorem keyToBytes_roundtrip: "keyToBytes (b64_encode k) = Some k"
  by (simp add: keyToBytes_def b64_decode_encode)

end
