(* ===== verification/MsgpackEnc.thy ===== *)
theory MsgpackEnc
  imports GoStd
begin

section \<open>MessagePack encoding (ugorji/go/codec: msgpack.go, encode.go, helper.go)\<close>

text \<open>
  The encoding half of the codec with which message.go writes its payloads, for the handle the
  program uses: a zero \<open>MsgpackHandle\<close>, so \<open>WriteExt\<close> and \<open>StructToArray\<close> are
  false unless a definition takes the flag as an argument. A writer is the list of bytes it
  appends; \<open>bytesEncWriter\<close>'s buffer growth is not modelled.
\<close>

unbundle bit_operations_syntax

subsection \<open>Format bytes\<close>

definition mpNil :: byte where "mpNil = 0xc0"
definition mpFalse :: byte where "mpFalse = 0xc2"
definition mpTrue :: byte where "mpTrue = 0xc3"
definition mpFloat :: byte where "mpFloat = 0xca"
definition mpDouble :: byte where "mpDouble = 0xcb"
definition mpUint8 :: byte where "mpUint8 = 0xcc"
definition mpUint16 :: byte where "mpUint16 = 0xcd"
definition mpUint32 :: byte where "mpUint32 = 0xce"
definition mpUint64 :: byte where "mpUint64 = 0xcf"
definition mpInt8 :: byte where "mpInt8 = 0xd0"
definition mpInt16 :: byte where "mpInt16 = 0xd1"
definition mpInt32 :: byte where "mpInt32 = 0xd2"
definition mpInt64 :: byte where "mpInt64 = 0xd3"

lemmas mp_consts = mpNil_def mpFalse_def mpTrue_def mpFloat_def mpDouble_def mpUint8_def
  mpUint16_def mpUint32_def mpUint64_def mpInt8_def mpInt16_def mpInt32_def mpInt64_def

record container_type =
  fixCutoff :: nat
  bFixMin :: byte
  b8 :: byte
  b16 :: byte
  b32 :: byte
  hasFixMin :: bool
  has8 :: bool
  has8Always :: bool

definition msgpackContainerStr :: container_type where
  "msgpackContainerStr = \<lparr>fixCutoff = 32, bFixMin = 0xa0, b8 = 0xd9, b16 = 0xda, b32 = 0xdb,
     hasFixMin = True, has8 = True, has8Always = False\<rparr>"

definition msgpackContainerBin :: container_type where
  "msgpackContainerBin = \<lparr>fixCutoff = 0, bFixMin = 0, b8 = 0xc4, b16 = 0xc5, b32 = 0xc6,
     hasFixMin = False, has8 = True, has8Always = True\<rparr>"

definition msgpackContainerList :: container_type where
  "msgpackContainerList = \<lparr>fixCutoff = 16, bFixMin = 0x90, b8 = 0, b16 = 0xdc, b32 = 0xdd,
     hasFixMin = True, has8 = False, has8Always = False\<rparr>"

definition msgpackContainerMap :: container_type where
  "msgpackContainerMap = \<lparr>fixCutoff = 16, bFixMin = 0x80, b8 = 0, b16 = 0xde, b32 = 0xdf,
     hasFixMin = True, has8 = False, has8Always = False\<rparr>"

lemmas mp_containers = msgpackContainerStr_def msgpackContainerBin_def msgpackContainerList_def
  msgpackContainerMap_def

subsection \<open>The driver msgpackEncDriver\<close>

definition writeContainerLen :: "bool \<Rightarrow> container_type \<Rightarrow> nat \<Rightarrow> bytes" where
  "writeContainerLen writeExt ct l =
     (if hasFixMin ct \<and> l < fixCutoff ct then [bFixMin ct OR word_of_nat l]
      else if has8 ct \<and> l < 256 \<and> (has8Always ct \<or> writeExt) then [b8 ct, word_of_nat l]
      else if l < 65536 then b16 ct # be_bytes 2 l
      else b32 ct # be_bytes 4 l)"

definition EncodeNil :: bytes where
  "EncodeNil = [mpNil]"

definition EncodeBool :: "bool \<Rightarrow> bytes" where
  "EncodeBool b = (if b then [mpTrue] else [mpFalse])"

definition EncodeUint :: "64 word \<Rightarrow> bytes" where
  "EncodeUint i =
     (let n = unat i in
      if n \<le> 127 then [word_of_nat n]
      else if n \<le> 255 then [mpUint8, word_of_nat n]
      else if n \<le> 65535 then mpUint16 # be_bytes 2 n
      else if n \<le> 4294967295 then mpUint32 # be_bytes 4 n
      else mpUint64 # be_bytes 8 n)"

text \<open>A conversion of a negative \<open>int64\<close> to a narrower unsigned type keeps the low bytes.\<close>

definition EncodeInt :: "64 word \<Rightarrow> bytes" where
  "EncodeInt i =
     (let v = sint i; n = unat i in
      if 0 \<le> v then EncodeUint i
      else if - 32 \<le> v then [word_of_nat n]
      else if - 128 \<le> v then [mpInt8, word_of_nat n]
      else if - 32768 \<le> v then mpInt16 # be_bytes 2 n
      else if - 2147483648 \<le> v then mpInt32 # be_bytes 4 n
      else mpInt64 # be_bytes 8 n)"

definition EncodeArrayStart :: "nat \<Rightarrow> bytes" where
  "EncodeArrayStart n = writeContainerLen False msgpackContainerList n"

definition EncodeMapStart :: "nat \<Rightarrow> bytes" where
  "EncodeMapStart n = writeContainerLen False msgpackContainerMap n"

text \<open>\<open>raw\<close> is the test for the character encoding \<open>c_RAW\<close>.\<close>

definition EncodeString :: "bool \<Rightarrow> bool \<Rightarrow> string \<Rightarrow> bytes" where
  "EncodeString writeExt raw s =
     writeContainerLen writeExt
       (if raw \<and> writeExt then msgpackContainerBin else msgpackContainerStr) (length s)
     @ string_bytes s"

definition EncodeStringBytes :: "bool \<Rightarrow> bool \<Rightarrow> bytes \<Rightarrow> bytes" where
  "EncodeStringBytes writeExt raw b =
     writeContainerLen writeExt
       (if raw \<and> writeExt then msgpackContainerBin else msgpackContainerStr) (length b)
     @ b"

subsection \<open>Structs: typeInfo and kStruct\<close>

text \<open>
  The struct types the program encodes have fields of three kinds: \<open>string\<close>, \<open>int\<close> and
  \<open>*string\<close>. A struct value maps the encoded name of each field to its value.
\<close>

datatype fkind = KString | KInt | KStringPtr

datatype fval = FString string | FInt "64 word" | FStringPtr "string option"

type_synonym struct_value = "string \<Rightarrow> fval"

fun zero_value :: "fkind \<Rightarrow> fval" where
  "zero_value KString = FString []"
| "zero_value KInt = FInt 0"
| "zero_value KStringPtr = FStringPtr None"

record typeInfo =
  sfi :: "(string \<times> fkind) list" \<comment> \<open>sorted by encoded name\<close>
  sfip :: "(string \<times> fkind) list" \<comment> \<open>in the order of declaration\<close>

text \<open>
  \<open>parseStructFieldInfo\<close> gives a field the name of its tag, or its own name when the tag is
  empty; \<open>getTypeInfo\<close> keeps the declared order and a copy sorted by that name. A declared
  field is its Go name, its tag up to the first comma, and its kind.
\<close>

definition parseStructFieldInfo :: "string \<Rightarrow> string \<Rightarrow> string" where
  "parseStructFieldInfo fname stag =
     (if stag \<noteq> [] \<and> hd (split_on (CHR '','') stag) \<noteq> []
      then hd (split_on (CHR '','') stag) else fname)"

definition getTypeInfo :: "(string \<times> string \<times> fkind) list \<Rightarrow> typeInfo" where
  "getTypeInfo decls =
     (let fs = map (\<lambda>(fname, stag, k). (parseStructFieldInfo fname stag, k)) decls
      in \<lparr>sfi = sort_key fst fs, sfip = fs\<rparr>)"

fun encodeValue :: "fval \<Rightarrow> bytes" where
  "encodeValue (FString s) = EncodeString False False s"
| "encodeValue (FInt i) = EncodeInt i"
| "encodeValue (FStringPtr None) = EncodeNil"
| "encodeValue (FStringPtr (Some s)) = EncodeString False False s"

definition encode_kStruct :: "typeInfo \<Rightarrow> struct_value \<Rightarrow> bytes" where
  "encode_kStruct ti v =
     EncodeMapStart (length (sfi ti))
     @ concat (map (\<lambda>(name, k). EncodeString False False name @ encodeValue (v name)) (sfi ti))"

end
