(* ===== verification/MsgpackDec.thy ===== *)
theory MsgpackDec
  imports MsgpackEnc
begin

section \<open>MessagePack decoding (ugorji/go/codec: msgpack.go, decode.go, helper.go)\<close>

text \<open>
  The decoding half of the codec, reading from a byte slice. The decoder panics with an error
  and \<open>Decode\<close> recovers it, so every operation returns an error or a value with the
  advanced decoder. The state is what is left of the slice with the number of bytes read
  (\<open>bytesDecReader\<close>) and the driver's current descriptor byte (\<open>bd\<close>, \<open>bdRead\<close>).
  Lengths are Go \<open>int\<close>s of a 64-bit platform, which hold every 32-bit length.
\<close>

record decoder =
  rb :: bytes
  numread :: nat
  bd :: byte
  bdRead :: bool

datatype dec_error =
    IoEOF
  | IoUnexpectedEOF
  | OnlyMapOrArray
  | Errorf nat string  \<comment> \<open>position and message of \<open>d.errorf\<close>\<close>

type_synonym 'a dec = "decoder \<Rightarrow> (dec_error, 'a \<times> decoder) result"

definition dreturn :: "'a \<Rightarrow> 'a dec" where
  "dreturn a d = Inr (a, d)"

definition dbind :: "'a dec \<Rightarrow> ('a \<Rightarrow> 'b dec) \<Rightarrow> 'b dec" where
  "dbind m f d = (case m d of Inl e \<Rightarrow> Inl e | Inr (a, d') \<Rightarrow> f a d')"

definition dget :: "(decoder \<Rightarrow> 'a) \<Rightarrow> 'a dec" where
  "dget g d = Inr (g d, d)"

lemma dbind_cong [fundef_cong]:
  "m d = m' d' \<Longrightarrow> (\<And>a e. m' d' = Inr (a, e) \<Longrightarrow> f a e = g a e) \<Longrightarrow> dbind m f d = dbind m' g d'"
  by (auto simp: dbind_def split: sum.splits)

lemma dbind_eq_Inr_iff:
  "dbind m f d = Inr r \<longleftrightarrow> (\<exists>a d'. m d = Inr (a, d') \<and> f a d' = Inr r)"
  by (auto simp: dbind_def split: sum.splits)

lemma dbind_Inr [wire_simps]: "m d = Inr (a, d') \<Longrightarrow> dbind m f d = f a d'"
  by (simp add: dbind_def)

definition err_text :: "dec_error \<Rightarrow> string" where
  "err_text e =
     (case e of
        IoEOF \<Rightarrow> ''EOF''
      | IoUnexpectedEOF \<Rightarrow> ''unexpected EOF''
      | OnlyMapOrArray \<Rightarrow> ''only encoded map or array can be decoded into a struct''
      | Errorf p m \<Rightarrow> ''[pos '' @ show_nat p @ '']: '' @ m)"

definition hex_text :: "byte \<Rightarrow> string" where
  "hex_text b = show_base 16 (unat b)"

definition msgBadDesc :: string where
  "msgBadDesc = ''Unrecognized descriptor byte''"

definition errorf :: "string \<Rightarrow> 'a dec" where
  "errorf m d = Inl (Errorf (numread d) m)"

subsection \<open>bytesDecReader\<close>

definition readx :: "int \<Rightarrow> bytes dec" where
  "readx n d =
     (if n \<le> 0 then Inr ([], d)
      else if rb d = [] then Inl IoEOF
      else if int (length (rb d)) < n then Inl IoUnexpectedEOF
      else Inr (take (nat n) (rb d),
                d\<lparr>rb := drop (nat n) (rb d), numread := numread d + nat n\<rparr>))"

definition readn1 :: "byte dec" where
  "readn1 d =
     (case rb d of
        [] \<Rightarrow> Inl IoEOF
      | b # r \<Rightarrow> Inr (b, d\<lparr>rb := r, numread := Suc (numread d)\<rparr>))"

definition NewDecoderBytes :: "bytes \<Rightarrow> decoder" where
  "NewDecoderBytes b = \<lparr>rb = b, numread = 0, bd = 0, bdRead = False\<rparr>"

subsection \<open>The driver msgpackDecDriver\<close>

definition readNextBd :: "unit dec" where
  "readNextBd = dbind readn1 (\<lambda>b d. Inr ((), d\<lparr>bd := b, bdRead := True\<rparr>))"

text \<open>The guard \<open>if !d.bdRead { d.readNextBd() }\<close> at the start of the driver's methods.\<close>

definition need_bd :: "unit dec" where
  "need_bd d = (if bdRead d then Inr ((), d) else readNextBd d)"

definition bd_done :: "unit dec" where
  "bd_done d = Inr ((), d\<lparr>bdRead := False\<rparr>)"

definition read_be :: "nat \<Rightarrow> nat dec" where
  "read_be k = dbind (readx (int k)) (\<lambda>b. dreturn (be_nat b))"

text \<open>The length of a container; \<open>-1\<close> stands for nil.\<close>

definition readContainerLen :: "container_type \<Rightarrow> int dec" where
  "readContainerLen ct =
     dbind (dget bd) (\<lambda>b.
     dbind (if b = mpNil then dreturn (- 1)
            else if b = b8 ct then dbind readn1 (\<lambda>w. dreturn (int (unat w)))
            else if b = b16 ct then dbind (read_be 2) (\<lambda>n. dreturn (int n))
            else if b = b32 ct then dbind (read_be 4) (\<lambda>n. dreturn (int n))
            else if (bFixMin ct AND b) = bFixMin ct
                 then dreturn (int (unat (bFixMin ct XOR b)))
            else errorf (''readContainerLen: '' @ msgBadDesc @ '': hex: '' @ hex_text b
                         @ '', decimal: '' @ show_nat (unat b))) (\<lambda>clen.
     dbind bd_done (\<lambda>_. dreturn clen)))"

definition is_bin_bd :: "byte \<Rightarrow> bool" where
  "is_bin_bd b \<longleftrightarrow> b = 0xc4 \<or> b = 0xc5 \<or> b = 0xc6"

definition is_str_bd :: "byte \<Rightarrow> bool" where
  "is_str_bd b \<longleftrightarrow> b = 0xd9 \<or> b = 0xda \<or> b = 0xdb \<or> (0xa0 \<le> b \<and> b \<le> 0xbf)"

definition is_array_bd :: "byte \<Rightarrow> bool" where
  "is_array_bd b \<longleftrightarrow> b = 0xdc \<or> b = 0xdd \<or> (0x90 \<le> b \<and> b \<le> 0x9f)"

definition is_map_bd :: "byte \<Rightarrow> bool" where
  "is_map_bd b \<longleftrightarrow> b = 0xde \<or> b = 0xdf \<or> (0x80 \<le> b \<and> b \<le> 0x8f)"

text \<open>
  \<open>DecodeBytes\<close> reads a string or binary run; a nil gives the empty run. The reader is a byte
  slice, so the zero-copy branch is taken.
\<close>

definition DecodeBytes :: "bytes dec" where
  "DecodeBytes =
     dbind need_bd (\<lambda>_.
     dbind (dget bd) (\<lambda>b.
     dbind (if is_bin_bd b then readContainerLen msgpackContainerBin
            else readContainerLen msgpackContainerStr) (\<lambda>clen.
     dbind bd_done (\<lambda>_.
     if clen < 0 then dreturn [] else readx clen))))"

definition DecodeString :: "string dec" where
  "DecodeString = dbind DecodeBytes (\<lambda>b. dreturn (bytes_string b))"

text \<open>Reading \<open>k\<close> bytes as a two's complement number of that width, extended to 64 bits.\<close>

definition read_signed :: "nat \<Rightarrow> (64 word) dec" where
  "read_signed k = dbind (read_be k) (\<lambda>n. dreturn (word_of_int (signed_take_bit (8 * k - 1) (int n))))"

definition read_unsigned :: "nat \<Rightarrow> (64 word) dec" where
  "read_unsigned k = dbind (read_be k) (\<lambda>n. dreturn (word_of_nat n))"

text \<open>The value of an integer whose descriptor byte is \<open>b\<close>.\<close>

definition int_body :: "byte \<Rightarrow> (64 word) dec" where
  "int_body b =
     (if b = mpUint8 then read_unsigned 1
      else if b = mpUint16 then read_unsigned 2
      else if b = mpUint32 then read_unsigned 4
      else if b = mpUint64 then read_unsigned 8
      else if b = mpInt8 then read_signed 1
      else if b = mpInt16 then read_signed 2
      else if b = mpInt32 then read_signed 4
      else if b = mpInt64 then read_signed 8
      else if b \<le> 0x7f \<or> 0xe0 \<le> b then dreturn (scast b)
      else errorf (''Unhandled single-byte unsigned integer value: '' @ msgBadDesc
                   @ '': '' @ hex_text b))"

definition DecodeInt :: "nat \<Rightarrow> (64 word) dec" where
  "DecodeInt bitsize =
     dbind need_bd (\<lambda>_.
     dbind (dget bd) (\<lambda>b.
     dbind (int_body b) (\<lambda>i.
     if 0 < bitsize \<and> i \<noteq> signed_drop_bit (64 - bitsize) (push_bit (64 - bitsize) i)
     then errorf (''Overflow int value: '' @ show_int (sint i))
     else dbind bd_done (\<lambda>_. dreturn i))))"

definition DecodeBool :: "bool dec" where
  "DecodeBool =
     dbind need_bd (\<lambda>_.
     dbind (dget bd) (\<lambda>b.
     if b = mpFalse \<or> b = 0 then dbind bd_done (\<lambda>_. dreturn False)
     else if b = mpTrue \<or> b = 1 then dbind bd_done (\<lambda>_. dreturn True)
     else errorf (''Invalid single-byte value for bool: '' @ msgBadDesc @ '': '' @ hex_text b)))"

definition TryDecodeAsNil :: "bool dec" where
  "TryDecodeAsNil =
     dbind need_bd (\<lambda>_.
     dbind (dget bd) (\<lambda>b.
     if b = mpNil then dbind bd_done (\<lambda>_. dreturn True) else dreturn False))"

definition ReadMapStart :: "int dec" where
  "ReadMapStart = readContainerLen msgpackContainerMap"

definition ReadArrayStart :: "int dec" where
  "ReadArrayStart = readContainerLen msgpackContainerList"

definition readExtLen :: "int dec" where
  "readExtLen =
     dbind (dget bd) (\<lambda>b.
     if b = mpNil then dreturn (- 1)
     else if b = 0xd4 then dreturn 1
     else if b = 0xd5 then dreturn 2
     else if b = 0xd6 then dreturn 4
     else if b = 0xd7 then dreturn 8
     else if b = 0xd8 then dreturn 16
     else if b = 0xc7 then dbind readn1 (\<lambda>w. dreturn (int (unat w)))
     else if b = 0xc8 then dbind (read_be 2) (\<lambda>n. dreturn (int n))
     else if b = 0xc9 then dbind (read_be 4) (\<lambda>n. dreturn (int n))
     else errorf (''decoding ext bytes: found unexpected byte: '' @ hex_text b))"

text \<open>
  A value decoded with no target type. \<open>NFurther\<close> stands for the containers, strings and
  binary runs that the caller decodes further. Floats are kept as their bits.
\<close>

datatype naked =
    NNil | NBool bool | NFloat32 nat | NFloat64 nat
  | NUint "64 word" | NInt "64 word" | NExt byte bytes | NFurther

definition naked_primitive :: "naked \<Rightarrow> naked dec" where
  "naked_primitive v = dbind bd_done (\<lambda>_. dreturn v)"

definition DecodeNaked :: "naked dec" where
  "DecodeNaked =
     dbind need_bd (\<lambda>_.
     dbind (dget bd) (\<lambda>b.
     if b = mpNil then naked_primitive NNil
     else if b = mpFalse then naked_primitive (NBool False)
     else if b = mpTrue then naked_primitive (NBool True)
     else if b = mpFloat then dbind (read_be 4) (\<lambda>n. naked_primitive (NFloat32 n))
     else if b = mpDouble then dbind (read_be 8) (\<lambda>n. naked_primitive (NFloat64 n))
     else if b = mpUint8 then dbind (read_unsigned 1) (\<lambda>n. naked_primitive (NUint n))
     else if b = mpUint16 then dbind (read_unsigned 2) (\<lambda>n. naked_primitive (NUint n))
     else if b = mpUint32 then dbind (read_unsigned 4) (\<lambda>n. naked_primitive (NUint n))
     else if b = mpUint64 then dbind (read_unsigned 8) (\<lambda>n. naked_primitive (NUint n))
     else if b = mpInt8 then dbind (read_signed 1) (\<lambda>n. naked_primitive (NInt n))
     else if b = mpInt16 then dbind (read_signed 2) (\<lambda>n. naked_primitive (NInt n))
     else if b = mpInt32 then dbind (read_signed 4) (\<lambda>n. naked_primitive (NInt n))
     else if b = mpInt64 then dbind (read_signed 8) (\<lambda>n. naked_primitive (NInt n))
     else if b \<le> 0x7f \<or> 0xe0 \<le> b then naked_primitive (NInt (scast b))
     else if is_str_bd b \<or> is_bin_bd b \<or> is_array_bd b \<or> is_map_bd b then dreturn NFurther
     else if (0xd4 \<le> b \<and> b \<le> 0xd8) \<or> (0xc7 \<le> b \<and> b \<le> 0xc9) then
       dbind readExtLen (\<lambda>clen.
       dbind readn1 (\<lambda>tag.
       dbind (readx clen) (\<lambda>data. naked_primitive (NExt tag data))))
     else errorf (''Nil-Deciphered DecodeValue: '' @ msgBadDesc @ '': hex: '' @ hex_text b
                  @ '', dec: '' @ show_nat (unat b))))"

subsection \<open>Skipping a value: swallow\<close>

text \<open>
  \<open>swallow\<close> skips one value of any shape, nested ones by recursion, so it takes fuel; running
  out is \<open>None\<close>. \<open>swallow_fuel\<close> is a bound read off the decoder that is always enough.
\<close>

fun swallow_many :: "(decoder \<Rightarrow> (dec_error, unit \<times> decoder) result option) \<Rightarrow>
    nat \<Rightarrow> decoder \<Rightarrow> (dec_error, unit \<times> decoder) result option" where
  "swallow_many f 0 d = Some (Inr ((), d))"
| "swallow_many f (Suc k) d =
     (case f d of
        None \<Rightarrow> None
      | Some (Inl e) \<Rightarrow> Some (Inl e)
      | Some (Inr (_, d')) \<Rightarrow> swallow_many f k d')"

primrec swallow :: "nat \<Rightarrow> decoder \<Rightarrow> (dec_error, unit \<times> decoder) result option" where
  "swallow 0 d = None"
| "swallow (Suc fuel) d =
     (case TryDecodeAsNil d of
        Inl e \<Rightarrow> Some (Inl e)
      | Inr (True, d1) \<Rightarrow> Some (Inr ((), d1))
      | Inr (False, d1) \<Rightarrow>
          if is_map_bd (bd d1) then
            (case ReadMapStart d1 of
               Inl e \<Rightarrow> Some (Inl e)
             | Inr (clen, d2) \<Rightarrow> swallow_many (swallow fuel) (2 * nat clen) d2)
          else if is_array_bd (bd d1) then
            (case ReadArrayStart d1 of
               Inl e \<Rightarrow> Some (Inl e)
             | Inr (clen, d2) \<Rightarrow> swallow_many (swallow fuel) (nat clen) d2)
          else if is_bin_bd (bd d1) \<or> is_str_bd (bd d1) then
            Some (dbind DecodeBytes (\<lambda>_. dreturn ()) d1)
          else Some (dbind DecodeNaked (\<lambda>_. dreturn ()) d1))"

definition swallow_fuel :: "decoder \<Rightarrow> nat" where
  "swallow_fuel d = Suc (Suc (length (rb d)))"

subsection \<open>Structs: kStruct\<close>

text \<open>
  A decoding into a struct updates it in place and may stop half-way, so these operations
  return the struct value as it is left together with the error or the advanced decoder.
\<close>

type_synonym 'v update = "'v \<times> (dec_error, decoder) result"

text \<open>
  \<open>decode_field\<close> is \<open>TryDecodeAsNil\<close> with \<open>setToZeroValue\<close>, else \<open>decodeValue\<close> on a field
  of one of the three kinds. A pointer that is nil is allocated before its string is read.
\<close>

definition decode_field :: "fkind \<Rightarrow> fval \<Rightarrow> decoder \<Rightarrow> fval update" where
  "decode_field k old d =
     (case TryDecodeAsNil d of
        Inl e \<Rightarrow> (old, Inl e)
      | Inr (isnil, d1) \<Rightarrow>
          if isnil then (zero_value k, Inr d1)
          else case k of
            KString \<Rightarrow>
              (case DecodeString d1 of
                 Inl e \<Rightarrow> (old, Inl e) | Inr (s, d2) \<Rightarrow> (FString s, Inr d2))
          | KInt \<Rightarrow>
              (case DecodeInt 64 d1 of
                 Inl e \<Rightarrow> (old, Inl e) | Inr (i, d2) \<Rightarrow> (FInt i, Inr d2))
          | KStringPtr \<Rightarrow>
              (case DecodeString d1 of
                 Inl e \<Rightarrow> (if old = FStringPtr None then FStringPtr (Some []) else old, Inl e)
               | Inr (s, d2) \<Rightarrow> (FStringPtr (Some s), Inr d2)))"

text \<open>
  \<open>indexForEncName\<close> by linear search (the program's structs have fewer than 16 fields), giving
  the kind of the field it finds.
\<close>

definition indexForEncName :: "typeInfo \<Rightarrow> string \<Rightarrow> fkind option" where
  "indexForEncName ti name = map_of (sfi ti) name"

text \<open>
  \<open>structFieldNotFound\<close> swallows the value (\<open>ErrorIfNoField\<close> is false). The fuel is always
  enough (\<open>swallow_enough\<close> below), so the last case never arises.
\<close>

definition structFieldNotFound :: "decoder \<Rightarrow> (dec_error, unit \<times> decoder) result" where
  "structFieldNotFound d =
     (case swallow (swallow_fuel d) d of Some r \<Rightarrow> r | None \<Rightarrow> Inl IoUnexpectedEOF)"

primrec decode_map_fields :: "typeInfo \<Rightarrow> nat \<Rightarrow> struct_value \<Rightarrow> decoder \<Rightarrow> struct_value update" where
  "decode_map_fields ti 0 v d = (v, Inr d)"
| "decode_map_fields ti (Suc n) v d =
     (case DecodeString d of
        Inl e \<Rightarrow> (v, Inl e)
      | Inr (name, d1) \<Rightarrow>
          (case indexForEncName ti name of
             Some k \<Rightarrow>
               (case decode_field k (v name) d1 of
                  (x, Inl e) \<Rightarrow> (v(name := x), Inl e)
                | (x, Inr d2) \<Rightarrow> decode_map_fields ti n (v(name := x)) d2)
           | None \<Rightarrow>
               (case structFieldNotFound d1 of
                  Inl e \<Rightarrow> (v, Inl e)
                | Inr (_, d2) \<Rightarrow> decode_map_fields ti n v d2)))"

primrec skip_fields :: "nat \<Rightarrow> struct_value \<Rightarrow> decoder \<Rightarrow> struct_value update" where
  "skip_fields 0 v d = (v, Inr d)"
| "skip_fields (Suc n) v d =
     (case structFieldNotFound d of Inl e \<Rightarrow> (v, Inl e) | Inr (_, d1) \<Rightarrow> skip_fields n v d1)"

primrec decode_array_fields ::
  "(string \<times> fkind) list \<Rightarrow> nat \<Rightarrow> struct_value \<Rightarrow> decoder \<Rightarrow> struct_value update" where
  "decode_array_fields [] n v d = skip_fields n v d"
| "decode_array_fields (f # fs) n v d =
     (if n = 0 then (v, Inr d)
      else case decode_field (snd f) (v (fst f)) d of
             (x, Inl e) \<Rightarrow> (v(fst f := x), Inl e)
           | (x, Inr d1) \<Rightarrow> decode_array_fields fs (n - 1) (v(fst f := x)) d1)"

definition decode_kStruct :: "typeInfo \<Rightarrow> struct_value \<Rightarrow> decoder \<Rightarrow> struct_value update" where
  "decode_kStruct ti v d =
     (if is_map_bd (bd d) then
        (case ReadMapStart d of
           Inl e \<Rightarrow> (v, Inl e) | Inr (clen, d1) \<Rightarrow> decode_map_fields ti (nat clen) v d1)
      else if is_array_bd (bd d) then
        (case ReadArrayStart d of
           Inl e \<Rightarrow> (v, Inl e) | Inr (clen, d1) \<Rightarrow> decode_array_fields (sfip ti) (nat clen) v d1)
      else (v, Inl OnlyMapOrArray))"

definition zero_struct :: "typeInfo \<Rightarrow> struct_value \<Rightarrow> struct_value" where
  "zero_struct ti v =
     (\<lambda>name. case map_of (sfi ti) name of Some k \<Rightarrow> zero_value k | None \<Rightarrow> v name)"

text \<open>\<open>Decoder.Decode\<close> into a struct that holds the given value; nil resets every field.\<close>

definition Decode_struct :: "typeInfo \<Rightarrow> struct_value \<Rightarrow> bytes \<Rightarrow> struct_value \<times> dec_error option" where
  "Decode_struct ti v b =
     (case TryDecodeAsNil (NewDecoderBytes b) of
        Inl e \<Rightarrow> (v, Some e)
      | Inr (isnil, d1) \<Rightarrow>
          if isnil then (zero_struct ti v, None)
          else (case decode_kStruct ti v d1 of
                  (w, Inl e) \<Rightarrow> (w, Some e) | (w, Inr _) \<Rightarrow> (w, None)))"

end
