(* ===== verification/MsgpackWire.thy ===== *)
theory MsgpackWire
  imports MsgpackDec
begin

section \<open>What the codec promises: every encoded value decodes to itself\<close>

text \<open>
  The decoder may hold a descriptor byte it has read and not used. Seen from outside it stands
  before a byte sequence, \<open>pending\<close>; the laws of the codec are stated over that view.
\<close>

definition pending :: "decoder \<Rightarrow> bytes" where
  "pending d = (if bdRead d then bd d # rb d else rb d)"

lemma pending_NewDecoderBytes [simp]:
  "pending (NewDecoderBytes b) = b" "bdRead (NewDecoderBytes b) = False"
  by (simp_all add: pending_def NewDecoderBytes_def)

lemma pending_unread: "\<not> bdRead d \<Longrightarrow> pending d = rb d"
  by (simp add: pending_def)

text \<open>
  A wire format is an encoder and a decoder for it: on the values it can carry, the decoder
  reads back what the encoder wrote, whatever follows, and leaves what follows.
\<close>

locale wire_format =
  fixes enc :: "'a \<Rightarrow> bytes"
    and dec :: "'a dec"
    and carries :: "'a \<Rightarrow> bool"
  assumes dec_enc: "carries x \<Longrightarrow> pending d = enc x @ r \<Longrightarrow>
    \<exists>d'. dec d = Inr (x, d') \<and> pending d' = r \<and> \<not> bdRead d'"
begin

lemma dec_enc_new: "carries x \<Longrightarrow> \<exists>d'. dec (NewDecoderBytes (enc x)) = Inr (x, d')"
  using dec_enc [of x "NewDecoderBytes (enc x)" "[]"] by auto

text \<open>Its code words are uniquely decodable, also as prefixes of a longer sequence.\<close>

lemma enc_prefix_inj:
  assumes "carries x" "carries y" "enc x @ r = enc y @ s"
  shows "x = y \<and> r = s"
proof -
  let ?d = "NewDecoderBytes (enc x @ r)"
  obtain d1 where "dec ?d = Inr (x, d1)" "pending d1 = r"
    using dec_enc [OF assms(1), of ?d r] by auto
  moreover obtain d2 where "dec ?d = Inr (y, d2)" "pending d2 = s"
    using dec_enc [OF assms(2), of ?d s] assms(3) by auto
  ultimately show ?thesis by simp
qed

end

subsection \<open>The driver's steps over the pending bytes\<close>

lemma need_bd_pending:
  "pending d = b # r \<Longrightarrow>
     \<exists>d'. need_bd d = Inr ((), d') \<and> bdRead d' \<and> bd d' = b \<and> rb d' = r"
  by (auto simp: pending_def need_bd_def readNextBd_def dbind_def readn1_def split: if_splits)

lemma need_bd_eof: "pending d = [] \<Longrightarrow> need_bd d = Inl IoEOF"
  by (auto simp: pending_def need_bd_def readNextBd_def dbind_def readn1_def split: if_splits)

lemma readx_append:
  "rb d = xs @ r \<Longrightarrow> n = int (length xs) \<Longrightarrow>
     \<exists>d'. readx n d = Inr (xs, d') \<and> rb d' = r \<and> bd d' = bd d \<and> bdRead d' = bdRead d"
  by (cases "xs = []") (auto simp: readx_def)

lemma readn1_Cons:
  "rb d = b # r \<Longrightarrow>
     \<exists>d'. readn1 d = Inr (b, d') \<and> rb d' = r \<and> bd d' = bd d \<and> bdRead d' = bdRead d"
  by (simp add: readn1_def)

lemma read_be_bytes:
  "rb d = be_bytes k n @ r \<Longrightarrow> n < 256 ^ k \<Longrightarrow>
     \<exists>d'. read_be k d = Inr (n, d') \<and> rb d' = r \<and> bd d' = bd d \<and> bdRead d' = bdRead d"
  using readx_append [of d "be_bytes k n" r "int k"]
  by (auto simp: read_be_def dbind_def dreturn_def wire_simps)

lemma bd_done_simps [simp]:
  "bd_done d = Inr ((), d\<lparr>bdRead := False\<rparr>)"
  by (simp add: bd_done_def)

lemma TryDecodeAsNil_nil:
  "pending d = mpNil # r \<Longrightarrow>
     \<exists>d'. TryDecodeAsNil d = Inr (True, d') \<and> pending d' = r \<and> \<not> bdRead d'"
proof -
  assume "pending d = mpNil # r"
  then obtain d1 where "need_bd d = Inr ((), d1)" "bd d1 = mpNil" "rb d1 = r"
    using need_bd_pending by blast
  then have "TryDecodeAsNil d = Inr (True, d1\<lparr>bdRead := False\<rparr>)"
    by (simp add: TryDecodeAsNil_def dbind_def dget_def dreturn_def)
  then show ?thesis using \<open>rb d1 = r\<close> by (simp add: pending_def)
qed

lemma TryDecodeAsNil_other:
  "pending d = b # r \<Longrightarrow> b \<noteq> mpNil \<Longrightarrow>
     \<exists>d'. TryDecodeAsNil d = Inr (False, d') \<and> bdRead d' \<and> bd d' = b \<and> rb d' = r
          \<and> pending d' = pending d"
  using need_bd_pending [of d b r]
  by (auto simp: TryDecodeAsNil_def dbind_def dget_def dreturn_def pending_def)

text \<open>The empty input fails with \<open>EOF\<close>.\<close>

lemma TryDecodeAsNil_eof: "pending d = [] \<Longrightarrow> TryDecodeAsNil d = Inl IoEOF"
  by (simp add: TryDecodeAsNil_def dbind_def need_bd_eof)

subsection \<open>Strings\<close>

lemma fixstr_bits:
  "l < 32 \<Longrightarrow> ((0xa0 :: byte) AND (0xa0 OR word_of_nat l)) = 0xa0
     \<and> unat ((0xa0 :: byte) XOR (0xa0 OR word_of_nat l)) = l
     \<and> \<not> is_bin_bd (0xa0 OR word_of_nat l) \<and> (0xa0 OR word_of_nat l) \<noteq> mpNil
     \<and> (0xa0 OR word_of_nat l :: byte) \<notin> {0xd9, 0xda, 0xdb}"
proof -
  have "\<forall>l \<in> set [0..<32]. ((0xa0 :: byte) AND (0xa0 OR word_of_nat l)) = 0xa0
     \<and> unat ((0xa0 :: byte) XOR (0xa0 OR word_of_nat l)) = l
     \<and> \<not> is_bin_bd (0xa0 OR word_of_nat l) \<and> (0xa0 OR word_of_nat l) \<noteq> mpNil
     \<and> (0xa0 OR word_of_nat l :: byte) \<notin> {0xd9, 0xda, 0xdb}"
    by code_simp
  then show "l < 32 \<Longrightarrow> ?thesis" by auto
qed

lemma str_header:
  assumes "l < 2 ^ 32"
  obtains h t where "writeContainerLen False msgpackContainerStr l = h # t"
    "h \<noteq> mpNil" "\<not> is_bin_bd h"
    "\<And>d r. bd d = h \<Longrightarrow> rb d = t @ r \<Longrightarrow>
       \<exists>d'. readContainerLen msgpackContainerStr d = Inr (int l, d') \<and> rb d' = r \<and> \<not> bdRead d'"
proof (cases "l < 32")
  case True
  let ?h = "0xa0 OR word_of_nat l :: byte"
  note bits = fixstr_bits [OF True]
  have "writeContainerLen False msgpackContainerStr l = [?h]"
    using True by (simp add: writeContainerLen_def msgpackContainerStr_def)
  moreover have "\<exists>d'. readContainerLen msgpackContainerStr d = Inr (int l, d') \<and> rb d' = r \<and> \<not> bdRead d'"
    if "bd d = ?h" "rb d = [] @ r" for d r
  proof -
    have "readContainerLen msgpackContainerStr d = Inr (int l, d\<lparr>bdRead := False\<rparr>)"
      using bits that
      by (simp add: readContainerLen_def dbind_def dget_def dreturn_def msgpackContainerStr_def)
    then show ?thesis using that by simp
  qed
  ultimately show thesis using bits by (intro that [of ?h "[]"]) auto
next
  case False
  define k where "k = (if l < 65536 then 2 else 4 :: nat)"
  define h where "h = (if l < 65536 then 0xda else 0xdb :: byte)"
  have l: "l < 256 ^ k" using assms by (simp add: k_def)
  have "writeContainerLen False msgpackContainerStr l = h # be_bytes k l"
    using False by (simp add: writeContainerLen_def msgpackContainerStr_def h_def k_def)
  moreover have "\<exists>d'. readContainerLen msgpackContainerStr d = Inr (int l, d') \<and> rb d' = r \<and> \<not> bdRead d'"
    if bdh: "bd d = h" and rbh: "rb d = be_bytes k l @ r" for d r
  proof -
    obtain d1 where "read_be k d = Inr (l, d1)" "rb d1 = r"
      using read_be_bytes [OF rbh l] by blast
    then have "readContainerLen msgpackContainerStr d = Inr (int l, d1\<lparr>bdRead := False\<rparr>)"
      using bdh by (auto simp: readContainerLen_def dbind_def dget_def dreturn_def
          msgpackContainerStr_def h_def k_def mpNil_def split: if_splits)
    then show ?thesis using \<open>rb d1 = r\<close> by simp
  qed
  ultimately show thesis
    by (intro that [of h "be_bytes k l"]) (auto simp: h_def mpNil_def is_bin_bd_def)
qed

lemma DecodeString_EncodeString:
  assumes "length s < 2 ^ 32" "pending d = EncodeString False raw s @ r"
  shows "\<exists>d'. DecodeString d = Inr (s, d') \<and> pending d' = r \<and> \<not> bdRead d'"
proof -
  obtain h t where ht: "writeContainerLen False msgpackContainerStr (length s) = h # t"
    "h \<noteq> mpNil" "\<not> is_bin_bd h" and len: "\<And>d r. bd d = h \<Longrightarrow> rb d = t @ r \<Longrightarrow>
       \<exists>d'. readContainerLen msgpackContainerStr d = Inr (int (length s), d') \<and> rb d' = r \<and> \<not> bdRead d'"
    using str_header [OF assms(1)] by metis
  have "pending d = h # t @ string_bytes s @ r"
    using assms(2) ht(1) by (simp add: EncodeString_def)
  then obtain d1 where d1: "need_bd d = Inr ((), d1)" "bd d1 = h" "rb d1 = t @ string_bytes s @ r"
    using need_bd_pending by blast
  then obtain d2 where d2: "readContainerLen msgpackContainerStr d1 = Inr (int (length s), d2)"
    "rb d2 = string_bytes s @ r" "\<not> bdRead d2"
    using len by blast
  then obtain d3 where d3: "readx (int (length s)) (d2\<lparr>bdRead := False\<rparr>) = Inr (string_bytes s, d3)"
    "rb d3 = r" "\<not> bdRead d3"
    using readx_append [of "d2\<lparr>bdRead := False\<rparr>" "string_bytes s" r "int (length s)"] by auto
  have "DecodeString d = Inr (s, d3)"
    using d1 d2 d3 ht(3) by (simp add: DecodeString_def DecodeBytes_def dbind_def dget_def dreturn_def)
  with d3 show ?thesis by (auto simp: pending_def)
qed

interpretation strings: wire_format "EncodeString False raw" DecodeString "\<lambda>s. length s < 2 ^ 32"
  by unfold_locales (rule DecodeString_EncodeString)

lemma EncodeString_not_nil:
  assumes "length s < 2 ^ 32"
  obtains h t where "EncodeString False raw s = h # t" "h \<noteq> mpNil"
proof -
  obtain h t where "writeContainerLen False msgpackContainerStr (length s) = h # t" "h \<noteq> mpNil"
    using str_header [OF assms] by metis
  then show thesis by (intro that [of h "t @ string_bytes s"]) (simp_all add: EncodeString_def)
qed

subsection \<open>Integers\<close>

lemma DecodeInt_64:
  assumes "pending d = b # xs"
    and body: "\<And>d1. bdRead d1 \<Longrightarrow> bd d1 = b \<Longrightarrow> rb d1 = xs \<Longrightarrow>
      \<exists>d2. int_body b d1 = Inr (i, d2) \<and> rb d2 = r"
  shows "\<exists>d'. DecodeInt 64 d = Inr (i, d') \<and> pending d' = r \<and> \<not> bdRead d'"
proof -
  obtain d1 where d1: "need_bd d = Inr ((), d1)" "bdRead d1" "bd d1 = b" "rb d1 = xs"
    using need_bd_pending [OF assms(1)] by blast
  obtain d2 where d2: "int_body b d1 = Inr (i, d2)" "rb d2 = r"
    using body [OF d1(2-4)] by blast
  have "DecodeInt 64 d = Inr (i, d2\<lparr>bdRead := False\<rparr>)"
    using d1 d2(1) by (simp add: DecodeInt_def dbind_def dget_def dreturn_def)
  then show ?thesis using d2(2) by (simp add: pending_def)
qed

lemma be_bytes_mod: "be_bytes k (n mod 256 ^ k) = be_bytes k n"
proof (induction k arbitrary: n)
  case (Suc k)
  have "n mod (256 * 256 ^ k) div 256 = n div 256 mod 256 ^ k"
    by (simp add: mod_mult2_eq)
  moreover have "(word_of_nat (n mod (256 * 256 ^ k)) :: byte) = word_of_nat n"
    by (simp add: word_of_nat_eq_iff take_bit_eq_mod mod_mod_cancel)
  ultimately show ?case by (simp add: Suc.IH)
qed simp

lemma read_be_low_bytes:
  "rb d = be_bytes k n @ r \<Longrightarrow> \<exists>d'. read_be k d = Inr (n mod 256 ^ k, d') \<and> rb d' = r"
  using read_be_bytes [of d k "n mod 256 ^ k" r] by (auto simp: be_bytes_mod)

lemma signed_low_bytes:
  fixes i :: "64 word"
  assumes "0 < k" "8 * k \<le> 64" "- (2 ^ (8 * k - 1)) \<le> sint i" "sint i < 2 ^ (8 * k - 1)"
  shows "signed_take_bit (8 * k - 1) (int (unat i mod 256 ^ k)) = sint i"
proof -
  have "int (unat i mod 256 ^ k) = take_bit (8 * k) (uint i)"
    by (simp add: take_bit_eq_mod zmod_int power_mult)
  also have "\<dots> = take_bit (8 * k) (take_bit 64 (sint i))"
    using assms(2) by (simp add: uint_sint)
  also have "\<dots> = take_bit (8 * k) (sint i)"
    using assms(2) by (simp add: min_def)
  finally have "signed_take_bit (8 * k - 1) (int (unat i mod 256 ^ k))
      = signed_take_bit (8 * k - 1) (sint i)"
    using assms(1) by (cases k) (simp_all add: signed_take_bit_take_bit)
  also have "\<dots> = sint i" using assms by (simp add: signed_take_bit_int_eq_self)
  finally show ?thesis .
qed

lemma read_signed_low_bytes:
  fixes i :: "64 word"
  assumes "rb d = be_bytes k (unat i) @ r" "0 < k" "8 * k \<le> 64"
    "- (2 ^ (8 * k - 1)) \<le> sint i" "sint i < 2 ^ (8 * k - 1)"
  shows "\<exists>d'. read_signed k d = Inr (i, d') \<and> rb d' = r"
proof -
  obtain d' where "read_be k d = Inr (unat i mod 256 ^ k, d')" "rb d' = r"
    using read_be_low_bytes [OF assms(1)] by blast
  moreover have "word_of_int (signed_take_bit (8 * k - 1) (int (unat i mod 256 ^ k))) = i"
    using signed_low_bytes [OF assms(2-)] by simp
  ultimately show ?thesis by (auto simp: read_signed_def dbind_def dreturn_def)
qed

lemma read_unsigned_low_bytes:
  assumes "rb d = be_bytes k (unat i) @ r" "unat i < 256 ^ k"
  shows "\<exists>d'. read_unsigned k d = Inr (i, d') \<and> rb d' = r"
  using read_be_low_bytes [OF assms(1)] assms(2)
  by (auto simp: read_unsigned_def dbind_def dreturn_def)

lemma one_byte: "[word_of_nat n] = be_bytes 1 n"
  by simp

lemma scast_small: "n < 128 \<Longrightarrow> (scast (word_of_nat n :: byte) :: 64 word) = word_of_nat n"
  by (simp add: scast_eq signed_of_nat signed_take_bit_int_eq_self)

lemma int_body_small: "b \<le> 0x7f \<Longrightarrow> int_body b d = Inr (scast b, d)"
  by (auto simp: int_body_def mp_consts dreturn_def)

lemma int_body_negative: "0xe0 \<le> b \<Longrightarrow> int_body b d = Inr (scast b, d)"
  by (auto simp: int_body_def mp_consts dreturn_def)

lemma DecodeInt_EncodeUint:
  assumes "pending d = EncodeUint i @ r"
  shows "\<exists>d'. DecodeInt 64 d = Inr (i, d') \<and> pending d' = r \<and> \<not> bdRead d'"
proof (cases "unat i \<le> 127")
  case True
  define n where "n = unat i"
  let ?b = "word_of_nat n :: byte"
  have n: "n \<le> 127" "word_of_nat n = i" using True by (simp_all add: n_def)
  have b: "unat ?b = n" using n by (simp add: unat_of_nat)
  then have "?b \<le> 0x7f" using n by (simp add: word_le_nat_alt)
  moreover have "(scast ?b :: 64 word) = word_of_nat n"
    using n(1) by (intro scast_small) simp
  ultimately have "int_body ?b d1 = Inr (i, d1)" for d1
    using n(2) int_body_small [of ?b] by metis
  moreover have "pending d = ?b # r" using assms True by (simp add: EncodeUint_def Let_def n_def)
  ultimately show ?thesis by (intro DecodeInt_64) auto
next
  case False
  define k where "k = (if unat i \<le> 255 then 1 else if unat i \<le> 65535 then 2
                       else if unat i \<le> 4294967295 then 4 else 8 :: nat)"
  define h where "h = (if unat i \<le> 255 then mpUint8 else if unat i \<le> 65535 then mpUint16
                       else if unat i \<le> 4294967295 then mpUint32 else mpUint64)"
  have p: "pending d = h # be_bytes k (unat i) @ r"
    using assms False by (simp add: EncodeUint_def Let_def k_def h_def)
  have "unat i < 256 ^ k" using unsigned_less [of i] by (auto simp: k_def)
  then have "\<exists>d2. int_body h d1 = Inr (i, d2) \<and> rb d2 = r"
    if "rb d1 = be_bytes k (unat i) @ r" for d1
    using read_unsigned_low_bytes [OF that] by (auto simp: int_body_def h_def k_def mp_consts)
  with p show ?thesis by (intro DecodeInt_64) auto
qed

lemma DecodeInt_EncodeInt:
  assumes "pending d = EncodeInt i @ r"
  shows "\<exists>d'. DecodeInt 64 d = Inr (i, d') \<and> pending d' = r \<and> \<not> bdRead d'"
proof -
  consider "0 \<le> sint i" | "- 32 \<le> sint i" "sint i < 0" | "sint i < - 32" by linarith
  then show ?thesis
  proof cases
    case 1
    then show ?thesis using assms by (intro DecodeInt_EncodeUint) (simp add: EncodeInt_def)
  next
    case 2
    define n where "n = unat i"
    let ?b = "word_of_nat n :: byte"
    have "sint ?b = signed_take_bit 7 (int n)" by (simp add: signed_of_nat)
    also have "\<dots> = signed_take_bit 7 (int (n mod 256))"
      using signed_take_bit_take_bit [of 7 8 "int n"] by (simp add: take_bit_eq_mod zmod_int)
    also have "\<dots> = sint i" using signed_low_bytes [of 1 i] 2 by (simp add: n_def)
    finally have b: "sint ?b = sint i" .
    then have "(scast ?b :: 64 word) = i" by (simp add: scast_eq)
    moreover have "0xe0 \<le> ?b"
    proof -
      have "uint ?b = sint ?b mod 256" by (simp add: uint_sint take_bit_eq_mod)
      also have "sint ?b mod 256 = (sint i + 256) mod 256" using b by simp
      also have "\<dots> = sint i + 256" using 2 by (intro mod_pos_pos_trivial) simp_all
      finally have "uint ?b = sint i + 256" .
      then show ?thesis using 2 by (simp add: word_le_def)
    qed
    ultimately have "int_body ?b d1 = Inr (i, d1)" for d1
      using int_body_negative [of ?b] by metis
    moreover have "pending d = ?b # r" using assms 2 by (simp add: EncodeInt_def Let_def n_def)
    ultimately show ?thesis by (intro DecodeInt_64) auto
  next
    case 3
    define k where "k = (if - 128 \<le> sint i then 1 else if - 32768 \<le> sint i then 2
                         else if - 2147483648 \<le> sint i then 4 else 8 :: nat)"
    define h where "h = (if - 128 \<le> sint i then mpInt8 else if - 32768 \<le> sint i then mpInt16
                         else if - 2147483648 \<le> sint i then mpInt32 else mpInt64)"
    have p: "pending d = h # be_bytes k (unat i) @ r"
      using assms 3 by (simp add: EncodeInt_def Let_def k_def h_def)
    have "\<exists>d2. int_body h d1 = Inr (i, d2) \<and> rb d2 = r"
      if "rb d1 = be_bytes k (unat i) @ r" for d1
      using read_signed_low_bytes [OF that] 3 sint_greater_eq [of i]
      by (auto simp: int_body_def h_def k_def mp_consts)
    with p show ?thesis by (intro DecodeInt_64) auto
  qed
qed

interpretation ints: wire_format EncodeInt "DecodeInt 64" "\<lambda>i. True"
  by unfold_locales (rule DecodeInt_EncodeInt)

lemma EncodeInt_not_nil:
  obtains h t where "EncodeInt i = h # t" "h \<noteq> mpNil"
proof -
  obtain d' where dec: "DecodeInt 64 (NewDecoderBytes (EncodeInt i)) = Inr (i, d')"
    using ints.dec_enc_new by blast
  show thesis
  proof (cases "EncodeInt i")
    case Nil
    with dec show thesis by (simp add: DecodeInt_def dbind_def need_bd_eof)
  next
    case (Cons h t)
    have "h \<noteq> mpNil"
    proof
      assume h: "h = mpNil"
      obtain d1 where "need_bd (NewDecoderBytes (EncodeInt i)) = Inr ((), d1)" "bd d1 = mpNil"
        using need_bd_pending [of "NewDecoderBytes (EncodeInt i)" h t] Cons h by auto
      with dec show False
        by (simp add: DecodeInt_def dbind_def dget_def int_body_def mp_consts errorf_def)
    qed
    with Cons that show thesis by blast
  qed
qed

subsection \<open>Struct fields\<close>

fun field_ok :: "fkind \<Rightarrow> fval \<Rightarrow> bool" where
  "field_ok KString (FString s) \<longleftrightarrow> length s < 2 ^ 32"
| "field_ok KInt (FInt i) \<longleftrightarrow> True"
| "field_ok KStringPtr (FStringPtr None) \<longleftrightarrow> True"
| "field_ok KStringPtr (FStringPtr (Some s)) \<longleftrightarrow> length s < 2 ^ 32"
| "field_ok _ _ \<longleftrightarrow> False"

lemma decode_field_string:
  assumes "length s < 2 ^ 32" "pending d = EncodeString False False s @ r"
  shows "\<exists>d1 d2. TryDecodeAsNil d = Inr (False, d1) \<and> DecodeString d1 = Inr (s, d2)
           \<and> pending d2 = r \<and> \<not> bdRead d2"
proof -
  obtain h t where "EncodeString False False s = h # t" "h \<noteq> mpNil"
    using EncodeString_not_nil [OF assms(1)] .
  then obtain d1 where "TryDecodeAsNil d = Inr (False, d1)" "pending d1 = pending d"
    using TryDecodeAsNil_other [of d h "t @ r"] assms(2) by auto
  moreover from this obtain d2 where "DecodeString d1 = Inr (s, d2)" "pending d2 = r" "\<not> bdRead d2"
    using strings.dec_enc [OF assms(1)] assms(2) by metis
  ultimately show ?thesis by blast
qed

lemma decode_field_encodeValue:
  assumes "field_ok k x" "pending d = encodeValue x @ r"
  shows "\<exists>d'. decode_field k old d = (x, Inr d') \<and> pending d' = r \<and> \<not> bdRead d'"
  using assms
proof (induction k x rule: field_ok.induct)
  case (1 s)
  then show ?case using decode_field_string [of s d r] by (auto simp: decode_field_def)
next
  case (2 i)
  obtain h t where "EncodeInt i = h # t" "h \<noteq> mpNil" using EncodeInt_not_nil .
  then obtain d1 where "TryDecodeAsNil d = Inr (False, d1)" "pending d1 = EncodeInt i @ r"
    using TryDecodeAsNil_other [of d h "t @ r"] 2 by auto
  moreover from this obtain d2 where "DecodeInt 64 d1 = Inr (i, d2)" "pending d2 = r" "\<not> bdRead d2"
    using ints.dec_enc by blast
  ultimately show ?case by (simp add: decode_field_def)
next
  case 3
  then show ?case
    using TryDecodeAsNil_nil [of d r] by (auto simp: EncodeNil_def decode_field_def)
next
  case (4 s)
  then show ?case using decode_field_string [of s d r] by (auto simp: decode_field_def)
qed simp_all

lemma decode_map_fields_encode:
  assumes "\<forall>(n, k) \<in> set fs. indexForEncName ti n = Some k \<and> field_ok k (x n) \<and> length n < 2 ^ 32"
    and "pending d = concat (map (\<lambda>(n, k). EncodeString False False n @ encodeValue (x n)) fs) @ r"
  shows "\<exists>d'. decode_map_fields ti (length fs) v d
           = (\<lambda>n. if n \<in> fst ` set fs then x n else v n, Inr d') \<and> pending d' = r"
  using assms
proof (induction fs arbitrary: v d)
  case Nil
  then show ?case by simp
next
  case (Cons f fs)
  obtain n k where f: "f = (n, k)" by (cases f)
  let ?rest = "concat (map (\<lambda>(n, k). EncodeString False False n @ encodeValue (x n)) fs) @ r"
  have p: "pending d = EncodeString False False n @ encodeValue (x n) @ ?rest"
    and ok: "indexForEncName ti n = Some k" "field_ok k (x n)" "length n < 2 ^ 32"
    using Cons.prems f by auto
  obtain d1 where d1: "DecodeString d = Inr (n, d1)" "pending d1 = encodeValue (x n) @ ?rest"
    using strings.dec_enc [OF ok(3) p] by blast
  obtain d2 where d2: "decode_field k (v n) d1 = (x n, Inr d2)" "pending d2 = ?rest"
    using decode_field_encodeValue [OF ok(2) d1(2)] by blast
  have "\<exists>d'. decode_map_fields ti (length fs) (v(n := x n)) d2
      = (\<lambda>m. if m \<in> fst ` set fs then x m else (v(n := x n)) m, Inr d') \<and> pending d' = r"
    using Cons.prems(1) d2(2) by (intro Cons.IH) simp_all
  then obtain d3 where d3: "decode_map_fields ti (length fs) (v(n := x n)) d2
      = (\<lambda>m. if m \<in> fst ` set fs then x m else (v(n := x n)) m, Inr d3)" "pending d3 = r"
    by blast
  have "decode_map_fields ti (length (f # fs)) v d
      = decode_map_fields ti (length fs) (v(n := x n)) d2"
    using d1(1) d2(1) ok(1) by simp
  also have "\<dots> = (\<lambda>m. if m \<in> fst ` set (f # fs) then x m else v m, Inr d3)"
    using d3(1) f by (auto simp: fun_eq_iff)
  finally show ?case using d3(2) by blast
qed

lemma fixmap_bits:
  "l < 16 \<Longrightarrow> ((0x80 :: byte) AND (0x80 OR word_of_nat l)) = 0x80
     \<and> unat ((0x80 :: byte) XOR (0x80 OR word_of_nat l)) = l
     \<and> is_map_bd (0x80 OR word_of_nat l) \<and> (0x80 OR word_of_nat l :: byte) \<notin> {mpNil, 0, 0xde, 0xdf}"
proof -
  have "\<forall>l \<in> set [0..<16]. ((0x80 :: byte) AND (0x80 OR word_of_nat l)) = 0x80
     \<and> unat ((0x80 :: byte) XOR (0x80 OR word_of_nat l)) = l
     \<and> is_map_bd (0x80 OR word_of_nat l) \<and> (0x80 OR word_of_nat l :: byte) \<notin> {mpNil, 0, 0xde, 0xdf}"
    by code_simp
  then show "l < 16 \<Longrightarrow> ?thesis" by auto
qed

lemma Decode_struct_encode:
  assumes "length (sfi ti) < 16" "distinct (map fst (sfi ti))"
    and "\<forall>(n, k) \<in> set (sfi ti). field_ok k (x n) \<and> length n < 2 ^ 32"
  shows "Decode_struct ti v (encode_kStruct ti x)
           = (\<lambda>n. if n \<in> fst ` set (sfi ti) then x n else v n, None)"
proof -
  let ?h = "0x80 OR word_of_nat (length (sfi ti)) :: byte"
  let ?body = "concat (map (\<lambda>(n, k). EncodeString False False n @ encodeValue (x n)) (sfi ti))"
  note bits = fixmap_bits [OF assms(1)]
  have enc: "encode_kStruct ti x = ?h # ?body"
    using assms(1) by (simp add: encode_kStruct_def EncodeMapStart_def writeContainerLen_def
        msgpackContainerMap_def)
  then obtain d1 where d1: "TryDecodeAsNil (NewDecoderBytes (encode_kStruct ti x)) = Inr (False, d1)"
    "bd d1 = ?h" "rb d1 = ?body"
    using TryDecodeAsNil_other [of "NewDecoderBytes (encode_kStruct ti x)" ?h ?body] bits by auto
  have len: "ReadMapStart d1 = Inr (int (length (sfi ti)), d1\<lparr>bdRead := False\<rparr>)"
    using bits d1(2) by (simp add: ReadMapStart_def readContainerLen_def dbind_def dget_def
        dreturn_def msgpackContainerMap_def)
  have index: "indexForEncName ti n = Some k" if "(n, k) \<in> set (sfi ti)" for n k
    using assms(2) that by (simp add: indexForEncName_def)
  have "pending (d1\<lparr>bdRead := False\<rparr>) = ?body @ []"
    using d1(3) by (simp add: pending_def)
  then obtain d2 where "decode_map_fields ti (length (sfi ti)) v (d1\<lparr>bdRead := False\<rparr>)
      = (\<lambda>n. if n \<in> fst ` set (sfi ti) then x n else v n, Inr d2)"
    using decode_map_fields_encode [of "sfi ti" ti x "d1\<lparr>bdRead := False\<rparr>" "[]" v] assms(3) index
    by (auto simp: case_prod_unfold)
  then show ?thesis
    using d1 len bits by (simp add: Decode_struct_def decode_kStruct_def)
qed

end
