(* ===== verification/MsgpackSkip.thy ===== *)
theory MsgpackSkip
  imports MsgpackWire
begin

section \<open>Skipping a value always terminates\<close>

text \<open>
  Every read leaves a shorter input, and every swallowed value uses at least its descriptor
  byte, so the recursion of \<open>swallow\<close> is bounded by the bytes that are left.
\<close>

named_theorems shrink_intros
  \<open>introduction rules for \<open>rb_shrinks\<close>\<close>

definition rb_shrinks :: "'a dec \<Rightarrow> bool" where
  "rb_shrinks m \<longleftrightarrow> (\<forall>d a d'. m d = Inr (a, d') \<longrightarrow> length (rb d') \<le> length (rb d))"

lemma rb_shrinksD: "rb_shrinks m \<Longrightarrow> m d = Inr (a, d') \<Longrightarrow> length (rb d') \<le> length (rb d)"
  by (simp add: rb_shrinks_def)

lemma rb_shrinks_dbind [shrink_intros]:
  "rb_shrinks m \<Longrightarrow> (\<And>a. rb_shrinks (f a)) \<Longrightarrow> rb_shrinks (dbind m f)"
  unfolding rb_shrinks_def dbind_eq_Inr_iff by (meson order_trans)

lemma rb_shrinks_if [shrink_intros]:
  "(c \<Longrightarrow> rb_shrinks m) \<Longrightarrow> (\<not> c \<Longrightarrow> rb_shrinks n) \<Longrightarrow> rb_shrinks (if c then m else n)"
  by simp

lemma rb_shrinks_prims [shrink_intros]:
  "rb_shrinks (dreturn a)" "rb_shrinks (dget g)" "rb_shrinks (errorf m)"
  "rb_shrinks readn1" "rb_shrinks bd_done" "rb_shrinks (readx n)"
  by (auto simp: rb_shrinks_def dreturn_def dget_def errorf_def readn1_def readx_def
      split: list.splits if_splits)

lemma rb_shrinks_need_bd [shrink_intros]: "rb_shrinks need_bd"
  by (auto simp: rb_shrinks_def need_bd_def readNextBd_def dbind_def readn1_def
      split: list.splits if_splits)

lemma rb_shrinks_reads [shrink_intros]:
  "rb_shrinks (read_be k)" "rb_shrinks (read_unsigned k)" "rb_shrinks (read_signed k)"
  "rb_shrinks readExtLen"
  unfolding read_be_def read_unsigned_def read_signed_def readExtLen_def
  by (intro shrink_intros)+

lemma rb_shrinks_readContainerLen [shrink_intros]: "rb_shrinks (readContainerLen ct)"
  unfolding readContainerLen_def by (intro shrink_intros)

lemma rb_shrinks_DecodeBytes [shrink_intros]: "rb_shrinks DecodeBytes"
  unfolding DecodeBytes_def by (intro shrink_intros)

lemma rb_shrinks_DecodeNaked [shrink_intros]: "rb_shrinks DecodeNaked"
  unfolding DecodeNaked_def naked_primitive_def by (intro shrink_intros)

text \<open>The operations that finish a value leave no descriptor byte behind.\<close>

lemma readContainerLen_clears: "readContainerLen ct d = Inr (n, d') \<Longrightarrow> \<not> bdRead d'"
  by (auto simp: readContainerLen_def dbind_eq_Inr_iff dreturn_def)

lemma DecodeBytes_clears: "DecodeBytes d = Inr (b, d') \<Longrightarrow> \<not> bdRead d'"
  by (auto simp: DecodeBytes_def dbind_eq_Inr_iff dreturn_def readx_def split: if_splits)

lemma DecodeNaked_clears:
  assumes "DecodeNaked d = Inr (v, d')" "bdRead d"
    "\<not> (is_str_bd (bd d) \<or> is_bin_bd (bd d) \<or> is_array_bd (bd d) \<or> is_map_bd (bd d))"
  shows "\<not> bdRead d'"
proof -
  have "need_bd d = Inr ((), d)" using assms(2) by (simp add: need_bd_def)
  with assms(1,3) show ?thesis
    unfolding DecodeNaked_def naked_primitive_def
    by (auto simp: dbind_eq_Inr_iff dget_def dreturn_def errorf_def split: if_splits)
qed

definition avail :: "decoder \<Rightarrow> nat" where
  "avail d = length (pending d)"

lemma TryDecodeAsNil_avail:
  "TryDecodeAsNil d = Inr (isnil, d') \<Longrightarrow>
     (if isnil then avail d' < avail d else bdRead d' \<and> avail d' \<le> avail d)"
proof (cases "pending d")
  case (Cons b r)
  then obtain d1 where "need_bd d = Inr ((), d1)" "bdRead d1" "bd d1 = b" "rb d1 = r"
    using need_bd_pending by blast
  then show "TryDecodeAsNil d = Inr (isnil, d') \<Longrightarrow> ?thesis"
    using Cons by (auto simp: TryDecodeAsNil_def dbind_def dget_def dreturn_def avail_def
        pending_def split: if_splits)
qed (simp add: TryDecodeAsNil_eof)

lemma avail_drops:
  "rb_shrinks m \<Longrightarrow> m d = Inr (a, d') \<Longrightarrow> bdRead d \<Longrightarrow> \<not> bdRead d' \<Longrightarrow> avail d' < avail d"
  using rb_shrinksD [of m d a d'] by (simp add: avail_def pending_def)

lemma swallow_many_enough:
  assumes "\<And>d. avail d < fuel \<Longrightarrow>
      \<exists>r. f d = Some r \<and> (\<forall>d'. r = Inr ((), d') \<longrightarrow> avail d' < avail d)"
    and "avail d < fuel"
  shows "\<exists>r. swallow_many f k d = Some r \<and> (\<forall>d'. r = Inr ((), d') \<longrightarrow> avail d' \<le> avail d)"
  using assms(2)
proof (induction k arbitrary: d)
  case 0
  then show ?case by simp
next
  case (Suc k)
  obtain r where r: "f d = Some r" "\<And>d'. r = Inr ((), d') \<Longrightarrow> avail d' < avail d"
    using assms(1) [OF Suc.prems] by blast
  show ?case
  proof (cases r)
    case (Inl e)
    with r(1) show ?thesis by simp
  next
    case (Inr p)
    then obtain d1 where d1: "r = Inr ((), d1)" by (cases p) auto
    then have "avail d1 < avail d" using r(2) by blast
    with Suc.IH [of d1] Suc.prems r(1) d1 show ?thesis by fastforce
  qed
qed

lemma swallow_enough:
  "avail d < fuel \<Longrightarrow>
     \<exists>r. swallow fuel d = Some r \<and> (\<forall>d'. r = Inr ((), d') \<longrightarrow> avail d' < avail d)"
proof (induction fuel arbitrary: d)
  case 0
  then show ?case by simp
next
  case (Suc fuel)
  show ?case
  proof (cases "TryDecodeAsNil d")
    case (Inl e)
    then show ?thesis by simp
  next
    case (Inr p)
    obtain isnil d1 where p: "p = (isnil, d1)" by (cases p)
    note nil = TryDecodeAsNil_avail [OF Inr [unfolded p]]
    have items: "\<exists>r. swallow_many (swallow fuel) k d2 = Some r
        \<and> (\<forall>d'. r = Inr ((), d') \<longrightarrow> avail d' < avail d)"
      if "readContainerLen ct d1 = Inr (clen, d2)" "\<not> isnil" for ct clen d2 k
    proof -
      have lt: "avail d2 < avail d1"
        using that nil avail_drops [OF rb_shrinks_readContainerLen that(1)] readContainerLen_clears
        by fastforce
      then have "avail d2 < fuel" using nil that Suc.prems by simp
      then have "\<exists>r. swallow_many (swallow fuel) k d2 = Some r
          \<and> (\<forall>d'. r = Inr ((), d') \<longrightarrow> avail d' \<le> avail d2)"
        by (intro swallow_many_enough [of fuel]) (use Suc.IH in blast)+
      with lt nil that(2) show ?thesis by fastforce
    qed
    have bytes: "avail d' < avail d" if "DecodeBytes d1 = Inr (b, d')" "\<not> isnil" for b d'
      using that nil avail_drops [OF rb_shrinks_DecodeBytes that(1)] DecodeBytes_clears
      by fastforce
    have naked: "avail d' < avail d"
      if "DecodeNaked d1 = Inr (v, d')" "\<not> isnil"
        "\<not> (is_str_bd (bd d1) \<or> is_bin_bd (bd d1) \<or> is_array_bd (bd d1) \<or> is_map_bd (bd d1))" for v d'
      using that nil avail_drops [OF rb_shrinks_DecodeNaked that(1)] DecodeNaked_clears [OF that(1)]
      by fastforce
    show ?thesis
      using Inr p nil items bytes naked
      by (cases isnil) (auto simp: ReadMapStart_def ReadArrayStart_def dbind_def dreturn_def
          split: sum.splits)
  qed
qed

lemma avail_less_swallow_fuel: "avail d < swallow_fuel d"
  by (simp add: avail_def pending_def swallow_fuel_def)

lemma swallow_total: "swallow (swallow_fuel d) d \<noteq> None"
  using swallow_enough [OF avail_less_swallow_fuel] by fastforce

lemma structFieldNotFound_progress:
  "structFieldNotFound d = Inr (u, d') \<Longrightarrow> avail d' < avail d"
  using swallow_enough [OF avail_less_swallow_fuel, of d]
  by (auto simp: structFieldNotFound_def)

end
