(* ===== verification/Message.thy ===== *)
theory Message
  imports MsgpackSkip
begin

section \<open>The payloads of queries and their responses (message.go)\<close>

text \<open>
  \<open>MessagePayload\<close> travels from the command line tool to the agents, \<open>QueryResponse\<close> back.
  Both are encoded by the codec as maps from field name to value, under the names of the
  struct tags.
\<close>

record MessagePayload =
  Target :: string
  Argument :: string

record QueryResponse =
  Output :: string
  Err :: "string option"  \<comment> \<open>a \<open>*string\<close>\<close>
  Status :: "64 word"     \<comment> \<open>an \<open>int\<close>\<close>

subsection \<open>MessagePayload\<close>

definition message_type :: typeInfo where
  "message_type =
     getTypeInfo [(''Target'', ''t'', KString), (''Argument'', ''a'', KString)]"

definition message_struct :: "MessagePayload \<Rightarrow> struct_value" where
  "message_struct m =
     (\<lambda>n. if n = ''t'' then FString (Target m) else FString (Argument m))"

fun string_field :: "fval \<Rightarrow> string" where
  "string_field (FString s) = s"
| "string_field _ = []"

definition struct_message :: "struct_value \<Rightarrow> MessagePayload" where
  "struct_message v =
     \<lparr>Target = string_field (v ''t''), Argument = string_field (v ''a'')\<rparr>"

definition DecodeMessagePayload :: "bytes \<Rightarrow> MessagePayload \<times> dec_error option" where
  "DecodeMessagePayload msg =
     (let mp = \<lparr>Target = [], Argument = []\<rparr>;
          (v, err) = Decode_struct message_type (message_struct mp) msg
      in (struct_message v, err))"

definition MessagePayload_Encode :: "MessagePayload \<Rightarrow> bytes" where
  "MessagePayload_Encode m = encode_kStruct message_type (message_struct m)"

definition MessagePayload_String :: "MessagePayload \<Rightarrow> string" where
  "MessagePayload_String m = ''target:'' @ Target m @ '' arg:'' @ Argument m"

subsection \<open>QueryResponse\<close>

definition response_type :: typeInfo where
  "response_type =
     getTypeInfo [(''Output'', [], KString), (''Err'', [], KStringPtr), (''Status'', [], KInt)]"

definition response_struct :: "QueryResponse \<Rightarrow> struct_value" where
  "response_struct q =
     (\<lambda>n. if n = ''Output'' then FString (Output q)
          else if n = ''Err'' then FStringPtr (Err q) else FInt (Status q))"

fun ptr_field :: "fval \<Rightarrow> string option" where
  "ptr_field (FStringPtr p) = p"
| "ptr_field _ = None"

fun int_field :: "fval \<Rightarrow> 64 word" where
  "int_field (FInt i) = i"
| "int_field _ = 0"

definition struct_response :: "struct_value \<Rightarrow> QueryResponse" where
  "struct_response v =
     \<lparr>Output = string_field (v ''Output''), Err = ptr_field (v ''Err''),
      Status = int_field (v ''Status'')\<rparr>"

definition zero_response :: QueryResponse where
  "zero_response = \<lparr>Output = [], Err = None, Status = 0\<rparr>"

definition DecodeQueryResponse :: "bytes \<Rightarrow> QueryResponse \<times> dec_error option" where
  "DecodeQueryResponse msg =
     (let (v, err) = Decode_struct response_type (response_struct zero_response) msg
      in (struct_response v, err))"

definition QueryResponse_Encode :: "QueryResponse \<Rightarrow> bytes" where
  "QueryResponse_Encode q = encode_kStruct response_type (response_struct q)"

subsection \<open>Both are payload codecs\<close>

text \<open>
  The contract the sender and the receiver of a payload share: what fits the wire format is
  received as it was sent.
\<close>

locale payload_codec =
  fixes encode :: "'a \<Rightarrow> bytes"
    and decode :: "bytes \<Rightarrow> 'a \<times> dec_error option"
    and fits :: "'a \<Rightarrow> bool"
  assumes decode_encode: "fits x \<Longrightarrow> decode (encode x) = (x, None)"
begin

lemma encode_inj: "fits x \<Longrightarrow> fits y \<Longrightarrow> encode x = encode y \<Longrightarrow> x = y"
  by (metis decode_encode prod.inject)

lemma encode_no_error: "fits x \<Longrightarrow> snd (decode (encode x)) = None"
  by (simp add: decode_encode)

end

definition message_fits :: "MessagePayload \<Rightarrow> bool" where
  "message_fits m \<longleftrightarrow> length (Target m) < 2 ^ 32 \<and> length (Argument m) < 2 ^ 32"

definition response_fits :: "QueryResponse \<Rightarrow> bool" where
  "response_fits q \<longleftrightarrow> length (Output q) < 2 ^ 32
     \<and> (case Err q of None \<Rightarrow> True | Some e \<Rightarrow> length e < 2 ^ 32)"

lemma sfi_message_type: "sfi message_type = [(''a'', KString), (''t'', KString)]"
  by (simp add: message_type_def getTypeInfo_def parseStructFieldInfo_def list_le_def list_less_def)

lemma sfi_response_type:
  "sfi response_type = [(''Err'', KStringPtr), (''Output'', KString), (''Status'', KInt)]"
  by (simp add: response_type_def getTypeInfo_def parseStructFieldInfo_def list_le_def list_less_def)

interpretation message: payload_codec MessagePayload_Encode DecodeMessagePayload message_fits
proof
  fix m assume "message_fits m"
  then have "Decode_struct message_type v (MessagePayload_Encode m)
      = (\<lambda>n. if n \<in> {''a'', ''t''} then message_struct m n else v n, None)" for v
    unfolding MessagePayload_Encode_def
    by (subst Decode_struct_encode) (simp_all add: sfi_message_type message_struct_def message_fits_def)
  then show "DecodeMessagePayload (MessagePayload_Encode m) = (m, None)"
    by (simp add: DecodeMessagePayload_def struct_message_def message_struct_def)
qed

lemma field_ok_ptr: "(case p of None \<Rightarrow> True | Some e \<Rightarrow> length e < 2 ^ 32) \<Longrightarrow>
    field_ok KStringPtr (FStringPtr p)"
  by (cases p) simp_all

interpretation response: payload_codec QueryResponse_Encode DecodeQueryResponse response_fits
proof
  fix q assume q: "response_fits q"
  then have "field_ok KStringPtr (FStringPtr (Err q))"
    unfolding response_fits_def by (intro field_ok_ptr) blast
  with q have "Decode_struct response_type v (QueryResponse_Encode q)
      = (\<lambda>n. if n \<in> {''Err'', ''Output'', ''Status''} then response_struct q n else v n, None)" for v
    unfolding QueryResponse_Encode_def
    by (subst Decode_struct_encode) (simp_all add: sfi_response_type response_struct_def response_fits_def)
  then show "DecodeQueryResponse (QueryResponse_Encode q) = (q, None)"
    by (simp add: DecodeQueryResponse_def struct_response_def response_struct_def)
qed

text \<open>An empty payload, which is what a receive from a closed channel yields, is refused.\<close>

lemma DecodeQueryResponse_empty: "DecodeQueryResponse [] = (zero_response, Some IoEOF)"
proof -
  have "Decode_struct response_type v [] = (v, Some IoEOF)" for v
    by (simp add: Decode_struct_def TryDecodeAsNil_eof)
  then show ?thesis
    by (simp add: DecodeQueryResponse_def struct_response_def response_struct_def zero_response_def)
qed

subsection \<open>Properties\<close>

text \<open>C4: A query payload that fits the wire format is received as it was sent.\<close>

theorem MessagePayload_roundtrip:
  "message_fits m \<Longrightarrow> DecodeMessagePayload (MessagePayload_Encode m) = (m, None)"
  by (rule message.decode_encode)

theorem MessagePayload_roundtrip_witness:
  "DecodeMessagePayload (MessagePayload_Encode \<lparr>Target = ''web'', Argument = ''v1''\<rparr>)
     = (\<lparr>Target = ''web'', Argument = ''v1''\<rparr>, None)"
  by (rule MessagePayload_roundtrip) (simp add: message_fits_def)

text \<open>A response that fits the wire format is received as it was sent, its error pointer
  included.\<close>

theorem QueryResponse_roundtrip:
  "response_fits q \<Longrightarrow> DecodeQueryResponse (QueryResponse_Encode q) = (q, None)"
  by (rule response.decode_encode)

theorem QueryResponse_roundtrip_witness:
  "DecodeQueryResponse (QueryResponse_Encode \<lparr>Output = ''out'', Err = Some ''exit status 1'', Status = 7\<rparr>)
     = (\<lparr>Output = ''out'', Err = Some ''exit status 1'', Status = 7\<rparr>, None)"
  by (rule QueryResponse_roundtrip) (simp add: response_fits_def)

end
