(* ===== verification/Runner.thy ===== *)
theory Runner
  imports GoStd
begin

section \<open>Running a target's script (cmd/cmd.go)\<close>

text \<open>
  A \<open>Runner\<close> expands a \<open>text/template\<close> script and hands it to \<open>/bin/sh -c\<close>. The
  template engine, the environment of the process and the shell are outside the program: a
  \<open>run_env\<close> holds them, and every statement below holds for any of them. Go returns the output
  buffer and an error together; a nil buffer prints as \<open><nil>\<close>.
\<close>

record Runner =
  r_target :: string
  r_scriptTemplate :: string
  r_argument :: string

record command =
  c_path :: string
  c_args :: "string list"
  c_env :: "string list"
  c_dir :: string

datatype exec_result =
    StartFailed string                  \<comment> \<open>\<open>cmd.Start\<close> failed\<close>
  | Finished string "string option"     \<comment> \<open>combined output, and the error of \<open>cmd.Wait\<close>\<close>

record 'tmpl run_env =
  template_parse :: "string \<Rightarrow> string \<Rightarrow> (string, 'tmpl) result"
  template_execute :: "'tmpl \<Rightarrow> string \<Rightarrow> (string, string) result"
  os_environ :: "string list"
  exec_command :: "command \<Rightarrow> exec_result"

text \<open>\<open>New\<close> does not store its first argument.\<close>

definition runner_New :: "string \<Rightarrow> string \<Rightarrow> string \<Rightarrow> Runner" where
  "runner_New target scriptTemplate arg =
     \<lparr>r_target = [], r_scriptTemplate = scriptTemplate, r_argument = arg\<rparr>"

definition runner_command :: "'tmpl run_env \<Rightarrow> Runner \<Rightarrow> string \<Rightarrow> command" where
  "runner_command env r script =
     \<lparr>c_path = ''/bin/sh'', c_args = [''-c'', script],
      c_env = os_environ env @ [''SERFBORT_TARGET='' @ r_target r,
                                ''SERFBORT_ARGUMENT='' @ r_argument r],
      c_dir = []\<rparr>"

definition runner_Run :: "'tmpl run_env \<Rightarrow> Runner \<Rightarrow> string option \<times> string option" where
  "runner_Run env r =
     (case template_parse env (r_target r) (r_scriptTemplate r) of
        Inl e \<Rightarrow> (None, Some e)
      | Inr tmpl \<Rightarrow>
          (case template_execute env tmpl (r_argument r) of
             Inl e \<Rightarrow> (None, Some e)
           | Inr script \<Rightarrow>
               (case exec_command env (runner_command env r script) of
                  StartFailed e \<Rightarrow> (Some [], Some e)
                | Finished out (Some e) \<Rightarrow> (Some out, Some e)
                | Finished out None \<Rightarrow> (Some out, None))))"

text \<open>\<open>(*bytes.Buffer).String\<close>\<close>

definition buffer_String :: "string option \<Rightarrow> string" where
  "buffer_String b = (case b of None \<Rightarrow> ''<nil>'' | Some s \<Rightarrow> s)"

text \<open>
  The script of a runner: what \<open>text/template\<close> makes of it, when it makes anything.
\<close>

definition expanded_script :: "'tmpl run_env \<Rightarrow> Runner \<Rightarrow> string option" where
  "expanded_script env r =
     (case template_parse env (r_target r) (r_scriptTemplate r) of
        Inl e \<Rightarrow> None
      | Inr tmpl \<Rightarrow>
          (case template_execute env tmpl (r_argument r) of Inl e \<Rightarrow> None | Inr s \<Rightarrow> Some s))"

lemma runner_Run_ok_iff:
  "runner_Run env r = (Some out, None) \<longleftrightarrow>
     (\<exists>script. expanded_script env r = Some script
        \<and> exec_command env (runner_command env r script) = Finished out None)"
  by (auto simp: runner_Run_def expanded_script_def split: sum.splits exec_result.splits option.splits)

lemma runner_Run_no_error: "snd (runner_Run env r) = None \<Longrightarrow> fst (runner_Run env r) \<noteq> None"
  by (auto simp: runner_Run_def split: sum.splits exec_result.splits option.splits)

lemma runner_Run_err_iff:
  "runner_Run env r = (out, err) \<Longrightarrow>
     err = None \<longleftrightarrow>
       (\<exists>script. expanded_script env r = Some script
          \<and> exec_command env (runner_command env r script) = Finished (buffer_String out) None)"
  using runner_Run_ok_iff [of env r] runner_Run_no_error [of env r]
  by (cases out) (auto simp: buffer_String_def runner_Run_def expanded_script_def
        split: sum.splits exec_result.splits option.splits)

text \<open>
  A template engine for the one action the program's scripts use, \<open>{{.Argument}}\<close>: literal
  text is copied, the action is replaced, anything else in double braces is a parse error. It
  instantiates the parameter in the witnesses.
\<close>

datatype piece = Lit char | ArgRef

fun simple_parse :: "string \<Rightarrow> (string, piece list) result" where
  "simple_parse [] = Inr []"
| "simple_parse (c # cs) =
     (case strip_prefix ''{{.Argument}}'' (c # cs) of
        Some _ \<Rightarrow>
          (case simple_parse (drop 12 cs) of Inl e \<Rightarrow> Inl e | Inr ps \<Rightarrow> Inr (ArgRef # ps))
      | None \<Rightarrow>
          if strip_prefix ''{{'' (c # cs) \<noteq> None then Inl ''unexpected action''
          else (case simple_parse cs of Inl e \<Rightarrow> Inl e | Inr ps \<Rightarrow> Inr (Lit c # ps)))"

definition simple_execute :: "piece list \<Rightarrow> string \<Rightarrow> (string, string) result" where
  "simple_execute ps arg =
     Inr (concat (map (\<lambda>p. case p of Lit c \<Rightarrow> [c] | ArgRef \<Rightarrow> arg) ps))"

text \<open>A shell that prints its script and fails on a script starting with \<open>false\<close>.\<close>

definition echo_shell :: "command \<Rightarrow> exec_result" where
  "echo_shell c =
     (let script = c_args c ! 1 in
      if strip_prefix ''false'' script \<noteq> None then Finished script (Some ''exit status 1'')
      else Finished script None)"

definition simple_env :: "piece list run_env" where
  "simple_env =
     \<lparr>template_parse = \<lambda>_. simple_parse, template_execute = simple_execute,
      os_environ = [''HOME=/root''], exec_command = echo_shell\<rparr>"

end
