(* ===== verification/Agent.thy ===== *)
theory Agent
  imports Message Runner SerfQuery
begin

section \<open>The agent's query handler (agent.go, config.go)\<close>

text \<open>
  An agent answers each query with one \<open>QueryResponse\<close>: it decodes the payload, looks the target
  up in its configuration, chooses the script of the action and runs it. The configuration is the
  global variable \<open>config\<close> of the program and an argument here; \<open>is_print\<close> is the
  Unicode table behind the verb \<open>%q\<close>. Log output is not modelled.
\<close>

record TargetConfig =
  DeployScript :: string
  VerifyScript :: string
  Directory :: string

record Config =
  Targets :: "string \<rightharpoonup> TargetConfig"

record 'tmpl agent_env =
  ag_run :: "'tmpl run_env"
  ag_print :: "nat \<Rightarrow> bool"

definition unknown_target_msg :: "(nat \<Rightarrow> bool) \<Rightarrow> string \<Rightarrow> string" where
  "unknown_target_msg pr t = ''No target named '' @ go_quote pr t @ '' found in config''"

definition unknown_action_msg :: "(nat \<Rightarrow> bool) \<Rightarrow> string \<Rightarrow> string \<Rightarrow> string" where
  "unknown_action_msg pr a t = ''Unknown action '' @ go_quote pr a @ '' for '' @ go_quote pr t"

definition no_script_msg :: "string \<Rightarrow> string \<Rightarrow> string" where
  "no_script_msg a t = ''No script configured to '' @ a @ '' '' @ t"

text \<open>
  \<open>query_answer\<close> is the value of \<open>resp\<close> that \<open>handleQuery\<close> passes to \<open>respondToQuery\<close> on
  each of its returns.
\<close>

definition query_answer ::
  "'tmpl agent_env \<Rightarrow> Config \<Rightarrow> string \<Rightarrow> bytes \<Rightarrow> QueryResponse" where
  "query_answer env config action payload =
     (let resp = \<lparr>Output = [], Err = None, Status = 0\<rparr>;
          (message, err) = DecodeMessagePayload payload
      in case err of
           Some e \<Rightarrow> resp\<lparr>Err := Some (err_text e)\<rparr>
         | None \<Rightarrow>
             (case Targets config (Target message) of
                None \<Rightarrow> resp\<lparr>Err := Some (unknown_target_msg (ag_print env) (Target message))\<rparr>
              | Some target \<Rightarrow>
                  if action \<noteq> ''deploy'' \<and> action \<noteq> ''verify'' then
                    resp\<lparr>Err := Some (unknown_action_msg (ag_print env) action (Target message))\<rparr>
                  else
                    (let scriptTemplate =
                           (if action = ''deploy'' then DeployScript target else VerifyScript target)
                     in if scriptTemplate = [] then
                          resp\<lparr>Err := Some (no_script_msg action (Target message))\<rparr>
                        else
                          (let runner = runner_New (Target message) scriptTemplate (Argument message);
                               (outputBuf, rerr) = runner_Run (ag_run env) runner
                           in case rerr of
                                Some e \<Rightarrow> resp\<lparr>Err := Some e, Output := buffer_String outputBuf\<rparr>
                              | None \<Rightarrow> resp\<lparr>Output := buffer_String outputBuf\<rparr>))))"

text \<open>Both errors of \<open>respondToQuery\<close> are logged and dropped.\<close>

definition respondToQuery :: "net_env \<Rightarrow> squery \<Rightarrow> QueryResponse \<Rightarrow> squery \<times> packet list" where
  "respondToQuery net q resp =
     (let (_, q', sent) = Respond net q (QueryResponse_Encode resp) in (q', sent))"

definition agent_handleQuery ::
  "'tmpl agent_env \<Rightarrow> net_env \<Rightarrow> Config \<Rightarrow> squery \<Rightarrow> squery \<times> packet list" where
  "agent_handleQuery env net config q =
     respondToQuery net q (query_answer env config (q_Name q) (q_Payload q))"

subsection \<open>The event loop\<close>

text \<open>
  \<open>HandleEvent\<close> starts a goroutine per query and only logs user events; member events are not
  looked at. \<open>EventLoop\<close> receives until the shutdown channel is closed. A run of the loop is
  the list of what its \<open>select\<close> picked; \<open>None\<close> means it is still waiting.
\<close>

datatype agent_event = EvQuery squery | EvUser string bytes | EvOther

datatype agent_log =
    LogQuery
  | LogDecodeError dec_error
  | LogNoTarget string
  | LogDeploy string TargetConfig
  | LogUnknown string

datatype loop_choice = GotEvent agent_event | GotShutdown

definition agent_HandleEvent :: "Config \<Rightarrow> agent_event \<Rightarrow> squery list \<times> agent_log list" where
  "agent_HandleEvent config e =
     (case e of
        EvQuery q \<Rightarrow> ([q], [LogQuery])
      | EvUser name payload \<Rightarrow>
          if name = ''deploy'' then
            (let (message, err) = DecodeMessagePayload payload
             in case err of
                  Some d \<Rightarrow> ([], [LogDecodeError d])
                | None \<Rightarrow>
                    (case Targets config (Target message) of
                       None \<Rightarrow> ([], [LogNoTarget (Target message)])
                     | Some target \<Rightarrow> ([], [LogDeploy (Target message) target])))
          else ([], [LogUnknown name])
      | EvOther \<Rightarrow> ([], []))"

fun agent_EventLoop :: "Config \<Rightarrow> loop_choice list \<Rightarrow> squery list \<times> bool" where
  "agent_EventLoop config [] = ([], False)"
| "agent_EventLoop config (GotShutdown # cs) = ([], True)"
| "agent_EventLoop config (GotEvent e # cs) =
     (let (started, _) = agent_HandleEvent config e;
          (rest, stopped) = agent_EventLoop config cs
      in (started @ rest, stopped))"

subsection \<open>What an agent answers\<close>

text \<open>The script an action selects; every action but two has none.\<close>

definition action_script :: "string \<Rightarrow> TargetConfig \<Rightarrow> string option" where
  "action_script action target =
     (if action = ''deploy'' then Some (DeployScript target)
      else if action = ''verify'' then Some (VerifyScript target) else None)"

lemma query_answer_cases:
  "query_answer env config action payload =
     (case DecodeMessagePayload payload of
        (m, Some e) \<Rightarrow> \<lparr>Output = [], Err = Some (err_text e), Status = 0\<rparr>
      | (m, None) \<Rightarrow>
          (case Targets config (Target m) of
             None \<Rightarrow> \<lparr>Output = [], Err = Some (unknown_target_msg (ag_print env) (Target m)), Status = 0\<rparr>
           | Some t \<Rightarrow>
               (case action_script action t of
                  None \<Rightarrow>
                    \<lparr>Output = [], Err = Some (unknown_action_msg (ag_print env) action (Target m)), Status = 0\<rparr>
                | Some script \<Rightarrow>
                    if script = [] then
                      \<lparr>Output = [], Err = Some (no_script_msg action (Target m)), Status = 0\<rparr>
                    else (case runner_Run (ag_run env) (runner_New (Target m) script (Argument m)) of
                            (out, err) \<Rightarrow> \<lparr>Output = buffer_String out, Err = err, Status = 0\<rparr>))))"
  by (auto simp: query_answer_def action_script_def Let_def split: prod.splits option.splits)

lemma query_answer_sent:
  assumes "message_fits m"
  shows "query_answer env config action (MessagePayload_Encode m) =
     (case Targets config (Target m) of
        None \<Rightarrow> \<lparr>Output = [], Err = Some (unknown_target_msg (ag_print env) (Target m)), Status = 0\<rparr>
      | Some t \<Rightarrow>
          (case action_script action t of
             None \<Rightarrow>
               \<lparr>Output = [], Err = Some (unknown_action_msg (ag_print env) action (Target m)), Status = 0\<rparr>
           | Some script \<Rightarrow>
               if script = [] then
                 \<lparr>Output = [], Err = Some (no_script_msg action (Target m)), Status = 0\<rparr>
               else (case runner_Run (ag_run env) (runner_New (Target m) script (Argument m)) of
                       (out, err) \<Rightarrow> \<lparr>Output = buffer_String out, Err = err, Status = 0\<rparr>)))"
  using message.decode_encode [OF assms] by (simp add: query_answer_cases)

lemma Status_query_answer: "Status (query_answer env config action payload) = 0"
  by (auto simp: query_answer_cases split: prod.splits option.splits)

lemma query_answer_ok:
  "Err (query_answer env config action payload) = None \<longleftrightarrow>
     (\<exists>m t script expanded.
        DecodeMessagePayload payload = (m, None) \<and> Targets config (Target m) = Some t
        \<and> action_script action t = Some script \<and> script \<noteq> []
        \<and> expanded_script (ag_run env) (runner_New (Target m) script (Argument m)) = Some expanded
        \<and> exec_command (ag_run env)
            (runner_command (ag_run env) (runner_New (Target m) script (Argument m)) expanded)
          = Finished (Output (query_answer env config action payload)) None)"
  by (auto simp: query_answer_cases runner_Run_err_iff split: prod.splits option.splits)

text \<open>
  The command a query can make the agent run: whatever the target, the shell is started in
  the agent's own directory, with an empty \<open>SERFBORT_TARGET\<close>.
\<close>

definition agent_command :: "string list \<Rightarrow> string \<Rightarrow> string \<Rightarrow> command" where
  "agent_command environ arg script =
     \<lparr>c_path = ''/bin/sh'', c_args = [''-c'', script],
      c_env = environ @ [''SERFBORT_TARGET='', ''SERFBORT_ARGUMENT='' @ arg], c_dir = []\<rparr>"

lemma runner_command_New:
  "runner_command env (runner_New target template arg) script = agent_command (os_environ env) arg script"
  by (simp add: runner_command_def runner_New_def agent_command_def)

lemma query_answer_Directory:
  "query_answer env \<lparr>Targets = map_option (\<lambda>t. t\<lparr>Directory := d t\<rparr>) \<circ> Targets config\<rparr> action payload
     = query_answer env config action payload"
  by (auto simp: query_answer_cases action_script_def split: prod.splits option.splits)

subsection \<open>The event loop\<close>

lemma agent_HandleEvent_started:
  "fst (agent_HandleEvent config e) = (case e of EvQuery q \<Rightarrow> [q] | _ \<Rightarrow> [])"
  by (auto simp: agent_HandleEvent_def Let_def split: agent_event.splits prod.splits option.splits)

fun queries_before_shutdown :: "loop_choice list \<Rightarrow> squery list" where
  "queries_before_shutdown [] = []"
| "queries_before_shutdown (GotShutdown # cs) = []"
| "queries_before_shutdown (GotEvent (EvQuery q) # cs) = q # queries_before_shutdown cs"
| "queries_before_shutdown (GotEvent _ # cs) = queries_before_shutdown cs"

lemma agent_EventLoop_started:
  "agent_EventLoop config cs = (queries_before_shutdown cs, GotShutdown \<in> set cs)"
  by (induction cs rule: queries_before_shutdown.induct)
     (auto simp: agent_HandleEvent_started case_prod_beta)

subsection \<open>Properties\<close>

definition demo_config :: Config where
  "demo_config = \<lparr>Targets = [''web'' \<mapsto> \<lparr>DeployScript = ''install {{.Argument}}'',
     VerifyScript = [], Directory = ''/srv''\<rparr>]\<rparr>"

definition demo_env :: "piece list agent_env" where
  "demo_env = \<lparr>ag_run = simple_env, ag_print = (\<lambda>n. n < 127)\<rparr>"

text \<open>C2: An agent reports success exactly when the payload decodes, its target is configured, the
  action is \<open>deploy\<close> or \<open>verify\<close> with a non-empty script, the template expands, and the shell
  that runs the expansion succeeds; the output is then the shell's.\<close>

theorem agent_reports_success_iff:
  "Err (query_answer env config action payload) = None \<longleftrightarrow>
     (\<exists>m t script expanded.
        DecodeMessagePayload payload = (m, None) \<and> Targets config (Target m) = Some t
        \<and> (action = ''deploy'' \<and> script = DeployScript t \<or> action = ''verify'' \<and> script = VerifyScript t)
        \<and> script \<noteq> []
        \<and> expanded_script (ag_run env) (runner_New (Target m) script (Argument m)) = Some expanded
        \<and> exec_command (ag_run env) (agent_command (os_environ (ag_run env)) (Argument m) expanded)
          = Finished (Output (query_answer env config action payload)) None)"
  unfolding query_answer_ok runner_command_New action_script_def by (auto split: if_splits)

text \<open>What the agent answers to a payload as the command line tool sends it, on every branch:
  unknown target, unknown action, no script, or the outcome of the run.\<close>

theorem agent_answers_sent_message:
  assumes "message_fits m"
  shows "query_answer env config action (MessagePayload_Encode m) =
     (case Targets config (Target m) of
        None \<Rightarrow> \<lparr>Output = [], Err = Some (unknown_target_msg (ag_print env) (Target m)), Status = 0\<rparr>
      | Some t \<Rightarrow>
          (case action_script action t of
             None \<Rightarrow>
               \<lparr>Output = [], Err = Some (unknown_action_msg (ag_print env) action (Target m)), Status = 0\<rparr>
           | Some script \<Rightarrow>
               if script = [] then
                 \<lparr>Output = [], Err = Some (no_script_msg action (Target m)), Status = 0\<rparr>
               else (case runner_Run (ag_run env) (runner_New (Target m) script (Argument m)) of
                       (out, err) \<Rightarrow> \<lparr>Output = buffer_String out, Err = err, Status = 0\<rparr>)))"
  by (rule query_answer_sent [OF assms])

theorem agent_answers_sent_message_witness:
  "query_answer demo_env demo_config ''deploy''
     (MessagePayload_Encode \<lparr>Target = ''web'', Argument = ''v1''\<rparr>)
   = \<lparr>Output = ''install v1'', Err = None, Status = 0\<rparr>"
proof -
  have "message_fits \<lparr>Target = ''web'', Argument = ''v1''\<rparr>" by (simp add: message_fits_def)
  from agent_answers_sent_message [OF this, of demo_env demo_config "''deploy''"] show ?thesis
    by (simp add: demo_config_def demo_env_def action_script_def runner_Run_def simple_env_def
        simple_execute_def runner_New_def runner_command_def echo_shell_def buffer_String_def)
qed

text \<open>No answer of an agent carries a status other than 0, and the action \<open>stage\<close>, which the
  command line offers, is never answered with success.\<close>

theorem agent_status_and_stage:
  "Status (query_answer env config action payload) = 0
   \<and> Err (query_answer env config ''stage'' payload) \<noteq> None"
  by (simp add: Status_query_answer query_answer_ok action_script_def)

fun handle_repeatedly ::
  "('tmpl agent_env \<times> net_env \<times> Config) list \<Rightarrow> squery \<Rightarrow> squery \<times> packet list" where
  "handle_repeatedly [] q = (q, [])"
| "handle_repeatedly ((env, net, config) # runs) q =
     (let (q', sent) = agent_handleQuery env net config q;
          (q'', more_sent) = handle_repeatedly runs q'
      in (q'', sent @ more_sent))"

lemma agent_handleQuery_sent:
  "agent_handleQuery env net config q = (q', sent) \<Longrightarrow>
     (sent = [] \<and> q' = q) \<or> (\<exists>p. sent = [p]) \<and> q_deadline q' = None"
  unfolding agent_handleQuery_def respondToQuery_def
  by (auto split: prod.splits option.splits dest!: Respond_sent)

lemma handle_repeatedly_answered: "q_deadline q = None \<Longrightarrow> handle_repeatedly runs q = (q, [])"
  by (induction runs q rule: handle_repeatedly.induct)
     (auto simp: agent_handleQuery_def respondToQuery_def Respond_def)

text \<open>Handling a query any number of times, in whatever environments, puts at most one answer
  on the network.\<close>

theorem agent_answers_at_most_once: "length (snd (handle_repeatedly runs q)) \<le> 1"
proof (induction runs q rule: handle_repeatedly.induct)
  case (2 env net config runs q)
  obtain q' sent where h: "agent_handleQuery env net config q = (q', sent)" by force
  from agent_handleQuery_sent [OF h] 2 [OF h [symmetric]] show ?case
    by (auto simp: h case_prod_beta handle_repeatedly_answered)
qed simp

text \<open>An answer whose message is longer than 1024 bytes is dropped: nothing is sent.\<close>

theorem oversized_answer_dropped:
  assumes "ne_encode net (response_message net q
             (QueryResponse_Encode (query_answer env config (q_Name q) (q_Payload q)))) = Inr raw"
    and "1024 < length raw"
  shows "agent_handleQuery env net config q = (q, [])"
  using assms
  by (auto simp: agent_handleQuery_def respondToQuery_def Respond_def QueryResponseSizeLimit_def
      split: option.splits)

definition demo_net :: net_env where
  "demo_net = \<lparr>ne_now = 0, ne_node = ''n1'', ne_encode = (\<lambda>m. Inr (replicate 2000 0)), ne_send = (\<lambda>_. None)\<rparr>"

definition demo_query :: squery where
  "demo_query = \<lparr>q_LTime = 1, q_Name = ''deploy'', q_Payload = [], q_id = 5, q_addr = [127, 0, 0, 1],
     q_port = 7946, q_deadline = Some 10\<rparr>"

theorem oversized_answer_dropped_witness:
  "agent_handleQuery demo_env demo_net demo_config demo_query = (demo_query, [])"
proof (rule oversized_answer_dropped)
  show "ne_encode demo_net (response_message demo_net demo_query
      (QueryResponse_Encode (query_answer demo_env demo_config (q_Name demo_query) (q_Payload demo_query))))
    = Inr (replicate 2000 0)"
    by (simp add: demo_net_def)
  show "1024 < length (replicate 2000 (0 :: byte))"
    unfolding length_replicate by simp
qed

text \<open>The directory configured for a target has no effect on any answer.\<close>

theorem directory_has_no_effect:
  "query_answer env \<lparr>Targets = map_option (\<lambda>t. t\<lparr>Directory := d t\<rparr>) \<circ> Targets config\<rparr> action payload
     = query_answer env config action payload"
  by (rule query_answer_Directory)

text \<open>The event loop starts one handler for every query received before the shutdown, in
  order, and ends exactly when it sees the shutdown.\<close>

theorem event_loop_starts_queries:
  "agent_EventLoop config cs = (queries_before_shutdown cs, GotShutdown \<in> set cs)"
  by (rule agent_EventLoop_started)

end
