(* ===== verification/Program.thy ===== *)
theory Program
  imports Cli Util Agent
begin

section \<open>The program's commands and how it starts (main.go, file_load.go, master.go, agent.go)\<close>

subsection \<open>The command table\<close>

datatype before_hook = HookLoadConfig

datatype action_fn = ActStartMaster | ActStartAgent | ActDoQuery string | ActDoClusterStatus

type_synonym serfbort_command = "(before_hook, action_fn) Command"

definition seconds :: "int \<Rightarrow> int" where "seconds n = n * 1000000000"

definition global_flags :: "Flag list" where
  "global_flags =
     [StringFlag ''config'' [] ''JSON config describing deploy targets, commands, etc''
        ''SERFBORT_CONFIG'',
      StringFlag ''rpc'' ''localhost:7373''
        ''Listen on the address for RPC requests (i.e. from deploy command)'' [],
      StringFlag ''rpc-auth'' [] ''Auth token to use for RPC'' []]"

definition mk_command ::
  "string \<Rightarrow> Flag list \<Rightarrow> before_hook option \<Rightarrow> action_fn \<Rightarrow> serfbort_command" where
  "mk_command name flags before action =
     \<lparr>cmd_Name = name, cmd_ShortName = [], cmd_Aliases = [], cmd_Before = before,
      cmd_Action = UserAction action, cmd_Flags = flags, cmd_SkipFlagParsing = False,
      cmd_HideHelp = False\<rparr>"

definition master_flags :: "string \<Rightarrow> Flag list" where
  "master_flags hostname =
     [StringFlag ''name'' hostname ''Name to use in serf protocol'' [],
      StringFlag ''master'' ''localhost:7946''
        ''Join the cluster by coordinating with this master'' [],
      StringFlag ''listen'' ''localhost:7946''
        ''Listen on the address for serf communication'' []]"

definition agent_flags :: "string \<Rightarrow> Flag list" where
  "agent_flags hostname =
     [StringFlag ''master'' ''localhost:7946''
        ''Join the cluster by coordinating with this master'' [],
      StringFlag ''listen'' ''localhost:7947''
        ''Listen on the address for serf communication'' [],
      StringFlag ''name'' hostname ''Name to use in serf protocol'' [],
      StringFlag ''tags-file'' [] ''Load tags for agent from file (json format)'' []]"

definition tag_usage :: "string \<Rightarrow> string" where
  "tag_usage what = what @ '' (tag=value) (can be a regexp like \"val.*\", and passed multiple times)''"

definition query_flags :: "string \<Rightarrow> string \<Rightarrow> Flag list" where
  "query_flags hosts_usage what =
     [StringFlag ''hosts'' [] hosts_usage [],
      StringSliceFlag ''tag'' None (tag_usage what) [],
      DurationFlag ''timeout'' (seconds 10) ''Timeout duration'' []]"

definition status_hosts_usage :: string where
  "status_hosts_usage = ''Only check status of these hosts (comma separated list)''"

definition serfbort_app :: "string \<Rightarrow> (before_hook, action_fn) App" where
  "serfbort_app hostname =
     \<lparr>app_Commands =
        [mk_command ''master'' (master_flags hostname) None ActStartMaster,
         mk_command ''agent'' (agent_flags hostname) (Some HookLoadConfig) ActStartAgent,
         mk_command ''deploy''
           (query_flags status_hosts_usage ''Restrict deploy by requiring tag on host'')
           (Some HookLoadConfig) (ActDoQuery ''deploy''),
         mk_command ''stage''
           (query_flags status_hosts_usage ''Restrict stage by requiring tag on host'')
           (Some HookLoadConfig) (ActDoQuery ''stage''),
         mk_command ''verify''
           (query_flags ''Only verify these hosts (comma separated list)''
              ''Restrict verify by requiring tag on host'')
           (Some HookLoadConfig) (ActDoQuery ''verify''),
         mk_command ''cluster-status''
           [StringFlag ''hosts'' [] status_hosts_usage [],
            StringSliceFlag ''tag'' None (tag_usage ''Only show status of hosts with tag'') []]
           None ActDoClusterStatus],
      app_Flags = global_flags, app_HideHelp = False, app_HideVersion = False\<rparr>"

subsection \<open>Files\<close>

text \<open>
  The file system and \<open>encoding/json\<close> are parameters. \<open>json.Unmarshal\<close> fills its argument as
  far as it gets, so it returns the value together with the error; \<open>None\<close> for the tags is a
  nil map, which the document \<open>null\<close> produces.
\<close>

record os_env =
  os_Stat :: "string \<Rightarrow> string option"
  os_ReadFile :: "string \<Rightarrow> (string, bytes) result"
  json_tags :: "bytes \<Rightarrow> (string \<rightharpoonup> string) option \<times> string option"
  json_config :: "bytes \<Rightarrow> Config \<times> string option"

definition loadTagsFromFile :: "os_env \<Rightarrow> string \<Rightarrow> (string \<rightharpoonup> string) option \<times> string option" where
  "loadTagsFromFile os fileName =
     (case os_Stat os fileName of
        Some _ \<Rightarrow> (Some Map.empty, None)
      | None \<Rightarrow>
          (case os_ReadFile os fileName of
             Inl e \<Rightarrow> (Some Map.empty, Some (''Failed to read tags file: '' @ e))
           | Inr tagData \<Rightarrow>
               (let (tags, err) = json_tags os tagData in
                case err of
                  Some e \<Rightarrow> (tags, Some (''Failed to decode tags file: '' @ e))
                | None \<Rightarrow> (tags, None))))"

definition loadConfigFromFile :: "os_env \<Rightarrow> string \<Rightarrow> Config \<times> string option" where
  "loadConfigFromFile os configFile =
     (let cfg = \<lparr>Targets = Map.empty\<rparr> in
      case os_Stat os configFile of
        Some e \<Rightarrow> (cfg, Some e)
      | None \<Rightarrow>
          (case os_ReadFile os configFile of
             Inl e \<Rightarrow> (cfg, Some e)
           | Inr configRaw \<Rightarrow>
               (let (cfg', err) = json_config os configRaw in
                case err of Some e \<Rightarrow> (cfg', Some e) | None \<Rightarrow> (cfg', None))))"

subsection \<open>main and LoadConfig\<close>

datatype main_result =
    MainPanic
  | MainHelp "(before_hook, action_fn) outcome"
  | MainFatal string
  | MainAction action_fn Context Config

definition LoadConfig :: "cli_env \<Rightarrow> os_env \<Rightarrow> Context \<Rightarrow> (string, Config) result \<times> Context" where
  "LoadConfig env os c =
     (let (set, c') = GlobalIsSet c ''config'' in
      if \<not> set then (Inl ''config is required'', c')
      else (let configFile = GlobalString env c' ''config'';
                (cfg, err) = loadConfigFromFile os configFile
            in case err of
                 Some e \<Rightarrow> (Inl (''Unable to load config: '' @ e), c')
               | None \<Rightarrow> (Inr cfg, c')))"

definition program_main :: "cli_env \<Rightarrow> os_env \<Rightarrow> string \<Rightarrow> string list \<Rightarrow> main_result" where
  "program_main env os hostname args =
     (case App_Run env (serfbort_app hostname) args of
        FlagRedefined \<Rightarrow> MainPanic
      | Invoke None action c \<Rightarrow> MainAction action c \<lparr>Targets = Map.empty\<rparr>
      | Invoke (Some HookLoadConfig) action c \<Rightarrow>
          (case LoadConfig env os c of
             (Inl e, _) \<Rightarrow> MainFatal e
           | (Inr cfg, c') \<Rightarrow> MainAction action c' cfg)
      | out \<Rightarrow> MainHelp out)"

subsection \<open>Starting an agent and a master\<close>

text \<open>
  What the two commands hand to Serf, and why they may stop before. Creating the Serf
  instance, starting it and joining the cluster are the network's business and parameters.
\<close>

record serf_setup =
  su_BindAddr :: string
  su_BindPort :: "64 word"
  su_SecretKey :: "bytes option"
  su_Tags :: "string \<rightharpoonup> string"
  su_NodeName :: "string option"

datatype start_fatal =
    BadListen string
  | BadPort string
  | BadKey
  | BadTagsFile string
  | CreateFailed string
  | StartFailedWith string
  | JoinFailed string
  | RpcListenFailed string

record serf_lib =
  sl_Create :: "serf_setup \<Rightarrow> string option"
  sl_Start :: "serf_setup \<Rightarrow> string option"
  sl_Join :: "serf_setup \<Rightarrow> string \<Rightarrow> string option"
  sl_Listen :: "string \<Rightarrow> string option"

definition parse_listen :: "string \<Rightarrow> (start_fatal, string \<times> 64 word) result" where
  "parse_listen listenAddress =
     (case split_on (CHR '':'') listenAddress of
        [addr, port] \<Rightarrow>
          (case atoi port of
             None \<Rightarrow> Inl (BadPort port)
           | Some p \<Rightarrow> Inr (addr, word_of_int p))
      | _ \<Rightarrow> Inl (BadListen listenAddress))"

definition StartAgent ::
  "cli_env \<Rightarrow> os_env \<Rightarrow> serf_lib \<Rightarrow> Context \<Rightarrow> (start_fatal, serf_setup) result" where
  "StartAgent env os lib c =
     rbind (parse_listen (lookupString env ''listen'' (ctx_flagSet c))) (\<lambda>(bindAddr, bindPort).
     rbind (if fst (GlobalIsSet c ''rpc-auth'')
            then (case keyToBytes (GlobalString env c ''rpc-auth'') of
                    None \<Rightarrow> Inl BadKey | Some k \<Rightarrow> Inr (Some k))
            else Inr None) (\<lambda>key.
     rbind (if ctx_IsSet c ''tags-file''
            then (case loadTagsFromFile os (lookupString env ''tags-file'' (ctx_flagSet c)) of
                    (_, Some e) \<Rightarrow> Inl (BadTagsFile e)
                  | (tags, None) \<Rightarrow> Inr (case tags of None \<Rightarrow> Map.empty | Some t \<Rightarrow> t))
            else Inr Map.empty) (\<lambda>tags.
     let setup = \<lparr>su_BindAddr = bindAddr, su_BindPort = bindPort, su_SecretKey = key,
                  su_Tags = tags(''agent'' \<mapsto> ''true''),
                  su_NodeName = (if ctx_IsSet c ''name''
                                 then Some (lookupString env ''name'' (ctx_flagSet c)) else None)\<rparr>
     in case sl_Create lib setup of
          Some e \<Rightarrow> Inl (CreateFailed e)
        | None \<Rightarrow>
            (case sl_Join lib setup (lookupString env ''master'' (ctx_flagSet c)) of
               Some e \<Rightarrow> Inl (JoinFailed e)
             | None \<Rightarrow> Inr setup))))"

definition StartMaster ::
  "cli_env \<Rightarrow> serf_lib \<Rightarrow> Context \<Rightarrow> (start_fatal, serf_setup) result" where
  "StartMaster env lib c =
     rbind (parse_listen (lookupString env ''listen'' (ctx_flagSet c))) (\<lambda>(bindAddr, bindPort).
     let setup = \<lparr>su_BindAddr = bindAddr, su_BindPort = bindPort, su_SecretKey = None,
                  su_Tags = [''master'' \<mapsto> ''true''],
                  su_NodeName = (if ctx_IsSet c ''name''
                                 then Some (lookupString env ''name'' (ctx_flagSet c)) else None)\<rparr>
     in case sl_Create lib setup of
          Some e \<Rightarrow> Inl (CreateFailed e)
        | None \<Rightarrow>
            (case sl_Start lib setup of
               Some e \<Rightarrow> Inl (StartFailedWith e)
             | None \<Rightarrow>
                 (case sl_Join lib setup (lookupString env ''master'' (ctx_flagSet c)) of
                    Some e \<Rightarrow> Inl (JoinFailed e)
                  | None \<Rightarrow>
                      (case sl_Listen lib (GlobalString env c ''rpc'') of
                         Some e \<Rightarrow> Inl (RpcListenFailed e)
                       | None \<Rightarrow> Inr setup))))"

text \<open>
  The master only logs events; it goes on after a decoding error and prints what it decoded.
\<close>

datatype master_event =
    MQuery string bytes
  | MUser string bytes
  | MMember "string list"
  | MOther string

datatype master_log =
    MLogDecodeError dec_error
  | MLogQuery string string
  | MLogUser string bytes
  | MLogMembers "string list"
  | MLogOther string

definition MasterEventHandler_HandleEvent :: "master_event \<Rightarrow> master_log list" where
  "MasterEventHandler_HandleEvent e =
     (case e of
        MQuery name payload \<Rightarrow>
          (let (message, err) = DecodeMessagePayload payload in
           (case err of Some d \<Rightarrow> [MLogDecodeError d] | None \<Rightarrow> [])
             @ [MLogQuery name (Argument message)])
      | MUser name payload \<Rightarrow> [MLogUser name payload]
      | MMember ms \<Rightarrow> [MLogMembers ms]
      | MOther t \<Rightarrow> [MLogOther t])"

subsection \<open>The flag sets of the program\<close>

definition app_FlagSet :: "cli_env \<Rightarrow> FlagSet" where
  "app_FlagSet env =
     new_FlagSet\<lparr>fs_formal := Map.empty(''config'' \<mapsto> ''config'', ''rpc'' \<mapsto> ''rpc'', ''rpc-auth'' \<mapsto> ''rpc-auth'',
        ''help'' \<mapsto> ''help'', ''h'' \<mapsto> ''h'', ''version'' \<mapsto> ''version'', ''v'' \<mapsto> ''v''),
      fs_cell := Map.empty(''config'' \<mapsto> flag_default env (global_flags ! 0),
                  ''rpc'' \<mapsto> VString ''localhost:7373'', ''rpc-auth'' \<mapsto> VString [],
                  ''help'' \<mapsto> VBool False, ''h'' \<mapsto> VBool False,
                  ''version'' \<mapsto> VBool False, ''v'' \<mapsto> VBool False)\<rparr>"

lemma flagSet_app: "flagSet env (appendFlag VersionFlag (appendFlag HelpFlag global_flags)) = Some (app_FlagSet env)"
  by (simp add: flagSet_def appendFlag_def global_flags_def HelpFlag_def VersionFlag_def
     Apply_def flag_names_def trim_blanks_def fs_Var_def new_FlagSet_def app_FlagSet_def)
definition global_opts :: "(string \<times> string) list \<Rightarrow> bool" where
  "global_opts gopts \<longleftrightarrow> fst ` set gopts \<subseteq> {''config'', ''rpc'', ''rpc-auth''}"

definition app_set :: "cli_env \<Rightarrow> (string \<times> string) list \<Rightarrow> string list \<Rightarrow> FlagSet" where
  "app_set env gopts args =
     (app_FlagSet env)\<lparr>fs_cell := fs_cell (app_FlagSet env) ++ map_of (rev (map (\<lambda>(n, v). (n, VString v)) gopts)),
       fs_actual := fst ` set gopts, fs_args := args\<rparr>"

lemma Parse_app:
  assumes "global_opts gopts" "rest = [] \<or> positional (hd rest)"
  shows "fs_Parse env (app_FlagSet env) (render_options gopts @ rest) = (app_set env gopts rest, None)"
proof -
  have n: "n \<in> {''config'', ''rpc'', ''rpc-auth''}" if "(n, v) \<in> set gopts" for n v
    using that assms(1) by (force simp: global_opts_def)
  have "set_all env gopts (app_FlagSet env) = Some ((app_FlagSet env)\<lparr>
      fs_cell := fs_cell (app_FlagSet env) ++ map_of (rev (map (\<lambda>(n, v). (n, VString v)) gopts)),
      fs_actual := fs_actual (app_FlagSet env) \<union> fst ` set gopts\<rparr>)"
  proof (intro set_all_strings ballI, clarify)
    fix n v assume "(n, v) \<in> set gopts"
    from n [OF this] show "fs_formal (app_FlagSet env) n = Some n
        \<and> (\<exists>s. fs_cell (app_FlagSet env) n = Some (VString s))"
      by (auto simp: app_FlagSet_def global_flags_def)
  qed
  moreover have "\<forall>(n, _) \<in> set gopts. plain_name n \<and> takes_value (app_FlagSet env) n"
  proof clarify
    fix n v assume "(n, v) \<in> set gopts"
    from n [OF this] show "plain_name n \<and> takes_value (app_FlagSet env) n"
      by (auto simp: app_FlagSet_def global_flags_def plain_name_def takes_value_def fs_Lookup_def
          is_bool_value_def)
  qed
  ultimately have "fs_Parse env (app_FlagSet env) (render_options gopts @ rest) =
      fs_Parse env ((app_FlagSet env)\<lparr>
      fs_cell := fs_cell (app_FlagSet env) ++ map_of (rev (map (\<lambda>(n, v). (n, VString v)) gopts)),
      fs_actual := fs_actual (app_FlagSet env) \<union> fst ` set gopts\<rparr>) rest"
    by (intro fs_Parse_options)
  then show ?thesis
    using assms(2) by (simp add: fs_Parse_positional app_set_def app_FlagSet_def new_FlagSet_def)
qed

lemma app_set_cell:
  assumes "global_opts gopts" "n \<notin> {''config'', ''rpc'', ''rpc-auth''}"
  shows "fs_cell (app_set env gopts args) n = fs_cell (app_FlagSet env) n"
proof -
  have "map_of (rev (map (\<lambda>(n, v). (n, VString v)) gopts)) n = None"
    using assms by (auto simp: map_of_eq_None_iff global_opts_def image_image case_prod_beta)
  then show ?thesis by (simp add: app_set_def map_add_def)
qed

lemma app_set_simps [simp]:
  "fs_formal (app_set env gopts args) = fs_formal (app_FlagSet env)"
  "fs_actual (app_set env gopts args) = fst ` set gopts"
  "fs_args (app_set env gopts args) = args"
  by (simp_all add: app_set_def)

lemma lookupBool_app_set:
  "global_opts gopts \<Longrightarrow> n \<in> {''help'', ''h'', ''version'', ''v''} \<Longrightarrow>
     lookupBool env n (app_set env gopts args) = False"
proof -
  assume g: "global_opts gopts" and n: "n \<in> {''help'', ''h'', ''version'', ''v''}"
  then have "n \<notin> {''config'', ''rpc'', ''rpc-auth''}" by auto
  then have "fs_cell (app_set env gopts args) n = fs_cell (app_FlagSet env) n"
    by (rule app_set_cell [OF g])
  moreover have "fs_cell (app_FlagSet env) n = Some (VBool False)" "fs_formal (app_FlagSet env) n = Some n"
    using n by (auto simp: app_FlagSet_def)
  ultimately show ?thesis by (simp add: lookupBool_def fs_Lookup_def parse_bool_def)
qed

lemma serfbort_app_simps [simp]:
  "app_Flags (serfbort_app host) = global_flags"
  "app_HideHelp (serfbort_app host) = False"
  "app_HideVersion (serfbort_app host) = False"
  by (simp_all add: serfbort_app_def)

definition with_help :: "string \<Rightarrow> (before_hook, action_fn) App" where
  "with_help host = (serfbort_app host)\<lparr>app_Commands := app_Commands (serfbort_app host) @ [helpCommand],
     app_Flags := appendFlag HelpFlag global_flags\<rparr>"

lemma App_Run_command:
  assumes "global_opts gopts" "positional cmd"
  shows "App_Run env (serfbort_app host) (prog # render_options gopts @ cmd # rest) =
     (case app_Command (with_help host) cmd of
        Some c \<Rightarrow> Command_Run env c (NewContext (app_set env gopts (cmd # rest)) [])
      | None \<Rightarrow> AppHelp)"
proof -
  have none: "app_Command (serfbort_app host) (cmd_Name (helpCommand :: (before_hook, action_fn) Command)) = None"
    by (simp add: app_Command_def serfbort_app_def HasName_def cmd_Names_def mk_command_def helpCommand_def)
  have "{''config'', ''rpc'', ''rpc-auth''} \<inter> {''help'', ''h'', ''version'', ''v''} = ({} :: string set)"
    by simp
  then have disj: "{''help'', ''h'', ''version'', ''v''} \<inter> fst ` set gopts = {}"
    using assms(1) unfolding global_opts_def by blast
  have names: "length (flag_names (getName f)) = 1 \<or> set (flag_names (getName f)) \<subseteq> {''help'', ''h'', ''version'', ''v''}"
    if "f \<in> set (appendFlag VersionFlag (appendFlag HelpFlag global_flags))" for f
    using that by (auto simp: appendFlag_def HelpFlag_def VersionFlag_def global_flags_def flag_names_def
          trim_blanks_def)
  have norm: "normalizeFlags env (appendFlag VersionFlag (appendFlag HelpFlag global_flags))
      (app_set env gopts (cmd # rest)) = (app_set env gopts (cmd # rest), None)"
  proof (rule normalizeFlags_untouched, intro ballI)
    fix f assume "f \<in> set (appendFlag VersionFlag (appendFlag HelpFlag global_flags))"
    from disjoint_part [OF names [OF this] disj]
    show "length (flag_names (getName f)) = 1 \<or>
        set (flag_names (getName f)) \<inter> fs_actual (app_set env gopts (cmd # rest)) = {}"
      unfolding app_set_simps .
  qed
  have "App_Run env (serfbort_app host) (prog # render_options gopts @ cmd # rest) =
      (let context = NewContext (app_set env gopts (cmd # rest)) [] in
       if checkHelp env context then AppHelp
       else if checkVersion env context then VersionPrinted
       else (case app_Command (with_help host) cmd of
               Some c \<Rightarrow> Command_Run env c context | None \<Rightarrow> AppHelp))"
    using none by (simp add: App_Run_def Let_def flagSet_app [simplified] Parse_app assms norm with_help_def
        ctx_Args_def)
  then show ?thesis
    using assms(1) by (simp add: checkHelp_def checkVersion_def GlobalBool_top lookupBool_app_set Let_def)
qed
end
