(* ===== verification/CommandLine.thy ===== *)
theory CommandLine
  imports Program
begin

section \<open>From the command line to the program's actions\<close>

text \<open>
  What the options of a command line come to once \<open>App.Run\<close> has dispatched it: which values
  reach the action, which options are ignored, and when the program stops before it.
\<close>

definition opt_values :: "string \<Rightarrow> (string \<times> string) list \<Rightarrow> string list" where
  "opt_values n opts = map snd (filter (\<lambda>o'. fst o' = n) opts)"

lemma opt_values_simps [simp]:
  "opt_values n [] = []"
  "opt_values n ((m, v) # opts) = (if m = n then v # opt_values n opts else opt_values n opts)"
  by (simp_all add: opt_values_def)

lemma opt_values_empty: "n \<notin> fst ` set opts \<Longrightarrow> opt_values n opts = []"
  by (force simp: opt_values_def filter_empty_conv)

lemma fs_Set_String:
  "fs_formal fs n = Some n \<Longrightarrow> fs_cell fs n = Some (VString s) \<Longrightarrow>
   fs_Set env n v fs = Some (fs\<lparr>fs_cell := (fs_cell fs)(n \<mapsto> VString v), fs_actual := insert n (fs_actual fs)\<rparr>)"
  by (simp add: fs_Set_def)

lemma fs_Set_Slice:
  "fs_formal fs n = Some n \<Longrightarrow> fs_cell fs n = Some (VSlice l) \<Longrightarrow>
   fs_Set env n v fs = Some (fs\<lparr>fs_cell := (fs_cell fs)(n \<mapsto> VSlice (l @ [v])), fs_actual := insert n (fs_actual fs)\<rparr>)"
  by (simp add: fs_Set_def)

lemma fs_Set_Duration:
  "fs_formal fs n = Some n \<Longrightarrow> fs_cell fs n = Some (VDuration d) \<Longrightarrow> parse_duration env v = Some d' \<Longrightarrow>
   fs_Set env n v fs = Some (fs\<lparr>fs_cell := (fs_cell fs)(n \<mapsto> VDuration d'), fs_actual := insert n (fs_actual fs)\<rparr>)"
  by (simp add: fs_Set_def)

text \<open>A flag set that holds the three query options, with given values.\<close>

definition holds_query :: "FlagSet \<Rightarrow> string \<Rightarrow> string list \<Rightarrow> int \<Rightarrow> bool" where
  "holds_query fs h ts d \<longleftrightarrow>
     fs_formal fs ''hosts'' = Some ''hosts'' \<and> fs_cell fs ''hosts'' = Some (VString h)
     \<and> fs_formal fs ''tag'' = Some ''tag'' \<and> fs_cell fs ''tag'' = Some (VSlice ts)
     \<and> fs_formal fs ''timeout'' = Some ''timeout'' \<and> fs_cell fs ''timeout'' = Some (VDuration d)"

definition option_ok :: "cli_env \<Rightarrow> string \<times> string \<Rightarrow> bool" where
  "option_ok env o' \<longleftrightarrow> fst o' = ''hosts'' \<or> fst o' = ''tag''
     \<or> (fst o' = ''timeout'' \<and> parse_duration env (snd o') \<noteq> None)"

definition timeout_value :: "cli_env \<Rightarrow> (string \<times> string) list \<Rightarrow> int \<Rightarrow> int" where
  "timeout_value env opts d = last (d # map (the \<circ> parse_duration env) (opt_values ''timeout'' opts))"

lemma set_all_query:
  "holds_query fs h ts d \<Longrightarrow> \<forall>o' \<in> set opts. option_ok env o' \<Longrightarrow>
   \<exists>fs'. set_all env opts fs = Some fs' \<and> fs_formal fs' = fs_formal fs \<and> fs_args fs' = fs_args fs
     \<and> holds_query fs' (last (h # opt_values ''hosts'' opts)) (ts @ opt_values ''tag'' opts)
         (timeout_value env opts d)"
proof (induction opts arbitrary: fs h ts d)
  case Nil
  then show ?case by (simp add: timeout_value_def)
next
  case (Cons o1 opts)
  obtain n v where o1: "o1 = (n, v)" by (cases o1)
  let ?set = "\<lambda>fs1 h1 ts1 d1. fs_Set env n v fs = Some fs1 \<and> fs_formal fs1 = fs_formal fs
    \<and> fs_args fs1 = fs_args fs \<and> holds_query fs1 h1 ts1 d1"
  have ok: "option_ok env (n, v)" using Cons.prems(2) o1 by simp
  consider "n = ''hosts''" | "n = ''tag''" | d' where "n = ''timeout''" "parse_duration env v = Some d'"
    using ok by (auto simp: option_ok_def)
  then show ?case
  proof cases
    case 1
    then obtain fs1 where fs1: "?set fs1 v ts d"
      using Cons.prems(1) by (simp add: fs_Set_def holds_query_def)
    from Cons.IH [of fs1 v ts d] fs1 Cons.prems(2) 1 o1 show ?thesis
      by (simp add: timeout_value_def)
  next
    case 2
    then obtain fs1 where fs1: "?set fs1 h (ts @ [v]) d"
      using Cons.prems(1) by (simp add: fs_Set_def holds_query_def)
    from Cons.IH [of fs1 h "ts @ [v]" d] fs1 Cons.prems(2) 2 o1 show ?thesis
      by (simp add: timeout_value_def)
  next
    case 3
    then obtain fs1 where fs1: "?set fs1 h ts d'"
      using Cons.prems(1) by (simp add: fs_Set_def holds_query_def)
    from Cons.IH [of fs1 h ts d'] fs1 Cons.prems(2) 3 o1 show ?thesis
      by (simp add: timeout_value_def)
  qed
qed

definition query_FlagSet :: FlagSet where
  "query_FlagSet = new_FlagSet\<lparr>
     fs_formal := Map.empty(''hosts'' \<mapsto> ''hosts'', ''tag'' \<mapsto> ''tag'', ''timeout'' \<mapsto> ''timeout''),
     fs_cell := Map.empty(''hosts'' \<mapsto> VString [], ''tag'' \<mapsto> VSlice [], ''timeout'' \<mapsto> VDuration (seconds 10))\<rparr>"

lemma flagSet_query: "flagSet env (query_flags u w) = Some query_FlagSet"
  by (simp add: flagSet_def query_flags_def Apply_def flag_names_def trim_blanks_def fs_Var_def
      new_FlagSet_def query_FlagSet_def)

lemma holds_query_FlagSet: "holds_query query_FlagSet [] [] (seconds 10)"
  by (simp add: holds_query_def query_FlagSet_def)

lemma Parse_query:
  assumes "\<forall>o' \<in> set opts. option_ok env o'" "holds_query fs0 [] [] (seconds 10)" "pos = [] \<or> positional (hd pos)"
  obtains fs where "fs_Parse env fs0 (render_options opts @ pos) = (fs, None)"
    "fs_args fs = pos" "fs_formal fs = fs_formal fs0"
    "holds_query fs (last ([] # opt_values ''hosts'' opts)) (opt_values ''tag'' opts)
       (timeout_value env opts (seconds 10))"
proof -
  obtain fs where fs: "set_all env opts fs0 = Some fs" "fs_formal fs = fs_formal fs0"
    "holds_query fs (last ([] # opt_values ''hosts'' opts)) (opt_values ''tag'' opts)
       (timeout_value env opts (seconds 10))"
    using set_all_query [OF assms(2,1)] by auto
  have "plain_name n \<and> takes_value fs0 n" if "(n, v) \<in> set opts" for n v
  proof -
    have "option_ok env (n, v)" using assms(1) that by blast
    then consider "n = ''hosts''" | "n = ''tag''" | "n = ''timeout''" by (auto simp: option_ok_def)
    then show ?thesis
      using assms(2) by cases (simp_all add: holds_query_def plain_name_def takes_value_def fs_Lookup_def is_bool_value_def)
  qed
  then have "fs_Parse env fs0 (render_options opts @ pos) = fs_Parse env fs pos"
    using fs(1) by (intro fs_Parse_options) auto
  also have "\<dots> = (fs\<lparr>fs_args := pos\<rparr>, None)"
    by (rule fs_Parse_positional [OF assms(3)])
  finally show thesis
    using fs by (intro that [of "fs\<lparr>fs_args := pos\<rparr>"]) (simp_all add: holds_query_def)
qed

lemma opt_values_map_of:
  "map_of (rev (map (\<lambda>(n, v). (n, VString v)) gopts)) n =
     (if opt_values n gopts = [] then None else Some (VString (last (opt_values n gopts))))"
  by (induction gopts) (auto simp: map_add_def)

lemma opt_values_mem: "opt_values n opts \<noteq> [] \<longleftrightarrow> n \<in> fst ` set opts"
  by (auto simp: opt_values_def filter_empty_conv)

lemma GlobalIsSet_app:
  "fst (GlobalIsSet (NewContext fs [app_set env gopts args]) n) \<longleftrightarrow> n \<in> fst ` set gopts"
  by (simp add: GlobalIsSet_def global_sets_def)

lemma GlobalString_app:
  assumes "global_opts gopts" "n \<in> fst ` set gopts"
  shows "GlobalString env (NewContext fs [app_set env gopts args]) n = last (opt_values n gopts)"
proof -
  have "n \<in> {''config'', ''rpc'', ''rpc-auth''}" using assms by (auto simp: global_opts_def)
  then have "fs_formal (app_FlagSet env) n = Some n" by (auto simp: app_FlagSet_def)
  moreover have "fs_cell (app_set env gopts args) n = Some (VString (last (opt_values n gopts)))"
    using opt_values_mem [of n gopts] assms(2) by (auto simp: app_set_def map_add_def opt_values_map_of)
  ultimately show ?thesis
    by (simp add: GlobalString_def lookupGlobalFlagSet_def global_sets_def lookupString_def fs_Lookup_def)
qed

lemma GlobalString_update [simp]:
  "GlobalString env (c\<lparr>ctx_globalSetFlags := s\<rparr>) n = GlobalString env c n"
  by (simp add: GlobalString_def lookupGlobalFlagSet_def global_sets_def)

lemma GlobalIsSet_snd: "\<exists>s. snd (GlobalIsSet c n) = c\<lparr>ctx_globalSetFlags := s\<rparr>"
  by (auto simp: GlobalIsSet_def Let_def)

text \<open>The configuration a run with \<open>Before\<close> loads.\<close>

lemma LoadConfig_app:
  assumes "global_opts gopts" "''config'' \<in> fst ` set gopts"
    "loadConfigFromFile os (last (opt_values ''config'' gopts)) = (cfg, None)"
  obtains s where "LoadConfig env os (NewContext fs [app_set env gopts args])
     = (Inr cfg, (NewContext fs [app_set env gopts args])\<lparr>ctx_globalSetFlags := s\<rparr>)"
  using assms GlobalIsSet_app [of fs env gopts args "''config''"] GlobalString_app [OF assms(1,2), of env fs args]
    GlobalIsSet_snd [of "NewContext fs [app_set env gopts args]" "''config''"]
  by (cases "GlobalIsSet (NewContext fs [app_set env gopts args]) ''config''") (auto simp: LoadConfig_def)

lemma LoadConfig_required:
  assumes "''config'' \<notin> fst ` set gopts"
  shows "fst (LoadConfig env os (NewContext fs [app_set env gopts args])) = Inl ''config is required''"
  using assms GlobalIsSet_app [of fs env gopts args "''config''"]
  by (simp add: LoadConfig_def case_prod_beta)

definition query_commands :: "string set" where
  "query_commands = {''deploy'', ''stage'', ''verify''}"

lemma app_Command_query:
  assumes "cmd \<in> query_commands"
  obtains u w where "app_Command (with_help host) cmd =
    Some (mk_command cmd (query_flags u w) (Some HookLoadConfig) (ActDoQuery cmd))" "positional cmd"
  using assms unfolding query_commands_def
  by (auto simp: app_Command_def with_help_def serfbort_app_def HasName_def cmd_Names_def mk_command_def
      positional_def)

lemma checkCommandHelp_app:
  "global_opts gopts \<Longrightarrow> \<not> checkCommandHelp env (NewContext (app_set env gopts args) [])"
  by (simp add: checkCommandHelp_def lookupBool_app_set)

lemma single_names_query:
  "\<forall>f \<in> set (query_flags u w). length (flag_names (getName f)) = 1"
  by (simp add: query_flags_def flag_names_def)

lemma normalize_query: "normalizeFlags env (query_flags u w) fs = (fs, None)"
  using single_names_query by (intro normalizeFlags_untouched) blast

lemma args_Tail_Cons [simp]: "args_Tail (x # xs) = xs"
  by (cases xs) (simp_all add: args_Tail_def)

lemma query_command_line_context:
  assumes "cmd \<in> query_commands" "global_opts gopts" "''config'' \<in> fst ` set gopts"
    "loadConfigFromFile os (last (opt_values ''config'' gopts)) = (cfg, None)"
    "\<forall>o' \<in> set opts. option_ok env o'" "pos = [] \<or> positional (hd pos)"
  shows "\<exists>c. program_main env os host (prog # render_options gopts @ cmd # render_options opts @ pos)
         = MainAction (ActDoQuery cmd) c cfg
       \<and> holds_query (ctx_flagSet c) (last ([] # opt_values ''hosts'' opts)) (opt_values ''tag'' opts)
           (timeout_value env opts (seconds 10))
       \<and> ctx_Args c = pos"
proof -
  obtain u w where cmd: "app_Command (with_help host) cmd =
      Some (mk_command cmd (query_flags u w) (Some HookLoadConfig) (ActDoQuery cmd))" "positional cmd"
    using app_Command_query [OF assms(1)] .
  obtain fs where fs: "fs_Parse env query_FlagSet (render_options opts @ pos) = (fs, None)"
    "fs_args fs = pos"
    "holds_query fs (last ([] # opt_values ''hosts'' opts)) (opt_values ''tag'' opts)
       (timeout_value env opts (seconds 10))"
    using Parse_query [OF assms(5) holds_query_FlagSet assms(6)] .
  let ?args = "cmd # render_options opts @ pos"
  have "App_Run env (serfbort_app host) (prog # render_options gopts @ ?args) =
      Command_Run env (mk_command cmd (query_flags u w) (Some HookLoadConfig) (ActDoQuery cmd))
        (NewContext (app_set env gopts ?args) [])"
    using App_Run_command [OF assms(2) cmd(2)] cmd(1) by simp
  also have "\<dots> = Invoke (Some HookLoadConfig) (ActDoQuery cmd) (NewContext fs [app_set env gopts ?args])"
    using checkCommandHelp_app [OF assms(2)] fs(1)
    by (simp add: Command_Run_def mk_command_def RunAsSubcommand_def flagSet_query ctx_Args_def args_Tail_Cons
        normalize_query run_action_def) 
  finally have "\<exists>s. program_main env os host (prog # render_options gopts @ ?args) =
      MainAction (ActDoQuery cmd) ((NewContext fs [app_set env gopts ?args])\<lparr>ctx_globalSetFlags := s\<rparr>) cfg"
    by (rule_tac LoadConfig_app [OF assms(2,3,4), of env fs ?args]) (auto simp: program_main_def)
  then show ?thesis
    using fs(2,3) by (auto simp: ctx_Args_def)
qed

text \<open>C3: The options before the target reach the action of \<open>deploy\<close>, \<open>stage\<close> and \<open>verify\<close> with the values
  given: the last \<open>--hosts\<close>, every \<open>--tag\<close> in order, the last \<open>--timeout\<close>, and everything from
  the first argument that is not an option on as arguments; the configuration is the file's.\<close>

theorem query_command_line:
  assumes "cmd \<in> query_commands" "global_opts gopts" "''config'' \<in> fst ` set gopts"
    "loadConfigFromFile os (last (opt_values ''config'' gopts)) = (cfg, None)"
    "\<forall>o' \<in> set opts. option_ok env o'" "pos = [] \<or> positional (hd pos)"
    "parse_duration env (duration_string env (timeout_value env opts (seconds 10)))
       = Some (timeout_value env opts (seconds 10))"
  shows "\<exists>c. program_main env os host (prog # render_options gopts @ cmd # render_options opts @ pos)
         = MainAction (ActDoQuery cmd) c cfg
       \<and> lookupString env ''hosts'' (ctx_flagSet c) = last ([] # opt_values ''hosts'' opts)
       \<and> lookupStringSlice ''tag'' (ctx_flagSet c) = Some (opt_values ''tag'' opts)
       \<and> lookupDuration env ''timeout'' (ctx_flagSet c) = timeout_value env opts (seconds 10)
       \<and> ctx_Args c = pos"
  using query_command_line_context [OF assms(1-6), of host prog] assms(7)
  by (auto simp: lookupString_def lookupStringSlice_def lookupDuration_def fs_Lookup_def
        holds_query_def)

definition demo_cli :: cli_env where
  "demo_cli = \<lparr>os_getenv = (\<lambda>_. []),
     parse_duration = (\<lambda>s. if s = ''30s'' then Some (seconds 30) else None),
     duration_string = (\<lambda>_. ''30s'')\<rparr>"

definition demo_os :: os_env where
  "demo_os = \<lparr>os_Stat = (\<lambda>_. None), os_ReadFile = (\<lambda>_. Inr []),
     json_tags = (\<lambda>_. (Some [''role'' \<mapsto> ''web''], None)), json_config = (\<lambda>_. (demo_config, None))\<rparr>"

lemma demo_load: "loadConfigFromFile demo_os f = (demo_config, None)"
  by (simp add: loadConfigFromFile_def demo_os_def)

theorem query_command_line_witness:
  "\<exists>c. program_main demo_cli demo_os ''h1''
         [''serfbort'', ''--config'', ''c.json'', ''deploy'', ''--hosts'', ''a,b'', ''--tag'', ''x=1'',
          ''--tag'', ''y=2'', ''--timeout'', ''30s'', ''web'', ''v1'']
       = MainAction (ActDoQuery ''deploy'') c demo_config
     \<and> lookupString demo_cli ''hosts'' (ctx_flagSet c) = ''a,b''
     \<and> lookupStringSlice ''tag'' (ctx_flagSet c) = Some [''x=1'', ''y=2'']
     \<and> lookupDuration demo_cli ''timeout'' (ctx_flagSet c) = seconds 30
     \<and> ctx_Args c = [''web'', ''v1'']"
  using query_command_line [of "''deploy''" "[(''config'', ''c.json'')]" demo_os demo_config
      "[(''hosts'', ''a,b''), (''tag'', ''x=1''), (''tag'', ''y=2''), (''timeout'', ''30s'')]" demo_cli
      "[''web'', ''v1'']" "''h1''" "''serfbort''"]
  by (simp add: query_commands_def global_opts_def demo_load option_ok_def positional_def
      timeout_value_def demo_cli_def)

text \<open>Whatever follows the target of \<open>deploy\<close>, \<open>stage\<close> or \<open>verify\<close> is an argument, also when it
  is written as an option: the action then sees no host and no tag filter.\<close>

theorem options_after_target_ignored:
  assumes "cmd \<in> query_commands" "global_opts gopts" "''config'' \<in> fst ` set gopts"
    "loadConfigFromFile os (last (opt_values ''config'' gopts)) = (cfg, None)" "positional target"
  shows "\<exists>c. program_main env os host (prog # render_options gopts @ cmd # target # rest)
         = MainAction (ActDoQuery cmd) c cfg
       \<and> lookupString env ''hosts'' (ctx_flagSet c) = []
       \<and> lookupStringSlice ''tag'' (ctx_flagSet c) = Some []
       \<and> ctx_Args c = target # rest"
  using query_command_line_context [OF assms(1-4), of "[]" env "target # rest" host prog] assms(5)
  by (auto simp: holds_query_def lookupString_def lookupStringSlice_def fs_Lookup_def)

theorem options_after_target_ignored_witness:
  "\<exists>c. program_main demo_cli demo_os ''h1''
         [''serfbort'', ''--config'', ''c.json'', ''deploy'', ''web'', ''--hosts'', ''a'']
       = MainAction (ActDoQuery ''deploy'') c demo_config
     \<and> lookupString demo_cli ''hosts'' (ctx_flagSet c) = []
     \<and> lookupStringSlice ''tag'' (ctx_flagSet c) = Some []
     \<and> ctx_Args c = [''web'', ''--hosts'', ''a'']"
  using options_after_target_ignored [of "''deploy''" "[(''config'', ''c.json'')]" demo_os demo_config
      "''web''" demo_cli "''h1''" "''serfbort''" "[''--hosts'', ''a'']"]
  by (simp add: query_commands_def global_opts_def demo_load positional_def)

lemma app_Command_Before:
  assumes "cmd \<in> insert ''agent'' query_commands"
  obtains flags action where "app_Command (with_help host) cmd =
    Some (mk_command cmd flags (Some HookLoadConfig) action)" "positional cmd"
  using assms unfolding query_commands_def
  by (auto simp: app_Command_def with_help_def serfbort_app_def HasName_def cmd_Names_def mk_command_def
      positional_def)

lemma RunAsSubcommand_Invoke:
  "RunAsSubcommand env flags before (UserAction a) (NewContext fs []) = Invoke b a' c \<Longrightarrow>
     b = before \<and> a' = a \<and> (\<exists>fs'. c = NewContext fs' [fs])"
  by (auto simp: RunAsSubcommand_def run_action_def Let_def split: option.splits prod.splits if_splits)

text \<open>Without the option \<open>--config\<close> neither the agent nor a query ever runs, whatever the
  environment holds, so the variable \<open>SERFBORT_CONFIG\<close> that the option declares is not enough.\<close>

theorem config_flag_required:
  assumes "cmd \<in> insert ''agent'' query_commands" "global_opts gopts" "''config'' \<notin> fst ` set gopts"
  shows "program_main env os host (prog # render_options gopts @ cmd # rest) \<noteq> MainAction action c cfg"
proof -
  obtain flags act where cmd: "app_Command (with_help host) cmd =
      Some (mk_command cmd flags (Some HookLoadConfig) act)" "positional cmd"
    using app_Command_Before [OF assms(1)] .
  let ?r = "RunAsSubcommand env flags (Some HookLoadConfig) (UserAction act)
              (NewContext (app_set env gopts (cmd # rest)) [])"
  have run: "App_Run env (serfbort_app host) (prog # render_options gopts @ cmd # rest) = ?r"
    using App_Run_command [OF assms(2) cmd(2)] cmd(1) by (simp add: Command_Run_def mk_command_def)
  show ?thesis
  proof (cases ?r)
    case (Invoke b a' c')
    obtain fs' where "b = Some HookLoadConfig" "c' = NewContext fs' [app_set env gopts (cmd # rest)]"
      using RunAsSubcommand_Invoke [OF Invoke] by blast
    then show ?thesis
      using run Invoke LoadConfig_required [OF assms(3), of env os fs' "cmd # rest"]
      by (auto simp: program_main_def split: prod.splits)
  qed (use run in \<open>simp_all add: program_main_def\<close>)
qed

theorem config_flag_required_witness:
  "\<forall>action c cfg. program_main (demo_cli\<lparr>os_getenv := (\<lambda>_. ''/etc/serfbort.json'')\<rparr>) demo_os ''h1''
     [''serfbort'', ''deploy'', ''web''] \<noteq> MainAction action c cfg"
  using config_flag_required [of "''deploy''" "[]" "demo_cli\<lparr>os_getenv := (\<lambda>_. ''/etc/serfbort.json'')\<rparr>"
      demo_os "''h1''" "''serfbort''" "[''web'']"]
  by (simp add: query_commands_def global_opts_def)

text \<open>\<open>cluster-status\<close> has no \<open>Before\<close>, so its options may also follow other arguments.\<close>

definition status_FlagSet :: FlagSet where
  "status_FlagSet = new_FlagSet\<lparr>
     fs_formal := Map.empty(''hosts'' \<mapsto> ''hosts'', ''tag'' \<mapsto> ''tag'', ''help'' \<mapsto> ''help'', ''h'' \<mapsto> ''h''),
     fs_cell := Map.empty(''hosts'' \<mapsto> VString [], ''tag'' \<mapsto> VSlice [], ''help'' \<mapsto> VBool False, ''h'' \<mapsto> VBool False)\<rparr>"

lemma app_Command_status:
  "\<exists>u w. app_Command (with_help host) ''cluster-status'' =
    Some (mk_command ''cluster-status'' [StringFlag ''hosts'' [] u [], StringSliceFlag ''tag'' None w []]
            None ActDoClusterStatus)"
  by (simp add: app_Command_def with_help_def serfbort_app_def HasName_def cmd_Names_def mk_command_def)

lemma flagSet_status:
  "flagSet env [StringFlag ''hosts'' [] u [], StringSliceFlag ''tag'' None w [], HelpFlag] = Some status_FlagSet"
  by (simp add: flagSet_def query_flags_def Apply_def flag_names_def trim_blanks_def fs_Var_def
      new_FlagSet_def status_FlagSet_def HelpFlag_def)

lemma no_dash_positional: "strip_prefix ''-'' a = None \<Longrightarrow> positional a"
  by (cases a) (auto simp: positional_def)

text \<open>The host filter of \<open>cluster-status\<close> is also honoured after other arguments.\<close>

theorem status_command_line:
  assumes "global_opts gopts" "\<forall>a \<in> set pos. strip_prefix ''-'' a = None"
    "strip_prefix ''-'' h = None"
  shows "\<exists>c. program_main env os host
           (prog # render_options gopts @ ''cluster-status'' # pos @ [''--hosts'', h])
         = MainAction ActDoClusterStatus c \<lparr>Targets = Map.empty\<rparr>
       \<and> lookupString env ''hosts'' (ctx_flagSet c) = h \<and> ctx_Args c = pos"
proof -
  let ?args = "''cluster-status'' # pos @ [''--hosts'', h]"
  let ?fs = "status_FlagSet\<lparr>fs_cell := (fs_cell status_FlagSet)(''hosts'' \<mapsto> VString h),
    fs_actual := {''hosts''}, fs_args := pos\<rparr>"
  obtain u w where c: "app_Command (with_help host) ''cluster-status'' =
    Some (mk_command ''cluster-status'' [StringFlag ''hosts'' [] u [], StringSliceFlag ''tag'' None w []]
            None ActDoClusterStatus)"
    using app_Command_status by blast
  have "pos = [] \<or> positional (hd pos)"
    using assms(2) no_dash_positional by (cases pos) auto
  have "h \<noteq> ''--''" using assms(3) by auto
  then have reorder: "reorder_args False ?args = render_options [(''hosts'', h)] @ pos"
    using reorder_args_moves [of "''cluster-status''" pos "[h]" "''--hosts''"] assms(2) by simp
  have "set_all env [(''hosts'', h)] status_FlagSet =
      Some (status_FlagSet\<lparr>fs_cell := (fs_cell status_FlagSet)(''hosts'' \<mapsto> VString h), fs_actual := {''hosts''}\<rparr>)"
    by (simp add: fs_Set_def status_FlagSet_def new_FlagSet_def)
  then have "fs_Parse env status_FlagSet (render_options [(''hosts'', h)] @ pos) =
      fs_Parse env (status_FlagSet\<lparr>fs_cell := (fs_cell status_FlagSet)(''hosts'' \<mapsto> VString h), fs_actual := {''hosts''}\<rparr>) pos"
    by (intro fs_Parse_options)
       (simp_all add: plain_name_def takes_value_def fs_Lookup_def is_bool_value_def status_FlagSet_def)
  also have "\<dots> = (?fs, None)"
    by (subst fs_Parse_positional) (use \<open>pos = [] \<or> positional (hd pos)\<close> in simp_all)
  finally have parse: "fs_Parse env status_FlagSet (render_options [(''hosts'', h)] @ pos) = (?fs, None)" .
  have norm: "normalizeFlags env [StringFlag ''hosts'' [] u [], StringSliceFlag ''tag'' None w [], HelpFlag] ?fs = (?fs, None)"
    by (rule normalizeFlags_untouched) (simp add: flag_names_def HelpFlag_def trim_blanks_def)
  have nohelp: "\<not> checkCommandHelp env (NewContext ?fs fss)" for fss
    by (simp add: checkCommandHelp_def lookupBool_def fs_Lookup_def status_FlagSet_def parse_bool_def)
  have "Command_Run env (mk_command ''cluster-status'' [StringFlag ''hosts'' [] u [], StringSliceFlag ''tag'' None w []]
            None ActDoClusterStatus) (NewContext (app_set env gopts ?args) [])
    = Invoke None ActDoClusterStatus (NewContext ?fs [app_set env gopts ?args])"
    using nohelp parse norm reorder
    by (simp add: Command_Run_def mk_command_def flagSet_status ctx_Args_def run_action_def del: render_options_simps)
  moreover have "positional ''cluster-status''" by (simp add: positional_def)
  ultimately have "program_main env os host (prog # render_options gopts @ ?args)
      = MainAction ActDoClusterStatus (NewContext ?fs [app_set env gopts ?args]) \<lparr>Targets = Map.empty\<rparr>"
    using App_Run_command [OF assms(1), of "''cluster-status''" env host prog "pos @ [''--hosts'', h]"] c
    by (simp add: program_main_def)
  then show ?thesis
    by (auto simp: ctx_Args_def lookupString_def fs_Lookup_def status_FlagSet_def)
qed

theorem status_command_line_witness:
  "\<exists>c. program_main demo_cli demo_os ''h1'' [''serfbort'', ''cluster-status'', ''x'', ''--hosts'', ''a'']
       = MainAction ActDoClusterStatus c \<lparr>Targets = Map.empty\<rparr>
     \<and> lookupString demo_cli ''hosts'' (ctx_flagSet c) = ''a'' \<and> ctx_Args c = [''x'']"
  using status_command_line [of "[]" "[''x'']" "''a''" demo_cli demo_os "''h1''" "''serfbort''"]
  by (simp add: global_opts_def)

subsection \<open>What agents and masters are started with\<close>

lemma StartMaster_setup:
  "StartMaster env lib c = Inr setup \<Longrightarrow>
     su_SecretKey setup = None \<and> su_Tags setup = [''master'' \<mapsto> ''true'']"
  by (auto simp: StartMaster_def rbind_eq_Inr_iff Let_def split: prod.splits option.splits)

lemma StartAgent_setup:
  "StartAgent env os lib c = Inr setup \<Longrightarrow>
     su_Tags setup ''agent'' = Some ''true''
     \<and> su_SecretKey setup = (if fst (GlobalIsSet c ''rpc-auth'')
                             then keyToBytes (GlobalString env c ''rpc-auth'') else None)
     \<and> (fst (GlobalIsSet c ''rpc-auth'') \<longrightarrow> su_SecretKey setup \<noteq> None)"
  by (auto simp: StartAgent_def rbind_eq_Inr_iff Let_def split: prod.splits option.splits if_splits)

lemma parse_listen_ok_iff:
  "parse_listen s = Inr (addr, p) \<longleftrightarrow>
     (\<exists>port n. s = addr @ CHR '':'' # port \<and> CHR '':'' \<notin> set addr \<and> CHR '':'' \<notin> set port
        \<and> atoi port = Some n \<and> p = word_of_int n)"
proof -
  have "parse_listen s = Inr (addr, p) \<longleftrightarrow>
      (\<exists>port n. split_on (CHR '':'') s = [addr, port] \<and> atoi port = Some n \<and> p = word_of_int n)"
    by (auto simp: parse_listen_def split: list.splits option.splits)
  then show ?thesis by (auto simp: split_on_pair_iff)
qed

text \<open>Started with the same \<open>--rpc-auth\<close>, an agent encrypts its gossip with the decoded key and a
  master does not encrypt at all.\<close>

theorem agents_encrypt_alone:
  assumes "global_opts gopts" "''rpc-auth'' \<in> fst ` set gopts"
    "StartAgent env os lib (NewContext afs [app_set env gopts aargs]) = Inr a"
    "StartMaster env lib (NewContext mfs [app_set env gopts margs]) = Inr m"
  shows "su_SecretKey a = b64_decode (last (opt_values ''rpc-auth'' gopts))
       \<and> su_SecretKey a \<noteq> None \<and> su_SecretKey m = None"
  using StartAgent_setup [OF assms(3)] StartMaster_setup [OF assms(4)] assms(2)
    GlobalIsSet_app [of afs env gopts aargs "''rpc-auth''"] GlobalString_app [OF assms(1,2), of env afs aargs]
  by (auto simp: keyToBytes_def dest: sym)

definition demo_lib :: serf_lib where
  "demo_lib = \<lparr>sl_Create = (\<lambda>_. None), sl_Start = (\<lambda>_. None), sl_Join = (\<lambda>_ _. None), sl_Listen = (\<lambda>_. None)\<rparr>"

definition demo_listen :: FlagSet where
  "demo_listen = \<lparr>fs_formal = [''listen'' \<mapsto> ''listen''], fs_cell = [''listen'' \<mapsto> VString ''h:80''],
     fs_actual = {}, fs_args = []\<rparr>"

definition demo_start :: Context where
  "demo_start = NewContext demo_listen [app_set demo_cli [(''rpc-auth'', ''Zm9v'')] []]"

lemma demo_start_facts:
  "lookupString demo_cli ''listen'' (ctx_flagSet demo_start) = ''h:80''"
  "fst (GlobalIsSet demo_start ''rpc-auth'')"
  "GlobalString demo_cli demo_start ''rpc-auth'' = ''Zm9v''"
  "\<not> ctx_IsSet demo_start n"
  using GlobalIsSet_app [of demo_listen demo_cli "[(''rpc-auth'', ''Zm9v'')]" "[]" "''rpc-auth''"]
    GlobalString_app [of "[(''rpc-auth'', ''Zm9v'')]" "''rpc-auth''" demo_cli demo_listen "[]"]
  by (simp_all add: demo_start_def demo_listen_def lookupString_def fs_Lookup_def ctx_IsSet_def
      global_opts_def)

lemma demo_listen_parsed: "parse_listen ''h:80'' = Inr (''h'', 80)"
  by (simp add: parse_listen_def atoi_def parse_unsigned_def digit_val_def Let_def)

lemma demo_key: "keyToBytes ''Zm9v'' = Some [102, 111, 111]"
  by (simp add: keyToBytes_def) code_simp

theorem agents_encrypt_alone_witness:
  "\<exists>a m. StartAgent demo_cli demo_os demo_lib demo_start = Inr a
     \<and> StartMaster demo_cli demo_lib demo_start = Inr m
     \<and> su_SecretKey a = b64_decode ''Zm9v'' \<and> su_SecretKey a \<noteq> None \<and> su_SecretKey m = None"
proof -
  obtain a where a: "StartAgent demo_cli demo_os demo_lib demo_start = Inr a"
    by (simp add: StartAgent_def demo_start_facts demo_listen_parsed demo_key demo_lib_def Let_def)
  obtain m where m: "StartMaster demo_cli demo_lib demo_start = Inr m"
    by (simp add: StartMaster_def demo_start_facts demo_listen_parsed demo_lib_def Let_def)
  show ?thesis
    using a m agents_encrypt_alone [of "[(''rpc-auth'', ''Zm9v'')]" demo_cli demo_os demo_lib demo_listen "[]" a
        demo_listen "[]" m]
    by (auto simp: demo_start_def global_opts_def dest: sym)
qed

text \<open>An agent always carries the tag \<open>agent=true\<close>, whatever its tags file says, and its other
  tags are those of the file, or none.\<close>

theorem agent_setup_tags:
  assumes "StartAgent env os lib c = Inr setup"
  shows "su_Tags setup ''agent'' = Some ''true''
       \<and> (\<forall>k. k \<noteq> ''agent'' \<longrightarrow> su_Tags setup k =
            (if ctx_IsSet c ''tags-file'' then
               (case fst (loadTagsFromFile os (lookupString env ''tags-file'' (ctx_flagSet c))) of
                  None \<Rightarrow> None | Some t \<Rightarrow> t k)
             else None))"
  using assms
  by (auto simp: StartAgent_def rbind_eq_Inr_iff Let_def split: prod.splits option.splits if_splits)

theorem agent_setup_tags_witness:
  "\<exists>a. StartAgent demo_cli demo_os demo_lib demo_start = Inr a \<and> su_Tags a ''agent'' = Some ''true''
     \<and> su_Tags a ''role'' = None"
proof -
  obtain a where a: "StartAgent demo_cli demo_os demo_lib demo_start = Inr a"
    by (simp add: StartAgent_def demo_start_facts demo_listen_parsed demo_key demo_lib_def Let_def)
  with agent_setup_tags [OF a] show ?thesis by (simp add: demo_start_facts)
qed

end
