(* ===== verification/Query.thy ===== *)
theory Query
  imports Channel CommandLine
begin

section \<open>Queries from the command line (query.go, cluster_status.go, client/rpc_client.go)\<close>

text \<open>
  \<open>DoQuery\<close> checks its arguments, sends one query over the RPC connection, asks how many agents
  should answer, and then polls two buffered channels until that many answers have arrived. The
  other end of the channels is the RPC client's \<open>queryHandler\<close>, which runs in the goroutine
  that reads the connection. Both are modelled, with every interleaving of the two.
\<close>

subsection \<open>The RPC client's query handler\<close>

record NodeResponse =
  nr_From :: string
  nr_Payload :: bytes

record queryRecord =
  rec_Type :: string
  rec_From :: string
  rec_Payload :: bytes

text \<open>
  \<open>qh_registered\<close> says whether the dispatch table still holds the handler. \<open>qh_initCh\<close> is what
  was sent on \<open>initCh\<close>, a channel of capacity one: nothing, or an optional error.
\<close>

record query_handler =
  qh_registered :: bool
  qh_closed :: bool
  qh_init :: bool
  qh_initCh :: "string option option"
  qh_ackCh :: "string chan"
  qh_respCh :: "NodeResponse chan"

definition strToError :: "string \<Rightarrow> string option" where
  "strToError s = (if s \<noteq> [] then Some s else None)"

text \<open>Every operation is partial: \<open>None\<close> is a panic in a channel operation.\<close>

definition queryHandler_Cleanup :: "query_handler \<Rightarrow> query_handler option" where
  "queryHandler_Cleanup h =
     (if qh_closed h then Some h
      else
        (let h1 = (if qh_init h then h
                   else h\<lparr>qh_init := True, qh_initCh := Some (Some ''Stream closed'')\<rparr>)
         in case chan_close (qh_ackCh h1) of
              None \<Rightarrow> None
            | Some a \<Rightarrow>
                (case chan_close (qh_respCh h1) of
                   None \<Rightarrow> None
                 | Some r \<Rightarrow> Some (h1\<lparr>qh_ackCh := a, qh_respCh := r, qh_closed := True\<rparr>))))"

definition deregisterHandler :: "query_handler \<Rightarrow> query_handler option" where
  "deregisterHandler h =
     (if qh_registered h then queryHandler_Cleanup (h\<lparr>qh_registered := False\<rparr>) else Some h)"

text \<open>\<open>rcd\<close> is the record that follows the header, \<open>None\<close> when it does not decode.\<close>

definition queryHandler_Handle ::
  "string \<Rightarrow> queryRecord option \<Rightarrow> query_handler \<Rightarrow> query_handler option" where
  "queryHandler_Handle err rcd h =
     (if \<not> qh_init h then Some (h\<lparr>qh_init := True, qh_initCh := Some (strToError err)\<rparr>)
      else
        (case rcd of
           None \<Rightarrow> deregisterHandler h
         | Some r \<Rightarrow>
             if rec_Type r = ''ack'' then
               map_option (\<lambda>c. h\<lparr>qh_ackCh := c\<rparr>) (chan_offer (rec_From r) (qh_ackCh h))
             else if rec_Type r = ''response'' then
               map_option (\<lambda>c. h\<lparr>qh_respCh := c\<rparr>)
                 (chan_offer \<lparr>nr_From = rec_From r, nr_Payload = rec_Payload r\<rparr> (qh_respCh h))
             else if rec_Type r = ''done'' then deregisterHandler h
             else Some h))"

definition respondSeq ::
  "string \<Rightarrow> queryRecord option \<Rightarrow> query_handler \<Rightarrow> query_handler option" where
  "respondSeq err rcd h = (if qh_registered h then queryHandler_Handle err rcd h else Some h)"

definition CHANNEL_BUFFER :: nat where "CHANNEL_BUFFER = 20"

text \<open>The handler as \<open>Query\<close> registers it.\<close>

definition new_query_handler :: query_handler where
  "new_query_handler =
     \<lparr>qh_registered = True, qh_closed = False, qh_init = False, qh_initCh = None,
      qh_ackCh = make_chan CHANNEL_BUFFER, qh_respCh = make_chan CHANNEL_BUFFER\<rparr>"

subsection \<open>The polling loop of DoQuery\<close>

record query_loop =
  ql_handler :: query_handler
  ql_acks :: "string list"
  ql_resps :: "NodeResponse list"
  ql_errors :: "QueryResponse list"
  ql_out :: "string list"
  ql_exited :: bool

datatype select_case = CaseAck | CaseResp | CaseDefault

definition failed_response :: "QueryResponse \<Rightarrow> bool" where
  "failed_response q \<longleftrightarrow> Err q \<noteq> None \<or> Status q \<noteq> 0"

definition response_line :: "string \<Rightarrow> QueryResponse \<Rightarrow> string" where
  "response_line from q =
     (if failed_response q then
        ''ERROR '' @ from @ '': ''
        @ (case Err q of Some e \<Rightarrow> trim_space e @ '': '' | None \<Rightarrow> []) @ trim_space (Output q)
      else ''OK    '' @ from @ '': '' @ trim_space (Output q))"

text \<open>
  One iteration takes a case of the \<open>select\<close> that is ready, the default when none is.
  \<open>expected\<close> is the number of answers waited for; an answer that does not decode makes the loop
  \<open>continue\<close>, past the test at its end.
\<close>

definition exit_test :: "nat \<Rightarrow> query_loop \<Rightarrow> query_loop" where
  "exit_test expected s = s\<lparr>ql_exited := (expected \<le> length (ql_resps s))\<rparr>"

definition loop_iteration :: "nat \<Rightarrow> select_case \<Rightarrow> query_loop \<Rightarrow> query_loop option" where
  "loop_iteration expected c s =
     (let h = ql_handler s in
      case c of
        CaseAck \<Rightarrow>
          if chan_ready (qh_ackCh h) then
            (let (ack, ch) = chan_receive [] (qh_ackCh h)
             in Some (exit_test expected
                  (s\<lparr>ql_handler := h\<lparr>qh_ackCh := ch\<rparr>, ql_acks := ql_acks s @ [ack]\<rparr>)))
          else None
      | CaseResp \<Rightarrow>
          if chan_ready (qh_respCh h) then
            (let (resp, ch) = chan_receive \<lparr>nr_From = [], nr_Payload = []\<rparr> (qh_respCh h);
                 s1 = s\<lparr>ql_handler := h\<lparr>qh_respCh := ch\<rparr>\<rparr>;
                 (queryResponse, err) = DecodeQueryResponse (nr_Payload resp)
             in case err of
                  Some e \<Rightarrow>
                    Some (s1\<lparr>ql_out := ql_out s1 @ [''Unable to decode response from ''
                                @ nr_From resp @ '': '' @ err_text e]\<rparr>)
                | None \<Rightarrow>
                    Some (exit_test expected
                      (s1\<lparr>ql_out := ql_out s1 @ [response_line (nr_From resp) queryResponse],
                          ql_errors := (if failed_response queryResponse
                                        then ql_errors s1 @ [queryResponse] else ql_errors s1),
                          ql_resps := ql_resps s1 @ [resp]\<rparr>)))
          else None
      | CaseDefault \<Rightarrow>
          if \<not> chan_ready (qh_ackCh h) \<and> \<not> chan_ready (qh_respCh h)
          then Some (exit_test expected s) else None)"

text \<open>
  What can happen next: the connection delivers a message to the handler, the client is closed,
  or the loop runs an iteration.
\<close>

datatype query_event =
    Deliver string "queryRecord option"
  | CloseClient
  | Iterate select_case

definition query_next :: "nat \<Rightarrow> query_event \<Rightarrow> query_loop \<Rightarrow> query_loop option" where
  "query_next expected e s =
     (case e of
        Deliver err rcd \<Rightarrow>
          map_option (\<lambda>h. s\<lparr>ql_handler := h\<rparr>) (respondSeq err rcd (ql_handler s))
      | CloseClient \<Rightarrow>
          map_option (\<lambda>h. s\<lparr>ql_handler := h\<rparr>) (deregisterHandler (ql_handler s))
      | Iterate c \<Rightarrow> if ql_exited s then None else loop_iteration expected c s)"

fun query_exec :: "nat \<Rightarrow> query_event list \<Rightarrow> query_loop \<Rightarrow> query_loop option" where
  "query_exec expected [] s = Some s"
| "query_exec expected (e # es) s =
     (case query_next expected e s of None \<Rightarrow> None | Some s' \<Rightarrow> query_exec expected es s')"

definition query_start :: query_loop where
  "query_start =
     \<lparr>ql_handler = new_query_handler, ql_acks = [], ql_resps = [], ql_errors = [], ql_out = [],
      ql_exited = False\<rparr>"

inductive query_reach :: "nat \<Rightarrow> query_event list \<Rightarrow> query_loop \<Rightarrow> bool" for expected where
  reach_start: "query_reach expected [] query_start"
| reach_step: "query_reach expected es s \<Longrightarrow> query_next expected e s = Some s'
    \<Longrightarrow> query_reach expected (es @ [e]) s'"

inductive_cases query_reach_snocE: "query_reach expected (es @ [e]) s"

subsection \<open>DoQuery before and after its loop\<close>

record query_param =
  qp_FilterNodes :: "string list"
  qp_FilterTags :: "string \<rightharpoonup> string"
  qp_RequestAck :: bool
  qp_Timeout :: int
  qp_Name :: string
  qp_Payload :: bytes

text \<open>
  The RPC connection: connecting with an address and a key, sending the query, and asking for
  the members whose tags match. The server's side is a parameter.
\<close>

record rpc_conn =
  rpc_connect :: "string \<Rightarrow> string \<Rightarrow> string option"
  rpc_Query :: "query_param \<Rightarrow> string option"
  rpc_MembersFiltered :: "(string \<rightharpoonup> string) \<Rightarrow> (string, client_member list) result"

datatype query_outcome =
    QueryPanic
  | Refused string                  \<comment> \<open>the message printed\<close>
  | Polling query_param nat         \<comment> \<open>the query sent and the number of answers expected\<close>

definition requires_target_msg :: "string \<Rightarrow> string" where
  "requires_target_msg action = action @ '' requires a target''"

definition unknown_query_target_msg :: "(nat \<Rightarrow> bool) \<Rightarrow> string \<Rightarrow> string \<Rightarrow> string" where
  "unknown_query_target_msg pr action target =
     ''Unknown '' @ action @ '' target '' @ go_quote pr target @ '' (check your config)''"

definition rpc_failed_msg :: "string \<Rightarrow> string \<Rightarrow> string" where
  "rpc_failed_msg addr e = ''Unable to connect to RPC at '' @ addr @ '': '' @ e"

definition DoQuery ::
  "(nat \<Rightarrow> bool) \<Rightarrow> cli_env \<Rightarrow> rpc_conn \<Rightarrow> string \<Rightarrow> Config \<Rightarrow> Context \<Rightarrow> query_outcome" where
  "DoQuery pr env rpc action config c =
     (let rpcAddress = GlobalString env c ''rpc'';
          rpcAuthKey = GlobalString env c ''rpc-auth'';
          t = lookupDuration env ''timeout'' (ctx_flagSet c);
          timeout = (if t = 0 then seconds 10 else t)
      in case ctx_Args c of
           [] \<Rightarrow> Refused (requires_target_msg action)
         | target # args \<Rightarrow>
             if action = [] then Refused ''action cannot be empty!''
             else if Targets config target = None
               then Refused (unknown_query_target_msg pr action target)
             else
               (let arg = (if args \<noteq> [] then hd args else []);
                    filterNodes = parseHostArgs (lookupString env ''hosts'' (ctx_flagSet c))
                in case lookupStringSlice ''tag'' (ctx_flagSet c) of
                     None \<Rightarrow> QueryPanic
                   | Some tagArgs \<Rightarrow>
                       (case parseTagArgs tagArgs of
                          (_, Some e) \<Rightarrow> Refused e
                        | (tags, None) \<Rightarrow>
                            (let filterTags = tags(''agent'' \<mapsto> ''true'');
                                 message = \<lparr>Target = target, Argument = arg\<rparr>;
                                 q = \<lparr>qp_FilterNodes = filterNodes, qp_FilterTags = filterTags,
                                      qp_RequestAck = True, qp_Timeout = timeout,
                                      qp_Name = action, qp_Payload = MessagePayload_Encode message\<rparr>
                             in case rpc_connect rpc rpcAddress rpcAuthKey of
                                  Some e \<Rightarrow> Refused (rpc_failed_msg rpcAddress e)
                                | None \<Rightarrow>
                                    (case rpc_Query rpc q of
                                       Some e \<Rightarrow> Refused e
                                     | None \<Rightarrow>
                                         (case rpc_MembersFiltered rpc filterTags of
                                            Inl e \<Rightarrow> Refused e
                                          | Inr members \<Rightarrow>
                                              Polling q (length (fst (FilterMembers members filterNodes)))))))))"

text \<open>
  The exit status. \<open>defer func(i int) { os.Exit(i) }(exitcode)\<close> evaluates its argument when
  the statement is reached, before the body assigns to \<open>exitcode\<close>. The body returns the final
  value of the variable; \<open>with_deferred_exit\<close> returns that and what \<open>os.Exit\<close> is called with.
\<close>

definition with_deferred_exit :: "(int \<Rightarrow> int) \<Rightarrow> int \<times> int" where
  "with_deferred_exit body =
     (let exitcode = 0; i = exitcode; exitcode' = body exitcode in (exitcode', i))"

definition DoQuery_exitcode :: "query_outcome \<Rightarrow> query_loop \<Rightarrow> int \<Rightarrow> int" where
  "DoQuery_exitcode out final exitcode =
     (case out of
        Polling _ _ \<Rightarrow> if ql_errors final \<noteq> [] then 2 else exitcode
      | _ \<Rightarrow> 1)"

text \<open>What the last two lines report: acknowledgements, answers, errors, and answers expected.\<close>

definition query_summary :: "nat \<Rightarrow> query_loop \<Rightarrow> nat \<times> nat \<times> nat \<times> nat" where
  "query_summary expected s =
     (length (ql_acks s), length (ql_resps s), length (ql_errors s), expected)"

subsection \<open>DoClusterStatus\<close>

datatype status_outcome =
    StatusPanic
  | StatusRefused string
  | StatusTable nat nat "client_member list"  \<comment> \<open>hosts matching, hosts known, the table\<close>

definition DoClusterStatus :: "cli_env \<Rightarrow> rpc_conn \<Rightarrow> Context \<Rightarrow> status_outcome" where
  "DoClusterStatus env rpc c =
     (let rpcAddress = GlobalString env c ''rpc'';
          rpcAuthKey = GlobalString env c ''rpc-auth'';
          filterNodes = parseHostArgs (lookupString env ''hosts'' (ctx_flagSet c))
      in case lookupStringSlice ''tag'' (ctx_flagSet c) of
           None \<Rightarrow> StatusPanic
         | Some tagArgs \<Rightarrow>
             (case parseTagArgs tagArgs of
                (_, Some e) \<Rightarrow> StatusRefused e
              | (tagFilter, None) \<Rightarrow>
                  (case rpc_connect rpc rpcAddress rpcAuthKey of
                     Some e \<Rightarrow> StatusRefused (rpc_failed_msg rpcAddress e)
                   | None \<Rightarrow>
                       (case rpc_MembersFiltered rpc tagFilter of
                          Inl e \<Rightarrow> StatusRefused (''Error retrieving members: '' @ e)
                        | Inr members \<Rightarrow>
                            (let filtered = fst (FilterMembers members filterNodes)
                             in StatusTable (length filtered) (length members) filtered)))))"

definition DoClusterStatus_exitcode :: "status_outcome \<Rightarrow> int \<Rightarrow> int" where
  "DoClusterStatus_exitcode out exitcode = (case out of StatusTable _ _ _ \<Rightarrow> exitcode | _ \<Rightarrow> 1)"

subsection \<open>The handler never panics\<close>

text \<open>The channels are closed exactly when the handler says so, and only once deregistered.\<close>

definition handler_inv :: "query_handler \<Rightarrow> bool" where
  "handler_inv h \<longleftrightarrow> (ch_closed (qh_ackCh h) \<longleftrightarrow> qh_closed h)
     \<and> (ch_closed (qh_respCh h) \<longleftrightarrow> qh_closed h) \<and> (qh_closed h \<longleftrightarrow> \<not> qh_registered h)"

lemma handler_inv_new: "handler_inv new_query_handler"
  by (simp add: handler_inv_def new_query_handler_def make_chan_def)

lemma Cleanup_inv:
  assumes "handler_inv h" "qh_registered h"
  shows "\<exists>h'. queryHandler_Cleanup (h\<lparr>qh_registered := False\<rparr>) = Some h' \<and> handler_inv h'
           \<and> \<not> qh_registered h' \<and> ch_queue (qh_respCh h') = ch_queue (qh_respCh h)
           \<and> ch_queue (qh_ackCh h') = ch_queue (qh_ackCh h)"
  using assms by (auto simp: handler_inv_def queryHandler_Cleanup_def chan_close_def Let_def)

lemma deregister_inv:
  assumes "handler_inv h"
  shows "\<exists>h'. deregisterHandler h = Some h' \<and> handler_inv h' \<and> \<not> qh_registered h'
           \<and> ch_queue (qh_respCh h') = ch_queue (qh_respCh h)
           \<and> ch_queue (qh_ackCh h') = ch_queue (qh_ackCh h)"
  using assms Cleanup_inv [OF assms] by (auto simp: deregisterHandler_def)

lemma chan_offer_open: "\<not> ch_closed c \<Longrightarrow> \<exists>c'. chan_offer x c = Some c' \<and> \<not> ch_closed c'"
  by (auto simp: chan_offer_def)

lemma offer_ack_inv:
  assumes "handler_inv h" "qh_registered h"
  shows "\<exists>c. chan_offer x (qh_ackCh h) = Some c \<and> handler_inv (h\<lparr>qh_ackCh := c\<rparr>)"
  using chan_offer_open [of "qh_ackCh h" x] assms by (auto simp: handler_inv_def)

lemma offer_resp_inv:
  assumes "handler_inv h" "qh_registered h"
  shows "\<exists>c. chan_offer x (qh_respCh h) = Some c \<and> handler_inv (h\<lparr>qh_respCh := c\<rparr>)"
  using chan_offer_open [of "qh_respCh h" x] assms by (auto simp: handler_inv_def)

lemma Handle_inv:
  assumes "handler_inv h" "qh_registered h"
  shows "\<exists>h'. queryHandler_Handle err rcd h = Some h' \<and> handler_inv h'"
proof (cases "qh_init h")
  case False
  with assms show ?thesis by (simp add: queryHandler_Handle_def handler_inv_def)
next
  case init: True
  show ?thesis
  proof (cases rcd)
    case None
    with init deregister_inv [OF assms(1)] show ?thesis by (auto simp: queryHandler_Handle_def)
  next
    case (Some r)
    consider "rec_Type r = ''ack''" | "rec_Type r = ''response''" | "rec_Type r = ''done''"
      | "rec_Type r \<notin> {''ack'', ''response'', ''done''}" by blast
    then show ?thesis
    proof cases
      case 1
      with init Some offer_ack_inv [OF assms, of "rec_From r"] show ?thesis
        by (auto simp: queryHandler_Handle_def)
    next
      case 2
      with init Some offer_resp_inv [OF assms, of "\<lparr>nr_From = rec_From r, nr_Payload = rec_Payload r\<rparr>"]
      show ?thesis by (auto simp: queryHandler_Handle_def)
    next
      case 3
      with init Some deregister_inv [OF assms(1)] show ?thesis
        by (auto simp: queryHandler_Handle_def)
    next
      case 4
      with init Some assms show ?thesis by (auto simp: queryHandler_Handle_def)
    qed
  qed
qed

lemma respondSeq_inv:
  "handler_inv h \<Longrightarrow> \<exists>h'. respondSeq err rcd h = Some h' \<and> handler_inv h'"
  using Handle_inv by (auto simp: respondSeq_def)

lemma chan_receive_closed [simp]: "ch_closed (snd (chan_receive z c)) = ch_closed c"
  by (auto simp: chan_receive_def split: list.splits)

lemma loop_iteration_inv:
  "handler_inv (ql_handler s) \<Longrightarrow> loop_iteration n c s = Some s' \<Longrightarrow> handler_inv (ql_handler s')"
  using chan_receive_closed
  by (auto simp: loop_iteration_def Let_def exit_test_def handler_inv_def case_prod_beta
      split: select_case.splits if_splits option.splits)

lemma query_next_inv:
  assumes "handler_inv (ql_handler s)" "query_next n e s = Some s'"
  shows "handler_inv (ql_handler s')"
proof (cases e)
  case (Deliver err rcd)
  with assms respondSeq_inv [OF assms(1), of err rcd] show ?thesis by (auto simp: query_next_def)
next
  case CloseClient
  with assms deregister_inv [OF assms(1)] show ?thesis by (auto simp: query_next_def)
next
  case (Iterate c)
  with assms loop_iteration_inv [OF assms(1)] show ?thesis
    by (auto simp: query_next_def split: if_splits)
qed

lemma query_reach_inv: "query_reach n es s \<Longrightarrow> handler_inv (ql_handler s)"
proof (induction rule: query_reach.induct)
  case reach_start
  then show ?case by (simp add: query_start_def handler_inv_new)
next
  case reach_step
  then show ?case by (blast intro: query_next_inv)
qed

subsection \<open>What the loop counts\<close>

definition decodes :: "NodeResponse \<Rightarrow> bool" where
  "decodes r \<longleftrightarrow> snd (DecodeQueryResponse (nr_Payload r)) = None"

fun delivered :: "query_event list \<Rightarrow> NodeResponse list" where
  "delivered [] = []"
| "delivered (Deliver err (Some r) # es) =
     (if rec_Type r = ''response'' then \<lparr>nr_From = rec_From r, nr_Payload = rec_Payload r\<rparr> # delivered es
      else delivered es)"
| "delivered (_ # es) = delivered es"

lemma delivered_append [simp]: "delivered (es @ es') = delivered es @ delivered es'"
  by (induction es rule: delivered.induct) auto

lemma zero_response_not_decodes: "\<not> decodes \<lparr>nr_From = [], nr_Payload = []\<rparr>"
  by (simp add: decodes_def DecodeQueryResponse_empty)

definition counted :: "NodeResponse list \<Rightarrow> query_loop \<Rightarrow> bool" where
  "counted sent s \<longleftrightarrow>
     (\<exists>got. channel.history sent got (qh_respCh (ql_handler s)) \<and> ql_resps s = filter decodes got)
     \<and> ql_errors s = filter failed_response (map (fst \<circ> DecodeQueryResponse \<circ> nr_Payload) (ql_resps s))"

lemma deregister_queue:
  "deregisterHandler h = Some h' \<Longrightarrow> ch_queue (qh_respCh h') = ch_queue (qh_respCh h)"
  by (auto simp: deregisterHandler_def queryHandler_Cleanup_def chan_close_def Let_def split: if_splits)

lemma respondSeq_queue:
  assumes "respondSeq err rcd h = Some h'"
  shows "ch_queue (qh_respCh h') = ch_queue (qh_respCh h) \<or>
     (\<exists>x. delivered [Deliver err rcd] = [x] \<and> chan_offer x (qh_respCh h) = Some (qh_respCh h'))"
  using assms
  by (cases rcd)
     (auto simp: respondSeq_def queryHandler_Handle_def deregister_queue split: if_splits)

lemma history_queue:
  "ch_queue c' = ch_queue c \<Longrightarrow> channel.history sent got c' = channel.history sent got c"
  by (simp add: channel.history_def)

lemma history_more: "channel.history sent got c \<Longrightarrow> channel.history (sent @ more_sent) got c"
  by (simp add: channel.history_def subseq_append_right)

lemma counted_Deliver:
  assumes "counted sent s" "respondSeq err rcd (ql_handler s) = Some h'"
  shows "counted (sent @ delivered [Deliver err rcd]) (s\<lparr>ql_handler := h'\<rparr>)"
proof -
  obtain got where got: "channel.history sent got (qh_respCh (ql_handler s))"
    "ql_resps s = filter decodes got"
    using assms(1) by (auto simp: counted_def)
  have "channel.history (sent @ delivered [Deliver err rcd]) got (qh_respCh h')"
    using respondSeq_queue [OF assms(2)]
  proof (elim disjE exE conjE)
    assume "ch_queue (qh_respCh h') = ch_queue (qh_respCh (ql_handler s))"
    then show ?thesis using got(1) history_queue history_more by blast
  next
    fix x assume "delivered [Deliver err rcd] = [x]"
      "chan_offer x (qh_respCh (ql_handler s)) = Some (qh_respCh h')"
    then show ?thesis using channel.history_offer [OF got(1)] by simp
  qed
  then show ?thesis using got(2) assms(1) by (auto simp: counted_def)
qed

lemma chan_receive_empty: "ch_queue c = [] \<Longrightarrow> chan_receive z c = (z, c)"
  by (simp add: chan_receive_def)

lemma history_chan_receive:
  assumes "channel.history sent got c" "chan_receive \<lparr>nr_From = [], nr_Payload = []\<rparr> c = (x, c')"
  shows "\<exists>got'. channel.history sent got' c' \<and> filter decodes got' = filter decodes (got @ [x])"
proof (cases "ch_queue c = []")
  case True
  then have "c' = c" "\<not> decodes x"
    using assms(2) zero_response_not_decodes by (auto simp: chan_receive_empty)
  with assms(1) show ?thesis by auto
next
  case False
  then have "chan_take c = Some (x, c')" using assms(2) chan_receive_take by metis
  from channel.history_receive [OF assms(1) this] show ?thesis by blast
qed

lemma exit_test_simps [simp]:
  "ql_handler (exit_test n s) = ql_handler s" "ql_acks (exit_test n s) = ql_acks s"
  "ql_resps (exit_test n s) = ql_resps s" "ql_errors (exit_test n s) = ql_errors s"
  "ql_out (exit_test n s) = ql_out s" "ql_exited (exit_test n s) \<longleftrightarrow> n \<le> length (ql_resps s)"
  by (simp_all add: exit_test_def)

lemma counted_cong:
  "ql_resps s' = ql_resps s \<Longrightarrow> ql_errors s' = ql_errors s \<Longrightarrow>
   ch_queue (qh_respCh (ql_handler s')) = ch_queue (qh_respCh (ql_handler s)) \<Longrightarrow>
   counted sent s \<Longrightarrow> counted sent s'"
  by (simp add: counted_def channel.history_def)

lemma counted_iteration:
  assumes "counted sent s" "loop_iteration n c s = Some s'"
  shows "counted sent s'"
proof (cases c)
  case CaseAck
  with assms(2) show ?thesis
    by (intro counted_cong [OF _ _ _ assms(1)])
       (auto simp: loop_iteration_def Let_def case_prod_beta split: if_splits)
next
  case CaseDefault
  with assms(2) show ?thesis
    by (intro counted_cong [OF _ _ _ assms(1)]) (auto simp: loop_iteration_def Let_def split: if_splits)
next
  case CaseResp
  let ?zero = "\<lparr>nr_From = [], nr_Payload = []\<rparr>"
  obtain x ch where recv: "chan_receive ?zero (qh_respCh (ql_handler s)) = (x, ch)" by force
  obtain got where got: "channel.history sent got (qh_respCh (ql_handler s))"
    "ql_resps s = filter decodes got"
    using assms(1) by (auto simp: counted_def)
  obtain got' where got': "channel.history sent got' ch"
    "filter decodes got' = filter decodes (got @ [x])"
    using history_chan_receive [OF got(1) recv] by blast
  obtain q err where dec: "DecodeQueryResponse (nr_Payload x) = (q, err)" by force
  from CaseResp recv dec assms(2) have s': "qh_respCh (ql_handler s') = ch
      \<and> ql_resps s' = ql_resps s @ (if decodes x then [x] else [])
      \<and> ql_errors s' = ql_errors s @ (if decodes x \<and> failed_response q then [q] else [])"
    by (auto simp: loop_iteration_def Let_def decodes_def split: if_splits option.splits)
  with got got' have "ql_resps s' = filter decodes got'" by simp
  moreover have "ql_errors s' = filter failed_response (map (fst \<circ> DecodeQueryResponse \<circ> nr_Payload) (ql_resps s'))"
    using s' assms(1) dec by (auto simp: counted_def)
  ultimately show ?thesis using s' got'(1) by (auto simp: counted_def)
qed

lemma counted_next:
  assumes "counted sent s" "query_next n e s = Some s'"
  shows "counted (sent @ delivered [e]) s'"
proof (cases e)
  case (Deliver err rcd)
  with assms(2) counted_Deliver [OF assms(1)] show ?thesis
    by (auto simp: query_next_def simp del: delivered.simps)
next
  case CloseClient
  with assms(2) obtain h where "deregisterHandler (ql_handler s) = Some h" "s' = s\<lparr>ql_handler := h\<rparr>"
    by (auto simp: query_next_def)
  with CloseClient deregister_queue show ?thesis
    by (simp add: counted_cong [OF _ _ _ assms(1)])
next
  case (Iterate c)
  with assms counted_iteration [OF assms(1)] show ?thesis
    by (auto simp: query_next_def split: if_splits)
qed

lemma query_reach_counted: "query_reach n es s \<Longrightarrow> counted (delivered es) s"
proof (induction rule: query_reach.induct)
  case reach_start
  then show ?case
    by (auto simp: counted_def query_start_def channel.history_def new_query_handler_def make_chan_def
        intro: exI [of _ "[]"])
next
  case (reach_step es s e s')
  from counted_next [OF reach_step.IH reach_step.hyps(2)] show ?case by simp
qed

lemma exited_iteration: "loop_iteration n c s = Some s' \<Longrightarrow> ql_exited s' \<Longrightarrow> \<not> ql_exited s \<Longrightarrow>
    n \<le> length (ql_resps s')"
  by (auto simp: loop_iteration_def Let_def case_prod_beta split: select_case.splits if_splits option.splits)

lemma query_reach_exited: "query_reach n es s \<Longrightarrow> ql_exited s \<Longrightarrow> n \<le> length (ql_resps s)"
proof (induction rule: query_reach.induct)
  case reach_start
  then show ?case by (simp add: query_start_def)
next
  case (reach_step es s e s')
  then show ?case
    by (cases e) (auto simp: query_next_def split: if_splits dest: exited_iteration)
qed

subsection \<open>Runs from the start\<close>

lemma query_exec_append:
  "query_exec n (es @ es') s = (case query_exec n es s of None \<Rightarrow> None | Some s' \<Rightarrow> query_exec n es' s')"
  by (induction n es s rule: query_exec.induct) (auto split: option.splits)

lemma query_reach_exec: "query_exec n es query_start = Some s \<Longrightarrow> query_reach n es s"
proof (induction es arbitrary: s rule: rev_induct)
  case Nil
  then show ?case by (simp add: reach_start)
next
  case (snoc e es)
  then obtain s1 where "query_exec n es query_start = Some s1" "query_next n e s1 = Some s"
    by (auto simp: query_exec_append split: option.splits)
  with snoc.IH show ?case by (auto intro: reach_step)
qed

subsection \<open>After the query is done\<close>

definition stalled :: "nat \<Rightarrow> query_loop \<Rightarrow> bool" where
  "stalled n s \<longleftrightarrow> handler_inv (ql_handler s) \<and> \<not> qh_registered (ql_handler s)
     \<and> ch_queue (qh_respCh (ql_handler s)) = [] \<and> length (ql_resps s) < n \<and> \<not> ql_exited s"

lemma stalled_closed:
  "stalled n s \<Longrightarrow> ch_closed (qh_ackCh (ql_handler s)) \<and> ch_closed (qh_respCh (ql_handler s))"
  by (auto simp: stalled_def handler_inv_def)

lemma stalled_iteration:
  assumes "stalled n s" "loop_iteration n c s = Some s'"
  shows "stalled n s' \<and> (c = CaseAck \<longrightarrow> length (ql_acks s') = Suc (length (ql_acks s)))"
proof (cases c)
  case CaseAck
  with assms stalled_closed [OF assms(1)] loop_iteration_inv [OF _ assms(2)] show ?thesis
    by (auto simp: stalled_def loop_iteration_def Let_def case_prod_beta chan_ready_def)
next
  case CaseResp
  with assms stalled_closed [OF assms(1)] show ?thesis
    by (auto simp: stalled_def loop_iteration_def Let_def chan_receive_empty DecodeQueryResponse_empty
        handler_inv_def chan_ready_def)
next
  case CaseDefault
  with assms stalled_closed [OF assms(1)] show ?thesis
    by (auto simp: loop_iteration_def Let_def chan_ready_def)
qed

lemma stalled_next:
  assumes "stalled n s" "query_next n e s = Some s'"
  shows "stalled n s'"
proof (cases e)
  case (Iterate c)
  with assms stalled_iteration [OF assms(1)] show ?thesis
    by (auto simp: query_next_def split: if_splits)
next
  case (Deliver err rcd)
  with assms show ?thesis by (simp add: query_next_def respondSeq_def stalled_def)
next
  case CloseClient
  with assms show ?thesis by (simp add: query_next_def deregisterHandler_def stalled_def)
qed

lemma stalled_exec: "stalled n s \<Longrightarrow> query_exec n es s = Some s' \<Longrightarrow> stalled n s'"
  by (induction n es s rule: query_exec.induct) (auto split: option.splits dest: stalled_next)

lemma stalled_ack: "stalled n s \<Longrightarrow> \<exists>s'. query_next n (Iterate CaseAck) s = Some s'"
  using stalled_closed [of n s]
  by (auto simp: query_next_def stalled_def loop_iteration_def Let_def chan_ready_def case_prod_beta)

lemma stalled_acks:
  "stalled n s \<Longrightarrow> \<exists>s'. query_exec n (replicate k (Iterate CaseAck)) s = Some s' \<and> stalled n s'
     \<and> length (ql_acks s') = length (ql_acks s) + k"
proof (induction k arbitrary: s)
  case (Suc k)
  then obtain s1 where s1: "query_next n (Iterate CaseAck) s = Some s1" using stalled_ack by blast
  then have "loop_iteration n CaseAck s = Some s1" by (auto simp: query_next_def split: if_splits)
  from stalled_iteration [OF Suc.prems this] Suc.IH [of s1] s1 show ?case by auto
qed simp

lemma stalled_reach:
  "query_reach n es s \<Longrightarrow> \<not> qh_registered (ql_handler s) \<Longrightarrow> ch_queue (qh_respCh (ql_handler s)) = []
     \<Longrightarrow> length (ql_resps s) < n \<Longrightarrow> stalled n s"
  using query_reach_inv query_reach_exited [of n es s] by (auto simp: stalled_def)

subsection \<open>When enough answers are queued\<close>

text \<open>The loop has ended with the last answer it needs, or the ones it still needs are queued and decode.\<close>

definition supplied :: "nat \<Rightarrow> query_loop \<Rightarrow> bool" where
  "supplied n s \<longleftrightarrow>
     (if ql_exited s then length (ql_resps s) = n
      else length (ql_resps s) < n
        \<and> n \<le> length (ql_resps s) + length (ch_queue (qh_respCh (ql_handler s)))
        \<and> (\<forall>r \<in> set (take (n - length (ql_resps s)) (ch_queue (qh_respCh (ql_handler s)))). decodes r))"

text \<open>The connection only adds to the queue.\<close>

lemma handler_queues:
  shows "queryHandler_Cleanup h = Some h' \<Longrightarrow> ch_queue (qh_respCh h') = ch_queue (qh_respCh h)"
    and "deregisterHandler h = Some h' \<Longrightarrow> ch_queue (qh_respCh h') = ch_queue (qh_respCh h)"
    and "respondSeq err rcd h = Some h' \<Longrightarrow> \<exists>xs. ch_queue (qh_respCh h') = ch_queue (qh_respCh h) @ xs"
proof -
  show clean: "queryHandler_Cleanup h = Some h' \<Longrightarrow> ch_queue (qh_respCh h') = ch_queue (qh_respCh h)" for h h'
    by (auto simp: queryHandler_Cleanup_def chan_close_def Let_def split: option.splits if_splits)
  then show dereg: "deregisterHandler h = Some h' \<Longrightarrow> ch_queue (qh_respCh h') = ch_queue (qh_respCh h)" for h h'
    by (force simp: deregisterHandler_def split: if_splits)
  show "respondSeq err rcd h = Some h' \<Longrightarrow> \<exists>xs. ch_queue (qh_respCh h') = ch_queue (qh_respCh h) @ xs"
    by (auto simp: respondSeq_def queryHandler_Handle_def chan_offer_def dest!: dereg
        split: if_splits option.splits)
qed

lemma supplied_more:
  assumes "supplied n s" "ch_queue (qh_respCh h) = ch_queue (qh_respCh (ql_handler s)) @ xs"
  shows "supplied n (s\<lparr>ql_handler := h\<rparr>)"
  using assms by (auto simp: supplied_def)

lemma supplied_step:
  assumes "supplied n s" "query_next n e s = Some s'"
  shows "supplied n s' \<and> length (ql_resps s') = length (ql_resps s) + (if e = Iterate CaseResp then 1 else 0)"
proof (cases e)
  case (Deliver err rcd)
  then obtain h where "respondSeq err rcd (ql_handler s) = Some h" "s' = s\<lparr>ql_handler := h\<rparr>"
    using assms(2) by (auto simp: query_next_def)
  with supplied_more [OF assms(1)] handler_queues(3) show ?thesis using Deliver by fastforce
next
  case CloseClient
  then obtain h where "deregisterHandler (ql_handler s) = Some h" "s' = s\<lparr>ql_handler := h\<rparr>"
    using assms(2) by (auto simp: query_next_def)
  with supplied_more [OF assms(1), of h "[]"] handler_queues(2) show ?thesis using CloseClient by fastforce
next
  case (Iterate c)
  then have it: "\<not> ql_exited s" "loop_iteration n c s = Some s'"
    using assms(2) by (auto simp: query_next_def split: if_splits)
  let ?q = "ch_queue (qh_respCh (ql_handler s))"
  have short: "length (ql_resps s) < n" "n \<le> length (ql_resps s) + length ?q"
    and good: "\<forall>r \<in> set (take (n - length (ql_resps s)) ?q). decodes r"
    using assms(1) it(1) by (auto simp: supplied_def)
  then obtain x xs where q: "?q = x # xs" by (cases ?q) auto
  show ?thesis
  proof (cases c)
    case CaseAck
    then show ?thesis using it short good Iterate
      by (auto simp: loop_iteration_def Let_def exit_test_def supplied_def split: prod.splits if_splits)
  next
    case CaseResp
    have n: "n - length (ql_resps s) = Suc (n - Suc (length (ql_resps s)))" using short(1) by simp
    have x: "decodes x" "\<forall>r \<in> set (take (n - Suc (length (ql_resps s))) xs). decodes r"
      using good unfolding q n by auto
    obtain a where a: "DecodeQueryResponse (nr_Payload x) = (a, None)"
      using x(1) by (metis decodes_def prod.collapse)
    have "ql_resps s' = ql_resps s @ [x]" "ch_queue (qh_respCh (ql_handler s')) = xs"
      "ql_exited s' \<longleftrightarrow> n \<le> Suc (length (ql_resps s))"
      using it(2) q a by (auto simp: loop_iteration_def CaseResp Let_def chan_ready_def chan_receive_def exit_test_def)
    with x(2) short q Iterate CaseResp show ?thesis by (auto simp: supplied_def)
  next
    case CaseDefault
    then show ?thesis using it(2) q by (simp add: loop_iteration_def chan_ready_def Let_def)
  qed
qed

lemma supplied_exec:
  "supplied n s \<Longrightarrow> query_exec n es s = Some s' \<Longrightarrow>
     supplied n s' \<and> length (ql_resps s') = length (ql_resps s) + count_list es (Iterate CaseResp)"
proof (induction es arbitrary: s)
  case (Cons e es)
  then obtain s1 where s1: "query_next n e s = Some s1" "query_exec n es s1 = Some s'"
    by (auto split: option.splits)
  from supplied_step [OF Cons.prems(1) s1(1)] Cons.IH [OF _ s1(2)] show ?case by auto
qed simp

text \<open>While an answer is missing it can be received, and the default cannot be taken.\<close>

lemma supplied_ready:
  assumes "supplied n s" "\<not> ql_exited s"
  shows "query_next n (Iterate CaseResp) s \<noteq> None" "query_next n (Iterate CaseDefault) s = None"
proof -
  have "ch_queue (qh_respCh (ql_handler s)) \<noteq> []" using assms by (auto simp: supplied_def)
  then show "query_next n (Iterate CaseResp) s \<noteq> None" "query_next n (Iterate CaseDefault) s = None"
    using assms(2) by (auto simp: query_next_def loop_iteration_def chan_ready_def Let_def split: prod.splits option.splits)
qed

subsection \<open>Properties\<close>

definition done_record :: queryRecord where
  "done_record = \<lparr>rec_Type = ''done'', rec_From = [], rec_Payload = []\<rparr>"

definition ok_answer :: QueryResponse where
  "ok_answer = \<lparr>Output = ''up'', Err = None, Status = 0\<rparr>"

definition answer_record :: "string \<Rightarrow> QueryResponse \<Rightarrow> queryRecord" where
  "answer_record from q =
     \<lparr>rec_Type = ''response'', rec_From = from, rec_Payload = QueryResponse_Encode q\<rparr>"

lemma decode_ok_answer: "DecodeQueryResponse (QueryResponse_Encode ok_answer) = (ok_answer, None)"
  by (rule response.decode_encode) (simp add: response_fits_def ok_answer_def)

lemmas query_exec_simps = query_next_def query_start_def new_query_handler_def respondSeq_def
  queryHandler_Handle_def deregisterHandler_def queryHandler_Cleanup_def chan_close_def
  chan_offer_def make_chan_def strToError_def CHANNEL_BUFFER_def Let_def

text \<open>C6: Whatever the order of deliveries and iterations, the answers the loop counts are a
  subsequence of the decodable ones the connection delivered, the errors it counts are the
  failed ones among them, and it only ends with at least as many as it expects.\<close>

theorem query_run_counts:
  assumes "query_exec n es query_start = Some s"
  shows "subseq (ql_resps s) (filter decodes (delivered es))
       \<and> ql_errors s = filter failed_response (map (fst \<circ> DecodeQueryResponse \<circ> nr_Payload) (ql_resps s))
       \<and> \<not> (ql_exited s \<and> length (ql_resps s) < n)"
proof -
  have "counted (delivered es) s" by (rule query_reach_counted [OF query_reach_exec [OF assms]])
  then obtain got where "subseq got (delivered es)" "ql_resps s = filter decodes got"
    "ql_errors s = filter failed_response (map (fst \<circ> DecodeQueryResponse \<circ> nr_Payload) (ql_resps s))"
    by (auto simp: counted_def dest: channel.history_got)
  moreover have "\<not> (ql_exited s \<and> length (ql_resps s) < n)"
    using query_reach_exited [OF query_reach_exec [OF assms]] by auto
  ultimately show ?thesis by simp
qed

definition demo_run :: "query_event list" where
  "demo_run = [Deliver [] None, Deliver [] (Some (answer_record ''n1'' ok_answer)), Iterate CaseResp]"

definition demo_end :: query_loop where
  "demo_end = the (query_exec 1 demo_run query_start)"

lemma demo_run: "query_exec 1 demo_run query_start = Some demo_end"
  by (simp add: demo_end_def demo_run_def answer_record_def query_exec_simps loop_iteration_def
      chan_ready_def chan_receive_def decode_ok_answer)

lemma demo_end: "ql_exited demo_end \<and> length (ql_resps demo_end) = 1"
  by (simp add: demo_end_def demo_run_def answer_record_def query_exec_simps loop_iteration_def
      chan_ready_def chan_receive_def decode_ok_answer)

theorem query_run_counts_witness:
  "ql_exited demo_end \<and> subseq (ql_resps demo_end) (filter decodes (delivered demo_run))"
  using query_run_counts [OF demo_run] demo_end by simp

text \<open>No message of the server and no closing of the client, at any moment of any run, makes
  the handler send on or close a closed channel.\<close>

theorem query_handler_never_panics:
  assumes "query_exec n es query_start = Some s"
  shows "query_next n (Deliver err rcd) s \<noteq> None \<and> query_next n CloseClient s \<noteq> None"
proof -
  have "handler_inv (ql_handler s)" by (rule query_reach_inv [OF query_reach_exec [OF assms]])
  from respondSeq_inv [OF this, of err rcd] deregister_inv [OF this] show ?thesis
    by (auto simp: query_next_def)
qed

theorem query_handler_never_panics_witness:
  "query_next 1 (Deliver [] (Some done_record)) demo_end \<noteq> None"
  using query_handler_never_panics [OF demo_run] by blast

text \<open>Once the query is done, with every queued answer read and fewer than expected counted,
  the loop never ends: no continuation leaves it, and it can always run another iteration.\<close>

theorem query_never_ends_when_short:
  assumes "query_exec n es query_start = Some s" "\<not> qh_registered (ql_handler s)"
    and "ch_queue (qh_respCh (ql_handler s)) = []" "length (ql_resps s) < n"
    and "query_exec n es' s = Some s'"
  shows "\<not> ql_exited s' \<and> query_next n (Iterate CaseAck) s' \<noteq> None"
proof -
  have "stalled n s'"
    by (rule stalled_exec [OF stalled_reach [OF query_reach_exec [OF assms(1)] assms(2-4)] assms(5)])
  then show ?thesis using stalled_ack [of n s'] by (auto simp: stalled_def)
qed

definition done_run :: "query_event list" where
  "done_run = [Deliver [] None, Deliver [] (Some done_record)]"

definition done_state :: query_loop where
  "done_state = the (query_exec 1 done_run query_start)"

lemma done_run: "query_exec 1 done_run query_start = Some done_state"
  by (simp add: done_state_def done_run_def done_record_def query_exec_simps)

lemma done_state:
  "\<not> qh_registered (ql_handler done_state)" "ch_queue (qh_respCh (ql_handler done_state)) = []"
  "length (ql_resps done_state) < 1"
  by (simp_all add: done_state_def done_run_def done_record_def query_exec_simps)

theorem query_never_ends_when_short_witness:
  "\<not> ql_exited done_state \<and> query_next 1 (Iterate CaseAck) done_state \<noteq> None"
  by (rule query_never_ends_when_short [OF done_run done_state, where es' = "[]"]) simp

text \<open>In that situation the count of acknowledgements grows without bound, by one for every
  receive from the closed channel.\<close>

theorem query_counts_phantom_acks:
  assumes "query_exec n es query_start = Some s" "\<not> qh_registered (ql_handler s)"
    and "ch_queue (qh_respCh (ql_handler s)) = []" "length (ql_resps s) < n"
  shows "\<exists>es' s'. query_exec n es' s = Some s' \<and> length (ql_acks s') = length (ql_acks s) + k"
  using stalled_acks [OF stalled_reach [OF query_reach_exec [OF assms(1)] assms(2-4)], of k] by blast

theorem query_counts_phantom_acks_witness:
  "\<exists>es' s'. query_exec 1 es' done_state = Some s' \<and> length (ql_acks s') = length (ql_acks done_state) + 1000"
  by (rule query_counts_phantom_acks [OF done_run done_state])

text \<open>C7: When the answers still missing are queued and decode, the loop ends, however its \<open>select\<close> chooses among the
  cases that are ready and whatever the connection and the client do meanwhile. Until it has ended an
  answer can be received and the default cannot be taken; a run can hold as many receives of
  answers as answers were missing, and no more; and the loop has ended exactly when it holds so many,
  then with the number of answers it needs. Receives of acknowledgements, also from a closed
  channel, do not count and do not end it: Go picks among ready cases at random.\<close>

theorem query_ends_with_enough_answers:
  assumes "\<not> ql_exited s" "length (ql_resps s) < n"
    and "n \<le> length (ql_resps s) + length (ch_queue (qh_respCh (ql_handler s)))"
    and "\<forall>r \<in> set (take (n - length (ql_resps s)) (ch_queue (qh_respCh (ql_handler s)))). decodes r"
    and "query_exec n es s = Some s'"
  defines "missing \<equiv> n - length (ql_resps s)" and "receives \<equiv> count_list es (Iterate CaseResp)"
  shows "receives \<le> missing \<and> (ql_exited s' \<longleftrightarrow> receives = missing)
    \<and> length (ql_resps s') = length (ql_resps s) + receives
    \<and> (\<not> ql_exited s' \<longrightarrow>
        query_next n (Iterate CaseResp) s' \<noteq> None \<and> query_next n (Iterate CaseDefault) s' = None)"
proof -
  have "supplied n s" using assms(1-4) by (simp add: supplied_def)
  from supplied_exec [OF this assms(5)] have s': "supplied n s'" "length (ql_resps s') = length (ql_resps s) + receives"
    by (simp_all add: receives_def)
  then show ?thesis
    using supplied_ready [OF s'(1)] assms(2) by (auto simp: supplied_def missing_def split: if_splits)
qed

definition demo_queued :: query_loop where
  "demo_queued = the (query_exec 1
     [Deliver [] None, Deliver [] (Some (answer_record ''n1'' ok_answer))] query_start)"

lemma demo_queued:
  "ch_queue (qh_respCh (ql_handler demo_queued)) =
     [\<lparr>nr_From = ''n1'', nr_Payload = QueryResponse_Encode ok_answer\<rparr>]"
  "\<not> ql_exited demo_queued" "ql_resps demo_queued = []"
  by (simp_all add: demo_queued_def answer_record_def query_exec_simps)

lemma demo_queued_answer:
  "\<exists>s'. query_exec 1 [CloseClient, Iterate CaseAck, Iterate CaseResp] demo_queued = Some s'"
  by (simp add: demo_queued_def answer_record_def query_exec_simps loop_iteration_def chan_ready_def chan_receive_def
      exit_test_def decode_ok_answer)

theorem query_ends_with_enough_answers_witness:
  "\<exists>s'. query_exec 1 [CloseClient, Iterate CaseAck, Iterate CaseResp] demo_queued = Some s' \<and> ql_exited s'
     \<and> length (ql_resps s') = 1"
proof -
  obtain s' where r: "query_exec 1 [CloseClient, Iterate CaseAck, Iterate CaseResp] demo_queued = Some s'"
    using demo_queued_answer by blast
  from query_ends_with_enough_answers [OF _ _ _ _ r] r show ?thesis
    by (auto simp: demo_queued decodes_def decode_ok_answer)
qed

lemma DoQuery_polling:
  assumes "DoQuery pr env rpc action config c = Polling q n"
  shows "\<exists>target args members. ctx_Args c = target # args \<and> Targets config target \<noteq> None
     \<and> action \<noteq> [] \<and> qp_Name q = action
     \<and> qp_Payload q = MessagePayload_Encode \<lparr>Target = target, Argument = (if args = [] then [] else hd args)\<rparr>
     \<and> qp_FilterTags q ''agent'' = Some ''true'' \<and> qp_Timeout q \<noteq> 0
     \<and> rpc_MembersFiltered rpc (qp_FilterTags q) = Inr members
     \<and> n = length (filter (\<lambda>m. qp_FilterNodes q = [] \<or> cm_name m \<in> set (qp_FilterNodes q)) members)"
proof -
  note q = assms [unfolded DoQuery_def Let_def]
  obtain target args where args: "ctx_Args c = target # args"
    using q by (cases "ctx_Args c") auto
  have guards: "action \<noteq> []" "Targets config target \<noteq> None"
    using q unfolding args by (auto split: if_splits)
  obtain tagArgs where tagArgs: "lookupStringSlice ''tag'' (ctx_flagSet c) = Some tagArgs"
    using q guards unfolding args by (cases "lookupStringSlice ''tag'' (ctx_flagSet c)") auto
  obtain tags where tags: "parseTagArgs tagArgs = (tags, None)"
    using q guards tagArgs unfolding args
    by (cases "parseTagArgs tagArgs"; cases "snd (parseTagArgs tagArgs)") auto
  from q guards tagArgs tags show ?thesis
    unfolding args by (auto simp: fst_FilterMembers seconds_def split: option.splits sum.splits if_splits)
qed

text \<open>A query is only sent for a configured target, carries the target and the next argument,
  is restricted to members tagged \<open>agent=true\<close> whatever \<open>--tag\<close> says, and as many answers are
  expected as members have the tags and, if hosts were named, one of the names.\<close>

theorem DoQuery_sends:
  assumes "DoQuery pr env rpc action config c = Polling q n"
  shows "\<exists>target args members. ctx_Args c = target # args \<and> Targets config target \<noteq> None
     \<and> action \<noteq> [] \<and> qp_Name q = action
     \<and> qp_Payload q = MessagePayload_Encode \<lparr>Target = target, Argument = (if args = [] then [] else hd args)\<rparr>
     \<and> qp_FilterTags q ''agent'' = Some ''true'' \<and> qp_Timeout q \<noteq> 0
     \<and> rpc_MembersFiltered rpc (qp_FilterTags q) = Inr members
     \<and> n = length (filter (\<lambda>m. qp_FilterNodes q = [] \<or> cm_name m \<in> set (qp_FilterNodes q)) members)"
  by (rule DoQuery_polling [OF assms])


definition demo_rpc :: rpc_conn where
  "demo_rpc = \<lparr>rpc_connect = (\<lambda>_ _. None), rpc_Query = (\<lambda>_. None),
     rpc_MembersFiltered = (\<lambda>_. Inr [\<lparr>cm_name = ''n1'', cm_addr = [], cm_port = 7946,
        cm_tags = [''agent'' \<mapsto> ''true''], cm_status = ''alive'', cm_protocol = (1, 2, 2),
        cm_delegate = (2, 4, 4)\<rparr>])\<rparr>"

definition demo_ctx :: Context where
  "demo_ctx = NewContext (query_FlagSet\<lparr>fs_args := [''web'', ''v1'']\<rparr>) []"

lemma demo_DoQuery:
  "\<exists>q. DoQuery (\<lambda>_. True) demo_cli demo_rpc ''deploy'' demo_config demo_ctx = Polling q 1"
  by (simp add: DoQuery_def Let_def demo_ctx_def ctx_Args_def demo_config_def lookupStringSlice_def
      fs_Lookup_def query_FlagSet_def parseTagArgs_def demo_rpc_def lookupString_def parseHostArgs_def
      fst_FilterMembers)

theorem DoQuery_sends_witness:
  "\<exists>q. DoQuery (\<lambda>_. True) demo_cli demo_rpc ''deploy'' demo_config demo_ctx = Polling q 1
     \<and> qp_Name q = ''deploy'' \<and> qp_FilterTags q ''agent'' = Some ''true''"
proof -
  obtain q where "DoQuery (\<lambda>_. True) demo_cli demo_rpc ''deploy'' demo_config demo_ctx = Polling q 1"
    using demo_DoQuery by blast
  with DoQuery_sends [OF this] show ?thesis by blast
qed

text \<open>The exit status of a query is always 0, although the body has set its exit code to 1
  when the query was refused and to 2 when an agent reported an error.\<close>

theorem query_exit_status_lost:
  "snd (with_deferred_exit (DoQuery_exitcode out final)) = 0
   \<and> fst (with_deferred_exit (DoQuery_exitcode (Refused msg) final)) = 1
   \<and> fst (with_deferred_exit (DoQuery_exitcode (Polling q n) final))
       = (if ql_errors final = [] then 0 else 2)"
  by (simp add: with_deferred_exit_def DoQuery_exitcode_def)

text \<open>\<open>cluster-status\<close> lists exactly the members the server returned for the tags whose name
  is among the hosts given, and reports their number; its exit status is 0 also on errors.\<close>

theorem DoClusterStatus_lists:
  "(DoClusterStatus env rpc c = StatusTable k known ms \<longleftrightarrow>
     (\<exists>tagArgs tags members hosts.
        lookupStringSlice ''tag'' (ctx_flagSet c) = Some tagArgs \<and> parseTagArgs tagArgs = (tags, None)
        \<and> rpc_connect rpc (GlobalString env c ''rpc'') (GlobalString env c ''rpc-auth'') = None
        \<and> rpc_MembersFiltered rpc tags = Inr members
        \<and> hosts = parseHostArgs (lookupString env ''hosts'' (ctx_flagSet c))
        \<and> ms = filter (\<lambda>m. hosts = [] \<or> cm_name m \<in> set hosts) members
        \<and> k = length ms \<and> known = length members))
   \<and> snd (with_deferred_exit (DoClusterStatus_exitcode out)) = 0"
  by (auto simp: DoClusterStatus_def with_deferred_exit_def Let_def fst_FilterMembers
      split: option.splits prod.splits sum.splits)

end
