(* ===== verification/AgentIPC.thy ===== *)
theory AgentIPC
  imports SerfSync AgentStream Query
begin

section \<open>The RPC server of an agent (serf/command/agent)\<close>

text \<open>
  The other end of the command line's RPC connection: a client has to shake hands, to
  authenticate when the agent has a key, and then sends commands, one header and one body each.
  Modelled are the commands that reach the cluster (\<open>agent.go\<close> passes them on to Serf) and
  the streams of events and of a query's answers. Key management, tags, statistics and log
  monitors are handled by a parameter once a request has passed the checks. The connection is
  read as a sequence of encoded objects; the decoders and the write to the socket are
  parameters, and a failed write or decode ends the connection.
\<close>

subsection \<open>Requests and replies\<close>

record requestHeader =
  rq_Command :: string
  rq_Seq :: "64 word"

record queryRequest =
  qrq_FilterNodes :: "string list"
  qrq_FilterTags :: "(string \<times> string) list"
  qrq_RequestAck :: bool
  qrq_Timeout :: int
  qrq_Name :: string
  qrq_Payload :: "bytes option"

record membersFilteredRequest =
  mfr_Tags :: "(string \<times> string) list"
  mfr_Status :: string
  mfr_Name :: string

text \<open>A member as the RPC protocol shows it: the status is text.\<close>

record ipc_Member =
  im_Name :: string
  im_Addr :: bytes
  im_Port :: "16 word"
  im_Tags :: "string \<rightharpoonup> string"
  im_Status :: string
  im_ProtocolMin :: byte
  im_ProtocolMax :: byte
  im_ProtocolCur :: byte
  im_DelegateMin :: byte
  im_DelegateMax :: byte
  im_DelegateCur :: byte

datatype ipc_body =
  NoBody
| JoinBody int
| MembersBody "ipc_Member list"
| MemberEventBody string "ipc_Member list"
| UserEventBody string ltime string bytes bool
| QueryEventBody string "64 word" ltime string bytes
| QueryRecordBody string string bytes
| OtherBody bytes

record ipc_reply =
  rp_Seq :: "64 word"
  rp_Error :: string
  rp_Body :: ipc_body

record IPCClient =
  ic_queryID :: "64 word"
  ic_version :: int
  ic_pending :: "64 word \<rightharpoonup> loc"
  ic_streams :: "64 word \<rightharpoonup> loc"
  ic_didAuth :: bool

definition new_IPCClient :: IPCClient where
  "new_IPCClient = \<lparr>ic_queryID = 0, ic_version = 0, ic_pending = Map.empty, ic_streams = Map.empty,
     ic_didAuth = False\<rparr>"

text \<open>
  The objects as they decode, \<open>None\<close> an error. The header is decoded over the previous one: a key
  the object does not have leaves its field as it was.
\<close>

record ipc_codec =
  id_header :: "requestHeader \<Rightarrow> bytes \<Rightarrow> requestHeader option"
  id_handshake :: "bytes \<Rightarrow> int option"
  id_auth :: "bytes \<Rightarrow> string option"
  id_event :: "bytes \<Rightarrow> (string \<times> bytes \<times> bool) option"
  id_force_leave :: "bytes \<Rightarrow> string option"
  id_join :: "bytes \<Rightarrow> (string list \<times> bool) option"
  id_members :: "bytes \<Rightarrow> membersFilteredRequest option"
  id_stream :: "bytes \<Rightarrow> string option"
  id_stop :: "bytes \<Rightarrow> (64 word) option"
  id_query :: "bytes \<Rightarrow> queryRequest option"
  id_respond :: "bytes \<Rightarrow> (64 word \<times> bytes) option"

text \<open>
  What a request ends with: the client and the node, the error that closes the connection, the
  replies written, the effects of the node, and the stream of answers that was started, as the
  sequence number and the time of the running query.
\<close>

record ipc_result =
  ir_client :: IPCClient
  ir_node :: serf_node
  ir_err :: "string option"
  ir_sent :: "ipc_reply list"
  ir_effects :: effects
  ir_stream :: "(64 word \<times> ltime) option"

record ipc_env =
  ie_auth :: string
  ie_node :: node_env
  ie_local :: query_local
  ie_names :: "string list"
  ie_joined :: "string list \<Rightarrow> nat \<times> string option \<times> messagePushPull list"
  ie_notified :: bool
  ie_leave_err :: "string option"
  ie_shutdown_err :: "string option"
  ie_regexp :: "string \<Rightarrow> string \<Rightarrow> bool option"
  ie_codec :: ipc_codec
  ie_send :: "ipc_reply \<Rightarrow> string option"
  ie_other :: "string \<Rightarrow> 64 word \<Rightarrow> bytes \<Rightarrow> IPCClient \<Rightarrow> serf_node \<Rightarrow> ipc_result"

definition errToString :: "string option \<Rightarrow> string" where
  "errToString err = (case err of None \<Rightarrow> [] | Some e \<Rightarrow> e)"

definition Send :: "ipc_env \<Rightarrow> ipc_reply \<Rightarrow> string option \<times> ipc_reply list" where
  "Send env r = (case ie_send env r of None \<Rightarrow> (None, [r]) | Some e \<Rightarrow> (Some e, []))"

text \<open>A handler that ends by writing one reply, and one whose body did not decode.\<close>

definition ipc_done ::
  "ipc_env \<Rightarrow> 64 word \<Rightarrow> string \<Rightarrow> ipc_body \<Rightarrow> IPCClient \<Rightarrow> serf_node \<Rightarrow> effects \<Rightarrow> ipc_result" where
  "ipc_done env seq error body client node e =
     (let (err, sent) = Send env \<lparr>rp_Seq = seq, rp_Error = error, rp_Body = body\<rparr>
      in \<lparr>ir_client = client, ir_node = node, ir_err = err, ir_sent = sent, ir_effects = e, ir_stream = None\<rparr>)"

definition decode_failed :: "IPCClient \<Rightarrow> serf_node \<Rightarrow> ipc_result" where
  "decode_failed client node =
     \<lparr>ir_client = client, ir_node = node, ir_err = Some ''decode failed'', ir_sent = [],
      ir_effects = no_effects, ir_stream = None\<rparr>"

subsection \<open>Handshake and authentication\<close>

definition MinIPCVersion :: int where "MinIPCVersion = 1"
definition MaxIPCVersion :: int where "MaxIPCVersion = 1"

definition handleHandshake ::
  "ipc_env \<Rightarrow> 64 word \<Rightarrow> bytes \<Rightarrow> IPCClient \<Rightarrow> serf_node \<Rightarrow> ipc_result" where
  "handleHandshake env seq body client node =
     (case id_handshake (ie_codec env) body of
        None \<Rightarrow> decode_failed client node
      | Some version \<Rightarrow>
          if version < MinIPCVersion \<or> MaxIPCVersion < version
          then ipc_done env seq ''Unsupported IPC version'' NoBody client node no_effects
          else if ic_version client \<noteq> 0
          then ipc_done env seq ''Handshake already performed'' NoBody client node no_effects
          else ipc_done env seq [] NoBody (client\<lparr>ic_version := version\<rparr>) node no_effects)"

definition handleAuth ::
  "ipc_env \<Rightarrow> 64 word \<Rightarrow> bytes \<Rightarrow> IPCClient \<Rightarrow> serf_node \<Rightarrow> ipc_result" where
  "handleAuth env seq body client node =
     (case id_auth (ie_codec env) body of
        None \<Rightarrow> decode_failed client node
      | Some key \<Rightarrow>
          if key = ie_auth env then ipc_done env seq [] NoBody (client\<lparr>ic_didAuth := True\<rparr>) node no_effects
          else ipc_done env seq ''Invalid authentication token'' NoBody client node no_effects)"

subsection \<open>Members\<close>

definition ipc_member :: "Member \<Rightarrow> ipc_Member" where
  "ipc_member m =
     \<lparr>im_Name = m_Name m, im_Addr = m_Addr m, im_Port = m_Port m, im_Tags = m_Tags m,
      im_Status = MemberStatus_String (m_Status m),
      im_ProtocolMin = m_ProtocolMin m, im_ProtocolMax = m_ProtocolMax m, im_ProtocolCur = m_ProtocolCur m,
      im_DelegateMin = m_DelegateMin m, im_DelegateMax = m_DelegateMax m, im_DelegateCur = m_DelegateCur m\<rparr>"

text \<open>\<open>names\<close> is the order in which \<open>Members\<close> iterates its map.\<close>

definition members_list :: "string list \<Rightarrow> members_state \<Rightarrow> Member list" where
  "members_list names s = map (\<lambda>n. Member.truncate (sm_store s (the (sm_members s n)))) names"

text \<open>
  \<open>filterMembers\<close> compiles \<open>^expr$\<close> for each expression, also for an empty one, and fails when
  one does not compile; \<open>re\<close> is \<open>regexp.MatchString\<close>, with \<open>None\<close> for such an expression.
\<close>

definition anchored :: "string \<Rightarrow> string" where
  "anchored expr = ''^'' @ expr @ ''$''"

definition passes :: "(string \<Rightarrow> string \<Rightarrow> bool option) \<Rightarrow> membersFilteredRequest \<Rightarrow> Member \<Rightarrow> bool" where
  "passes re req m \<longleftrightarrow>
     (\<forall>(tag, expr) \<in> set (mfr_Tags req).
        re (anchored expr) (case m_Tags m tag of Some v \<Rightarrow> v | None \<Rightarrow> []) = Some True)
     \<and> (mfr_Status req = [] \<or> re (anchored (mfr_Status req)) (MemberStatus_String (m_Status m)) = Some True)
     \<and> (mfr_Name req = [] \<or> re (anchored (mfr_Name req)) (m_Name m) = Some True)"

definition filterMembers ::
  "(string \<Rightarrow> string \<Rightarrow> bool option) \<Rightarrow> Member list \<Rightarrow> membersFilteredRequest \<Rightarrow> (string, Member list) result" where
  "filterMembers re members req =
     (if \<exists>(tag, expr) \<in> set (mfr_Tags req). re (anchored expr) [] = None
      then Inl ''Failed to compile regex''
      else if re (anchored (mfr_Status req)) [] = None then Inl ''Failed to compile regex''
      else if re (anchored (mfr_Name req)) [] = None then Inl ''Failed to compile regex''
      else Inr (filter (passes re req) members))"

definition close_connection :: "string \<Rightarrow> IPCClient \<Rightarrow> serf_node \<Rightarrow> ipc_result" where
  "close_connection err client node =
     \<lparr>ir_client = client, ir_node = node, ir_err = Some err, ir_sent = [], ir_effects = no_effects,
      ir_stream = None\<rparr>"

definition handleMembers ::
  "ipc_env \<Rightarrow> string \<Rightarrow> 64 word \<Rightarrow> bytes \<Rightarrow> IPCClient \<Rightarrow> serf_node \<Rightarrow> ipc_result" where
  "handleMembers env command seq body client node =
     (let raw = members_list (ie_names env) (sn_members node);
          answer = (\<lambda>ms. ipc_done env seq [] (MembersBody (map ipc_member ms)) client node no_effects)
      in if command = ''members-filtered'' then
           (case id_members (ie_codec env) body of
              None \<Rightarrow> decode_failed client node
            | Some req \<Rightarrow>
                (case filterMembers (ie_regexp env) raw req of
                   Inl err \<Rightarrow> close_connection err client node
                 | Inr ms \<Rightarrow> answer ms))
         else answer raw)"

subsection \<open>Commands that reach the cluster\<close>

definition handleEvent ::
  "ipc_env \<Rightarrow> 64 word \<Rightarrow> bytes \<Rightarrow> IPCClient \<Rightarrow> serf_node \<Rightarrow> ipc_result" where
  "handleEvent env seq body client node =
     (case id_event (ie_codec env) body of
        None \<Rightarrow> decode_failed client node
      | Some (name, payload, coalesce) \<Rightarrow>
          (let (err, node', e) = Serf_UserEvent (ie_node env) name payload coalesce node
           in ipc_done env seq (errToString err) NoBody client node' e))"

definition handleForceLeave ::
  "ipc_env \<Rightarrow> 64 word \<Rightarrow> bytes \<Rightarrow> IPCClient \<Rightarrow> serf_node \<Rightarrow> ipc_result" where
  "handleForceLeave env seq body client node =
     (case id_force_leave (ie_codec env) body of
        None \<Rightarrow> decode_failed client node
      | Some name \<Rightarrow>
          (let (err, ms, out, refute) =
                 RemoveFailedNode (nd_members (ie_node env)) name (ie_notified env) (sn_members node)
           in ipc_done env seq (errToString err) NoBody client (node\<lparr>sn_members := ms\<rparr>)
                (no_effects\<lparr>ef_queued := map (Pair Broadcasts) out,
                   ef_refutes := (case refute of None \<Rightarrow> [] | Some r \<Rightarrow> [r])\<rparr>)))"

definition handleJoin ::
  "ipc_env \<Rightarrow> 64 word \<Rightarrow> bytes \<Rightarrow> IPCClient \<Rightarrow> serf_node \<Rightarrow> ipc_result" where
  "handleJoin env seq body client node =
     (case id_join (ie_codec env) body of
        None \<Rightarrow> decode_failed client node
      | Some (existing, replay) \<Rightarrow>
          (let ((num, err), node', e) = node_Join (ie_node env) (\<not> replay) (ie_joined env existing) node
           in ipc_done env seq (errToString err) (JoinBody (signed_take_bit 31 (int num))) client node' e))"

text \<open>The two halves of \<open>Leave\<close> with nothing in between, then the reply, then \<open>Shutdown\<close> in any case.\<close>

definition handleLeave :: "ipc_env \<Rightarrow> 64 word \<Rightarrow> IPCClient \<Rightarrow> serf_node \<Rightarrow> ipc_result" where
  "handleLeave env seq client node =
     (let (r, ms1, out) = Leave_begin (nd_members (ie_node env)) (sn_members node);
          (err, ms2) = (case r of
                          LeaveReturns e \<Rightarrow> (e, ms1)
                        | LeaveWaits queued \<Rightarrow> Leave_finish queued (ie_notified env) (ie_leave_err env) ms1);
          ms3 = snd (Shutdown (ie_shutdown_err env) ms2)
      in ipc_done env seq (errToString err) NoBody client (node\<lparr>sn_members := ms3\<rparr>)
           (no_effects\<lparr>ef_queued := map (Pair Broadcasts) out\<rparr>))"

definition prefix_error :: string where
  "prefix_error = ''Queries cannot contain the '' @ [CHR 0x27] @ InternalQueryPrefix @ [CHR 0x27] @ '' prefix''"

definition agent_Query ::
  "node_env \<Rightarrow> query_local \<Rightarrow> string \<Rightarrow> bytes option \<Rightarrow> query_params option \<Rightarrow> serf_node \<Rightarrow>
     ((string, ltime) result \<times> serf_node \<times> effects) option" where
  "agent_Query env lo name payload params node =
     (if strip_prefix InternalQueryPrefix name \<noteq> None
         \<and> (name \<noteq> InternalQueryPrefix @ ''ping'' \<or> payload \<noteq> None)
      then Some (Inl prefix_error, node, no_effects)
      else Serf_Query env lo name (case payload of None \<Rightarrow> [] | Some p \<Rightarrow> p) params node)"

text \<open>\<open>None\<close> is a panic while the query is handled locally.\<close>

definition ipc_handleQuery ::
  "ipc_env \<Rightarrow> 64 word \<Rightarrow> bytes \<Rightarrow> IPCClient \<Rightarrow> serf_node \<Rightarrow> ipc_result option" where
  "ipc_handleQuery env seq body client node =
     (case id_query (ie_codec env) body of
        None \<Rightarrow> Some (decode_failed client node)
      | Some req \<Rightarrow>
          (let params = \<lparr>sq_FilterNodes = qrq_FilterNodes req, sq_FilterTags = qrq_FilterTags req,
                         sq_RequestAck = qrq_RequestAck req, sq_Timeout = qrq_Timeout req\<rparr>
           in case agent_Query (ie_node env) (ie_local env) (qrq_Name req) (qrq_Payload req) (Some params) node of
                None \<Rightarrow> None
              | Some (Inl err, node', e) \<Rightarrow> Some (ipc_done env seq err NoBody client node' e)
              | Some (Inr t, node', e) \<Rightarrow>
                  Some ((ipc_done env seq [] NoBody client node' e)\<lparr>ir_stream := Some (seq, t)\<rparr>)))"

subsection \<open>Streams\<close>

text \<open>The stream is registered with the agent after the reply, also when the reply failed.\<close>

definition handleStream ::
  "ipc_env \<Rightarrow> 64 word \<Rightarrow> bytes \<Rightarrow> IPCClient \<Rightarrow> serf_node \<Rightarrow> agent_state \<Rightarrow> ipc_result \<times> agent_state" where
  "handleStream env seq body client node a =
     (case id_stream (ie_codec env) body of
        None \<Rightarrow> (decode_failed client node, a)
      | Some type \<Rightarrow>
          (let filters = ParseEventFilter type in
           if \<exists>f \<in> set filters. \<not> filter_Valid f
           then (ipc_done env seq ''Invalid event filter'' NoBody client node no_effects, a)
           else if ic_streams client seq \<noteq> None
           then (ipc_done env seq ''Stream with given sequence exists'' NoBody client node no_effects, a)
           else
             (let l = ag_next a;
                  a1 = a\<lparr>ag_streams := (ag_streams a)(l := newEventStream filters seq), ag_next := Suc l\<rparr>
              in (ipc_done env seq [] NoBody (client\<lparr>ic_streams := (ic_streams client)(seq \<mapsto> l)\<rparr>) node no_effects,
                  RegisterEventHandler l a1))))"

text \<open>The log monitor that \<open>handleStop\<close> also ends is left out. \<open>None\<close> is the panic of closing twice.\<close>

definition handleStop ::
  "ipc_env \<Rightarrow> 64 word \<Rightarrow> bytes \<Rightarrow> IPCClient \<Rightarrow> serf_node \<Rightarrow> agent_state \<Rightarrow>
     (ipc_result \<times> agent_state) option" where
  "handleStop env seq body client node a =
     (case id_stop (ie_codec env) body of
        None \<Rightarrow> Some (decode_failed client node, a)
      | Some stop \<Rightarrow>
          (case ic_streams client stop of
             None \<Rightarrow> Some (ipc_done env seq [] NoBody client node no_effects, a)
           | Some l \<Rightarrow>
               (let a1 = DeregisterEventHandler l a in
                case stream_Stop (ag_streams a1 l) of
                  None \<Rightarrow> None
                | Some es \<Rightarrow>
                    Some (ipc_done env seq [] NoBody (client\<lparr>ic_streams := (ic_streams client)(stop := None)\<rparr>) node no_effects,
                      a1\<lparr>ag_streams := (ag_streams a1)(l := es)\<rparr>))))"

text \<open>A query gets an identity of its own for each client, and is pending only until its deadline.\<close>

definition RegisterQuery :: "int \<Rightarrow> squery \<Rightarrow> loc \<Rightarrow> IPCClient \<Rightarrow> 64 word \<times> IPCClient" where
  "RegisterQuery now q l client =
     (let i = ic_queryID client + 1; client1 = client\<lparr>ic_queryID := i\<rparr>
      in case q_deadline q of
           Some deadline \<Rightarrow>
             if deadline < now then (i, client1)
             else (i, client1\<lparr>ic_pending := (ic_pending client1)(i \<mapsto> l)\<rparr>)
         | None \<Rightarrow> (i, client1))"

definition query_expires :: "64 word \<Rightarrow> IPCClient \<Rightarrow> IPCClient" where
  "query_expires i client = client\<lparr>ic_pending := (ic_pending client)(i := None)\<rparr>"

fun event_record :: "int \<Rightarrow> (loc \<Rightarrow> squery) \<Rightarrow> ipc_event \<Rightarrow> IPCClient \<Rightarrow> ipc_body \<times> IPCClient" where
  "event_record now queries (AeMembers e) client =
     (MemberEventBody (EventType_String (me_Type e)) (map ipc_member (me_Members e)), client)"
| "event_record now queries (AeUser u) client =
     (UserEventBody (EventType_String EventUser) (uev_LTime u) (uev_Name u) (uev_Payload u) (uev_Coalesce u), client)"
| "event_record now queries (AeQuery l) client =
     (let q = queries l; (i, client') = RegisterQuery now q l client
      in (QueryEventBody (EventType_String EventQuery) i (q_LTime q) (q_Name q) (q_Payload q), client'))"

text \<open>
  One turn of the goroutine of a stream: it takes an event and sends it. The goroutine ends
  (\<open>False\<close>) when the send fails, or when the channel is closed and empty; \<open>None\<close> is waiting.
\<close>

definition stream_turn ::
  "ipc_env \<Rightarrow> loc \<Rightarrow> IPCClient \<Rightarrow> agent_state \<Rightarrow> (bool \<times> ipc_reply list \<times> IPCClient \<times> agent_state) option" where
  "stream_turn env l client a =
     (let es = ag_streams a l in
      case chan_take (st_chan es) of
        None \<Rightarrow> if ch_closed (st_chan es) then Some (False, [], client, a) else None
      | Some (e, c) \<Rightarrow>
          (let a' = a\<lparr>ag_streams := (ag_streams a)(l := es\<lparr>st_chan := c\<rparr>)\<rparr>;
               (rec, client') = event_record (ne_now (se_net (nd_serf (ie_node env)))) (ag_queries a) e client;
               (err, sent) = Send env \<lparr>rp_Seq = st_seq es, rp_Error = [], rp_Body = rec\<rparr>
           in Some (err = None, sent, client', a')))"

subsection \<open>Answers to a query\<close>

text \<open>The error texts of \<open>Respond\<close> are those of \<open>SerfQuery\<close>; \<open>show\<close> prints them.\<close>

definition handleRespond ::
  "(respond_error \<Rightarrow> string) \<Rightarrow> ipc_env \<Rightarrow> 64 word \<Rightarrow> bytes \<Rightarrow> IPCClient \<Rightarrow> serf_node \<Rightarrow> agent_state \<Rightarrow>
     ipc_result \<times> agent_state" where
  "handleRespond show env seq body client node a =
     (case id_respond (ie_codec env) body of
        None \<Rightarrow> (decode_failed client node, a)
      | Some (i, payload) \<Rightarrow>
          (case ic_pending client i of
             None \<Rightarrow> (ipc_done env seq ''No pending queries matching ID'' NoBody client node no_effects, a)
           | Some l \<Rightarrow>
               (let (err, q, sent) = Respond (se_net (nd_serf (ie_node env))) (ag_queries a l) payload
                in (ipc_done env seq (case err of None \<Rightarrow> [] | Some e \<Rightarrow> show e) NoBody client node
                      (no_effects\<lparr>ef_packets := sent\<rparr>),
                    a\<lparr>ag_queries := (ag_queries a)(l := q)\<rparr>))))"

text \<open>
  The stream of a query's answers: each turn takes what one ready case of the \<open>select\<close> gives, as
  Go chooses; \<open>None\<close> is a case that is not ready. The first component says whether it goes on.
\<close>

datatype stream_case = AckCase | ResponseCase | DoneCase

definition query_record :: "string \<Rightarrow> string \<Rightarrow> bytes \<Rightarrow> 64 word \<Rightarrow> ipc_reply" where
  "query_record type from payload seq =
     \<lparr>rp_Seq = seq, rp_Error = [], rp_Body = QueryRecordBody type from payload\<rparr>"

definition answers_turn ::
  "ipc_env \<Rightarrow> 64 word \<Rightarrow> stream_case \<Rightarrow> query_response \<Rightarrow> (bool \<times> ipc_reply list \<times> query_response) option" where
  "answers_turn env seq c r =
     (let send = (\<lambda>type from payload r'.
            let (err, sent) = Send env (query_record type from payload seq) in Some (err = None, sent, r'))
      in case c of
        AckCase \<Rightarrow>
          (case qr_ackCh r of
             None \<Rightarrow> None
           | Some ch \<Rightarrow>
               if chan_ready ch then
                 (let (from, ch') = chan_receive [] ch in send ''ack'' from [] (r\<lparr>qr_ackCh := Some ch'\<rparr>))
               else None)
      | ResponseCase \<Rightarrow>
          if chan_ready (qr_respCh r) then
            (let (nr, ch') = chan_receive \<lparr>nrs_From = [], nrs_Payload = []\<rparr> (qr_respCh r)
             in send ''response'' (nrs_From nr) (nrs_Payload nr) (r\<lparr>qr_respCh := ch'\<rparr>))
          else None
      | DoneCase \<Rightarrow>
          if qr_deadline r \<le> ne_now (se_net (nd_serf (ie_node env)))
          then Some (False, snd (Send env (query_record ''done'' [] [] seq)), r)
          else None)"

end
