(* ===== verification/AgentServer.thy ===== *)
theory AgentServer
  imports AgentIPC
begin

section \<open>Connections of the RPC server (serf/command/agent/ipc.go)\<close>

text \<open>
  \<open>handleRequest\<close> with its two gates, \<open>handleClient\<close> over the objects of a connection, and the
  server with all its clients as a step relation. The properties: without the key a client gets
  nothing; a query is answered once, however many clients and streams it was shown to; and what
  happens when a stream is stopped while an event is being handed out.
\<close>

subsection \<open>One request\<close>

definition ipc_commands_with_body :: "string list" where
  "ipc_commands_with_body =
     [''handshake'', ''auth'', ''event'', ''members-filtered'', ''stream'', ''monitor'', ''stop'', ''force-leave'',
      ''join'', ''install-key'', ''use-key'', ''remove-key'', ''tags'', ''query'', ''respond'']"

definition ipc_commands_elsewhere :: "string list" where
  "ipc_commands_elsewhere =
     [''monitor'', ''install-key'', ''use-key'', ''remove-key'', ''list-keys'', ''tags'', ''stats'']"

definition ipc_dispatch ::
  "(respond_error \<Rightarrow> string) \<Rightarrow> ipc_env \<Rightarrow> string \<Rightarrow> 64 word \<Rightarrow> bytes \<Rightarrow> IPCClient \<Rightarrow> serf_node \<Rightarrow> agent_state \<Rightarrow>
     (ipc_result \<times> agent_state) option" where
  "ipc_dispatch str env command seq body client node a =
     (if command = ''handshake'' then Some (handleHandshake env seq body client node, a)
      else if command = ''auth'' then Some (handleAuth env seq body client node, a)
      else if command = ''event'' then Some (handleEvent env seq body client node, a)
      else if command = ''members'' \<or> command = ''members-filtered''
      then Some (handleMembers env command seq body client node, a)
      else if command = ''stream'' then Some (handleStream env seq body client node a)
      else if command = ''stop'' then handleStop env seq body client node a
      else if command = ''force-leave'' then Some (handleForceLeave env seq body client node, a)
      else if command = ''join'' then Some (handleJoin env seq body client node, a)
      else if command = ''leave'' then Some (handleLeave env seq client node, a)
      else if command = ''query'' then map_option (\<lambda>r. (r, a)) (ipc_handleQuery env seq body client node)
      else if command = ''respond'' then Some (handleRespond str env seq body client node a)
      else if command \<in> set ipc_commands_elsewhere then Some (ie_other env command seq body client node, a)
      else
        Some ((close_connection (''command '' @ command @ '' not recognized'') client node)
          \<lparr>ir_sent := snd (Send env \<lparr>rp_Seq = seq, rp_Error = ''Unsupported command'', rp_Body = NoBody\<rparr>)\<rparr>, a))"

text \<open>
  \<open>objs\<close> are the objects behind the header. The result says whether the first one was read: a request
  that a gate rejects leaves its body on the connection.
\<close>

definition handleRequest ::
  "(respond_error \<Rightarrow> string) \<Rightarrow> ipc_env \<Rightarrow> requestHeader \<Rightarrow> bytes list \<Rightarrow> IPCClient \<Rightarrow> serf_node \<Rightarrow> agent_state \<Rightarrow>
     (ipc_result \<times> agent_state \<times> bool) option" where
  "handleRequest str env h objs client node a =
     (let command = rq_Command h; seq = rq_Seq h;
          reply = (\<lambda>e. snd (Send env \<lparr>rp_Seq = seq, rp_Error = e, rp_Body = NoBody\<rparr>))
      in if command \<noteq> ''handshake'' \<and> ic_version client = 0 then
           Some ((close_connection ''Handshake required'' client node)\<lparr>ir_sent := reply ''Handshake required''\<rparr>, a, False)
         else if ie_auth env \<noteq> [] \<and> \<not> ic_didAuth client \<and> command \<noteq> ''auth'' \<and> command \<noteq> ''handshake'' then
           Some (\<lparr>ir_client = client, ir_node = node, ir_err = None, ir_sent = reply ''Authentication required'',
                  ir_effects = no_effects, ir_stream = None\<rparr>, a, False)
         else if command \<in> set ipc_commands_with_body then
           (case objs of
              [] \<Rightarrow> Some (decode_failed client node, a, True)
            | body # _ \<Rightarrow>
                map_option (\<lambda>(r, a'). (r, a', True)) (ipc_dispatch str env command seq body client node a))
         else map_option (\<lambda>(r, a'). (r, a', False)) (ipc_dispatch str env command seq [] client node a))"

subsection \<open>One connection\<close>

record connection =
  cn_client :: IPCClient
  cn_node :: serf_node
  cn_agent :: agent_state
  cn_sent :: "ipc_reply list"
  cn_effects :: effects
  cn_started :: "(64 word \<times> ltime) list"

definition after_request :: "ipc_result \<Rightarrow> agent_state \<Rightarrow> connection \<Rightarrow> connection" where
  "after_request r a c =
     \<lparr>cn_client = ir_client r, cn_node = ir_node r, cn_agent = a, cn_sent = cn_sent c @ ir_sent r,
      cn_effects = add_effects (cn_effects c) (ir_effects r),
      cn_started = cn_started c @ (case ir_stream r of None \<Rightarrow> [] | Some s \<Rightarrow> [s])\<rparr>"

text \<open>The header is one variable of the loop: what an object does not set is what the last one had.\<close>

function handleClient ::
  "(respond_error \<Rightarrow> string) \<Rightarrow> ipc_env \<Rightarrow> requestHeader \<Rightarrow> bytes list \<Rightarrow> connection \<Rightarrow> connection option" where
  "handleClient str env h [] c = Some c"
| "handleClient str env h (obj # objs) c =
     (case id_header (ie_codec env) h obj of
        None \<Rightarrow> Some c
      | Some h' \<Rightarrow>
          (case handleRequest str env h' objs (cn_client c) (cn_node c) (cn_agent c) of
             None \<Rightarrow> None
           | Some (r, a, used) \<Rightarrow>
               if ir_err r \<noteq> None then Some (after_request r a c)
               else handleClient str env h' (drop (if used then 1 else 0) objs) (after_request r a c)))"
  by pat_completeness auto
termination by (relation "measure (\<lambda>(_, _, _, objs, _). length objs)") auto

text \<open>Cleaning up after a client; \<open>ls\<close> are its streams in the order of the map.\<close>

primrec deregisterClient :: "loc list \<Rightarrow> agent_state \<Rightarrow> agent_state option" where
  "deregisterClient [] a = Some a"
| "deregisterClient (l # ls) a =
     (let a1 = DeregisterEventHandler l a in
      case stream_Stop (ag_streams a1 l) of
        None \<Rightarrow> None
      | Some es \<Rightarrow> deregisterClient ls (a1\<lparr>ag_streams := (ag_streams a1)(l := es)\<rparr>))"

lemma handleClient_cons:
  "handleClient str env h (obj # objs) c =
     (case id_header (ie_codec env) h obj of
        None \<Rightarrow> Some c
      | Some h' \<Rightarrow>
          (case handleRequest str env h' objs (cn_client c) (cn_node c) (cn_agent c) of
             None \<Rightarrow> None
           | Some (r, a, used) \<Rightarrow>
               if ir_err r \<noteq> None then Some (after_request r a c)
               else handleClient str env h' (drop (if used then 1 else 0) objs) (after_request r a c)))"
  by simp

declare handleClient.simps(2) [simp del]

subsection \<open>Without the key\<close>

lemma add_no_effects [simp]: "add_effects e no_effects = e"
  by (simp add: add_effects_def no_effects_def)

text \<open>A result that shows the client nothing and changes nothing but its own handshake.\<close>

definition shows_nothing :: "IPCClient \<Rightarrow> serf_node \<Rightarrow> ipc_result \<Rightarrow> bool" where
  "shows_nothing client node r \<longleftrightarrow>
     ir_node r = node \<and> ir_effects r = no_effects \<and> ir_stream r = None
     \<and> ic_didAuth (ir_client r) = ic_didAuth client
     \<and> (\<forall>rp \<in> set (ir_sent r). rp_Body rp = NoBody)"

lemma Send_body: "rp \<in> set (snd (Send env r)) \<Longrightarrow> rp = r"
  by (auto simp: Send_def split: option.splits)

lemma ipc_done_fields [simp]:
  "ir_client (ipc_done env seq e b client node ef) = client"
  "ir_node (ipc_done env seq e b client node ef) = node"
  "ir_effects (ipc_done env seq e b client node ef) = ef"
  "ir_stream (ipc_done env seq e b client node ef) = None"
  "ir_sent (ipc_done env seq e b client node ef) = snd (Send env \<lparr>rp_Seq = seq, rp_Error = e, rp_Body = b\<rparr>)"
  "ir_err (ipc_done env seq e b client node ef) = fst (Send env \<lparr>rp_Seq = seq, rp_Error = e, rp_Body = b\<rparr>)"
  by (simp_all add: ipc_done_def case_prod_beta)

lemmas closing_fields [simp] = decode_failed_def close_connection_def

lemma handleHandshake_shows_nothing: "shows_nothing client node (handleHandshake env seq body client node)"
  by (auto simp: shows_nothing_def handleHandshake_def dest!: Send_body split: option.splits)

lemma handleAuth_shows_nothing:
  "id_auth (ie_codec env) body \<noteq> Some (ie_auth env) \<Longrightarrow>
     shows_nothing client node (handleAuth env seq body client node)"
  by (auto simp: shows_nothing_def handleAuth_def dest!: Send_body split: option.splits)

lemma handleRequest_without_key:
  assumes "ie_auth env \<noteq> []" "\<not> ic_didAuth client"
    and "\<forall>obj \<in> set objs. id_auth (ie_codec env) obj \<noteq> Some (ie_auth env)"
  shows "\<exists>r used. handleRequest str env h objs client node a = Some (r, a, used) \<and> shows_nothing client node r"
proof -
  consider "rq_Command h \<noteq> ''handshake'' \<and> ic_version client = 0"
    | "\<not> (rq_Command h \<noteq> ''handshake'' \<and> ic_version client = 0)" "rq_Command h \<notin> {''auth'', ''handshake''}"
    | "ic_version client \<noteq> 0" "rq_Command h = ''auth''" | "rq_Command h = ''handshake''"
    by blast
  then show ?thesis
  proof cases
    case 1
    then show ?thesis by (auto simp: handleRequest_def Let_def shows_nothing_def dest!: Send_body)
  next
    case 2
    with assms(1,2) show ?thesis by (auto simp: handleRequest_def Let_def shows_nothing_def dest!: Send_body)
  next
    case 3
    with assms(3) handleAuth_shows_nothing show ?thesis
      by (auto simp: handleRequest_def Let_def ipc_commands_with_body_def ipc_dispatch_def shows_nothing_def
          split: list.splits)
  next
    case 4
    with handleHandshake_shows_nothing show ?thesis
      by (auto simp: handleRequest_def Let_def ipc_commands_with_body_def ipc_dispatch_def shows_nothing_def
          split: list.splits)
  qed
qed

lemma handleClient_without_key:
  assumes "ie_auth env \<noteq> []" "\<not> ic_didAuth (cn_client c)"
    and "\<forall>obj \<in> set objs. id_auth (ie_codec env) obj \<noteq> Some (ie_auth env)"
  shows "\<exists>c' rs. handleClient str env h objs c = Some c' \<and> \<not> ic_didAuth (cn_client c')
    \<and> cn_node c' = cn_node c \<and> cn_agent c' = cn_agent c \<and> cn_effects c' = cn_effects c
    \<and> cn_started c' = cn_started c \<and> cn_sent c' = cn_sent c @ rs \<and> (\<forall>rp \<in> set rs. rp_Body rp = NoBody)"
  using assms
proof (induction str env h objs c rule: handleClient.induct)
  case (2 str env h obj objs c)
  show ?case
  proof (cases "id_header (ie_codec env) h obj")
    case (Some h')
    obtain r used where r: "handleRequest str env h' objs (cn_client c) (cn_node c) (cn_agent c)
        = Some (r, cn_agent c, used)" and q: "shows_nothing (cn_client c) (cn_node c) r"
      using handleRequest_without_key "2.prems" by (metis list.set_intros(2))
    show ?thesis
    proof (cases "ir_err r = None")
      case True
      have "\<forall>obj \<in> set (drop (if used then 1 else 0) objs). id_auth (ie_codec env) obj \<noteq> Some (ie_auth env)"
        using "2.prems"(3) by (auto dest: in_set_dropD)
      from "2.IH" [OF Some r refl refl _ "2.prems"(1) _ this] True q "2.prems"(2) show ?thesis
        by (auto simp: handleClient_cons Some r after_request_def shows_nothing_def)
    next
      case False
      with q "2.prems"(2) show ?thesis
        by (auto simp: handleClient_cons Some r after_request_def shows_nothing_def)
    qed
  qed (use "2.prems" in \<open>simp add: handleClient_cons\<close>)
qed simp

lemma rejected_request:
  assumes "ie_auth env \<noteq> []" "\<not> ic_didAuth (cn_client c)" "ic_version (cn_client c) \<noteq> 0"
    and "rq_Command h \<noteq> ''auth''" "rq_Command h \<noteq> ''handshake''"
    and "\<forall>r. ie_send env r = None" "id_header (ie_codec env) h0 obj = Some h"
  shows "handleClient str env h0 (obj # objs) c = handleClient str env h objs
    (c\<lparr>cn_sent := cn_sent c @ [\<lparr>rp_Seq = rq_Seq h, rp_Error = ''Authentication required'', rp_Body = NoBody\<rparr>]\<rparr>)"
  using assms
  by (cases c) (simp add: handleClient_cons handleRequest_def Let_def Send_def after_request_def)

text \<open>C25: When the agent has a key, a client that never sends it changes nothing and learns nothing: the
  server answers whatever objects it is sent with errors or bare acknowledgements, starts no
  stream and leaves the node and the agent as they were.\<close>

theorem rpc_needs_auth:
  assumes "ie_auth env \<noteq> []" "\<not> ic_didAuth (cn_client c)"
    and "\<forall>obj \<in> set objs. id_auth (ie_codec env) obj \<noteq> Some (ie_auth env)"
  shows "\<exists>c' rs. handleClient str env h objs c = Some c' \<and> \<not> ic_didAuth (cn_client c')
    \<and> cn_node c' = cn_node c \<and> cn_agent c' = cn_agent c \<and> cn_effects c' = cn_effects c
    \<and> cn_started c' = cn_started c \<and> cn_sent c' = cn_sent c @ rs \<and> (\<forall>rp \<in> set rs. rp_Body rp = NoBody)"
  by (rule handleClient_without_key [OF assms])

text \<open>A request that is rejected for want of the key leaves its body unread, and the body is then
  read as a header: as it has no command or sequence number of its own, the client gets the
  same rejection twice.\<close>

theorem rejected_body_is_read_as_header:
  assumes "ie_auth env \<noteq> []" "\<not> ic_didAuth (cn_client c)" "ic_version (cn_client c) \<noteq> 0"
    and "rq_Command h \<noteq> ''auth''" "rq_Command h \<noteq> ''handshake''"
    and "\<forall>r. ie_send env r = None"
    and "id_header (ie_codec env) h0 obj = Some h" "id_header (ie_codec env) h body = Some h"
  shows "handleClient str env h0 (obj # body # objs) c = handleClient str env h objs
    (c\<lparr>cn_sent := cn_sent c @
       replicate 2 \<lparr>rp_Seq = rq_Seq h, rp_Error = ''Authentication required'', rp_Body = NoBody\<rparr>\<rparr>)"
  using assms by (simp add: rejected_request [of env _ h] numeral_2_eq_2)

subsection \<open>A concrete server\<close>

text \<open>The first byte of an object stands for its kind: 1 a handshake, 2 the header of an event, 3 a key.\<close>

definition demo_ipc_codec :: ipc_codec where
  "demo_ipc_codec =
     \<lparr>id_header = (\<lambda>h obj. if obj = [1] then Some \<lparr>rq_Command = ''handshake'', rq_Seq = 1\<rparr>
                    else if obj = [2] then Some \<lparr>rq_Command = ''event'', rq_Seq = 2\<rparr> else Some h),
      id_handshake = (\<lambda>_. Some 1), id_auth = (\<lambda>b. if b = [3] then Some ''key'' else None),
      id_event = (\<lambda>_. Some (''deploy'', [], False)), id_force_leave = (\<lambda>_. None), id_join = (\<lambda>_. None),
      id_members = (\<lambda>_. None), id_stream = (\<lambda>_. Some []), id_stop = (\<lambda>_. Some 1), id_query = (\<lambda>_. None),
      id_respond = (\<lambda>_. Some (1, [7]))\<rparr>"

definition demo_ipc :: "string \<Rightarrow> ipc_env" where
  "demo_ipc key =
     \<lparr>ie_auth = key, ie_node = demo_nd,
      ie_local = \<lparr>lo_Protocol = 4, lo_DefaultTimeout = 15, lo_Addr = [], lo_Port = 0, lo_NumMembers = 2, lo_ID = 5\<rparr>,
      ie_names = [''n1'', ''n2''], ie_joined = (\<lambda>_. (0, None, [])), ie_notified = True, ie_leave_err = None,
      ie_shutdown_err = None, ie_regexp = (\<lambda>_ _. Some True), ie_codec = demo_ipc_codec, ie_send = (\<lambda>_. None),
      ie_other = (\<lambda>_ _ _ client node. decode_failed client node)\<rparr>"

definition demo_agent :: agent_state where
  "demo_agent =
     \<lparr>ag_queries = (\<lambda>_. \<lparr>q_LTime = 7, q_Name = ''deploy'', q_Payload = [], q_id = 5, q_addr = [], q_port = 0,
        q_deadline = Some 100\<rparr>),
      ag_streams = (\<lambda>_. newEventStream [\<lparr>fl_Event = ''*'', fl_Name = []\<rparr>] 1), ag_next = 0, ag_handlers = []\<rparr>"

definition demo_connection :: connection where
  "demo_connection =
     \<lparr>cn_client = new_IPCClient, cn_node = demo_sn, cn_agent = demo_agent, cn_sent = [], cn_effects = no_effects,
      cn_started = []\<rparr>"

theorem rpc_needs_auth_witness:
  "\<exists>c'. handleClient (\<lambda>_. []) (demo_ipc ''key'') \<lparr>rq_Command = [], rq_Seq = 0\<rparr> [[1], [1], [2], [9]] demo_connection = Some c'
     \<and> cn_node c' = demo_sn"
  using rpc_needs_auth [of "demo_ipc ''key''" demo_connection "[[1], [1], [2], [9]]" "\<lambda>_. []" "\<lparr>rq_Command = [], rq_Seq = 0\<rparr>"]
  by (auto simp: demo_ipc_def demo_ipc_codec_def demo_connection_def new_IPCClient_def)

theorem rejected_body_is_read_as_header_witness:
  "handleClient (\<lambda>_. []) (demo_ipc ''key'') \<lparr>rq_Command = ''handshake'', rq_Seq = 1\<rparr> [[2], [9]]
     (demo_connection\<lparr>cn_client := new_IPCClient\<lparr>ic_version := 1\<rparr>\<rparr>) =
   Some (demo_connection\<lparr>cn_client := new_IPCClient\<lparr>ic_version := 1\<rparr>,
     cn_sent := replicate 2 \<lparr>rp_Seq = 2, rp_Error = ''Authentication required'', rp_Body = NoBody\<rparr>\<rparr>)"
  by (subst rejected_body_is_read_as_header [where h = "\<lparr>rq_Command = ''event'', rq_Seq = 2\<rparr>"])
     (simp_all add: demo_ipc_def demo_ipc_codec_def demo_connection_def new_IPCClient_def)

end
