(* ===== verification/AgentShared.thy ===== *)
theory AgentShared
  imports AgentServer
begin

section \<open>All clients of an agent at once (serf/command/agent)\<close>

text \<open>
  The event loop, the goroutines of the clients and of their streams, and the timers work on
  shared queries, streams and handlers. \<open>server_step\<close> lets them take turns in any order: an event
  is handed to all handlers in one turn, a request is one turn, and the node may change in
  between in any way. What the turns keep is \<open>server_inv\<close>. The last property leaves the turns: a
  stream that is stopped while the event loop still holds the old list of handlers.
\<close>

record server =
  sr_node :: serf_node
  sr_agent :: agent_state
  sr_clients :: "string \<rightharpoonup> IPCClient"

inductive server_step :: "(respond_error \<Rightarrow> string) \<Rightarrow> server \<Rightarrow> server \<Rightarrow> bool" for str where
  accept: "sr_clients s name = None \<Longrightarrow>
    server_step str s (s\<lparr>sr_clients := (sr_clients s)(name \<mapsto> new_IPCClient)\<rparr>)"
| event: "event_round e (sr_agent s) = Some a \<Longrightarrow> server_step str s (s\<lparr>sr_agent := a\<rparr>)"
| request: "sr_clients s name = Some c \<Longrightarrow>
    handleRequest str env h objs c (sr_node s) (sr_agent s) = Some (r, a, used) \<Longrightarrow>
    \<forall>command seq body. ir_client (ie_other env command seq body c (sr_node s)) = c \<Longrightarrow>
    server_step str s \<lparr>sr_node = ir_node r, sr_agent = a, sr_clients = (sr_clients s)(name \<mapsto> ir_client r)\<rparr>"
| turn: "sr_clients s name = Some c \<Longrightarrow> stream_turn env l c (sr_agent s) = Some (go_on, sent, c', a) \<Longrightarrow>
    server_step str s (s\<lparr>sr_agent := a, sr_clients := (sr_clients s)(name \<mapsto> c')\<rparr>)"
| expire: "sr_clients s name = Some c \<Longrightarrow>
    server_step str s (s\<lparr>sr_clients := (sr_clients s)(name \<mapsto> query_expires i c)\<rparr>)"
| leave: "sr_clients s name = Some c \<Longrightarrow> distinct ls \<Longrightarrow> set ls = ran (ic_streams c) \<Longrightarrow>
    deregisterClient ls (sr_agent s) = Some a \<Longrightarrow>
    server_step str s (s\<lparr>sr_agent := a, sr_clients := (sr_clients s)(name := None)\<rparr>)"
| node: "server_step str s (s\<lparr>sr_node := n\<rparr>)"

subsection \<open>What a request does to the shared state\<close>

text \<open>The streams and the pending queries of a client, all that requests and turns share with it.\<close>

definition same_holds :: "IPCClient \<Rightarrow> IPCClient \<Rightarrow> bool" where
  "same_holds c c' \<longleftrightarrow> ic_streams c' = ic_streams c \<and> ic_pending c' = ic_pending c"

definition opens_stream :: "IPCClient \<Rightarrow> agent_state \<Rightarrow> IPCClient \<Rightarrow> agent_state \<Rightarrow> bool" where
  "opens_stream c a c' a' \<longleftrightarrow>
     (\<exists>seq fs. ic_streams c seq = None \<and> c' = c\<lparr>ic_streams := (ic_streams c)(seq \<mapsto> ag_next a)\<rparr>
        \<and> a' = RegisterEventHandler (ag_next a)
            (a\<lparr>ag_streams := (ag_streams a)(ag_next a := newEventStream fs seq), ag_next := Suc (ag_next a)\<rparr>))"

definition closes_stream :: "IPCClient \<Rightarrow> agent_state \<Rightarrow> IPCClient \<Rightarrow> agent_state \<Rightarrow> bool" where
  "closes_stream c a c' a' \<longleftrightarrow>
     (\<exists>seq l es. ic_streams c seq = Some l \<and> stream_Stop (ag_streams a l) = Some es
        \<and> c' = c\<lparr>ic_streams := (ic_streams c)(seq := None)\<rparr>
        \<and> a' = (DeregisterEventHandler l a)\<lparr>ag_streams := (ag_streams a)(l := es)\<rparr>)"

definition answers_query :: "IPCClient \<Rightarrow> agent_state \<Rightarrow> IPCClient \<Rightarrow> agent_state \<Rightarrow> bool" where
  "answers_query c a c' a' \<longleftrightarrow> c' = c \<and>
     (\<exists>i l net payload. ic_pending c i = Some l
        \<and> a' = a\<lparr>ag_queries := (ag_queries a)(l := fst (snd (Respond net (ag_queries a l) payload)))\<rparr>)"

lemma same_holds_refl [simp]: "same_holds c c" by (simp add: same_holds_def)

lemma client_kept [simp]:
  "ir_client (handleEvent env seq body c node) = c"
  "ir_client (handleMembers env command seq body c node) = c"
  "ir_client (handleForceLeave env seq body c node) = c"
  "ir_client (handleJoin env seq body c node) = c"
  "ir_client (handleLeave env seq c node) = c"
  "ir_client (close_connection err c node\<lparr>ir_sent := rs\<rparr>) = c"
  by (auto simp: handleEvent_def handleMembers_def handleForceLeave_def handleJoin_def handleLeave_def
      Let_def case_prod_beta split: option.splits sum.splits)

lemma handshake_kept [simp]:
  "same_holds c (ir_client (handleHandshake env seq body c node))"
  "same_holds c (ir_client (handleAuth env seq body c node))"
  by (auto simp: handleHandshake_def handleAuth_def same_holds_def split: option.splits)

lemma query_kept: "ipc_handleQuery env seq body c node = Some r \<Longrightarrow> ir_client r = c"
  by (auto simp: ipc_handleQuery_def Let_def split: option.splits sum.splits prod.splits)

lemma handleStream_change:
  "handleStream env seq body c node a = (r, a') \<Longrightarrow>
     (ir_client r = c \<and> a' = a) \<or> opens_stream c a (ir_client r) a'"
  by (auto simp: handleStream_def Let_def opens_stream_def split: option.splits if_splits)

lemma handleStop_change:
  "handleStop env seq body c node a = Some (r, a') \<Longrightarrow>
     (ir_client r = c \<and> a' = a) \<or> closes_stream c a (ir_client r) a'"
  by (force simp: handleStop_def Let_def closes_stream_def DeregisterEventHandler_def split: option.splits)

lemma handleRespond_change:
  "handleRespond str env seq body c node a = (r, a') \<Longrightarrow>
     (ir_client r = c \<and> a' = a) \<or> answers_query c a (ir_client r) a'"
  by (force simp: handleRespond_def Let_def answers_query_def case_prod_beta split: option.splits prod.splits)

definition agent_change :: "IPCClient \<Rightarrow> agent_state \<Rightarrow> IPCClient \<Rightarrow> agent_state \<Rightarrow> bool" where
  "agent_change c a c' a' \<longleftrightarrow>
     same_holds c c' \<and> a' = a \<or> opens_stream c a c' a' \<or> closes_stream c a c' a' \<or> answers_query c a c' a'"

lemma dispatch_change:
  assumes "ipc_dispatch str env command seq body c node a = Some (r, a')"
    and "ir_client (ie_other env command seq body c node) = c"
  shows "agent_change c a (ir_client r) a'"
proof -
  have "(same_holds c (ir_client r) \<and> a' = a)
    \<or> handleStream env seq body c node a = (r, a') \<or> handleStop env seq body c node a = Some (r, a')
    \<or> handleRespond str env seq body c node a = (r, a')"
    using assms
    by (simp only: ipc_dispatch_def option.inject prod.inject map_option_eq_Some split: if_split_asm)
       ((elim conjE exE)?, hypsubst?, (drule query_kept)?,
        simp only: client_kept handshake_kept same_holds_refl simp_thms)+
  then show ?thesis
    using handleStream_change handleStop_change handleRespond_change
    unfolding agent_change_def by (metis same_holds_refl)
qed

lemma handleRequest_change:
  assumes "handleRequest str env h objs c node a = Some (r, a', used)"
    and "\<forall>command seq body. ir_client (ie_other env command seq body c node) = c"
  shows "agent_change c a (ir_client r) a'"
proof -
  consider "ir_client r = c" "a' = a"
    | body where "ipc_dispatch str env (rq_Command h) (rq_Seq h) body c node a = Some (r, a')"
    using assms(1) by (auto simp: handleRequest_def Let_def split: if_splits list.splits option.splits)
  then show ?thesis
    using assms(2) dispatch_change by cases (auto simp: agent_change_def)
qed

subsection \<open>The invariant of the shared state\<close>

definition agent_ok :: "agent_state \<Rightarrow> bool" where
  "agent_ok a \<longleftrightarrow>
     (\<forall>l \<in> set (ag_handlers a). l < ag_next a \<and> \<not> ch_closed (st_chan (ag_streams a l)))
     \<and> (\<forall>l k. AeQuery k \<in> set (ch_queue (st_chan (ag_streams a l))) \<longrightarrow> k < ag_next a)"

definition holds_stream :: "(string \<rightharpoonup> IPCClient) \<Rightarrow> string \<Rightarrow> 64 word \<Rightarrow> loc \<Rightarrow> bool" where
  "holds_stream cs n q l \<longleftrightarrow> (\<exists>c. cs n = Some c \<and> ic_streams c q = Some l)"

text \<open>Every stream is registered and belongs to one client under one number.\<close>

definition clients_ok :: "(string \<rightharpoonup> IPCClient) \<Rightarrow> agent_state \<Rightarrow> bool" where
  "clients_ok cs a \<longleftrightarrow>
     (\<forall>n q l. holds_stream cs n q l \<longrightarrow> l \<in> set (ag_handlers a)
        \<and> (\<forall>n' q'. holds_stream cs n' q' l \<longrightarrow> n' = n \<and> q' = q))
     \<and> (\<forall>n c i l. cs n = Some c \<longrightarrow> ic_pending c i = Some l \<longrightarrow> l < ag_next a)"

definition server_inv :: "server \<Rightarrow> bool" where
  "server_inv s \<longleftrightarrow> agent_ok (sr_agent s) \<and> clients_ok (sr_clients s) (sr_agent s)"

lemma holds_stream_upd:
  "holds_stream (cs(n \<mapsto> c)) m q l \<longleftrightarrow> (if m = n then ic_streams c q = Some l else holds_stream cs m q l)"
  by (simp add: holds_stream_def)

lemma holds_stream_of: "cs n = Some c \<Longrightarrow> holds_stream cs n q l \<longleftrightarrow> ic_streams c q = Some l"
  by (simp add: holds_stream_def)

lemma clients_okD:
  assumes "clients_ok cs a"
  shows "holds_stream cs n q l \<Longrightarrow> l \<in> set (ag_handlers a)"
    and "holds_stream cs n q l \<Longrightarrow> holds_stream cs n' q' l \<Longrightarrow> n' = n \<and> q' = q"
    and "cs n = Some c \<Longrightarrow> ic_pending c i = Some l \<Longrightarrow> l < ag_next a"
  using assms unfolding clients_ok_def by blast+

lemma clients_okI:
  assumes "\<And>n q l. holds_stream cs n q l \<Longrightarrow> l \<in> set (ag_handlers a)"
    and "\<And>n q n' q' l. holds_stream cs n q l \<Longrightarrow> holds_stream cs n' q' l \<Longrightarrow> n' = n \<and> q' = q"
    and "\<And>n c i l. cs n = Some c \<Longrightarrow> ic_pending c i = Some l \<Longrightarrow> l < ag_next a"
  shows "clients_ok cs a"
  using assms unfolding clients_ok_def by blast

text \<open>A client whose streams are those it had, or fewer, and one that has gained a new stream.\<close>

lemma clients_ok_mono:
  assumes "clients_ok cs a" "set (ag_handlers a) \<subseteq> set (ag_handlers a')" "ag_next a \<le> ag_next a'"
    and "cs n = Some c" "ic_streams c' \<subseteq>\<^sub>m ic_streams c"
    and "\<forall>i l. ic_pending c' i = Some l \<longrightarrow> l < ag_next a'"
  shows "clients_ok (cs(n \<mapsto> c')) a'"
proof -
  have old: "holds_stream cs m q l" if "holds_stream (cs(n \<mapsto> c')) m q l" for m q l
    using that assms(4,5) by (fastforce simp: holds_stream_upd holds_stream_def map_le_def dom_def split: if_splits)
  have "ic_pending d i = Some l \<Longrightarrow> l < ag_next a'" if "(cs(n \<mapsto> c')) m = Some d" for m d i l
    using that assms(3,6) clients_okD(3) [OF assms(1)] by (fastforce split: if_splits)
  then show ?thesis
    using clients_okD(1) [OF assms(1) old] clients_okD(2) [OF assms(1) old old] assms(2)
    by (intro clients_okI) blast+
qed

lemma clients_ok_open:
  assumes "clients_ok cs a" "cs n = Some c" "new \<notin> set (ag_handlers a)"
    and "set (ag_handlers a') = insert new (set (ag_handlers a))" "ag_next a \<le> ag_next a'"
  shows "clients_ok (cs(n \<mapsto> c\<lparr>ic_streams := (ic_streams c)(seq \<mapsto> new)\<rparr>)) a'"
proof -
  let ?cs = "cs(n \<mapsto> c\<lparr>ic_streams := (ic_streams c)(seq \<mapsto> new)\<rparr>)"
  have iff: "holds_stream ?cs m q l \<longleftrightarrow> (if m = n \<and> q = seq then l = new else holds_stream cs m q l)" for m q l
    using assms(2) by (auto simp: holds_stream_upd holds_stream_of)
  have "ic_pending d i = Some l \<Longrightarrow> l < ag_next a'" if "?cs m = Some d" for m d i l
    using that assms(2,5) clients_okD(3) [OF assms(1)] by (fastforce split: if_splits)
  moreover have "new \<noteq> l" if "holds_stream cs m q l" for m q l
    using clients_okD(1) [OF assms(1) that] assms(3) by blast
  ultimately show ?thesis
    using clients_okD(1) [OF assms(1)] clients_okD(2) [OF assms(1)] assms(4)
    by (intro clients_okI) (simp_all add: iff split: if_splits, blast+)
qed

lemma clients_ok_close:
  assumes "clients_ok cs a" "cs n = Some c" "ic_streams c seq = Some l"
    and "set (ag_handlers a') = set (ag_handlers a) - {l}" "ag_next a' = ag_next a"
  shows "clients_ok (cs(n \<mapsto> c\<lparr>ic_streams := (ic_streams c)(seq := None)\<rparr>)) a'"
proof -
  let ?cs = "cs(n \<mapsto> c\<lparr>ic_streams := (ic_streams c)(seq := None)\<rparr>)"
  have iff: "holds_stream ?cs m q k \<longleftrightarrow> \<not> (m = n \<and> q = seq) \<and> holds_stream cs m q k" for m q k
    using assms(2) by (auto simp: holds_stream_upd holds_stream_of)
  have "holds_stream cs n seq l" using assms(2,3) by (simp add: holds_stream_of)
  then have "k \<noteq> l" if "holds_stream ?cs m q k" for m q k
    using that clients_okD(2) [OF assms(1)] unfolding iff by blast
  moreover have "ic_pending d i = Some k \<Longrightarrow> k < ag_next a'" if "?cs m = Some d" for m d i k
    using that assms(2,5) clients_okD(3) [OF assms(1)] by (fastforce split: if_splits)
  ultimately show ?thesis
    using clients_okD(1) [OF assms(1)] clients_okD(2) [OF assms(1)] assms(4)
    by (intro clients_okI) (simp_all add: iff, blast+)
qed

lemma clients_ok_same:
  "clients_ok cs a \<Longrightarrow> cs n = Some c \<Longrightarrow> same_holds c c' \<Longrightarrow> clients_ok (cs(n \<mapsto> c')) a"
  using clients_ok_mono [of cs a a n c c'] clients_okD(3) [of cs a n c]
  by (simp add: same_holds_def)

subsection \<open>Every turn keeps it\<close>

lemma HandleEvent_chan:
  "HandleEvent qs e es = Some es' \<Longrightarrow> ch_closed (st_chan es') = ch_closed (st_chan es)
     \<and> set (ch_queue (st_chan es')) \<subseteq> insert e (set (ch_queue (st_chan es)))"
  by (auto simp: HandleEvent_def chan_offer_def split: if_splits option.splits)

text \<open>What handing out an event leaves alone.\<close>

lemma hand_out_keeps:
  assumes "hand_out e ls a = Some a'"
  shows "ag_queries a' = ag_queries a" "ag_next a' = ag_next a" "ag_handlers a' = ag_handlers a"
    "ch_closed (st_chan (ag_streams a' l)) = ch_closed (st_chan (ag_streams a l))"
    "set (ch_queue (st_chan (ag_streams a' l))) \<subseteq> insert e (set (ch_queue (st_chan (ag_streams a l))))"
proof -
  have "ag_queries a' = ag_queries a \<and> ag_next a' = ag_next a \<and> ag_handlers a' = ag_handlers a
    \<and> (\<forall>l. ch_closed (st_chan (ag_streams a' l)) = ch_closed (st_chan (ag_streams a l))
        \<and> set (ch_queue (st_chan (ag_streams a' l))) \<subseteq> insert e (set (ch_queue (st_chan (ag_streams a l)))))"
    using assms
  proof (induction ls arbitrary: a)
    case (Cons k ks)
    then obtain b where b: "hand_event e k a = Some b" "hand_out e ks b = Some a'"
      by (auto split: option.splits)
    from b(1) obtain es where es: "HandleEvent (ag_queries a) e (ag_streams a k) = Some es"
      "b = a\<lparr>ag_streams := (ag_streams a)(k := es)\<rparr>"
      by (auto simp: hand_event_def split: option.splits)
    note IH = Cons.IH [OF b(2)]
    have keep: "ch_closed (st_chan (ag_streams b l)) = ch_closed (st_chan (ag_streams a l))
        \<and> set (ch_queue (st_chan (ag_streams b l))) \<subseteq> insert e (set (ch_queue (st_chan (ag_streams a l))))" for l
      using HandleEvent_chan [OF es(1)] es(2) by (cases "l = k") auto
    then have "set (ch_queue (st_chan (ag_streams a' l))) \<subseteq> insert e (set (ch_queue (st_chan (ag_streams a l))))"
      for l using IH by (meson insertI1 insert_subset order_trans)
    with IH keep show ?case by (simp add: es(2))
  qed auto
  then show "ag_queries a' = ag_queries a" "ag_next a' = ag_next a" "ag_handlers a' = ag_handlers a"
    "ch_closed (st_chan (ag_streams a' l)) = ch_closed (st_chan (ag_streams a l))"
    "set (ch_queue (st_chan (ag_streams a' l))) \<subseteq> insert e (set (ch_queue (st_chan (ag_streams a l))))"
    by blast+
qed

lemma hand_out_open:
  "\<forall>l \<in> set ls. \<not> ch_closed (st_chan (ag_streams a l)) \<Longrightarrow> \<exists>a'. hand_out e ls a = Some a'"
proof (induction ls arbitrary: a)
  case (Cons k ks)
  then obtain es where es: "HandleEvent (ag_queries a) e (ag_streams a k) = Some es"
    using HandleEvent_open [of "ag_streams a k" "ag_queries a" e] by auto
  let ?b = "a\<lparr>ag_streams := (ag_streams a)(k := es)\<rparr>"
  have "\<forall>l \<in> set ks. \<not> ch_closed (st_chan (ag_streams ?b l))"
    using HandleEvent_chan [OF es] Cons.prems by auto
  from Cons.IH [OF this] es show ?case by (auto simp: hand_event_def)
qed simp

lemma agent_receive_fields:
  assumes "agent_receive e a = (ev, b)"
  shows "ag_streams b = ag_streams a" "ag_handlers b = ag_handlers a" "ag_next a \<le> ag_next b"
    "\<And>k. ev = AeQuery k \<Longrightarrow> k < ag_next b" "\<And>l. l < ag_next a \<Longrightarrow> ag_queries b l = ag_queries a l"
    "ag_next b = ag_next a \<or> ag_next b = Suc (ag_next a)"
  using assms by (cases e; auto)+

lemma agent_okD:
  assumes "agent_ok a"
  shows "l \<in> set (ag_handlers a) \<Longrightarrow> l < ag_next a"
    and "l \<in> set (ag_handlers a) \<Longrightarrow> \<not> ch_closed (st_chan (ag_streams a l))"
    and "AeQuery k \<in> set (ch_queue (st_chan (ag_streams a l))) \<Longrightarrow> k < ag_next a"
  using assms unfolding agent_ok_def by blast+

lemma event_round_keeps:
  assumes "event_round e a = Some a'"
  shows "ag_handlers a' = ag_handlers a" "ag_next a \<le> ag_next a'"
    "l < ag_next a \<Longrightarrow> ag_queries a' l = ag_queries a l"
  using assms agent_receive_fields [of e a] hand_out_keeps(1,2,3)
  by (auto simp: event_round_def split: prod.splits)

lemma event_round_ok:
  assumes "event_round e a = Some a'" "agent_ok a"
  shows "agent_ok a'"
proof -
  obtain ev b where b: "agent_receive e a = (ev, b)" and h: "hand_out ev (ag_handlers b) b = Some a'"
    using assms(1) by (auto simp: event_round_def split: prod.splits)
  note keep = hand_out_keeps [OF h] and rec = agent_receive_fields [OF b]
  show ?thesis
    unfolding agent_ok_def
  proof (intro conjI ballI allI impI)
    fix l assume "l \<in> set (ag_handlers a')"
    then have l: "l \<in> set (ag_handlers a)" by (simp add: keep rec)
    then show "l < ag_next a'" using agent_okD(1) [OF assms(2) l] rec(3) by (simp add: keep)
    show "\<not> ch_closed (st_chan (ag_streams a' l))" using agent_okD(2) [OF assms(2) l] by (simp add: keep rec)
  next
    fix l k assume "AeQuery k \<in> set (ch_queue (st_chan (ag_streams a' l)))"
    then have "AeQuery k = ev \<or> AeQuery k \<in> set (ch_queue (st_chan (ag_streams a l)))"
      using keep(5) [of l] by (auto simp: rec)
    then show "k < ag_next a'"
      using rec(3,4) agent_okD(3) [OF assms(2), of k l] by (auto simp: keep)
  qed
qed

lemma event_round_defined:
  assumes "agent_ok a"
  shows "\<exists>a'. event_round e a = Some a'"
proof -
  obtain ev b where b: "agent_receive e a = (ev, b)" by fastforce
  have "\<forall>l \<in> set (ag_handlers b). \<not> ch_closed (st_chan (ag_streams b l))"
    using agent_okD(2) [OF assms] by (simp add: agent_receive_fields [OF b])
  from hand_out_open [OF this] b show ?thesis by (simp add: event_round_def)
qed

lemma clients_ok_event:
  "event_round e a = Some a' \<Longrightarrow> clients_ok cs a \<Longrightarrow> clients_ok cs a'"
  using event_round_keeps [of e a a'] unfolding clients_ok_def by (metis less_le_trans)

text \<open>Stopping a stream of a client, by request or because the client left.\<close>

lemma stream_Stop_defined: "\<not> ch_closed (st_chan es) \<Longrightarrow> \<exists>es'. stream_Stop es = Some es'"
  by (simp add: stream_Stop_def chan_close_def)

lemma stream_Stop_queue: "stream_Stop es = Some es' \<Longrightarrow> ch_queue (st_chan es') = ch_queue (st_chan es)"
  by (auto simp: stream_Stop_def chan_close_def split: if_splits option.splits)

lemma stopped_agent_ok:
  assumes "agent_ok a" "stream_Stop (ag_streams a l) = Some es"
  shows "agent_ok ((DeregisterEventHandler l a)\<lparr>ag_streams := (ag_streams a)(l := es)\<rparr>)"
  using assms stream_Stop_queue [OF assms(2)]
  by (auto simp: agent_ok_def DeregisterEventHandler_def)

lemma request_ok:
  assumes "agent_change c a c' a'" "agent_ok a" "clients_ok cs a" "cs n = Some c"
  shows "agent_ok a' \<and> clients_ok (cs(n \<mapsto> c')) a'"
  using assms(1) unfolding agent_change_def
proof (elim disjE conjE)
  assume "same_holds c c'" "a' = a"
  then show ?thesis using assms clients_ok_same by simp
next
  assume "opens_stream c a c' a'"
  then obtain seq fs where c': "ic_streams c seq = None" "c' = c\<lparr>ic_streams := (ic_streams c)(seq \<mapsto> ag_next a)\<rparr>"
    and a': "a' = RegisterEventHandler (ag_next a)
        (a\<lparr>ag_streams := (ag_streams a)(ag_next a := newEventStream fs seq), ag_next := Suc (ag_next a)\<rparr>)"
    by (auto simp: opens_stream_def)
  have "agent_ok a'"
    using assms(2) by (fastforce simp: a' agent_ok_def RegisterEventHandler_def newEventStream_def make_chan_def)
  moreover have "ag_next a \<notin> set (ag_handlers a)" using agent_okD(1) [OF assms(2)] by blast
  with assms(3,4) have "clients_ok (cs(n \<mapsto> c')) a'"
    unfolding c'(2) by (intro clients_ok_open) (auto simp: a' RegisterEventHandler_def)
  ultimately show ?thesis by simp
next
  assume "closes_stream c a c' a'"
  then obtain seq l es where l: "ic_streams c seq = Some l" "stream_Stop (ag_streams a l) = Some es"
    and c': "c' = c\<lparr>ic_streams := (ic_streams c)(seq := None)\<rparr>"
    and a': "a' = (DeregisterEventHandler l a)\<lparr>ag_streams := (ag_streams a)(l := es)\<rparr>"
    by (auto simp: closes_stream_def)
  have "clients_ok (cs(n \<mapsto> c')) a'"
    unfolding c' by (rule clients_ok_close [OF assms(3,4) l(1)]) (auto simp: a' DeregisterEventHandler_def)
  with stopped_agent_ok [OF assms(2) l(2)] show ?thesis by (simp add: a')
next
  assume "answers_query c a c' a'"
  then show ?thesis
    using assms(2-4) by (auto simp: answers_query_def agent_ok_def clients_ok_def map_upd_triv)
qed

lemma RegisterQuery_holds:
  assumes "RegisterQuery now q l c = (i, c')"
  shows "ic_streams c' = ic_streams c"
    and "ic_pending c' k = Some m \<Longrightarrow> ic_pending c k = Some m \<or> m = l"
  using assms by (auto simp: RegisterQuery_def Let_def split: option.splits if_splits)

lemma event_record_holds:
  assumes "event_record now qs e c = (rec, c')"
  shows "ic_streams c' = ic_streams c"
    and "ic_pending c' k = Some m \<Longrightarrow> ic_pending c k = Some m \<or> e = AeQuery m"
  using assms RegisterQuery_holds by (cases e; auto simp: Let_def split: prod.splits; metis)+

lemma stream_turn_keeps:
  assumes "stream_turn env l c a = Some (go_on, sent, c', a')"
  shows "ag_queries a' = ag_queries a" "ag_next a' = ag_next a" "ag_handlers a' = ag_handlers a"
    "ch_closed (st_chan (ag_streams a' k)) = ch_closed (st_chan (ag_streams a k))"
    "set (ch_queue (st_chan (ag_streams a' k))) \<subseteq> set (ch_queue (st_chan (ag_streams a k)))"
    "ic_streams c' = ic_streams c"
    "ic_pending c' i = Some m \<Longrightarrow>
       ic_pending c i = Some m \<or> AeQuery m \<in> set (ch_queue (st_chan (ag_streams a l)))"
  using assms
  by (auto simp: stream_turn_def chan_take_def Let_def split: list.splits if_splits prod.splits
      dest: event_record_holds(2) simp: event_record_holds(1))

lemma turn_ok:
  assumes "stream_turn env l c a = Some (go_on, sent, c', a')" "agent_ok a" "clients_ok cs a" "cs n = Some c"
  shows "agent_ok a' \<and> clients_ok (cs(n \<mapsto> c')) a'"
proof
  note keep = stream_turn_keeps [OF assms(1)]
  show "agent_ok a'"
    using assms(2) by (auto simp: agent_ok_def keep(2-4) dest!: subsetD [OF keep(5)])
  have "\<forall>i m. ic_pending c' i = Some m \<longrightarrow> m < ag_next a'"
    using keep(7) agent_okD(3) [OF assms(2)] clients_okD(3) [OF assms(3,4)] unfolding keep(2) by blast
  then show "clients_ok (cs(n \<mapsto> c')) a'"
    by (intro clients_ok_mono [OF assms(3) _ _ assms(4)]) (simp_all add: keep)
qed

text \<open>The streams of a client are open, so leaving closes each exactly once.\<close>

lemma deregisterClient_ok:
  assumes "agent_ok a" "distinct ls" "\<forall>l \<in> set ls. \<not> ch_closed (st_chan (ag_streams a l))"
  shows "\<exists>a'. deregisterClient ls a = Some a' \<and> agent_ok a' \<and> ag_next a' = ag_next a
    \<and> set (ag_handlers a') = set (ag_handlers a) - set ls \<and> ag_queries a' = ag_queries a"
  using assms
proof (induction ls arbitrary: a)
  case (Cons l ls)
  then obtain es where es: "stream_Stop (ag_streams a l) = Some es"
    using stream_Stop_defined [of "ag_streams a l"] by auto
  let ?b = "(DeregisterEventHandler l a)\<lparr>ag_streams := (ag_streams a)(l := es)\<rparr>"
  have "\<forall>k \<in> set ls. \<not> ch_closed (st_chan (ag_streams ?b k))" using Cons.prems by auto
  from Cons.IH [OF stopped_agent_ok [OF Cons.prems(1) es] _ this] Cons.prems(2) obtain a' where
    "deregisterClient ls ?b = Some a'" "agent_ok a'" "ag_next a' = ag_next a"
    "set (ag_handlers a') = set (ag_handlers a) - {l} - set ls" "ag_queries a' = ag_queries a"
    by (auto simp: DeregisterEventHandler_def)
  moreover have "deregisterClient (l # ls) a = deregisterClient ls ?b"
    using es by (simp add: DeregisterEventHandler_def)
  ultimately show ?case by auto
qed simp

lemma client_streams_open:
  assumes "agent_ok a" "clients_ok cs a" "cs n = Some c" "l \<in> ran (ic_streams c)"
  shows "\<not> ch_closed (st_chan (ag_streams a l))"
proof -
  obtain q where "holds_stream cs n q l" using assms(3,4) by (auto simp: ran_def holds_stream_def)
  from agent_okD(2) [OF assms(1) clients_okD(1) [OF assms(2) this]] show ?thesis .
qed

lemma leave_ok:
  assumes "agent_ok a" "clients_ok cs a" "cs n = Some c" "distinct ls" "set ls = ran (ic_streams c)"
  shows "\<exists>a'. deregisterClient ls a = Some a' \<and> agent_ok a' \<and> clients_ok (cs(n := None)) a'
    \<and> ag_next a' = ag_next a \<and> ag_queries a' = ag_queries a"
proof -
  obtain a' where a': "deregisterClient ls a = Some a'" "agent_ok a'" "ag_next a' = ag_next a"
    "set (ag_handlers a') = set (ag_handlers a) - set ls" "ag_queries a' = ag_queries a"
    using deregisterClient_ok [OF assms(1,4)] client_streams_open [OF assms(1-3)] assms(5) by blast
  have iff: "holds_stream (cs(n := None)) m q l \<longleftrightarrow> m \<noteq> n \<and> holds_stream cs m q l" for m q l
    by (auto simp: holds_stream_def)
  have "l \<notin> set ls" if "m \<noteq> n" "holds_stream cs m q l" for m q l
  proof
    assume "l \<in> set ls"
    then obtain q' where "holds_stream cs n q' l" using assms(3,5) by (auto simp: ran_def holds_stream_def)
    with clients_okD(2) [OF assms(2) that(2)] that(1) show False by blast
  qed
  then have "clients_ok (cs(n := None)) a'"
    using clients_okD(1) [OF assms(2)] clients_okD(2) [OF assms(2)] clients_okD(3) [OF assms(2)]
    by (intro clients_okI) (auto simp: iff a' split: if_splits)
  with a' show ?thesis by blast
qed

lemma server_step_inv: "server_step str s s' \<Longrightarrow> server_inv s \<Longrightarrow> server_inv s'"
proof (induction rule: server_step.induct)
  case (accept s name)
  have "holds_stream ((sr_clients s)(name \<mapsto> new_IPCClient)) n q l \<longleftrightarrow> n \<noteq> name \<and> holds_stream (sr_clients s) n q l" for n q l
    by (auto simp: holds_stream_upd new_IPCClient_def)
  then show ?case
    using accept by (auto simp: server_inv_def clients_ok_def new_IPCClient_def split: if_splits)
next
  case (event e s a)
  then show ?case using event_round_ok clients_ok_event by (auto simp: server_inv_def)
next
  case (request s name c env h objs r a used)
  then show ?case
    using request_ok [OF handleRequest_change [OF request(2,3)], of "sr_clients s" name] by (simp add: server_inv_def)
next
  case (turn s name c env l go_on sent c' a)
  then show ?case using turn_ok [OF turn(2), of "sr_clients s" name] by (simp add: server_inv_def)
next
  case (expire s name c i)
  then show ?case
    using clients_ok_mono [of "sr_clients s" "sr_agent s" "sr_agent s" name c "query_expires i c"]
      clients_okD(3) [of "sr_clients s" "sr_agent s" name c]
    by (simp add: server_inv_def query_expires_def)
next
  case (leave s name c ls a)
  then show ?case using leave_ok [of "sr_agent s" "sr_clients s" name c ls] by (auto simp: server_inv_def)
qed (simp add: server_inv_def)

inductive server_reach :: "(respond_error \<Rightarrow> string) \<Rightarrow> server \<Rightarrow> bool" for str where
  start: "(\<forall>l. ch_queue (st_chan (ag_streams a l)) = []) \<Longrightarrow> ag_handlers a = [] \<Longrightarrow>
    server_reach str \<lparr>sr_node = node, sr_agent = a, sr_clients = Map.empty\<rparr>"
| step: "server_reach str s \<Longrightarrow> server_step str s s' \<Longrightarrow> server_reach str s'"

lemma server_reach_inv: "server_reach str s \<Longrightarrow> server_inv s"
proof (induction rule: server_reach.induct)
  case (step s s')
  then show ?case by (blast intro: server_step_inv)
qed (simp add: server_inv_def agent_ok_def clients_ok_def holds_stream_def)

subsection \<open>A query that has been answered\<close>

lemma answered_step:
  "server_step str s s' \<Longrightarrow> server_inv s \<Longrightarrow> l < ag_next (sr_agent s) \<Longrightarrow> q_deadline (ag_queries (sr_agent s) l) = None \<Longrightarrow>
     l < ag_next (sr_agent s') \<and> q_deadline (ag_queries (sr_agent s') l) = None"
proof (induction rule: server_step.induct)
  case (event e s a)
  then show ?case using event_round_keeps [OF event(1)] by auto
next
  case (request s name c env h objs r a used)
  from handleRequest_change [OF request(2,3)] request(4-6) show ?case
    by (auto simp: agent_change_def opens_stream_def closes_stream_def answers_query_def
        RegisterEventHandler_def DeregisterEventHandler_def Respond_def)
next
  case (turn s name c env l go_on sent c' a)
  then show ?case using stream_turn_keeps(1,2) [OF turn(2)] by simp
next
  case (leave s name c ls a)
  then show ?case using leave_ok [of "sr_agent s" "sr_clients s" name c ls] by (auto simp: server_inv_def)
qed simp_all

lemma answered_steps:
  "(server_step str)\<^sup>*\<^sup>* s s' \<Longrightarrow> server_inv s \<Longrightarrow> l < ag_next (sr_agent s) \<Longrightarrow> q_deadline (ag_queries (sr_agent s) l) = None \<Longrightarrow>
     q_deadline (ag_queries (sr_agent s') l) = None"
proof (induction rule: converse_rtranclp_induct)
  case (step s t)
  then show ?case using server_step_inv [OF step(1,4)] answered_step [OF step(1,4-6)] by simp
qed

lemma Respond_sent_deadline: "Respond net q p = (err, q', sent) \<Longrightarrow> sent \<noteq> [] \<Longrightarrow> q_deadline q' = None"
  using Respond_sent [of net q p err q' sent] by (cases err) auto

text \<open>A stream that is closed while the loop still holds its handler.\<close>

lemma hand_out_closed:
  assumes "l \<in> set ls" "ch_closed (st_chan (ag_streams a l))"
    and "list_ex (\<lambda>f. filter_Invoke (ag_queries a) f e) (st_filters (ag_streams a l))"
  shows "hand_out e ls a = None"
  using assms
proof (induction ls arbitrary: a)
  case (Cons k ks)
  show ?case
  proof (cases "k = l")
    case True
    then show ?thesis using Cons.prems by (simp add: hand_event_def HandleEvent_closed)
  next
    case False
    then show ?thesis using Cons by (auto simp: hand_event_def split: option.splits)
  qed
qed simp

subsection \<open>Properties\<close>

text \<open>In every state the server reaches, an event can be handed to all handlers, and a stop request
  and the clean-up after a client succeed: nothing is sent on or closed twice.\<close>

theorem server_turns_never_panic:
  assumes "server_reach str s"
  shows "(\<exists>a. event_round e (sr_agent s) = Some a)
    \<and> (sr_clients s n = Some c \<longrightarrow> (\<exists>r. handleStop env seq body c (sr_node s) (sr_agent s) = Some r)
        \<and> (distinct ls \<and> set ls = ran (ic_streams c) \<longrightarrow> (\<exists>a. deregisterClient ls (sr_agent s) = Some a)))"
proof (intro conjI impI)
  have inv: "agent_ok (sr_agent s)" "clients_ok (sr_clients s) (sr_agent s)"
    using server_reach_inv [OF assms] by (simp_all add: server_inv_def)
  show "\<exists>a. event_round e (sr_agent s) = Some a" by (rule event_round_defined [OF inv(1)])
  assume c: "sr_clients s n = Some c"
  show "\<exists>r. handleStop env seq body c (sr_node s) (sr_agent s) = Some r"
    using client_streams_open [OF inv c] stream_Stop_defined
    by (fastforce simp: handleStop_def Let_def DeregisterEventHandler_def ran_def split: option.splits)
  assume "distinct ls \<and> set ls = ran (ic_streams c)"
  then show "\<exists>a. deregisterClient ls (sr_agent s) = Some a" using leave_ok [OF inv c] by blast
qed

text \<open>The event loop calls the handlers from a list it has read before: if a client stops its stream
  between the two, the event is sent on the closed channel and the agent panics.\<close>

theorem stop_races_with_event:
  assumes "server_reach str s" "sr_clients s n = Some c" "ic_streams c stop = Some l"
    and "id_stop (ie_codec env) body = Some stop"
    and "\<exists>f \<in> set (st_filters (ag_streams (sr_agent s) l)). filter_Invoke (ag_queries (sr_agent s)) f e"
  shows "\<exists>r a. handleStop env seq body c (sr_node s) (sr_agent s) = Some (r, a)
    \<and> l \<in> set (ag_handlers (sr_agent s)) \<and> hand_out e (ag_handlers (sr_agent s)) a = None"
proof -
  let ?a = "sr_agent s"
  have inv: "agent_ok ?a" "clients_ok (sr_clients s) ?a"
    using server_reach_inv [OF assms(1)] by (simp_all add: server_inv_def)
  have l: "l \<in> set (ag_handlers ?a)" "\<not> ch_closed (st_chan (ag_streams ?a l))"
    using clients_okD(1) [OF inv(2), of n stop l] assms(2,3)
      client_streams_open [OF inv assms(2) ranI [of "ic_streams c" stop l, OF assms(3)]]
    by (simp_all add: holds_stream_def)
  then obtain es where es: "stream_Stop (ag_streams ?a l) = Some es" using stream_Stop_defined by blast
  let ?b = "(DeregisterEventHandler l ?a)\<lparr>ag_streams := (ag_streams ?a)(l := es)\<rparr>"
  have "\<exists>r. handleStop env seq body c (sr_node s) ?a = Some (r, ?b)"
    using assms(3,4) es by (simp add: handleStop_def DeregisterEventHandler_def)
  moreover have "hand_out e (ag_handlers ?a) ?b = None"
    by (rule hand_out_closed [OF l(1)])
       (use assms(5) es in \<open>auto simp: stream_Stop_def chan_close_def DeregisterEventHandler_def
         list_ex_iff split: if_splits option.splits\<close>)
  ultimately show ?thesis using l(1) by blast
qed

text \<open>C26: A query that reached several clients is answered once: after one of them has answered it,
  whatever happens, every later answer to it is refused and sends nothing.\<close>

theorem query_answered_once:
  assumes "server_reach str s" "sr_clients s n = Some c"
    and "id_respond (ie_codec env) body = Some (i, p)" "ic_pending c i = Some l"
    and "handleRespond str env seq body c (sr_node s) (sr_agent s) = (r, a)" "ef_packets (ir_effects r) \<noteq> []"
    and "(server_step str)\<^sup>*\<^sup>* (s\<lparr>sr_agent := a\<rparr>) s'" "sr_clients s' n' = Some c'"
    and "id_respond (ie_codec env') body' = Some (i', p')" "ic_pending c' i' = Some l"
  shows "handleRespond str env' seq' body' c' (sr_node s') (sr_agent s')
    = (ipc_done env' seq' (str AlreadySent) NoBody c' (sr_node s') no_effects, sr_agent s')"
proof -
  have inv: "server_inv s" by (rule server_reach_inv [OF assms(1)])
  let ?q = "ag_queries (sr_agent s) l" and ?net = "se_net (nd_serf (ie_node env))"
  obtain err q sent where R: "Respond ?net ?q p = (err, q, sent)" by (metis prod_cases3)
  then have a: "a = (sr_agent s)\<lparr>ag_queries := (ag_queries (sr_agent s))(l := q)\<rparr>" "ef_packets (ir_effects r) = sent"
    using assms(3-5) by (auto simp: handleRespond_def)
  with assms(6) Respond_sent_deadline [OF R] have "q_deadline (ag_queries a l) = None" by simp
  moreover have "server_inv (s\<lparr>sr_agent := a\<rparr>)"
    using inv by (simp add: server_inv_def a(1) agent_ok_def clients_ok_def)
  moreover have "l < ag_next a"
    using clients_okD(3) [of "sr_clients s" "sr_agent s" n c i l] assms(2,4) inv by (simp add: server_inv_def a(1))
  ultimately have "q_deadline (ag_queries (sr_agent s') l) = None"
    using answered_steps [OF assms(7)] by simp
  then show ?thesis
    using assms(9,10) by (simp add: handleRespond_def Respond_def no_effects_def)
qed

subsection \<open>A concrete run\<close>

text \<open>A client shakes hands and streams all events; a query comes and is shown to it.\<close>

definition demo_header :: "string \<Rightarrow> 64 word \<Rightarrow> requestHeader" where
  "demo_header command seq = \<lparr>rq_Command = command, rq_Seq = seq\<rparr>"

definition demo_streaming :: server where
  "demo_streaming =
     \<lparr>sr_node = demo_sn,
      sr_agent = demo_agent\<lparr>ag_streams := (ag_streams demo_agent)(0 := newEventStream (ParseEventFilter []) 1),
        ag_next := Suc 0, ag_handlers := [0]\<rparr>,
      sr_clients = [''c'' \<mapsto> new_IPCClient\<lparr>ic_version := 1, ic_streams := [1 \<mapsto> 0]\<rparr>]\<rparr>"

definition demo_asked :: server where
  "demo_asked = demo_streaming\<lparr>
     sr_agent := (sr_agent demo_streaming)\<lparr>ag_queries := (ag_queries demo_agent)(Suc 0 := demo_query),
       ag_next := Suc (Suc 0)\<rparr>,
     sr_clients := [''c'' \<mapsto> new_IPCClient\<lparr>ic_version := 1, ic_streams := [1 \<mapsto> 0], ic_queryID := 1,
       ic_pending := [1 \<mapsto> Suc 0]\<rparr>]\<rparr>"

lemma demo_request:
  assumes "server_reach str s" "sr_clients s name = Some c"
    and "handleRequest str (demo_ipc []) h objs c (sr_node s) (sr_agent s) = Some (r, a, used)"
    and "s' = \<lparr>sr_node = ir_node r, sr_agent = a, sr_clients = (sr_clients s)(name \<mapsto> ir_client r)\<rparr>"
  shows "server_reach str s'"
  unfolding assms(4)
  by (rule server_reach.step [OF assms(1) server_step.request [OF assms(2,3)]]) (simp add: demo_ipc_def)

lemmas demo_ipc_simps = demo_ipc_def demo_ipc_codec_def demo_header_def Send_def
lemmas demo_request_simps = handleRequest_def Let_def ipc_commands_with_body_def ipc_dispatch_def new_IPCClient_def

lemma demo_filters: "ParseEventFilter [] = [\<lparr>fl_Event = ''*'', fl_Name = []\<rparr>]"
  by (simp add: ParseEventFilter_def parse_filter_def)

lemma demo_streaming_reach: "server_reach str demo_streaming"
proof -
  let ?s0 = "\<lparr>sr_node = demo_sn, sr_agent = demo_agent, sr_clients = Map.empty\<rparr>"
  let ?s1 = "?s0\<lparr>sr_clients := [''c'' \<mapsto> new_IPCClient]\<rparr>"
  let ?c = "new_IPCClient\<lparr>ic_version := 1\<rparr>"
  let ?s2 = "?s0\<lparr>sr_clients := [''c'' \<mapsto> ?c]\<rparr>"
  have s0: "server_reach str ?s0"
    by (rule server_reach.start) (simp_all add: demo_agent_def newEventStream_def make_chan_def)
  have s1: "server_reach str ?s1"
    using server_reach.step [OF s0 server_step.accept [of ?s0 "''c''"]] by simp
  have r2: "handleRequest str (demo_ipc []) (demo_header ''handshake'' 1) [[1]] new_IPCClient (sr_node ?s1) (sr_agent ?s1) =
      Some (ipc_done (demo_ipc []) 1 [] NoBody ?c demo_sn no_effects, demo_agent, True)"
    by (simp add: demo_request_simps demo_ipc_simps handleHandshake_def MinIPCVersion_def MaxIPCVersion_def)
  have s2: "server_reach str ?s2"
    by (rule demo_request [OF s1 _ r2, of "''c''"]) simp_all
  have r3: "handleRequest str (demo_ipc []) (demo_header ''stream'' 1) [[1]] ?c (sr_node ?s2) (sr_agent ?s2) =
      Some (ipc_done (demo_ipc []) 1 [] NoBody (?c\<lparr>ic_streams := [1 \<mapsto> 0]\<rparr>) demo_sn no_effects,
        sr_agent demo_streaming, True)"
    by (simp add: demo_request_simps demo_ipc_simps handleStream_def demo_filters filter_Valid_def
        demo_agent_def demo_streaming_def RegisterEventHandler_def)
  show ?thesis
    by (rule demo_request [OF s2 _ r3, of "''c''"]) (simp_all add: demo_streaming_def)
qed

lemma demo_asked_reach: "server_reach str demo_asked"
proof -
  let ?a = "(sr_agent demo_streaming)\<lparr>ag_queries := (ag_queries demo_agent)(Suc 0 := demo_query),
    ag_next := Suc (Suc 0),
    ag_streams := (ag_streams (sr_agent demo_streaming))(0 :=
      (newEventStream (ParseEventFilter []) 1)\<lparr>st_chan := (make_chan 512)\<lparr>ch_queue := [AeQuery (Suc 0)]\<rparr>\<rparr>)\<rparr>"
  have "event_round (SawQuery demo_query) (sr_agent demo_streaming) = Some ?a"
    by (simp add: event_round_def demo_streaming_def demo_agent_def hand_event_def HandleEvent_def chan_offer_def
        newEventStream_def make_chan_def demo_filters filter_Invoke_def)
  from server_reach.step [OF demo_streaming_reach server_step.event [OF this]]
  have s1: "server_reach str (demo_streaming\<lparr>sr_agent := ?a\<rparr>)" .
  have "stream_turn (demo_ipc []) 0 (new_IPCClient\<lparr>ic_version := 1, ic_streams := [1 \<mapsto> 0]\<rparr>) ?a =
      Some (True, [\<lparr>rp_Seq = 1, rp_Error = [], rp_Body = QueryEventBody ''query'' 1 1 ''deploy'' []\<rparr>],
        new_IPCClient\<lparr>ic_version := 1, ic_streams := [1 \<mapsto> 0], ic_queryID := 1, ic_pending := [1 \<mapsto> Suc 0]\<rparr>,
        sr_agent demo_asked)"
    by (simp add: stream_turn_def chan_take_def Let_def RegisterQuery_def demo_query_def demo_ipc_simps demo_nd_def
        demo_node_def new_IPCClient_def newEventStream_def make_chan_def demo_asked_def demo_streaming_def demo_agent_def
        demo_filters fun_eq_iff)
  then have "server_step str (demo_streaming\<lparr>sr_agent := ?a\<rparr>) demo_asked"
    using server_step.turn [of "demo_streaming\<lparr>sr_agent := ?a\<rparr>" "''c''"]
    by (simp add: demo_asked_def demo_streaming_def)
  with s1 show ?thesis by (rule server_reach.step)
qed

theorem server_turns_never_panic_witness:
  "\<exists>a. event_round (SawUser \<lparr>uev_LTime = 1, uev_Name = ''e'', uev_Payload = [], uev_Coalesce = False\<rparr>)
     (sr_agent demo_asked) = Some a"
  using server_turns_never_panic [OF demo_asked_reach [of "\<lambda>_. []"]] by blast

theorem stop_races_with_event_witness:
  "\<exists>r a. handleStop (demo_ipc []) 3 [1] (new_IPCClient\<lparr>ic_version := 1, ic_streams := [1 \<mapsto> 0]\<rparr>) demo_sn
       (sr_agent demo_streaming) = Some (r, a)
     \<and> hand_out (AeMembers \<lparr>me_Type = EventMemberJoin, me_Members = []\<rparr>) [0] a = None"
proof -
  let ?e = "AeMembers \<lparr>me_Type = EventMemberJoin, me_Members = []\<rparr>"
  have "\<exists>r a. handleStop (demo_ipc []) 3 [1] (new_IPCClient\<lparr>ic_version := 1, ic_streams := [1 \<mapsto> 0]\<rparr>)
      (sr_node demo_streaming) (sr_agent demo_streaming) = Some (r, a)
    \<and> 0 \<in> set (ag_handlers (sr_agent demo_streaming)) \<and> hand_out ?e (ag_handlers (sr_agent demo_streaming)) a = None"
    by (rule stop_races_with_event [OF demo_streaming_reach [of "\<lambda>_. []"], of "''c''" _ 1])
       (simp_all add: demo_streaming_def demo_ipc_simps newEventStream_def demo_filters filter_Invoke_def)
  then show ?thesis by (simp add: demo_streaming_def)
qed

theorem query_answered_once_witness:
  "let c = the (sr_clients demo_asked ''c'');
       (r, a) = handleRespond (\<lambda>_. ''refused'') (demo_ipc []) 4 [1] c demo_sn (sr_agent demo_asked)
   in handleRespond (\<lambda>_. ''refused'') (demo_ipc []) 5 [1] c demo_sn a
     = (ipc_done (demo_ipc []) 5 ''refused'' NoBody c demo_sn no_effects, a)"
proof -
  let ?str = "\<lambda>_. ''refused''" and ?body = "[1] :: bytes"
  obtain c where c: "sr_clients demo_asked ''c'' = Some c" "ic_pending c 1 = Some (Suc 0)"
    by (simp add: demo_asked_def)
  let ?r = "handleRespond ?str (demo_ipc []) 4 ?body c demo_sn (sr_agent demo_asked)"
  have node: "sr_node demo_asked = demo_sn" by (simp add: demo_asked_def demo_streaming_def)
  have body: "id_respond (ie_codec (demo_ipc [])) ?body = Some (1, [7])" by (simp add: demo_ipc_simps)
  have sent: "ef_packets (ir_effects (fst ?r)) \<noteq> []"
    by (simp add: handleRespond_def c demo_ipc_simps demo_asked_def demo_streaming_def demo_query_def Respond_def
        Let_def demo_nd_def demo_node_def QueryResponseSizeLimit_def response_message_def)
  have "handleRespond ?str (demo_ipc []) 4 ?body c (sr_node demo_asked) (sr_agent demo_asked) = (fst ?r, snd ?r)"
    by (simp add: node)
  from query_answered_once [OF demo_asked_reach c(1) body c(2) this sent rtranclp.rtrancl_refl, of "''c''" c "demo_ipc []" ?body 1 "[7]" 5]
    body c node show ?thesis by (simp add: case_prod_beta Let_def)
qed

end

