(* ===== verification/ClusterQuery.thy ===== *)
theory ClusterQuery
  imports AgentShared
begin

section \<open>Who is asked and who answers (serf/command/agent/ipc.go, serf/query.go)\<close>

text \<open>
  The program counts the nodes it expects with the command \<open>members-filtered\<close>, whose expressions the
  server anchors, and asks with a query whose expressions every node applies unanchored. The
  answers come back through the stream of the query, which goes on reading after the query's
  timer has closed its channels.
\<close>

subsection \<open>Counting and asking\<close>

definition tag_value :: "(string \<rightharpoonup> string) \<Rightarrow> string \<Rightarrow> string" where
  "tag_value tags t = (case tags t of Some v \<Rightarrow> v | None \<Rightarrow> [])"

text \<open>
  What \<open>regexp\<close> documents for an expression without special characters: unanchored it matches
  every text that contains it, anchored only itself.
\<close>

definition literal_expr :: "(string \<Rightarrow> string \<Rightarrow> bool option) \<Rightarrow> string \<Rightarrow> bool" where
  "literal_expr re e \<longleftrightarrow> (\<forall>v. re e v = Some (sublist e v) \<and> re (anchored e) v = Some (v = e))"

definition tags_request :: "(string \<times> string) list \<Rightarrow> membersFilteredRequest" where
  "tags_request ts = \<lparr>mfr_Tags = ts, mfr_Status = [], mfr_Name = []\<rparr>"

lemma tags_request_fields [simp]:
  "mfr_Tags (tags_request ts) = ts" "mfr_Status (tags_request ts) = []" "mfr_Name (tags_request ts) = []"
  by (simp_all add: tags_request_def)

lemma filterMembers_literal:
  assumes "literal_expr re []" "\<forall>t \<in> set ts. literal_expr re (snd t)"
  shows "filterMembers re members (tags_request ts) =
    Inr (filter (\<lambda>m. \<forall>t \<in> set ts. tag_value (m_Tags m) (fst t) = snd t) members)"
proof -
  have re: "re (anchored (snd t)) v = Some (v = snd t)" if "t \<in> set ts" for t v
    using bspec [OF assms(2) that] by (simp add: literal_expr_def)
  then have "passes re (tags_request ts) = (\<lambda>m. \<forall>t \<in> set ts. tag_value (m_Tags m) (fst t) = snd t)"
    by (simp add: passes_def tag_value_def case_prod_beta fun_eq_iff)
  moreover have "\<not> (\<exists>(tag, expr) \<in> set ts. re (anchored expr) [] = None)"
    using re by (auto simp del: not_None_eq)
  ultimately show ?thesis
    using assms(1) by (simp add: filterMembers_def literal_expr_def)
qed

lemma node_literal:
  assumes "filter_codec fe" "encodeFilters fe nodes ts = Inr fs" "\<forall>t \<in> set ts. literal_expr (fe_regexp fe) (snd t)"
  shows "shouldProcessQuery fe name tags fs =
    Some ((nodes = [] \<or> name \<in> set nodes) \<and> (\<forall>t \<in> set ts. sublist (snd t) (tag_value tags (fst t))))"
proof -
  have "tag_matches fe tags t \<longleftrightarrow> sublist (snd t) (tag_value tags (fst t))" if "t \<in> set ts" for t
    using bspec [OF assms(3) that] by (simp add: tag_matches_def literal_expr_def tag_value_def)
  then show ?thesis unfolding shouldProcess_encoded [OF assms(1,2)] by simp
qed

subsection \<open>Answers\<close>

lemma Send_sent: "snd (Send env r) = [] \<or> snd (Send env r) = [r]"
  by (auto simp: Send_def split: option.splits)

definition stream_source :: "query_response \<Rightarrow> 64 word \<Rightarrow> ipc_reply \<Rightarrow> bool" where
  "stream_source r seq rp \<longleftrightarrow>
     (\<exists>ch from. qr_ackCh r = Some ch \<and> from \<in> set (ch_queue ch) \<and> rp = query_record ''ack'' from [] seq)
     \<or> (\<exists>nr \<in> set (ch_queue (qr_respCh r)). rp = query_record ''response'' (nrs_From nr) (nrs_Payload nr) seq)
     \<or> rp = query_record ''done'' [] [] seq"

lemma answers_turn_open:
  assumes "response_inv r" "\<not> qr_closed r" "answers_turn env seq c r = Some (go_on, sent, r')"
  shows "\<forall>rp \<in> set sent. stream_source r seq rp"
proof (cases c)
  case AckCase
  then obtain ch where "qr_ackCh r = Some ch" "chan_ready ch"
    "sent = snd (Send env (query_record ''ack'' (fst (chan_receive [] ch)) [] seq))"
    using assms(3) by (auto simp: answers_turn_def Let_def case_prod_beta split: option.splits if_splits)
  moreover have "ch_queue ch \<noteq> []"
    using assms(1,2) calculation(1,2) by (auto simp: response_inv_def chan_ready_def)
  ultimately show ?thesis
    using Send_sent [of env "query_record ''ack'' (fst (chan_receive [] ch)) [] seq"]
    by (auto simp: stream_source_def chan_receive_def split: list.splits)
next
  case ResponseCase
  let ?nr = "fst (chan_receive \<lparr>nrs_From = [], nrs_Payload = []\<rparr> (qr_respCh r))"
  from ResponseCase have "chan_ready (qr_respCh r)"
    "sent = snd (Send env (query_record ''response'' (nrs_From ?nr) (nrs_Payload ?nr) seq))"
    using assms(3) by (auto simp: answers_turn_def Let_def case_prod_beta split: if_splits)
  moreover have "ch_queue (qr_respCh r) \<noteq> []"
    using assms(1,2) calculation(1) by (auto simp: response_inv_def chan_ready_def)
  ultimately show ?thesis
    using Send_sent [of env "query_record ''response'' (nrs_From ?nr) (nrs_Payload ?nr) seq"]
    by (auto simp: stream_source_def chan_receive_def split: list.splits)
next
  case DoneCase
  with assms(3) Send_sent [of env "query_record ''done'' [] [] seq"] show ?thesis
    by (auto simp: answers_turn_def stream_source_def split: if_splits)
qed

lemma answers_turn_drained:
  assumes "response_inv r" "qr_closed r" "qr_ackCh r = Some ch" "ch_queue ch = []" "\<forall>rp. ie_send env rp = None"
  shows "answers_turn env seq AckCase r = Some (True, [query_record ''ack'' [] [] seq], r)"
proof -
  have "ch_closed ch" using assms(1-3) by (auto simp: response_inv_def)
  with assms(3-5) show ?thesis
    by (cases r) (simp add: answers_turn_def chan_ready_def chan_receive_def Send_def)
qed

subsection \<open>Properties\<close>

text \<open>For tags without special characters the program counts the members whose tags equal those asked
  for, but a query reaches every node whose tags contain them: the counted nodes all process
  it, and so do nodes that were not counted.\<close>

theorem counted_and_asked_differ:
  assumes "filter_codec fe" "encodeFilters fe nodes ts = Inr fs"
    and "literal_expr (fe_regexp fe) []" "\<forall>t \<in> set ts. literal_expr (fe_regexp fe) (snd t)"
  shows "filterMembers (fe_regexp fe) members (tags_request ts) =
      Inr (filter (\<lambda>m. \<forall>t \<in> set ts. tag_value (m_Tags m) (fst t) = snd t) members)
    \<and> shouldProcessQuery fe (m_Name m) (m_Tags m) fs =
      Some ((nodes = [] \<or> m_Name m \<in> set nodes) \<and> (\<forall>t \<in> set ts. sublist (snd t) (tag_value (m_Tags m) (fst t))))"
  using filterMembers_literal [OF assms(3,4)] node_literal [OF assms(1,2,4)] by blast

text \<open>While a query runs, its stream sends only acknowledgements and answers that arrived. Once the
  timer has closed the channels and until the stream notices the end, it can send any number of
  acknowledgements that come from no node.\<close>

theorem answers_stream_records:
  assumes "response_inv r" "\<forall>rp. ie_send env rp = None"
  shows "(\<not> qr_closed r \<longrightarrow> answers_turn env seq c r = Some (go_on, sent, r') \<longrightarrow> (\<forall>rp \<in> set sent. stream_source r seq rp))
    \<and> (qr_closed r \<longrightarrow> qr_ackCh r = Some ch \<longrightarrow> ch_queue ch = [] \<longrightarrow>
        answers_turn env seq AckCase r = Some (True, [query_record ''ack'' [] [] seq], r))"
  using answers_turn_open [OF assms(1)] answers_turn_drained [OF assms(1) _ _ _ assms(2)] by blast

subsection \<open>Concrete instances\<close>

text \<open>A matcher for expressions without special characters, anchored at both ends or not at all.\<close>

definition demo_regexp :: "string \<Rightarrow> string \<Rightarrow> bool option" where
  "demo_regexp e v =
     Some (case e of c # cs \<Rightarrow> if c = CHR ''^'' then v = butlast cs else sublist e v | [] \<Rightarrow> True)"

definition demo_tag_filter :: filter_env where
  "demo_tag_filter =
     \<lparr>fe_encode_nodes = (\<lambda>ns. if ns = [''n1''] then Inr [1] else Inl ''unsupported''),
      fe_encode_tag = (\<lambda>t. if t = (''role'', ''web'') then Inr [2] else Inl ''unsupported''),
      fe_decode_nodes = (\<lambda>b. if b = [1] then Some [''n1''] else None),
      fe_decode_tag = (\<lambda>b. if b = [2] then Some (''role'', ''web'') else None), fe_regexp = demo_regexp\<rparr>"

definition demo_webdb :: Member where
  "demo_webdb =
     \<lparr>m_Name = ''db1'', m_Addr = [127, 0, 0, 1], m_Port = 7946, m_Tags = [''role'' \<mapsto> ''webdb''], m_Status = StatusAlive,
      m_ProtocolMin = 1, m_ProtocolMax = 2, m_ProtocolCur = 2, m_DelegateMin = 2, m_DelegateMax = 4, m_DelegateCur = 4\<rparr>"

theorem counted_and_asked_differ_witness:
  "filterMembers demo_regexp [demo_webdb] (tags_request [(''role'', ''web'')]) = Inr []
   \<and> shouldProcessQuery demo_tag_filter ''db1'' (m_Tags demo_webdb) [[1, 2]] = Some True"
proof -
  have codec: "filter_codec demo_tag_filter" by (auto simp: filter_codec_def demo_tag_filter_def)
  have enc: "encodeFilters demo_tag_filter [] [(''role'', ''web'')] = Inr [[1, 2]]"
    by (simp add: encodeFilters_def demo_tag_filter_def filterTagType_def)
  have re: "fe_regexp demo_tag_filter = demo_regexp" by (simp add: demo_tag_filter_def)
  have lit: "literal_expr demo_regexp []" "literal_expr demo_regexp ''web''"
    by (simp_all add: literal_expr_def demo_regexp_def anchored_def)
  have "sublist ''web'' ''webdb''" by (simp add: sublist_Cons_right)
  moreover have "m_Name demo_webdb = ''db1''" "m_Tags demo_webdb ''role'' = Some ''webdb''" by (simp_all add: demo_webdb_def)
  ultimately show ?thesis
    using counted_and_asked_differ [OF codec enc, of "[demo_webdb]" demo_webdb] lit
    by (simp add: re tag_value_def)
qed

theorem answers_stream_records_witness:
  "answers_turn (demo_ipc []) 3 AckCase (the (QueryResponse_Close (newQueryResponse 0 4 demo_gossip))) =
     Some (True, [query_record ''ack'' [] [] 3], the (QueryResponse_Close (newQueryResponse 0 4 demo_gossip)))"
proof -
  let ?r = "the (QueryResponse_Close (newQueryResponse 0 4 demo_gossip))"
  have inv: "response_inv ?r" "qr_closed ?r"
    using Close_inv [OF response_inv_new [of 0 4 demo_gossip]] by auto
  have "qr_ackCh ?r = Some ((make_chan 4)\<lparr>ch_closed := True\<rparr>)"
    by (simp add: QueryResponse_Close_def newQueryResponse_def mq_Ack_def demo_gossip_def queryFlagAck_def
        chan_close_def make_chan_def)
  then show ?thesis
    using answers_stream_records [OF inv(1), of "demo_ipc []" 3] inv(2)
    by (simp add: demo_ipc_def make_chan_def)
qed

end
