(* ===== verification/Swim.thy ===== *)
theory Swim
  imports SerfMembers
begin

section \<open>Who is alive: memberlist's view of the cluster (memberlist/state.go)\<close>

text \<open>
  Memberlist keeps an incarnation number and a state for every node it has heard of, and changes
  them on three kinds of message. Other nodes' claims are believed and passed on, a claim about
  the node itself is refuted with a higher incarnation. Modelled are these handlers, the
  suspicion timer, the exchange of states, the clean-up of dead nodes, \<open>UpdateNode\<close> and
  \<open>Leave\<close>. The pointers that the map and the list share are
  written only through the map, so the list holds names. A call can also panic, or loop for ever
  while it holds the lock of the nodes.
\<close>

subsection \<open>Data\<close>

datatype 'a run = Returns 'a | Panics | Hangs

datatype nodeStateType = stateAlive | stateSuspect | stateDead

record nodeState = Node +
  ns_Incarnation :: "32 word"
  ns_State :: nodeStateType
  ns_StateChange :: int

record alive =
  al_Incarnation :: "32 word"
  al_Node :: string
  al_Addr :: bytes
  al_Port :: "16 word"
  al_Meta :: bytes
  al_Vsn :: bytes

record suspect =
  su_Incarnation :: "32 word"
  su_Node :: string
  su_From :: string

record dead =
  de_Incarnation :: "32 word"
  de_Node :: string
  de_From :: string

record pushNodeState =
  pn_Name :: string
  pn_Addr :: bytes
  pn_Port :: "16 word"
  pn_Meta :: bytes
  pn_Incarnation :: "32 word"
  pn_State :: nodeStateType
  pn_Vsn :: bytes

datatype swim_message = AliveMsg alive | SuspectMsg suspect | DeadMsg dead

text \<open>What a handler queues for gossip, tells its delegates, and the suspicion timers it starts.\<close>

datatype swim_output =
  Gossip swim_message
| NotifyJoin Node
| NotifyUpdate Node
| NotifyLeave Node
| NotifyConflict Node Node
| StartTimer string int

text \<open>
  The name of the local node, the alive delegate, whether there is a conflict delegate, which
  messages can be encoded, the time, and what \<open>rand.Uint32\<close> returns.
\<close>

record swim_env =
  sw_Name :: string
  sw_Alive :: "(Node \<Rightarrow> string option) option"
  sw_Conflict :: bool
  sw_encodes :: "swim_message \<Rightarrow> bool"
  sw_now :: int
  sw_random :: "32 word"

record memberlist =
  mb_map :: "string \<rightharpoonup> nodeState"
  mb_nodes :: "string list"
  mb_incarnation :: "32 word"
  mb_leave :: bool

definition gossip_out :: "swim_env \<Rightarrow> swim_message \<Rightarrow> swim_output list" where
  "gossip_out env m = (if sw_encodes env m then [Gossip m] else [])"

definition set_node :: "string \<Rightarrow> nodeState \<Rightarrow> memberlist \<Rightarrow> memberlist" where
  "set_node n st m = m\<lparr>mb_map := (mb_map m)(n \<mapsto> st)\<rparr>"

definition versions :: "'a Node_scheme \<Rightarrow> bytes" where
  "versions n = [n_PMin n, n_PMax n, n_PCur n, n_DMin n, n_DMax n, n_DCur n]"

subsection \<open>Refuting\<close>

text \<open>\<open>inc := nextIncarnation(); for t >= inc { inc = nextIncarnation() }\<close>\<close>

partial_function (option) incarnation_above :: "32 word \<Rightarrow> 32 word \<Rightarrow> (32 word) option" where
  "incarnation_above t c = (let inc = c + 1 in if inc \<le> t then incarnation_above t inc else Some inc)"

definition refuting_alive :: "32 word \<Rightarrow> nodeState \<Rightarrow> alive" where
  "refuting_alive inc st =
     \<lparr>al_Incarnation = inc, al_Node = n_Name st, al_Addr = n_Addr st, al_Port = n_Port st, al_Meta = n_Meta st,
      al_Vsn = versions st\<rparr>"

definition swim_refute ::
  "swim_env \<Rightarrow> 32 word \<Rightarrow> string \<Rightarrow> nodeState \<Rightarrow> memberlist \<Rightarrow> (memberlist \<times> swim_output list) run" where
  "swim_refute env t n st m =
     (case incarnation_above t (mb_incarnation m) of
        None \<Rightarrow> Hangs
      | Some inc \<Rightarrow>
          Returns (set_node n (st\<lparr>ns_Incarnation := inc\<rparr>) (m\<lparr>mb_incarnation := inc\<rparr>),
                   gossip_out env (AliveMsg (refuting_alive inc st))))"

subsection \<open>Alive\<close>

text \<open>The version vector must have six entries; a shorter one panics.\<close>

definition alive_Node :: "alive \<Rightarrow> Node" where
  "alive_Node a =
     \<lparr>n_Name = al_Node a, n_Addr = al_Addr a, n_Port = al_Port a, n_Meta = al_Meta a,
      n_PMin = al_Vsn a ! 0, n_PMax = al_Vsn a ! 1, n_PCur = al_Vsn a ! 2,
      n_DMin = al_Vsn a ! 3, n_DMax = al_Vsn a ! 4, n_DCur = al_Vsn a ! 5\<rparr>"

definition bare_Node :: "alive \<Rightarrow> Node" where
  "bare_Node a =
     \<lparr>n_Name = al_Node a, n_Addr = al_Addr a, n_Port = al_Port a, n_Meta = al_Meta a,
      n_PMin = 0, n_PMax = 0, n_PCur = 0, n_DMin = 0, n_DMax = 0, n_DCur = 0\<rparr>"

definition new_nodeState :: "alive \<Rightarrow> nodeState" where
  "new_nodeState a = Node.extend (bare_Node a)
     \<lparr>ns_Incarnation = 0, ns_State = stateDead, ns_StateChange = 0\<rparr>"

text \<open>A list has fewer than \<open>2 ^ 32\<close> nodes, so that its length is a \<open>uint32\<close>.\<close>

definition randomOffset :: "32 word \<Rightarrow> nat \<Rightarrow> nat" where
  "randomOffset r n = (if n = 0 then 0 else unat r mod n)"

text \<open>\<open>nodes = append(nodes, state); nodes[offset], nodes[n] = nodes[n], nodes[offset]\<close>\<close>

definition add_node :: "nat \<Rightarrow> 'a \<Rightarrow> 'a list \<Rightarrow> 'a list" where
  "add_node offset x xs = (let ys = xs @ [x] in ys[offset := x, length xs := ys ! offset])"

definition accept_alive :: "swim_env \<Rightarrow> alive \<Rightarrow> nodeState \<Rightarrow> nodeState" where
  "accept_alive env a st =
     (let st1 = (if al_Vsn a = [] then st
                 else st\<lparr>n_PMin := al_Vsn a ! 0, n_PMax := al_Vsn a ! 1, n_PCur := al_Vsn a ! 2,
                         n_DMin := al_Vsn a ! 3, n_DMax := al_Vsn a ! 4, n_DCur := al_Vsn a ! 5\<rparr>);
          st2 = st1\<lparr>ns_Incarnation := al_Incarnation a, n_Meta := al_Meta a\<rparr>
      in if ns_State st2 = stateAlive then st2
         else st2\<lparr>ns_State := stateAlive, ns_StateChange := sw_now env\<rparr>)"

definition alive_notify :: "nodeState \<Rightarrow> nodeState \<Rightarrow> swim_output list" where
  "alive_notify old new =
     (if ns_State old = stateDead then [NotifyJoin (Node.truncate new)]
      else if n_Meta old \<noteq> n_Meta new then [NotifyUpdate (Node.truncate new)] else [])"

definition alive_known ::
  "swim_env \<Rightarrow> alive \<Rightarrow> bool \<Rightarrow> nodeState \<Rightarrow> memberlist \<Rightarrow> (memberlist \<times> swim_output list) run" where
  "alive_known env a bootstrap st m =
     (let isLocalNode = (n_Name st = sw_Name env) in
      if n_Addr st \<noteq> al_Addr a \<or> n_Port st \<noteq> al_Port a then
        Returns (m, if sw_Conflict env then [NotifyConflict (Node.truncate st) (bare_Node a)] else [])
      else if al_Incarnation a \<le> ns_Incarnation st \<and> \<not> isLocalNode then Returns (m, [])
      else if al_Incarnation a < ns_Incarnation st \<and> isLocalNode then Returns (m, [])
      else if \<not> bootstrap \<and> isLocalNode then
        (if al_Incarnation a = ns_Incarnation st \<and> al_Meta a = n_Meta st \<and> al_Vsn a = versions st then Returns (m, [])
         else case swim_refute env (al_Incarnation a) (al_Node a) st m of
                Returns (m', out) \<Rightarrow> Returns (m', out @ alive_notify st st)
              | r \<Rightarrow> r)
      else if al_Vsn a \<noteq> [] \<and> length (al_Vsn a) < 6 then Panics
      else
        (let st' = accept_alive env a st
         in Returns (set_node (al_Node a) st' m, gossip_out env (AliveMsg a) @ alive_notify st st')))"

definition aliveNode ::
  "swim_env \<Rightarrow> alive \<Rightarrow> bool \<Rightarrow> memberlist \<Rightarrow> (memberlist \<times> swim_output list) run" where
  "aliveNode env a bootstrap m =
     (if mb_leave m \<and> al_Node a = sw_Name env then Returns (m, [])
      else
        (let admitted = (case mb_map m (al_Node a) of
               Some st \<Rightarrow> alive_known env a bootstrap st m
             | None \<Rightarrow>
                 (let st = new_nodeState a
                  in alive_known env a bootstrap st
                       (m\<lparr>mb_map := (mb_map m)(al_Node a \<mapsto> st),
                          mb_nodes := add_node (randomOffset (sw_random env) (length (mb_nodes m))) (al_Node a) (mb_nodes m)\<rparr>)))
         in case sw_Alive env of
              None \<Rightarrow> admitted
            | Some f \<Rightarrow>
                if length (al_Vsn a) < 6 then Panics
                else if f (alive_Node a) \<noteq> None then Returns (m, [])
                else admitted))"

subsection \<open>Suspect and dead\<close>

definition suspectNode :: "swim_env \<Rightarrow> suspect \<Rightarrow> memberlist \<Rightarrow> (memberlist \<times> swim_output list) run" where
  "suspectNode env s m =
     (case mb_map m (su_Node s) of
        None \<Rightarrow> Returns (m, [])
      | Some st \<Rightarrow>
          if su_Incarnation s < ns_Incarnation st then Returns (m, [])
          else if ns_State st \<noteq> stateAlive then Returns (m, [])
          else if n_Name st = sw_Name env then swim_refute env (su_Incarnation s) (su_Node s) st m
          else
            Returns (set_node (su_Node s)
                (st\<lparr>ns_Incarnation := su_Incarnation s, ns_State := stateSuspect, ns_StateChange := sw_now env\<rparr>) m,
              gossip_out env (SuspectMsg s) @ [StartTimer (su_Node s) (sw_now env)]))"

definition deadNode :: "swim_env \<Rightarrow> dead \<Rightarrow> memberlist \<Rightarrow> (memberlist \<times> swim_output list) run" where
  "deadNode env d m =
     (case mb_map m (de_Node d) of
        None \<Rightarrow> Returns (m, [])
      | Some st \<Rightarrow>
          if de_Incarnation d < ns_Incarnation st then Returns (m, [])
          else if ns_State st = stateDead then Returns (m, [])
          else if n_Name st = sw_Name env \<and> \<not> mb_leave m
          then swim_refute env (de_Incarnation d) (de_Node d) st m
          else
            (let st' = st\<lparr>ns_Incarnation := de_Incarnation d, ns_State := stateDead, ns_StateChange := sw_now env\<rparr>
             in Returns (set_node (de_Node d) st' m,
                  gossip_out env (DeadMsg d) @ [NotifyLeave (Node.truncate st')])))"

text \<open>
  The timer of a suspicion first checks, under the lock, that nothing has happened since it was
  started. It then calls \<open>suspectTimeout\<close>, which reads the state of the node again: \<open>n\<close> is what it
  reads.
\<close>

definition timer_check :: "string \<Rightarrow> int \<Rightarrow> memberlist \<Rightarrow> bool" where
  "timer_check name changeTime m =
     (case mb_map m name of
        None \<Rightarrow> False
      | Some st \<Rightarrow> ns_State st = stateSuspect \<and> ns_StateChange st = changeTime)"

definition suspectTimeout :: "swim_env \<Rightarrow> nodeState \<Rightarrow> memberlist \<Rightarrow> (memberlist \<times> swim_output list) run" where
  "suspectTimeout env n m =
     deadNode env \<lparr>de_Incarnation = ns_Incarnation n, de_Node = n_Name n, de_From = sw_Name env\<rparr> m"

definition pushed_alive :: "pushNodeState \<Rightarrow> alive" where
  "pushed_alive r =
     \<lparr>al_Incarnation = pn_Incarnation r, al_Node = pn_Name r, al_Addr = pn_Addr r, al_Port = pn_Port r,
      al_Meta = pn_Meta r, al_Vsn = pn_Vsn r\<rparr>"

fun mergeState :: "swim_env \<Rightarrow> pushNodeState list \<Rightarrow> memberlist \<Rightarrow> (memberlist \<times> swim_output list) run" where
  "mergeState env [] m = Returns (m, [])"
| "mergeState env (r # rs) m =
     (case (if pn_State r = stateAlive then aliveNode env (pushed_alive r) False m
            else suspectNode env
              \<lparr>su_Incarnation = pn_Incarnation r, su_Node = pn_Name r, su_From = sw_Name env\<rparr> m) of
        Returns (m1, out1) \<Rightarrow>
          (case mergeState env rs m1 of
             Returns (m2, out2) \<Rightarrow> Returns (m2, out1 @ out2)
           | r \<Rightarrow> r)
      | r \<Rightarrow> r)"

subsection \<open>Dead nodes are forgotten\<close>

text \<open>\<open>for i := 0; i < n-numDead; i++\<close>, which steps back when it has moved a node to the end.\<close>

function move_dead :: "('a \<Rightarrow> bool) \<Rightarrow> nat \<Rightarrow> nat \<Rightarrow> 'a list \<Rightarrow> 'a list \<times> nat" where
  "move_dead isDead i numDead nodes =
     (let n = length nodes in
      if i < n - numDead then
        (if isDead (nodes ! i) then
           move_dead isDead i (numDead + 1)
             (nodes[i := nodes ! (n - numDead - 1), n - numDead - 1 := nodes ! i])
         else move_dead isDead (i + 1) numDead nodes)
      else (nodes, n - numDead))"
  by pat_completeness auto
termination by (relation "measure (\<lambda>(_, i, numDead, nodes). length nodes - numDead - i)") auto

declare move_dead.simps [simp del]

definition moveDeadNodes :: "('a \<Rightarrow> bool) \<Rightarrow> 'a list \<Rightarrow> 'a list \<times> nat" where
  "moveDeadNodes isDead nodes = move_dead isDead 0 0 nodes"

definition is_dead :: "memberlist \<Rightarrow> string \<Rightarrow> bool" where
  "is_dead m n \<longleftrightarrow> (case mb_map m n of Some st \<Rightarrow> ns_State st = stateDead | None \<Rightarrow> False)"

text \<open>\<open>shuffle\<close> is the random shuffle of the nodes that are kept.\<close>

definition resetNodes :: "(string list \<Rightarrow> string list) \<Rightarrow> memberlist \<Rightarrow> memberlist" where
  "resetNodes shuffle m =
     (let (nodes, deadIdx) = moveDeadNodes (is_dead m) (mb_nodes m)
      in m\<lparr>mb_map := mb_map m |` (- set (drop deadIdx nodes)), mb_nodes := shuffle (take deadIdx nodes)\<rparr>)"

subsection \<open>The local node\<close>

text \<open>\<open>UpdateNode\<close> up to the wait; \<open>None\<close> is the panic when the local node has been forgotten.\<close>

definition UpdateNode :: "swim_env \<Rightarrow> bytes \<Rightarrow> bytes \<Rightarrow> memberlist \<Rightarrow> (memberlist \<times> swim_output list) run" where
  "UpdateNode env meta vsn m =
     (case mb_map m (sw_Name env) of
        None \<Rightarrow> Panics
      | Some st \<Rightarrow>
          (let inc = mb_incarnation m + 1
           in aliveNode env
                \<lparr>al_Incarnation = inc, al_Node = sw_Name env, al_Addr = n_Addr st, al_Port = n_Port st,
                 al_Meta = meta, al_Vsn = vsn\<rparr> True (m\<lparr>mb_incarnation := inc\<rparr>)))"

definition Memberlist_Leave :: "swim_env \<Rightarrow> memberlist \<Rightarrow> (memberlist \<times> swim_output list) run" where
  "Memberlist_Leave env m =
     (if mb_leave m then Returns (m, [])
      else
        (let m1 = m\<lparr>mb_leave := True\<rparr> in
         case mb_map m1 (sw_Name env) of
           None \<Rightarrow> Returns (m1, [])
         | Some st \<Rightarrow>
             deadNode env \<lparr>de_Incarnation = ns_Incarnation st, de_Node = n_Name st, de_From = []\<rparr> m1))"

definition memberlist_Members :: "memberlist \<Rightarrow> Node list" where
  "memberlist_Members m =
     map (\<lambda>n. Node.truncate (the (mb_map m n))) (filter (\<lambda>n. \<not> is_dead m n) (mb_nodes m))"

definition NumMembers :: "memberlist \<Rightarrow> nat" where
  "NumMembers m = length (filter (\<lambda>n. \<not> is_dead m n) (mb_nodes m))"

definition anyAlive :: "swim_env \<Rightarrow> memberlist \<Rightarrow> bool" where
  "anyAlive env m \<longleftrightarrow> (\<exists>n \<in> set (mb_nodes m). \<not> is_dead m n \<and> n \<noteq> sw_Name env)"

text \<open>A new memberlist, before \<open>setAlive\<close> announces the local node.\<close>

definition new_memberlist :: memberlist where
  "new_memberlist = \<lparr>mb_map = Map.empty, mb_nodes = [], mb_incarnation = 0, mb_leave = False\<rparr>"

definition setAlive :: "swim_env \<Rightarrow> alive \<Rightarrow> memberlist \<Rightarrow> (memberlist \<times> swim_output list) run" where
  "setAlive env a m =
     (let inc = mb_incarnation m + 1
      in aliveNode env (a\<lparr>al_Incarnation := inc, al_Node := sw_Name env\<rparr>) True (m\<lparr>mb_incarnation := inc\<rparr>))"

end
