(* ===== verification/SwimLife.thy ===== *)
theory SwimLife
  imports Swim "HOL-Library.Product_Lexorder"
begin

section \<open>What memberlist's view of the cluster keeps (memberlist/state.go)\<close>

text \<open>
  Views of a node are ordered by incarnation and then by how bad the state is. The handlers only
  move up in this order; a node refutes what is said about itself with a higher incarnation;
  and what is told to the delegate is what the list of members shows.
\<close>

subsection \<open>The order of states\<close>

fun badness :: "nodeStateType \<Rightarrow> nat" where
  "badness stateAlive = 0"
| "badness stateSuspect = 1"
| "badness stateDead = 2"

lemma badness_inj: "badness s = badness t \<Longrightarrow> s = t"
  by (cases s; cases t) simp_all

instantiation nodeStateType :: linorder
begin

definition less_eq_nodeStateType :: "nodeStateType \<Rightarrow> nodeStateType \<Rightarrow> bool" where
  "s \<le> t \<longleftrightarrow> badness s \<le> badness t"

definition less_nodeStateType :: "nodeStateType \<Rightarrow> nodeStateType \<Rightarrow> bool" where
  "s < t \<longleftrightarrow> badness s < badness t"

instance
  by standard (auto simp: less_eq_nodeStateType_def less_nodeStateType_def intro: badness_inj)

end

lemma states_ordered: "stateAlive \<le> s" "s \<le> stateDead" "stateAlive < stateSuspect"
  by (cases s; simp add: less_eq_nodeStateType_def less_nodeStateType_def)+

definition view :: "nodeState \<Rightarrow> 32 word \<times> nodeStateType" where
  "view st = (ns_Incarnation st, ns_State st)"

subsection \<open>Incarnations\<close>

lemma incarnation_above_greater:
  assumes "incarnation_above t c = Some inc"
  shows "t < inc"
  using assms
  by (rule incarnation_above.raw_induct [of "\<lambda>t c inc. t < inc", rotated])
     (auto simp: Let_def not_le split: if_splits)

lemma incarnation_above_hangs: "incarnation_above (- 1) c = None"
proof (cases "incarnation_above (- 1) c")
  case (Some inc)
  from incarnation_above_greater [OF this] show ?thesis
    by (simp add: leD [OF word_order.extremum])
qed

lemma unat_next: "(c :: 32 word) \<noteq> - 1 \<Longrightarrow> unat (c + 1) = Suc (unat c)"
  by (metis add.commute eq_neg_iff_add_eq_0 unatSuc)

lemma incarnation_above_value:
  assumes "t \<noteq> - 1"
  shows "incarnation_above t c = Some (if t < c + 1 then c + 1 else t + 1)"
proof (induction "Suc (unat t) - unat (c + 1)" arbitrary: c rule: less_induct)
  case less
  show ?case
  proof (cases "c + 1 \<le> t")
    case True
    let ?c = "c + 1"
    have "?c \<noteq> - 1" using True assms by (metis word_order.extremum_uniqueI)
    then have up: "unat (?c + 1) = Suc (unat ?c)" by (rule unat_next)
    have le: "unat ?c \<le> unat t" using True by (simp add: word_le_nat_alt)
    with up have "incarnation_above t ?c = Some (if t < ?c + 1 then ?c + 1 else t + 1)"
      by (intro less) simp
    moreover have "?c = t" if "t < ?c + 1"
      using that up True by (intro order.antisym) (simp_all add: word_less_nat_alt word_le_nat_alt)
    ultimately show ?thesis
      using True by (subst incarnation_above.simps) (auto simp: not_less Let_def)
  next
    case False
    then show ?thesis
      by (subst incarnation_above.simps) (simp add: Let_def not_le [symmetric] del: not_le)
  qed
qed

lemma incarnation_above_defined: "t \<noteq> - 1 \<Longrightarrow> \<exists>inc. incarnation_above t c = Some inc \<and> t < inc"
  using incarnation_above_value incarnation_above_greater by blast


subsection \<open>Steps\<close>

text \<open>
  Every handler runs under the lock of the nodes. The environment (times, random offsets, which
  messages encode, what the delegates say) may differ from step to step, the name may not.
\<close>

inductive swim_step :: "string \<Rightarrow> memberlist \<Rightarrow> swim_output list \<Rightarrow> memberlist \<Rightarrow> bool" for me where
  alive: "sw_Name env = me \<Longrightarrow> aliveNode env a False m = Returns (m', out) \<Longrightarrow> swim_step me m out m'"
| suspect: "sw_Name env = me \<Longrightarrow> suspectNode env s m = Returns (m', out) \<Longrightarrow> swim_step me m out m'"
| dead: "sw_Name env = me \<Longrightarrow> deadNode env d m = Returns (m', out) \<Longrightarrow> swim_step me m out m'"
| update: "sw_Name env = me \<Longrightarrow> UpdateNode env meta vsn m = Returns (m', out) \<Longrightarrow> swim_step me m out m'"
| leave: "sw_Name env = me \<Longrightarrow> Memberlist_Leave env m = Returns (m', out) \<Longrightarrow> swim_step me m out m'"
| reset: "(\<And>xs. mset (shuffle xs) = mset xs) \<Longrightarrow> swim_step me m [] (resetNodes shuffle m)"

text \<open>The node announces itself, then its handlers run.\<close>

inductive swim_reach :: "string \<Rightarrow> swim_output list \<Rightarrow> memberlist \<Rightarrow> bool" for me where
  start: "sw_Name env = me \<Longrightarrow> setAlive env a new_memberlist = Returns (m, out) \<Longrightarrow> mb_map m me \<noteq> None \<Longrightarrow>
    swim_reach me out m"
| step: "swim_reach me outs m \<Longrightarrow> swim_step me m out m' \<Longrightarrow> swim_reach me (outs @ out) m'"

text \<open>What a handler may do to one node: nothing, or one of the changes of the code.\<close>

definition swim_keeps :: "string \<Rightarrow> nodeState \<Rightarrow> nodeState \<Rightarrow> bool" where
  "swim_keeps me st st' \<longleftrightarrow>
     n_Name st' = n_Name st \<and> ns_Incarnation st \<le> ns_Incarnation st'
     \<and> (n_Name st \<noteq> me \<longrightarrow> view st \<le> view st')"

lemma swim_keeps_refl [simp]: "swim_keeps me st st" by (simp add: swim_keeps_def)

lemma swim_refute_cases:
  assumes "swim_refute env t n st m = Returns (m', out)"
  obtains inc where "t < inc" "m' = set_node n (st\<lparr>ns_Incarnation := inc\<rparr>) (m\<lparr>mb_incarnation := inc\<rparr>)"
    "out = gossip_out env (AliveMsg (refuting_alive inc st))"
  using assms incarnation_above_greater by (auto simp: swim_refute_def split: option.splits)

lemma accept_alive_fields [simp]:
  "n_Name (accept_alive env a st) = n_Name st"
  "ns_Incarnation (accept_alive env a st) = al_Incarnation a"
  "ns_State (accept_alive env a st) = stateAlive"
  "n_Meta (accept_alive env a st) = al_Meta a"
  "n_Addr (accept_alive env a st) = n_Addr st" "n_Port (accept_alive env a st) = n_Port st"
  by (simp_all add: accept_alive_def Let_def)

lemma set_node_fields [simp]:
  "mb_map (set_node n st m) = (mb_map m)(n \<mapsto> st)" "mb_nodes (set_node n st m) = mb_nodes m"
  "mb_leave (set_node n st m) = mb_leave m" "mb_incarnation (set_node n st m) = mb_incarnation m"
  by (simp_all add: set_node_def)


subsection \<open>Notifications\<close>

text \<open>Whether a node is present after the notifications; \<open>None\<close> when it joins or leaves twice in a row.\<close>

fun track :: "string \<Rightarrow> bool \<Rightarrow> swim_output list \<Rightarrow> bool option" where
  "track n b [] = Some b"
| "track n b (NotifyJoin x # os) =
     (if n_Name x = n then (if b then None else track n True os) else track n b os)"
| "track n b (NotifyLeave x # os) =
     (if n_Name x = n then (if b then track n False os else None) else track n b os)"
| "track n b (Gossip x # os) = track n b os"
| "track n b (NotifyUpdate x # os) = track n b os"
| "track n b (NotifyConflict x y # os) = track n b os"
| "track n b (StartTimer k t # os) = track n b os"

lemma track_append:
  "track n b (os @ ps) = (case track n b os of None \<Rightarrow> None | Some b' \<Rightarrow> track n b' ps)"
  by (induction n b os rule: track.induct) auto

lemma track_gossip [simp]: "track n b (gossip_out env x @ os) = track n b os" "track n b (gossip_out env x) = Some b"
  by (simp_all add: gossip_out_def)

lemma truncate_name [simp]: "n_Name (Node.truncate st) = n_Name st"
  by (simp add: Node.truncate_def)

definition alive_or_suspect :: "nodeState \<Rightarrow> bool" where
  "alive_or_suspect st \<longleftrightarrow> ns_State st \<noteq> stateDead"

text \<open>Where a present node is and what it says of itself, in the notifications and in the map.\<close>

type_synonym node_data = "bytes \<times> 16 word \<times> bytes"

definition node_data :: "'a Node_scheme \<Rightarrow> node_data" where
  "node_data n = (n_Addr n, n_Port n, n_Meta n)"

fun reported :: "string \<Rightarrow> node_data option \<Rightarrow> swim_output list \<Rightarrow> node_data option" where
  "reported n c [] = c"
| "reported n c (NotifyJoin x # os) = reported n (if n_Name x = n then Some (node_data x) else c) os"
| "reported n c (NotifyLeave x # os) = reported n (if n_Name x = n then None else c) os"
| "reported n c (NotifyUpdate x # os) = reported n (if n_Name x = n then map_option (\<lambda>_. node_data x) c else c) os"
| "reported n c (Gossip x # os) = reported n c os"
| "reported n c (NotifyConflict x y # os) = reported n c os"
| "reported n c (StartTimer k t # os) = reported n c os"

lemma reported_append [simp]: "reported n c (os @ ps) = reported n (reported n c os) ps"
  by (induction n c os rule: reported.induct) auto

lemma reported_gossip [simp]: "reported n c (gossip_out env x) = c"
  by (simp add: gossip_out_def)

lemma truncate_data [simp]:
  "n_Addr (Node.truncate st) = n_Addr st" "n_Port (Node.truncate st) = n_Port st" "n_Meta (Node.truncate st) = n_Meta st"
  "node_data (Node.truncate st) = node_data st"
  by (simp_all add: Node.truncate_def node_data_def)

definition known_of :: "nodeState \<Rightarrow> node_data option" where
  "known_of st = (if alive_or_suspect st then Some (node_data st) else None)"

definition known :: "memberlist \<Rightarrow> string \<Rightarrow> node_data option" where
  "known m n = Option.bind (mb_map m n) known_of"

definition present :: "memberlist \<Rightarrow> string \<Rightarrow> bool" where
  "present m n \<longleftrightarrow> (\<exists>st. mb_map m n = Some st \<and> alive_or_suspect st)"

text \<open>One handler writes one node; the delegates are told exactly when it comes or goes.\<close>

definition one_change :: "string \<Rightarrow> string \<Rightarrow> nodeState \<Rightarrow> nodeState \<Rightarrow> swim_output list \<Rightarrow> bool" where
  "one_change me n st st' out \<longleftrightarrow>
     swim_keeps me st st' \<and> track n (alive_or_suspect st) out = Some (alive_or_suspect st')
     \<and> reported n (known_of st) out = known_of st'
     \<and> (\<forall>k b. k \<noteq> n \<longrightarrow> track k b out = Some b \<and> (\<forall>c. reported k c out = c))"

definition silent :: "swim_output list \<Rightarrow> bool" where
  "silent out \<longleftrightarrow> (\<forall>k b c. track k b out = Some b \<and> reported k c out = c)"

lemma silent_simps [simp]: "silent []" "silent [NotifyConflict x y]"
  by (simp_all add: silent_def)

lemma one_change_refl: "silent out \<Longrightarrow> one_change me n st st out"
  by (simp add: one_change_def silent_def)

lemma alive_notify_track:
  "n_Name st' = n_Name st \<Longrightarrow> ns_State st' = stateAlive \<Longrightarrow>
     track n (alive_or_suspect st) (alive_notify st st') = Some (n = n_Name st \<or> alive_or_suspect st)"
  by (auto simp: alive_notify_def alive_or_suspect_def)

lemma alive_known_change:
  assumes "alive_known env a bootstrap st m = Returns (m', out)" "mb_map m (al_Node a) = Some st"
    and "n_Name st = al_Node a" "al_Node a = sw_Name env \<Longrightarrow> \<not> bootstrap \<Longrightarrow> ns_State st = stateAlive"
  shows "\<exists>st'. mb_map m' = (mb_map m)(al_Node a \<mapsto> st') \<and> one_change (sw_Name env) (al_Node a) st st' out
    \<and> mb_nodes m' = mb_nodes m \<and> mb_leave m' = mb_leave m
    \<and> (ns_State st = stateAlive \<longrightarrow> ns_State st' = stateAlive)"
proof -
  have keep: ?thesis if "m' = m" "silent out"
    using that assms(2) by (intro exI [of _ st]) (auto simp: one_change_refl fun_upd_idem)
  let ?local = "n_Name st = sw_Name env"
  consider "n_Addr st \<noteq> al_Addr a \<or> n_Port st \<noteq> al_Port a"
    | "al_Incarnation a \<le> ns_Incarnation st \<and> \<not> ?local \<or> al_Incarnation a < ns_Incarnation st"
      "n_Addr st = al_Addr a \<and> n_Port st = al_Port a"
    | "n_Addr st = al_Addr a \<and> n_Port st = al_Port a" "ns_Incarnation st \<le> al_Incarnation a" "\<not> bootstrap" ?local
    | "n_Addr st = al_Addr a \<and> n_Port st = al_Port a" "?local \<longrightarrow> bootstrap \<and> ns_Incarnation st \<le> al_Incarnation a"
      "\<not> ?local \<longrightarrow> ns_Incarnation st < al_Incarnation a"
    by fastforce
  then show ?thesis
  proof cases
    case 1
    then show ?thesis using assms(1) by (intro keep) (auto simp: alive_known_def split: if_splits)
  next
    case 2
    then have "m' = m \<and> out = []"
      using assms(1) by (cases ?local) (auto simp: alive_known_def Let_def less_imp_le)
    then show ?thesis by (intro keep) simp_all
  next
    case 3
    then have alive: "ns_State st = stateAlive" using assms(3,4) by simp
    show ?thesis
    proof (cases "al_Incarnation a = ns_Incarnation st \<and> al_Meta a = n_Meta st \<and> al_Vsn a = versions st")
      case True
      with 3 assms(1) show ?thesis by (intro keep) (simp_all add: alive_known_def)
    next
      case False
      with 3 assms(1) obtain out' where r: "swim_refute env (al_Incarnation a) (al_Node a) st m = Returns (m', out')"
        "out = out' @ alive_notify st st"
        by (auto simp: alive_known_def not_less split: run.splits if_splits)
      from swim_refute_cases [OF r(1)] obtain inc where inc: "al_Incarnation a < inc"
        "m' = set_node (al_Node a) (st\<lparr>ns_Incarnation := inc\<rparr>) (m\<lparr>mb_incarnation := inc\<rparr>)"
        "out' = gossip_out env (AliveMsg (refuting_alive inc st))" .
      have "swim_keeps (sw_Name env) st (st\<lparr>ns_Incarnation := inc\<rparr>)"
        using 3 inc(1) by (auto simp: swim_keeps_def)
      with alive show ?thesis
        by (intro exI [of _ "st\<lparr>ns_Incarnation := inc\<rparr>"])
           (auto simp: inc(2,3) r(2) one_change_def alive_notify_def alive_or_suspect_def known_of_def node_data_def)
    qed
  next
    case 4
    let ?st = "accept_alive env a st"
    have m': "m' = set_node (al_Node a) ?st m" "out = gossip_out env (AliveMsg a) @ alive_notify st ?st"
      using 4 assms(1) by (auto simp: alive_known_def Let_def split: if_splits)
    have "swim_keeps (sw_Name env) st ?st"
      using 4 by (auto simp: swim_keeps_def view_def)
    then show ?thesis
      using assms(3) alive_notify_track [of ?st st]
      by (intro exI [of _ ?st]) (auto simp: m' one_change_def alive_notify_def alive_or_suspect_def known_of_def node_data_def)
  qed
qed


subsection \<open>The invariant\<close>

definition swim_inv :: "string \<Rightarrow> memberlist \<Rightarrow> bool" where
  "swim_inv me m \<longleftrightarrow>
     (\<forall>n st. mb_map m n = Some st \<longrightarrow> n_Name st = n)
     \<and> set (mb_nodes m) = dom (mb_map m) \<and> distinct (mb_nodes m)
     \<and> (\<not> mb_leave m \<longrightarrow> (\<exists>st. mb_map m me = Some st \<and> ns_State st = stateAlive))"

text \<open>What a handler guarantees of the node's state and of what it tells the delegates.\<close>

definition good_step :: "string \<Rightarrow> memberlist \<Rightarrow> swim_output list \<Rightarrow> memberlist \<Rightarrow> bool" where
  "good_step me m out m' \<longleftrightarrow>
     swim_inv me m' \<and> (\<forall>n. track n (present m n) out = Some (present m' n) \<and> reported n (known m n) out = known m' n)
     \<and> (\<forall>n st. mb_map m n = Some st \<longrightarrow> (\<exists>st'. mb_map m' n = Some st' \<and> swim_keeps me st st'))"

lemma good_step_refl: "swim_inv me m \<Longrightarrow> silent out \<Longrightarrow> good_step me m out m"
  by (simp add: good_step_def silent_def)

lemma add_node_set: "off \<le> length xs \<Longrightarrow> mset (add_node off x xs) = add_mset x (mset xs)"
proof -
  assume off: "off \<le> length xs"
  let ?ys = "xs @ [x]"
  have "add_node off x xs = ?ys[off := ?ys ! length xs, length xs := ?ys ! off]"
    by (simp add: add_node_def Let_def)
  also have "mset \<dots> = mset ?ys"
    using off by (intro mset_swap) auto
  finally show ?thesis by simp
qed

lemma one_change_inv:
  assumes "swim_inv me m" "mb_map m n = Some st" "one_change me n st st' out"
    and "mb_map m' = (mb_map m)(n \<mapsto> st')" "mb_nodes m' = mb_nodes m" "mb_leave m' = mb_leave m"
    and "n = me \<Longrightarrow> ns_State st = stateAlive \<Longrightarrow> \<not> mb_leave m \<Longrightarrow> ns_State st' = stateAlive"
  shows "good_step me m out m'"
proof -
  have name: "n_Name st' = n" using assms(1-3) by (simp add: one_change_def swim_keeps_def swim_inv_def)
  have "swim_inv me m'"
    using assms(1,2,7) name unfolding swim_inv_def assms(4-6) by (auto simp: insert_absorb domI)
  moreover have "track k (present m k) out = Some (present m' k) \<and> reported k (known m k) out = known m' k" for k
    using assms(2,3) by (cases "k = n") (auto simp: present_def known_def assms(4) one_change_def)
  moreover have "\<exists>st''. mb_map m' k = Some st'' \<and> swim_keeps me sk st''" if "mb_map m k = Some sk" for k sk
    using that assms(2,3) by (cases "k = n") (auto simp: assms(4) one_change_def)
  ultimately show ?thesis by (simp add: good_step_def)
qed

text \<open>A node that is heard of for the first time enters the map as dead.\<close>

lemma new_node_inv:
  assumes "swim_inv me m" "mb_map m n = None" "n_Name st = n" "ns_State st = stateDead" "off \<le> length (mb_nodes m)"
    and "n = me \<Longrightarrow> mb_leave m"
  shows "swim_inv me (m\<lparr>mb_map := (mb_map m)(n \<mapsto> st), mb_nodes := add_node off n (mb_nodes m)\<rparr>)"
proof -
  have ms: "mset (add_node off n (mb_nodes m)) = add_mset n (mset (mb_nodes m))" using add_node_set [OF assms(5)] .
  have "n \<notin> set (mb_nodes m)" using assms(1,2) by (auto simp: swim_inv_def)
  then have "distinct (add_node off n (mb_nodes m))" "set (add_node off n (mb_nodes m)) = insert n (set (mb_nodes m))"
    using mset_eq_imp_distinct_iff [OF trans [OF ms mset.simps(2) [symmetric]]] assms(1)
      mset_eq_setD [OF trans [OF ms mset.simps(2) [symmetric]]]
    by (simp_all add: swim_inv_def)
  with assms(1-4,6) show ?thesis by (auto simp: swim_inv_def)
qed

lemma new_nodeState_fields [simp]:
  "n_Name (new_nodeState a) = al_Node a" "ns_State (new_nodeState a) = stateDead"
  "n_Addr (new_nodeState a) = al_Addr a" "n_Port (new_nodeState a) = al_Port a"
  "ns_Incarnation (new_nodeState a) = 0"
  by (simp_all add: new_nodeState_def bare_Node_def Node.extend_def)


lemma randomOffset_le: "randomOffset r n \<le> n"
  by (simp add: randomOffset_def less_imp_le)

lemma good_step_new:
  assumes "good_step me (m\<lparr>mb_map := (mb_map m)(n \<mapsto> st), mb_nodes := ns\<rparr>) out m'" "mb_map m n = None"
    and "ns_State st = stateDead"
  shows "good_step me m out m'"
proof -
  let ?m = "m\<lparr>mb_map := (mb_map m)(n \<mapsto> st), mb_nodes := ns\<rparr>"
  have "present ?m = present m"
    using assms(2,3) by (auto simp: present_def alive_or_suspect_def fun_eq_iff)
  moreover have "known ?m = known m"
    using assms(2,3) by (auto simp: known_def known_of_def alive_or_suspect_def fun_eq_iff)
  moreover have "mb_map ?m k = Some sk" if "mb_map m k = Some sk" for k sk using that assms(2) by auto
  ultimately show ?thesis using assms(1) by (simp add: good_step_def)
qed

lemma admitted_by:
  "(case d of None \<Rightarrow> r | Some f \<Rightarrow> if P then Panics else if Q f then Returns x else r) = Returns y \<Longrightarrow>
     y = x \<or> r = Returns y"
  by (auto split: option.splits if_splits)

lemma aliveNode_good:
  assumes "aliveNode env a bootstrap m = Returns (m', out)" "swim_inv (sw_Name env) m"
  shows "good_step (sw_Name env) m out m'"
proof -
  let ?me = "sw_Name env"
  let ?st = "new_nodeState a"
  let ?m = "m\<lparr>mb_map := (mb_map m)(al_Node a \<mapsto> ?st),
    mb_nodes := add_node (randomOffset (sw_random env) (length (mb_nodes m))) (al_Node a) (mb_nodes m)\<rparr>"
  consider "m' = m" "out = []" | "\<not> (mb_leave m \<and> al_Node a = ?me)"
      "(\<exists>st. mb_map m (al_Node a) = Some st \<and> alive_known env a bootstrap st m = Returns (m', out))
        \<or> (mb_map m (al_Node a) = None \<and> alive_known env a bootstrap ?st ?m = Returns (m', out))"
  proof (cases "mb_leave m \<and> al_Node a = ?me")
    case True
    then show thesis using assms(1) by (intro that(1)) (simp_all add: aliveNode_def)
  next
    case False
    with assms(1) admitted_by have "(m', out) = (m, [])
      \<or> (case mb_map m (al_Node a) of Some st \<Rightarrow> alive_known env a bootstrap st m
          | None \<Rightarrow> alive_known env a bootstrap ?st ?m) = Returns (m', out)"
      unfolding aliveNode_def Let_def if_not_P [OF False] by fast
    then show thesis using False that by (auto split: option.splits)
  qed
  then show ?thesis
  proof cases
    case 1
    then show ?thesis using good_step_refl [OF assms(2), of "[]"] by simp
  next
    case 2
    have known: "good_step ?me m1 out m'" if k: "mb_map m1 (al_Node a) = Some st"
      "alive_known env a bootstrap st m1 = Returns (m', out)" and inv: "swim_inv ?me m1"
      and leave: "mb_leave m1 = mb_leave m" for m1 st
    proof -
      have name: "n_Name st = al_Node a" using inv k(1) by (simp add: swim_inv_def)
      have "ns_State st = stateAlive" if "al_Node a = ?me"
        using inv that 2(1) k(1) leave by (auto simp: swim_inv_def)
      then obtain st' where "mb_map m' = (mb_map m1)(al_Node a \<mapsto> st')"
        "one_change ?me (al_Node a) st st' out" "mb_nodes m' = mb_nodes m1" "mb_leave m' = mb_leave m1"
        "ns_State st = stateAlive \<longrightarrow> ns_State st' = stateAlive"
        using alive_known_change [OF k(2,1) name] by blast
      then show ?thesis using one_change_inv [OF inv k(1)] by blast
    qed
    show ?thesis
    proof (cases "mb_map m (al_Node a)")
      case (Some st)
      with 2(2) known [OF Some _ assms(2)] show ?thesis by simp
    next
      case None
      then have "al_Node a \<noteq> ?me" using 2(1) assms(2) by (auto simp: swim_inv_def)
      then have "swim_inv ?me ?m"
        by (intro new_node_inv [OF assms(2) None]) (simp_all add: randomOffset_le)
      with None 2(2) show ?thesis
        by (intro good_step_new [OF known [of ?m ?st] None]) simp_all
    qed
  qed
qed

lemma refute_good:
  assumes "swim_refute env t n st m = Returns (m', out)" "swim_inv (sw_Name env) m" "mb_map m n = Some st"
    and "ns_Incarnation st \<le> t" "n = sw_Name env"
  shows "good_step (sw_Name env) m out m'"
proof -
  from swim_refute_cases [OF assms(1)] obtain inc where inc: "t < inc"
    "m' = set_node n (st\<lparr>ns_Incarnation := inc\<rparr>) (m\<lparr>mb_incarnation := inc\<rparr>)"
    "out = gossip_out env (AliveMsg (refuting_alive inc st))" .
  have "n_Name st = n" using assms(2,3) by (simp add: swim_inv_def)
  then have "one_change (sw_Name env) n st (st\<lparr>ns_Incarnation := inc\<rparr>) out"
    using inc(1) assms(4,5) by (auto simp: one_change_def swim_keeps_def inc(3) alive_or_suspect_def known_of_def node_data_def)
  then show ?thesis by (rule one_change_inv [OF assms(2,3)]) (simp_all add: inc(2))
qed

lemma suspectNode_good:
  assumes "suspectNode env s m = Returns (m', out)" "swim_inv (sw_Name env) m"
  shows "good_step (sw_Name env) m out m'"
proof -
  let ?new = "\<lambda>st. st\<lparr>ns_Incarnation := su_Incarnation s, ns_State := stateSuspect, ns_StateChange := sw_now env\<rparr>"
  consider "m' = m" "out = []"
    | st where "mb_map m (su_Node s) = Some st" "ns_Incarnation st \<le> su_Incarnation s" "n_Name st = sw_Name env"
        "swim_refute env (su_Incarnation s) (su_Node s) st m = Returns (m', out)"
    | st where "mb_map m (su_Node s) = Some st" "ns_Incarnation st \<le> su_Incarnation s" "n_Name st \<noteq> sw_Name env"
        "ns_State st = stateAlive" "m' = set_node (su_Node s) (?new st) m"
        "out = gossip_out env (SuspectMsg s) @ [StartTimer (su_Node s) (sw_now env)]"
    using assms(1) by (auto simp: suspectNode_def not_less split: option.splits if_splits)
  then show ?thesis
  proof cases
    case 1
    then show ?thesis using good_step_refl [OF assms(2), of "[]"] by simp
  next
    case (2 st)
    moreover have "n_Name st = su_Node s" using assms(2) 2(1) by (simp add: swim_inv_def)
    ultimately show ?thesis using refute_good [OF 2(4) assms(2)] by simp
  next
    case (3 st)
    have name: "n_Name st = su_Node s" using assms(2) 3(1) by (simp add: swim_inv_def)
    have "view st \<le> view (?new st)"
      using 3 states_ordered by (auto simp: view_def less_le)
    then have "one_change (sw_Name env) (su_Node s) st (?new st) out"
      using 3 name by (auto simp: one_change_def swim_keeps_def alive_or_suspect_def known_of_def node_data_def)
    then show ?thesis
      by (rule one_change_inv [OF assms(2) 3(1)]) (use 3 name in simp_all)
  qed
qed


lemma deadNode_good:
  assumes "deadNode env d m = Returns (m', out)" "swim_inv (sw_Name env) m"
  shows "good_step (sw_Name env) m out m'"
proof -
  let ?new = "\<lambda>st. st\<lparr>ns_Incarnation := de_Incarnation d, ns_State := stateDead, ns_StateChange := sw_now env\<rparr>"
  consider "m' = m" "out = []"
    | st where "mb_map m (de_Node d) = Some st" "ns_Incarnation st \<le> de_Incarnation d" "n_Name st = sw_Name env"
        "swim_refute env (de_Incarnation d) (de_Node d) st m = Returns (m', out)"
    | st where "mb_map m (de_Node d) = Some st" "ns_Incarnation st \<le> de_Incarnation d"
        "n_Name st \<noteq> sw_Name env \<or> mb_leave m" "ns_State st \<noteq> stateDead" "m' = set_node (de_Node d) (?new st) m"
        "out = gossip_out env (DeadMsg d) @ [NotifyLeave (Node.truncate (?new st))]"
    using assms(1) by (auto simp: deadNode_def not_less Let_def split: option.splits if_splits)
  then show ?thesis
  proof cases
    case 1
    then show ?thesis using good_step_refl [OF assms(2), of "[]"] by simp
  next
    case (2 st)
    moreover have "n_Name st = de_Node d" using assms(2) 2(1) by (simp add: swim_inv_def)
    ultimately show ?thesis using refute_good [OF 2(4) assms(2)] by simp
  next
    case (3 st)
    have name: "n_Name st = de_Node d" using assms(2) 3(1) by (simp add: swim_inv_def)
    have "view st \<le> view (?new st)"
      using 3(2) states_ordered by (auto simp: view_def less_le)
    then have "one_change (sw_Name env) (de_Node d) st (?new st) out"
      using 3 name by (auto simp: one_change_def swim_keeps_def alive_or_suspect_def known_of_def node_data_def)
    then show ?thesis
      by (rule one_change_inv [OF assms(2) 3(1)]) (use 3 name in auto)
  qed
qed

lemma swim_inv_incarnation [simp]: "swim_inv me (m\<lparr>mb_incarnation := i\<rparr>) = swim_inv me m"
  by (simp add: swim_inv_def)

lemma good_step_incarnation: "good_step me (m\<lparr>mb_incarnation := i\<rparr>) out m' = good_step me m out m'"
  by (simp add: good_step_def present_def known_def)

lemma UpdateNode_good:
  assumes "UpdateNode env meta vsn m = Returns (m', out)" "swim_inv (sw_Name env) m"
  shows "good_step (sw_Name env) m out m'"
  using assms aliveNode_good [of env _ True "m\<lparr>mb_incarnation := mb_incarnation m + 1\<rparr>" m' out]
  by (auto simp: UpdateNode_def Let_def good_step_incarnation split: option.splits)

lemma Leave_good:
  assumes "Memberlist_Leave env m = Returns (m', out)" "swim_inv (sw_Name env) m"
  shows "good_step (sw_Name env) m out m'"
proof -
  let ?m = "m\<lparr>mb_leave := True\<rparr>"
  have inv: "swim_inv (sw_Name env) ?m" using assms(2) by (simp add: swim_inv_def)
  have "good_step (sw_Name env) m out m' = good_step (sw_Name env) ?m out m'"
    by (simp add: good_step_def present_def known_def)
  moreover have "good_step (sw_Name env) m [] m" "good_step (sw_Name env) ?m [] ?m"
    using good_step_refl assms(2) inv by auto
  ultimately show ?thesis
    using assms(1) deadNode_good [OF _ inv]
    by (auto simp: Memberlist_Leave_def Let_def split: if_splits option.splits)
qed

subsection \<open>Forgetting the dead\<close>

lemma move_dead_case:
  "move_dead isDead i numDead nodes =
     (if i < length nodes - numDead then
        (if isDead (nodes ! i) then
           move_dead isDead i (numDead + 1)
             (nodes[i := nodes ! (length nodes - numDead - 1), length nodes - numDead - 1 := nodes ! i])
         else move_dead isDead (i + 1) numDead nodes)
      else (nodes, length nodes - numDead))"
  by (subst move_dead.simps) (simp add: Let_def)

lemma move_dead_spec:
  assumes "move_dead isDead i numDead nodes = (nodes', k)" "numDead \<le> length nodes" "i \<le> length nodes - numDead"
    and "\<forall>j < i. \<not> isDead (nodes ! j)"
    and "\<forall>j < length nodes. length nodes - numDead \<le> j \<longrightarrow> isDead (nodes ! j)"
  shows "mset nodes' = mset nodes \<and> k \<le> length nodes'
    \<and> (\<forall>j < k. \<not> isDead (nodes' ! j)) \<and> (\<forall>j < length nodes'. k \<le> j \<longrightarrow> isDead (nodes' ! j))"
  using assms
proof (induction isDead i numDead nodes rule: move_dead.induct)
  case (1 isDead i numDead nodes)
  let ?n = "length nodes"
  show ?case
  proof (cases "i < ?n - numDead")
    case False
    with 1 show ?thesis by (auto simp: move_dead_case [of isDead i])
  next
    case in_range: True
    show ?thesis
    proof (cases "isDead (nodes ! i)")
      case True
      let ?swap = "nodes[i := nodes ! (?n - numDead - 1), ?n - numDead - 1 := nodes ! i]"
      have ms: "mset ?swap = mset nodes" using in_range by (intro mset_swap) auto
      have "\<forall>j < i. \<not> isDead (?swap ! j)" using "1.prems"(4) in_range by auto
      moreover have "\<forall>j < length ?swap. length ?swap - (numDead + 1) \<le> j \<longrightarrow> isDead (?swap ! j)"
        using "1.prems"(5) in_range True by (auto simp: nth_list_update)
      ultimately show ?thesis
        using "1.IH"(1) [OF refl in_range True] "1.prems"(1) in_range True ms
        by (simp add: move_dead_case [of isDead i])
    next
      case False
      have "\<forall>j < i + 1. \<not> isDead (nodes ! j)" using "1.prems"(4) False by (auto simp: less_Suc_eq)
      then show ?thesis
        using "1.IH"(2) [OF refl in_range False] "1.prems" in_range False
        by (simp add: move_dead_case [of isDead i])
    qed
  qed
qed

lemma resetNodes_spec:
  assumes "\<And>xs. mset (shuffle xs) = mset xs"
  shows "mset (mb_nodes (resetNodes shuffle m)) = filter_mset (\<lambda>n. \<not> is_dead m n) (mset (mb_nodes m))"
    and "mb_map (resetNodes shuffle m) = mb_map m |` (- {n \<in> set (mb_nodes m). is_dead m n})"
proof -
  obtain nodes k where nk: "moveDeadNodes (is_dead m) (mb_nodes m) = (nodes, k)" by fastforce
  have spec: "mset nodes = mset (mb_nodes m)" "k \<le> length nodes" "\<forall>j < k. \<not> is_dead m (nodes ! j)"
    "\<forall>j < length nodes. k \<le> j \<longrightarrow> is_dead m (nodes ! j)"
    using move_dead_spec [OF nk [unfolded moveDeadNodes_def]] by auto
  have live: "\<forall>n \<in> set (take k nodes). \<not> is_dead m n" and dead: "\<forall>n \<in> set (drop k nodes). is_dead m n"
    using spec(2-4) by (auto simp: in_set_conv_nth)
  have split: "mset (mb_nodes m) = mset (take k nodes) + mset (drop k nodes)"
    by (metis append_take_drop_id mset_append spec(1))
  have "filter_mset (\<lambda>n. \<not> is_dead m n) (mset (take k nodes)) = mset (take k nodes)"
    using live by (simp flip: mset_filter)
  moreover have "filter_mset (\<lambda>n. \<not> is_dead m n) (mset (drop k nodes)) = {#}"
    using dead by (simp add: filter_empty_conv flip: mset_filter)
  ultimately show "mset (mb_nodes (resetNodes shuffle m)) = filter_mset (\<lambda>n. \<not> is_dead m n) (mset (mb_nodes m))"
    by (simp add: resetNodes_def nk assms split)
  have "set (drop k nodes) = {n \<in> set (mb_nodes m). is_dead m n}"
    using live dead arg_cong [OF split, of set_mset] by auto
  then show "mb_map (resetNodes shuffle m) = mb_map m |` (- {n \<in> set (mb_nodes m). is_dead m n})"
    by (simp add: resetNodes_def nk)
qed


lemma reset_good:
  assumes "\<And>xs. mset (shuffle xs) = mset xs" "swim_inv me m"
  shows "swim_inv me (resetNodes shuffle m)" "present (resetNodes shuffle m) = present m"
    and "known (resetNodes shuffle m) = known m"
    and "mb_map (resetNodes shuffle m) n = Some st \<Longrightarrow> mb_map m n = Some st"
proof -
  note spec = resetNodes_spec [OF assms(1), where m = m]
  have dom: "set (mb_nodes m) = dom (mb_map m)" using assms(2) by (simp add: swim_inv_def)
  have map: "mb_map (resetNodes shuffle m) n = (if is_dead m n then None else mb_map m n)" for n
    using dom unfolding spec(2) by (auto simp: restrict_map_def is_dead_def split: option.splits)
  then show "mb_map (resetNodes shuffle m) n = Some st \<Longrightarrow> mb_map m n = Some st" by (simp split: if_splits)
  show "present (resetNodes shuffle m) = present m"
    by (auto simp: present_def map is_dead_def alive_or_suspect_def fun_eq_iff split: option.splits)
  show "known (resetNodes shuffle m) = known m"
    by (auto simp: known_def known_of_def map is_dead_def alive_or_suspect_def fun_eq_iff split: option.splits)
  have "distinct (mb_nodes (resetNodes shuffle m))"
    using assms(2) mset_eq_imp_distinct_iff [OF trans [OF spec(1) mset_filter [symmetric]]]
    by (simp add: swim_inv_def)
  moreover have "set (mb_nodes (resetNodes shuffle m)) = {n \<in> set (mb_nodes m). \<not> is_dead m n}"
    using arg_cong [OF spec(1), of set_mset] by auto
  moreover have "mb_leave (resetNodes shuffle m) = mb_leave m"
    by (simp add: resetNodes_def case_prod_beta)
  ultimately show "swim_inv me (resetNodes shuffle m)"
    using assms(2) dom
    by (auto simp: swim_inv_def map is_dead_def dom_def split: option.splits)
qed

lemma step_good:
  assumes "swim_step me m out m'" "swim_inv me m"
  shows "swim_inv me m' \<and> (\<forall>n. track n (present m n) out = Some (present m' n) \<and> reported n (known m n) out = known m' n)"
  using assms(1)
proof cases
  case (reset shuffle)
  then show ?thesis using reset_good(1-3) [OF reset(3) assms(2)] by simp
qed (use assms(2) aliveNode_good suspectNode_good deadNode_good UpdateNode_good Leave_good in
  \<open>fastforce simp: good_step_def\<close>)+

lemma start_good:
  assumes "setAlive env a new_memberlist = Returns (m, out)" "mb_map m (sw_Name env) \<noteq> None"
  shows "swim_inv (sw_Name env) m \<and> (\<forall>n. track n False out = Some (present m n) \<and> reported n None out = known m n)"
proof -
  let ?a = "a\<lparr>al_Incarnation := 1, al_Node := sw_Name env\<rparr>"
  let ?m = "new_memberlist\<lparr>mb_incarnation := 1, mb_map := [sw_Name env \<mapsto> new_nodeState ?a], mb_nodes := [sw_Name env]\<rparr>"
  have "alive_known env ?a True (new_nodeState ?a) ?m = Returns (m, out)"
    using assms admitted_by
    by (fastforce simp: setAlive_def new_memberlist_def aliveNode_def Let_def add_node_def randomOffset_def)
  then have "m = set_node (sw_Name env) (accept_alive env ?a (new_nodeState ?a)) ?m"
    "out = gossip_out env (AliveMsg ?a) @ [NotifyJoin (Node.truncate (accept_alive env ?a (new_nodeState ?a)))]"
    by (auto simp: alive_known_def Let_def alive_notify_def split: if_splits)
  then show ?thesis
    by (auto simp: swim_inv_def new_memberlist_def present_def alive_or_suspect_def known_def known_of_def)
qed

lemma swim_reach_good:
  "swim_reach me outs m \<Longrightarrow> swim_inv me m \<and> (\<forall>n. track n False outs = Some (present m n) \<and> reported n None outs = known m n)"
proof (induction rule: swim_reach.induct)
  case (start env a m out)
  then show ?case using start_good by blast
next
  case (step outs m out m')
  then show ?case using step_good [OF step(2)] by (simp add: track_append)
qed

end
