(* ===== verification/SwimProps.thy ===== *)
theory SwimProps
  imports SwimLife
begin

section \<open>Properties of memberlist's view (memberlist/state.go)\<close>

subsection \<open>Every step\<close>

lemma step_advances:
  assumes "swim_step me m out m'" "swim_inv me m" "mb_map m n = Some st"
  shows "(mb_map m' n = None \<and> ns_State st = stateDead) \<or> (\<exists>st'. mb_map m' n = Some st' \<and> swim_keeps me st st')"
  using assms(1)
proof cases
  case (reset shuffle)
  then have "mb_map m' = mb_map m |` (- {n \<in> set (mb_nodes m). is_dead m n})"
    using resetNodes_spec(2) [OF reset(3)] by simp
  then show ?thesis using assms(3) by (auto simp: restrict_map_def is_dead_def)
qed (use assms(2,3) aliveNode_good suspectNode_good deadNode_good UpdateNode_good Leave_good in
  \<open>fastforce simp: good_step_def\<close>)+

subsection \<open>Refuting\<close>



text \<open>Two members of a cluster: what one refutes, the other believes.\<close>

definition same_claim :: "nodeState \<Rightarrow> nodeState \<Rightarrow> bool" where
  "same_claim st st' \<longleftrightarrow> view st = view st' \<and> n_Meta st = n_Meta st' \<and> versions st = versions st'"

lemma aliveNode_accepts:
  assumes "mb_map m (al_Node a) = Some st" "al_Node a \<noteq> sw_Name env" "n_Name st = al_Node a" "sw_Alive env = None"
    and "n_Addr st = al_Addr a" "n_Port st = al_Port a" "ns_Incarnation st < al_Incarnation a" "length (al_Vsn a) = 6"
  shows "aliveNode env a False m = Returns (set_node (al_Node a) (accept_alive env a st) m,
    gossip_out env (AliveMsg a) @ alive_notify st (accept_alive env a st))"
  using assms by (auto simp: aliveNode_def alive_known_def Let_def)

lemma versions_accept:
  assumes "length (al_Vsn a) = 6"
  shows "versions (accept_alive env a st) = al_Vsn a"
proof -
  obtain v0 v1 v2 v3 v4 v5 where "al_Vsn a = [v0, v1, v2, v3, v4, v5]"
    using assms by (auto simp: length_Suc_conv eval_nat_numeral)
  then show ?thesis by (simp add: versions_def accept_alive_def Let_def)
qed

lemma view_accept: "view (accept_alive env a st) = (al_Incarnation a, stateAlive)"
  by (simp add: view_def)

text \<open>An older suspicion of a node, whatever its state, leaves it ready for a newer refutation.\<close>

definition about :: "swim_env \<Rightarrow> bool \<Rightarrow> 32 word \<Rightarrow> string \<Rightarrow> memberlist \<Rightarrow> (memberlist \<times> swim_output list) run" where
  "about env fatal i n m =
     (if fatal then deadNode env \<lparr>de_Incarnation = i, de_Node = n, de_From = []\<rparr> m
      else suspectNode env \<lparr>su_Incarnation = i, su_Node = n, su_From = []\<rparr> m)"

lemma about_other:
  assumes "mb_map m n = Some st" "n_Name st = n" "n \<noteq> sw_Name env"
  shows "\<exists>st' out. about env fatal i n m = Returns (m\<lparr>mb_map := (mb_map m)(n \<mapsto> st')\<rparr>, out)
    \<and> n_Name st' = n \<and> n_Addr st' = n_Addr st \<and> n_Port st' = n_Port st
    \<and> (ns_Incarnation st' = ns_Incarnation st \<or> ns_Incarnation st' = i)"
proof -
  have "about env fatal i n m = Returns (m, [])
    \<or> (\<exists>st' out. about env fatal i n m = Returns (set_node n st' m, out) \<and> n_Name st' = n
        \<and> n_Addr st' = n_Addr st \<and> n_Port st' = n_Port st \<and> ns_Incarnation st' = i)"
    using assms by (cases fatal) (auto simp: about_def deadNode_def suspectNode_def Let_def)
  then show ?thesis
  proof
    assume "about env fatal i n m = Returns (m, [])"
    moreover have "m = m\<lparr>mb_map := (mb_map m)(n \<mapsto> st)\<rparr>" using assms(1) by (simp add: fun_upd_idem)
    ultimately show ?thesis using assms(2) by (intro exI [of _ st]) auto
  qed (auto simp: set_node_def)
qed

lemma about_older:
  "mb_map m n = Some st \<Longrightarrow> i < ns_Incarnation st \<Longrightarrow> about env fatal i n m = Returns (m, [])"
  by (simp add: about_def deadNode_def suspectNode_def)


subsection \<open>Properties\<close>

text \<open>In every reachable state, each node has joined and left alternately as far as the delegates were
  told, and those that joined last are exactly those that \<open>Members\<close> lists.\<close>

theorem notifications_match_members:
  assumes "swim_reach me outs m"
  shows "track n False outs = Some (n \<in> n_Name ` set (memberlist_Members m))"
proof -
  have inv: "swim_inv me m" and track: "track n False outs = Some (present m n)"
    using swim_reach_good [OF assms] by auto
  have name: "n_Name (the (mb_map m k)) = k" if "k \<in> set (mb_nodes m)" for k
    using inv that by (auto simp: swim_inv_def)
  have "n \<in> n_Name ` set (memberlist_Members m) \<longleftrightarrow> n \<in> set (mb_nodes m) \<and> \<not> is_dead m n"
    using name by (auto simp: memberlist_Members_def image_iff)
  also have "\<dots> \<longleftrightarrow> present m n"
    using inv by (auto simp: swim_inv_def present_def alive_or_suspect_def is_dead_def split: option.splits)
  finally have "n \<in> n_Name ` set (memberlist_Members m) \<longleftrightarrow> present m n" .
  with track show ?thesis by simp
qed

text \<open>No step takes a view of a node back: its incarnation grows, or its state gets worse; only the
  local node may turn alive in the same incarnation, and only a dead node is forgotten.\<close>

theorem views_advance:
  assumes "swim_reach me outs m" "swim_step me m out m'" "mb_map m n = Some st"
  shows "(mb_map m' n = None \<and> ns_State st = stateDead)
    \<or> (\<exists>st'. mb_map m' n = Some st' \<and> ns_Incarnation st \<le> ns_Incarnation st' \<and> (n \<noteq> me \<longrightarrow> view st \<le> view st'))"
proof -
  have inv: "swim_inv me m" using swim_reach_good [OF assms(1)] by blast
  then have "n_Name st = n" using assms(3) by (simp add: swim_inv_def)
  with step_advances [OF assms(2) inv assms(3)] show ?thesis by (auto simp: swim_keeps_def)
qed


text \<open>C28: A refutation wins over older suspicions and death reports in whatever order they arrive: the
  node ends alive in the incarnation, with the data, of the refutation.\<close>

theorem refutation_wins:
  assumes "mb_map m n = Some st" "n_Name st = n" "n \<noteq> sw_Name env" "sw_Alive env = None"
    and "al_Node a = n" "n_Addr st = al_Addr a" "n_Port st = al_Port a" "length (al_Vsn a) = 6"
    and "ns_Incarnation st < al_Incarnation a" "i < al_Incarnation a"
  shows "\<exists>m1 o1 m2 o2 m3 o3 st2 st3.
      aliveNode env a False m = Returns (m1, o1) \<and> about env fatal i n m1 = Returns (m1, [])
    \<and> about env fatal i n m = Returns (m2, o2) \<and> aliveNode env a False m2 = Returns (m3, o3)
    \<and> mb_map m1 n = Some st2 \<and> mb_map m3 n = Some st3 \<and> same_claim st2 st3
    \<and> view st2 = (al_Incarnation a, stateAlive)"
proof -
  let ?st = "accept_alive env a st"
  have A: "aliveNode env a False m = Returns (set_node n ?st m, gossip_out env (AliveMsg a) @ alive_notify st ?st)"
    using aliveNode_accepts [of m a st env] assms by simp
  have B: "about env fatal i n (set_node n ?st m) = Returns (set_node n ?st m, [])"
    using assms(10) by (intro about_older [of _ _ ?st]) simp_all
  obtain st' out where C: "about env fatal i n m = Returns (m\<lparr>mb_map := (mb_map m)(n \<mapsto> st')\<rparr>, out)"
    "n_Name st' = n" "n_Addr st' = n_Addr st" "n_Port st' = n_Port st"
    "ns_Incarnation st' = ns_Incarnation st \<or> ns_Incarnation st' = i"
    using about_other [OF assms(1-3)] by blast
  let ?m = "m\<lparr>mb_map := (mb_map m)(n \<mapsto> st')\<rparr>"
  have D: "aliveNode env a False ?m = Returns (set_node n (accept_alive env a st') ?m,
      gossip_out env (AliveMsg a) @ alive_notify st' (accept_alive env a st'))"
    using aliveNode_accepts [of ?m a st' env] assms C(2-5) by auto
  have "same_claim ?st (accept_alive env a st')"
    using assms(8) by (simp add: same_claim_def view_accept versions_accept)
  then show ?thesis using A B C(1) D by (fastforce simp: view_accept)
qed

text \<open>The suspicion timer looks at a node twice. If the node refutes the suspicion in between, it is
  declared dead in the incarnation of its refutation; had the timer kept what it checked, the
  refutation would have stood.\<close>

theorem timer_races_with_refutation:
  assumes "mb_map m n = Some st" "n_Name st = n" "n \<noteq> sw_Name env" "sw_Alive env = None" "timer_check n t m"
    and "al_Node a = n" "n_Addr st = al_Addr a" "n_Port st = al_Port a" "length (al_Vsn a) = 6"
    and "ns_Incarnation st < al_Incarnation a"
  shows "\<exists>m1 o1 st1 m2 o2 st2.
      aliveNode env a False m = Returns (m1, o1) \<and> mb_map m1 n = Some st1 \<and> \<not> timer_check n t m1
    \<and> suspectTimeout env st m1 = Returns (m1, [])
    \<and> suspectTimeout env st1 m1 = Returns (m2, o2) \<and> NotifyLeave (Node.truncate st2) \<in> set o2
    \<and> mb_map m2 n = Some st2 \<and> view st2 = (al_Incarnation a, stateDead)"
proof -
  let ?st = "accept_alive env a st"
  have A: "aliveNode env a False m = Returns (set_node n ?st m, gossip_out env (AliveMsg a) @ alive_notify st ?st)"
    using aliveNode_accepts [of m a st env] assms by simp
  let ?dead = "?st\<lparr>ns_Incarnation := al_Incarnation a, ns_State := stateDead, ns_StateChange := sw_now env\<rparr>"
  let ?m1 = "set_node n ?st m"
  have "\<not> timer_check n t ?m1" by (simp add: timer_check_def)
  moreover have "suspectTimeout env st ?m1 = Returns (?m1, [])"
    using assms(2,10) by (simp add: suspectTimeout_def deadNode_def)
  moreover have "suspectTimeout env ?st ?m1 = Returns (set_node n ?dead ?m1,
      gossip_out env (DeadMsg \<lparr>de_Incarnation = al_Incarnation a, de_Node = n, de_From = sw_Name env\<rparr>)
        @ [NotifyLeave (Node.truncate ?dead)])"
    using assms(2,3) by (simp add: suspectTimeout_def deadNode_def Let_def)
  ultimately show ?thesis using A by (fastforce simp: view_def)
qed

text \<open>A dead node is forgotten with its incarnation: after that, any old claim that it was alive is
  believed, although it was rejected before.\<close>

theorem forgotten_node_revives:
  assumes "swim_inv me m" "sw_Name env = me" "n \<noteq> me" "mb_map m n = Some st" "ns_State st = stateDead"
    and "sw_Alive env = None" "al_Node a = n" "al_Incarnation a \<noteq> 0" "al_Incarnation a \<le> ns_Incarnation st"
    and "n_Addr st = al_Addr a" "n_Port st = al_Port a" "length (al_Vsn a) = 6"
    and "\<And>xs. mset (shuffle xs) = mset xs"
  shows "aliveNode env a False m = Returns (m, [])
    \<and> (\<exists>m' out. aliveNode env a False (resetNodes shuffle m) = Returns (m', out) \<and> present m' n
        \<and> NotifyJoin (alive_Node a) \<in> set out)"
proof
  have name: "n_Name st = n" using assms(1,4) by (simp add: swim_inv_def)
  then show "aliveNode env a False m = Returns (m, [])"
    using assms(2-11) by (simp add: aliveNode_def alive_known_def)
  let ?m = "resetNodes shuffle m"
  have "n \<in> set (mb_nodes m)" using assms(1,4) by (auto simp: swim_inv_def)
  then have gone: "mb_map ?m n = None"
    using resetNodes_spec(2) [OF assms(13), of m] assms(4,5) by (simp add: restrict_map_def is_dead_def)
  have "Node.truncate (accept_alive env a (new_nodeState a)) = alive_Node a"
    using assms(12) by (auto simp: accept_alive_def Let_def new_nodeState_def bare_Node_def alive_Node_def
        Node.extend_def Node.truncate_def)
  then show "\<exists>m' out. aliveNode env a False ?m = Returns (m', out) \<and> present m' n \<and> NotifyJoin (alive_Node a) \<in> set out"
    using assms(2,3,6-8,12) gone
    by (auto simp: aliveNode_def alive_known_def Let_def alive_notify_def present_def alive_or_suspect_def)
qed


subsection \<open>A concrete cluster\<close>

definition demo_swim :: swim_env where
  "demo_swim =
     \<lparr>sw_Name = ''n1'', sw_Alive = None, sw_Conflict = True, sw_encodes = (\<lambda>_. True), sw_now = 3, sw_random = 5\<rparr>"

definition demo_alive :: "string \<Rightarrow> 32 word \<Rightarrow> alive" where
  "demo_alive n i =
     \<lparr>al_Incarnation = i, al_Node = n, al_Addr = [127, 0, 0, 1], al_Port = 7946, al_Meta = [], al_Vsn = [1, 2, 2, 2, 4, 4]\<rparr>"

definition demo_view :: "string \<Rightarrow> 32 word \<Rightarrow> nodeStateType \<Rightarrow> nodeState" where
  "demo_view n i s =
     \<lparr>n_Name = n, n_Addr = [127, 0, 0, 1], n_Port = 7946, n_Meta = [], n_PMin = 1, n_PMax = 2, n_PCur = 2,
      n_DMin = 2, n_DMax = 4, n_DCur = 4, ns_Incarnation = i, ns_State = s, ns_StateChange = 3\<rparr>"

text \<open>The second node is alive, suspected or dead, in incarnation 2.\<close>

definition demo_cluster :: "nodeStateType \<Rightarrow> memberlist" where
  "demo_cluster s =
     \<lparr>mb_map = [''n1'' \<mapsto> demo_view ''n1'' 1 stateAlive, ''n2'' \<mapsto> demo_view ''n2'' 2 s], mb_nodes = [''n2'', ''n1''],
      mb_incarnation = 1, mb_leave = False\<rparr>"

lemmas demo_swim_simps = demo_swim_def demo_alive_def demo_view_def

lemma demo_start:
  "setAlive demo_swim (demo_alive ''n1'' 0) new_memberlist =
     Returns (\<lparr>mb_map = [''n1'' \<mapsto> demo_view ''n1'' 1 stateAlive], mb_nodes = [''n1''], mb_incarnation = 1, mb_leave = False\<rparr>,
       [Gossip (AliveMsg (demo_alive ''n1'' 1)), NotifyJoin (Node.truncate (demo_view ''n1'' 1 stateAlive))])"
  by (simp add: setAlive_def aliveNode_def alive_known_def Let_def new_memberlist_def demo_swim_simps new_nodeState_def
      bare_Node_def Node.extend_def add_node_def randomOffset_def accept_alive_def set_node_def gossip_out_def
      alive_notify_def)

lemma demo_joined:
  "aliveNode demo_swim (demo_alive ''n2'' 2) False
     \<lparr>mb_map = [''n1'' \<mapsto> demo_view ''n1'' 1 stateAlive], mb_nodes = [''n1''], mb_incarnation = 1, mb_leave = False\<rparr> =
   Returns (demo_cluster stateAlive,
     [Gossip (AliveMsg (demo_alive ''n2'' 2)), NotifyJoin (Node.truncate (demo_view ''n2'' 2 stateAlive))])"
  by (simp add: aliveNode_def alive_known_def Let_def demo_swim_simps new_nodeState_def demo_cluster_def
      bare_Node_def Node.extend_def add_node_def randomOffset_def accept_alive_def set_node_def gossip_out_def
      alive_notify_def)

definition demo_outs :: "swim_output list" where
  "demo_outs =
     [Gossip (AliveMsg (demo_alive ''n1'' 1)), NotifyJoin (Node.truncate (demo_view ''n1'' 1 stateAlive)),
      Gossip (AliveMsg (demo_alive ''n2'' 2)), NotifyJoin (Node.truncate (demo_view ''n2'' 2 stateAlive))]"

lemma demo_reach: "swim_reach ''n1'' demo_outs (demo_cluster stateAlive)"
proof -
  have name: "sw_Name demo_swim = ''n1''" by (simp add: demo_swim_def)
  have "swim_reach ''n1'' [Gossip (AliveMsg (demo_alive ''n1'' 1)), NotifyJoin (Node.truncate (demo_view ''n1'' 1 stateAlive))]
    \<lparr>mb_map = [''n1'' \<mapsto> demo_view ''n1'' 1 stateAlive], mb_nodes = [''n1''], mb_incarnation = 1, mb_leave = False\<rparr>"
    by (rule swim_reach.start [OF name demo_start]) simp
  from swim_reach.step [OF this swim_step.alive [OF name demo_joined]] show ?thesis by (simp add: demo_outs_def)
qed

lemma demo_cluster_inv: "swim_inv ''n1'' (demo_cluster s)"
  by (auto simp: swim_inv_def demo_cluster_def demo_view_def)

theorem notifications_match_members_witness:
  "track ''n2'' False demo_outs = Some (''n2'' \<in> n_Name ` set (memberlist_Members (demo_cluster stateAlive)))"
  by (rule notifications_match_members [OF demo_reach])

theorem views_advance_witness:
  "\<exists>m' st'. suspectNode demo_swim \<lparr>su_Incarnation = 2, su_Node = ''n2'', su_From = []\<rparr> (demo_cluster stateAlive)
      = Returns (m', [Gossip (SuspectMsg \<lparr>su_Incarnation = 2, su_Node = ''n2'', su_From = []\<rparr>), StartTimer ''n2'' 3])
    \<and> mb_map m' ''n2'' = Some st' \<and> view (demo_view ''n2'' 2 stateAlive) \<le> view st'"
proof -
  let ?s = "\<lparr>su_Incarnation = 2, su_Node = ''n2'', su_From = []\<rparr>"
  let ?m = "set_node ''n2'' (demo_view ''n2'' 2 stateSuspect) (demo_cluster stateAlive)"
  have step: "suspectNode demo_swim ?s (demo_cluster stateAlive) = Returns (?m, [Gossip (SuspectMsg ?s), StartTimer ''n2'' 3])"
    by (simp add: suspectNode_def demo_cluster_def demo_swim_simps gossip_out_def)
  have "swim_step ''n1'' (demo_cluster stateAlive) [Gossip (SuspectMsg ?s), StartTimer ''n2'' 3] ?m"
    by (rule swim_step.suspect [OF _ step]) (simp add: demo_swim_def)
  from views_advance [OF demo_reach this, of "''n2''" "demo_view ''n2'' 2 stateAlive"] step show ?thesis
    by (simp add: demo_cluster_def)
qed


theorem refutation_wins_witness:
  "\<exists>m1 o1. aliveNode demo_swim (demo_alive ''n2'' 5) False (demo_cluster stateAlive) = Returns (m1, o1)
     \<and> about demo_swim True 4 ''n2'' m1 = Returns (m1, [])"
  using refutation_wins [of "demo_cluster stateAlive" "''n2''" "demo_view ''n2'' 2 stateAlive" demo_swim "demo_alive ''n2'' 5" 4 True]
  by (auto simp: demo_cluster_def demo_swim_simps)

theorem timer_races_with_refutation_witness:
  "\<exists>m1 o1 st1 m2 o2 st2. aliveNode demo_swim (demo_alive ''n2'' 3) False (demo_cluster stateSuspect) = Returns (m1, o1)
     \<and> mb_map m1 ''n2'' = Some st1 \<and> suspectTimeout demo_swim st1 m1 = Returns (m2, o2)
     \<and> mb_map m2 ''n2'' = Some st2 \<and> view st2 = (3, stateDead)"
  using timer_races_with_refutation [of "demo_cluster stateSuspect" "''n2''" "demo_view ''n2'' 2 stateSuspect" demo_swim 3
      "demo_alive ''n2'' 3"]
  by (fastforce simp: demo_cluster_def demo_swim_simps timer_check_def)

theorem forgotten_node_revives_witness:
  "\<exists>m' out. aliveNode demo_swim (demo_alive ''n2'' 1) False (resetNodes id (demo_cluster stateDead)) = Returns (m', out)
     \<and> present m' ''n2''"
  using forgotten_node_revives [OF demo_cluster_inv [of stateDead], of demo_swim "''n2''" "demo_view ''n2'' 2 stateDead"
      "demo_alive ''n2'' 1" id]
  by (auto simp: demo_cluster_def demo_swim_simps)

end
