(* ===== verification/NetAddr.thy ===== *)
theory NetAddr
  imports GoStd
begin

section \<open>The text of network addresses (Go's package net)\<close>

text \<open>
  \<open>IP.String\<close> and \<open>TCPAddr.String\<close>, as far as the code prints addresses: dotted decimal for IPv4,
  also inside IPv6, and hexadecimal groups with the longest run of zeros left out for IPv6.
\<close>

definition to4 :: "bytes \<Rightarrow> bytes option" where
  "to4 ip =
     (if length ip = 4 then Some ip
      else if length ip = 16 \<and> take 12 ip = replicate 10 0 @ [255, 255] then Some (drop 12 ip) else None)"

definition ip_groups :: "bytes \<Rightarrow> nat list" where
  "ip_groups ip = map (\<lambda>i. unat (ip ! (2 * i)) * 256 + unat (ip ! (2 * i + 1))) [0..<8]"

definition zero_run :: "nat list \<Rightarrow> nat \<Rightarrow> nat" where
  "zero_run gs i = length (takeWhile (\<lambda>g. g = 0) (drop i gs))"

text \<open>The start and length of the first longest run of zeros.\<close>

definition longest_run :: "nat list \<Rightarrow> nat \<times> nat" where
  "longest_run gs =
     fold (\<lambda>i (s, l). if l < zero_run gs i then (i, zero_run gs i) else (s, l)) [0..<length gs] (0, 0)"

definition hex_groups :: "nat list \<Rightarrow> string" where
  "hex_groups gs = concat (map (\<lambda>i. (if i = 0 then [] else '':'') @ show_base 16 (gs ! i)) [0..<length gs])"

definition ip_String :: "bytes \<Rightarrow> string" where
  "ip_String ip =
     (if ip = [] then ''<nil>''
      else case to4 ip of
        Some p \<Rightarrow> show_nat (unat (p ! 0)) @ ''.'' @ show_nat (unat (p ! 1)) @ ''.'' @
                  show_nat (unat (p ! 2)) @ ''.'' @ show_nat (unat (p ! 3))
      | None \<Rightarrow>
          if length ip \<noteq> 16 then ''?'' @ concat (map (hex_pad 2 \<circ> unat) ip)
          else
            (let gs = ip_groups ip; (s, l) = longest_run gs in
             if l \<le> 1 then hex_groups gs
             else hex_groups (take s gs) @ ''::'' @ hex_groups (drop (s + l) gs)))"

definition JoinHostPort :: "string \<Rightarrow> string \<Rightarrow> string" where
  "JoinHostPort host port =
     (if CHR '':'' \<in> set host \<or> CHR ''%'' \<in> set host then ''['' @ host @ '']:'' @ port
      else host @ '':'' @ port)"

definition TCPAddr_String :: "bytes \<Rightarrow> 16 word \<Rightarrow> string" where
  "TCPAddr_String ip port = JoinHostPort (if ip = [] then [] else ip_String ip) (show_nat (unat port))"

subsection \<open>The characters of an address\<close>

text \<open>An address is one word: no blank and no end of line.\<close>

definition one_word :: "string \<Rightarrow> bool" where
  "one_word s \<longleftrightarrow> CHR '' '' \<notin> set s \<and> CHR 0x0A \<notin> set s"

lemma one_word_append [simp]: "one_word (s @ t) \<longleftrightarrow> one_word s \<and> one_word t"
  by (auto simp: one_word_def)

lemma one_word_Nil [simp]: "one_word []"
  by (simp add: one_word_def)

lemma one_word_Cons [simp]: "one_word (c # s) \<longleftrightarrow> c \<noteq> CHR '' '' \<and> c \<noteq> CHR 0x0A \<and> one_word s"
  by (auto simp: one_word_def)

lemma one_word_concat [simp]: "one_word (concat ss) \<longleftrightarrow> (\<forall>s \<in> set ss. one_word s)"
  by (auto simp: one_word_def)

lemma digit_char_word: "d < 100 \<Longrightarrow> digit_char d \<noteq> CHR '' '' \<and> digit_char d \<noteq> CHR 0x0A"
proof -
  assume "d < 100"
  then have "(of_char (digit_char d) :: nat) > 32" by (simp add: digit_char_def)
  then show ?thesis by auto
qed

lemma one_word_show_base: "2 \<le> b \<Longrightarrow> b \<le> 100 \<Longrightarrow> one_word (show_base b n)"
proof (induction b n rule: show_base.induct)
  case (1 b n)
  show ?case
  proof (cases "n < b")
    case True
    with 1 digit_char_word [of n] show ?thesis by (subst show_base.simps) simp
  next
    case False
    have "n mod b < b" using 1(2) by simp
    then have "n mod b < 100" using 1(3) by linarith
    with 1 False digit_char_word [of "n mod b"] show ?thesis by (subst show_base.simps) simp
  qed
qed

lemma one_word_show_nat [simp]: "one_word (show_nat n)"
  by (simp add: show_nat_def one_word_show_base)

lemma one_word_hex_pad [simp]: "one_word (hex_pad k n)"
  using one_word_show_base [of 16 n] by (simp add: hex_pad_def Let_def one_word_def)

lemma one_word_hex_groups [simp]: "one_word (hex_groups gs)"
  by (auto simp: hex_groups_def one_word_show_base)

lemma one_word_ip_String [simp]: "one_word (ip_String ip)"
  by (auto simp: ip_String_def Let_def split: option.splits prod.splits)

lemma one_word_TCPAddr_String: "one_word (TCPAddr_String ip port)"
  by (simp add: TCPAddr_String_def JoinHostPort_def)

end
