(* ===== verification/Snapshot.thy ===== *)
theory Snapshot
  imports SerfDelegate NetAddr
begin

section \<open>The snapshot file (serf/snapshot.go)\<close>

text \<open>
  A node records who is alive and how far its clocks are in a file, one line per change, so that
  after a crash it can join the cluster again and does not see old events again. Modelled are the
  lines and the replay of a file, the buffered writer, the goroutine that records events, and the
  compaction, with every state of the disk in which the machine may stop. Writes may be short and
  the calls of the operating system may fail. A write to a nil writer panics (\<open>None\<close>).
\<close>

subsection \<open>The disk and the buffered writer (bufio.Writer)\<close>

record disk =
  dk_log :: "string option"
  dk_tmp :: "string option"

record bufw =
  bw_buf :: string
  bw_err :: bool

text \<open>How many bytes of a write reach the file, and which system calls of a compaction succeed.\<close>

record snap_io =
  io_write :: "string \<Rightarrow> nat"
  io_open_tmp :: bool
  io_remove :: bool
  io_rename :: bool
  io_reopen :: bool

definition bufio_size :: nat where "bufio_size = 4096"

definition new_writer :: bufw where "new_writer = \<lparr>bw_buf = [], bw_err = False\<rparr>"

text \<open>The result says whether there was no error.\<close>

definition bufw_Flush :: "snap_io \<Rightarrow> bufw \<Rightarrow> string \<Rightarrow> bool \<times> bufw \<times> string" where
  "bufw_Flush io w file =
     (if bw_err w then (False, w, file)
      else if bw_buf w = [] then (True, w, file)
      else
        (let n = min (io_write io (bw_buf w)) (length (bw_buf w)); ok = (n = length (bw_buf w))
         in (ok, \<lparr>bw_buf = drop n (bw_buf w), bw_err = \<not> ok\<rparr>, file @ take n (bw_buf w))))"

lemma bufw_Flush_empties: "bufw_Flush io w f = (ok, w', f') \<Longrightarrow> bw_err w' \<or> bw_buf w' = []"
  by (auto simp: bufw_Flush_def Let_def split: if_splits)

function bufw_WriteString :: "snap_io \<Rightarrow> string \<Rightarrow> bufw \<Rightarrow> string \<Rightarrow> bool \<times> bufw \<times> string" where
  "bufw_WriteString io s w file =
     (if bw_err w then (False, w, file)
      else if bufio_size - length (bw_buf w) < length s then
        (let n = bufio_size - length (bw_buf w);
             (_, w', file') = bufw_Flush io (w\<lparr>bw_buf := bw_buf w @ take n s\<rparr>) file
         in bufw_WriteString io (drop n s) w' file')
      else (True, w\<lparr>bw_buf := bw_buf w @ s\<rparr>, file))"
  by pat_completeness auto
termination
proof (relation "measure (\<lambda>(_, s, w, _). if bw_err w then 0 else 1 + length s + length (bw_buf w))")
  fix io s w f n r ok t w' f'
  assume a: "\<not> bw_err w" "bufio_size - length (bw_buf w) < length s" "n = bufio_size - length (bw_buf w)"
    "r = bufw_Flush io (w\<lparr>bw_buf := bw_buf w @ take n s\<rparr>) f" "(ok, t) = r" "(w', f') = t"
  then have "bw_err w' \<or> bw_buf w' = []" using bufw_Flush_empties by metis
  moreover have "0 < n + length (bw_buf w)" using a(3) by (cases "bw_buf w") (simp_all add: bufio_size_def)
  ultimately show "((io, drop n s, w', f'), io, s, w, f)
      \<in> measure (\<lambda>(_, s, w, _). if bw_err w then 0 else 1 + length s + length (bw_buf w))"
    using a by (cases "bw_buf w") auto
qed simp

declare bufw_WriteString.simps [simp del]

subsection \<open>The state\<close>

text \<open>What a replay recovers, and the rest of \<open>Snapshotter\<close>. \<open>sp_w\<close> is \<open>buffered\<close>; it and \<open>fh\<close> are nil together.\<close>

record snap_view =
  sv_aliveNodes :: "string \<rightharpoonup> string"
  sv_lastClock :: ltime
  sv_lastEventClock :: ltime
  sv_lastQueryClock :: ltime

record snapshotter = snap_view +
  sp_leaving :: bool
  sp_offset :: int
  sp_lastFlush :: int
  sp_w :: "bufw option"
  sp_disk :: disk

record snap_conf =
  sc_maxSize :: int
  sc_rejoinAfterLeave :: bool

text \<open>The world of one turn: the time, the clock of the node, the order in which the map is iterated.\<close>

record snap_env =
  sx_now :: int
  sx_clock :: ltime
  sx_order :: "(string \<rightharpoonup> string) \<Rightarrow> string list"
  sx_io :: snap_io

definition no_view :: snap_view where
  "no_view = \<lparr>sv_aliveNodes = Map.empty, sv_lastClock = 0, sv_lastEventClock = 0, sv_lastQueryClock = 0\<rparr>"

definition log_text :: "disk \<Rightarrow> string" where
  "log_text d = (case dk_log d of Some f \<Rightarrow> f | None \<Rightarrow> [])"

subsection \<open>Lines\<close>

abbreviation newline :: string where "newline \<equiv> [CHR 0x0A]"

definition alive_line :: "string \<Rightarrow> string \<Rightarrow> string" where
  "alive_line name addr = ''alive: '' @ name @ '' '' @ addr @ newline"
definition not_alive_line :: "string \<Rightarrow> string" where
  "not_alive_line name = ''not-alive: '' @ name @ newline"
definition clock_line :: "ltime \<Rightarrow> string" where
  "clock_line t = ''clock: '' @ show_nat (unat t) @ newline"
definition event_clock_line :: "ltime \<Rightarrow> string" where
  "event_clock_line t = ''event-clock: '' @ show_nat (unat t) @ newline"
definition query_clock_line :: "ltime \<Rightarrow> string" where
  "query_clock_line t = ''query-clock: '' @ show_nat (unat t) @ newline"
definition leave_line :: string where
  "leave_line = ''leave'' @ newline"

subsection \<open>Replay\<close>

definition ParseUint64 :: "string \<Rightarrow> ltime option" where
  "ParseUint64 s = (case parse_unsigned s of Some n \<Rightarrow> if n < 2 ^ 64 then Some (word_of_nat n) else None | None \<Rightarrow> None)"

text \<open>\<open>strings.LastIndex(info, " ")\<close> and the two slices around it.\<close>

definition split_last_blank :: "string \<Rightarrow> (string \<times> string) option" where
  "split_last_blank info =
     (let addr = rev (takeWhile (\<lambda>c. c \<noteq> CHR '' '') (rev info)) in
      if length addr = length info then None
      else Some (take (length info - length addr - 1) info, addr))"

definition replay_line :: "bool \<Rightarrow> string \<Rightarrow> snap_view \<Rightarrow> snap_view" where
  "replay_line rejoin line s =
     (case strip_prefix ''alive: '' line of
        Some info \<Rightarrow>
          (case split_last_blank info of
             None \<Rightarrow> s
           | Some (name, addr) \<Rightarrow> s\<lparr>sv_aliveNodes := (sv_aliveNodes s)(name \<mapsto> addr)\<rparr>)
      | None \<Rightarrow>
      (case strip_prefix ''not-alive: '' line of
        Some name \<Rightarrow> s\<lparr>sv_aliveNodes := (sv_aliveNodes s)(name := None)\<rparr>
      | None \<Rightarrow>
      (case strip_prefix ''clock: '' line of
        Some timeStr \<Rightarrow> (case ParseUint64 timeStr of None \<Rightarrow> s | Some t \<Rightarrow> s\<lparr>sv_lastClock := t\<rparr>)
      | None \<Rightarrow>
      (case strip_prefix ''event-clock: '' line of
        Some timeStr \<Rightarrow> (case ParseUint64 timeStr of None \<Rightarrow> s | Some t \<Rightarrow> s\<lparr>sv_lastEventClock := t\<rparr>)
      | None \<Rightarrow>
      (case strip_prefix ''query-clock: '' line of
        Some timeStr \<Rightarrow> (case ParseUint64 timeStr of None \<Rightarrow> s | Some t \<Rightarrow> s\<lparr>sv_lastQueryClock := t\<rparr>)
      | None \<Rightarrow>
      if line = ''leave'' then
        (if rejoin then s
         else s\<lparr>sv_aliveNodes := Map.empty, sv_lastClock := 0, sv_lastEventClock := 0, sv_lastQueryClock := 0\<rparr>)
      else s)))))"

text \<open>\<open>ReadString\<close> returns the lines that are ended; a rest without an end of line is not used.\<close>

definition complete_lines :: "string \<Rightarrow> string list" where
  "complete_lines text = butlast (split_on (CHR 0x0A) text)"

definition replay_text :: "bool \<Rightarrow> string \<Rightarrow> snap_view \<Rightarrow> snap_view" where
  "replay_text rejoin text s = fold (replay_line rejoin) (complete_lines text) s"

text \<open>What a node that starts on a disk knows, and its snapshotter; the file is created if it is missing.\<close>

definition recover :: "bool \<Rightarrow> disk \<Rightarrow> snap_view" where
  "recover rejoin d = replay_text rejoin (log_text d) no_view"

definition NewSnapshotter :: "snap_conf \<Rightarrow> disk \<Rightarrow> snapshotter" where
  "NewSnapshotter conf d =
     snap_view.extend (recover (sc_rejoinAfterLeave conf) d)
       \<lparr>sp_leaving = False, sp_offset = int (length (log_text d)), sp_lastFlush = 0, sp_w = Some new_writer,
        sp_disk = d\<lparr>dk_log := Some (log_text d)\<rparr>\<rparr>"

subsection \<open>Compaction\<close>

definition compact_lines :: "(string \<Rightarrow> string) \<Rightarrow> string list \<Rightarrow> ltime \<Rightarrow> ltime \<Rightarrow> ltime \<Rightarrow> string list" where
  "compact_lines addr names clock eventClock queryClock =
     map (\<lambda>n. alive_line n (addr n)) names @ [clock_line clock, event_clock_line eventClock, query_clock_line queryClock]"

primrec write_lines :: "snap_io \<Rightarrow> string list \<Rightarrow> bufw \<Rightarrow> string \<Rightarrow> bool \<times> bufw \<times> string" where
  "write_lines io [] w file = (True, w, file)"
| "write_lines io (l # ls) w file =
     (let (ok, w', file') = bufw_WriteString io l w file
      in if ok then write_lines io ls w' file' else (False, w', file'))"

text \<open>
  The result is the state and every state of the disk on the way, in order: after the temporary
  file is created, written, the old file flushed, removed, the new one renamed, opened.
\<close>

definition install_snapshot :: "snap_env \<Rightarrow> int \<Rightarrow> bufw \<Rightarrow> snapshotter \<Rightarrow> snapshotter \<times> disk list" where
  "install_snapshot env offset w s =
     (let io = sx_io env;
          (_, _, log) = bufw_Flush io w (log_text (sp_disk s));
          d1 = (sp_disk s)\<lparr>dk_log := Some log\<rparr>;
          s1 = s\<lparr>sp_w := None, sp_disk := d1\<rparr>
      in if \<not> io_remove io then (s1, [d1])
         else
           (let d2 = d1\<lparr>dk_log := None\<rparr> in
            if \<not> io_rename io then (s1\<lparr>sp_disk := d2\<rparr>, [d1, d2])
            else
              (let d3 = \<lparr>dk_log = dk_tmp d2, dk_tmp = None\<rparr> in
               if \<not> io_reopen io then (s1\<lparr>sp_disk := d3\<rparr>, [d1, d2, d3])
               else (s1\<lparr>sp_disk := d3, sp_w := Some new_writer, sp_offset := offset, sp_lastFlush := sx_now env\<rparr>,
                     [d1, d2, d3]))))"

definition snap_compact :: "snap_env \<Rightarrow> snapshotter \<Rightarrow> (snapshotter \<times> disk list) option" where
  "snap_compact env s =
     (let io = sx_io env in
      if \<not> io_open_tmp io then Some (s, [])
      else
        (let d0 = (sp_disk s)\<lparr>dk_tmp := Some []\<rparr>;
             ls = compact_lines (the \<circ> sv_aliveNodes s) (sx_order env (sv_aliveNodes s))
                    (sv_lastClock s) (sv_lastEventClock s) (sv_lastQueryClock s);
             (ok, w, tmp) = write_lines io ls new_writer [];
             (ok', _, tmp') = (if ok then bufw_Flush io w tmp else (False, w, tmp));
             s1 = s\<lparr>sp_disk := d0\<lparr>dk_tmp := Some tmp'\<rparr>\<rparr>
         in if \<not> ok' then Some (s1, [d0, sp_disk s1])
            else
              (case sp_w s of
                 None \<Rightarrow> None
               | Some lw \<Rightarrow>
                   (let (s2, ds) = install_snapshot env (int (length (concat ls))) lw s1
                    in Some (s2, [d0, sp_disk s1] @ ds)))))"

subsection \<open>Appending\<close>

definition flushInterval :: int where "flushInterval = 500000000"

definition set_log :: "bufw \<Rightarrow> string \<Rightarrow> snapshotter \<Rightarrow> snapshotter" where
  "set_log w file s = s\<lparr>sp_w := Some w, sp_disk := (sp_disk s)\<lparr>dk_log := Some file\<rparr>\<rparr>"

definition tryAppend :: "snap_conf \<Rightarrow> snap_env \<Rightarrow> string \<Rightarrow> snapshotter \<Rightarrow> (snapshotter \<times> disk list) option" where
  "tryAppend conf env l s =
     (case sp_w s of
        None \<Rightarrow> None
      | Some w \<Rightarrow>
          (let (ok, w1, file1) = bufw_WriteString (sx_io env) l w (log_text (sp_disk s));
               s1 = set_log w1 file1 s
           in if \<not> ok then Some (s1, [sp_disk s1])
              else
                (let flush = flushInterval < sx_now env - sp_lastFlush s1;
                     (ok2, w2, file2) = (if flush then bufw_Flush (sx_io env) w1 file1 else (True, w1, file1));
                     s2 = (set_log w2 file2 s1)\<lparr>sp_lastFlush := if flush then sx_now env else sp_lastFlush s1\<rparr>
                 in if \<not> ok2 then Some (s2, [sp_disk s1, sp_disk s2])
                    else
                      (let s3 = s2\<lparr>sp_offset := sp_offset s2 + int (length l)\<rparr> in
                       if sc_maxSize conf < sp_offset s3 then
                         (case snap_compact env s3 of
                            None \<Rightarrow> None
                          | Some (s4, ds) \<Rightarrow> Some (s4, [sp_disk s1, sp_disk s2] @ ds))
                       else Some (s3, [sp_disk s1, sp_disk s2])))))"

subsection \<open>Recording events\<close>

text \<open>Each function returns the state and the states of the disk on the way, \<open>None\<close> for a panic.\<close>

type_synonym snap_run = "(snapshotter \<times> disk list) option"

definition snap_then :: "snap_run \<Rightarrow> (snapshotter \<Rightarrow> snap_run) \<Rightarrow> snap_run" where
  "snap_then r f =
     (case r of
        None \<Rightarrow> None
      | Some (s, ds) \<Rightarrow> (case f s of None \<Rightarrow> None | Some (s', ds') \<Rightarrow> Some (s', ds @ ds')))"

definition snap_updateClock :: "snap_conf \<Rightarrow> snap_env \<Rightarrow> snapshotter \<Rightarrow> snap_run" where
  "snap_updateClock conf env s =
     (let lastSeen = sx_clock env - 1 in
      if sv_lastClock s < lastSeen
      then tryAppend conf env (clock_line lastSeen) (s\<lparr>sv_lastClock := lastSeen\<rparr>)
      else Some (s, []))"

fun join_members :: "snap_conf \<Rightarrow> snap_env \<Rightarrow> Member list \<Rightarrow> snapshotter \<Rightarrow> snap_run" where
  "join_members conf env [] s = Some (s, [])"
| "join_members conf env (mem # ms) s =
     (let addr = TCPAddr_String (m_Addr mem) (m_Port mem) in
      snap_then (tryAppend conf env (alive_line (m_Name mem) addr)
                   (s\<lparr>sv_aliveNodes := (sv_aliveNodes s)(m_Name mem \<mapsto> addr)\<rparr>))
        (join_members conf env ms))"

fun lose_members :: "snap_conf \<Rightarrow> snap_env \<Rightarrow> Member list \<Rightarrow> snapshotter \<Rightarrow> snap_run" where
  "lose_members conf env [] s = Some (s, [])"
| "lose_members conf env (mem # ms) s =
     snap_then (tryAppend conf env (not_alive_line (m_Name mem))
                  (s\<lparr>sv_aliveNodes := (sv_aliveNodes s)(m_Name mem := None)\<rparr>))
       (lose_members conf env ms)"

definition processMemberEvent :: "snap_conf \<Rightarrow> snap_env \<Rightarrow> MemberEvent \<Rightarrow> snapshotter \<Rightarrow> snap_run" where
  "processMemberEvent conf env e s =
     snap_then
       (if me_Type e = EventMemberJoin then join_members conf env (me_Members e) s
        else if me_Type e \<in> {EventMemberLeave, EventMemberFailed} then lose_members conf env (me_Members e) s
        else Some (s, []))
       (snap_updateClock conf env)"

definition processUserEvent :: "snap_conf \<Rightarrow> snap_env \<Rightarrow> UserEvent \<Rightarrow> snapshotter \<Rightarrow> snap_run" where
  "processUserEvent conf env e s =
     (if uev_LTime e \<le> sv_lastEventClock s then Some (s, [])
      else tryAppend conf env (event_clock_line (uev_LTime e)) (s\<lparr>sv_lastEventClock := uev_LTime e\<rparr>))"

definition snap_processQuery :: "snap_conf \<Rightarrow> snap_env \<Rightarrow> squery \<Rightarrow> snapshotter \<Rightarrow> snap_run" where
  "snap_processQuery conf env q s =
     (if q_LTime q \<le> sv_lastQueryClock s then Some (s, [])
      else tryAppend conf env (query_clock_line (q_LTime q)) (s\<lparr>sv_lastQueryClock := q_LTime q\<rparr>))"

definition flush_log :: "snap_env \<Rightarrow> snapshotter \<Rightarrow> snap_run" where
  "flush_log env s =
     (case sp_w s of
        None \<Rightarrow> None
      | Some w \<Rightarrow>
          (let (_, w', log) = bufw_Flush (sx_io env) w (log_text (sp_disk s)); s' = set_log w' log s
           in Some (s', [sp_disk s'])))"

text \<open>
  The cases of \<open>stream\<close>; after \<open>SnapShutdown\<close> the goroutine ends. An event is passed on unchanged before it is
  recorded; the functions below are about what is recorded. Syncing the file has no effect here: a
  process may stop, but the machine keeps what was written.
\<close>

datatype snap_case = SnapLeave | SnapEvent serf_event | SnapTick | SnapShutdown

definition record_leave :: "snap_conf \<Rightarrow> snap_env \<Rightarrow> snapshotter \<Rightarrow> snap_run" where
  "record_leave conf env s =
     (let s1 = s\<lparr>sp_leaving := True\<rparr>;
          s2 = (if sc_rejoinAfterLeave conf then s1 else s1\<lparr>sv_aliveNodes := Map.empty\<rparr>)
      in snap_then (tryAppend conf env leave_line s2) (flush_log env))"

definition record_event :: "snap_conf \<Rightarrow> snap_env \<Rightarrow> serf_event \<Rightarrow> snapshotter \<Rightarrow> snap_run" where
  "record_event conf env e s =
     (if sp_leaving s then Some (s, [])
      else case e of
        SawMembers me \<Rightarrow> processMemberEvent conf env me s
      | SawUser ue \<Rightarrow> processUserEvent conf env ue s
      | SawQuery q \<Rightarrow> snap_processQuery conf env q s)"

definition snap_turn :: "snap_conf \<Rightarrow> snap_env \<Rightarrow> snap_case \<Rightarrow> snapshotter \<Rightarrow> snap_run" where
  "snap_turn conf env c s =
     (case c of
        SnapLeave \<Rightarrow> record_leave conf env s
      | SnapEvent e \<Rightarrow> record_event conf env e s
      | SnapTick \<Rightarrow> snap_updateClock conf env s
      | SnapShutdown \<Rightarrow> flush_log env s)"

fun snap_turns :: "snap_conf \<Rightarrow> (snap_env \<times> snap_case) list \<Rightarrow> snapshotter \<Rightarrow> snap_run" where
  "snap_turns conf [] s = Some (s, [])"
| "snap_turns conf ((env, c) # cs) s = snap_then (snap_turn conf env c s) (snap_turns conf cs)"

end
