(* ===== verification/SnapshotLife.thy ===== *)
theory SnapshotLife
  imports Snapshot "HOL-Library.Sublist"
begin

section \<open>What a snapshot file recovers\<close>

text \<open>
  The file is described by the records written to it. Reading a line gives back the record it was
  written for, a prefix of the file gives a prefix of the records, and a compacted file gives the
  state in memory. From this follows an invariant of every turn: whatever state of the disk the
  machine stops in, a restart finds the state the node had some records ago.
\<close>

subsection \<open>Lines of a text\<close>

definition ends_line :: "string \<Rightarrow> bool" where
  "ends_line t \<longleftrightarrow> last (split_on (CHR 0x0A) t) = []"

lemma split_on_append:
  "split_on sep (p @ q) =
     butlast (split_on sep p) @ (last (split_on sep p) @ hd (split_on sep q)) # tl (split_on sep q)"
proof (induction sep p rule: split_on.induct)
  case (2 sep c s)
  then show ?case by (cases "split_on sep s") auto
qed (cases "split_on sep q"; simp)

lemma complete_lines_Nil [simp]: "complete_lines [] = []"
  by (simp add: complete_lines_def)

lemma ends_line_Nil [simp]: "ends_line []"
  by (simp add: ends_line_def)

lemma complete_lines_append: "ends_line p \<Longrightarrow> complete_lines (p @ q) = complete_lines p @ complete_lines q"
  by (cases "split_on (CHR 0x0A) q") (auto simp: complete_lines_def ends_line_def split_on_append butlast_append)

lemma ends_line_append: "ends_line p \<Longrightarrow> ends_line q \<Longrightarrow> ends_line (p @ q)"
  by (cases "split_on (CHR 0x0A) q") (auto simp: ends_line_def split_on_append)

lemma one_line:
  assumes "CHR 0x0A \<notin> set l"
  shows "complete_lines (l @ newline) = [l]" "ends_line (l @ newline)"
  using assms by (simp_all add: complete_lines_def ends_line_def split_on_append split_on_no_sep)

lemma complete_lines_prefix: "prefix p t \<Longrightarrow> prefix (complete_lines p) (complete_lines t)"
  by (auto simp: prefix_def complete_lines_def split_on_append butlast_append)

lemma replay_text_append:
  "ends_line p \<Longrightarrow> replay_text rej (p @ q) v = replay_text rej q (replay_text rej p v)"
  by (simp add: replay_text_def complete_lines_append)

lemma replay_text_Nil [simp]: "replay_text rej [] v = v"
  by (simp add: replay_text_def)

lemma replay_one_line: "CHR 0x0A \<notin> set l \<Longrightarrow> replay_text rej (l @ newline) v = replay_line rej l v"
  by (simp add: replay_text_def one_line)

subsection \<open>Records\<close>

datatype snap_record =
  RAlive string string
| RNotAlive string
| RClock ltime
| REventClock ltime
| RQueryClock ltime
| RLeave

primrec record_line :: "snap_record \<Rightarrow> string" where
  "record_line (RAlive n a) = ''alive: '' @ n @ '' '' @ a"
| "record_line (RNotAlive n) = ''not-alive: '' @ n"
| "record_line (RClock t) = ''clock: '' @ show_nat (unat t)"
| "record_line (REventClock t) = ''event-clock: '' @ show_nat (unat t)"
| "record_line (RQueryClock t) = ''query-clock: '' @ show_nat (unat t)"
| "record_line RLeave = ''leave''"

primrec apply_record :: "bool \<Rightarrow> snap_record \<Rightarrow> snap_view \<Rightarrow> snap_view" where
  "apply_record rej (RAlive n a) v = v\<lparr>sv_aliveNodes := (sv_aliveNodes v)(n \<mapsto> a)\<rparr>"
| "apply_record rej (RNotAlive n) v = v\<lparr>sv_aliveNodes := (sv_aliveNodes v)(n := None)\<rparr>"
| "apply_record rej (RClock t) v = v\<lparr>sv_lastClock := t\<rparr>"
| "apply_record rej (REventClock t) v = v\<lparr>sv_lastEventClock := t\<rparr>"
| "apply_record rej (RQueryClock t) v = v\<lparr>sv_lastQueryClock := t\<rparr>"
| "apply_record rej RLeave v = (if rej then v else no_view)"

primrec good_record :: "snap_record \<Rightarrow> bool" where
  "good_record (RAlive n a) \<longleftrightarrow> CHR 0x0A \<notin> set n \<and> one_word a"
| "good_record (RNotAlive n) \<longleftrightarrow> CHR 0x0A \<notin> set n"
| "good_record (RClock t) \<longleftrightarrow> True"
| "good_record (REventClock t) \<longleftrightarrow> True"
| "good_record (RQueryClock t) \<longleftrightarrow> True"
| "good_record RLeave \<longleftrightarrow> True"

abbreviation apply_records :: "bool \<Rightarrow> snap_record list \<Rightarrow> snap_view \<Rightarrow> snap_view" where
  "apply_records rej \<equiv> fold (apply_record rej)"

lemma line_of_record:
  "alive_line n a = record_line (RAlive n a) @ newline"
  "not_alive_line n = record_line (RNotAlive n) @ newline"
  "clock_line t = record_line (RClock t) @ newline"
  "event_clock_line t = record_line (REventClock t) @ newline"
  "query_clock_line t = record_line (RQueryClock t) @ newline"
  "leave_line = record_line RLeave @ newline"
  by (simp_all add: alive_line_def not_alive_line_def clock_line_def event_clock_line_def query_clock_line_def leave_line_def)

lemma split_last_blank_word: "one_word a \<Longrightarrow> split_last_blank (n @ CHR '' '' # a) = Some (n, a)"
proof -
  assume "one_word a"
  then have "\<forall>c \<in> set (rev a). c \<noteq> CHR '' ''" by (auto simp: one_word_def)
  then have "takeWhile (\<lambda>c. c \<noteq> CHR '' '') (rev a @ CHR '' '' # rev n) = rev a"
    by (subst takeWhile_append2) auto
  then show ?thesis by (simp add: split_last_blank_def)
qed

lemma ParseUint64_show_nat: "ParseUint64 (show_nat (unat t)) = Some t"
  using unsigned_less [of t] by (simp add: ParseUint64_def)

lemma replay_record: "good_record r \<Longrightarrow> replay_line rej (record_line r) v = apply_record rej r v"
  by (cases r) (auto simp: replay_line_def split_last_blank_word ParseUint64_show_nat no_view_def)

lemma one_word_no_newline: "one_word s \<Longrightarrow> CHR 0x0A \<notin> set s"
  by (simp add: one_word_def)

lemma record_line_no_newline: "good_record r \<Longrightarrow> CHR 0x0A \<notin> set (record_line r)"
  using one_word_show_nat [THEN one_word_no_newline] by (cases r) (auto dest: one_word_no_newline)

lemma replay_record_text:
  "good_record r \<Longrightarrow> replay_text rej (record_line r @ newline) v = apply_record rej r v"
  using record_line_no_newline [of r] by (simp add: replay_one_line replay_record)

lemma replay_records_text:
  "\<forall>r \<in> set rs. good_record r \<Longrightarrow>
     replay_text rej (concat (map (\<lambda>r. record_line r @ newline) rs)) v = apply_records rej rs v
     \<and> ends_line (concat (map (\<lambda>r. record_line r @ newline) rs))"
proof (induction rs arbitrary: v)
  case (Cons r rs)
  have "ends_line (record_line r @ newline)" using Cons.prems by (simp add: one_line record_line_no_newline)
  with Cons replay_text_append [OF this, of rej _ v] replay_record_text [of r rej v]
    ends_line_append [OF this, of "concat (map (\<lambda>r. record_line r @ newline) rs)"]
  show ?case by simp
qed simp

subsection \<open>Writing without errors\<close>

definition io_good :: "snap_io \<Rightarrow> bool" where
  "io_good io \<longleftrightarrow> (\<forall>s. length s \<le> io_write io s) \<and> io_open_tmp io \<and> io_remove io \<and> io_rename io \<and> io_reopen io"

lemma Flush_good: "io_good io \<Longrightarrow> \<not> bw_err w \<Longrightarrow> bufw_Flush io w f = (True, new_writer, f @ bw_buf w)"
  by (cases w) (auto simp: bufw_Flush_def io_good_def new_writer_def Let_def min_def intro: le_antisym)

lemma WriteString_good:
  "io_good io \<Longrightarrow> \<not> bw_err w \<Longrightarrow>
     \<exists>w' f'. bufw_WriteString io s w f = (True, w', f') \<and> \<not> bw_err w' \<and> prefix f f' \<and> f' @ bw_buf w' = f @ bw_buf w @ s"
proof (induction io s w f rule: bufw_WriteString.induct)
  case (1 io s w f)
  let ?n = "bufio_size - length (bw_buf w)"
  let ?w = "w\<lparr>bw_buf := bw_buf w @ take ?n s\<rparr>"
  show ?case
  proof (cases "?n < length s")
    case True
    have fl: "bufw_Flush io ?w f = (True, new_writer, f @ bw_buf ?w)" using 1(2,3) by (simp add: Flush_good)
    then obtain w' f' where "bufw_WriteString io (drop ?n s) new_writer (f @ bw_buf ?w) = (True, w', f')"
      "\<not> bw_err w'" "prefix (f @ bw_buf ?w) f'" "f' @ bw_buf w' = (f @ bw_buf ?w) @ drop ?n s"
      using 1(1) [OF 1(3) True refl fl [symmetric] refl] 1(2) by (auto simp: new_writer_def)
    with True 1(3) fl show ?thesis
      by (subst bufw_WriteString.simps) (auto dest: append_prefixD)
  next
    case False
    with 1(3) show ?thesis by (subst bufw_WriteString.simps) simp
  qed
qed

lemma write_lines_good:
  "io_good io \<Longrightarrow> \<not> bw_err w \<Longrightarrow>
     \<exists>w' f'. write_lines io ls w f = (True, w', f') \<and> \<not> bw_err w' \<and> f' @ bw_buf w' = f @ bw_buf w @ concat ls"
proof (induction ls arbitrary: w f)
  case (Cons l ls)
  obtain w1 f1 where l: "bufw_WriteString io l w f = (True, w1, f1)" "\<not> bw_err w1" "f1 @ bw_buf w1 = f @ bw_buf w @ l"
    using WriteString_good [OF Cons.prems, of l f] by blast
  obtain w2 f2 where "write_lines io ls w1 f1 = (True, w2, f2)" "\<not> bw_err w2" "f2 @ bw_buf w2 = f1 @ bw_buf w1 @ concat ls"
    using Cons.IH [OF Cons.prems(1) l(2), of f1] by blast
  with l show ?case by simp
qed simp

subsection \<open>The invariant\<close>

text \<open>
  \<open>v0\<close> is what the node knew when it started and \<open>rs\<close> the records since. A text is recoverable when
  it replays to the state some records ago.
\<close>

definition recoverable :: "bool \<Rightarrow> snap_view \<Rightarrow> snap_record list \<Rightarrow> string \<Rightarrow> bool" where
  "recoverable rej v0 rs text \<longleftrightarrow>
     (\<exists>k \<le> length rs. replay_text rej text no_view = apply_records rej (take k rs) v0)"

definition good_disk :: "bool \<Rightarrow> snap_view \<Rightarrow> snap_record list \<Rightarrow> disk \<Rightarrow> bool" where
  "good_disk rej v0 rs d \<longleftrightarrow>
     (case dk_log d of Some f \<Rightarrow> recoverable rej v0 rs f | None \<Rightarrow> (\<exists>t. dk_tmp d = Some t \<and> recoverable rej v0 rs t))"

definition log_inv :: "bool \<Rightarrow> snap_view \<Rightarrow> snap_record list \<Rightarrow> bufw \<Rightarrow> string \<Rightarrow> bool" where
  "log_inv rej v0 rs w f \<longleftrightarrow> \<not> bw_err w \<and> ends_line (f @ bw_buf w)
     \<and> replay_text rej (f @ bw_buf w) no_view = apply_records rej rs v0
     \<and> (\<forall>p. prefix f p \<longrightarrow> prefix p (f @ bw_buf w) \<longrightarrow> recoverable rej v0 rs p)"

definition snap_inv :: "bool \<Rightarrow> snap_view \<Rightarrow> snap_record list \<Rightarrow> snapshotter \<Rightarrow> bool" where
  "snap_inv rej v0 rs s \<longleftrightarrow>
     (\<exists>w f. sp_w s = Some w \<and> dk_log (sp_disk s) = Some f \<and> log_inv rej v0 rs w f)"

text \<open>The nodes in memory can be written: finitely many, names without an end of line.\<close>

definition tidy_view :: "snap_view \<Rightarrow> bool" where
  "tidy_view v \<longleftrightarrow> finite (dom (sv_aliveNodes v)) \<and> (\<forall>n a. sv_aliveNodes v n = Some a \<longrightarrow> good_record (RAlive n a))"

definition env_good :: "snap_env \<Rightarrow> bool" where
  "env_good env \<longleftrightarrow> io_good (sx_io env) \<and> (\<forall>m. finite (dom m) \<longrightarrow> set (sx_order env m) = dom m)"

lemma recoverable_more:
  assumes "recoverable rej v0 rs t"
  shows "recoverable rej v0 (rs @ rs') t"
proof -
  obtain k where "k \<le> length rs" "replay_text rej t no_view = apply_records rej (take k rs) v0"
    using assms by (auto simp: recoverable_def)
  then show ?thesis unfolding recoverable_def by (intro exI [of _ k]) simp
qed

lemma recoverable_now: "replay_text rej t no_view = apply_records rej rs v0 \<Longrightarrow> recoverable rej v0 rs t"
  unfolding recoverable_def by (rule exI [of _ "length rs"]) simp

lemma good_disk_more: "good_disk rej v0 rs d \<Longrightarrow> good_disk rej v0 (rs @ rs') d"
  by (auto simp: good_disk_def recoverable_more split: option.splits)

lemma tidy_apply: "tidy_view v \<Longrightarrow> good_record r \<Longrightarrow> tidy_view (apply_record rej r v)"
  by (cases r) (auto simp: tidy_view_def no_view_def split: if_splits)

text \<open>A record that is appended, flushed or not.\<close>

lemma log_inv_append:
  assumes inv: "log_inv rej v0 rs w f" and r: "good_record r"
    and new: "\<not> bw_err w'" "prefix f f'" "f' @ bw_buf w' = f @ bw_buf w @ record_line r @ newline"
  shows "log_inv rej v0 (rs @ [r]) w' f'"
proof -
  let ?t = "f @ bw_buf w" and ?l = "record_line r @ newline"
  have t: "ends_line ?t" "replay_text rej ?t no_view = apply_records rej rs v0" using inv by (simp_all add: log_inv_def)
  have l: "ends_line ?l" "complete_lines ?l = [record_line r]" using r by (simp_all add: one_line record_line_no_newline)
  have whole: "replay_text rej (?t @ ?l) no_view = apply_records rej (rs @ [r]) v0"
    by (simp add: replay_text_append [OF t(1)] replay_record_text [OF r] t(2) del: append_assoc)
  have "recoverable rej v0 (rs @ [r]) p" if p: "prefix f' p" "prefix p (?t @ ?l)" for p
  proof (cases "prefix p ?t")
    case True
    with inv p(1) new(2) show ?thesis
      by (auto simp: log_inv_def intro!: recoverable_more elim: prefix_order.trans)
  next
    case False
    with p(2) obtain q where q: "p = ?t @ q" "prefix q ?l" by (auto simp: prefix_append simp del: append_assoc)
    have "prefix (complete_lines q) [record_line r]" using complete_lines_prefix [OF q(2)] l(2) by simp
    then consider "complete_lines q = []" | "complete_lines q = [record_line r]" by (auto simp: prefix_Cons)
    then show ?thesis
    proof cases
      case 1
      then have "replay_text rej p no_view = apply_records rej rs v0"
        by (simp add: q(1) replay_text_append [OF t(1)] t(2) replay_text_def [of _ q] del: append_assoc)
      then show ?thesis using recoverable_now recoverable_more by blast
    next
      case 2
      then have "replay_text rej p no_view = apply_records rej (rs @ [r]) v0"
        by (simp add: q(1) replay_text_append [OF t(1)] t(2) replay_text_def [of _ q] replay_record [OF r] del: append_assoc)
      then show ?thesis by (rule recoverable_now)
    qed
  qed
  with new whole ends_line_append [OF t(1) l(1)] show ?thesis by (simp add: log_inv_def)
qed

subsection \<open>Compaction without errors\<close>

definition view_of :: "snapshotter \<Rightarrow> snap_view" where
  "view_of s = snap_view.truncate s"

lemma view_of_simps [simp]:
  "sv_aliveNodes (view_of s) = sv_aliveNodes s" "sv_lastClock (view_of s) = sv_lastClock s"
  "sv_lastEventClock (view_of s) = sv_lastEventClock s" "sv_lastQueryClock (view_of s) = sv_lastQueryClock s"
  "view_of (s\<lparr>sp_leaving := b\<rparr>) = view_of s" "view_of (s\<lparr>sp_offset := i\<rparr>) = view_of s"
  "view_of (s\<lparr>sp_lastFlush := j\<rparr>) = view_of s" "view_of (s\<lparr>sp_w := w\<rparr>) = view_of s"
  "view_of (s\<lparr>sp_disk := d\<rparr>) = view_of s"
  by (simp_all add: view_of_def snap_view.truncate_def)

lemma set_log_simps [simp]:
  "sp_lastFlush (set_log w f s) = sp_lastFlush s" "sp_offset (set_log w f s) = sp_offset s"
  "view_of (set_log w f s) = view_of s" "sp_leaving (set_log w f s) = sp_leaving s"
  by (simp_all add: set_log_def)

definition view_records :: "(string \<Rightarrow> string) \<Rightarrow> string list \<Rightarrow> ltime \<Rightarrow> ltime \<Rightarrow> ltime \<Rightarrow> snap_record list" where
  "view_records addr names c e q = map (\<lambda>n. RAlive n (addr n)) names @ [RClock c, REventClock e, RQueryClock q]"

lemma compact_lines_records:
  "concat (compact_lines addr names c e q) = concat (map (\<lambda>r. record_line r @ newline) (view_records addr names c e q))"
  by (simp add: compact_lines_def view_records_def line_of_record comp_def del: record_line.simps)

lemma apply_alive_names:
  "apply_records rej (map (\<lambda>n. RAlive n (addr n)) names) v =
     v\<lparr>sv_aliveNodes := (\<lambda>n. if n \<in> set names then Some (addr n) else sv_aliveNodes v n)\<rparr>"
proof (induction names arbitrary: v)
  case (Cons n names)
  show ?case unfolding list.map fold.simps comp_def Cons by (auto simp: fun_eq_iff)
qed simp

lemma compact_replay:
  assumes "tidy_view v" "set names = dom (sv_aliveNodes v)"
  shows "replay_text rej (concat (compact_lines (the \<circ> sv_aliveNodes v) names (sv_lastClock v) (sv_lastEventClock v)
     (sv_lastQueryClock v))) no_view = v" (is "replay_text rej (concat ?ls) no_view = v")
    and "ends_line (concat (compact_lines (the \<circ> sv_aliveNodes v) names (sv_lastClock v) (sv_lastEventClock v)
     (sv_lastQueryClock v)))"
proof -
  let ?rs = "view_records (the \<circ> sv_aliveNodes v) names (sv_lastClock v) (sv_lastEventClock v) (sv_lastQueryClock v)"
  have good: "\<forall>r \<in> set ?rs. good_record r"
    using assms by (auto simp: view_records_def tidy_view_def)
  have "(\<lambda>n. if n \<in> set names then Some ((the \<circ> sv_aliveNodes v) n) else None) = sv_aliveNodes v"
    using assms(2) by (auto simp: fun_eq_iff domIff split: option.splits)
  then have "apply_records rej ?rs no_view = v"
    by (simp add: view_records_def apply_alive_names no_view_def cong: if_cong)
  then show "replay_text rej (concat ?ls) no_view = v" "ends_line (concat ?ls)"
    using replay_records_text [OF good] unfolding compact_lines_records by simp_all
qed

definition compact_text :: "snap_env \<Rightarrow> snapshotter \<Rightarrow> string" where
  "compact_text env s = concat (compact_lines (the \<circ> sv_aliveNodes s) (sx_order env (sv_aliveNodes s))
     (sv_lastClock s) (sv_lastEventClock s) (sv_lastQueryClock s))"

lemma compact_text_good:
  assumes "env_good env" "tidy_view (view_of s)"
  shows "replay_text rej (compact_text env s) no_view = view_of s" "ends_line (compact_text env s)"
proof -
  have "set (sx_order env (sv_aliveNodes s)) = dom (sv_aliveNodes s)"
    using assms by (simp add: env_good_def tidy_view_def)
  then show "replay_text rej (compact_text env s) no_view = view_of s" "ends_line (compact_text env s)"
    using compact_replay(1) [OF assms(2), of _ rej] compact_replay(2) [OF assms(2)]
    by (simp_all add: compact_text_def)
qed

text \<open>What can be on the disk while \<open>t\<close> is written behind \<open>f\<close> and may be replaced by \<open>c\<close>.\<close>

definition seen_disk :: "string \<Rightarrow> string \<Rightarrow> string \<Rightarrow> disk \<Rightarrow> bool" where
  "seen_disk f t c d \<longleftrightarrow>
     (case dk_log d of Some p \<Rightarrow> prefix f p \<and> prefix p t \<or> p = c | None \<Rightarrow> dk_tmp d = Some c)"

lemma seen_disk_earlier: "seen_disk f1 t c d \<Longrightarrow> prefix f f1 \<Longrightarrow> seen_disk f t c d"
  by (auto simp: seen_disk_def elim: prefix_order.trans split: option.splits)

lemma compact_shape:
  assumes io: "io_good (sx_io env)" and s: "sp_w s = Some w" "\<not> bw_err w" "dk_log (sp_disk s) = Some f"
  shows "\<exists>s' ds. snap_compact env s = Some (s', ds) \<and> sp_w s' = Some new_writer
    \<and> dk_log (sp_disk s') = Some (compact_text env s) \<and> view_of s' = view_of s \<and> sp_leaving s' = sp_leaving s
    \<and> (\<forall>d \<in> set ds. seen_disk f (f @ bw_buf w) (compact_text env s) d) \<and> (\<exists>d \<in> set ds. dk_log d = None)"
proof -
  let ?ls = "compact_lines (the \<circ> sv_aliveNodes s) (sx_order env (sv_aliveNodes s)) (sv_lastClock s)
    (sv_lastEventClock s) (sv_lastQueryClock s)"
  obtain w1 f1 where wl: "write_lines (sx_io env) ?ls new_writer [] = (True, w1, f1)" "\<not> bw_err w1" "f1 @ bw_buf w1 = concat ?ls"
    using write_lines_good [OF io, of new_writer ?ls "[]"] by (auto simp: new_writer_def)
  have "bufw_Flush (sx_io env) w1 f1 = (True, new_writer, concat ?ls)" using Flush_good [OF io wl(2)] wl(3) by simp
  with Flush_good [OF io s(2), of f] io s wl(1) show ?thesis
    by (simp add: snap_compact_def install_snapshot_def Let_def io_good_def log_text_def seen_disk_def compact_text_def)
qed

lemma tryAppend_shape:
  assumes io: "io_good (sx_io env)" and s: "sp_w s = Some w" "\<not> bw_err w" "dk_log (sp_disk s) = Some f"
  shows "\<exists>s' ds w' f'. tryAppend conf env l s = Some (s', ds) \<and> sp_w s' = Some w' \<and> \<not> bw_err w'
    \<and> dk_log (sp_disk s') = Some f' \<and> view_of s' = view_of s \<and> sp_leaving s' = sp_leaving s
    \<and> (if sc_maxSize conf < sp_offset s + int (length l) then f' = compact_text env s \<and> bw_buf w' = []
       else prefix f f' \<and> f' @ bw_buf w' = f @ bw_buf w @ l)
    \<and> (\<forall>d \<in> set ds. seen_disk f (f @ bw_buf w @ l) (compact_text env s) d) \<and> ds \<noteq> []"
proof -
  let ?t = "f @ bw_buf w @ l"
  obtain w1 f1 where ws: "bufw_WriteString (sx_io env) l w f = (True, w1, f1)" and
    w1: "\<not> bw_err w1" "prefix f f1" "f1 @ bw_buf w1 = ?t"
    using WriteString_good [OF io s(2), of l f] by blast
  define flush where "flush \<longleftrightarrow> flushInterval < sx_now env - sp_lastFlush s"
  define w2 where "w2 = (if flush then new_writer else w1)"
  define f2 where "f2 = (if flush then f1 @ bw_buf w1 else f1)"
  have fl: "(if flush then bufw_Flush (sx_io env) w1 f1 else (True, w1, f1)) = (True, w2, f2)"
    using Flush_good [OF io w1(1), of f1] by (simp add: w2_def f2_def)
  have w2: "\<not> bw_err w2" "f2 @ bw_buf w2 = ?t" using w1 by (simp_all add: w2_def f2_def new_writer_def)
  have pre: "prefix f f2" "prefix f1 ?t" "prefix f2 ?t"
    using w1 w2(2) by (auto simp: f2_def prefix_def) (metis w1(3))+
  let ?s1 = "set_log w1 f1 s"
  let ?s2 = "(set_log w2 f2 ?s1)\<lparr>sp_lastFlush := if flush then sx_now env else sp_lastFlush s\<rparr>"
  let ?s3 = "?s2\<lparr>sp_offset := sp_offset ?s2 + int (length l)\<rparr>"
  have disks: "dk_log (sp_disk ?s1) = Some f1" "dk_log (sp_disk ?s2) = Some f2" "sp_w ?s3 = Some w2"
    "dk_log (sp_disk ?s3) = Some f2" by (simp_all add: set_log_def)
  have eq: "tryAppend conf env l s =
      (if sc_maxSize conf < sp_offset ?s3 then
         (case snap_compact env ?s3 of None \<Rightarrow> None | Some (s4, ds) \<Rightarrow> Some (s4, [sp_disk ?s1, sp_disk ?s2] @ ds))
       else Some (?s3, [sp_disk ?s1, sp_disk ?s2]))"
    using s ws fl by (simp add: tryAppend_def log_text_def flush_def [symmetric] Let_def split: option.split)
  have c: "compact_text env ?s3 = compact_text env s" by (simp add: compact_text_def set_log_def)
  obtain s4 ds where s4: "snap_compact env ?s3 = Some (s4, ds)" "sp_w s4 = Some new_writer"
    "dk_log (sp_disk s4) = Some (compact_text env s)" "view_of s4 = view_of s" "sp_leaving s4 = sp_leaving s"
    "\<forall>d \<in> set ds. seen_disk f2 ?t (compact_text env s) d"
    using compact_shape [OF io disks(3) w2(1) disks(4)] unfolding c w2(2) by auto
  have "\<forall>d \<in> set ds. seen_disk f ?t (compact_text env s) d" using s4(6) seen_disk_earlier pre(1) by blast
  then show ?thesis
    using s4 w1(2) w2 pre disks by (auto simp: eq new_writer_def seen_disk_def)
qed

lemma tryAppend_good:
  assumes env: "env_good env" and r: "good_record r" and tidy: "tidy_view (view_of s)"
    and now: "view_of s = apply_records rej (rs @ [r]) v0" and inv: "snap_inv rej v0 rs s"
  shows "\<exists>s' ds. tryAppend conf env (record_line r @ newline) s = Some (s', ds) \<and> snap_inv rej v0 (rs @ [r]) s'
    \<and> view_of s' = view_of s \<and> sp_leaving s' = sp_leaving s \<and> (\<forall>d \<in> set ds. good_disk rej v0 (rs @ [r]) d)"
proof -
  let ?l = "record_line r @ newline" and ?c = "compact_text env s"
  obtain w f where wf: "sp_w s = Some w" "dk_log (sp_disk s) = Some f" "log_inv rej v0 rs w f"
    using inv by (auto simp: snap_inv_def)
  have io: "io_good (sx_io env)" and w: "\<not> bw_err w" using env wf(3) by (simp_all add: env_good_def log_inv_def)
  obtain s' ds w' f' where s': "tryAppend conf env ?l s = Some (s', ds)" "sp_w s' = Some w'" "\<not> bw_err w'"
    "dk_log (sp_disk s') = Some f'" "view_of s' = view_of s" "sp_leaving s' = sp_leaving s"
    "prefix f f' \<and> f' @ bw_buf w' = f @ bw_buf w @ ?l \<or> f' = ?c \<and> bw_buf w' = []"
    "\<forall>d \<in> set ds. seen_disk f (f @ bw_buf w @ ?l) ?c d"
    using tryAppend_shape [OF io wf(1) w wf(2), of conf ?l] by (auto split: if_splits)
  have c: "replay_text rej ?c no_view = apply_records rej (rs @ [r]) v0" "ends_line ?c" "recoverable rej v0 (rs @ [r]) ?c"
    using compact_text_good [OF env tidy] now recoverable_now by simp_all
  have whole: "log_inv rej v0 (rs @ [r]) w0 f0"
    if "\<not> bw_err w0" "prefix f f0" "f0 @ bw_buf w0 = f @ bw_buf w @ ?l" for w0 f0
    by (rule log_inv_append [OF wf(3) r that])
  have "log_inv rej v0 (rs @ [r]) w' f'"
    using s'(7) whole s'(3) c by (auto simp: log_inv_def dest: prefix_order.antisym)
  moreover have "good_disk rej v0 (rs @ [r]) d" if "seen_disk f (f @ bw_buf w @ ?l) ?c d" for d
  proof (cases "dk_log d")
    case (Some p)
    have "log_inv rej v0 (rs @ [r]) \<lparr>bw_buf = bw_buf w @ ?l, bw_err = False\<rparr> f" by (rule whole) simp_all
    with that c(3) Some show ?thesis by (auto simp: seen_disk_def good_disk_def log_inv_def)
  qed (use that c(3) in \<open>simp add: seen_disk_def good_disk_def\<close>)
  ultimately show ?thesis using s' by (auto simp: snap_inv_def)
qed

subsection \<open>The records of a run\<close>

text \<open>What the file has to say after each turn, without files, buffers and lines.\<close>

definition clock_records :: "snap_env \<Rightarrow> snap_view \<Rightarrow> snap_record list" where
  "clock_records env v = (if sv_lastClock v < sx_clock env - 1 then [RClock (sx_clock env - 1)] else [])"

definition member_records :: "MemberEvent \<Rightarrow> snap_record list" where
  "member_records e =
     (if me_Type e = EventMemberJoin
      then map (\<lambda>m. RAlive (m_Name m) (TCPAddr_String (m_Addr m) (m_Port m))) (me_Members e)
      else if me_Type e \<in> {EventMemberLeave, EventMemberFailed} then map (\<lambda>m. RNotAlive (m_Name m)) (me_Members e)
      else [])"

definition event_records :: "snap_env \<Rightarrow> serf_event \<Rightarrow> snap_view \<Rightarrow> snap_record list" where
  "event_records env e v =
     (case e of
        SawMembers me \<Rightarrow> member_records me @ clock_records env v
      | SawUser ue \<Rightarrow> if uev_LTime ue \<le> sv_lastEventClock v then [] else [REventClock (uev_LTime ue)]
      | SawQuery q \<Rightarrow> if q_LTime q \<le> sv_lastQueryClock v then [] else [RQueryClock (q_LTime q)])"

definition turn_records :: "snap_env \<Rightarrow> snap_case \<Rightarrow> bool \<Rightarrow> snap_view \<Rightarrow> snap_record list" where
  "turn_records env c leaving v =
     (case c of
        SnapLeave \<Rightarrow> [RLeave]
      | SnapEvent e \<Rightarrow> if leaving then [] else event_records env e v
      | SnapTick \<Rightarrow> clock_records env v
      | SnapShutdown \<Rightarrow> [])"

fun run_records :: "bool \<Rightarrow> (snap_env \<times> snap_case) list \<Rightarrow> bool \<Rightarrow> snap_view \<Rightarrow> snap_record list" where
  "run_records rej [] leaving v = []"
| "run_records rej ((env, c) # cs) leaving v =
     (let rs = turn_records env c leaving v
      in rs @ run_records rej cs (leaving \<or> c = SnapLeave) (apply_records rej rs v))"

text \<open>Node names without an end of line, system calls that succeed, and no leave that clears the file.\<close>

definition good_turn :: "bool \<Rightarrow> snap_env \<times> snap_case \<Rightarrow> bool" where
  "good_turn rej t \<longleftrightarrow> env_good (fst t)
     \<and> (case snd t of SnapEvent (SawMembers e) \<Rightarrow> \<forall>m \<in> set (me_Members e). CHR 0x0A \<notin> set (m_Name m) | _ \<Rightarrow> True)
     \<and> (snd t = SnapLeave \<longrightarrow> rej)"

subsection \<open>Every turn keeps the invariant\<close>

definition snap_state :: "bool \<Rightarrow> snap_view \<Rightarrow> snap_record list \<Rightarrow> snapshotter \<Rightarrow> bool" where
  "snap_state rej v0 rs s \<longleftrightarrow> snap_inv rej v0 rs s \<and> view_of s = apply_records rej rs v0 \<and> tidy_view (apply_records rej rs v0)"

definition goes :: "bool \<Rightarrow> snap_view \<Rightarrow> snap_record list \<Rightarrow> bool \<Rightarrow> snap_run \<Rightarrow> bool" where
  "goes rej v0 rs leaving r \<longleftrightarrow>
     (\<exists>s ds. r = Some (s, ds) \<and> snap_state rej v0 rs s \<and> sp_leaving s = leaving \<and> (\<forall>d \<in> set ds. good_disk rej v0 rs d))"

lemma goes_now: "snap_state rej v0 rs s \<Longrightarrow> sp_leaving s = b \<Longrightarrow> goes rej v0 rs b (Some (s, []))"
  by (simp add: goes_def)

lemma goes_then:
  assumes "goes rej v0 rs b r" "\<And>s. snap_state rej v0 rs s \<Longrightarrow> sp_leaving s = b \<Longrightarrow> goes rej v0 (rs @ rs') b' (f s)"
  shows "goes rej v0 (rs @ rs') b' (snap_then r f)"
proof -
  obtain s ds where s: "r = Some (s, ds)" "snap_state rej v0 rs s" "sp_leaving s = b" "\<forall>d \<in> set ds. good_disk rej v0 rs d"
    using assms(1) by (auto simp: goes_def)
  have "\<forall>d \<in> set ds. good_disk rej v0 (rs @ rs') d" using s(4) good_disk_more by blast
  with assms(2) [OF s(2,3)] s(1) show ?thesis by (auto simp: goes_def snap_then_def)
qed

lemma goes_append:
  assumes env: "env_good env" and r: "good_record r" and s: "snap_state rej v0 rs s"
    and s': "view_of s' = apply_record rej r (view_of s)" "sp_w s' = sp_w s" "sp_disk s' = sp_disk s" "sp_leaving s' = b"
  shows "goes rej v0 (rs @ [r]) b (tryAppend conf env (record_line r @ newline) s')"
proof -
  have v: "view_of s' = apply_records rej (rs @ [r]) v0" "tidy_view (apply_records rej (rs @ [r]) v0)"
    using s r by (simp_all add: s'(1) snap_state_def tidy_apply)
  have "snap_inv rej v0 rs s'" using s s'(2,3) by (simp add: snap_state_def snap_inv_def)
  from tryAppend_good [OF env r _ v(1) this, of conf] v s'(4) show ?thesis
    by (auto simp: goes_def snap_state_def)
qed

lemma view_update:
  "view_of (s\<lparr>sv_aliveNodes := m\<rparr>) = (view_of s)\<lparr>sv_aliveNodes := m\<rparr>"
  "view_of (s\<lparr>sv_lastClock := t\<rparr>) = (view_of s)\<lparr>sv_lastClock := t\<rparr>"
  "view_of (s\<lparr>sv_lastEventClock := t\<rparr>) = (view_of s)\<lparr>sv_lastEventClock := t\<rparr>"
  "view_of (s\<lparr>sv_lastQueryClock := t\<rparr>) = (view_of s)\<lparr>sv_lastQueryClock := t\<rparr>"
  by (simp_all add: view_of_def snap_view.truncate_def)

lemma updateClock_goes:
  assumes "env_good env" "snap_state rej v0 rs s" "sp_leaving s = b"
  shows "goes rej v0 (rs @ clock_records env (view_of s)) b (snap_updateClock conf env s)"
  using assms by (auto simp: snap_updateClock_def clock_records_def line_of_record view_update Let_def
      simp del: record_line.simps intro: goes_append goes_now)

lemma join_goes:
  "env_good env \<Longrightarrow> \<forall>m \<in> set ms. CHR 0x0A \<notin> set (m_Name m) \<Longrightarrow> snap_state rej v0 rs s \<Longrightarrow> sp_leaving s = b \<Longrightarrow>
     goes rej v0 (rs @ map (\<lambda>m. RAlive (m_Name m) (TCPAddr_String (m_Addr m) (m_Port m))) ms) b (join_members conf env ms s)"
proof (induction ms arbitrary: rs s)
  case (Cons m ms)
  let ?r = "RAlive (m_Name m) (TCPAddr_String (m_Addr m) (m_Port m))"
  have "good_record ?r" using Cons.prems(2) by (simp add: one_word_TCPAddr_String)
  from goes_append [OF Cons.prems(1) this Cons.prems(3)] Cons.prems(4)
  have "goes rej v0 (rs @ [?r]) b (tryAppend conf env (alive_line (m_Name m) (TCPAddr_String (m_Addr m) (m_Port m)))
      (s\<lparr>sv_aliveNodes := (sv_aliveNodes s)(m_Name m \<mapsto> TCPAddr_String (m_Addr m) (m_Port m))\<rparr>))"
    by (simp add: line_of_record view_update del: record_line.simps)
  from goes_then [OF this Cons.IH] Cons.prems show ?case by (simp add: Let_def)
qed (simp add: goes_now)

lemma lose_goes:
  "env_good env \<Longrightarrow> \<forall>m \<in> set ms. CHR 0x0A \<notin> set (m_Name m) \<Longrightarrow> snap_state rej v0 rs s \<Longrightarrow> sp_leaving s = b \<Longrightarrow>
     goes rej v0 (rs @ map (\<lambda>m. RNotAlive (m_Name m)) ms) b (lose_members conf env ms s)"
proof (induction ms arbitrary: rs s)
  case (Cons m ms)
  let ?r = "RNotAlive (m_Name m)"
  have "good_record ?r" using Cons.prems(2) by simp
  from goes_append [OF Cons.prems(1) this Cons.prems(3)] Cons.prems(4)
  have "goes rej v0 (rs @ [?r]) b (tryAppend conf env (not_alive_line (m_Name m))
      (s\<lparr>sv_aliveNodes := (sv_aliveNodes s)(m_Name m := None)\<rparr>))"
    by (simp add: line_of_record view_update del: record_line.simps)
  from goes_then [OF this Cons.IH] Cons.prems show ?case by simp
qed (simp add: goes_now)

lemma clock_after_members:
  "sv_lastClock (apply_records rej (member_records e) v) = sv_lastClock v"
proof -
  have "sv_lastClock (apply_records rej (map (\<lambda>m. RNotAlive (m_Name m)) ms) v) = sv_lastClock v" for ms :: "Member list"
    by (induction ms arbitrary: v) auto
  moreover have "sv_lastClock (apply_records rej
      (map (\<lambda>m. RAlive (m_Name m) (TCPAddr_String (m_Addr m) (m_Port m))) ms) v) = sv_lastClock v" for ms :: "Member list"
    by (induction ms arbitrary: v) auto
  ultimately show ?thesis by (simp add: member_records_def)
qed

lemma flush_goes:
  assumes "env_good env" "snap_state rej v0 rs s" "sp_leaving s = b"
  shows "goes rej v0 rs b (flush_log env s)"
proof -
  obtain w f where wf: "sp_w s = Some w" "dk_log (sp_disk s) = Some f" "log_inv rej v0 rs w f"
    using assms(2) by (auto simp: snap_state_def snap_inv_def)
  have "bufw_Flush (sx_io env) w f = (True, new_writer, f @ bw_buf w)"
    using assms(1) wf(3) by (intro Flush_good) (simp_all add: env_good_def log_inv_def)
  moreover have "log_inv rej v0 rs new_writer (f @ bw_buf w)" "recoverable rej v0 rs (f @ bw_buf w)"
    using wf(3) by (auto simp: log_inv_def new_writer_def dest: prefix_order.antisym)
  ultimately show ?thesis
    using wf(1,2) assms(2,3)
    by (simp add: flush_log_def goes_def snap_state_def snap_inv_def good_disk_def log_text_def) (simp add: set_log_def)
qed

lemma turn_goes:
  assumes good: "good_turn rej (env, c)" and rej: "sc_rejoinAfterLeave conf = rej" and s: "snap_state rej v0 rs s"
  shows "goes rej v0 (rs @ turn_records env c (sp_leaving s) (view_of s)) (sp_leaving s \<or> c = SnapLeave)
    (snap_turn conf env c s)"
proof -
  have env: "env_good env" using good by (simp add: good_turn_def)
  show ?thesis
  proof (cases c)
    case SnapLeave
    then have r: "rej" using good by (simp add: good_turn_def)
    let ?s = "s\<lparr>sp_leaving := True\<rparr>"
    have "goes rej v0 (rs @ [RLeave]) True (tryAppend conf env (record_line RLeave @ newline) ?s)"
      by (rule goes_append [OF env _ s]) (use r in simp_all)
    from goes_then [OF this, of "[]" True "flush_log env"] flush_goes [OF env] SnapLeave r rej show ?thesis
      by (simp add: snap_turn_def record_leave_def Let_def turn_records_def line_of_record del: record_line.simps)
  next
    case (SnapEvent e)
    show ?thesis
    proof (cases "sp_leaving s")
      case True
      with s SnapEvent show ?thesis by (simp add: snap_turn_def record_event_def turn_records_def goes_now)
    next
      case False
      show ?thesis
      proof (cases e)
        case (SawMembers me)
        have names: "\<forall>m \<in> set (me_Members me). CHR 0x0A \<notin> set (m_Name m)"
          using good SnapEvent SawMembers by (simp add: good_turn_def)
        have "goes rej v0 (rs @ member_records me) False
            (if me_Type me = EventMemberJoin then join_members conf env (me_Members me) s
             else if me_Type me \<in> {EventMemberLeave, EventMemberFailed} then lose_members conf env (me_Members me) s
             else Some (s, []))"
          using join_goes [OF env names s] lose_goes [OF env names s] goes_now [OF s] False
          by (simp add: member_records_def)
        moreover have "goes rej v0 ((rs @ member_records me) @ clock_records env (view_of s)) False (snap_updateClock conf env s')"
          if "snap_state rej v0 (rs @ member_records me) s'" "sp_leaving s' = False" for s'
        proof -
          have "view_of s' = apply_records rej (member_records me) (view_of s)"
            using that(1) s by (simp add: snap_state_def)
          then have "clock_records env (view_of s') = clock_records env (view_of s)"
            by (simp add: clock_records_def clock_after_members)
          with updateClock_goes [OF env that(1), of False] that(2) show ?thesis by simp
        qed
        ultimately have "goes rej v0 ((rs @ member_records me) @ clock_records env (view_of s)) False
            (processMemberEvent conf env me s)"
          unfolding processMemberEvent_def by (rule goes_then)
        then show ?thesis
          using SnapEvent SawMembers False
          by (simp add: snap_turn_def record_event_def turn_records_def event_records_def)
      next
        case (SawUser ue)
        with SnapEvent False s env show ?thesis
          by (auto simp: snap_turn_def record_event_def turn_records_def event_records_def processUserEvent_def
              line_of_record view_update simp del: record_line.simps intro: goes_append goes_now)
      next
        case (SawQuery q)
        with SnapEvent False s env show ?thesis
          by (auto simp: snap_turn_def record_event_def turn_records_def event_records_def snap_processQuery_def
              line_of_record view_update simp del: record_line.simps intro: goes_append goes_now)
      qed
    qed
  next
    case SnapTick
    with updateClock_goes [OF env s refl] show ?thesis by (simp add: snap_turn_def turn_records_def)
  next
    case SnapShutdown
    with flush_goes [OF env s refl] show ?thesis by (simp add: snap_turn_def turn_records_def)
  qed
qed

lemma turns_go:
  "\<forall>t \<in> set ts. good_turn rej t \<Longrightarrow> sc_rejoinAfterLeave conf = rej \<Longrightarrow> snap_state rej v0 rs s \<Longrightarrow>
     \<exists>b. goes rej v0 (rs @ run_records rej ts (sp_leaving s) (view_of s)) b (snap_turns conf ts s)"
proof (induction ts arbitrary: rs s)
  case (Cons t ts)
  obtain env c where t: "t = (env, c)" by (cases t)
  let ?rs = "turn_records env c (sp_leaving s) (view_of s)"
  have g: "goes rej v0 (rs @ ?rs) (sp_leaving s \<or> c = SnapLeave) (snap_turn conf env c s)"
    using Cons.prems t by (intro turn_goes) auto
  obtain s1 ds where s1: "snap_turn conf env c s = Some (s1, ds)" "snap_state rej v0 (rs @ ?rs) s1"
    "sp_leaving s1 \<longleftrightarrow> sp_leaving s \<or> c = SnapLeave" using g by (auto simp: goes_def)
  have v: "view_of s1 = apply_records rej ?rs (view_of s)" using s1(2) Cons.prems(3) by (simp add: snap_state_def)
  obtain b where "goes rej v0 ((rs @ ?rs) @ run_records rej ts (sp_leaving s1) (view_of s1)) b (snap_turns conf ts s1)"
    using Cons.IH [OF _ Cons.prems(2) s1(2)] Cons.prems(1) by auto
  moreover have "\<forall>d \<in> set ds. good_disk rej v0 ((rs @ ?rs) @ run_records rej ts (sp_leaving s1) (view_of s1)) d"
    using g s1(1) good_disk_more by (simp add: goes_def del: append_assoc)
  ultimately have "goes rej v0 ((rs @ ?rs) @ run_records rej ts (sp_leaving s1) (view_of s1)) b
      (snap_then (snap_turn conf env c s) (snap_turns conf ts))"
    using s1(1) by (auto simp: goes_def snap_then_def simp del: append_assoc)
  then show ?case using t s1(3) v by (auto simp: Let_def)
qed (auto intro: goes_now)

text \<open>A snapshotter that has just started on a file whose last line is ended.\<close>

lemma new_state:
  assumes "ends_line (log_text d)" "tidy_view (recover (sc_rejoinAfterLeave conf) d)"
  shows "snap_state (sc_rejoinAfterLeave conf) (recover (sc_rejoinAfterLeave conf) d) [] (NewSnapshotter conf d)"
    and "view_of (NewSnapshotter conf d) = recover (sc_rejoinAfterLeave conf) d"
proof -
  show v: "view_of (NewSnapshotter conf d) = recover (sc_rejoinAfterLeave conf) d"
    by (simp add: NewSnapshotter_def view_of_def snap_view.defs)
  have "log_inv (sc_rejoinAfterLeave conf) (recover (sc_rejoinAfterLeave conf) d) [] new_writer (log_text d)"
    using assms(1) by (auto simp: log_inv_def new_writer_def recover_def recoverable_def dest: prefix_order.antisym)
  with assms(2) v show "snap_state (sc_rejoinAfterLeave conf) (recover (sc_rejoinAfterLeave conf) d) [] (NewSnapshotter conf d)"
    by (simp add: snap_state_def snap_inv_def NewSnapshotter_def snap_view.defs)
qed

end
