(* ===== verification/SnapshotProps.thy ===== *)
theory SnapshotProps
  imports SnapshotLife
begin

section \<open>Restarting from a snapshot (serf/snapshot.go, serf/serf.go)\<close>

text \<open>
  What a node that starts again on the disk it left behind knows: after a clean shutdown, after a
  crash at any moment, after a leave, and when the file was torn or a compaction failed. The last
  part follows the recovered times into the state \<open>Create\<close> sets up for user events.
\<close>

subsection \<open>After a leave\<close>

definition forgets :: "string \<Rightarrow> bool" where
  "forgets t \<longleftrightarrow> sv_aliveNodes (replay_text False t no_view) = Map.empty"

definition left_log :: "bufw \<Rightarrow> string \<Rightarrow> bool" where
  "left_log w f \<longleftrightarrow> \<not> bw_err w \<and> ends_line (f @ bw_buf w) \<and> (\<forall>p. prefix f p \<longrightarrow> prefix p (f @ bw_buf w) \<longrightarrow> forgets p)"

definition left_state :: "snapshotter \<Rightarrow> bool" where
  "left_state s \<longleftrightarrow> sp_leaving s \<and> sv_aliveNodes s = Map.empty
     \<and> (\<exists>w f. sp_w s = Some w \<and> dk_log (sp_disk s) = Some f \<and> left_log w f)"

definition forgets_disk :: "disk \<Rightarrow> bool" where
  "forgets_disk d \<longleftrightarrow> (case dk_log d of Some f \<Rightarrow> forgets f | None \<Rightarrow> True)"

lemma forgets_log: "forgets_disk d \<Longrightarrow> sv_aliveNodes (recover False d) = Map.empty"
  by (auto simp: forgets_disk_def forgets_def recover_def log_text_def no_view_def split: option.splits)

lemma left_append:
  assumes env: "env_good env" and s: "left_state s" and s': "sv_aliveNodes s' = Map.empty" "sp_leaving s'" "sp_w s' = sp_w s"
    "sp_disk s' = sp_disk s" and r: "good_record r" "\<And>v. sv_aliveNodes v = Map.empty \<Longrightarrow> sv_aliveNodes (apply_record False r v) = Map.empty"
  shows "\<exists>s2 ds. tryAppend conf env (record_line r @ newline) s' = Some (s2, ds) \<and> left_state s2 \<and> (\<forall>d \<in> set ds. forgets_disk d)"
proof -
  let ?l = "record_line r @ newline" and ?c = "compact_text env s'"
  obtain w f where wf: "sp_w s' = Some w" "dk_log (sp_disk s') = Some f" "left_log w f"
    using s s' by (auto simp: left_state_def)
  let ?t = "f @ bw_buf w"
  have io: "io_good (sx_io env)" and w: "\<not> bw_err w" using env wf(3) by (simp_all add: env_good_def left_log_def)
  obtain s2 ds w2 f2 where s2: "tryAppend conf env ?l s' = Some (s2, ds)" "sp_w s2 = Some w2" "\<not> bw_err w2"
    "dk_log (sp_disk s2) = Some f2" "view_of s2 = view_of s'" "sp_leaving s2 = sp_leaving s'"
    "prefix f f2 \<and> f2 @ bw_buf w2 = f @ bw_buf w @ ?l \<or> f2 = ?c \<and> bw_buf w2 = []"
    "\<forall>d \<in> set ds. seen_disk f (f @ bw_buf w @ ?l) ?c d"
    using tryAppend_shape [OF io wf(1) w wf(2), of conf ?l] by (auto split: if_splits)
  have c: "forgets ?c" "ends_line ?c"
    using compact_text_good(1) [OF env, of s' False] compact_text_good(2) [OF env, of s'] s'(1) by (simp_all add: tidy_view_def forgets_def)
  have t: "ends_line ?t" "forgets ?t" using wf(3) by (auto simp: left_log_def)
  have l: "ends_line ?l" "complete_lines ?l = [record_line r]" using r(1) by (simp_all add: one_line record_line_no_newline)
  have p: "forgets p" if "prefix f p" "prefix p (?t @ ?l)" for p
  proof (cases "prefix p ?t")
    case True
    with that(1) wf(3) show ?thesis by (auto simp: left_log_def)
  next
    case False
    with that(2) obtain q where q: "p = ?t @ q" "prefix q ?l" by (auto simp: prefix_append simp del: append_assoc)
    have "prefix (complete_lines q) [record_line r]" using complete_lines_prefix [OF q(2)] l(2) by simp
    then show ?thesis
      using t(2) r(2) by (auto simp: q(1) forgets_def replay_text_append [OF t(1)] replay_text_def [of _ q]
          replay_record [OF r(1)] prefix_Cons simp del: append_assoc)
  qed
  have "left_log w2 f2"
    using s2(3,7) p c ends_line_append [OF t(1) l(1)]
    by (auto simp: left_log_def dest: prefix_order.antisym elim: prefix_order.trans)
  moreover have "sv_aliveNodes s2 = Map.empty" using s2(5) s'(1) by (metis view_of_simps(1))
  moreover have "\<forall>d \<in> set ds. forgets_disk d"
    using s2(8) p c(1) by (auto simp: seen_disk_def forgets_disk_def split: option.splits)
  ultimately show ?thesis using s2 s'(2) by (auto simp: left_state_def)
qed

lemma left_flush:
  assumes "env_good env" "left_state s"
  shows "\<exists>s2 ds. flush_log env s = Some (s2, ds) \<and> left_state s2 \<and> (\<forall>d \<in> set ds. forgets_disk d)"
proof -
  obtain w f where wf: "sp_w s = Some w" "dk_log (sp_disk s) = Some f" "left_log w f"
    using assms(2) by (auto simp: left_state_def)
  have "bufw_Flush (sx_io env) w f = (True, new_writer, f @ bw_buf w)"
    using assms(1) wf(3) by (intro Flush_good) (simp_all add: env_good_def left_log_def)
  moreover have "left_log new_writer (f @ bw_buf w)" "forgets (f @ bw_buf w)"
    using wf(3) by (auto simp: left_log_def new_writer_def dest: prefix_order.antisym)
  ultimately show ?thesis
    using wf(1,2) assms(2)
    by (simp add: flush_log_def left_state_def forgets_disk_def log_text_def) (simp add: set_log_def)
qed

lemma left_turn:
  assumes "env_good env" "left_state s" "sc_rejoinAfterLeave conf = False"
  shows "\<exists>s2 ds. snap_turn conf env c s = Some (s2, ds) \<and> left_state s2 \<and> (\<forall>d \<in> set ds. forgets_disk d)"
proof (cases c)
  case SnapLeave
  have l: "sp_leaving s" "sv_aliveNodes s = Map.empty" using assms(2) by (simp_all add: left_state_def)
  obtain s1 ds where s1: "tryAppend conf env (record_line RLeave @ newline) (s\<lparr>sp_leaving := True, sv_aliveNodes := Map.empty\<rparr>) = Some (s1, ds)"
    "left_state s1" "\<forall>d \<in> set ds. forgets_disk d"
    using left_append [OF assms(1,2), of "s\<lparr>sp_leaving := True, sv_aliveNodes := Map.empty\<rparr>" RLeave conf] l
    by (auto simp: no_view_def)
  from left_flush [OF assms(1) s1(2)] s1 assms(3) SnapLeave show ?thesis
    by (auto simp: snap_turn_def record_leave_def Let_def snap_then_def line_of_record simp del: record_line.simps)
next
  case SnapTick
  have "sv_aliveNodes (s\<lparr>sv_lastClock := t\<rparr>) = Map.empty \<and> sp_leaving (s\<lparr>sv_lastClock := t\<rparr>)" for t
    using assms(2) by (simp add: left_state_def)
  with left_append [OF assms(1,2), of "s\<lparr>sv_lastClock := sx_clock env - 1\<rparr>" "RClock (sx_clock env - 1)" conf] assms(2) SnapTick
  show ?thesis
    by (auto simp: snap_turn_def snap_updateClock_def Let_def line_of_record simp del: record_line.simps)
next
  case (SnapEvent e)
  with assms(2) show ?thesis by (simp add: snap_turn_def record_event_def left_state_def)
next
  case SnapShutdown
  with left_flush [OF assms(1,2)] show ?thesis by (simp add: snap_turn_def)
qed

lemma left_turns:
  "\<forall>t \<in> set ts. env_good (fst t) \<Longrightarrow> left_state s \<Longrightarrow> sc_rejoinAfterLeave conf = False \<Longrightarrow>
     \<exists>s2 ds. snap_turns conf ts s = Some (s2, ds) \<and> left_state s2 \<and> (\<forall>d \<in> set ds. forgets_disk d)"
proof (induction ts arbitrary: s)
  case (Cons t ts)
  obtain env c where t: "t = (env, c)" by (cases t)
  obtain s1 ds where s1: "snap_turn conf env c s = Some (s1, ds)" "left_state s1" "\<forall>d \<in> set ds. forgets_disk d"
    using left_turn [of env s conf c] Cons.prems t by auto
  from Cons.IH [OF _ s1(2) Cons.prems(3)] Cons.prems(1) s1 show ?case
    by (auto simp: t snap_then_def)
qed simp

text \<open>The turn that leaves: what is on the disk once it is done.\<close>

lemma leave_turn:
  assumes env: "env_good env" and rej: "sc_rejoinAfterLeave conf = False" and s: "snap_state False v0 rs s"
    and run: "snap_turn conf env SnapLeave s = Some (s2, ds)"
  shows "left_state s2"
proof -
  let ?s = "s\<lparr>sp_leaving := True, sv_aliveNodes := Map.empty\<rparr>" and ?l = "record_line RLeave @ newline"
  obtain w f where wf: "sp_w ?s = Some w" "dk_log (sp_disk ?s) = Some f" "log_inv False v0 rs w f"
    using s by (auto simp: snap_state_def snap_inv_def)
  have io: "io_good (sx_io env)" and w: "\<not> bw_err w" using env wf(3) by (simp_all add: env_good_def log_inv_def)
  obtain s1 ds1 w1 f1 where s1: "tryAppend conf env ?l ?s = Some (s1, ds1)" "sp_w s1 = Some w1" "\<not> bw_err w1"
    "dk_log (sp_disk s1) = Some f1" "view_of s1 = view_of ?s" "sp_leaving s1 = sp_leaving ?s"
    "prefix f f1 \<and> f1 @ bw_buf w1 = (f @ bw_buf w) @ ?l \<or> f1 = compact_text env ?s \<and> bw_buf w1 = []"
    using tryAppend_shape [OF io wf(1) w wf(2), of conf ?l] by (auto split: if_splits)
  have c: "forgets (compact_text env ?s)" "ends_line (compact_text env ?s)"
    using compact_text_good(1) [OF env, of ?s False] compact_text_good(2) [OF env, of ?s] by (simp_all add: tidy_view_def forgets_def)
  have t: "ends_line (f @ bw_buf w)" using wf(3) by (simp add: log_inv_def)
  have "ends_line ?l" by (intro one_line record_line_no_newline) simp
  from ends_line_append [OF t this] have l: "ends_line ((f @ bw_buf w) @ ?l)" "forgets ((f @ bw_buf w) @ ?l)"
    using replay_text_append [OF t, of False ?l no_view] replay_record_text [of RLeave False]
    by (simp_all add: forgets_def no_view_def del: append_assoc record_line.simps)
  have whole: "ends_line (f1 @ bw_buf w1)" "forgets (f1 @ bw_buf w1)" using s1(7) c l by auto
  have "sv_aliveNodes s1 = Map.empty" using s1(5) by (metis view_of_simps(1) snapshotter.select_convs(1) snap_view.simps(1) snap_view.surjective snap_view.update_convs(1))
  moreover have "bufw_Flush (sx_io env) w1 f1 = (True, new_writer, f1 @ bw_buf w1)" using io s1(3) by (rule Flush_good)
  moreover have "left_log new_writer (f1 @ bw_buf w1)"
    using whole by (auto simp: left_log_def new_writer_def dest: prefix_order.antisym)
  ultimately show ?thesis
    using run s1 rej
    by (simp add: snap_turn_def record_leave_def Let_def snap_then_def line_of_record flush_log_def log_text_def left_state_def
        del: record_line.simps) (auto simp: set_log_def)
qed

subsection \<open>Shutting down and starting again\<close>

lemma flush_recovers:
  assumes "snap_state rej v0 rs s" "env_good env"
  shows "\<exists>s' ds. flush_log env s = Some (s', ds) \<and> view_of s' = view_of s
    \<and> recover rej (sp_disk s') = view_of s \<and> (\<forall>d \<in> set ds. good_disk rej v0 rs d)"
proof -
  obtain w f where wf: "sp_w s = Some w" "dk_log (sp_disk s) = Some f" "log_inv rej v0 rs w f" "view_of s = apply_records rej rs v0"
    using assms(1) by (auto simp: snap_state_def snap_inv_def)
  have "bufw_Flush (sx_io env) w f = (True, new_writer, f @ bw_buf w)"
    using assms(2) wf(3) by (intro Flush_good) (simp_all add: env_good_def log_inv_def)
  moreover have "recoverable rej v0 rs (f @ bw_buf w)" using wf(3) by (auto simp: log_inv_def)
  ultimately show ?thesis
    using wf by (simp add: flush_log_def log_text_def recover_def good_disk_def log_inv_def) (simp add: set_log_def)
qed

lemma flush_log_returns: "sp_w s = Some w \<Longrightarrow> \<exists>s' ds. flush_log env s = Some (s', ds)"
  by (simp add: flush_log_def Let_def split: prod.split)

lemma turns_append: "snap_turns conf (xs @ ys) s = snap_then (snap_turns conf xs s) (snap_turns conf ys)"
proof (induction xs arbitrary: s)
  case (Cons x xs)
  then show ?case by (cases x) (auto simp: snap_then_def split: option.splits)
qed (auto simp: snap_then_def split: option.splits)

lemma one_turn: "snap_turns conf [(env, c)] s = snap_turn conf env c s"
  by (auto simp: snap_then_def split: option.splits)

lemma install_failed:
  "\<not> (io_remove (sx_io env) \<and> io_rename (sx_io env) \<and> io_reopen (sx_io env)) \<Longrightarrow>
     sp_w (fst (install_snapshot env n w s)) = None
     \<and> (io_remove (sx_io env) \<and> \<not> io_rename (sx_io env) \<longrightarrow> dk_log (sp_disk (fst (install_snapshot env n w s))) = None)"
  by (auto simp: install_snapshot_def Let_def split: prod.split)

text \<open>The times a run has recorded.\<close>

definition event_time :: "snap_case \<Rightarrow> ltime option" where
  "event_time c = (case c of SnapEvent (SawUser ue) \<Rightarrow> Some (uev_LTime ue) | _ \<Rightarrow> None)"

lemma event_clock_members: "sv_lastEventClock (apply_records rej (member_records e) v) = sv_lastEventClock v"
proof -
  have "sv_lastEventClock (apply_records rej (map (\<lambda>m. RNotAlive (m_Name m)) ms) v) = sv_lastEventClock v" for ms :: "Member list"
    by (induction ms arbitrary: v) auto
  moreover have "sv_lastEventClock (apply_records rej
      (map (\<lambda>m. RAlive (m_Name m) (TCPAddr_String (m_Addr m) (m_Port m))) ms) v) = sv_lastEventClock v" for ms :: "Member list"
    by (induction ms arbitrary: v) auto
  ultimately show ?thesis by (simp add: member_records_def)
qed

lemma event_clock_turn:
  assumes "c \<noteq> SnapLeave"
  shows "sv_lastEventClock (apply_records rej (turn_records env c False v) v) =
    (case event_time c of Some t \<Rightarrow> max t (sv_lastEventClock v) | None \<Rightarrow> sv_lastEventClock v)"
  using assms
  by (auto simp: turn_records_def event_records_def event_time_def clock_records_def event_clock_members max_def
      split: snap_case.splits serf_event.splits)

lemma event_clock_run:
  "SnapLeave \<notin> snd ` set ts \<Longrightarrow>
     sv_lastEventClock (apply_records rej (run_records rej ts False v) v) =
       fold max (List.map_filter (event_time \<circ> snd) ts) (sv_lastEventClock v)"
proof (induction ts arbitrary: v)
  case (Cons t ts)
  obtain env c where t: "t = (env, c)" by (cases t)
  have c: "c \<noteq> SnapLeave" "SnapLeave \<notin> snd ` set ts" using Cons.prems by (auto simp: t)
  show ?case
    using Cons.IH [OF c(2)] c(1) event_clock_turn [OF c(1), of rej env v]
    by (auto simp: t Let_def List.map_filter_simps split: option.splits)
qed (simp add: List.map_filter_simps)

lemma fold_max_ge: "t \<in> set ts \<or> t \<le> m \<Longrightarrow> (t :: ltime) \<le> fold max ts m"
proof (induction ts arbitrary: m)
  case (Cons a ts)
  then have "t \<in> set ts \<or> t \<le> max a m" by (auto simp: le_max_iff_disj)
  from Cons.IH [OF this] show ?case by (simp only: fold_simps)
qed simp

lemma fold_max_mem: "fold max ts (m :: ltime) = m \<or> fold max ts m \<in> set ts"
proof (induction ts arbitrary: m)
  case (Cons t ts)
  have "max t m = t \<or> max t m = m" by (simp add: max_def)
  then show ?case
  proof
    assume "max t m = t"
    then have "fold max (t # ts) m = fold max ts t" by (simp only: fold_simps)
    with Cons [of t] show ?thesis by (simp only: list.set) blast
  next
    assume "max t m = m"
    then have "fold max (t # ts) m = fold max ts m" by (simp only: fold_simps)
    with Cons [of m] show ?thesis by (simp only: list.set) blast
  qed
qed simp

text \<open>The part of \<open>Create\<close> that restores the clocks; \<open>None\<close> is a configuration without a snapshot.\<close>

definition Create_events :: "nat \<Rightarrow> snap_view option \<Rightarrow> event_state" where
  "Create_events n snap =
     \<lparr>es_clock = clock_Witness (case snap of Some v \<Rightarrow> sv_lastEventClock v | None \<Rightarrow> 0) (clock_Increment 0),
      es_buffer = replicate n None,
      es_minTime = (case snap of Some v \<Rightarrow> sv_lastEventClock v + 1 | None \<Rightarrow> 0),
      es_joinIgnore = False\<rparr>"

definition Create_queries :: "nat \<Rightarrow> snap_view option \<Rightarrow> query_state" where
  "Create_queries n snap =
     \<lparr>qy_clock = clock_Witness (case snap of Some v \<Rightarrow> sv_lastQueryClock v | None \<Rightarrow> 0) (clock_Increment 0),
      qy_buffer = replicate n None,
      qy_minTime = (case snap of Some v \<Rightarrow> sv_lastQueryClock v + 1 | None \<Rightarrow> 0)\<rparr>"

definition Create_clock :: "snap_view option \<Rightarrow> ltime" where
  "Create_clock snap = clock_Witness (case snap of Some v \<Rightarrow> sv_lastClock v | None \<Rightarrow> 0) (clock_Increment 0)"

subsection \<open>Properties\<close>

definition snap_start :: "snap_conf \<Rightarrow> disk \<Rightarrow> bool" where
  "snap_start conf d \<longleftrightarrow> ends_line (log_text d) \<and> tidy_view (recover (sc_rejoinAfterLeave conf) d)"

definition demo_io :: snap_io where
  "demo_io = \<lparr>io_write = length, io_open_tmp = True, io_remove = True, io_rename = True, io_reopen = True\<rparr>"

definition demo_snap_env :: "ltime \<Rightarrow> snap_env" where
  "demo_snap_env c = \<lparr>sx_now = 1, sx_clock = c, sx_order = (\<lambda>m. sorted_list_of_set (dom m)), sx_io = demo_io\<rparr>"

definition demo_snap_conf :: "bool \<Rightarrow> snap_conf" where
  "demo_snap_conf rej = \<lparr>sc_maxSize = 131072, sc_rejoinAfterLeave = rej\<rparr>"

definition demo_disk :: disk where
  "demo_disk = \<lparr>dk_log = None, dk_tmp = None\<rparr>"

definition demo_user_event :: "ltime \<Rightarrow> UserEvent" where
  "demo_user_event t = \<lparr>uev_LTime = t, uev_Name = ''deploy'', uev_Payload = [], uev_Coalesce = False\<rparr>"

definition demo_turns :: "(snap_env \<times> snap_case) list" where
  "demo_turns = [(demo_snap_env 5, SnapTick), (demo_snap_env 5, SnapEvent (SawUser (demo_user_event 3)))]"

lemma demo_env_good: "env_good (demo_snap_env c)"
  by (simp add: env_good_def demo_snap_env_def io_good_def demo_io_def)

lemma demo_snap_start: "snap_start (demo_snap_conf rej) demo_disk"
  by (simp add: snap_start_def demo_disk_def log_text_def recover_def tidy_view_def no_view_def)

lemma demo_turns_good: "\<forall>t \<in> set demo_turns. good_turn rej t"
  by (simp add: demo_turns_def good_turn_def demo_env_good)



text \<open>C30: A crash loses only the most recent records. Let the file end with a complete line and replay to
  well-formed records when the process starts; let no system call fail, no member's name contain a line break, and no
  leave clear the file, as without \<open>RejoinAfterLeave\<close> it does. Stop the process between any two system calls
  then, also those of a compaction: either the file replays to the state the node had some number of records ago, or the
  machine stopped in the window of a compaction in which the old file is removed and the new one is not yet renamed.
  Then a restart knows nothing, although the temporary file, which nothing reads, replays to such a state.\<close>

theorem crash_recovers_earlier_state:
  assumes "snap_start conf d" "\<forall>t \<in> set ts. good_turn (sc_rejoinAfterLeave conf) t"
    and "snap_turns conf ts (NewSnapshotter conf d) = Some (s, ds)" "d' \<in> set ds"
  defines "rs \<equiv> run_records (sc_rejoinAfterLeave conf) ts False (recover (sc_rejoinAfterLeave conf) d)"
  shows "case dk_log d' of
      Some f \<Rightarrow> \<exists>k \<le> length rs. recover (sc_rejoinAfterLeave conf) d' =
        apply_records (sc_rejoinAfterLeave conf) (take k rs) (recover (sc_rejoinAfterLeave conf) d)
    | None \<Rightarrow> recover (sc_rejoinAfterLeave conf) d' = no_view \<and>
        (\<exists>t. dk_tmp d' = Some t \<and> (\<exists>k \<le> length rs. replay_text (sc_rejoinAfterLeave conf) t no_view =
          apply_records (sc_rejoinAfterLeave conf) (take k rs) (recover (sc_rejoinAfterLeave conf) d)))"
proof -
  let ?rej = "sc_rejoinAfterLeave conf" and ?s = "NewSnapshotter conf d"
  note new = new_state [OF assms(1) [unfolded snap_start_def, THEN conjunct1] assms(1) [unfolded snap_start_def, THEN conjunct2]]
  have "\<not> sp_leaving ?s" by (simp add: NewSnapshotter_def snap_view.defs)
  with turns_go [OF assms(2) refl new(1)] assms(3,4) new(2) have "good_disk ?rej (recover ?rej d) rs d'"
    by (auto simp: goes_def rs_def)
  then show ?thesis
    by (auto simp: good_disk_def recoverable_def recover_def log_text_def split: option.splits)
qed

theorem crash_recovers_earlier_state_witness:
  "\<exists>s ds. snap_turns (demo_snap_conf False) [(demo_snap_env 5, SnapTick)] (NewSnapshotter (demo_snap_conf False) demo_disk) = Some (s, ds)
    \<and> ds \<noteq> [] \<and> (\<forall>d \<in> set ds. dk_log d \<noteq> None \<longrightarrow> recover False d \<in> {no_view, no_view\<lparr>sv_lastClock := 4\<rparr>})"
proof -
  let ?ts = "[(demo_snap_env 5, SnapTick)]" and ?conf = "demo_snap_conf False"
  let ?s = "NewSnapshotter ?conf demo_disk"
  have conf: "sc_rejoinAfterLeave ?conf = False" by (simp add: demo_snap_conf_def)
  have ts: "\<forall>t \<in> set ?ts. good_turn (sc_rejoinAfterLeave ?conf) t" by (simp add: good_turn_def demo_env_good)
  have v: "recover False demo_disk = no_view" by (simp add: recover_def demo_disk_def log_text_def)
  have rs: "run_records False ?ts False no_view = [RClock 4]"
    by (simp add: turn_records_def clock_records_def demo_snap_env_def no_view_def)
  have s: "sp_w ?s = Some new_writer" "\<not> bw_err new_writer" "dk_log (sp_disk ?s) = Some []" "sv_lastClock ?s = 0"
    using v by (simp_all add: NewSnapshotter_def snap_view.defs log_text_def new_writer_def demo_disk_def conf no_view_def)
  have io: "io_good (sx_io (demo_snap_env 5))" using demo_env_good [of 5] by (simp add: env_good_def)
  obtain s' ds where run: "snap_turns ?conf ?ts ?s = Some (s', ds)" "ds \<noteq> []"
    using tryAppend_shape [OF io, of "?s\<lparr>sv_lastClock := 4\<rparr>" new_writer "[]" ?conf "clock_line 4"] s
    by (auto simp: one_turn snap_turn_def snap_updateClock_def demo_snap_env_def simp del: snap_turns.simps(2))
  have "dk_log d \<noteq> None \<longrightarrow> recover False d \<in> {no_view, no_view\<lparr>sv_lastClock := 4\<rparr>}" if d: "d \<in> set ds" for d
    using crash_recovers_earlier_state [OF demo_snap_start ts run(1) d] unfolding conf v rs
    by (auto simp: le_Suc_eq)
  with run show ?thesis by blast
qed

text \<open>A leave stays in the file. Once a node without rejoin-after-leave has recorded its leave, a restart knows no
  node to join, whatever happens later and whenever it stops, compactions included.\<close>

theorem leave_is_remembered:
  assumes "snap_start conf d" "\<not> sc_rejoinAfterLeave conf" "\<forall>t \<in> set ts. good_turn False t" "env_good env"
    and "\<forall>t \<in> set ts'. env_good (fst t)"
    and "snap_turns conf (ts @ [(env, SnapLeave)]) (NewSnapshotter conf d) = Some (s, ds)"
  shows "\<exists>s' ds'. snap_turns conf ts' s = Some (s', ds') \<and>
    (\<forall>d' \<in> insert (sp_disk s') (set ds'). sv_aliveNodes (recover False d') = Map.empty)"
proof -
  let ?s = "NewSnapshotter conf d"
  have rej: "sc_rejoinAfterLeave conf = False" using assms(2) by simp
  note new = new_state [of d conf]
  obtain s1 ds1 where s1: "snap_turns conf ts ?s = Some (s1, ds1)"
    "snap_state False (recover False d) (run_records False ts (sp_leaving ?s) (view_of ?s)) s1"
    using turns_go [of ts False conf "recover False d" "[]" ?s] new assms(1,3) rej
    by (auto simp: goes_def snap_start_def)
  have "\<exists>ds2. snap_turn conf env SnapLeave s1 = Some (s, ds2)"
    using assms(6) s1(1) by (auto simp: turns_append one_turn snap_then_def simp del: snap_turns.simps(2) split: option.splits)
  then obtain ds2 where "snap_turn conf env SnapLeave s1 = Some (s, ds2)" ..
  from leave_turn [OF assms(4) rej s1(2) this] have "left_state s" .
  from left_turns [OF assms(5) this rej] obtain s2 ds3 where s2: "snap_turns conf ts' s = Some (s2, ds3)" "left_state s2"
    "\<forall>d \<in> set ds3. forgets_disk d" by blast
  have "forgets_disk (sp_disk s2)" using s2(2) by (auto simp: left_state_def left_log_def forgets_disk_def)
  with s2 forgets_log show ?thesis by blast
qed

theorem leave_is_remembered_witness:
  "\<exists>s ds. snap_turns (demo_snap_conf False) (demo_turns @ [(demo_snap_env 6, SnapLeave)]) (NewSnapshotter (demo_snap_conf False) demo_disk)
      = Some (s, ds) \<and> (\<exists>s' ds'. snap_turns (demo_snap_conf False) demo_turns s = Some (s', ds') \<and>
      sv_aliveNodes (recover False (sp_disk s')) = Map.empty)"
proof -
  let ?conf = "demo_snap_conf False" and ?s = "NewSnapshotter (demo_snap_conf False) demo_disk"
  have conf: "sc_rejoinAfterLeave ?conf = False" by (simp add: demo_snap_conf_def)
  obtain s1 ds1 where s1: "snap_turns ?conf demo_turns ?s = Some (s1, ds1)"
    "snap_state False (recover False demo_disk) (run_records False demo_turns (sp_leaving ?s) (view_of ?s)) s1"
    using turns_go [OF demo_turns_good conf, of "recover False demo_disk" "[]" ?s] new_state [of demo_disk ?conf]
      demo_snap_start [of False] conf by (auto simp: goes_def snap_start_def)
  obtain w f where wf: "sp_w s1 = Some w" "dk_log (sp_disk s1) = Some f" "\<not> bw_err w"
    using s1(2) by (auto simp: snap_state_def snap_inv_def log_inv_def)
  have io: "io_good (sx_io (demo_snap_env 6))" using demo_env_good [of 6] by (simp add: env_good_def)
  obtain s2 ds2 w2 where "tryAppend ?conf (demo_snap_env 6) leave_line (s1\<lparr>sp_leaving := True, sv_aliveNodes := Map.empty\<rparr>) = Some (s2, ds2)"
    "sp_w s2 = Some w2"
    using tryAppend_shape [OF io, of "s1\<lparr>sp_leaving := True, sv_aliveNodes := Map.empty\<rparr>" w f ?conf leave_line] wf by auto
  moreover from this(2) obtain s3 ds3 where "flush_log (demo_snap_env 6) s2 = Some (s3, ds3)"
    using flush_log_returns by blast
  ultimately obtain s ds where run: "snap_turns ?conf (demo_turns @ [(demo_snap_env 6, SnapLeave)]) ?s = Some (s, ds)"
    using s1(1) conf
    by (auto simp: turns_append one_turn snap_then_def snap_turn_def record_leave_def Let_def simp del: snap_turns.simps(2))
  have "\<forall>t \<in> set demo_turns. env_good (fst t)" by (simp add: demo_turns_def demo_env_good)
  from leave_is_remembered [OF demo_snap_start [of False] _ demo_turns_good demo_env_good this run] conf run
  show ?thesis by auto
qed

text \<open>C31: A compaction that fails half way stops the node. If removing the old file, renaming the new one or opening it
  fails, the error is only logged and the next record of any kind, a nil dereference, panics; if it was the renaming
  that failed, a restart knows nothing either.\<close>

theorem failed_compaction_panics:
  assumes "sp_w s = Some w" "io_open_tmp (sx_io env)" "\<forall>t. length t \<le> io_write (sx_io env) t"
    and "\<not> (io_remove (sx_io env) \<and> io_rename (sx_io env) \<and> io_reopen (sx_io env))"
  shows "\<exists>s' ds. snap_compact env s = Some (s', ds) \<and> (\<forall>env' l. tryAppend conf env' l s' = None)
    \<and> (\<forall>env'. snap_turn conf env' SnapShutdown s' = None)
    \<and> (io_remove (sx_io env) \<and> \<not> io_rename (sx_io env) \<longrightarrow> recover rej (sp_disk s') = no_view)"
proof -
  let ?io = "(sx_io env)\<lparr>io_remove := True, io_rename := True, io_reopen := True\<rparr>"
  have io: "io_good ?io" using assms(2,3) by (simp add: io_good_def)
  have same: "bufw_Flush ?io v f = bufw_Flush (sx_io env) v f" for v f by (simp add: bufw_Flush_def)
  have "bufw_WriteString ?io l v f = bufw_WriteString (sx_io env) l v f" for l v f
  proof (induction "sx_io env" l v f rule: bufw_WriteString.induct)
    case (1 l v f)
    then show ?case
      by (subst (1 2) bufw_WriteString.simps) (auto simp: same Let_def split: prod.split)
  qed
  then have lines: "write_lines ?io ls v f = write_lines (sx_io env) ls v f" for ls v f
    by (induction ls arbitrary: v f) (auto split: prod.split)
  let ?ls = "compact_lines (the \<circ> sv_aliveNodes s) (sx_order env (sv_aliveNodes s)) (sv_lastClock s)
    (sv_lastEventClock s) (sv_lastQueryClock s)"
  obtain w1 f1 where wl: "write_lines (sx_io env) ?ls new_writer [] = (True, w1, f1)" "\<not> bw_err w1"
    using write_lines_good [OF io, of new_writer ?ls "[]"] by (auto simp: new_writer_def lines)
  have fl: "bufw_Flush (sx_io env) w1 f1 = (True, new_writer, f1 @ bw_buf w1)"
    using Flush_good [OF io wl(2)] by (simp add: same)
  obtain s' ds where s': "snap_compact env s = Some (s', ds)" "sp_w s' = None"
    "io_remove (sx_io env) \<and> \<not> io_rename (sx_io env) \<longrightarrow> dk_log (sp_disk s') = None"
  proof -
    let ?s = "s\<lparr>sp_disk := (sp_disk s)\<lparr>dk_tmp := Some []\<rparr>\<lparr>dk_tmp := Some (f1 @ bw_buf w1)\<rparr>\<rparr>"
    let ?i = "install_snapshot env (int (length (concat ?ls))) w ?s"
    have "snap_compact env s =
        Some (fst ?i, [(sp_disk s)\<lparr>dk_tmp := Some []\<rparr>, (sp_disk s)\<lparr>dk_tmp := Some []\<rparr>\<lparr>dk_tmp := Some (f1 @ bw_buf w1)\<rparr>] @ snd ?i)"
      using assms(1,2) wl(1) fl by (simp add: snap_compact_def Let_def split: prod.split)
    moreover have "sp_w (fst ?i) = None" "io_remove (sx_io env) \<and> \<not> io_rename (sx_io env) \<longrightarrow> dk_log (sp_disk (fst ?i)) = None"
      using install_failed [OF assms(4), of "int (length (concat ?ls))" w ?s] by blast+
    ultimately show ?thesis by (rule that)
  qed
  then show ?thesis
    by (auto simp: tryAppend_def snap_turn_def flush_log_def recover_def log_text_def)
qed

theorem failed_compaction_panics_witness:
  "\<exists>s' ds. snap_compact (demo_snap_env 5\<lparr>sx_io := demo_io\<lparr>io_rename := False\<rparr>\<rparr>) (NewSnapshotter (demo_snap_conf False) demo_disk) = Some (s', ds)
    \<and> tryAppend (demo_snap_conf False) (demo_snap_env 6) leave_line s' = None \<and> recover False (sp_disk s') = no_view"
  using failed_compaction_panics [of "NewSnapshotter (demo_snap_conf False) demo_disk" new_writer
      "demo_snap_env 5\<lparr>sx_io := demo_io\<lparr>io_rename := False\<rparr>\<rparr>" "demo_snap_conf False" False]
  by (auto simp: NewSnapshotter_def snap_view.defs demo_io_def)

text \<open>A torn record takes the next one with it. A crash can leave a record without its end of line. The file is
  neither cut nor ended when it is opened again, so the next record is written behind the torn one: the node that
  joins is not recovered, and one that never existed, named after both, is.\<close>

theorem torn_record_swallows_next:
  assumes d: "dk_log d = Some (f @ ''alive: '' @ u)" "ends_line f" "CHR 0x0A \<notin> set u"
    and r: "CHR 0x0A \<notin> set n" "one_word a" and env: "env_good env" "env_good env'"
    and size: "int (length (f @ ''alive: '' @ u @ alive_line n a)) \<le> sc_maxSize conf"
    and run: "tryAppend conf env (alive_line n a) s = Some (s1, ds)" "flush_log env' s1 = Some (s2, ds')"
    and s: "s = NewSnapshotter conf d"
  shows "sv_aliveNodes (recover rej (sp_disk s2)) = (sv_aliveNodes (replay_text rej f no_view))(u @ ''alive: '' @ n \<mapsto> a)"
proof -
  let ?f = "f @ ''alive: '' @ u" and ?l = "alive_line n a"
  have s0: "sp_w s = Some new_writer" "\<not> bw_err new_writer" "dk_log (sp_disk s) = Some ?f" "sp_offset s = int (length ?f)"
    using d(1) by (simp_all add: s NewSnapshotter_def snap_view.defs log_text_def new_writer_def)
  have io: "io_good (sx_io env)" "io_good (sx_io env')" using env by (simp_all add: env_good_def)
  have "\<not> sc_maxSize conf < sp_offset s + int (length ?l)" using size by (simp add: s0(4))
  with tryAppend_shape [OF io(1) s0(1-3), of conf ?l] run(1) obtain w' f' where
    w': "sp_w s1 = Some w'" "\<not> bw_err w'" "dk_log (sp_disk s1) = Some f'" "f' @ bw_buf w' = ?f @ ?l"
    by (auto simp: new_writer_def)
  have "dk_log (sp_disk s2) = Some (?f @ ?l)"
    using run(2) w' Flush_good [OF io(2) w'(2), of f'] by (auto simp: flush_log_def log_text_def set_log_def)
  then have "recover rej (sp_disk s2) = replay_text rej ((''alive: '' @ u @ ''alive: '' @ n @ '' '' @ a) @ newline)
      (replay_text rej f no_view)"
    using replay_text_append [OF d(2)] by (simp add: recover_def log_text_def alive_line_def)
  also have "\<dots> = replay_line rej (''alive: '' @ u @ ''alive: '' @ n @ '' '' @ a) (replay_text rej f no_view)"
    using d(3) r by (intro replay_one_line) (auto dest: one_word_no_newline)
  finally show ?thesis
    using split_last_blank_word [OF r(2), of "u @ ''alive: '' @ n"] by (simp add: replay_line_def)
qed

theorem torn_record_swallows_next_witness:
  "\<exists>s1 ds s2 ds'. tryAppend (demo_snap_conf False) (demo_snap_env 5) (alive_line ''web2'' ''10.0.0.2:7946'')
        (NewSnapshotter (demo_snap_conf False) \<lparr>dk_log = Some ''alive: web1 10.0.'', dk_tmp = None\<rparr>) = Some (s1, ds)
    \<and> flush_log (demo_snap_env 6) s1 = Some (s2, ds')
    \<and> sv_aliveNodes (recover False (sp_disk s2)) = [''web1 10.0.alive: web2'' \<mapsto> ''10.0.0.2:7946'']"
proof -
  let ?d = "\<lparr>dk_log = Some ''alive: web1 10.0.'', dk_tmp = None\<rparr>" and ?conf = "demo_snap_conf False"
  let ?s = "NewSnapshotter ?conf ?d"
  have s0: "sp_w ?s = Some new_writer" "\<not> bw_err new_writer" "dk_log (sp_disk ?s) = Some ''alive: web1 10.0.''"
    by (simp_all add: NewSnapshotter_def snap_view.defs log_text_def new_writer_def)
  have io: "io_good (sx_io (demo_snap_env 5))" using demo_env_good [of 5] by (simp add: env_good_def)
  obtain s1 ds w1 where s1: "tryAppend ?conf (demo_snap_env 5) (alive_line ''web2'' ''10.0.0.2:7946'') ?s = Some (s1, ds)"
    "sp_w s1 = Some w1" using tryAppend_shape [OF io s0] by blast
  then obtain s2 ds' where s2: "flush_log (demo_snap_env 6) s1 = Some (s2, ds')"
    using flush_log_returns by blast
  have "dk_log ?d = Some ([] @ ''alive: '' @ ''web1 10.0.'')" by simp
  from torn_record_swallows_next [OF this _ _ _ _ demo_env_good demo_env_good _ s1(1) s2 refl, of False] s1(1) s2
  show ?thesis by (auto simp: alive_line_def demo_snap_conf_def no_view_def)
qed

text \<open>No user event is delivered again after a clean restart. A node that starts from the file of a clean shutdown
  rejects every user event at or before the time of one that its snapshotter had processed, whatever the empty ring of
  the new process would say; the largest time is excluded, it wraps the minimum to zero.\<close>

theorem restart_delivers_no_event_again:
  assumes "snap_start conf d" "\<forall>t \<in> set ts. good_turn (sc_rejoinAfterLeave conf) t" "env_good env" "SnapLeave \<notin> snd ` set ts"
    and "snap_turns conf (ts @ [(env, SnapShutdown)]) (NewSnapshotter conf d) = Some (s, ds)"
    and "(env', SnapEvent (SawUser ue)) \<in> set ts" "mu_LTime m \<le> uev_LTime ue"
    and "sv_lastEventClock (recover (sc_rejoinAfterLeave conf) d) \<noteq> - 1"
    and "\<forall>(e, c) \<in> set ts. event_time c \<noteq> Some (- 1)"
  shows "\<not> fst (handleUserEvent m (Create_events n (Some (recover (sc_rejoinAfterLeave conf) (sp_disk s)))))"
proof -
  let ?rej = "sc_rejoinAfterLeave conf"
  let ?ts = "List.map_filter (event_time \<circ> snd) ts"
  define t where "t = sv_lastEventClock (recover ?rej (sp_disk s))"
  note new = new_state [OF assms(1) [unfolded snap_start_def, THEN conjunct1] assms(1) [unfolded snap_start_def, THEN conjunct2]]
  have leaving: "\<not> sp_leaving (NewSnapshotter conf d)" by (simp add: NewSnapshotter_def snap_view.defs)
  from turns_go [OF assms(2) refl new(1)] obtain s1 ds1 where
    s1: "snap_turns conf ts (NewSnapshotter conf d) = Some (s1, ds1)"
      "snap_state ?rej (recover ?rej d) (run_records ?rej ts False (recover ?rej d)) s1"
    using leaving new(2) by (auto simp: goes_def)
  from flush_recovers [OF s1(2) assms(3)] s1 assms(5)
  have "recover ?rej (sp_disk s) = apply_records ?rej (run_records ?rej ts False (recover ?rej d)) (recover ?rej d)"
    by (auto simp: turns_append one_turn snap_then_def snap_turn_def snap_state_def simp del: snap_turns.simps(2))
  then have t: "t = fold max ?ts (sv_lastEventClock (recover ?rej d))"
    using event_clock_run [OF assms(4), of ?rej "recover ?rej d"] by (simp add: t_def)
  have "uev_LTime ue \<in> set ?ts"
    using assms(6) by (force simp: List.map_filter_def event_time_def)
  then have "mu_LTime m \<le> t" unfolding t by (intro order.trans [OF assms(7)] fold_max_ge) simp
  moreover have "- 1 \<notin> set ?ts" using assms(9) by (auto simp: List.map_filter_def)
  then have "t \<noteq> - 1" using fold_max_mem [of ?ts "sv_lastEventClock (recover ?rej d)"] assms(8) unfolding t by metis
  then have "t < t + 1" by (rule plus_one_greater)
  ultimately have "mu_LTime m < t + 1" by simp
  then show ?thesis by (simp add: handleUserEvent_def Create_events_def t_def Let_def)
qed

theorem restart_delivers_no_event_again_witness:
  "\<exists>s ds. snap_turns (demo_snap_conf False) (demo_turns @ [(demo_snap_env 6, SnapShutdown)])
      (NewSnapshotter (demo_snap_conf False) demo_disk) = Some (s, ds)
    \<and> \<not> fst (handleUserEvent \<lparr>mu_LTime = 2, mu_Name = ''deploy'', mu_Payload = [], mu_CC = False\<rparr>
        (Create_events 512 (Some (recover False (sp_disk s)))))"
proof -
  let ?conf = "demo_snap_conf False" and ?s = "NewSnapshotter (demo_snap_conf False) demo_disk"
  have conf: "sc_rejoinAfterLeave ?conf = False" by (simp add: demo_snap_conf_def)
  obtain s1 ds1 where s1: "snap_turns ?conf demo_turns ?s = Some (s1, ds1)"
    "snap_state False (recover False demo_disk) (run_records False demo_turns (sp_leaving ?s) (view_of ?s)) s1"
    using turns_go [OF demo_turns_good conf, of "recover False demo_disk" "[]" ?s] new_state [of demo_disk ?conf]
      demo_snap_start [of False] conf by (auto simp: goes_def snap_start_def)
  from flush_recovers [OF s1(2) demo_env_good [of 6]] s1(1) obtain s ds where
    run: "snap_turns ?conf (demo_turns @ [(demo_snap_env 6, SnapShutdown)]) ?s = Some (s, ds)"
    by (auto simp: turns_append one_turn snap_then_def snap_turn_def simp del: snap_turns.simps(2))
  have "sv_lastEventClock (recover False demo_disk) \<noteq> - 1"
    by (simp add: recover_def demo_disk_def log_text_def no_view_def)
  moreover have "(demo_snap_env 5, SnapEvent (SawUser (demo_user_event 3))) \<in> set demo_turns" by (simp add: demo_turns_def)
  ultimately show ?thesis
    using restart_delivers_no_event_again [OF demo_snap_start demo_turns_good demo_env_good _ run,
        of "demo_snap_env 5" "demo_user_event 3" "\<lparr>mu_LTime = 2, mu_Name = ''deploy'', mu_Payload = [], mu_CC = False\<rparr>" 512] run conf
    by (auto simp: demo_turns_def event_time_def demo_user_event_def)
qed

end
