(* ===== verification/Coalesce.thy ===== *)
theory Coalesce
  imports SerfDelegate "HOL-Library.Multiset"
begin

section \<open>Coalescing events (serf/coalesce.go, coalesce_member.go, coalesce_user.go)\<close>

text \<open>
  Serf can hold back events for a while and pass on what they amount to: for a member its last
  change, for a user event those with the largest time. A loop with two timers drives either
  kind behind the interface \<open>coalescer\<close>, here a locale with both kinds as interpretations. Maps
  are iterated in any order: the order is an argument.
\<close>

subsection \<open>Member events\<close>

record coalesceEvent =
  ce_Type :: EventType
  ce_Member :: Member

record memberEventCoalescer =
  mc_lastEvents :: "string \<rightharpoonup> EventType"
  mc_latestEvents :: "string \<rightharpoonup> coalesceEvent"

definition member_Handle :: "serf_event \<Rightarrow> bool" where
  "member_Handle e =
     (case e of
        SawMembers m \<Rightarrow>
          me_Type m \<in> {EventMemberJoin, EventMemberLeave, EventMemberFailed, EventMemberUpdate, EventMemberReap}
      | _ \<Rightarrow> False)"

text \<open>
  The entries of one event hold the address of the one variable of the loop, and so all of them end
  up with its last value.
\<close>

definition member_Coalesce :: "MemberEvent \<Rightarrow> memberEventCoalescer \<Rightarrow> memberEventCoalescer" where
  "member_Coalesce e c =
     c\<lparr>mc_latestEvents := fold (\<lambda>m latest. latest(m_Name m \<mapsto> \<lparr>ce_Type = me_Type e, ce_Member = last (me_Members e)\<rparr>))
         (me_Members e) (mc_latestEvents c)\<rparr>"

text \<open>One round of the first loop of \<open>Flush\<close>, over the last events and the events to send.\<close>

definition flush_member ::
  "(string \<rightharpoonup> coalesceEvent) \<Rightarrow> string \<Rightarrow> (string \<rightharpoonup> EventType) \<times> (EventType \<rightharpoonup> Member list) \<Rightarrow>
     (string \<rightharpoonup> EventType) \<times> (EventType \<rightharpoonup> Member list)" where
  "flush_member latest name s =
     (let (lastEvents, events) = s; cevent = the (latest name) in
      if lastEvents name = Some (ce_Type cevent) \<and> ce_Type cevent \<noteq> EventMemberUpdate then s
      else (lastEvents(name \<mapsto> ce_Type cevent),
            events(ce_Type cevent \<mapsto>
              (case events (ce_Type cevent) of Some ms \<Rightarrow> ms | None \<Rightarrow> []) @ [ce_Member cevent])))"

definition member_Flush ::
  "((string \<rightharpoonup> coalesceEvent) \<Rightarrow> string list) \<Rightarrow> ((EventType \<rightharpoonup> Member list) \<Rightarrow> EventType list) \<Rightarrow>
     memberEventCoalescer \<Rightarrow> memberEventCoalescer \<times> MemberEvent list" where
  "member_Flush names types c =
     (let (lastEvents, events) =
            fold (flush_member (mc_latestEvents c)) (names (mc_latestEvents c)) (mc_lastEvents c, Map.empty)
      in (c\<lparr>mc_lastEvents := lastEvents\<rparr>,
          map (\<lambda>t. \<lparr>me_Type = t, me_Members = the (events t)\<rparr>) (types events)))"

definition new_memberEventCoalescer :: memberEventCoalescer where
  "new_memberEventCoalescer = \<lparr>mc_lastEvents = Map.empty, mc_latestEvents = Map.empty\<rparr>"

subsection \<open>User events\<close>

record latestUserEvents =
  lu_LTime :: ltime
  lu_Events :: "UserEvent list"

type_synonym userEventCoalescer = "string \<rightharpoonup> latestUserEvents"

definition user_Handle :: "serf_event \<Rightarrow> bool" where
  "user_Handle e = (case e of SawUser u \<Rightarrow> uev_Coalesce u | _ \<Rightarrow> False)"

definition user_Coalesce :: "UserEvent \<Rightarrow> userEventCoalescer \<Rightarrow> userEventCoalescer" where
  "user_Coalesce user c =
     (case c (uev_Name user) of
        None \<Rightarrow> c(uev_Name user \<mapsto> \<lparr>lu_LTime = uev_LTime user, lu_Events = [user]\<rparr>)
      | Some latest \<Rightarrow>
          if lu_LTime latest < uev_LTime user
          then c(uev_Name user \<mapsto> \<lparr>lu_LTime = uev_LTime user, lu_Events = [user]\<rparr>)
          else if lu_LTime latest = uev_LTime user
          then c(uev_Name user \<mapsto> latest\<lparr>lu_Events := lu_Events latest @ [user]\<rparr>)
          else c)"

definition user_Flush :: "(userEventCoalescer \<Rightarrow> string list) \<Rightarrow> userEventCoalescer \<Rightarrow> userEventCoalescer \<times> UserEvent list" where
  "user_Flush names c = (Map.empty, concat (map (\<lambda>n. lu_Events (the (c n))) (names c)))"

subsection \<open>The loop\<close>

text \<open>The timers hold the time they fire at; the last component says whether the loop has ended.\<close>

record 'c coalesce_loop =
  cl_quantum :: "int option"
  cl_quiescent :: "int option"
  cl_coalescer :: 'c
  cl_done :: bool

definition new_loop :: "'c \<Rightarrow> 'c coalesce_loop" where
  "new_loop c = \<lparr>cl_quantum = None, cl_quiescent = None, cl_coalescer = c, cl_done = False\<rparr>"

datatype loop_case = LoopEvent serf_event | LoopQuantum | LoopQuiescent | LoopShutdown

definition loop_ready :: "int \<Rightarrow> loop_case \<Rightarrow> 'c coalesce_loop \<Rightarrow> bool" where
  "loop_ready now k l \<longleftrightarrow> \<not> cl_done l
     \<and> (case k of
          LoopQuantum \<Rightarrow> (\<exists>t. cl_quantum l = Some t \<and> t \<le> now)
        | LoopQuiescent \<Rightarrow> (\<exists>t. cl_quiescent l = Some t \<and> t \<le> now)
        | _ \<Rightarrow> True)"

definition flush_loop :: "('c \<Rightarrow> 'c \<times> serf_event list) \<Rightarrow> bool \<Rightarrow> 'c coalesce_loop \<Rightarrow> 'c coalesce_loop \<times> serf_event list" where
  "flush_loop flush shutdown l =
     (let (c, out) = flush (cl_coalescer l)
      in (\<lparr>cl_quantum = None, cl_quiescent = None, cl_coalescer = c, cl_done = shutdown\<rparr>, out))"

definition coalesceLoop ::
  "(serf_event \<Rightarrow> bool) \<Rightarrow> (serf_event \<Rightarrow> 'c \<Rightarrow> 'c) \<Rightarrow> ('c \<Rightarrow> 'c \<times> serf_event list) \<Rightarrow> int \<Rightarrow> int \<Rightarrow> int \<Rightarrow> loop_case \<Rightarrow>
     'c coalesce_loop \<Rightarrow> 'c coalesce_loop \<times> serf_event list" where
  "coalesceLoop handle coalesce flush coalescePeriod quiescentPeriod now k l =
     (case k of
        LoopEvent e \<Rightarrow>
          if \<not> handle e then (l, [e])
          else (l\<lparr>cl_quantum := (case cl_quantum l of None \<Rightarrow> Some (now + coalescePeriod) | q \<Rightarrow> q),
                  cl_quiescent := Some (now + quiescentPeriod),
                  cl_coalescer := coalesce e (cl_coalescer l)\<rparr>, [])
      | LoopQuantum \<Rightarrow> flush_loop flush False l
      | LoopQuiescent \<Rightarrow> flush_loop flush False l
      | LoopShutdown \<Rightarrow> flush_loop flush True l)"

text \<open>The two coalescers behind the interface.\<close>

definition coalesce_member :: "serf_event \<Rightarrow> memberEventCoalescer \<Rightarrow> memberEventCoalescer" where
  "coalesce_member e c = (case e of SawMembers m \<Rightarrow> member_Coalesce m c | _ \<Rightarrow> c)"

definition flush_members ::
  "((string \<rightharpoonup> coalesceEvent) \<Rightarrow> string list) \<Rightarrow> ((EventType \<rightharpoonup> Member list) \<Rightarrow> EventType list) \<Rightarrow>
     memberEventCoalescer \<Rightarrow> memberEventCoalescer \<times> serf_event list" where
  "flush_members names types c = (let (c', out) = member_Flush names types c in (c', map SawMembers out))"

definition coalesce_user :: "serf_event \<Rightarrow> userEventCoalescer \<Rightarrow> userEventCoalescer" where
  "coalesce_user e c = (case e of SawUser u \<Rightarrow> user_Coalesce u c | _ \<Rightarrow> c)"

definition flush_users :: "(userEventCoalescer \<Rightarrow> string list) \<Rightarrow> userEventCoalescer \<Rightarrow> userEventCoalescer \<times> serf_event list" where
  "flush_users names c = (let (c', out) = user_Flush names c in (c', map SawUser out))"

end
