(* ===== verification/CoalesceProps.thy ===== *)
theory CoalesceProps
  imports Coalesce GoStd
begin

section \<open>What a coalescing consumer sees\<close>

text \<open>
  The locale \<open>coalescer\<close> is the interface of \<open>coalesceLoop\<close>: after a flush what was sent agrees
  with what came in. The lemma about the loop is proved once; the two coalescers are interpretations,
  for any order in which the maps are iterated.
\<close>

subsection \<open>The interface\<close>

fun loop_run ::
  "(serf_event \<Rightarrow> bool) \<Rightarrow> (serf_event \<Rightarrow> 'c \<Rightarrow> 'c) \<Rightarrow> ('c \<Rightarrow> 'c \<times> serf_event list) \<Rightarrow> int \<Rightarrow> int \<Rightarrow>
     (int \<times> loop_case) list \<Rightarrow> 'c coalesce_loop \<Rightarrow> 'c coalesce_loop \<times> serf_event list" where
  "loop_run handle coalesce flush cp qp [] l = (l, [])"
| "loop_run handle coalesce flush cp qp ((now, k) # ks) l =
     (if \<not> loop_ready now k l then loop_run handle coalesce flush cp qp ks l
      else
        (let (l1, out1) = coalesceLoop handle coalesce flush cp qp now k l;
             (l2, out2) = loop_run handle coalesce flush cp qp ks l1
         in (l2, out1 @ out2)))"

text \<open>The events a run takes in: after the shutdown none is.\<close>

fun loop_inputs :: "bool \<Rightarrow> (int \<times> loop_case) list \<Rightarrow> serf_event list" where
  "loop_inputs closed [] = []"
| "loop_inputs closed ((now, k) # ks) =
     (if closed then [] else
      case k of LoopEvent e \<Rightarrow> e # loop_inputs closed ks | LoopShutdown \<Rightarrow> loop_inputs True ks | _ \<Rightarrow> loop_inputs closed ks)"

locale coalescer =
  fixes handle :: "serf_event \<Rightarrow> bool" and coalesce :: "serf_event \<Rightarrow> 'c \<Rightarrow> 'c"
    and flush :: "'c \<Rightarrow> 'c \<times> serf_event list" and empty :: 'c
    and ok :: "serf_event \<Rightarrow> bool"
    and rel :: "serf_event list \<Rightarrow> serf_event list \<Rightarrow> 'c \<Rightarrow> bool"
    and agree :: "serf_event list \<Rightarrow> serf_event list \<Rightarrow> bool"
  assumes rel_empty: "rel [] [] empty" and agree_empty: "agree [] []"
    and coalesce_rel: "handle e \<Longrightarrow> ok e \<Longrightarrow> rel ins sent c \<Longrightarrow> rel (ins @ [e]) sent (coalesce e c)"
    and flush_rel: "rel ins sent c \<Longrightarrow> rel ins (sent @ snd (flush c)) (fst (flush c))"
    and flush_agree: "rel ins sent c \<Longrightarrow> agree ins (sent @ snd (flush c))"
    and flush_handled: "rel ins sent c \<Longrightarrow> e \<in> set (snd (flush c)) \<Longrightarrow> handle e"
begin

lemma run_agrees:
  assumes "loop_run handle coalesce flush cp qp ks l = (l', out)"
    and "\<forall>e \<in> set (loop_inputs (cl_done l) ks). handle e \<longrightarrow> ok e"
    and "rel ins sent (cl_coalescer l)" "cl_quantum l = None \<longrightarrow> agree ins sent"
  shows "filter (\<lambda>e. \<not> handle e) out = filter (\<lambda>e. \<not> handle e) (loop_inputs (cl_done l) ks)
    \<and> (cl_quantum l' = None \<longrightarrow>
        agree (ins @ filter handle (loop_inputs (cl_done l) ks)) (sent @ filter handle out))"
  using assms
proof (induction ks arbitrary: l ins sent out)
  case (Cons x ks)
  obtain now k where x: "x = (now, k)" by (cases x)
  show ?case
  proof (cases "loop_ready now k l")
    case False
    have "loop_inputs (cl_done l) (x # ks) = loop_inputs (cl_done l) ks"
      using False by (cases ks; cases k) (auto simp: x loop_ready_def)
    with Cons.IH [of l out ins sent] Cons.prems False show ?thesis by (simp add: x)
  next
    case True
    then have d: "\<not> cl_done l" by (simp add: loop_ready_def)
    obtain l1 out1 out2 where r: "coalesceLoop handle coalesce flush cp qp now k l = (l1, out1)"
      "loop_run handle coalesce flush cp qp ks l1 = (l', out2)" "out = out1 @ out2"
      using Cons.prems(1) True by (auto simp: x split: prod.splits)
    have fl: "filter (\<lambda>e. \<not> handle e) (snd (flush (cl_coalescer l))) = []"
      "filter handle (snd (flush (cl_coalescer l))) = snd (flush (cl_coalescer l))"
      using flush_handled [OF Cons.prems(3)] by (simp_all add: filter_empty_conv filter_id_conv)
    note flushed = flush_rel [OF Cons.prems(3)] flush_agree [OF Cons.prems(3)]
    show ?thesis
    proof (cases "\<exists>e. k = LoopEvent e")
      case True
      then obtain e where e: "k = LoopEvent e" ..
      show ?thesis
      proof (cases "handle e")
        case True
        have q: "cl_quantum l1 \<noteq> None" "cl_coalescer l1 = coalesce e (cl_coalescer l)" "cl_done l1 = cl_done l" "out1 = []"
          using r(1) True by (auto simp: coalesceLoop_def e split: option.splits)
        have "rel (ins @ [e]) sent (cl_coalescer l1)"
          using coalesce_rel [OF True _ Cons.prems(3)] Cons.prems(2) True d q(2) by (simp add: x e)
        from Cons.IH [OF r(2) _ this] Cons.prems(2) q d r(3) True show ?thesis by (simp add: x e)
      next
        case False
        then have q: "l1 = l" "out1 = [e]" using r(1) by (simp_all add: coalesceLoop_def e)
        from Cons.IH [of l out2 ins sent] Cons.prems r(2,3) q d False show ?thesis by (simp add: x e)
      qed
    next
      case False
      have q: "cl_quantum l1 = None" "cl_coalescer l1 = fst (flush (cl_coalescer l))" "out1 = snd (flush (cl_coalescer l))"
        using r(1) False by (cases k; auto simp: coalesceLoop_def flush_loop_def split: prod.splits)+
      have dn: "cl_done l1 = (k = LoopShutdown)"
        using r(1) False by (cases k) (auto simp: coalesceLoop_def flush_loop_def split: prod.splits)
      have i: "loop_inputs (cl_done l) (x # ks) = loop_inputs (cl_done l1) ks"
        using False d by (cases k) (simp_all add: x dn)
      from Cons.IH [OF r(2), of ins "sent @ out1"] Cons.prems(2) flushed q r(3) fl show ?thesis
        unfolding i by simp
    qed
  qed
qed simp

lemma new_run_agrees:
  assumes "loop_run handle coalesce flush cp qp ks (new_loop empty) = (l', out)"
    and "\<forall>e \<in> set (loop_inputs False ks). handle e \<longrightarrow> ok e"
  shows "filter (\<lambda>e. \<not> handle e) out = filter (\<lambda>e. \<not> handle e) (loop_inputs False ks)
    \<and> (cl_quantum l' = None \<longrightarrow> agree (filter handle (loop_inputs False ks)) (filter handle out))"
  using run_agrees [OF assms(1), of "[]" "[]"] assms(2) rel_empty agree_empty by (simp add: new_loop_def)

end

subsection \<open>Any order of iteration\<close>

text \<open>Sorting by an arbitrary key gives any order there is.\<close>

definition enum_names :: "((string \<rightharpoonup> 'a) \<Rightarrow> string \<Rightarrow> nat) \<Rightarrow> (string \<rightharpoonup> 'a) \<Rightarrow> string list" where
  "enum_names f m = sort_key (f m) (sorted_list_of_set (dom m))"

definition enum_types :: "((EventType \<rightharpoonup> 'a) \<Rightarrow> EventType \<Rightarrow> nat) \<Rightarrow> (EventType \<rightharpoonup> 'a) \<Rightarrow> EventType list" where
  "enum_types g m = sort_key (g m) (filter (\<lambda>t. m t \<noteq> None)
     [EventMemberJoin, EventMemberLeave, EventMemberFailed, EventMemberUpdate, EventMemberReap, EventUser, EventQuery])"

lemma enum_names_set: "finite (dom m) \<Longrightarrow> set (enum_names f m) = dom m \<and> distinct (enum_names f m)"
  by (simp add: enum_names_def)

lemma enum_types_set: "set (enum_types g m) = dom m"
proof (rule set_eqI)
  fix t
  show "t \<in> set (enum_types g m) \<longleftrightarrow> t \<in> dom m" by (cases t) (simp_all add: enum_types_def domIff)
qed

subsection \<open>Members\<close>

text \<open>The changes that events report, and the last one for a name.\<close>

definition changes :: "serf_event list \<Rightarrow> (string \<times> EventType \<times> Member) list" where
  "changes es = concat (map (\<lambda>e. case e of
     SawMembers me \<Rightarrow> map (\<lambda>m. (m_Name m, me_Type me, m)) (me_Members me) | _ \<Rightarrow> []) es)"

definition last_change :: "serf_event list \<Rightarrow> string \<Rightarrow> (EventType \<times> Member) option" where
  "last_change es n = map_of (rev (changes es)) n"

lemma changes_append: "changes (xs @ ys) = changes xs @ changes ys"
  by (simp add: changes_def)

lemma last_change_append:
  "last_change (xs @ ys) n = (case last_change ys n of Some x \<Rightarrow> Some x | None \<Rightarrow> last_change xs n)"
  unfolding last_change_def by (simp add: changes_append map_add_def)

lemma last_change_name: "last_change es n = Some (t, m) \<Longrightarrow> m_Name m = n"
  by (auto simp: last_change_def changes_def dest!: map_of_SomeD split: serf_event.splits)

lemma map_of_constant: "n \<in> fst ` set xs \<Longrightarrow> \<forall>v. (n, v) \<in> set xs \<longrightarrow> v = w \<Longrightarrow> map_of xs n = Some w"
  by (metis domD dom_map_of_conv_image_fst map_of_SomeD)

definition single_member :: "serf_event \<Rightarrow> bool" where
  "single_member e \<longleftrightarrow> (case e of SawMembers me \<Rightarrow> length (me_Members me) = 1 | _ \<Rightarrow> True)"

definition member_rel :: "serf_event list \<Rightarrow> serf_event list \<Rightarrow> memberEventCoalescer \<Rightarrow> bool" where
  "member_rel ins sent c \<longleftrightarrow> finite (dom (mc_latestEvents c))
     \<and> (\<forall>e \<in> set ins. member_Handle e)
     \<and> (\<forall>n. mc_latestEvents c n = map_option (\<lambda>(t, m). \<lparr>ce_Type = t, ce_Member = m\<rparr>) (last_change ins n))
     \<and> (\<forall>n. mc_lastEvents c n = map_option fst (last_change sent n))
     \<and> dom (mc_lastEvents c) \<subseteq> dom (mc_latestEvents c) \<and> set (changes sent) \<subseteq> set (changes ins)"

text \<open>
  A consumer of what was sent has the same last event for a member as one of what came in. If it is not
  an update, it can be an earlier one of its kind, with the data the member had then.
\<close>

definition same_last :: "serf_event list \<Rightarrow> serf_event list \<Rightarrow> string \<Rightarrow> bool" where
  "same_last ins sent n \<longleftrightarrow>
     map_option fst (last_change sent n) = map_option fst (last_change ins n)
     \<and> (last_change sent n = last_change ins n
        \<or> (\<exists>t m. last_change sent n = Some (t, m) \<and> t \<noteq> EventMemberUpdate \<and> (n, t, m) \<in> set (changes ins)))"

definition member_agree :: "serf_event list \<Rightarrow> serf_event list \<Rightarrow> bool" where
  "member_agree ins sent \<longleftrightarrow> (\<forall>n. same_last ins sent n)"

lemma last_change_in: "last_change es n = Some (t, m) \<Longrightarrow> (n, t, m) \<in> set (changes es)"
  by (auto simp: last_change_def dest: map_of_SomeD)

definition emits :: "memberEventCoalescer \<Rightarrow> string \<Rightarrow> bool" where
  "emits c n \<longleftrightarrow> \<not> (mc_lastEvents c n = Some (ce_Type (the (mc_latestEvents c n)))
     \<and> ce_Type (the (mc_latestEvents c n)) \<noteq> EventMemberUpdate)"

lemma flush_member_pair:
  "flush_member (mc_latestEvents c) n (le, ev) =
     (let t = ce_Type (the (mc_latestEvents c n)) in
      if le n = Some t \<and> t \<noteq> EventMemberUpdate then (le, ev)
      else (le(n \<mapsto> t), ev(t \<mapsto> (case ev t of Some ms \<Rightarrow> ms | None \<Rightarrow> []) @ [ce_Member (the (mc_latestEvents c n))])))"
  by (simp add: flush_member_def Let_def)

lemma flush_fold:
  assumes "distinct ns"
  shows "fold (flush_member (mc_latestEvents c)) ns (mc_lastEvents c, Map.empty) =
    (\<lambda>n. if n \<in> set ns \<and> emits c n then Some (ce_Type (the (mc_latestEvents c n))) else mc_lastEvents c n,
     \<lambda>t. (let xs = filter (\<lambda>n. emits c n \<and> ce_Type (the (mc_latestEvents c n)) = t) ns
          in if xs = [] then None else Some (map (\<lambda>n. ce_Member (the (mc_latestEvents c n))) xs)))"
  using assms
proof (induction ns rule: rev_induct)
  case (snoc n ns)
  then have ih: "fold (flush_member (mc_latestEvents c)) ns (mc_lastEvents c, Map.empty) =
    (\<lambda>n. if n \<in> set ns \<and> emits c n then Some (ce_Type (the (mc_latestEvents c n))) else mc_lastEvents c n,
     \<lambda>t. (let xs = filter (\<lambda>n. emits c n \<and> ce_Type (the (mc_latestEvents c n)) = t) ns
          in if xs = [] then None else Some (map (\<lambda>n. ce_Member (the (mc_latestEvents c n))) xs)))"
    and n: "n \<notin> set ns" by simp_all
  show ?case
  proof (cases "emits c n")
    case True
    then have e: "mc_lastEvents c n \<noteq> Some (ce_Type (the (mc_latestEvents c n))) \<or>
        ce_Type (the (mc_latestEvents c n)) = EventMemberUpdate" by (auto simp: emits_def)
    show ?thesis
      unfolding fold_append fold_simps comp_def ih flush_member_pair
      using n True e by (auto simp: Let_def fun_eq_iff)
  next
    case False
    then have e: "mc_lastEvents c n = Some (ce_Type (the (mc_latestEvents c n)))"
      "ce_Type (the (mc_latestEvents c n)) \<noteq> EventMemberUpdate" by (auto simp: emits_def)
    show ?thesis
      unfolding fold_append fold_simps comp_def ih flush_member_pair
      using n False e by (auto simp: Let_def fun_eq_iff)
  qed
qed (simp add: fun_eq_iff)

lemma member_Flush_eq:
  fixes f :: "(string \<rightharpoonup> coalesceEvent) \<Rightarrow> string \<Rightarrow> nat"
  assumes "finite (dom (mc_latestEvents c))"
  defines "emitted \<equiv> filter (emits c) (enum_names f (mc_latestEvents c))"
  shows "\<exists>events. member_Flush (enum_names f) (enum_types g) c =
      (c\<lparr>mc_lastEvents := (\<lambda>n. if n \<in> set emitted then Some (ce_Type (the (mc_latestEvents c n))) else mc_lastEvents c n)\<rparr>,
       map (\<lambda>t. \<lparr>me_Type = t, me_Members = the (events t)\<rparr>) (enum_types g events))
    \<and> (\<forall>t. events t = (let xs = filter (\<lambda>n. ce_Type (the (mc_latestEvents c n)) = t) emitted
          in if xs = [] then None else Some (map (\<lambda>n. ce_Member (the (mc_latestEvents c n))) xs)))"
proof -
  have "distinct (enum_names f (mc_latestEvents c))" using enum_names_set [OF assms(1)] by blast
  note fold = flush_fold [OF this]
  let ?events = "\<lambda>t. (let xs = filter (\<lambda>n. emits c n \<and> ce_Type (the (mc_latestEvents c n)) = t) (enum_names f (mc_latestEvents c))
          in if xs = [] then None else Some (map (\<lambda>n. ce_Member (the (mc_latestEvents c n))) xs))"
  show ?thesis
    by (intro exI [of _ ?events] conjI) (simp_all add: member_Flush_def emitted_def fold Let_def conj_commute)
qed

lemma member_flush_changes:
  assumes rel: "member_rel ins sent c"
  shows "last_change (snd (flush_members (enum_names f) (enum_types g) c)) n =
    (if n \<in> dom (mc_latestEvents c) \<and> emits c n then last_change ins n else None)"
    and "\<forall>e \<in> set (snd (flush_members (enum_names f) (enum_types g) c)). member_Handle e"
    and "mc_lastEvents (fst (flush_members (enum_names f) (enum_types g) c)) n =
      (if n \<in> dom (mc_latestEvents c) \<and> emits c n then map_option fst (last_change ins n) else mc_lastEvents c n)"
    and "mc_latestEvents (fst (flush_members (enum_names f) (enum_types g) c)) = mc_latestEvents c"
    and "set (changes (snd (flush_members (enum_names f) (enum_types g) c))) \<subseteq> set (changes ins)"
proof -
  let ?emitted = "filter (emits c) (enum_names f (mc_latestEvents c))"
  have fin: "finite (dom (mc_latestEvents c))" using rel by (simp add: member_rel_def)
  have set: "set ?emitted = {n. n \<in> dom (mc_latestEvents c) \<and> emits c n}"
    using enum_names_set [OF fin] by auto
  have latest: "last_change ins n = Some (ce_Type (the (mc_latestEvents c n)), ce_Member (the (mc_latestEvents c n)))
      \<and> m_Name (ce_Member (the (mc_latestEvents c n))) = n" if "n \<in> dom (mc_latestEvents c)" for n
    using rel that last_change_name by (fastforce simp: member_rel_def)
  obtain events where ev: "member_Flush (enum_names f) (enum_types g) c =
      (c\<lparr>mc_lastEvents := (\<lambda>n. if n \<in> set ?emitted then Some (ce_Type (the (mc_latestEvents c n))) else mc_lastEvents c n)\<rparr>,
       map (\<lambda>t. \<lparr>me_Type = t, me_Members = the (events t)\<rparr>) (enum_types g events))"
    "\<And>t. events t = (let xs = filter (\<lambda>n. ce_Type (the (mc_latestEvents c n)) = t) ?emitted
          in if xs = [] then None else Some (map (\<lambda>n. ce_Member (the (mc_latestEvents c n))) xs))"
    using member_Flush_eq [OF fin] by blast
  let ?out = "snd (flush_members (enum_names f) (enum_types g) c)"
  have out: "?out = map (\<lambda>t. SawMembers \<lparr>me_Type = t, me_Members = the (events t)\<rparr>) (enum_types g events)"
    using ev(1) by (simp add: flush_members_def)
  have mem: "(n', t, m) \<in> set (changes ?out) \<longleftrightarrow>
      n' \<in> set ?emitted \<and> t = ce_Type (the (mc_latestEvents c n')) \<and> m = ce_Member (the (mc_latestEvents c n'))" for n' t m
  proof -
    have "(n', t, m) \<in> set (changes ?out) \<longleftrightarrow>
        (\<exists>ms. events t = Some ms \<and> m \<in> set ms \<and> n' = m_Name m)"
      unfolding out changes_def using enum_types_set [of g events] by (auto intro!: bexI [of _ t])
    also have "\<dots> \<longleftrightarrow> (\<exists>k \<in> set ?emitted. ce_Type (the (mc_latestEvents c k)) = t
        \<and> m = ce_Member (the (mc_latestEvents c k)) \<and> n' = m_Name m)"
      unfolding ev(2) by (auto simp: Let_def filter_empty_conv)
    also have "\<dots> \<longleftrightarrow> n' \<in> set ?emitted \<and> t = ce_Type (the (mc_latestEvents c n')) \<and> m = ce_Member (the (mc_latestEvents c n'))"
      using latest set by fastforce
    finally show ?thesis .
  qed
  show "last_change ?out n = (if n \<in> dom (mc_latestEvents c) \<and> emits c n then last_change ins n else None)"
  proof (cases "n \<in> set ?emitted")
    case True
    have "last_change ?out n = Some (ce_Type (the (mc_latestEvents c n)), ce_Member (the (mc_latestEvents c n)))"
      unfolding last_change_def using mem True by (intro map_of_constant) force+
    with True latest [of n] enum_names_set [OF fin, of f] show ?thesis by simp
  next
    case False
    then have "n \<notin> fst ` set (changes ?out)" using mem by force
    then have "last_change ?out n = None" by (simp add: last_change_def map_of_eq_None_iff)
    with False enum_names_set [OF fin, of f] show ?thesis by auto
  qed
  have "t \<in> set (enum_types g events) \<Longrightarrow> \<exists>k \<in> dom (mc_latestEvents c). ce_Type (the (mc_latestEvents c k)) = t" for t
    using enum_types_set [of g events] ev(2) [of t] set
    by (fastforce simp: Let_def filter_empty_conv split: if_splits)
  moreover have "member_Handle (SawMembers \<lparr>me_Type = ce_Type (the (mc_latestEvents c k)), me_Members = ms\<rparr>)"
    if "k \<in> dom (mc_latestEvents c)" for k ms
  proof -
    have "(k, ce_Type (the (mc_latestEvents c k)), ce_Member (the (mc_latestEvents c k))) \<in> set (changes ins)"
      using latest [OF that] by (auto simp: last_change_def dest: map_of_SomeD)
    then obtain me where "SawMembers me \<in> set ins" "me_Type me = ce_Type (the (mc_latestEvents c k))"
      by (auto simp: changes_def split: serf_event.splits)
    with rel show ?thesis by (fastforce simp: member_rel_def member_Handle_def)
  qed
  ultimately show "\<forall>e \<in> set ?out. member_Handle e" unfolding out by fastforce
  show "mc_lastEvents (fst (flush_members (enum_names f) (enum_types g) c)) n =
      (if n \<in> dom (mc_latestEvents c) \<and> emits c n then map_option fst (last_change ins n) else mc_lastEvents c n)"
    using ev(1) enum_names_set [OF fin, of f] latest [of n] by (simp add: flush_members_def)
  show "mc_latestEvents (fst (flush_members (enum_names f) (enum_types g) c)) = mc_latestEvents c"
    using ev(1) by (simp add: flush_members_def)
  show "set (changes ?out) \<subseteq> set (changes ins)"
  proof
    fix x
    assume "x \<in> set (changes ?out)"
    moreover obtain k t m where x: "x = (k, t, m)" by (cases x)
    ultimately have k: "k \<in> set ?emitted" and v: "t = ce_Type (the (mc_latestEvents c k))" "m = ce_Member (the (mc_latestEvents c k))"
      using mem [of k t m] by simp_all
    from k have "k \<in> dom (mc_latestEvents c)" unfolding set by blast
    with latest [of k] v have "last_change ins k = Some (t, m)" by blast
    then show "x \<in> set (changes ins)" unfolding x by (rule last_change_in)
  qed
qed

lemma member_Coalesce_latest:
  assumes "me_Members e = [m]"
  shows "mc_latestEvents (member_Coalesce e c) = (mc_latestEvents c)(m_Name m \<mapsto> \<lparr>ce_Type = me_Type e, ce_Member = m\<rparr>)"
  using assms by (simp add: member_Coalesce_def)

interpretation members: coalescer member_Handle coalesce_member "flush_members (enum_names f) (enum_types g)"
  new_memberEventCoalescer single_member member_rel member_agree for f g
proof unfold_locales
  show "member_rel [] [] new_memberEventCoalescer"
    by (simp add: member_rel_def new_memberEventCoalescer_def last_change_def changes_def)
  show "member_agree [] []" by (simp add: member_agree_def same_last_def)
next
  fix e ins sent c
  assume e: "member_Handle e" "single_member e" and rel: "member_rel ins sent c"
  then obtain me m where me: "e = SawMembers me" "me_Members me = [m]"
    by (cases e) (auto simp: member_Handle_def single_member_def length_Suc_conv)
  have "last_change [e] n = (if n = m_Name m then Some (me_Type me, m) else None)" for n
    by (simp add: last_change_def changes_def me)
  note one = this
  have c: "mc_latestEvents (coalesce_member e c) = (mc_latestEvents c)(m_Name m \<mapsto> \<lparr>ce_Type = me_Type me, ce_Member = m\<rparr>)"
    "mc_lastEvents (coalesce_member e c) = mc_lastEvents c"
    by (simp_all add: coalesce_member_def me(1) member_Coalesce_latest [OF me(2)]) (simp add: member_Coalesce_def)
  have "dom (mc_lastEvents c) \<subseteq> insert (m_Name m) (dom (mc_latestEvents c))" using rel by (auto simp: member_rel_def)
  moreover have "finite (dom (mc_latestEvents c))" "\<forall>e \<in> set (ins @ [e]). member_Handle e"
    "\<forall>n. mc_lastEvents c n = map_option fst (last_change sent n)"
    using rel e(1) by (simp_all add: member_rel_def)
  moreover have "set (changes sent) \<subseteq> set (changes (ins @ [e]))"
    using rel by (auto simp: member_rel_def changes_append)
  moreover have "((mc_latestEvents c)(m_Name m \<mapsto> \<lparr>ce_Type = me_Type me, ce_Member = m\<rparr>)) n =
      map_option (\<lambda>(t, m). \<lparr>ce_Type = t, ce_Member = m\<rparr>) (last_change (ins @ [e]) n)" for n
    using rel one [of n] by (simp add: member_rel_def last_change_append me(1))
  ultimately show "member_rel (ins @ [e]) sent (coalesce_member e c)"
    unfolding member_rel_def c by simp
next
  fix ins sent c
  assume rel: "member_rel ins sent c"
  let ?r = "flush_members (enum_names f) (enum_types g) c"
  have dom: "dom (mc_lastEvents c) \<subseteq> dom (mc_latestEvents c)" using rel by (simp add: member_rel_def)
  have dom': "dom (mc_lastEvents (fst ?r)) \<subseteq> dom (mc_latestEvents (fst ?r))"
  proof
    fix n
    assume "n \<in> dom (mc_lastEvents (fst ?r))"
    then have "n \<in> dom (mc_latestEvents c) \<or> n \<in> dom (mc_lastEvents c)"
      unfolding domIff member_flush_changes(3) [OF rel] by (auto split: if_splits)
    then show "n \<in> dom (mc_latestEvents (fst ?r))" using dom by (auto simp: member_flush_changes(4) [OF rel])
  qed
  have last: "mc_lastEvents (fst ?r) n = map_option fst (last_change (sent @ snd ?r) n)"
    "same_last ins (sent @ snd ?r) n" for n
  proof -
    have known: "mc_lastEvents c n \<noteq> None \<Longrightarrow> mc_latestEvents c n \<noteq> None"
      using dom by blast
    have latest: "mc_latestEvents c n = map_option (\<lambda>(t, m). \<lparr>ce_Type = t, ce_Member = m\<rparr>) (last_change ins n)"
      "mc_lastEvents c n = map_option fst (last_change sent n)" using rel by (simp_all add: member_rel_def)
    show "mc_lastEvents (fst ?r) n = map_option fst (last_change (sent @ snd ?r) n)"
      using latest unfolding last_change_append member_flush_changes [OF rel] by (auto split: option.splits)
    show "same_last ins (sent @ snd ?r) n"
    proof (cases "n \<in> dom (mc_latestEvents c) \<and> emits c n")
      case True
      with latest show ?thesis
        unfolding same_last_def last_change_append member_flush_changes(1) [OF rel] by (auto split: option.splits)
    next
      case False
      then have s: "last_change (sent @ snd ?r) n = last_change sent n"
        unfolding last_change_append member_flush_changes(1) [OF rel] by auto
      show ?thesis
      proof (cases "mc_latestEvents c n")
        case None
        with known have "mc_lastEvents c n = None" by blast
        with latest None have "last_change sent n = None" "last_change ins n = None" by simp_all
        then show ?thesis by (simp add: same_last_def s)
      next
        case (Some x)
        with False have x: "mc_lastEvents c n = Some (ce_Type x)" "ce_Type x \<noteq> EventMemberUpdate"
          by (auto simp: emits_def)
        then obtain m where m: "last_change sent n = Some (ce_Type x, m)" using latest(2) by auto
        have "map_option fst (last_change ins n) = Some (ce_Type x)"
          using latest(1) Some by (cases "last_change ins n") auto
        moreover have "(n, ce_Type x, m) \<in> set (changes ins)"
          using last_change_in [OF m] rel by (auto simp: member_rel_def)
        ultimately show ?thesis using m x(2) by (auto simp: same_last_def s)
      qed
    qed
  qed
  then show "member_rel ins (sent @ snd ?r) (fst ?r)" and "member_agree ins (sent @ snd ?r)"
    using rel dom' member_flush_changes(5) [OF rel, of f g]
    by (auto simp: member_rel_def member_agree_def member_flush_changes(4) [OF rel] changes_append)
next
  fix ins sent c e
  assume "member_rel ins sent c" "e \<in> set (snd (flush_members (enum_names f) (enum_types g) c))"
  then show "member_Handle e" using member_flush_changes(2) by blast
qed

subsection \<open>User events\<close>

text \<open>The newest of the events that share a name; there may be several.\<close>

definition newest :: "serf_event list \<Rightarrow> UserEvent \<Rightarrow> bool" where
  "newest es u \<longleftrightarrow> SawUser u \<in> set es
     \<and> (\<forall>u'. SawUser u' \<in> set es \<longrightarrow> uev_Name u' = uev_Name u \<longrightarrow> uev_LTime u' \<le> uev_LTime u)"

definition user_agree :: "serf_event list \<Rightarrow> serf_event list \<Rightarrow> bool" where
  "user_agree ins sent \<longleftrightarrow> set sent \<subseteq> set ins \<and> (\<forall>u. newest ins u \<longrightarrow> SawUser u \<in> set sent)"

definition user_rel :: "serf_event list \<Rightarrow> serf_event list \<Rightarrow> userEventCoalescer \<Rightarrow> bool" where
  "user_rel ins sent c \<longleftrightarrow> finite (dom c) \<and> set sent \<subseteq> set ins \<and> (\<forall>e \<in> set ins. user_Handle e)
     \<and> (\<forall>n l u. c n = Some l \<longrightarrow> u \<in> set (lu_Events l) \<longrightarrow>
          uev_Name u = n \<and> uev_LTime u = lu_LTime l \<and> SawUser u \<in> set ins)
     \<and> (\<forall>n l. c n = Some l \<longrightarrow> lu_Events l \<noteq> [])
     \<and> (\<forall>u. newest ins u \<longrightarrow> SawUser u \<in> set sent \<or> (\<exists>l. c (uev_Name u) = Some l \<and> u \<in> set (lu_Events l)))"

lemma newest_snoc:
  "newest (ins @ [SawUser v]) u \<Longrightarrow>
     (u = v \<or> newest ins u) \<and> (uev_Name u = uev_Name v \<longrightarrow> uev_LTime v \<le> uev_LTime u)"
  by (auto simp: newest_def)

lemma flush_users_set:
  assumes "finite (dom c)"
  shows "set (snd (flush_users (enum_names f) c)) = {SawUser u | u n l. c n = Some l \<and> u \<in> set (lu_Events l)}"
  using enum_names_set [OF assms, of f] by (fastforce simp: flush_users_def user_Flush_def)

interpretation users: coalescer user_Handle coalesce_user "flush_users (enum_names f)" Map.empty "\<lambda>_. True" user_rel user_agree
  for f
proof unfold_locales
  show "user_rel [] [] Map.empty" "user_agree [] []" by (simp_all add: user_rel_def user_agree_def newest_def)
next
  fix e ins sent c
  assume e: "user_Handle e" and rel: "user_rel ins sent c"
  then obtain v where v: "e = SawUser v" by (cases e) (simp_all add: user_Handle_def)
  let ?c = "user_Coalesce v c"
  have other: "?c n = c n" if "n \<noteq> uev_Name v" for n
    using that by (simp add: user_Coalesce_def split: option.splits)
  have r: "\<And>n l u. c n = Some l \<Longrightarrow> u \<in> set (lu_Events l) \<Longrightarrow> uev_Name u = n \<and> uev_LTime u = lu_LTime l \<and> SawUser u \<in> set ins"
    "\<And>n l. c n = Some l \<Longrightarrow> lu_Events l \<noteq> []"
    "\<And>u. newest ins u \<Longrightarrow> SawUser u \<in> set sent \<or> (\<exists>l. c (uev_Name u) = Some l \<and> u \<in> set (lu_Events l))"
    using rel unfolding user_rel_def by blast+
  have mine: "\<exists>l. ?c (uev_Name v) = Some l \<and> lu_Events l \<noteq> [] \<and> (\<forall>u \<in> set (lu_Events l). uev_Name u = uev_Name v
      \<and> uev_LTime u = lu_LTime l \<and> SawUser u \<in> set (ins @ [e])) \<and> uev_LTime v \<le> lu_LTime l
      \<and> (uev_LTime v = lu_LTime l \<longrightarrow> v \<in> set (lu_Events l))
      \<and> (\<forall>l0 u. c (uev_Name v) = Some l0 \<longrightarrow> u \<in> set (lu_Events l0) \<longrightarrow> uev_LTime v \<le> uev_LTime u \<longrightarrow> u \<in> set (lu_Events l))"
  proof (cases "c (uev_Name v)")
    case None
    then show ?thesis by (simp add: user_Coalesce_def v)
  next
    case (Some l0)
    have old: "lu_Events l0 \<noteq> []" "\<forall>u \<in> set (lu_Events l0). uev_Name u = uev_Name v \<and> uev_LTime u = lu_LTime l0 \<and> SawUser u \<in> set ins"
      using rel Some by (auto simp: user_rel_def)
    consider "lu_LTime l0 < uev_LTime v" | "lu_LTime l0 = uev_LTime v" | "uev_LTime v < lu_LTime l0" by fastforce
    then show ?thesis
    proof cases
      case 1
      then have "\<not> uev_LTime v \<le> lu_LTime l0" by simp
      with 1 old(2) Some show ?thesis by (auto simp: user_Coalesce_def v)
    next
      case 2
      with old Some show ?thesis by (auto simp: user_Coalesce_def v)
    next
      case 3
      then have "\<not> lu_LTime l0 < uev_LTime v" "lu_LTime l0 \<noteq> uev_LTime v" "uev_LTime v \<noteq> lu_LTime l0" "uev_LTime v \<le> lu_LTime l0"
        by auto
      with old Some show ?thesis by (auto simp: user_Coalesce_def v)
    qed
  qed
  have "SawUser u \<in> set sent \<or> (\<exists>l. ?c (uev_Name u) = Some l \<and> u \<in> set (lu_Events l))" if u: "newest (ins @ [e]) u" for u
  proof (cases "uev_Name u = uev_Name v")
    case True
    from newest_snoc [OF u [unfolded v]] True have u': "u = v \<or> newest ins u" "uev_LTime v \<le> uev_LTime u" by simp_all
    show ?thesis
    proof (cases "u = v")
      case u_v: True
      obtain l where l: "?c (uev_Name v) = Some l" "lu_Events l \<noteq> []" "uev_LTime v \<le> lu_LTime l"
        "\<forall>u \<in> set (lu_Events l). uev_Name u = uev_Name v \<and> uev_LTime u = lu_LTime l \<and> SawUser u \<in> set (ins @ [e])"
        "uev_LTime v = lu_LTime l \<longrightarrow> v \<in> set (lu_Events l)"
        using mine by blast
      obtain w where w: "w \<in> set (lu_Events l)" using l(2) by (cases "lu_Events l") auto
      then have "lu_LTime l \<le> uev_LTime v" using u u_v l(4) by (fastforce simp: newest_def)
      then have "v \<in> set (lu_Events l)" using l(3,5) by simp
      with l(1) u_v show ?thesis by simp
    next
      case False
      then have "newest ins u" using u'(1) by simp
      from r(3) [OF this] have "SawUser u \<in> set sent \<or> (\<exists>l. c (uev_Name v) = Some l \<and> u \<in> set (lu_Events l))"
        using True by simp
      then show ?thesis
      proof
        assume "\<exists>l. c (uev_Name v) = Some l \<and> u \<in> set (lu_Events l)"
        then obtain l0 where l0: "c (uev_Name v) = Some l0" "u \<in> set (lu_Events l0)" by blast
        obtain l where l: "?c (uev_Name v) = Some l"
          "\<forall>l0 u. c (uev_Name v) = Some l0 \<longrightarrow> u \<in> set (lu_Events l0) \<longrightarrow> uev_LTime v \<le> uev_LTime u \<longrightarrow> u \<in> set (lu_Events l)"
          using mine by blast
        with l0 u'(2) True show ?thesis by simp
      qed simp
    qed
  next
    case False
    with newest_snoc [OF u [unfolded v]] have "newest ins u" by auto
    from r(3) [OF this] other [OF False] show ?thesis by simp
  qed
  moreover have "uev_Name u = n \<and> uev_LTime u = lu_LTime l \<and> SawUser u \<in> set (ins @ [e])"
    if n: "?c n = Some l" "u \<in> set (lu_Events l)" for n l u
  proof (cases "n = uev_Name v")
    case True
    from mine obtain l' where l': "?c (uev_Name v) = Some l'" "\<forall>u \<in> set (lu_Events l'). uev_Name u = uev_Name v
      \<and> uev_LTime u = lu_LTime l' \<and> SawUser u \<in> set (ins @ [e])" by blast
    with n True have "l' = l" by simp
    with l'(2) n(2) True show ?thesis by blast
  next
    case False
    with r(1) [of n l u] n other [of n] show ?thesis by simp
  qed
  moreover have "lu_Events l \<noteq> []" if n: "?c n = Some l" for n l
  proof (cases "n = uev_Name v")
    case True
    from mine obtain l' where "?c (uev_Name v) = Some l'" "lu_Events l' \<noteq> []" by blast
    with n True show ?thesis by simp
  next
    case False
    with r(2) [of n l] n other [of n] show ?thesis by simp
  qed
  moreover have "dom ?c \<subseteq> insert (uev_Name v) (dom c)" using other by (auto simp: domIff)
  then have "finite (dom ?c)" using rel by (auto simp: user_rel_def intro: finite_subset)
  ultimately show "user_rel (ins @ [e]) sent (coalesce_user e c)"
    using rel e unfolding user_rel_def by (simp add: coalesce_user_def v subset_insertI2)
next
  fix ins sent c
  assume rel: "user_rel ins sent c"
  then have fin: "finite (dom c)" by (simp add: user_rel_def)
  have "fst (flush_users (enum_names f) c) = Map.empty" by (simp add: flush_users_def user_Flush_def)
  with rel show "user_rel ins (sent @ snd (flush_users (enum_names f) c)) (fst (flush_users (enum_names f) c))"
    "user_agree ins (sent @ snd (flush_users (enum_names f) c))"
    by (auto simp: user_rel_def user_agree_def flush_users_set [OF fin]) 
next
  fix ins sent c e
  assume "user_rel ins sent c" "e \<in> set (snd (flush_users (enum_names f) c))"
  then show "user_Handle e"
    using flush_users_set [of c f] by (auto simp: user_rel_def)
qed

subsection \<open>Properties\<close>

definition demo_mem :: "string \<Rightarrow> Member" where
  "demo_mem n = \<lparr>m_Name = n, m_Addr = [10, 0, 0, 1], m_Port = 7946, m_Tags = Map.empty, m_Status = StatusAlive,
     m_ProtocolMin = 1, m_ProtocolMax = 2, m_ProtocolCur = 2, m_DelegateMin = 2, m_DelegateMax = 4, m_DelegateCur = 4\<rparr>"

definition demo_changes :: "(int \<times> loop_case) list" where
  "demo_changes =
     [(0, LoopEvent (SawMembers \<lparr>me_Type = EventMemberJoin, me_Members = [demo_mem ''web1'']\<rparr>)),
      (1, LoopEvent (SawMembers \<lparr>me_Type = EventMemberFailed, me_Members = [demo_mem ''web1'']\<rparr>)),
      (9, LoopQuiescent)]"

definition demo_user_events :: "(int \<times> loop_case) list" where
  "demo_user_events =
     [(0, LoopEvent (SawUser \<lparr>uev_LTime = 4, uev_Name = ''deploy'', uev_Payload = [1], uev_Coalesce = True\<rparr>)),
      (1, LoopEvent (SawUser \<lparr>uev_LTime = 3, uev_Name = ''deploy'', uev_Payload = [2], uev_Coalesce = True\<rparr>)),
      (9, LoopQuiescent)]"

text \<open>C32: Coalescing member events keeps the last word on every member. However events and timers interleave, and
  whatever order the maps are iterated in, events that are not about members pass through at once and in order; and
  whenever nothing is being held back, a consumer of the coalesced events has seen, for every member, the same kind of
  event last as a consumer of all of them. It is the last event itself, with the data of the member in
  it, or it is not an update and an earlier event of that kind: that kind was sent last, and is not sent again.
  Every event names one member, as all that Serf sends do.\<close>

theorem member_coalescing_keeps_last_event:
  assumes "loop_run member_Handle coalesce_member (flush_members (enum_names f) (enum_types g)) cp qp ks
      (new_loop new_memberEventCoalescer) = (l, out)"
    and "\<forall>e \<in> set (loop_inputs False ks). member_Handle e \<longrightarrow> single_member e"
  defines "sent \<equiv> filter member_Handle out" and "came \<equiv> filter member_Handle (loop_inputs False ks)"
  shows "filter (\<lambda>e. \<not> member_Handle e) out = filter (\<lambda>e. \<not> member_Handle e) (loop_inputs False ks) \<and>
    (cl_quantum l = None \<longrightarrow> (\<forall>n.
      map_option fst (last_change sent n) = map_option fst (last_change came n)
      \<and> (last_change sent n = last_change came n
         \<or> (\<exists>t m. last_change sent n = Some (t, m) \<and> t \<noteq> EventMemberUpdate \<and> (n, t, m) \<in> set (changes came)))))"
  using members.new_run_agrees [OF assms(1,2)] by (simp add: member_agree_def same_last_def sent_def came_def)

text \<open>A member that fails and comes back with new data within the quantum is not reported: the consumer keeps the old data.\<close>

lemma rejoin_with_new_data_is_not_sent:
  assumes "m_Name old = n" "m_Name new = n"
  defines "c \<equiv> \<lparr>mc_lastEvents = [n \<mapsto> EventMemberJoin], mc_latestEvents = [n \<mapsto> \<lparr>ce_Type = EventMemberJoin, ce_Member = old\<rparr>]\<rparr>"
  shows "snd (member_Flush (enum_names f) (enum_types g)
      (member_Coalesce \<lparr>me_Type = EventMemberJoin, me_Members = [new]\<rparr>
        (member_Coalesce \<lparr>me_Type = EventMemberFailed, me_Members = [old]\<rparr> c))) = []"
  using assms(1,2)
  by (simp add: c_def member_Coalesce_def member_Flush_def enum_names_def enum_types_def flush_member_def)

theorem member_coalescing_keeps_last_event_witness:
  "\<exists>l out. loop_run member_Handle coalesce_member (flush_members (enum_names (\<lambda>_ _. 0)) (enum_types (\<lambda>_ _. 0))) 10 2 demo_changes
      (new_loop new_memberEventCoalescer) = (l, out)
    \<and> cl_quantum l = None \<and> map_option fst (last_change (filter member_Handle out) ''web1'') = Some EventMemberFailed"
proof -
  obtain l out where r: "loop_run member_Handle coalesce_member (flush_members (enum_names (\<lambda>_ _. 0)) (enum_types (\<lambda>_ _. 0))) 10 2
      demo_changes (new_loop new_memberEventCoalescer) = (l, out)" by fastforce
  have i: "loop_inputs False demo_changes =
      [SawMembers \<lparr>me_Type = EventMemberJoin, me_Members = [demo_mem ''web1'']\<rparr>,
       SawMembers \<lparr>me_Type = EventMemberFailed, me_Members = [demo_mem ''web1'']\<rparr>]"
    by (simp add: demo_changes_def)
  have "cl_quantum l = None"
    using r by (auto simp: demo_changes_def loop_ready_def new_loop_def coalesceLoop_def member_Handle_def flush_loop_def
        split: prod.splits)
  moreover have "map_option fst (last_change (filter member_Handle (loop_inputs False demo_changes)) ''web1'') = Some EventMemberFailed"
    by (simp add: i member_Handle_def last_change_def changes_def demo_mem_def)
  moreover have "\<forall>e \<in> set (loop_inputs False demo_changes). member_Handle e \<longrightarrow> single_member e"
    by (simp add: i single_member_def)
  ultimately have "cl_quantum l = None \<and> map_option fst (last_change (filter member_Handle out) ''web1'') = Some EventMemberFailed"
    using member_coalescing_keeps_last_event [OF r] by metis
  with r show ?thesis by blast
qed

text \<open>Coalescing user events keeps the newest. Only events that came in are sent, each with its own content; events
  that must not be coalesced pass through at once and in order; and whenever nothing is held back, all events that
  are the newest of their name so far have been sent.\<close>

theorem user_coalescing_keeps_newest:
  assumes "loop_run user_Handle coalesce_user (flush_users (enum_names f)) cp qp ks (new_loop Map.empty) = (l, out)"
  shows "filter (\<lambda>e. \<not> user_Handle e) out = filter (\<lambda>e. \<not> user_Handle e) (loop_inputs False ks) \<and>
    (cl_quantum l = None \<longrightarrow>
      set (filter user_Handle out) \<subseteq> set (filter user_Handle (loop_inputs False ks)) \<and>
      (\<forall>u. newest (filter user_Handle (loop_inputs False ks)) u \<longrightarrow> SawUser u \<in> set (filter user_Handle out)))"
  using users.new_run_agrees [OF assms] by (simp add: user_agree_def)

theorem user_coalescing_keeps_newest_witness:
  "\<exists>l out. loop_run user_Handle coalesce_user (flush_users (enum_names (\<lambda>_ _. 0))) 10 2 demo_user_events (new_loop Map.empty) = (l, out)
    \<and> SawUser \<lparr>uev_LTime = 4, uev_Name = ''deploy'', uev_Payload = [1], uev_Coalesce = True\<rparr> \<in> set out"
proof -
  obtain l out where r: "loop_run user_Handle coalesce_user (flush_users (enum_names (\<lambda>_ _. 0))) 10 2 demo_user_events (new_loop Map.empty) = (l, out)"
    by fastforce
  have "cl_quantum l = None"
    using r by (auto simp: demo_user_events_def loop_ready_def new_loop_def coalesceLoop_def user_Handle_def flush_loop_def
        split: prod.splits)
  moreover have "newest (filter user_Handle (loop_inputs False demo_user_events))
      \<lparr>uev_LTime = 4, uev_Name = ''deploy'', uev_Payload = [1], uev_Coalesce = True\<rparr>"
    by (simp add: demo_user_events_def user_Handle_def newest_def)
  ultimately show ?thesis using user_coalescing_keeps_newest [OF r] r by auto
qed

text \<open>An event about several members loses all but the last. The coalescer keeps the address of its loop variable,
  so that after an event about members \<open>a\<close>, ..., \<open>z\<close> the flush reports \<open>z\<close> once for each of them.\<close>

theorem shared_variable_repeats_last_member:
  assumes "me_Members e \<noteq> []" "distinct (map m_Name (me_Members e))"
  shows "snd (member_Flush (enum_names f) (enum_types g) (member_Coalesce e new_memberEventCoalescer)) =
    [\<lparr>me_Type = me_Type e, me_Members = replicate (length (me_Members e)) (last (me_Members e))\<rparr>]"
proof -
  let ?c = "member_Coalesce e new_memberEventCoalescer" and ?w = "\<lparr>ce_Type = me_Type e, ce_Member = last (me_Members e)\<rparr>"
  let ?names = "m_Name ` set (me_Members e)"
  have "fold (\<lambda>m latest. latest(m_Name m \<mapsto> ?w)) ms L = (\<lambda>n. if n \<in> m_Name ` set ms then Some ?w else L n)" for ms :: "Member list" and L
    by (induction ms arbitrary: L) (auto simp: fun_eq_iff)
  then have c: "mc_latestEvents ?c = (\<lambda>n. if n \<in> ?names then Some ?w else None)" "mc_lastEvents ?c = Map.empty"
    by (simp_all add: member_Coalesce_def new_memberEventCoalescer_def)
  then have dom: "dom (mc_latestEvents ?c) = ?names" by (auto simp: domIff split: if_splits)
  then have fin: "finite (dom (mc_latestEvents ?c))" by simp
  let ?ns = "enum_names f (mc_latestEvents ?c)"
  have ns: "set ?ns = ?names" "distinct ?ns" using enum_names_set [OF fin, of f] dom by auto
  then have len: "length ?ns = length (me_Members e)" "?ns \<noteq> []"
    using distinct_card [of ?ns] distinct_card [OF assms(2)] assms(1) by auto
  have em: "filter (emits ?c) ?ns = ?ns" by (simp add: filter_id_conv emits_def c(2))
  obtain events where ev: "snd (member_Flush (enum_names f) (enum_types g) ?c) =
      map (\<lambda>t. \<lparr>me_Type = t, me_Members = the (events t)\<rparr>) (enum_types g events)"
    "\<And>t. events t = (let xs = filter (\<lambda>n. ce_Type (the (mc_latestEvents ?c n)) = t) ?ns
          in if xs = [] then None else Some (map (\<lambda>n. ce_Member (the (mc_latestEvents ?c n))) xs))"
    using member_Flush_eq [OF fin, of f g] unfolding em by auto
  have t: "filter (\<lambda>n. ce_Type (the (mc_latestEvents ?c n)) = t) ?ns = (if t = me_Type e then ?ns else [])" for t
    using ns(1) c(1) by (auto simp: filter_id_conv filter_empty_conv)
  have m: "map (\<lambda>n. ce_Member (the (mc_latestEvents ?c n))) ?ns = replicate (length (me_Members e)) (last (me_Members e))"
    using ns(1) c(1) len(1) by (intro replicate_eqI) auto
  have "events = [me_Type e \<mapsto> replicate (length (me_Members e)) (last (me_Members e))]"
    using len(2) m by (simp add: fun_eq_iff ev(2) t)
  moreover have "enum_types g [me_Type e \<mapsto> x] = [me_Type e]" for x :: "Member list"
    by (cases "me_Type e") (simp_all add: enum_types_def)
  ultimately show ?thesis by (simp add: ev(1))
qed

theorem shared_variable_repeats_last_member_witness:
  "snd (member_Flush (enum_names (\<lambda>_ _. 0)) (enum_types (\<lambda>_ _. 0)) (member_Coalesce
      \<lparr>me_Type = EventMemberJoin, me_Members = [demo_mem ''web1'', demo_mem ''web2'']\<rparr> new_memberEventCoalescer)) =
    [\<lparr>me_Type = EventMemberJoin, me_Members = [demo_mem ''web2'', demo_mem ''web2'']\<rparr>]"
  using shared_variable_repeats_last_member [of "\<lparr>me_Type = EventMemberJoin, me_Members = [demo_mem ''web1'', demo_mem ''web2'']\<rparr>"]
  by (simp add: demo_mem_def numeral_2_eq_2)

text \<open>An update is sent again at every flush. The coalescer does not forget the events it has sent, and updates are
  exempt from the check that the last event differs, so a member whose last event is an update is reported with
  every later flush, whatever other members caused it.\<close>

theorem update_is_repeated:
  fixes c :: memberEventCoalescer and f :: "(string \<rightharpoonup> coalesceEvent) \<Rightarrow> string \<Rightarrow> nat"
    and g :: "(EventType \<rightharpoonup> Member list) \<Rightarrow> EventType \<Rightarrow> nat"
  assumes "finite (dom (mc_latestEvents c))" "mc_latestEvents c n = Some \<lparr>ce_Type = EventMemberUpdate, ce_Member = m\<rparr>"
  defines "r \<equiv> member_Flush (enum_names f) (enum_types g) c"
  shows "(\<exists>e \<in> set (snd r). me_Type e = EventMemberUpdate \<and> m \<in> set (me_Members e)) \<and>
    mc_latestEvents (fst r) = mc_latestEvents c"
proof -
  obtain events where ev: "r = (c\<lparr>mc_lastEvents := (\<lambda>n. if n \<in> set (filter (emits c) (enum_names f (mc_latestEvents c)))
        then Some (ce_Type (the (mc_latestEvents c n))) else mc_lastEvents c n)\<rparr>,
       map (\<lambda>t. \<lparr>me_Type = t, me_Members = the (events t)\<rparr>) (enum_types g events))"
    "\<And>t. events t = (let xs = filter (\<lambda>n. ce_Type (the (mc_latestEvents c n)) = t) (filter (emits c) (enum_names f (mc_latestEvents c)))
          in if xs = [] then None else Some (map (\<lambda>n. ce_Member (the (mc_latestEvents c n))) xs))"
    using member_Flush_eq [OF assms(1), of f g] unfolding r_def by blast
  let ?xs = "filter (\<lambda>n. ce_Type (the (mc_latestEvents c n)) = EventMemberUpdate) (filter (emits c) (enum_names f (mc_latestEvents c)))"
  have n: "n \<in> set ?xs"
    using enum_names_set [OF assms(1), of f] assms(2) by (auto simp: emits_def)
  then have "?xs \<noteq> []" by (metis empty_iff list.set(1))
  then have "events EventMemberUpdate = Some (map (\<lambda>n. ce_Member (the (mc_latestEvents c n))) ?xs)"
    by (simp only: ev(2) Let_def if_False)
  moreover have "m \<in> set (map (\<lambda>n. ce_Member (the (mc_latestEvents c n))) ?xs)"
    unfolding set_map using n assms(2) by (intro image_eqI [of _ _ n]) simp_all
  ultimately obtain ms where "events EventMemberUpdate = Some ms" "m \<in> set ms" by blast
  then show ?thesis
    using enum_types_set [of g events] by (force simp: ev(1))
qed

theorem update_is_repeated_witness:
  "\<exists>e \<in> set (snd (member_Flush (enum_names (\<lambda>_ _. 0)) (enum_types (\<lambda>_ _. 0))
      \<lparr>mc_lastEvents = [''web1'' \<mapsto> EventMemberUpdate],
       mc_latestEvents = [''web1'' \<mapsto> \<lparr>ce_Type = EventMemberUpdate, ce_Member = demo_mem ''web1''\<rparr>]\<rparr>)).
    me_Type e = EventMemberUpdate"
  using update_is_repeated [of "\<lparr>mc_lastEvents = [''web1'' \<mapsto> EventMemberUpdate],
       mc_latestEvents = [''web1'' \<mapsto> \<lparr>ce_Type = EventMemberUpdate, ce_Member = demo_mem ''web1''\<rparr>]\<rparr>" "''web1''" "demo_mem ''web1''"
       "\<lambda>_ _. 0" "\<lambda>_ _. 0"] by auto

end
