(* ===== verification/Keyring.thy ===== *)
theory Keyring
  imports Prelude
begin

section \<open>The keys of a node (memberlist/keyring.go)\<close>

text \<open>
  A ring holds the keys a node decrypts with; the first is the one it encrypts with. The slice
  that \<open>GetKeys\<close> hands out is the ring's own, and \<open>RemoveKey\<close> shifts the keys inside it while it
  ranges over it: the array that older slices still show is part of its result.
\<close>

subsection \<open>Operations\<close>

type_synonym key = bytes
type_synonym ring = "key list"

datatype keyring_error = EmptyPrimaryKey | KeySize | KeyNotInRing | PrimaryKeyRemoval

definition installKeys :: "key list \<Rightarrow> key \<Rightarrow> ring" where
  "installKeys keys primaryKey = primaryKey # filter (\<lambda>key. key \<noteq> primaryKey) keys"

definition GetKeys :: "ring \<Rightarrow> key list" where
  "GetKeys k = k"

definition GetPrimaryKey :: "ring \<Rightarrow> key option" where
  "GetPrimaryKey k = (if k = [] then None else Some (k ! 0))"

definition key_size :: "key \<Rightarrow> bool" where
  "key_size key \<longleftrightarrow> length key = 16 \<or> length key = 24 \<or> length key = 32"

definition AddKey :: "key \<Rightarrow> ring \<Rightarrow> (keyring_error, ring) result" where
  "AddKey key k =
     (if \<not> key_size key then Inl KeySize
      else if key \<in> set k then Inr k
      else Inr (installKeys (k @ [key]) (case GetPrimaryKey k of None \<Rightarrow> key | Some p \<Rightarrow> p)))"

definition UseKey :: "key \<Rightarrow> ring \<Rightarrow> (keyring_error, ring) result" where
  "UseKey key k = (if key \<in> set k then Inr (installKeys k key) else Inl KeyNotInRing)"

fun add_keys :: "key list \<Rightarrow> ring \<Rightarrow> (keyring_error, ring) result" where
  "add_keys [] k = Inr k"
| "add_keys (key # keys) k = rbind (AddKey key k) (add_keys keys)"

definition NewKeyring :: "key list \<Rightarrow> key \<Rightarrow> (keyring_error, ring) result" where
  "NewKeyring keys primaryKey =
     (if keys \<noteq> [] \<or> primaryKey \<noteq> [] then
        (if primaryKey = [] then Inl EmptyPrimaryKey
         else rbind (AddKey primaryKey []) (add_keys keys))
      else Inr [])"

text \<open>
  The loop of \<open>RemoveKey\<close>: \<open>arr\<close> is the array it ranges over, \<open>fresh\<close> the ring once it has been
  installed anew (until then the ring is the array). \<open>append(k.keys[:i], k.keys[i+1:]...)\<close>
  shifts the array and leaves its last element. \<open>None\<close> is a panic.
\<close>

function remove_loop :: "key \<Rightarrow> nat \<Rightarrow> key list \<Rightarrow> ring option \<Rightarrow> (ring \<times> key list) option" where
  "remove_loop key i arr fresh =
     (if i < length arr then
        (if key = arr ! i then
           (case fresh of
              None \<Rightarrow>
                (let keys = take i arr @ drop (i + 1) arr; arr' = keys @ [last arr]
                 in remove_loop key (i + 1) arr' (Some (installKeys keys (arr' ! 0))))
            | Some k \<Rightarrow>
                if length k < i + 1 then None
                else remove_loop key (i + 1) arr (Some (installKeys (take i k @ drop (i + 1) k) (k ! 0))))
         else remove_loop key (i + 1) arr fresh)
      else Some (case fresh of None \<Rightarrow> arr | Some k \<Rightarrow> k, arr))"
  by pat_completeness auto
termination
  by (relation "measure (\<lambda>(_, i, arr, _). length arr - i)") auto

declare remove_loop.simps [simp del]

definition RemoveKey :: "key \<Rightarrow> ring \<Rightarrow> (keyring_error, ring \<times> key list) result option" where
  "RemoveKey key k =
     (if k = [] then None
      else if key = k ! 0 then Some (Inl PrimaryKeyRemoval)
      else map_option Inr (remove_loop key 0 k None))"

subsection \<open>What a ring keeps\<close>

definition ring_ok :: "ring \<Rightarrow> bool" where
  "ring_ok k \<longleftrightarrow> distinct k \<and> (\<forall>key \<in> set k. key_size key)"

lemma ring_ok_Nil [simp]: "ring_ok []" by (simp add: ring_ok_def)

lemma ring_okD: "ring_ok k \<Longrightarrow> key \<in> set k \<Longrightarrow> key_size key" by (simp add: ring_ok_def)

lemma installKeys_set [simp]: "set (installKeys keys p) = insert p (set keys)"
  by (auto simp: installKeys_def)

lemma installKeys_nth [simp]: "installKeys keys p ! 0 = p" "installKeys keys p \<noteq> []"
  by (simp_all add: installKeys_def)

lemma installKeys_ok: "ring_ok keys \<Longrightarrow> key_size p \<Longrightarrow> ring_ok (installKeys keys p)"
  by (auto simp: ring_ok_def installKeys_def)

lemma installKeys_primary: "distinct (p # k) \<Longrightarrow> installKeys (p # k) p = p # k"
  by (auto simp: installKeys_def intro!: filter_True)

lemma AddKey_new:
  "ring_ok k \<Longrightarrow> key_size key \<Longrightarrow> key \<notin> set k \<Longrightarrow> AddKey key k = Inr (k @ [key])"
  by (cases k) (auto simp: AddKey_def GetPrimaryKey_def ring_ok_def installKeys_def intro!: filter_True)

lemma AddKey_set:
  assumes "ring_ok k" "AddKey key k = Inr k'"
  shows "ring_ok k'" "set k' = insert key (set k)" "key_size key" "k \<noteq> [] \<Longrightarrow> k' ! 0 = k ! 0"
    "k = [] \<Longrightarrow> k' = [key]"
proof -
  show size: "key_size key" using assms(2) by (simp add: AddKey_def split: if_splits)
  consider "key \<in> set k" "k' = k" | "key \<notin> set k" "k' = k @ [key]"
    using AddKey_new [OF assms(1) size] assms(2) by (cases "key \<in> set k") (auto simp: AddKey_def size)
  then show "ring_ok k'" "set k' = insert key (set k)" "k \<noteq> [] \<Longrightarrow> k' ! 0 = k ! 0" "k = [] \<Longrightarrow> k' = [key]"
    using assms(1) size by (cases; auto simp: ring_ok_def nth_append)+
qed

lemma UseKey_set:
  assumes "ring_ok k" "UseKey key k = Inr k'"
  shows "ring_ok k'" "set k' = set k" "k' ! 0 = key" "key \<in> set k"
  using assms by (auto simp: UseKey_def installKeys_ok ring_okD split: if_splits)

subsection \<open>Removing a key\<close>

lemma remove_loop_done:
  assumes "key \<notin> set (drop i arr)"
  shows "remove_loop key i arr fresh = Some (case fresh of None \<Rightarrow> arr | Some k \<Rightarrow> k, arr)"
  using assms
proof (induction "length arr - i" arbitrary: i)
  case 0
  then show ?case by (subst remove_loop.simps) simp
next
  case (Suc n)
  then have i: "i < length arr" by simp
  then have "drop i arr = arr ! i # drop (i + 1) arr" by (metis Cons_nth_drop_Suc Suc_eq_plus1)
  with Suc.prems have "arr ! i \<noteq> key" "key \<notin> set (drop (i + 1) arr)" by auto
  then show ?case using Suc.hyps i by (subst remove_loop.simps) auto
qed

lemma remove_loop_found:
  assumes "distinct arr" "arr = xs @ key # ys" "xs \<noteq> []" "i \<le> length xs"
  shows "remove_loop key i arr None = Some (xs @ ys, (xs @ ys) @ [last arr])"
  using assms(4)
proof (induction "length xs - i" arbitrary: i)
  case 0
  then have [simp]: "i = length xs" by simp
  have keys: "take i arr @ drop (i + 1) arr = xs @ ys" using assms(2) by simp
  have "key \<notin> set (drop (i + 1) ((xs @ ys) @ [last arr]))"
    using assms(1,2) by (cases ys rule: rev_cases) (auto dest: in_set_dropD)
  then have "remove_loop key (i + 1) ((xs @ ys) @ [last arr]) (Some (installKeys (xs @ ys) (xs ! 0)))
      = Some (installKeys (xs @ ys) (xs ! 0), (xs @ ys) @ [last arr])"
    by (subst remove_loop_done) auto
  moreover have "installKeys (xs @ ys) (xs ! 0) = xs @ ys"
    using assms(1-3) installKeys_primary by (cases xs) auto
  moreover have "((xs @ ys) @ [last arr]) ! 0 = xs ! 0" using assms(3) by (simp add: nth_append)
  ultimately show ?case
    using assms(2) keys by (subst remove_loop.simps) (simp add: Let_def)
next
  case (Suc n)
  then have "i < length xs" by simp
  moreover from this have "arr ! i \<noteq> key" using assms(1,2) by (auto simp: nth_append)
  ultimately show ?case
    using Suc.hyps Suc.prems assms(2) by (subst remove_loop.simps) simp
qed

text \<open>\<open>RemoveKey\<close> takes out one key; the slices handed out before show the keys after it twice or moved.\<close>

lemma RemoveKey_spec:
  assumes "ring_ok k" "k \<noteq> []" "key \<noteq> k ! 0"
  shows "\<exists>arr. RemoveKey key k = Some (Inr (remove1 key k, arr)) \<and> length arr = length k"
proof (cases "key \<in> set k")
  case True
  then obtain xs ys where k: "k = xs @ key # ys" "key \<notin> set xs" by (meson split_list_first)
  with assms(3) have "xs \<noteq> []" by auto
  with k assms(1) have "remove_loop key 0 k None = Some (xs @ ys, (xs @ ys) @ [last k])"
    by (intro remove_loop_found) (auto simp: ring_ok_def)
  then show ?thesis using assms k by (simp add: RemoveKey_def remove1_append)
next
  case False
  then show ?thesis using assms remove_loop_done [of key 0 k None] by (simp add: RemoveKey_def remove1_idem)
qed

lemma remove1_ok: "ring_ok k \<Longrightarrow> ring_ok (remove1 key k)"
  by (auto simp: ring_ok_def dest: notin_set_remove1)

subsection \<open>Any sequence of operations\<close>

datatype ring_op = Add key | Use key | Remove key

fun ring_step :: "ring_op \<Rightarrow> ring \<Rightarrow> (keyring_error, ring) result option" where
  "ring_step (Add key) k = Some (AddKey key k)"
| "ring_step (Use key) k = Some (UseKey key k)"
| "ring_step (Remove key) k = map_option (map_sum id fst) (RemoveKey key k)"

text \<open>An error leaves the ring as it is.\<close>

fun ring_run :: "ring_op list \<Rightarrow> ring \<Rightarrow> ring option" where
  "ring_run [] k = Some k"
| "ring_run (op # ops) k =
     (case ring_step op k of
        None \<Rightarrow> None
      | Some (Inl e) \<Rightarrow> ring_run ops k
      | Some (Inr k') \<Rightarrow> ring_run ops k')"

text \<open>The abstract ring: the primary key and the set of keys; an operation that is refused changes nothing.\<close>

fun key_set_step :: "ring_op \<Rightarrow> key \<times> key set \<Rightarrow> key \<times> key set" where
  "key_set_step (Add key) (p, K) = (p, if key_size key then insert key K else K)"
| "key_set_step (Use key) (p, K) = (if key \<in> K then key else p, K)"
| "key_set_step (Remove key) (p, K) = (p, if key = p then K else K - {key})"

definition abs_ring :: "ring \<Rightarrow> key \<times> key set" where
  "abs_ring k = (k ! 0, set k)"

definition live_ring :: "ring \<Rightarrow> bool" where
  "live_ring k \<longleftrightarrow> ring_ok k \<and> k \<noteq> []"

lemma ring_step_refines:
  assumes "live_ring k"
  shows "\<exists>r. ring_step op k = Some r
    \<and> (case r of Inl e \<Rightarrow> key_set_step op (abs_ring k) = abs_ring k
       | Inr k' \<Rightarrow> live_ring k' \<and> abs_ring k' = key_set_step op (abs_ring k))"
proof (cases op)
  case (Add key)
  show ?thesis
  proof (cases "AddKey key k")
    case (Inl e)
    then have "\<not> key_size key" by (auto simp: AddKey_def split: if_splits)
    then show ?thesis using Add Inl by (simp add: abs_ring_def)
  next
    case (Inr k')
    note set = AddKey_set [OF _ Inr]
    have "live_ring k' \<and> abs_ring k' = key_set_step op (abs_ring k)"
      using assms set Add by (auto simp: live_ring_def abs_ring_def)
    then show ?thesis using Add Inr by simp
  qed
next
  case (Use key)
  then show ?thesis using assms
    by (auto simp: live_ring_def abs_ring_def UseKey_def installKeys_ok ring_okD)
next
  case (Remove key)
  show ?thesis
  proof (cases "key = k ! 0")
    case True
    then show ?thesis using Remove assms by (simp add: RemoveKey_def live_ring_def abs_ring_def)
  next
    case False
    obtain arr where r: "RemoveKey key k = Some (Inr (remove1 key k, arr))"
      using RemoveKey_spec [OF _ _ False] assms by (auto simp: live_ring_def)
    from assms False obtain p ks where k: "k = p # ks" "key \<noteq> p" "ring_ok k"
      by (cases k) (auto simp: live_ring_def)
    then have "live_ring (remove1 key k)" "abs_ring (remove1 key k) = key_set_step op (abs_ring k)"
      using Remove remove1_ok [OF k(3)] set_remove1_eq [of k key]
      by (auto simp: live_ring_def abs_ring_def ring_ok_def)
    then show ?thesis using Remove r by simp
  qed
qed

lemma ring_run_refines:
  "live_ring k \<Longrightarrow>
     \<exists>k'. ring_run ops k = Some k' \<and> live_ring k' \<and> abs_ring k' = fold key_set_step ops (abs_ring k)"
proof (induction ops arbitrary: k)
  case (Cons op ops)
  from ring_step_refines [OF Cons.prems, of op] obtain r where r: "ring_step op k = Some r"
    "case r of Inl e \<Rightarrow> key_set_step op (abs_ring k) = abs_ring k
       | Inr k' \<Rightarrow> live_ring k' \<and> abs_ring k' = key_set_step op (abs_ring k)"
    by blast
  then show ?case
  proof (cases r)
    case Inl
    then show ?thesis using r Cons.IH [OF Cons.prems] by simp
  next
    case (Inr k1)
    then show ?thesis using r Cons.IH [of k1] by simp
  qed
qed simp

lemma add_keys_live:
  assumes "live_ring k" "add_keys keys k = Inr k'"
  shows "live_ring k' \<and> k' ! 0 = k ! 0 \<and> set k' = set k \<union> set keys"
  using assms
proof (induction keys arbitrary: k)
  case (Cons key keys)
  then obtain k1 where k1: "AddKey key k = Inr k1" "add_keys keys k1 = Inr k'"
    by (auto simp: rbind_eq_Inr_iff)
  then have "live_ring k1" "k1 ! 0 = k ! 0" "set k1 = insert key (set k)"
    using AddKey_set [OF _ k1(1)] Cons.prems(1) by (auto simp: live_ring_def)
  with Cons.IH k1(2) show ?case by simp
qed simp

lemma NewKeyring_live:
  assumes "NewKeyring keys primaryKey = Inr k" "primaryKey \<noteq> []"
  shows "live_ring k \<and> abs_ring k = (primaryKey, insert primaryKey (set keys))"
proof -
  from assms obtain k1 where k1: "AddKey primaryKey [] = Inr k1" "add_keys keys k1 = Inr k"
    by (auto simp: NewKeyring_def rbind_eq_Inr_iff split: if_splits)
  then have "live_ring k1" "k1 = [primaryKey]"
    using AddKey_set [OF _ k1(1)] by (auto simp: live_ring_def)
  then show ?thesis using add_keys_live [OF _ k1(2)] by (auto simp: abs_ring_def)
qed

subsection \<open>Properties\<close>

text \<open>C39: A ring made by \<open>NewKeyring\<close> with a primary key never panics and is never empty, whatever
  is added, used and removed: it holds every key once, all of a size of AES, and is the primary key
  and the set of keys that the operations, taken as operations on sets, say.\<close>

theorem keyring_refines_key_set:
  assumes "NewKeyring keys primaryKey = Inr k" "primaryKey \<noteq> []"
  shows "\<exists>k'. ring_run ops k = Some k' \<and> k' \<noteq> [] \<and> distinct k' \<and> (\<forall>key \<in> set k'. key_size key)
    \<and> (k' ! 0, set k') = fold key_set_step ops (primaryKey, insert primaryKey (set keys))"
proof -
  from NewKeyring_live [OF assms] have "live_ring k"
    and k: "abs_ring k = (primaryKey, insert primaryKey (set keys))" by auto
  then obtain k' where "ring_run ops k = Some k'" "live_ring k'" "abs_ring k' = fold key_set_step ops (abs_ring k)"
    using ring_run_refines by blast
  then show ?thesis unfolding k by (auto simp: live_ring_def ring_ok_def abs_ring_def)
qed

lemma keyring_refines_key_set_witness:
  defines "a \<equiv> replicate 16 1" and "b \<equiv> replicate 32 2"
  shows "\<exists>k'. ring_run [Add b, Use b, Remove a, Remove b] [a] = Some k' \<and> k' \<noteq> [] \<and> distinct k'
    \<and> (\<forall>key \<in> set k'. key_size key)
    \<and> (k' ! 0, set k') = fold key_set_step [Add b, Use b, Remove a, Remove b] (a, {a})"
  using keyring_refines_key_set [of "[]" a "[a]" "[Add b, Use b, Remove a, Remove b]"]
  by (simp add: a_def NewKeyring_def AddKey_def key_size_def GetPrimaryKey_def installKeys_def)

text \<open>An empty ring: a removal panics.\<close>

lemma remove_from_empty_ring_panics: "NewKeyring [] [] = Inr [] \<and> ring_run [Remove key] [] = None"
  by (simp add: NewKeyring_def RemoveKey_def)

text \<open>
  A reader that got the keys before a removal and reads on by index after it can miss a key that
  is in the ring before and after.
\<close>

lemma removal_hides_a_key_from_a_reader:
  assumes "ring_ok [a, b, c, d]"
  shows "\<exists>arr. RemoveKey b [a, b, c, d] = Some (Inr ([a, c, d], arr))
    \<and> c \<notin> set (take 2 (GetKeys [a, b, c, d])) \<union> set (drop 2 arr)"
proof -
  have "remove_loop b 0 [a, b, c, d] None = Some ([a] @ [c, d], ([a] @ [c, d]) @ [last [a, b, c, d]])"
    using assms by (intro remove_loop_found) (auto simp: ring_ok_def)
  then show ?thesis using assms by (auto simp: RemoveKey_def ring_ok_def GetKeys_def)
qed

end
