(* ===== verification/Security.thy ===== *)
theory Security
  imports Keyring
begin

unbundle bit_operations_syntax

section \<open>Encrypted payloads (memberlist/security.go)\<close>

text \<open>
  A payload is a version byte, a nonce and a message sealed with AES-GCM; version 0 pads the
  message. The Galois/Counter Mode of \<open>crypto/cipher\<close> is written out over any block cipher, which
  stands for AES; that it seals what it opens is all that is used of it. The random nonce is an
  argument.
\<close>

subsection \<open>crypto/cipher: GCM\<close>

type_synonym block = "128 word"
type_synonym cipher = "key \<Rightarrow> block \<Rightarrow> block"

definition block_bytes :: "block \<Rightarrow> bytes" where
  "block_bytes b = be_bytes 16 (unat b)"

definition bytes_block :: "bytes \<Rightarrow> block" where
  "bytes_block bs = of_nat (be_nat (bs @ replicate (16 - length bs) 0))"

function blocks_of :: "bytes \<Rightarrow> block list" where
  "blocks_of bs = (if bs = [] then [] else bytes_block (take 16 bs) # blocks_of (drop 16 bs))"
  by pat_completeness auto
termination by (relation "measure length") auto

definition inc32 :: "block \<Rightarrow> block" where
  "inc32 b = (b AND NOT (mask 32)) OR ((b + 1) AND mask 32)"

function gctr :: "(block \<Rightarrow> block) \<Rightarrow> block \<Rightarrow> bytes \<Rightarrow> bytes" where
  "gctr E cb bs =
     (if bs = [] then []
      else map2 (XOR) (take 16 bs) (block_bytes (E cb)) @ gctr E (inc32 cb) (drop 16 bs))"
  by pat_completeness auto
termination by (relation "measure (\<lambda>(_, _, bs). length bs)") auto

declare blocks_of.simps [simp del] gctr.simps [simp del]

text \<open>The product in the field of 128-bit polynomials, with the bits in the order GCM has them.\<close>

fun gf_mult_from :: "nat \<Rightarrow> block \<Rightarrow> block \<Rightarrow> block \<Rightarrow> block" where
  "gf_mult_from 0 x z v = z"
| "gf_mult_from (Suc i) x z v =
     gf_mult_from i x (if bit x i then z XOR v else z)
       (if bit v 0 then drop_bit 1 v XOR push_bit 120 0xE1 else drop_bit 1 v)"

definition gf_mult :: "block \<Rightarrow> block \<Rightarrow> block" where
  "gf_mult x y = gf_mult_from 128 x 0 y"

definition ghash :: "block \<Rightarrow> block list \<Rightarrow> block" where
  "ghash h bs = fold (\<lambda>b y. gf_mult (y XOR b) h) bs 0"

definition gcm_tag :: "cipher \<Rightarrow> key \<Rightarrow> bytes \<Rightarrow> bytes \<Rightarrow> bytes \<Rightarrow> bytes" where
  "gcm_tag E key nonce c ad =
     (let lens = push_bit 64 (of_nat (8 * length ad)) OR of_nat (8 * length c);
          s = ghash (E key 0) (blocks_of ad @ blocks_of c @ [lens])
      in block_bytes (s XOR E key (bytes_block (nonce @ [0, 0, 0, 1]))))"

definition gcm_Seal :: "cipher \<Rightarrow> key \<Rightarrow> bytes \<Rightarrow> bytes \<Rightarrow> bytes \<Rightarrow> bytes" where
  "gcm_Seal E key nonce plain ad =
     (let c = gctr (E key) (inc32 (bytes_block (nonce @ [0, 0, 0, 1]))) plain in c @ gcm_tag E key nonce c ad)"

definition gcm_Open :: "cipher \<Rightarrow> key \<Rightarrow> bytes \<Rightarrow> bytes \<Rightarrow> bytes \<Rightarrow> bytes option" where
  "gcm_Open E key nonce sealed ad =
     (if length sealed < 16 then None
      else
        (let c = take (length sealed - 16) sealed in
         if drop (length sealed - 16) sealed = gcm_tag E key nonce c ad
         then Some (gctr (E key) (inc32 (bytes_block (nonce @ [0, 0, 0, 1]))) c)
         else None))"

lemma length_block_bytes [simp]: "length (block_bytes b) = 16" by (simp add: block_bytes_def)

lemma length_gctr [simp]: "length (gctr E cb bs) = length bs"
  by (induction E cb bs rule: gctr.induct) (subst gctr.simps, auto)

lemma map2_xor_twice: "length xs \<le> length ks \<Longrightarrow> map2 (XOR) (map2 (XOR) xs ks) ks = (xs :: byte list)"
proof (induction xs arbitrary: ks)
  case (Cons x xs)
  then show ?case by (cases ks) (simp_all add: xor.assoc)
qed simp

lemma gctr_twice: "gctr E cb (gctr E cb bs) = bs"
proof (induction E cb bs rule: gctr.induct)
  case (1 E cb bs)
  show ?case
  proof (cases "bs = []")
    case False
    let ?c = "map2 (XOR) (take 16 bs) (block_bytes (E cb))"
    have c: "gctr E cb bs = ?c @ gctr E (inc32 cb) (drop 16 bs)" using False by (subst gctr.simps) simp
    have len: "length ?c = min (length bs) 16" by simp
    have ne: "gctr E cb bs \<noteq> []" using False by (metis length_gctr length_0_conv)
    have "take 16 (gctr E cb bs) = ?c \<and> drop 16 (gctr E cb bs) = gctr E (inc32 cb) (drop 16 bs)"
    proof (cases "length bs \<le> 16")
      case True
      then have "drop 16 bs = []" "gctr E (inc32 cb) [] = []" by (simp_all add: gctr.simps)
      then show ?thesis using len True by (simp add: c)
    qed (use len in \<open>simp add: c\<close>)
    moreover have "map2 (XOR) ?c (block_bytes (E cb)) = take 16 bs" by (rule map2_xor_twice) simp
    ultimately show ?thesis using ne 1 [OF False] by (subst gctr.simps) simp
  qed (simp add: gctr.simps)
qed

lemma length_gcm_tag [simp]: "length (gcm_tag E key nonce c ad) = 16"
  by (simp add: gcm_tag_def Let_def)

subsection \<open>What a cipher with authentication promises\<close>

locale aead =
  fixes Seal :: "key \<Rightarrow> bytes \<Rightarrow> bytes \<Rightarrow> bytes \<Rightarrow> bytes"
    and Open :: "key \<Rightarrow> bytes \<Rightarrow> bytes \<Rightarrow> bytes \<Rightarrow> bytes option"
  assumes Open_Seal: "Open key nonce (Seal key nonce plain ad) ad = Some plain"
    and Open_sound: "Open key nonce sealed ad = Some plain \<Longrightarrow> sealed = Seal key nonce plain ad"
    and length_Seal: "length (Seal key nonce plain ad) = length plain + 16"

interpretation gcm: aead "gcm_Seal E" "gcm_Open E" for E
proof
  fix key nonce plain ad sealed
  show "gcm_Open E key nonce (gcm_Seal E key nonce plain ad) ad = Some plain"
    by (simp add: gcm_Open_def gcm_Seal_def Let_def gctr_twice)
  show "length (gcm_Seal E key nonce plain ad) = length plain + 16"
    by (simp add: gcm_Seal_def Let_def)
  assume "gcm_Open E key nonce sealed ad = Some plain"
  then have "drop (length sealed - 16) sealed = gcm_tag E key nonce (take (length sealed - 16) sealed) ad"
    "plain = gctr (E key) (inc32 (bytes_block (nonce @ [0, 0, 0, 1]))) (take (length sealed - 16) sealed)"
    by (auto simp: gcm_Open_def Let_def split: if_splits)
  then show "sealed = gcm_Seal E key nonce plain ad"
    by (simp add: gcm_Seal_def gctr_twice) (metis append_take_drop_id)
qed

subsection \<open>Padding and lengths\<close>

definition versionSize :: nat where "versionSize = 1"
definition nonceSize :: nat where "nonceSize = 12"
definition tagSize :: nat where "tagSize = 16"
definition blockSize :: nat where "blockSize = 16"
definition maxEncryptionVersion :: byte where "maxEncryptionVersion = 1"

lemmas crypt_sizes [simp] =
  versionSize_def nonceSize_def tagSize_def blockSize_def maxEncryptionVersion_def

definition pkcs7encode :: "bytes \<Rightarrow> nat \<Rightarrow> nat \<Rightarrow> bytes" where
  "pkcs7encode buf ignore bs =
     (let n = length buf - ignore; more = bs - n mod bs in buf @ replicate more (of_nat more))"

text \<open>\<open>None\<close> is a panic: of the check, or of \<open>buf[:n]\<close> with a negative \<open>n\<close>.\<close>

definition pkcs7decode :: "bytes \<Rightarrow> bytes option" where
  "pkcs7decode buf =
     (if buf = [] then None
      else if length buf < unat (last buf) then None
      else Some (take (length buf - unat (last buf)) buf))"

text \<open>Only these two versions exist; for another one \<open>encryptOverhead\<close> panics.\<close>

definition encryptOverhead :: "byte \<Rightarrow> nat option" where
  "encryptOverhead vsn = (if vsn = 0 then Some 45 else if vsn = 1 then Some 29 else None)"

definition encryptedLength :: "byte \<Rightarrow> nat \<Rightarrow> nat" where
  "encryptedLength vsn inp =
     (if 1 \<le> vsn then versionSize + nonceSize + inp + tagSize
      else (let padding = blockSize - inp mod blockSize in versionSize + nonceSize + inp + padding + tagSize))"

subsection \<open>Encrypting and decrypting\<close>

datatype crypt_error = InvalidKeySize | EmptyPayload | UnsupportedVersion | PayloadTooSmall | NoKeyDecrypts

text \<open>The cipher is an argument. \<open>aes.NewCipher\<close> fails on keys of another size than those of AES.\<close>

definition encryptPayload ::
  "(key \<Rightarrow> bytes \<Rightarrow> bytes \<Rightarrow> bytes \<Rightarrow> bytes) \<Rightarrow> bytes \<Rightarrow> byte \<Rightarrow> key \<Rightarrow> bytes \<Rightarrow> bytes \<Rightarrow> bytes \<Rightarrow>
     (crypt_error, bytes) result" where
  "encryptPayload Seal random vsn key msg data dst =
     (if \<not> key_size key then Inl InvalidKeySize
      else
        (let offset = length dst;
             dst1 = dst @ vsn # random;
             afterNonce = length dst1;
             dst2 = (if vsn = 0 then pkcs7encode (dst1 @ msg) (offset + versionSize + nonceSize) 16 else dst1);
             slice = drop offset dst2;
             nonce = take nonceSize (drop versionSize slice);
             src = (if vsn = 0 then drop (versionSize + nonceSize) slice else msg);
             out = Seal key nonce src data
         in Inr (take afterNonce dst2 @ out)))"

definition decryptMessage ::
  "(key \<Rightarrow> bytes \<Rightarrow> bytes \<Rightarrow> bytes \<Rightarrow> bytes option) \<Rightarrow> key \<Rightarrow> bytes \<Rightarrow> bytes \<Rightarrow> bytes option" where
  "decryptMessage Open key msg data =
     (if \<not> key_size key then None
      else Open key (take nonceSize (drop versionSize msg)) (drop (versionSize + nonceSize) msg) data)"

fun try_keys ::
  "(key \<Rightarrow> bytes \<Rightarrow> bytes \<Rightarrow> bytes \<Rightarrow> bytes option) \<Rightarrow> key list \<Rightarrow> bytes \<Rightarrow> bytes \<Rightarrow>
     (crypt_error, bytes) result option" where
  "try_keys Open [] msg data = Some (Inl NoKeyDecrypts)"
| "try_keys Open (key # keys) msg data =
     (case decryptMessage Open key msg data of
        None \<Rightarrow> try_keys Open keys msg data
      | Some plain \<Rightarrow>
          if msg ! 0 = 0 then map_option Inr (pkcs7decode plain) else Some (Inr plain))"

text \<open>\<open>None\<close> is a panic.\<close>

definition decryptPayload ::
  "(key \<Rightarrow> bytes \<Rightarrow> bytes \<Rightarrow> bytes \<Rightarrow> bytes option) \<Rightarrow> key list \<Rightarrow> bytes \<Rightarrow> bytes \<Rightarrow>
     (crypt_error, bytes) result option" where
  "decryptPayload Open keys msg data =
     (if msg = [] then Some (Inl EmptyPayload)
      else if maxEncryptionVersion < msg ! 0 then Some (Inl UnsupportedVersion)
      else if length msg < encryptedLength (msg ! 0) 0 then Some (Inl PayloadTooSmall)
      else try_keys Open keys msg data)"

subsection \<open>Padding\<close>

definition padded :: "byte \<Rightarrow> bytes \<Rightarrow> bytes" where
  "padded vsn msg = (if vsn = 0 then pkcs7encode msg 0 16 else msg)"

lemma pkcs7decode_padded: "pkcs7decode (pkcs7encode msg 0 16) = Some msg"
proof -
  obtain m where m: "m = 16 - length msg mod 16" by blast
  then have bounds: "0 < m" "m < 256" by simp_all
  have "pkcs7encode msg 0 16 = msg @ replicate m (of_nat m)" by (simp add: pkcs7encode_def Let_def m)
  moreover have "unat (of_nat m :: byte) = m" using bounds by (simp add: unat_of_nat)
  ultimately show ?thesis using bounds by (simp add: pkcs7decode_def)
qed

lemma pkcs7encode_append:
  "pkcs7encode (dst @ msg) (length dst) 16 = dst @ pkcs7encode msg 0 16"
  by (simp add: pkcs7encode_def Let_def)

lemma version_cases: "(vsn :: byte) \<le> 1 \<Longrightarrow> vsn = 0 \<or> vsn = 1"
  by (auto simp: word_le_nat_alt word_unat_eq_iff)

lemma length_padded: "vsn \<le> 1 \<Longrightarrow> encryptedLength vsn (length msg) = 29 + length (padded vsn msg)"
  using version_cases [of vsn] by (auto simp: encryptedLength_def padded_def pkcs7encode_def Let_def)

lemma encryptedLength_overhead:
  "encryptOverhead vsn = Some overhead \<Longrightarrow> vsn \<le> 1 \<and> encryptedLength vsn n \<le> overhead + n"
  by (auto simp: encryptOverhead_def encryptedLength_def Let_def split: if_splits)

text \<open>The two branches of \<open>encryptPayload\<close> as one: the padded message is sealed.\<close>

lemma encryptPayload_eq:
  assumes "length random = nonceSize"
  shows "encryptPayload Seal random vsn key msg data dst =
     (if key_size key then Inr (dst @ vsn # random @ Seal key random (padded vsn msg) data)
      else Inl InvalidKeySize)"
proof -
  have "pkcs7encode (dst @ vsn # random @ msg) (13 + length dst) 16 = (dst @ vsn # random) @ pkcs7encode msg 0 16"
    using pkcs7encode_append [of "dst @ vsn # random" msg] assms by (simp add: add.commute)
  then show ?thesis using assms
    by (cases "vsn = 0") (simp_all add: encryptPayload_def padded_def Let_def add.commute)
qed

lemma encryptPayload_prefix:
  assumes "length random = nonceSize" "encryptPayload Seal random vsn key msg data dst = Inr w"
  obtains c where "w = dst @ c" "encryptPayload Seal random vsn key msg data [] = Inr c"
  using assms(2) by (auto simp: encryptPayload_eq [OF assms(1)] split: if_splits)

context aead
begin

lemma decryptMessage_sealed:
  "length random = nonceSize \<Longrightarrow>
     decryptMessage Open key (vsn # random @ Seal key random plain data) data = (if key_size key then Some plain else None)"
  by (simp add: decryptMessage_def Open_Seal)

lemma try_keys_finds:
  assumes "length random = nonceSize" "key_size key" "msg = vsn # random @ Seal key random (padded vsn plain) data"
    and "\<And>k. k \<in> set before \<Longrightarrow> decryptMessage Open k msg data = None" "vsn \<le> 1"
  shows "try_keys Open (before @ key # after) msg data = Some (Inr plain)"
  using assms(4)
proof (induction before)
  case Nil
  then show ?case using decryptMessage_sealed [OF assms(1), of key vsn "padded vsn plain" data] assms(2,3)
    by (simp add: padded_def pkcs7decode_padded)
qed simp

lemma decrypt_encrypt:
  assumes "length random = nonceSize" "vsn \<le> 1" "encryptPayload Seal random vsn key msg data [] = Inr c"
    and "\<And>k. k \<in> set before \<Longrightarrow> decryptMessage Open k c data = None"
  shows "decryptPayload Open (before @ key # after) c data = Some (Inr msg)"
proof -
  from assms(3) have key: "key_size key" and c: "c = vsn # random @ Seal key random (padded vsn msg) data"
    by (simp_all add: encryptPayload_eq [OF assms(1)] split: if_splits)
  have "length (padded vsn msg) \<ge> length (padded vsn [])"
    by (auto simp: padded_def pkcs7encode_def Let_def)
  then have "encryptedLength vsn 0 \<le> length c"
    using length_padded [OF assms(2), of "[]"] assms(1) by (simp add: c length_Seal)
  moreover have "c \<noteq> []" "c ! 0 = vsn" by (simp_all add: c)
  ultimately show ?thesis
    using assms(2) try_keys_finds [OF assms(1) key c assms(4,2)] by (simp add: decryptPayload_def not_less)
qed

lemma length_encrypted:
  assumes "length random = nonceSize" "vsn \<le> 1" "encryptPayload Seal random vsn key msg data dst = Inr c"
  shows "length c = length dst + encryptedLength vsn (length msg)"
  using assms length_padded [OF assms(2)]
  by (auto simp: encryptPayload_eq length_Seal split: if_splits)

lemma try_keys_sound:
  assumes "try_keys Open keys msg data = Some (Inr p)"
  shows "\<exists>key \<in> set keys. \<exists>plain. key_size key \<and> drop 13 msg = Seal key (take 12 (drop 1 msg)) plain data
    \<and> (if msg ! 0 = 0 then pkcs7decode plain = Some p else plain = p)"
  using assms
proof (induction keys)
  case (Cons key keys)
  show ?case
  proof (cases "decryptMessage Open key msg data")
    case None
    then show ?thesis using Cons by auto
  next
    case (Some plain)
    then have "key_size key" "drop 13 msg = Seal key (take 12 (drop 1 msg)) plain data"
      by (auto simp: decryptMessage_def intro: Open_sound split: if_splits)
    then show ?thesis using Some Cons.prems by (auto split: if_splits)
  qed
qed simp

lemma decrypt_sound:
  assumes "decryptPayload Open keys msg data = Some (Inr p)"
  shows "\<exists>key \<in> set keys. \<exists>vsn random plain. vsn \<le> 1 \<and> length random = nonceSize
    \<and> msg = vsn # random @ Seal key random plain data
    \<and> (if vsn = 0 then pkcs7decode plain = Some p else plain = p)"
proof -
  from assms have ok: "msg \<noteq> []" "msg ! 0 \<le> 1" "encryptedLength (msg ! 0) 0 \<le> length msg"
    and t: "try_keys Open keys msg data = Some (Inr p)"
    by (auto simp: decryptPayload_def not_less split: if_splits)
  from ok(1) obtain vsn rest where m: "msg = vsn # rest" by (cases msg) auto
  have "29 \<le> encryptedLength vsn 0" by (simp add: encryptedLength_def)
  with ok(3) m have "12 \<le> length rest" by simp
  then have r: "rest = take 12 rest @ drop 12 rest" "length (take 12 rest) = nonceSize" by simp_all
  from try_keys_sound [OF t] obtain key plain where "key \<in> set keys"
    and c: "drop 12 rest = Seal key (take 12 rest) plain data"
    and p: "if vsn = 0 then pkcs7decode plain = Some p else plain = p"
    by (auto simp: m)
  moreover have "msg = vsn # take 12 rest @ Seal key (take 12 rest) plain data" using r(1) c m by simp
  ultimately show ?thesis using r(2) ok(2) m by (metis nth_Cons_0)
qed

text \<open>The version byte is not sealed: set to 0, it has the last bytes of the message stripped as padding.\<close>

lemma decrypt_downgraded:
  assumes "length random = nonceSize" "encryptPayload Seal random 1 key msg data [] = Inr c" "16 \<le> length msg"
  shows "decryptPayload Open (key # after) (c[0 := 0]) data = map_option Inr (pkcs7decode msg)"
proof -
  from assms(2) have key: "key_size key" and c: "c = 1 # random @ Seal key random msg data"
    by (simp_all add: encryptPayload_eq [OF assms(1)] padded_def split: if_splits)
  have "encryptedLength 0 0 \<le> length (c[0 := 0])"
    using assms(1,3) by (simp add: c length_Seal encryptedLength_def)
  then show ?thesis
    using decryptMessage_sealed [OF assms(1), of key 0 msg data] key by (simp add: decryptPayload_def c not_less)
qed

end

subsection \<open>Properties\<close>

text \<open>
  What a node seals with its primary key, every node that has the key opens, in either version,
  also when it tries other keys first; for GCM over any block cipher.
\<close>

text \<open>C40: A payload encrypted with the primary key of one ring is decrypted with any ring that holds this
  key, unless a key before it also opens the payload: the message comes back whole, its padding
  removed.\<close>

theorem decrypt_with_any_installed_key:
  assumes "length random = nonceSize" "vsn \<le> 1" "GetPrimaryKey sender = Some key"
    and "encryptPayload (gcm_Seal E) random vsn key msg data [] = Inr c"
    and "GetKeys receiver = before @ key # after"
    and "\<forall>k \<in> set before. decryptMessage (gcm_Open E) k c data = None"
  shows "decryptPayload (gcm_Open E) (GetKeys receiver) c data = Some (Inr msg)"
  unfolding assms(5) using assms(6) by (intro gcm.decrypt_encrypt [OF assms(1,2,4)]) simp

definition demo_cipher :: cipher where
  "demo_cipher key b = b XOR bytes_block (take 16 key)"

lemma decrypt_with_any_installed_key_witness:
  defines "k \<equiv> replicate 16 7" and "n \<equiv> replicate 12 (0 :: byte)"
  shows "\<exists>c. encryptPayload (gcm_Seal demo_cipher) n 0 k [1, 2, 3] [] [] = Inr c
    \<and> decryptPayload (gcm_Open demo_cipher) (GetKeys [k, replicate 32 1]) c [] = Some (Inr [1, 2, 3])"
proof -
  obtain c where c: "encryptPayload (gcm_Seal demo_cipher) n 0 k [1, 2, 3] [] [] = Inr c"
    by (simp add: encryptPayload_eq n_def k_def key_size_def)
  moreover have "decryptPayload (gcm_Open demo_cipher) (GetKeys [k, replicate 32 1]) c [] = Some (Inr [1, 2, 3])"
    by (rule decrypt_with_any_installed_key [OF _ _ _ c, where sender = "[k]" and before = "[]" and after = "[replicate 32 1]"])
       (simp_all add: n_def GetPrimaryKey_def GetKeys_def)
  ultimately show ?thesis by blast
qed

text \<open>Nothing else gets through: a payload that is accepted was sealed, with the same
  authenticated data, under a key of the ring, and the message is what was sealed less its padding.\<close>

theorem accepted_payloads_were_sealed:
  assumes "decryptPayload (gcm_Open E) keys msg data = Some (Inr p)"
  shows "\<exists>key \<in> set keys. \<exists>vsn random plain. vsn \<le> 1 \<and> length random = nonceSize
    \<and> msg = vsn # random @ gcm_Seal E key random plain data
    \<and> (if vsn = 0 then pkcs7decode plain = Some p else plain = p)"
  by (rule gcm.decrypt_sound [OF assms])

lemma accepted_payloads_were_sealed_witness:
  defines "k \<equiv> replicate 16 7" and "n \<equiv> replicate 12 (0 :: byte)"
  shows "\<exists>msg. \<exists>key \<in> {k}. \<exists>vsn random plain. vsn \<le> 1 \<and> length random = nonceSize
    \<and> msg = vsn # random @ gcm_Seal demo_cipher key random plain []
    \<and> (if vsn = 0 then pkcs7decode plain = Some [1] else plain = [1])"
proof -
  obtain c where c: "encryptPayload (gcm_Seal demo_cipher) n 1 k [1] [] [] = Inr c"
    by (simp add: encryptPayload_eq n_def k_def key_size_def)
  then have "decryptPayload (gcm_Open demo_cipher) ([] @ [k]) c [] = Some (Inr [1])"
    by (intro gcm.decrypt_encrypt) (simp_all add: n_def)
  from accepted_payloads_were_sealed [OF this] show ?thesis
    unfolding append_Nil list.set by (rule exI [of _ c])
qed

text \<open>The size of an encrypted payload is what \<open>encryptedLength\<close> says and at most
  \<open>encryptOverhead\<close> more than that of the message, as the senders of packets reckon.\<close>

theorem encrypted_size:
  assumes "length random = nonceSize" "encryptOverhead vsn = Some overhead"
    and "encryptPayload (gcm_Seal E) random vsn key msg data [] = Inr c"
  shows "length c = encryptedLength vsn (length msg) \<and> length c \<le> overhead + length msg"
proof -
  note size = encryptedLength_overhead [OF assms(2)]
  have "length c = encryptedLength vsn (length msg)"
    using gcm.length_encrypted [OF assms(1) conjunct1 [OF size] assms(3)] by simp
  then show ?thesis using size by simp
qed

lemma encrypted_size_witness:
  "\<exists>c :: bytes. length c = encryptedLength 0 (length [1, 2, 3, 4 :: byte])
    \<and> length c \<le> 45 + length [1, 2, 3, 4 :: byte]"
proof -
  obtain c where "encryptPayload (gcm_Seal demo_cipher) (replicate 12 0) 0 (replicate 16 7) [1, 2, 3, 4] [] [] = Inr c"
    by (simp add: encryptPayload_eq key_size_def)
  then have "length c = encryptedLength 0 (length [1, 2, 3, 4 :: byte]) \<and> length c \<le> 45 + length [1, 2, 3, 4 :: byte]"
    by (rule encrypted_size [rotated 2]) (simp_all add: encryptOverhead_def)
  then show ?thesis by (rule exI [of _ c])
qed

text \<open>
  The version is not authenticated. Whoever can change a packet of version 1 sets its first byte
  to 0, and the receiver strips from the message as many bytes as its last byte says; where the
  message is shorter, it panics.
\<close>

lemma changed_version_panics:
  assumes "length random = nonceSize" "encryptPayload (gcm_Seal E) random 1 key msg data [] = Inr c"
    and "16 \<le> length msg" "length msg < unat (last msg)"
  shows "decryptPayload (gcm_Open E) (key # after) (c[0 := 0]) data = None"
  using gcm.decrypt_downgraded [OF assms(1-3)] assms(3,4) by (simp add: pkcs7decode_def)

end
