(* ===== verification/Broadcast.thy ===== *)
theory Broadcast
  imports Membership
begin

section \<open>Queues of messages to gossip (memberlist/queue.go, memberlist/broadcast.go, serf/delegate.go)\<close>

text \<open>
  A queue hands out its messages up to a number of bytes, the least transmitted first, drops a
  message after a number of transmissions, and lets a new message replace those it invalidates.
  Memberlist fills a packet from its own queue and then from the three queues of Serf. \<open>Finished\<close>
  is a result: the broadcasts that are told. The limit of transmissions, a logarithm in floating
  point, is a parameter, and so is the order in which \<open>sort.Sort\<close> leaves equal elements.
\<close>

subsection \<open>TransmitLimitedQueue\<close>

record 'b limitedBroadcast =
  lb_transmits :: int
  lb_b :: 'b

text \<open>
  \<open>Broadcast\<close> is an interface: \<open>invalidates\<close> and \<open>msg\<close> are its methods. The loop goes on with the next
  index although the rest of the slice has moved down by one.
\<close>

function drop_invalidated ::
  "('b \<Rightarrow> 'b \<Rightarrow> bool) \<Rightarrow> 'b \<Rightarrow> nat \<Rightarrow> 'b limitedBroadcast list \<Rightarrow> 'b limitedBroadcast list \<times> 'b list" where
  "drop_invalidated invalidates b i q =
     (if i < length q then
        (if invalidates b (lb_b (q ! i)) then
           (let (q', fin) = drop_invalidated invalidates b (i + 1) (take i q @ drop (i + 1) q) in (q', lb_b (q ! i) # fin))
         else drop_invalidated invalidates b (i + 1) q)
      else (q, []))"
  by pat_completeness auto
termination by (relation "measure (\<lambda>(_, _, i, q). length q - i)") auto

declare drop_invalidated.simps [simp del]

definition QueueBroadcast ::
  "('b \<Rightarrow> 'b \<Rightarrow> bool) \<Rightarrow> 'b \<Rightarrow> 'b limitedBroadcast list \<Rightarrow> 'b limitedBroadcast list \<times> 'b list" where
  "QueueBroadcast invalidates b q =
     (let (q', fin) = drop_invalidated invalidates b 0 q in (q' @ [\<lparr>lb_transmits = 0, lb_b = b\<rparr>], fin))"

text \<open>The loop from the last index down, with the bytes used and what is left of the queue.\<close>

primrec take_broadcasts ::
  "nat \<Rightarrow> ('b \<Rightarrow> bytes) \<Rightarrow> int \<Rightarrow> int \<Rightarrow> int \<Rightarrow> int \<Rightarrow> 'b limitedBroadcast list \<Rightarrow>
     'b limitedBroadcast list \<times> 'b list \<times> 'b list" where
  "take_broadcasts 0 msg overhead limit transmitLimit used q = (q, [], [])"
| "take_broadcasts (Suc i) msg overhead limit transmitLimit used q =
     (let e = q ! i; size = overhead + int (length (msg (lb_b e))) in
      if limit < used + size then take_broadcasts i msg overhead limit transmitLimit used q
      else
        (let t = lb_transmits e + 1;
             (q', fin1) = (if transmitLimit \<le> t then (swap_remove i q, [lb_b e]) else (q[i := e\<lparr>lb_transmits := t\<rparr>], []));
             (q'', sent, fin2) = take_broadcasts i msg overhead limit transmitLimit (used + size) q'
         in (q'', lb_b e # sent, fin1 @ fin2)))"

text \<open>The broadcasts sent and finished; \<open>sorter\<close> is the sort by falling number of transmissions.\<close>

definition GetBroadcasts ::
  "('b limitedBroadcast list \<Rightarrow> 'b limitedBroadcast list) \<Rightarrow> ('b \<Rightarrow> bytes) \<Rightarrow> int \<Rightarrow> int \<Rightarrow> int \<Rightarrow>
     'b limitedBroadcast list \<Rightarrow> 'b limitedBroadcast list \<times> 'b list \<times> 'b list" where
  "GetBroadcasts sorter msg transmitLimit overhead limit q =
     (if q = [] then (q, [], [])
      else
        (let (q', sent, fin) = take_broadcasts (length q) msg overhead limit transmitLimit 0 q
         in (if sent \<noteq> [] then sorter q' else q', sent, fin)))"

definition NumQueued :: "'b limitedBroadcast list \<Rightarrow> nat" where
  "NumQueued q = length q"

definition queue_Reset :: "'b limitedBroadcast list \<Rightarrow> 'b limitedBroadcast list \<times> 'b list" where
  "queue_Reset q = ([], map lb_b q)"

definition queue_Prune :: "nat \<Rightarrow> 'b limitedBroadcast list \<Rightarrow> 'b limitedBroadcast list \<times> 'b list" where
  "queue_Prune maxRetain q =
     (if length q < maxRetain then (q, [])
      else (drop (length q - maxRetain) q, map lb_b (take (length q - maxRetain) q)))"

subsection \<open>The packets of memberlist and the queues of Serf\<close>

record memberlistBroadcast =
  mbc_node :: string
  mbc_msg :: bytes

text \<open>
  The other type of \<open>Broadcast\<close>, Serf's, is never in the queue of memberlist, where the type test
  of \<open>Invalidates\<close> therefore succeeds.
\<close>

definition mbc_Invalidates :: "memberlistBroadcast \<Rightarrow> memberlistBroadcast \<Rightarrow> bool" where
  "mbc_Invalidates b other \<longleftrightarrow> mbc_node b = mbc_node other"

definition serf_Invalidates :: "bytes \<Rightarrow> bytes \<Rightarrow> bool" where
  "serf_Invalidates b other \<longleftrightarrow> False"

record serf_queues =
  gq_intents :: "bytes limitedBroadcast list"
  gq_queries :: "bytes limitedBroadcast list"
  gq_events :: "bytes limitedBroadcast list"

definition bytes_used :: "int \<Rightarrow> bytes list \<Rightarrow> int" where
  "bytes_used overhead msgs = sum_list (map (\<lambda>m. int (length m) + overhead) msgs)"

definition serf_GetBroadcasts ::
  "(bytes limitedBroadcast list \<Rightarrow> bytes limitedBroadcast list) \<Rightarrow> int \<Rightarrow> int \<Rightarrow> int \<Rightarrow> serf_queues \<Rightarrow>
     serf_queues \<times> bytes list" where
  "serf_GetBroadcasts sorter transmitLimit overhead limit s =
     (let (intents, msgs, _) = GetBroadcasts sorter id transmitLimit overhead limit (gq_intents s);
          used = bytes_used overhead msgs;
          (queries, queryMsgs, _) = GetBroadcasts sorter id transmitLimit overhead (limit - used) (gq_queries s);
          used2 = used + bytes_used overhead queryMsgs;
          (events, eventMsgs, _) = GetBroadcasts sorter id transmitLimit overhead (limit - used2) (gq_events s)
      in (\<lparr>gq_intents = intents, gq_queries = queries, gq_events = events\<rparr>, msgs @ queryMsgs @ eventMsgs))"

definition userMsg :: byte where "userMsg = 8"
definition userMsgOverhead :: int where "userMsgOverhead = 1"

definition getBroadcasts ::
  "(memberlistBroadcast limitedBroadcast list \<Rightarrow> memberlistBroadcast limitedBroadcast list) \<Rightarrow>
   (bytes limitedBroadcast list \<Rightarrow> bytes limitedBroadcast list) \<Rightarrow> int \<Rightarrow> int \<Rightarrow> int \<Rightarrow> int \<Rightarrow>
     memberlistBroadcast limitedBroadcast list \<Rightarrow> serf_queues \<Rightarrow>
     memberlistBroadcast limitedBroadcast list \<times> serf_queues \<times> bytes list" where
  "getBroadcasts sorter sorter' transmitLimit transmitLimit' overhead limit q s =
     (let (q', toSend, _) = GetBroadcasts sorter mbc_msg transmitLimit overhead limit q;
          msgs = map mbc_msg toSend;
          avail = limit - bytes_used overhead msgs
      in if overhead + userMsgOverhead < avail then
           (let (s', userMsgs) = serf_GetBroadcasts sorter' transmitLimit' (overhead + userMsgOverhead) avail s
            in (q', s', msgs @ map (\<lambda>m. userMsg # m) userMsgs))
         else (q', s, msgs))"


subsection \<open>Bytes\<close>

lemma bytes_used_simps [simp]:
  "bytes_used overhead [] = 0"
  "bytes_used overhead (m # ms) = int (length m) + overhead + bytes_used overhead ms"
  "bytes_used overhead (ms @ ms') = bytes_used overhead ms + bytes_used overhead ms'"
  by (simp_all add: bytes_used_def)

lemma take_broadcasts_bytes:
  "take_broadcasts i msg overhead limit transmitLimit used q = (q', sent, fin) \<Longrightarrow>
     sent \<noteq> [] \<longrightarrow> used + bytes_used overhead (map msg sent) \<le> limit"
proof (induction i arbitrary: used q q' sent fin)
  case (Suc i)
  let ?e = "q ! i" and ?size = "overhead + int (length (msg (lb_b (q ! i))))"
  show ?case
  proof (cases "limit < used + ?size")
    case True
    with Suc show ?thesis by (simp add: Let_def)
  next
    case False
    then obtain q1 q2 sent' fin' where
      "take_broadcasts i msg overhead limit transmitLimit (used + ?size) q1 = (q2, sent', fin')"
      "sent = lb_b ?e # sent'"
      using Suc.prems by (auto simp: Let_def split: prod.splits if_splits)
    with Suc.IH [OF this(1)] False show ?thesis by (cases sent') (auto simp: algebra_simps)
  qed
qed simp

lemma GetBroadcasts_bytes:
  "GetBroadcasts sorter msg transmitLimit overhead limit q = (q', sent, fin) \<Longrightarrow>
     sent \<noteq> [] \<Longrightarrow> bytes_used overhead (map msg sent) \<le> limit"
  using take_broadcasts_bytes [of "length q" msg overhead limit transmitLimit 0 q]
  by (fastforce simp: GetBroadcasts_def Let_def split: if_splits prod.splits)

lemma serf_GetBroadcasts_bytes:
  assumes "serf_GetBroadcasts sorter transmitLimit overhead limit s = (s', msgs)" "0 \<le> limit"
  shows "bytes_used overhead msgs \<le> limit"
proof -
  obtain i ms f1 q qs f2 e es f3 where
    g: "GetBroadcasts sorter id transmitLimit overhead limit (gq_intents s) = (i, ms, f1)"
    "GetBroadcasts sorter id transmitLimit overhead (limit - bytes_used overhead ms) (gq_queries s) = (q, qs, f2)"
    "GetBroadcasts sorter id transmitLimit overhead (limit - (bytes_used overhead ms + bytes_used overhead qs)) (gq_events s) = (e, es, f3)"
    by (metis prod_cases3)
  then have "msgs = ms @ qs @ es" using assms(1) by (simp add: serf_GetBroadcasts_def)
  moreover have "bytes_used overhead ms \<le> limit" using GetBroadcasts_bytes [OF g(1)] assms(2) by (cases ms) auto
  moreover have "qs \<noteq> [] \<Longrightarrow> bytes_used overhead qs \<le> limit - bytes_used overhead ms"
    using GetBroadcasts_bytes [OF g(2)] by simp
  moreover have "es \<noteq> [] \<Longrightarrow> bytes_used overhead es \<le> limit - (bytes_used overhead ms + bytes_used overhead qs)"
    using GetBroadcasts_bytes [OF g(3)] by simp
  ultimately show ?thesis by (cases "qs = []"; cases "es = []") auto
qed

lemma framed_bytes: "bytes_used overhead (map (\<lambda>m. b # m) ms) = bytes_used (overhead + 1) ms"
  by (induction ms) auto

subsection \<open>Transmissions\<close>

text \<open>How many transmissions of \<open>b\<close> the queue may still make.\<close>

definition left_to_send :: "int \<Rightarrow> 'b \<Rightarrow> 'b limitedBroadcast list \<Rightarrow> int" where
  "left_to_send n b q = sum_list (map (\<lambda>e. if lb_b e = b then n - lb_transmits e else 0) q)"

definition queue_ok :: "int \<Rightarrow> 'b limitedBroadcast list \<Rightarrow> bool" where
  "queue_ok n q \<longleftrightarrow> (\<forall>e \<in> set q. 0 \<le> lb_transmits e \<and> lb_transmits e < n)"

lemma left_to_send_mset:
  assumes "mset q = mset q'"
  shows "left_to_send n b q = left_to_send n b q'"
proof -
  have "mset (map (\<lambda>e. if lb_b e = b then n - lb_transmits e else 0) q) =
      mset (map (\<lambda>e. if lb_b e = b then n - lb_transmits e else 0) q')"
    using assms by (simp only: mset_map)
  then show ?thesis unfolding left_to_send_def by (simp only: sum_mset_sum_list [symmetric])
qed

lemma queue_ok_mset: "mset q = mset q' \<Longrightarrow> queue_ok n q = queue_ok n q'"
  using mset_eq_setD [of q q'] by (simp only: queue_ok_def)

lemma left_to_send_append [simp]: "left_to_send n b (q @ q') = left_to_send n b q + left_to_send n b q'"
  by (simp add: left_to_send_def)

lemma left_to_send_Nil [simp]: "left_to_send n b [] = 0"
  by (simp add: left_to_send_def)

lemma left_to_send_Cons [simp]:
  "left_to_send n b (e # q) = (if lb_b e = b then n - lb_transmits e else 0) + left_to_send n b q"
  by (simp add: left_to_send_def)

lemma queue_ok_append [simp]: "queue_ok n (q @ q') \<longleftrightarrow> queue_ok n q \<and> queue_ok n q'"
  by (auto simp: queue_ok_def)

lemma left_to_send_nonneg: "queue_ok n q \<Longrightarrow> 0 \<le> left_to_send n b q"
  unfolding left_to_send_def queue_ok_def by (intro sum_list_nonneg) auto

lemma left_to_send_remove:
  "i < length q \<Longrightarrow> left_to_send n b (swap_remove i q) =
     left_to_send n b q - (if lb_b (q ! i) = b then n - lb_transmits (q ! i) else 0)"
proof -
  assume i: "i < length q"
  then have "mset q = mset (q ! i # swap_remove i q)" by (simp add: mset_swap_remove)
  from left_to_send_mset [OF this, of n b] show ?thesis by simp
qed

lemma left_to_send_update:
  assumes "i < length q"
  shows "left_to_send n b (q[i := e]) =
     left_to_send n b q - (if lb_b (q ! i) = b then n - lb_transmits (q ! i) else 0)
       + (if lb_b e = b then n - lb_transmits e else 0)"
proof -
  have "left_to_send n b q = left_to_send n b (take i q @ q ! i # drop (Suc i) q)"
    using assms by (simp add: id_take_nth_drop [symmetric])
  moreover have "q[i := e] = take i q @ e # drop (Suc i) q" using assms by (simp add: upd_conv_take_nth_drop)
  ultimately show ?thesis by simp
qed

lemma set_swap_remove: "i < length q \<Longrightarrow> set (swap_remove i q) \<subseteq> set q"
  by (metis mset_swap_remove diff_subset_eq_self set_mset_mset set_mset_mono)

lemma queue_ok_remove: "queue_ok n q \<Longrightarrow> i < length q \<Longrightarrow> queue_ok n (swap_remove i q)"
  using set_swap_remove by (fastforce simp: queue_ok_def)

lemma queue_ok_update: "queue_ok n q \<Longrightarrow> 0 \<le> lb_transmits e \<Longrightarrow> lb_transmits e < n \<Longrightarrow> queue_ok n (q[i := e])"
  by (auto simp: queue_ok_def dest!: subsetD [OF set_update_subset_insert])

text \<open>Every message that is sent uses up one of its transmissions.\<close>

lemma take_broadcasts_sent:
  assumes "take_broadcasts i msg overhead limit n used q = (q', sent, fin)" "i \<le> length q" "queue_ok n q"
  shows "queue_ok n q' \<and> int (count_list sent b) + left_to_send n b q' = left_to_send n b q"
  using assms
proof (induction i arbitrary: used q sent fin)
  case (Suc i)
  let ?e = "q ! i" and ?size = "overhead + int (length (msg (lb_b (q ! i))))"
  have i: "i < length q" using Suc.prems(2) by simp
  then have e: "0 \<le> lb_transmits ?e" "lb_transmits ?e < n" using Suc.prems(3) by (simp_all add: queue_ok_def)
  show ?case
  proof (cases "limit < used + ?size")
    case True
    with Suc show ?thesis by (simp add: Let_def)
  next
    case False
    let ?t = "lb_transmits ?e + 1"
    let ?q = "if n \<le> ?t then swap_remove i q else q[i := ?e\<lparr>lb_transmits := ?t\<rparr>]"
    obtain sent' fin' where r: "take_broadcasts i msg overhead limit n (used + ?size) ?q = (q', sent', fin')"
      "sent = lb_b ?e # sent'"
      using Suc.prems(1) False by (auto simp: Let_def split: prod.splits if_splits)
    have "i \<le> length ?q" using i by auto
    moreover have "queue_ok n ?q" using e i Suc.prems(3) by (auto intro: queue_ok_remove queue_ok_update)
    moreover have "left_to_send n b ?q = left_to_send n b q - (if lb_b ?e = b then 1 else 0)"
      using e i by (auto simp: left_to_send_remove left_to_send_update)
    ultimately show ?thesis using Suc.IH [OF r(1)] by (cases "lb_b ?e = b") (simp_all add: r(2))
  qed
qed simp

subsection \<open>Runs of a queue\<close>

datatype 'b queue_op = Queue 'b | Get int int | Prune nat | Reset

text \<open>What is done to a queue, in order, and the broadcasts it sends. The limit of transmissions is fixed.\<close>

primrec queue_step ::
  "('b limitedBroadcast list \<Rightarrow> 'b limitedBroadcast list) \<Rightarrow> ('b \<Rightarrow> 'b \<Rightarrow> bool) \<Rightarrow> ('b \<Rightarrow> bytes) \<Rightarrow> int \<Rightarrow>
     'b queue_op \<Rightarrow> 'b limitedBroadcast list \<Rightarrow> 'b limitedBroadcast list \<times> 'b list" where
  "queue_step sorter invalidates msg n (Queue b) q = (fst (QueueBroadcast invalidates b q), [])"
| "queue_step sorter invalidates msg n (Get overhead limit) q =
     (let (q', sent, _) = GetBroadcasts sorter msg n overhead limit q in (q', sent))"
| "queue_step sorter invalidates msg n (Prune k) q = (fst (queue_Prune k q), [])"
| "queue_step sorter invalidates msg n Reset q = (fst (queue_Reset q), [])"

primrec queue_run ::
  "('b limitedBroadcast list \<Rightarrow> 'b limitedBroadcast list) \<Rightarrow> ('b \<Rightarrow> 'b \<Rightarrow> bool) \<Rightarrow> ('b \<Rightarrow> bytes) \<Rightarrow> int \<Rightarrow>
     'b queue_op list \<Rightarrow> 'b limitedBroadcast list \<Rightarrow> 'b limitedBroadcast list \<times> 'b list" where
  "queue_run sorter invalidates msg n [] q = (q, [])"
| "queue_run sorter invalidates msg n (x # xs) q =
     (let (q', sent) = queue_step sorter invalidates msg n x q;
          (q'', sent') = queue_run sorter invalidates msg n xs q'
      in (q'', sent @ sent'))"

lemma drop_invalidated_mset: "mset (fst (drop_invalidated invalidates b i q)) \<subseteq># mset q"
proof (induction invalidates b i q rule: drop_invalidated.induct)
  case (1 invalidates b i q)
  show ?case
  proof (cases "i < length q")
    case True
    have "mset (take i q @ drop (i + 1) q) \<subseteq># mset (take i q @ q ! i # drop (Suc i) q)" by simp
    then have "mset (take i q @ drop (i + 1) q) \<subseteq># mset q" using True by (simp add: id_take_nth_drop [symmetric])
    with 1 True show ?thesis
      by (subst drop_invalidated.simps) (auto split: prod.splits intro: subset_mset.order_trans)
  qed (simp add: drop_invalidated.simps)
qed

lemma sub_queue: "mset q' \<subseteq># mset q \<Longrightarrow> \<exists>r. mset q = mset (q' @ r)"
  by (metis ex_mset mset_append subset_mset.add_diff_inverse)

lemma sub_queue_ok: "mset q' \<subseteq># mset q \<Longrightarrow> queue_ok n q \<Longrightarrow> queue_ok n q' \<and> left_to_send n b q' \<le> left_to_send n b q"
  using sub_queue [of q' q] queue_ok_mset left_to_send_mset [of q _ n b] left_to_send_nonneg
  by (smt (verit, best) left_to_send_append queue_ok_append)

lemma queue_Prune_mset: "mset (fst (queue_Prune k q)) \<subseteq># mset q"
  by (auto simp: queue_Prune_def) (metis append_take_drop_id mset_append mset_subset_eq_add_right)

lemma GetBroadcasts_sent:
  assumes "GetBroadcasts sorter msg n overhead limit q = (q', sent, fin)" "queue_ok n q" "\<And>q. mset (sorter q) = mset q"
  shows "queue_ok n q' \<and> int (count_list sent b) + left_to_send n b q' = left_to_send n b q"
proof (cases "q = []")
  case False
  then obtain q1 where t: "take_broadcasts (length q) msg overhead limit n 0 q = (q1, sent, fin)"
    "q' = q1 \<or> q' = sorter q1"
    using assms(1) by (auto simp: GetBroadcasts_def split: prod.splits if_splits)
  then have "mset q' = mset q1" using assms(3) by auto
  from queue_ok_mset [OF this, of n] left_to_send_mset [OF this, of n b] take_broadcasts_sent [OF t(1) _ assms(2), of b]
  show ?thesis by simp
qed (use assms in \<open>simp add: GetBroadcasts_def\<close>)

lemma queue_step_sent:
  assumes "queue_step sorter invalidates msg n x q = (q', sent)" "queue_ok n q" "0 < n" "\<And>q. mset (sorter q) = mset q"
  shows "queue_ok n q' \<and>
    int (count_list sent b) + left_to_send n b q' \<le> left_to_send n b q + (if x = Queue b then n else 0)"
proof (cases x)
  case (Queue c)
  have "mset (fst (drop_invalidated invalidates c 0 q)) \<subseteq># mset q" by (rule drop_invalidated_mset)
  from sub_queue_ok [OF this assms(2), of b] Queue assms(1,3) show ?thesis
    by (auto simp: QueueBroadcast_def queue_ok_def split: prod.splits)
next
  case (Get overhead limit)
  with assms(1) obtain fin where "GetBroadcasts sorter msg n overhead limit q = (q', sent, fin)"
    by (auto split: prod.splits)
  from GetBroadcasts_sent [OF this assms(2,4), of b] Get show ?thesis by simp
next
  case (Prune k)
  with assms(1) sub_queue_ok [OF queue_Prune_mset assms(2), of k b] show ?thesis by simp
next
  case Reset
  with assms(1) left_to_send_nonneg [OF assms(2), of b] show ?thesis
    by (simp add: queue_Reset_def queue_ok_def left_to_send_def)
qed

lemma queue_run_sent:
  assumes "queue_run sorter invalidates msg n xs q = (q', sent)" "queue_ok n q" "0 < n" "\<And>q. mset (sorter q) = mset q"
  shows "queue_ok n q' \<and>
    int (count_list sent b) + left_to_send n b q' \<le> left_to_send n b q + n * int (count_list xs (Queue b))"
  using assms(1,2)
proof (induction xs arbitrary: q sent)
  case (Cons x xs)
  obtain q1 s1 s2 where r: "queue_step sorter invalidates msg n x q = (q1, s1)"
    "queue_run sorter invalidates msg n xs q1 = (q', s2)" "sent = s1 @ s2"
    using Cons.prems(1) by (auto simp: Let_def split: prod.splits)
  from queue_step_sent [OF r(1) Cons.prems(2) assms(3,4), of b] Cons.IH [OF r(2)] r(3)
  show ?case by (auto simp: algebra_simps)
qed simp

subsection \<open>What is dropped\<close>

lemma drop_invalidated_none:
  "\<forall>e \<in> set q. \<not> invalidates b (lb_b e) \<Longrightarrow> drop_invalidated invalidates b i q = (q, [])"
proof (induction invalidates b i q rule: drop_invalidated.induct)
  case (1 invalidates b i q)
  then show ?case by (subst drop_invalidated.simps) simp
qed

lemma drop_invalidated_one:
  assumes "length (filter (\<lambda>e. invalidates b (lb_b e)) q) \<le> 1" "\<forall>e \<in> set (take i q). \<not> invalidates b (lb_b e)"
  shows "fst (drop_invalidated invalidates b i q) = filter (\<lambda>e. \<not> invalidates b (lb_b e)) q"
  using assms
proof (induction invalidates b i q rule: drop_invalidated.induct)
  case (1 invalidates b i q)
  let ?P = "\<lambda>e. invalidates b (lb_b e)"
  show ?case
  proof (cases "i < length q")
    case True
    note q = id_take_nth_drop [OF True]
    show ?thesis
    proof (cases "?P (q ! i)")
      case match: True
      have "length (filter ?P (take i q @ q ! i # drop (Suc i) q)) \<le> 1" using 1(3) q by simp
      then have "filter ?P (drop (Suc i) q) = []" using match by simp
      then have none: "\<forall>e \<in> set (take i q @ drop (i + 1) q). \<not> ?P e"
        using 1(4) by (auto simp: filter_empty_conv)
      have "fst (drop_invalidated invalidates b i q) = take i q @ drop (i + 1) q"
        using True match by (subst drop_invalidated.simps) (simp add: drop_invalidated_none [of _ invalidates b] none)
      also have "\<dots> = filter (\<lambda>e. \<not> ?P e) (take i q @ drop (i + 1) q)"
        using none by (intro filter_True [symmetric]) blast
      also have "\<dots> = filter (\<lambda>e. \<not> ?P e) (take i q @ q ! i # drop (Suc i) q)" using match by simp
      finally show ?thesis using q by simp
    next
      case False
      then have "\<forall>e \<in> set (take (i + 1) q). \<not> ?P e" using 1(4) True by (simp add: take_Suc_conv_app_nth)
      with 1 True False show ?thesis by (subst drop_invalidated.simps) simp
    qed
  next
    case False
    with 1(4) show ?thesis by (simp add: drop_invalidated.simps filter_id_conv)
  qed
qed

text \<open>The broadcasts queued so far.\<close>

primrec queued :: "'b queue_op list \<Rightarrow> 'b list" where
  "queued [] = []"
| "queued (x # xs) = (case x of Queue b \<Rightarrow> b # queued xs | _ \<Rightarrow> queued xs)"

lemma queued_append: "queued (xs @ ys) = queued xs @ queued ys"
  by (induction xs) (auto split: queue_op.splits)

text \<open>The latest message about a node.\<close>

definition latest_news :: "memberlistBroadcast list \<Rightarrow> string \<Rightarrow> memberlistBroadcast option" where
  "latest_news bs node = find (\<lambda>b. mbc_node b = node) (rev bs)"

definition news_inv :: "memberlistBroadcast list \<Rightarrow> memberlistBroadcast limitedBroadcast list \<Rightarrow> bool" where
  "news_inv bs q \<longleftrightarrow> distinct (map (mbc_node \<circ> lb_b) q) \<and> (\<forall>e \<in> set q. latest_news bs (mbc_node (lb_b e)) = Some (lb_b e))"

lemma latest_news_snoc: "latest_news (bs @ [b]) node = (if mbc_node b = node then Some b else latest_news bs node)"
  by (simp add: latest_news_def)

lemma news_inv_sub: "mset (map lb_b q') \<subseteq># mset (map lb_b q) \<Longrightarrow> news_inv bs q \<Longrightarrow> news_inv bs q'"
proof -
  assume sub: "mset (map lb_b q') \<subseteq># mset (map lb_b q)" and inv: "news_inv bs q"
  have "mset (map (mbc_node \<circ> lb_b) q') \<subseteq># mset (map (mbc_node \<circ> lb_b) q)"
    using image_mset_subseteq_mono [OF sub, of mbc_node] by (simp add: multiset.map_comp)
  then have "distinct (map (mbc_node \<circ> lb_b) q')"
    using inv by (metis news_inv_def sub_queue mset_eq_imp_distinct_iff distinct_append)
  moreover have "lb_b ` set q' \<subseteq> lb_b ` set q" using set_mset_mono [OF sub] by simp
  then have "\<forall>e \<in> set q'. latest_news bs (mbc_node (lb_b e)) = Some (lb_b e)"
    using inv by (auto simp: news_inv_def) 
  ultimately show ?thesis by (simp add: news_inv_def)
qed

lemma take_broadcasts_kept:
  "take_broadcasts i msg overhead limit n used q = (q', sent, fin) \<Longrightarrow> i \<le> length q \<Longrightarrow>
     mset (map lb_b q') \<subseteq># mset (map lb_b q) \<and> set sent \<subseteq> lb_b ` set q"
proof (induction i arbitrary: used q sent fin)
  case (Suc i)
  let ?e = "q ! i" and ?size = "overhead + int (length (msg (lb_b (q ! i))))"
  let ?t = "lb_transmits ?e + 1"
  let ?q = "if n \<le> ?t then swap_remove i q else q[i := ?e\<lparr>lb_transmits := ?t\<rparr>]"
  have i: "i < length q" using Suc.prems(2) by simp
  show ?case
  proof (cases "limit < used + ?size")
    case False
    then obtain sent' fin' where r: "take_broadcasts i msg overhead limit n (used + ?size) ?q = (q', sent', fin')"
      "sent = lb_b ?e # sent'"
      using Suc.prems(1) by (auto simp: Let_def split: prod.splits if_splits)
    have "i \<le> length ?q" using i by auto
    from Suc.IH [OF r(1) this] have ih: "mset (map lb_b q') \<subseteq># mset (map lb_b ?q)" "set sent' \<subseteq> lb_b ` set ?q"
      by blast+
    have "mset (map lb_b (swap_remove i q)) \<subseteq># mset (map lb_b q)"
      using i by (simp add: mset_swap_remove image_mset_subseteq_mono)
    moreover have "map lb_b (q[i := ?e\<lparr>lb_transmits := ?t\<rparr>]) = map lb_b q"
      using i by (simp add: map_update list_update_same_conv)
    ultimately have sub: "mset (map lb_b ?q) \<subseteq># mset (map lb_b q)" by (simp del: mset_map)
    then have "lb_b ` set ?q \<subseteq> lb_b ` set q" using set_mset_mono [OF sub] by simp
    with ih sub i r(2) show ?thesis by (auto intro: subset_mset.order_trans)
  qed (use Suc in \<open>simp add: Let_def\<close>)
qed simp

lemma GetBroadcasts_kept:
  assumes "GetBroadcasts sorter msg n overhead limit q = (q', sent, fin)" "\<And>q. mset (sorter q) = mset q"
  shows "mset (map lb_b q') \<subseteq># mset (map lb_b q) \<and> set sent \<subseteq> lb_b ` set q"
proof (cases "q = []")
  case False
  then obtain q1 where t: "take_broadcasts (length q) msg overhead limit n 0 q = (q1, sent, fin)"
    "q' = q1 \<or> q' = sorter q1"
    using assms(1) by (auto simp: GetBroadcasts_def split: prod.splits if_splits)
  then have "mset (map lb_b q') = mset (map lb_b q1)" using assms(2) by (auto simp only: mset_map)
  with take_broadcasts_kept [OF t(1)] show ?thesis by simp
qed (use assms in \<open>simp add: GetBroadcasts_def\<close>)

lemma news_step:
  assumes "queue_step sorter mbc_Invalidates msg n x q = (q', sent)" "news_inv bs q" "\<And>q. mset (sorter q) = mset q"
  shows "news_inv (bs @ queued [x]) q'"
proof (cases x)
  case (Queue b)
  let ?P = "\<lambda>e. mbc_Invalidates b (lb_b e)"
  have "map (mbc_node \<circ> lb_b) (filter ?P q) = filter (\<lambda>v. v = mbc_node b) (map (mbc_node \<circ> lb_b) q)"
    by (simp add: filter_map comp_def mbc_Invalidates_def eq_commute)
  moreover have "distinct (filter (\<lambda>v. v = mbc_node b) (map (mbc_node \<circ> lb_b) q))"
    using assms(2) by (simp add: news_inv_def distinct_filter)
  ultimately have d: "distinct (map (mbc_node \<circ> lb_b) (filter ?P q))" by metis
  have "set (map (mbc_node \<circ> lb_b) (filter ?P q)) \<subseteq> {mbc_node b}" by (auto simp: mbc_Invalidates_def)
  then have "card (set (map (mbc_node \<circ> lb_b) (filter ?P q))) \<le> card {mbc_node b}" by (intro card_mono) auto
  then have "length (filter ?P q) \<le> 1" using distinct_card [OF d] by simp
  from drop_invalidated_one [where i = 0 and invalidates = mbc_Invalidates, OF this] have
    "q' = filter (\<lambda>e. \<not> ?P e) q @ [\<lparr>lb_transmits = 0, lb_b = b\<rparr>]"
    using assms(1) Queue by (simp add: QueueBroadcast_def split: prod.splits)
  moreover have "mset (map lb_b (filter (\<lambda>e. \<not> ?P e) q)) \<subseteq># mset (map lb_b q)"
    by (simp add: image_mset_subseteq_mono mset_filter)
  from news_inv_sub [OF this assms(2)] have "news_inv bs (filter (\<lambda>e. \<not> ?P e) q)" .
  ultimately show ?thesis using Queue by (auto simp: news_inv_def latest_news_snoc mbc_Invalidates_def)
next
  case (Get overhead limit)
  with assms(1) obtain fin where "GetBroadcasts sorter msg n overhead limit q = (q', sent, fin)"
    by (auto split: prod.splits)
  from GetBroadcasts_kept [OF this assms(3)] news_inv_sub [OF _ assms(2)] Get show ?thesis by simp
next
  case (Prune k)
  have "mset (map lb_b (fst (queue_Prune k q))) \<subseteq># mset (map lb_b q)"
    using image_mset_subseteq_mono [OF queue_Prune_mset [of k q], of lb_b] by simp
  from news_inv_sub [OF this assms(2)] assms(1) Prune show ?thesis by simp
next
  case Reset
  with assms(1) show ?thesis by (simp add: queue_Reset_def news_inv_def)
qed

lemma queue_run_snoc:
  "queue_run sorter invalidates msg n (xs @ [x]) q =
     (let (q1, s1) = queue_run sorter invalidates msg n xs q; (q2, s2) = queue_step sorter invalidates msg n x q1
      in (q2, s1 @ s2))"
  by (induction xs arbitrary: q) (auto split: prod.splits)

lemma news_run:
  assumes "queue_run sorter mbc_Invalidates msg n xs [] = (q, sent)" "\<And>q. mset (sorter q) = mset q"
  shows "news_inv (queued xs) q"
  using assms(1)
proof (induction xs arbitrary: q sent rule: rev_induct)
  case (snoc x xs)
  obtain q1 s1 s2 where r: "queue_run sorter mbc_Invalidates msg n xs [] = (q1, s1)"
    "queue_step sorter mbc_Invalidates msg n x q1 = (q, s2)"
    using snoc.prems by (auto simp: queue_run_snoc split: prod.splits)
  from news_step [OF r(2) snoc.IH [OF r(1)] assms(2)] show ?case by (simp add: queued_append)
qed (simp add: news_inv_def)

subsection \<open>Properties\<close>

definition demo_news :: "memberlistBroadcast queue_op list" where
  "demo_news =
     [Queue \<lparr>mbc_node = ''a'', mbc_msg = [4, 1]\<rparr>, Queue \<lparr>mbc_node = ''b'', mbc_msg = [4]\<rparr>, Get 2 8,
      Queue \<lparr>mbc_node = ''a'', mbc_msg = [3]\<rparr>, Get 2 100]"

definition demo_queue :: "memberlistBroadcast limitedBroadcast list" where
  "demo_queue = [\<lparr>lb_transmits = 0, lb_b = \<lparr>mbc_node = ''a'', mbc_msg = [4, 1]\<rparr>\<rparr>,
     \<lparr>lb_transmits = 2, lb_b = \<lparr>mbc_node = ''b'', mbc_msg = [4]\<rparr>\<rparr>]"

definition demo_serf_queues :: serf_queues where
  "demo_serf_queues = \<lparr>gq_intents = [\<lparr>lb_transmits = 0, lb_b = [1]\<rparr>], gq_queries = [], gq_events = [\<lparr>lb_transmits = 0, lb_b = [3, 0]\<rparr>]\<rparr>"

text \<open>A packet respects its limit. Whatever the four queues hold, the messages memberlist's \<open>getBroadcasts\<close>
  returns, those of Serf with the byte that frames them, take together with the overhead of each no
  more than the limit of the packet.\<close>

theorem gossip_fits_its_packet:
  assumes "getBroadcasts sorter sorter' transmitLimit transmitLimit' overhead limit q s = (q', s', msgs)"
    and "0 \<le> overhead" "0 \<le> limit"
  shows "bytes_used overhead msgs \<le> limit"
proof -
  obtain q1 toSend fin where g: "GetBroadcasts sorter mbc_msg transmitLimit overhead limit q = (q1, toSend, fin)"
    by (metis prod_cases3)
  let ?msgs = "map mbc_msg toSend" and ?avail = "limit - bytes_used overhead (map mbc_msg toSend)"
  have fits: "bytes_used overhead ?msgs \<le> limit" using GetBroadcasts_bytes [OF g] assms(3) by (cases toSend) auto
  obtain s1 um where u: "serf_GetBroadcasts sorter' transmitLimit' (overhead + userMsgOverhead) ?avail s = (s1, um)"
    by fastforce
  have "bytes_used (overhead + 1) um \<le> ?avail"
    using serf_GetBroadcasts_bytes [OF u] fits by (simp add: userMsgOverhead_def)
  with assms(1) fits show ?thesis
    by (auto simp: getBroadcasts_def g u Let_def framed_bytes split: if_splits)
qed

theorem gossip_fits_its_packet_witness:
  "bytes_used 2 (snd (snd (getBroadcasts id id 3 3 2 12 demo_queue demo_serf_queues))) \<le> 12 \<and>
   snd (snd (getBroadcasts id id 3 3 2 12 demo_queue demo_serf_queues)) = [[4], [4, 1], [8, 1]]"
proof -
  let ?r = "getBroadcasts id id 3 3 2 12 demo_queue demo_serf_queues"
  have "?r = (fst ?r, fst (snd ?r), snd (snd ?r))" by simp
  from gossip_fits_its_packet [OF this] have "bytes_used 2 (snd (snd ?r)) \<le> 12" by simp
  moreover have "snd (snd ?r) = [[4], [4, 1], [8, 1]]" by code_simp
  ultimately show ?thesis by simp
qed

text \<open>A message is gossiped a bounded number of times. Over any run of a queue that starts empty, with queries
  for broadcasts, prunes, resets and invalidations in any order, a message is sent at most the limit of
  transmissions for each time it was queued, whatever the order \<open>sort.Sort\<close> leaves equal messages in; what is
  still queued counts against the same allowance.\<close>

theorem transmissions_bounded:
  assumes "queue_run sorter invalidates msg n xs [] = (q, sent)" and "0 < n" and "\<And>q. mset (sorter q) = mset q"
  shows "int (count_list sent b) + left_to_send n b q \<le> n * int (count_list xs (Queue b)) \<and> 0 \<le> left_to_send n b q"
  using queue_run_sent [OF assms(1) _ assms(2,3), of b] left_to_send_nonneg by (auto simp: queue_ok_def)

theorem transmissions_bounded_witness:
  "int (count_list (snd (queue_run id mbc_Invalidates mbc_msg 2 demo_news [])) \<lparr>mbc_node = ''a'', mbc_msg = [4, 1]\<rparr>) +
     left_to_send 2 \<lparr>mbc_node = ''a'', mbc_msg = [4, 1]\<rparr> (fst (queue_run id mbc_Invalidates mbc_msg 2 demo_news [])) \<le>
     2 * int (count_list demo_news (Queue \<lparr>mbc_node = ''a'', mbc_msg = [4, 1]\<rparr>))"
  using transmissions_bounded [of id mbc_Invalidates mbc_msg 2 demo_news, OF prod.collapse [symmetric]] by simp

text \<open>Only the latest news is gossiped. Although the loop of \<open>QueueBroadcast\<close> passes over the element that
  follows one it removes, the queue of memberlist never holds two messages about one node, and the message it holds
  about a node is always the last that was queued about it: once a refutation is queued, the suspicion it refutes
  is not sent again.\<close>

theorem only_latest_news:
  assumes "queue_run sorter mbc_Invalidates msg n xs [] = (q, sent)" and "\<And>q. mset (sorter q) = mset q"
  shows "distinct (map (mbc_node \<circ> lb_b) q) \<and>
    (\<forall>e \<in> set q. latest_news (queued xs) (mbc_node (lb_b e)) = Some (lb_b e))"
  using news_run [OF assms] by (simp add: news_inv_def)

theorem only_latest_news_witness:
  "distinct (map (mbc_node \<circ> lb_b) (fst (queue_run id mbc_Invalidates mbc_msg 2 demo_news [])))"
  using only_latest_news [of id mbc_msg 2 demo_news, OF prod.collapse [symmetric]] by simp

end
