(* ===== verification/Packet.thy ===== *)
theory Packet
  imports Security Broadcast Swim
begin

section \<open>What a UDP packet holds (memberlist/net.go, memberlist/util.go)\<close>

text \<open>
  A packet is a message, or several of them in a compound message, perhaps compressed, perhaps
  encrypted. A slice of a packet is modelled with what follows it in its array, as the check of
  the table of lengths lets some reads go beyond the slice. MessagePack and LZW are arguments.
\<close>

subsection \<open>Types of messages\<close>

definition pingMsg :: byte where "pingMsg = 0"
definition indirectPingMsg :: byte where "indirectPingMsg = 1"
definition ackRespMsg :: byte where "ackRespMsg = 2"
definition suspectMsg :: byte where "suspectMsg = 3"
definition aliveMsg :: byte where "aliveMsg = 4"
definition deadMsg :: byte where "deadMsg = 5"
definition pushPullMsg :: byte where "pushPullMsg = 6"
definition compoundMsg :: byte where "compoundMsg = 7"
definition compressMsg :: byte where "compressMsg = 9"
definition encryptMsg :: byte where "encryptMsg = 10"

lemmas message_types =
  pingMsg_def indirectPingMsg_def ackRespMsg_def suspectMsg_def aliveMsg_def deadMsg_def pushPullMsg_def
  compoundMsg_def userMsg_def compressMsg_def encryptMsg_def

definition compoundHeaderOverhead :: int where "compoundHeaderOverhead = 2"
definition compoundOverhead :: int where "compoundOverhead = 2"
definition udpSendBuf :: int where "udpSendBuf = 1400"

subsection \<open>Compound messages\<close>

definition makeCompoundMessage :: "bytes list \<Rightarrow> bytes" where
  "makeCompoundMessage msgs =
     compoundMsg # of_nat (length msgs) # concat (map (\<lambda>m. be_bytes 2 (length m)) msgs) @ concat msgs"

text \<open>The bytes of a slice and those behind it in its array.\<close>

type_synonym slice = "bytes \<times> bytes"

datatype compound_error = MissingLength | TruncatedLengths

text \<open>\<open>buf[i*2 : i*2+2]\<close> is checked against the capacity of the slice; \<open>None\<close> is a panic.\<close>

definition compound_lengths :: "nat \<Rightarrow> bytes \<Rightarrow> nat list option" where
  "compound_lengths n arr =
     (if length arr < 2 * n then None
      else Some (map (\<lambda>i. be_nat (take 2 (drop (2 * i) arr))) [0..<n]))"

fun split_parts :: "nat list \<Rightarrow> slice \<Rightarrow> nat \<times> slice list" where
  "split_parts [] s = (0, [])"
| "split_parts (l # ls) (buf, spare) =
     (if length buf < l then (length (l # ls), [])
      else (let (trunc, parts) = split_parts ls (drop l buf, spare)
            in (trunc, (take l buf, drop l buf @ spare) # parts)))"

text \<open>\<open>numParts*2\<close> is a product of bytes, here and in \<open>buf[numParts*2:]\<close>.\<close>

definition decodeCompoundMessage ::
  "slice \<Rightarrow> (compound_error, nat \<times> slice list) result option" where
  "decodeCompoundMessage s =
     (case s of
        ([], spare) \<Rightarrow> Some (Inl MissingLength)
      | (numParts # buf, spare) \<Rightarrow>
          if length buf < unat (numParts * 2) then Some (Inl TruncatedLengths)
          else
            (case compound_lengths (unat numParts) (buf @ spare) of
               None \<Rightarrow> None
             | Some lengths \<Rightarrow> Some (Inr (split_parts lengths (drop (unat (numParts * 2)) buf, spare)))))"

lemma compound_lengths_table:
  "compound_lengths (length ls) (concat (map (be_bytes 2) ls) @ rest) = Some (map (\<lambda>l. l mod 65536) ls)"
proof (induction ls arbitrary: rest)
  case (Cons l ls)
  have "map (\<lambda>i. be_nat (take 2 (drop (2 * i) (be_bytes 2 l @ concat (map (be_bytes 2) ls) @ rest)))) [0..<length (l # ls)]
      = (l mod 65536) # map (\<lambda>i. be_nat (take 2 (drop (2 * i) (concat (map (be_bytes 2) ls) @ rest)))) [0..<length ls]"
    by (simp add: upt_conv_Cons map_Suc_upt [symmetric] be_nat_be_bytes del: upt_Suc)
  moreover have "length (concat (map (be_bytes 2) ls)) = 2 * length ls"
    by (induction ls) simp_all
  ultimately show ?case using Cons.IH [of rest] by (simp add: compound_lengths_def)
qed (simp add: compound_lengths_def)

text \<open>The parts, each with what follows it.\<close>

fun parts_of :: "bytes list \<Rightarrow> bytes \<Rightarrow> slice list" where
  "parts_of [] spare = []"
| "parts_of (m # ms) spare = (m, concat ms @ spare) # parts_of ms spare"

lemma map_fst_parts_of [simp]: "map fst (parts_of ms spare) = ms"
  by (induction ms) simp_all

lemma split_parts_concat:
  "split_parts (map length ms) (concat ms, spare) = (0, parts_of ms spare)"
  by (induction ms) simp_all

lemma table_length: "length (concat (map (\<lambda>m. be_bytes 2 (length m)) msgs)) = 2 * length msgs"
  by (induction msgs) simp_all

lemma decode_makeCompoundMessage:
  assumes "length msgs < 128" "\<forall>m \<in> set msgs. length m < 65536"
  shows "decodeCompoundMessage (tl (makeCompoundMessage msgs), spare) = Some (Inr (0, parts_of msgs spare))"
proof -
  let ?n = "of_nat (length msgs) :: byte" and ?ls = "concat (map (\<lambda>m. be_bytes 2 (length m)) msgs)"
  have n: "unat ?n = length msgs" using assms(1) by (simp add: unat_of_nat)
  have "unat (?n * 2) = 2 * length msgs"
  proof -
    have "?n * 2 = (of_nat (2 * length msgs) :: byte)" by simp
    then show ?thesis using assms(1) by (simp only: unat_of_nat) simp
  qed
  moreover have "compound_lengths (length msgs) (?ls @ concat msgs @ spare) = Some (map length msgs)"
    using compound_lengths_table [of "map length msgs" "concat msgs @ spare"] assms(2)
    by (simp add: comp_def)
  ultimately show ?thesis
    using n split_parts_concat [of msgs spare]
    by (simp add: decodeCompoundMessage_def makeCompoundMessage_def table_length)
qed

lemma length_makeCompoundMessage:
  "int (length (makeCompoundMessage msgs)) = compoundHeaderOverhead + bytes_used compoundOverhead msgs"
proof -
  have "int (length (concat msgs)) + 2 * int (length msgs) = bytes_used 2 msgs" by (induction msgs) simp_all
  then show ?thesis
    by (simp add: makeCompoundMessage_def compoundHeaderOverhead_def compoundOverhead_def table_length)
qed

subsection \<open>Configuration of a node's transport\<close>

record ping =
  pi_SeqNo :: "32 word"
  pi_Node :: string

record indirectPingReq =
  ip_SeqNo :: "32 word"
  ip_Target :: bytes
  ip_Port :: "16 word"
  ip_Node :: string

record ackResp =
  ak_SeqNo :: "32 word"
  ak_Payload :: bytes

record compress =
  cm_Algo :: byte
  cm_Buf :: bytes

text \<open>
  The fields read of the configuration; MessagePack for each message; LZW, whose reader also
  says what else the array of its result holds; the block cipher, the random nonces, and what
  the array of a decrypted packet holds behind it; and what the queues take of broadcasts.
\<close>

record net_env =
  ne_Name :: string
  ne_BindPort :: "16 word"
  ne_ProtocolVersion :: byte
  ne_EnableCompression :: bool
  ne_Keyring :: "ring option"
  ne_AckPayload :: "bytes option"
  ne_decode_ping :: "bytes \<Rightarrow> ping option"
  ne_decode_indirect :: "bytes \<Rightarrow> indirectPingReq option"
  ne_decode_ack :: "bytes \<Rightarrow> ackResp option"
  ne_decode_suspect :: "bytes \<Rightarrow> suspect option"
  ne_decode_alive :: "bytes \<Rightarrow> alive option"
  ne_decode_dead :: "bytes \<Rightarrow> dead option"
  ne_decode_compress :: "bytes \<Rightarrow> compress option"
  ne_encode_ping :: "ping \<Rightarrow> bytes option"
  ne_encode_indirect :: "indirectPingReq \<Rightarrow> bytes option"
  ne_encode_ack :: "ackResp \<Rightarrow> bytes option"
  ne_encode_compress :: "compress \<Rightarrow> bytes option"
  ne_lzw_write :: "bytes \<Rightarrow> bytes option"
  ne_lzw_read :: "bytes \<Rightarrow> slice option"
  ne_cipher :: cipher
  ne_random :: "nat \<Rightarrow> bytes"
  ne_spare :: "bytes \<Rightarrow> bytes"
  ne_IndirectChecks :: nat
  ne_sort :: "memberlistBroadcast limitedBroadcast list \<Rightarrow> memberlistBroadcast limitedBroadcast list"
  ne_sort_serf :: "bytes limitedBroadcast list \<Rightarrow> bytes limitedBroadcast list"
  ne_transmitLimit :: int
  ne_transmitLimit_serf :: int

definition EncryptionEnabled :: "net_env \<Rightarrow> bool" where
  "EncryptionEnabled env =
     (case ne_Keyring env of None \<Rightarrow> False | Some k \<Rightarrow> 0 < length (GetKeys k))"

definition encryptionVersion :: "net_env \<Rightarrow> byte" where
  "encryptionVersion env = (if ne_ProtocolVersion env = 1 then 0 else 1)"

text \<open>The bytes \<open>sendMsg\<close> and \<open>gossip\<close> set aside for encryption.\<close>

definition crypt_overhead :: "net_env \<Rightarrow> int" where
  "crypt_overhead env =
     (if EncryptionEnabled env
      then (case encryptOverhead (encryptionVersion env) of None \<Rightarrow> 0 | Some n \<Rightarrow> int n) else 0)"

subsection \<open>Compression\<close>

definition lzwAlgo :: byte where "lzwAlgo = 0"

definition compressPayload :: "net_env \<Rightarrow> bytes \<Rightarrow> bytes option" where
  "compressPayload env inp =
     (case ne_lzw_write env inp of
        None \<Rightarrow> None
      | Some buf \<Rightarrow>
          map_option (\<lambda>b. compressMsg # b) (ne_encode_compress env \<lparr>cm_Algo = lzwAlgo, cm_Buf = buf\<rparr>))"

definition decompressBuffer :: "net_env \<Rightarrow> compress \<Rightarrow> slice option" where
  "decompressBuffer env c = (if cm_Algo c \<noteq> lzwAlgo then None else ne_lzw_read env (cm_Buf c))"

definition decompressPayload :: "net_env \<Rightarrow> bytes \<Rightarrow> slice option" where
  "decompressPayload env msg =
     (case ne_decode_compress env msg of None \<Rightarrow> None | Some c \<Rightarrow> decompressBuffer env c)"

text \<open>What a receiver's codec must do with what the sender's codec makes.\<close>

definition codec_reads :: "net_env \<Rightarrow> net_env \<Rightarrow> bool" where
  "codec_reads s r \<longleftrightarrow>
     (\<forall>c b. ne_encode_compress s c = Some b \<longrightarrow> ne_decode_compress r b = Some c)
     \<and> (\<forall>x y. ne_lzw_write s x = Some y \<longrightarrow> (\<exists>spare. ne_lzw_read r y = Some (x, spare)))"

lemma decompress_compress:
  assumes "codec_reads s r" "compressPayload s msg = Some c"
  shows "\<exists>body spare. c = compressMsg # body \<and> decompressPayload r body = Some (msg, spare)"
  using assms by (fastforce simp: compressPayload_def decompressPayload_def decompressBuffer_def codec_reads_def
      split: option.splits)

text \<open>A UDP packet is compressed only where that makes it shorter.\<close>

definition maybe_compressed :: "net_env \<Rightarrow> bytes \<Rightarrow> bytes" where
  "maybe_compressed env msg =
     (if ne_EnableCompression env then
        (case compressPayload env msg of
           None \<Rightarrow> msg
         | Some buf \<Rightarrow> if length buf < length msg then buf else msg)
      else msg)"

lemma length_maybe_compressed: "length (maybe_compressed env msg) \<le> length msg"
  by (auto simp: maybe_compressed_def split: option.splits)

text \<open>The \<open>n\<close>-th packet of a node; \<open>None\<close> when it cannot be encrypted.\<close>

definition udp_packet :: "net_env \<Rightarrow> nat \<Rightarrow> bytes \<Rightarrow> bytes option" where
  "udp_packet env n msg =
     (let msg1 = maybe_compressed env msg in
      case ne_Keyring env of
        None \<Rightarrow> Some msg1
      | Some k \<Rightarrow>
          if EncryptionEnabled env then
            (case encryptPayload (gcm_Seal (ne_cipher env)) (ne_random env n) (encryptionVersion env)
                    (case GetPrimaryKey k of None \<Rightarrow> [] | Some key \<Rightarrow> key) msg1 [] [] of
               Inl e \<Rightarrow> None
             | Inr c \<Rightarrow> Some c)
          else Some msg1)"

lemma length_udp_packet:
  assumes "udp_packet env n msg = Some p" "length (ne_random env n) = nonceSize"
  shows "int (length p) \<le> int (length msg) + crypt_overhead env"
proof (cases "EncryptionEnabled env")
  case False
  then show ?thesis
    using assms(1) length_maybe_compressed [of env msg]
    by (auto simp: udp_packet_def crypt_overhead_def Let_def split: option.splits)
next
  case True
  from True obtain k where k: "ne_Keyring env = Some k" by (auto simp: EncryptionEnabled_def split: option.splits)
  then obtain key where
    c: "encryptPayload (gcm_Seal (ne_cipher env)) (ne_random env n) (encryptionVersion env) key
      (maybe_compressed env msg) [] [] = Inr p"
    using assms(1) True by (auto simp: udp_packet_def Let_def split: sum.splits)
  obtain oh where oh: "encryptOverhead (encryptionVersion env) = Some oh"
    by (cases "ne_ProtocolVersion env = 1") (auto simp: encryptOverhead_def encryptionVersion_def)
  note size = encryptedLength_overhead [OF oh]
  from gcm.length_encrypted [OF assms(2) conjunct1 [OF size] c]
  have "length p \<le> oh + length (maybe_compressed env msg)" using size by simp
  then show ?thesis using True oh length_maybe_compressed [of env msg] by (simp add: crypt_overhead_def)
qed

subsection \<open>Who can open what a node encrypts\<close>

text \<open>
  The receiver uses the same cipher, encrypts if the sender does, has the sender's primary key,
  and no key it tries before opens the payload.
\<close>

definition can_open :: "net_env \<Rightarrow> net_env \<Rightarrow> bytes \<Rightarrow> bytes \<Rightarrow> bool" where
  "can_open s r c data \<longleftrightarrow>
     ne_cipher r = ne_cipher s \<and> EncryptionEnabled r = EncryptionEnabled s
     \<and> (EncryptionEnabled s \<longrightarrow>
         (\<exists>k key before after. ne_Keyring s = Some k \<and> GetPrimaryKey k = Some key
           \<and> ne_Keyring r = Some (before @ key # after)
           \<and> (\<forall>other \<in> set before. decryptMessage (gcm_Open (ne_cipher r)) other c data = None)))"

definition primary_key :: "net_env \<Rightarrow> key" where
  "primary_key env =
     (case ne_Keyring env of None \<Rightarrow> [] | Some k \<Rightarrow> (case GetPrimaryKey k of None \<Rightarrow> [] | Some key \<Rightarrow> key))"

lemma open_encrypted:
  assumes "can_open s r c data" "EncryptionEnabled s" "length random = nonceSize"
    and "encryptPayload (gcm_Seal (ne_cipher s)) random (encryptionVersion s) (primary_key s) msg data [] = Inr c"
  obtains k where "ne_Keyring r = Some k" "EncryptionEnabled r"
    "decryptPayload (gcm_Open (ne_cipher r)) (GetKeys k) c data = Some (Inr msg)"
proof -
  from assms(1,2) obtain k key before after where k: "ne_Keyring s = Some k" "GetPrimaryKey k = Some key"
    "ne_Keyring r = Some (before @ key # after)" "ne_cipher r = ne_cipher s" "EncryptionEnabled r"
    and other: "\<forall>other \<in> set before. decryptMessage (gcm_Open (ne_cipher r)) other c data = None"
    by (auto simp: can_open_def)
  then have "primary_key s = key" by (simp add: primary_key_def)
  moreover have "encryptionVersion s \<le> 1" by (simp add: encryptionVersion_def)
  ultimately have "decryptPayload (gcm_Open (ne_cipher r)) (before @ key # after) c data = Some (Inr msg)"
    using gcm.decrypt_encrypt [OF assms(3) _ assms(4), of before after] other k(4) by simp
  then show thesis using that [OF k(3,5)] by (simp add: GetKeys_def)
qed

end
