(* ===== verification/Transport.thy ===== *)
theory Transport
  imports Packet
begin

section \<open>UDP messages (memberlist/net.go, memberlist/state.go)\<close>

text \<open>
  The goroutine that reads packets unpacks them, answers pings and acks itself and hands the
  rest to a second goroutine through a bounded channel. Every message that is sent takes along
  what the queues of broadcasts have for it. A send on a socket is taken to succeed: its error
  is only logged.
\<close>

subsection \<open>State\<close>

type_synonym udp_addr = "bytes \<times> nat"

record ackMessage =
  am_Complete :: bool
  am_Payload :: bytes
  am_Timestamp :: int

text \<open>A handler of an ack sends to the channel of a probe, or passes the ack on to who asked for the ping.\<close>

datatype ackHandler = AckChannel nat | ForwardAck udp_addr "32 word"

type_synonym msgHandoff = "byte \<times> bytes \<times> udp_addr"

record net_state =
  nt_sequenceNum :: "32 word"
  nt_ackHandlers :: "32 word \<rightharpoonup> ackHandler"
  nt_channels :: "nat \<Rightarrow> ackMessage list"
  nt_handoff :: "msgHandoff list"
  nt_queue :: "memberlistBroadcast limitedBroadcast list"
  nt_serf :: serf_queues
  nt_sent :: "(udp_addr \<times> bytes) list"

subsection \<open>Sending\<close>

text \<open>The second result is whether there was no error.\<close>

definition rawSendMsgUDP :: "net_env \<Rightarrow> udp_addr \<Rightarrow> bytes \<Rightarrow> net_state \<Rightarrow> net_state \<times> bool" where
  "rawSendMsgUDP env dest msg st =
     (case udp_packet env (length (nt_sent st)) msg of
        None \<Rightarrow> (st, False)
      | Some p \<Rightarrow> (st\<lparr>nt_sent := nt_sent st @ [(dest, p)]\<rparr>, True))"

definition take_gossip :: "net_env \<Rightarrow> int \<Rightarrow> net_state \<Rightarrow> net_state \<times> bytes list" where
  "take_gossip env limit st =
     (let (q, s, msgs) = getBroadcasts (ne_sort env) (ne_sort_serf env) (ne_transmitLimit env)
            (ne_transmitLimit_serf env) compoundOverhead limit (nt_queue st) (nt_serf st)
      in (st\<lparr>nt_queue := q, nt_serf := s\<rparr>, msgs))"

definition sendMsg :: "net_env \<Rightarrow> udp_addr \<Rightarrow> bytes \<Rightarrow> net_state \<Rightarrow> net_state \<times> bool" where
  "sendMsg env dest msg st =
     (let bytesAvail = udpSendBuf - int (length msg) - compoundHeaderOverhead - crypt_overhead env;
          (st1, extra) = take_gossip env bytesAvail st
      in if extra = [] then rawSendMsgUDP env dest msg st1
         else rawSendMsgUDP env dest (makeCompoundMessage (msg # extra)) st1)"

definition encodeAndSendMsg ::
  "net_env \<Rightarrow> udp_addr \<Rightarrow> byte \<Rightarrow> bytes option \<Rightarrow> net_state \<Rightarrow> net_state \<times> bool" where
  "encodeAndSendMsg env dest msgType encoded st =
     (case encoded of None \<Rightarrow> (st, False) | Some b \<Rightarrow> sendMsg env dest (msgType # b) st)"

subsection \<open>Acks\<close>

definition nextSeqNo :: "net_state \<Rightarrow> net_state \<times> 32 word" where
  "nextSeqNo st = (let n = nt_sequenceNum st + 1 in (st\<lparr>nt_sequenceNum := n\<rparr>, n))"

text \<open>\<open>select { case ch <- msg: default: }\<close> on a channel with room for \<open>IndirectChecks + 1\<close> messages.\<close>

definition offer :: "net_env \<Rightarrow> nat \<Rightarrow> ackMessage \<Rightarrow> net_state \<Rightarrow> net_state" where
  "offer env ch msg st =
     (if length (nt_channels st ch) < ne_IndirectChecks env + 1
      then st\<lparr>nt_channels := (nt_channels st)(ch := nt_channels st ch @ [msg])\<rparr> else st)"

definition setAckChannel :: "32 word \<Rightarrow> nat \<Rightarrow> net_state \<Rightarrow> net_state" where
  "setAckChannel seqNo ch st = st\<lparr>nt_ackHandlers := (nt_ackHandlers st)(seqNo \<mapsto> AckChannel ch)\<rparr>"

definition setAckHandler :: "32 word \<Rightarrow> ackHandler \<Rightarrow> net_state \<Rightarrow> net_state" where
  "setAckHandler seqNo h st = st\<lparr>nt_ackHandlers := (nt_ackHandlers st)(seqNo \<mapsto> h)\<rparr>"

text \<open>The timers of the two; \<open>time.Now()\<close> is an argument.\<close>

definition ack_timeout :: "net_env \<Rightarrow> 32 word \<Rightarrow> ackHandler \<Rightarrow> int \<Rightarrow> net_state \<Rightarrow> net_state" where
  "ack_timeout env seqNo h now st =
     (let st1 = st\<lparr>nt_ackHandlers := (nt_ackHandlers st)(seqNo := None)\<rparr> in
      case h of
        AckChannel ch \<Rightarrow> offer env ch \<lparr>am_Complete = False, am_Payload = [], am_Timestamp = now\<rparr> st1
      | ForwardAck from seq \<Rightarrow> st1)"

definition invokeAckHandler :: "net_env \<Rightarrow> ackResp \<Rightarrow> int \<Rightarrow> net_state \<Rightarrow> net_state" where
  "invokeAckHandler env ack timestamp st =
     (let st1 = st\<lparr>nt_ackHandlers := (nt_ackHandlers st)(ak_SeqNo ack := None)\<rparr> in
      case nt_ackHandlers st (ak_SeqNo ack) of
        None \<Rightarrow> st1
      | Some (AckChannel ch) \<Rightarrow>
          offer env ch \<lparr>am_Complete = True, am_Payload = ak_Payload ack, am_Timestamp = timestamp\<rparr> st1
      | Some (ForwardAck from seq) \<Rightarrow>
          fst (encodeAndSendMsg env from ackRespMsg (ne_encode_ack env \<lparr>ak_SeqNo = seq, ak_Payload = []\<rparr>) st1))"

subsection \<open>Messages that are handled at once\<close>

definition handlePing :: "net_env \<Rightarrow> bytes \<Rightarrow> udp_addr \<Rightarrow> net_state \<Rightarrow> net_state" where
  "handlePing env buf from st =
     (case ne_decode_ping env buf of
        None \<Rightarrow> st
      | Some p \<Rightarrow>
          if pi_Node p \<noteq> [] \<and> pi_Node p \<noteq> ne_Name env then st
          else fst (encodeAndSendMsg env from ackRespMsg
            (ne_encode_ack env
               \<lparr>ak_SeqNo = pi_SeqNo p, ak_Payload = (case ne_AckPayload env of None \<Rightarrow> [] | Some b \<Rightarrow> b)\<rparr>) st))"

definition masked_port :: "net_env \<Rightarrow> 16 word \<Rightarrow> 16 word" where
  "masked_port env port = (if ne_ProtocolVersion env < 2 \<or> port = 0 then ne_BindPort env else port)"

definition handleIndirectPing :: "net_env \<Rightarrow> bytes \<Rightarrow> udp_addr \<Rightarrow> net_state \<Rightarrow> net_state" where
  "handleIndirectPing env buf from st =
     (case ne_decode_indirect env buf of
        None \<Rightarrow> st
      | Some ind \<Rightarrow>
          (let (st1, localSeqNo) = nextSeqNo st;
               st2 = setAckHandler localSeqNo (ForwardAck from (ip_SeqNo ind)) st1
           in fst (encodeAndSendMsg env (ip_Target ind, unat (masked_port env (ip_Port ind))) pingMsg
                (ne_encode_ping env \<lparr>pi_SeqNo = localSeqNo, pi_Node = ip_Node ind\<rparr>) st2)))"

definition handleAck :: "net_env \<Rightarrow> bytes \<Rightarrow> int \<Rightarrow> net_state \<Rightarrow> net_state" where
  "handleAck env buf timestamp st =
     (case ne_decode_ack env buf of None \<Rightarrow> st | Some ack \<Rightarrow> invokeAckHandler env ack timestamp st)"

definition handoff_size :: nat where "handoff_size = 1024"

definition hand_off :: "msgHandoff \<Rightarrow> net_state \<Rightarrow> net_state" where
  "hand_off h st =
     (if length (nt_handoff st) < handoff_size then st\<lparr>nt_handoff := nt_handoff st @ [h]\<rparr> else st)"

text \<open>A message that is neither compound nor compressed.\<close>

definition handle_message :: "net_env \<Rightarrow> udp_addr \<Rightarrow> int \<Rightarrow> byte \<Rightarrow> bytes \<Rightarrow> net_state \<Rightarrow> net_state" where
  "handle_message env from timestamp msgType buf st =
     (if msgType = pingMsg then handlePing env buf from st
      else if msgType = indirectPingMsg then handleIndirectPing env buf from st
      else if msgType = ackRespMsg then handleAck env buf timestamp st
      else if msgType = suspectMsg \<or> msgType = aliveMsg \<or> msgType = deadMsg \<or> msgType = userMsg
      then hand_off (msgType, buf, from) st
      else st)"

subsection \<open>Packets\<close>

fun run_all :: "('a \<Rightarrow> 's \<Rightarrow> 's run) \<Rightarrow> 'a list \<Rightarrow> 's \<Rightarrow> 's run" where
  "run_all f [] s = Returns s"
| "run_all f (x # xs) s = (case f x s of Returns s' \<Rightarrow> run_all f xs s' | r \<Rightarrow> r)"

definition handleCompound :: "(slice \<Rightarrow> net_state \<Rightarrow> net_state run) \<Rightarrow> slice \<Rightarrow> net_state \<Rightarrow> net_state run" where
  "handleCompound handle s st =
     (case decodeCompoundMessage s of
        None \<Rightarrow> Panics
      | Some (Inl e) \<Rightarrow> Returns st
      | Some (Inr (trunc, parts)) \<Rightarrow> run_all handle parts st)"

definition handleCompressed ::
  "net_env \<Rightarrow> (slice \<Rightarrow> net_state \<Rightarrow> net_state run) \<Rightarrow> bytes \<Rightarrow> net_state \<Rightarrow> net_state run" where
  "handleCompressed env handle buf st =
     (case decompressPayload env buf of None \<Rightarrow> Returns st | Some payload \<Rightarrow> handle payload st)"

text \<open>The depth bounds the recursion; an empty message panics at \<open>buf[0]\<close>.\<close>

primrec handleCommand :: "nat \<Rightarrow> net_env \<Rightarrow> udp_addr \<Rightarrow> int \<Rightarrow> slice \<Rightarrow> net_state \<Rightarrow> net_state run" where
  "handleCommand 0 env from timestamp s st = Hangs"
| "handleCommand (Suc depth) env from timestamp s st =
     (case fst s of
        [] \<Rightarrow> Panics
      | msgType # buf \<Rightarrow>
          if msgType = compoundMsg then handleCompound (handleCommand depth env from timestamp) (buf, snd s) st
          else if msgType = compressMsg then handleCompressed env (handleCommand depth env from timestamp) buf st
          else Returns (handle_message env from timestamp msgType buf st))"

definition ingestPacket :: "nat \<Rightarrow> net_env \<Rightarrow> slice \<Rightarrow> udp_addr \<Rightarrow> int \<Rightarrow> net_state \<Rightarrow> net_state run" where
  "ingestPacket depth env s from timestamp st =
     (case ne_Keyring env of
        None \<Rightarrow> handleCommand depth env from timestamp s st
      | Some k \<Rightarrow>
          if EncryptionEnabled env then
            (case decryptPayload (gcm_Open (ne_cipher env)) (GetKeys k) (fst s) [] of
               None \<Rightarrow> Panics
             | Some (Inl e) \<Rightarrow> Returns st
             | Some (Inr plain) \<Rightarrow> handleCommand depth env from timestamp (plain, ne_spare env (fst s)) st)
          else handleCommand depth env from timestamp s st)"

subsection \<open>Messages that are handed over\<close>

text \<open>The second goroutine; the last result is what the delegate is given.\<close>

definition handleAlive :: "net_env \<Rightarrow> swim_env \<Rightarrow> bytes \<Rightarrow> memberlist \<Rightarrow> (memberlist \<times> swim_output list) run" where
  "handleAlive env senv buf m =
     (case ne_decode_alive env buf of
        None \<Rightarrow> Returns (m, [])
      | Some a \<Rightarrow> aliveNode senv (a\<lparr>al_Port := masked_port env (al_Port a)\<rparr>) False m)"

definition handleSuspect :: "net_env \<Rightarrow> swim_env \<Rightarrow> bytes \<Rightarrow> memberlist \<Rightarrow> (memberlist \<times> swim_output list) run" where
  "handleSuspect env senv buf m =
     (case ne_decode_suspect env buf of None \<Rightarrow> Returns (m, []) | Some s \<Rightarrow> suspectNode senv s m)"

definition handleDead :: "net_env \<Rightarrow> swim_env \<Rightarrow> bytes \<Rightarrow> memberlist \<Rightarrow> (memberlist \<times> swim_output list) run" where
  "handleDead env senv buf m =
     (case ne_decode_dead env buf of None \<Rightarrow> Returns (m, []) | Some d \<Rightarrow> deadNode senv d m)"

definition udpHandler ::
  "net_env \<Rightarrow> swim_env \<Rightarrow> msgHandoff \<Rightarrow> memberlist \<Rightarrow> (memberlist \<times> swim_output list) run \<times> bytes list" where
  "udpHandler env senv h m =
     (let (msgType, buf, from) = h in
      if msgType = suspectMsg then (handleSuspect env senv buf m, [])
      else if msgType = aliveMsg then (handleAlive env senv buf m, [])
      else if msgType = deadMsg then (handleDead env senv buf m, [])
      else if msgType = userMsg then (Returns (m, []), [buf])
      else (Returns (m, []), []))"

end
