(* ===== verification/TransportProps.thy ===== *)
theory TransportProps
  imports Transport
begin

section \<open>Properties of UDP messages\<close>

text \<open>
  What a node sends reaches the handlers of a node that can read it, in order and unchanged,
  through compound messages, compression and encryption; how long packets get; and the packets
  that the arithmetic of bytes gets wrong.
\<close>

subsection \<open>Messages in packets\<close>

definition plain_message :: "bytes \<Rightarrow> bool" where
  "plain_message m \<longleftrightarrow> m \<noteq> [] \<and> hd m \<noteq> compoundMsg \<and> hd m \<noteq> compressMsg"

definition handle_all :: "net_env \<Rightarrow> udp_addr \<Rightarrow> int \<Rightarrow> bytes list \<Rightarrow> net_state \<Rightarrow> net_state" where
  "handle_all env from timestamp msgs = fold (\<lambda>m. handle_message env from timestamp (hd m) (tl m)) msgs"

lemma handleCommand_plain:
  "plain_message m \<Longrightarrow>
     handleCommand (Suc d) env from t (m, spare) st = Returns (handle_message env from t (hd m) (tl m) st)"
  by (cases m) (simp_all add: plain_message_def)

lemma run_all_parts:
  "\<forall>m \<in> set ms. plain_message m \<Longrightarrow>
     run_all (handleCommand (Suc d) env from t) (parts_of ms spare) st = Returns (handle_all env from t ms st)"
proof (induction ms arbitrary: st)
  case (Cons m ms)
  then have m: "plain_message m" and ms: "\<forall>m \<in> set ms. plain_message m" by simp_all
  show ?case
    by (simp only: parts_of.simps run_all.simps handleCommand_plain [OF m] run.case Cons.IH [OF ms])
      (simp add: handle_all_def)
qed (simp add: handle_all_def)

lemma handleCommand_compound:
  assumes "\<forall>m \<in> set ms. plain_message m \<and> length m < 65536" "length ms < 128"
  shows "handleCommand (Suc (Suc d)) env from t (makeCompoundMessage ms, spare) st
    = Returns (handle_all env from t ms st)"
proof -
  have "decodeCompoundMessage (tl (makeCompoundMessage ms), spare) = Some (Inr (0, parts_of ms spare))"
    using assms by (intro decode_makeCompoundMessage) auto
  moreover have "makeCompoundMessage ms = compoundMsg # tl (makeCompoundMessage ms)"
    by (simp add: makeCompoundMessage_def)
  ultimately show ?thesis
    using run_all_parts [of ms d env "from" t spare st] assms(1)
    by (subst handleCommand.simps(2))
      (simp add: handleCompound_def makeCompoundMessage_def del: handleCommand.simps(2))
qed

text \<open>What \<open>sendMsg\<close> makes of a message and the broadcasts that go with it.\<close>

definition joined :: "bytes \<Rightarrow> bytes list \<Rightarrow> bytes" where
  "joined msg extra = (if extra = [] then msg else makeCompoundMessage (msg # extra))"

lemma handleCommand_joined:
  assumes "\<forall>m \<in> set (msg # extra). plain_message m \<and> length m < 65536" "length (msg # extra) < 128"
  shows "handleCommand (Suc (Suc d)) env from t (joined msg extra, spare) st
    = Returns (handle_all env from t (msg # extra) st)"
proof (cases "extra = []")
  case True
  then show ?thesis using handleCommand_plain [of msg "Suc d"] assms(1)
    by (simp add: joined_def handle_all_def)
next
  case False
  then show ?thesis using handleCommand_compound [OF assms] by (simp add: joined_def)
qed

lemma handleCommand_maybe_compressed:
  assumes "codec_reads s r" "\<And>d spare. handleCommand (Suc (Suc d)) r from t (msg, spare) st = Returns st'"
  shows "handleCommand (Suc (Suc (Suc d))) r from t (maybe_compressed s msg, spare) st = Returns st'"
proof (cases "maybe_compressed s msg = msg")
  case True
  then show ?thesis using assms(2) [of "Suc d"] by simp
next
  case False
  then obtain buf where "compressPayload s msg = Some buf" "maybe_compressed s msg = buf"
    by (auto simp: maybe_compressed_def split: if_splits option.splits)
  with decompress_compress [OF assms(1)] obtain body spare' where
    "maybe_compressed s msg = compressMsg # body" "decompressPayload r body = Some (msg, spare')" by blast
  then show ?thesis using assms(2) [of d spare']
    by (subst handleCommand.simps(2))
      (simp add: handleCompressed_def compoundMsg_def compressMsg_def del: handleCommand.simps(2))
qed

subsection \<open>From one node to another\<close>

text \<open>The receiver can open the packet, and its codec reads what the sender's writes.\<close>

definition can_read :: "net_env \<Rightarrow> net_env \<Rightarrow> bytes \<Rightarrow> bool" where
  "can_read s r p \<longleftrightarrow> codec_reads s r \<and> can_open s r p []"

lemma ingest_udp_packet:
  assumes "udp_packet s n msg = Some p" "can_read s r p" "length (ne_random s n) = nonceSize"
  shows "\<exists>spare'. ingestPacket d r (p, spare) from t st = handleCommand d r from t (maybe_compressed s msg, spare') st"
proof (cases "EncryptionEnabled s")
  case False
  then have "p = maybe_compressed s msg"
    using assms(1) by (auto simp: udp_packet_def Let_def split: option.splits)
  then show ?thesis using False assms(2)
    by (auto simp: ingestPacket_def can_read_def can_open_def split: option.splits)
next
  case True
  then have "encryptPayload (gcm_Seal (ne_cipher s)) (ne_random s n) (encryptionVersion s) (primary_key s)
      (maybe_compressed s msg) [] [] = Inr p"
    using assms(1)
    by (auto simp: udp_packet_def Let_def primary_key_def EncryptionEnabled_def split: sum.splits option.splits)
  moreover have "can_open s r p []" using assms(2) by (simp add: can_read_def)
  ultimately obtain k where "ne_Keyring r = Some k" "EncryptionEnabled r"
    "decryptPayload (gcm_Open (ne_cipher r)) (GetKeys k) p [] = Some (Inr (maybe_compressed s msg))"
    using open_encrypted True assms(3) by metis
  then show ?thesis by (simp add: ingestPacket_def) blast
qed

definition piggyback :: "net_env \<Rightarrow> bytes \<Rightarrow> net_state \<Rightarrow> net_state \<times> bytes list" where
  "piggyback env msg st =
     take_gossip env (udpSendBuf - int (length msg) - compoundHeaderOverhead - crypt_overhead env) st"

lemma sendMsg_eq:
  "sendMsg env dest msg st = (let (st1, extra) = piggyback env msg st in rawSendMsgUDP env dest (joined msg extra) st1)"
  by (simp add: sendMsg_def piggyback_def joined_def Let_def split: prod.split)

lemma take_gossip_sent: "take_gossip env limit st = (st1, extra) \<Longrightarrow> nt_sent st1 = nt_sent st"
  by (auto simp: take_gossip_def Let_def split: prod.splits)

lemma sendMsg_packet:
  assumes "sendMsg env dest msg st = (st', True)" "piggyback env msg st = (st1, extra)"
  obtains p where "udp_packet env (length (nt_sent st)) (joined msg extra) = Some p"
    "st' = st1\<lparr>nt_sent := nt_sent st @ [(dest, p)]\<rparr>"
  using assms take_gossip_sent [of env _ st st1 extra]
  by (auto simp: sendMsg_eq rawSendMsgUDP_def piggyback_def split: option.splits)

subsection \<open>A node\<close>

definition demo_net :: net_env where
  "demo_net =
     \<lparr>ne_Name = ''a'', ne_BindPort = 7946, ne_ProtocolVersion = 2, ne_EnableCompression = True,
      ne_Keyring = Some [replicate 16 7], ne_AckPayload = None,
      ne_decode_ping = (\<lambda>b. if b = [] then None else Some \<lparr>pi_SeqNo = ucast (hd b), pi_Node = bytes_string (tl b)\<rparr>),
      ne_decode_indirect = (\<lambda>b. None),
      ne_decode_ack = (\<lambda>b. if b = [] then None else Some \<lparr>ak_SeqNo = ucast (hd b), ak_Payload = tl b\<rparr>),
      ne_decode_suspect = (\<lambda>b. None), ne_decode_alive = (\<lambda>b. None), ne_decode_dead = (\<lambda>b. None),
      ne_decode_compress = (\<lambda>b. if b = [] then None else Some \<lparr>cm_Algo = hd b, cm_Buf = tl b\<rparr>),
      ne_encode_ping = (\<lambda>p. Some (ucast (pi_SeqNo p) # string_bytes (pi_Node p))),
      ne_encode_indirect = (\<lambda>i. None),
      ne_encode_ack = (\<lambda>a. Some (ucast (ak_SeqNo a) # ak_Payload a)),
      ne_encode_compress = (\<lambda>c. Some (cm_Algo c # cm_Buf c)),
      ne_lzw_write = Some, ne_lzw_read = (\<lambda>b. Some (b, [])),
      ne_cipher = demo_cipher, ne_random = (\<lambda>n. replicate 12 0), ne_spare = (\<lambda>b. []),
      ne_IndirectChecks = 3, ne_sort = id, ne_sort_serf = id, ne_transmitLimit = 3, ne_transmitLimit_serf = 3\<rparr>"

definition demo_net_state :: net_state where
  "demo_net_state =
     \<lparr>nt_sequenceNum = 0, nt_ackHandlers = Map.empty, nt_channels = (\<lambda>n. []), nt_handoff = [],
      nt_queue = demo_queue, nt_serf = demo_serf_queues, nt_sent = []\<rparr>"

definition demo_gossip :: "bytes list" where
  "demo_gossip = [[4], [4, 1], [8, 1], [8, 3, 0]]"

lemma demo_piggyback: "snd (piggyback demo_net [0, 1] demo_net_state) = demo_gossip"
  by code_simp

lemma demo_net_codec: "codec_reads demo_net demo_net"
  by (auto simp: codec_reads_def demo_net_def)

lemma demo_net_reads: "can_read demo_net demo_net p"
  unfolding can_read_def can_open_def using demo_net_codec
  by (auto simp: demo_net_def EncryptionEnabled_def GetKeys_def GetPrimaryKey_def intro!: exI [of _ "[]"])

lemma demo_sendMsg: "\<exists>st'. sendMsg demo_net dest msg st = (st', True)"
  by (simp add: sendMsg_eq rawSendMsgUDP_def udp_packet_def encryptPayload_eq Let_def demo_net_def
      EncryptionEnabled_def GetKeys_def GetPrimaryKey_def key_size_def encryptionVersion_def split: prod.split)

text \<open>C34: What is sent arrives. The packet that \<open>sendMsg\<close> makes of a message and the broadcasts it takes
  along, compressed and encrypted as the sender is set up, has a receiver that can read it handle
  the message and then each broadcast, whole and in order, and does nothing else; the recursion
  goes no deeper than three calls.\<close>

theorem sent_messages_are_handled:
  assumes "sendMsg s dest msg st = (st', True)" "piggyback s msg st = (st1, extra)"
    and "\<forall>m \<in> set (msg # extra). plain_message m \<and> length m < 65536" "length (msg # extra) < 128"
    and "can_read s r (snd (last (nt_sent st')))" "\<forall>n. length (ne_random s n) = nonceSize"
  shows "ingestPacket (Suc (Suc (Suc d))) r (snd (last (nt_sent st')), spare) from t str
    = Returns (handle_all r from t (msg # extra) str)"
proof -
  obtain p where p: "udp_packet s (length (nt_sent st)) (joined msg extra) = Some p"
    "st' = st1\<lparr>nt_sent := nt_sent st @ [(dest, p)]\<rparr>"
    using sendMsg_packet [OF assms(1,2)] .
  then have last: "snd (last (nt_sent st')) = p" by simp
  have codec: "codec_reads s r" using assms(5) by (simp add: can_read_def)
  obtain spare' where
    "ingestPacket (Suc (Suc (Suc d))) r (p, spare) from t str
       = handleCommand (Suc (Suc (Suc d))) r from t (maybe_compressed s (joined msg extra), spare') str"
    using ingest_udp_packet [OF p(1) _ spec [OF assms(6)]] assms(5) unfolding last by blast
  also have "\<dots> = Returns (handle_all r from t (msg # extra) str)"
    by (rule handleCommand_maybe_compressed [OF codec handleCommand_joined [OF assms(3,4)]])
  finally show ?thesis unfolding last .
qed

lemma sent_messages_are_handled_witness:
  "\<exists>p. ingestPacket 3 demo_net (p, []) ([127, 0, 0, 1], 7946) 5 demo_net_state
     = Returns (handle_all demo_net ([127, 0, 0, 1], 7946) 5 ([0, 1] # demo_gossip) demo_net_state)"
proof -
  obtain st1 where g: "piggyback demo_net [0, 1] demo_net_state = (st1, demo_gossip)"
    using demo_piggyback by (metis prod.collapse)
  obtain st' where sent: "sendMsg demo_net ([], 0) [0, 1] demo_net_state = (st', True)" using demo_sendMsg by blast
  have "ingestPacket (Suc (Suc (Suc 0))) demo_net (snd (last (nt_sent st')), []) ([127, 0, 0, 1], 7946) 5 demo_net_state
     = Returns (handle_all demo_net ([127, 0, 0, 1], 7946) 5 ([0, 1] # demo_gossip) demo_net_state)"
    by (rule sent_messages_are_handled [OF sent g])
      (simp_all add: demo_net_reads, simp_all add: demo_gossip_def demo_net_def plain_message_def message_types)
  then show ?thesis unfolding numeral_3_eq_3 by (rule exI [of _ "snd (last (nt_sent st'))"])
qed

subsection \<open>How long packets get\<close>

lemma GetBroadcasts_negative:
  assumes "limit < 0" "0 \<le> overhead"
  shows "fst (snd (GetBroadcasts sorter msg n overhead limit q)) = []"
proof -
  obtain q' sent fin where g: "GetBroadcasts sorter msg n overhead limit q = (q', sent, fin)"
    by (metis prod_cases3)
  have "0 \<le> bytes_used overhead (map msg sent)"
    unfolding bytes_used_def using assms(2) by (intro sum_list_nonneg) auto
  then have "sent = []" using GetBroadcasts_bytes [OF g] assms(1) by (cases "sent = []") auto
  then show ?thesis by (simp add: g)
qed

lemma take_gossip_bytes:
  assumes "take_gossip env limit st = (st1, extra)" "extra \<noteq> []"
  shows "bytes_used compoundOverhead extra \<le> limit"
proof -
  obtain q s where g: "getBroadcasts (ne_sort env) (ne_sort_serf env) (ne_transmitLimit env)
      (ne_transmitLimit_serf env) compoundOverhead limit (nt_queue st) (nt_serf st) = (q, s, extra)"
    using assms(1) by (auto simp: take_gossip_def Let_def split: prod.splits)
  show ?thesis
  proof (cases "0 \<le> limit")
    case True
    then show ?thesis by (intro gossip_fits_its_packet [OF g]) (simp_all add: compoundOverhead_def)
  next
    case False
    then have "fst (snd (GetBroadcasts (ne_sort env) mbc_msg (ne_transmitLimit env) compoundOverhead limit (nt_queue st))) = []"
      by (intro GetBroadcasts_negative) (simp_all add: compoundOverhead_def)
    then have "extra = []"
      using g False by (auto simp: getBroadcasts_def Let_def compoundOverhead_def userMsgOverhead_def split: prod.splits if_splits)
    with assms(2) show ?thesis by simp
  qed
qed

text \<open>No packet with gossip is longer than the limit of 1400 bytes for UDP, and two: \<open>sendMsg\<close> sets aside
  what the compound message and the encryption add, except for the entry of the message itself in
  the table of lengths. A message without gossip is sent as it is, however long.\<close>

theorem packets_stay_small:
  assumes "sendMsg env dest msg st = (st', True)" "piggyback env msg st = (st1, extra)"
    and "\<forall>n. length (ne_random env n) = nonceSize"
  shows "\<exists>p. nt_sent st' = nt_sent st @ [(dest, p)]
    \<and> int (length p) \<le> (if extra = [] then int (length msg) + crypt_overhead env else udpSendBuf + 2)"
proof -
  obtain p where p: "udp_packet env (length (nt_sent st)) (joined msg extra) = Some p"
    "st' = st1\<lparr>nt_sent := nt_sent st @ [(dest, p)]\<rparr>"
    using sendMsg_packet [OF assms(1,2)] .
  have len: "int (length p) \<le> int (length (joined msg extra)) + crypt_overhead env"
    by (rule length_udp_packet [OF p(1) spec [OF assms(3)]])
  have "int (length (joined msg extra)) + crypt_overhead env \<le> udpSendBuf + 2" if "extra \<noteq> []"
    using take_gossip_bytes [OF assms(2) [unfolded piggyback_def] that] that length_makeCompoundMessage [of "msg # extra"]
    by (simp add: joined_def compoundHeaderOverhead_def compoundOverhead_def)
  with len p(2) show ?thesis by (cases "extra = []") (auto simp: joined_def)
qed

lemma packets_stay_small_witness:
  "\<exists>st' :: net_state. \<exists>p. nt_sent st' = nt_sent demo_net_state @ [(([], 0), p)] \<and> int (length p) \<le> udpSendBuf + 2"
proof -
  obtain st1 where g: "piggyback demo_net [0, 1] demo_net_state = (st1, demo_gossip)"
    using demo_piggyback by (metis prod.collapse)
  obtain st' where sent: "sendMsg demo_net ([], 0) [0, 1] demo_net_state = (st', True)" using demo_sendMsg by blast
  have "\<exists>p. nt_sent st' = nt_sent demo_net_state @ [(([], 0), p)]
    \<and> int (length p) \<le> (if demo_gossip = [] then int (length [0, 1 :: byte]) + crypt_overhead demo_net else udpSendBuf + 2)"
    by (rule packets_stay_small [OF sent g]) (simp add: demo_net_def)
  moreover have "demo_gossip \<noteq> []" by (simp add: demo_gossip_def)
  ultimately show ?thesis by (simp only: if_False) blast
qed

text \<open>The two bytes are there: a message of 98 bytes with a broadcast of 1298.\<close>

definition demo_plain :: net_env where
  "demo_plain = demo_net\<lparr>ne_Keyring := None, ne_EnableCompression := False\<rparr>"

definition demo_full :: net_state where
  "demo_full = demo_net_state\<lparr>
     nt_queue := [\<lparr>lb_transmits = 0, lb_b = \<lparr>mbc_node = ''a'', mbc_msg = replicate 1298 4\<rparr>\<rparr>],
     nt_serf := \<lparr>gq_intents = [], gq_queries = [], gq_events = []\<rparr>\<rparr>"

lemma packet_exceeds_limit:
  "length (snd (last (nt_sent (fst (sendMsg demo_plain ([], 0) (replicate 98 0) demo_full))))) = 1402"
  by (simp add: sendMsg_def rawSendMsgUDP_def udp_packet_def maybe_compressed_def take_gossip_def getBroadcasts_def
      GetBroadcasts_def serf_GetBroadcasts_def Let_def demo_plain_def demo_full_def demo_net_def demo_net_state_def
      crypt_overhead_def EncryptionEnabled_def udpSendBuf_def compoundHeaderOverhead_def compoundOverhead_def
      userMsgOverhead_def makeCompoundMessage_def)

subsection \<open>Packets that are misread\<close>

text \<open>With 128 parts the product \<open>numParts*2\<close> of bytes is 0: the table of lengths is taken for the messages.\<close>

lemma replicate_128: "replicate 128 y = y # replicate 127 y"
  using replicate_Suc [of 127 y] by simp

lemma compound_of_128_is_misread:
  "\<exists>trunc parts. decodeCompoundMessage (tl (makeCompoundMessage (replicate 128 [x])), spare) = Some (Inr (trunc, parts))
    \<and> fst (hd parts) = [0]"
proof -
  let ?T = "concat (map (be_bytes 2) (replicate 128 1))" and ?M = "concat (replicate 128 [x])"
  have msg: "tl (makeCompoundMessage (replicate 128 [x])) = 128 # ?T @ ?M"
    by (simp add: makeCompoundMessage_def map_replicate_const)
  have "compound_lengths 128 (?T @ ?M @ spare) = Some (replicate 128 1)"
    using compound_lengths_table [of "replicate 128 1" "?M @ spare"] by simp
  moreover have "unat (128 :: byte) = 128" "unat (128 * 2 :: byte) = 0" by simp_all
  ultimately have "decodeCompoundMessage (128 # ?T @ ?M, spare) = Some (Inr (split_parts (replicate 128 1) (?T @ ?M, spare)))"
    unfolding decodeCompoundMessage_def by (simp only: prod.case list.case append_assoc option.case drop_0 not_less0 if_False)
  moreover have "fst (hd (snd (split_parts (replicate 128 1) (?T @ ?M, spare)))) = [0]"
    unfolding replicate_128 by (simp add: numeral_2_eq_2 split: prod.split)
  ultimately show ?thesis unfolding msg by (metis prod.collapse)
qed

text \<open>An empty part, like an empty message, panics.\<close>

lemma empty_part_panics:
  "handleCommand (Suc (Suc d)) env src t (makeCompoundMessage [[]], spare) st = Panics"
  using decode_makeCompoundMessage [of "[[]]" spare]
  by (simp add: handleCompound_def makeCompoundMessage_def)

text \<open>
  Nothing bounds what a packet unpacks to: one that decompresses to itself is unpacked for ever.
\<close>

lemma self_compressed_packet_hangs:
  assumes "decompressPayload env body = Some (compressMsg # body, spare)"
  shows "handleCommand d env src t (compressMsg # body, spare) st = Hangs"
  using assms by (induction d) (simp_all add: handleCompressed_def message_types)

end
