(* ===== verification/Verify.thy ===== *)
theory Verify
  imports Swim
begin

section \<open>Which clusters may merge (memberlist/state.go, verifyProtocol)\<close>

text \<open>
  Before the state of another node is merged, the versions that both clusters' alive nodes
  understand are intersected, and the version every node speaks must be in the intersection.
\<close>

subsection \<open>The code\<close>

record ranges =
  maxpmin :: byte
  minpmax :: byte
  maxdmin :: byte
  mindmax :: byte

definition all_versions :: ranges where
  "all_versions = \<lparr>maxpmin = 0, minpmax = 255, maxdmin = 0, mindmax = 255\<rparr>"

definition narrow :: "byte \<Rightarrow> byte \<Rightarrow> byte \<Rightarrow> byte \<Rightarrow> ranges \<Rightarrow> ranges" where
  "narrow pmin pmax dmin dmax r =
     r\<lparr>maxpmin := (if maxpmin r < pmin then pmin else maxpmin r),
       minpmax := (if pmax < minpmax r then pmax else minpmax r),
       maxdmin := (if maxdmin r < dmin then dmin else maxdmin r),
       mindmax := (if dmax < mindmax r then dmax else mindmax r)\<rparr>"

text \<open>\<open>None\<close> is a panic: a vector of versions that is too short.\<close>

fun narrow_remote :: "pushNodeState list \<Rightarrow> ranges \<Rightarrow> ranges option" where
  "narrow_remote [] r = Some r"
| "narrow_remote (n # ns) r =
     (if pn_State n \<noteq> stateAlive then narrow_remote ns r
      else if pn_Vsn n = [] then narrow_remote ns r
      else if length (pn_Vsn n) < 5 then None
      else narrow_remote ns (narrow (pn_Vsn n ! 0) (pn_Vsn n ! 1) (pn_Vsn n ! 3) (pn_Vsn n ! 4) r))"

fun narrow_local :: "nodeState list \<Rightarrow> ranges \<Rightarrow> ranges" where
  "narrow_local [] r = r"
| "narrow_local (n # ns) r =
     (if ns_State n \<noteq> stateAlive then narrow_local ns r
      else narrow_local ns (narrow (n_PMin n) (n_PMax n) (n_DMin n) (n_DMax n) r))"

datatype version_error = ProtocolIncompatible string byte ranges | DelegateIncompatible string byte ranges

definition check_versions :: "ranges \<Rightarrow> string \<Rightarrow> byte \<Rightarrow> byte \<Rightarrow> version_error option" where
  "check_versions r name pcur dcur =
     (if pcur < maxpmin r \<or> minpmax r < pcur then Some (ProtocolIncompatible name pcur r)
      else if dcur < maxdmin r \<or> mindmax r < dcur then Some (DelegateIncompatible name dcur r)
      else None)"

fun check_remote :: "ranges \<Rightarrow> pushNodeState list \<Rightarrow> version_error option option" where
  "check_remote r [] = Some None"
| "check_remote r (n # ns) =
     (if pn_Vsn n \<noteq> [] \<and> length (pn_Vsn n) < 6 then None
      else
        (let nPCur = (if pn_Vsn n = [] then 0 else pn_Vsn n ! 2);
             nDCur = (if pn_Vsn n = [] then 0 else pn_Vsn n ! 5)
         in case check_versions r (pn_Name n) nPCur nDCur of
              Some e \<Rightarrow> Some (Some e)
            | None \<Rightarrow> check_remote r ns))"

fun check_local :: "ranges \<Rightarrow> nodeState list \<Rightarrow> version_error option" where
  "check_local r [] = None"
| "check_local r (n # ns) =
     (case check_versions r (n_Name n) (n_PCur n) (n_DCur n) of
        Some e \<Rightarrow> Some e
      | None \<Rightarrow> check_local r ns)"

definition local_nodes :: "memberlist \<Rightarrow> nodeState list" where
  "local_nodes m = map (\<lambda>n. the (mb_map m n)) (mb_nodes m)"

definition verifyProtocol :: "pushNodeState list \<Rightarrow> memberlist \<Rightarrow> version_error option option" where
  "verifyProtocol remote m =
     (case narrow_remote remote all_versions of
        None \<Rightarrow> None
      | Some r1 \<Rightarrow>
          (let r = narrow_local (local_nodes m) r1 in
           case check_remote r remote of
             None \<Rightarrow> None
           | Some (Some e) \<Rightarrow> Some (Some e)
           | Some None \<Rightarrow> Some (check_local r (local_nodes m))))"

subsection \<open>What it decides\<close>

text \<open>The ranges of the alive nodes and the versions all nodes speak, of both clusters.\<close>

definition remote_versions :: "pushNodeState \<Rightarrow> byte \<times> byte" where
  "remote_versions n = (if pn_Vsn n = [] then (0, 0) else (pn_Vsn n ! 2, pn_Vsn n ! 5))"

definition spoken :: "pushNodeState list \<Rightarrow> memberlist \<Rightarrow> (byte \<times> byte) set" where
  "spoken remote m = remote_versions ` set remote \<union> (\<lambda>n. (n_PCur n, n_DCur n)) ` set (local_nodes m)"

definition understood :: "pushNodeState list \<Rightarrow> memberlist \<Rightarrow> ((byte \<times> byte) \<times> (byte \<times> byte)) set" where
  "understood remote m =
     (\<lambda>n. ((pn_Vsn n ! 0, pn_Vsn n ! 1), (pn_Vsn n ! 3, pn_Vsn n ! 4))) `
        {n \<in> set remote. pn_State n = stateAlive \<and> pn_Vsn n \<noteq> []}
     \<union> (\<lambda>n. ((n_PMin n, n_PMax n), (n_DMin n, n_DMax n))) ` {n \<in> set (local_nodes m). ns_State n = stateAlive}"

definition in_range :: "byte \<Rightarrow> byte \<times> byte \<Rightarrow> bool" where
  "in_range v r \<longleftrightarrow> fst r \<le> v \<and> v \<le> snd r"

definition fits :: "ranges \<Rightarrow> byte \<times> byte \<Rightarrow> bool" where
  "fits r v \<longleftrightarrow> in_range (fst v) (maxpmin r, minpmax r) \<and> in_range (snd v) (maxdmin r, mindmax r)"

lemma fits_all [simp]: "fits all_versions v"
proof -
  have "b \<le> (255 :: byte)" for b   proof -
    have "(255 :: byte) = - 1" by simp
    then show ?thesis by (simp only: word_order.extremum)
  qed
  then show ?thesis by (simp add: fits_def all_versions_def in_range_def)
qed

lemma fits_narrow:
  "fits (narrow pmin pmax dmin dmax r) v \<longleftrightarrow> fits r v \<and> in_range (fst v) (pmin, pmax) \<and> in_range (snd v) (dmin, dmax)"
  by (auto simp: fits_def narrow_def in_range_def)

lemma narrow_remote_fits:
  assumes "\<forall>n \<in> set remote. pn_Vsn n = [] \<or> length (pn_Vsn n) = 6"
  shows "\<exists>r'. narrow_remote remote r = Some r' \<and> (\<forall>v. fits r' v \<longleftrightarrow> fits r v
    \<and> (\<forall>n \<in> set remote. pn_State n = stateAlive \<and> pn_Vsn n \<noteq> [] \<longrightarrow>
        in_range (fst v) (pn_Vsn n ! 0, pn_Vsn n ! 1) \<and> in_range (snd v) (pn_Vsn n ! 3, pn_Vsn n ! 4)))"
  using assms
proof (induction remote arbitrary: r)
  case (Cons n ns)
  let ?r = "if pn_State n \<noteq> stateAlive \<or> pn_Vsn n = [] then r
    else narrow (pn_Vsn n ! 0) (pn_Vsn n ! 1) (pn_Vsn n ! 3) (pn_Vsn n ! 4) r"
  have "narrow_remote (n # ns) r = narrow_remote ns ?r" using Cons.prems by auto
  moreover have "\<forall>n \<in> set ns. pn_Vsn n = [] \<or> length (pn_Vsn n) = 6" using Cons.prems by simp
  ultimately show ?case using Cons.IH [of ?r] by (auto simp: fits_narrow)
qed simp

lemma narrow_local_fits:
  "fits (narrow_local ns r) v \<longleftrightarrow> fits r v
    \<and> (\<forall>n \<in> set ns. ns_State n = stateAlive \<longrightarrow>
        in_range (fst v) (n_PMin n, n_PMax n) \<and> in_range (snd v) (n_DMin n, n_DMax n))"
  by (induction ns arbitrary: r) (auto simp: fits_narrow)

lemma check_versions_None: "check_versions r name p d = None \<longleftrightarrow> fits r (p, d)"
  by (auto simp: check_versions_def fits_def in_range_def not_less)

lemma check_local_None: "check_local r ns = None \<longleftrightarrow> (\<forall>n \<in> set ns. fits r (n_PCur n, n_DCur n))"
proof (induction ns)
  case (Cons n ns)
  then show ?case
    by (cases "check_versions r (n_Name n) (n_PCur n) (n_DCur n)")
      (use check_versions_None [of r "n_Name n" "n_PCur n" "n_DCur n"] in auto)
qed simp

lemma check_remote_None:
  "\<forall>n \<in> set ns. pn_Vsn n = [] \<or> length (pn_Vsn n) = 6 \<Longrightarrow>
     \<exists>e. check_remote r ns = Some e \<and> (e = None \<longleftrightarrow> (\<forall>n \<in> set ns. fits r (remote_versions n)))"
proof (induction ns)
  case (Cons n ns)
  then obtain e where "check_remote r ns = Some e" "e = None \<longleftrightarrow> (\<forall>n \<in> set ns. fits r (remote_versions n))" by auto
  then show ?case using Cons.prems
    by (cases "check_versions r (pn_Name n) (fst (remote_versions n)) (snd (remote_versions n))")
      (use check_versions_None [of r "pn_Name n" "fst (remote_versions n)" "snd (remote_versions n)"] in
        \<open>auto simp: remote_versions_def Let_def split: if_splits\<close>)
qed simp

text \<open>C35: Two clusters may merge exactly when they understand each other: \<open>verifyProtocol\<close> accepts if the
  protocol and the delegate version that each node of either side speaks, also of those that are
  suspected or dead, are in the range of every alive node of either side that states one.\<close>

theorem verifyProtocol_accepts_iff:
  assumes "\<forall>n \<in> set remote. pn_Vsn n = [] \<or> length (pn_Vsn n) = 6"
  shows "\<exists>e. verifyProtocol remote m = Some e
    \<and> (e = None \<longleftrightarrow> (\<forall>v \<in> spoken remote m. \<forall>(p, d) \<in> understood remote m. in_range (fst v) p \<and> in_range (snd v) d))"
proof -
  obtain r1 where r1: "narrow_remote remote all_versions = Some r1"
    "\<forall>v. fits r1 v \<longleftrightarrow> (\<forall>n \<in> set remote. pn_State n = stateAlive \<and> pn_Vsn n \<noteq> [] \<longrightarrow>
        in_range (fst v) (pn_Vsn n ! 0, pn_Vsn n ! 1) \<and> in_range (snd v) (pn_Vsn n ! 3, pn_Vsn n ! 4))"
    using narrow_remote_fits [OF assms, of all_versions] by auto
  let ?r = "narrow_local (local_nodes m) r1"
  have r: "fits ?r v \<longleftrightarrow> (\<forall>(p, d) \<in> understood remote m. in_range (fst v) p \<and> in_range (snd v) d)" for v
  proof -
    have "fits r1 v \<longleftrightarrow> (\<forall>n \<in> set remote. pn_State n = stateAlive \<and> pn_Vsn n \<noteq> [] \<longrightarrow>
        in_range (fst v) (pn_Vsn n ! 0, pn_Vsn n ! 1) \<and> in_range (snd v) (pn_Vsn n ! 3, pn_Vsn n ! 4))"
      by (rule spec [OF r1(2)])
    then show ?thesis unfolding narrow_local_fits understood_def ball_Un ball_simps(9) mem_Collect_eq prod.case
      by blast
  qed
  from check_remote_None [OF assms, of ?r] obtain e where e: "check_remote ?r remote = Some e"
    "e = None \<longleftrightarrow> (\<forall>n \<in> set remote. fits ?r (remote_versions n))" by blast
  have "e = None \<and> check_local ?r (local_nodes m) = None
      \<longleftrightarrow> (\<forall>v \<in> spoken remote m. \<forall>(p, d) \<in> understood remote m. in_range (fst v) p \<and> in_range (snd v) d)"
    unfolding e(2) check_local_None r spoken_def ball_Un by (simp only: ball_simps fst_conv snd_conv)
  moreover have "\<exists>e'. verifyProtocol remote m = Some e' \<and> (e' = None \<longleftrightarrow> e = None \<and> check_local ?r (local_nodes m) = None)"
    using r1(1) e(1) by (cases e) (simp_all add: verifyProtocol_def)
  ultimately show ?thesis by simp
qed

definition old_node :: nodeState where
  "old_node =
     \<lparr>n_Name = ''old'', n_Addr = [10, 0, 0, 9], n_Port = 7946, n_Meta = [], n_PMin = 1, n_PMax = 1, n_PCur = 1,
      n_DMin = 1, n_DMax = 1, n_DCur = 1, ns_Incarnation = 1, ns_State = stateDead, ns_StateChange = 0\<rparr>"

definition old_view :: memberlist where
  "old_view = \<lparr>mb_map = [''old'' \<mapsto> old_node], mb_nodes = [''old''], mb_incarnation = 1, mb_leave = False\<rparr>"

definition new_node :: pushNodeState where
  "new_node =
     \<lparr>pn_Name = ''new'', pn_Addr = [10, 0, 0, 1], pn_Port = 7946, pn_Meta = [], pn_Incarnation = 1,
      pn_State = stateAlive, pn_Vsn = [2, 3, 2, 1, 1, 1]\<rparr>"

lemma verifyProtocol_accepts_iff_witness:
  "\<exists>e. verifyProtocol [new_node] old_view = Some e
    \<and> (e = None \<longleftrightarrow> (\<forall>v \<in> spoken [new_node] old_view. \<forall>(p, d) \<in> understood [new_node] old_view.
        in_range (fst v) p \<and> in_range (snd v) d))"
  by (rule verifyProtocol_accepts_iff) (simp add: new_node_def)

text \<open>A dead node that spoke an old version keeps its cluster from merging until it is forgotten.\<close>

lemma dead_node_blocks_merge:
  "verifyProtocol [new_node] old_view
     = Some (Some (ProtocolIncompatible ''old'' 1 \<lparr>maxpmin = 2, minpmax = 3, maxdmin = 1, mindmax = 1\<rparr>))"
  by (simp add: verifyProtocol_def new_node_def old_view_def old_node_def local_nodes_def all_versions_def narrow_def
      check_versions_def)

text \<open>A vector of versions that is too short crashes the receiver.\<close>

lemma short_versions_panic:
  "pn_State n = stateAlive \<Longrightarrow> pn_Vsn n \<noteq> [] \<Longrightarrow> length (pn_Vsn n) < 5 \<Longrightarrow> verifyProtocol (n # remote) m = None"
  by (simp add: verifyProtocol_def)

end
