(* ===== verification/PushPull.thy ===== *)
theory PushPull
  imports TransportProps Verify
begin

section \<open>Messages over TCP and the exchange of states (memberlist/net.go)\<close>

text \<open>
  A connection carries one message, perhaps compressed, perhaps encrypted with its header as
  authenticated data. A push/pull sends the whole view of a node and reads the other's. What a
  connection delivers is a list of bytes; a read past its end is an error. Decoders of streams
  are arguments and return what they leave. Connecting, deadlines and the errors of writes are
  not modelled. Where the code can panic the result is \<open>None\<close>, or \<open>Panics\<close>.
\<close>

subsection \<open>Data\<close>

record pushPullHeader =
  ph_Nodes :: int
  ph_UserStateLen :: int
  ph_Join :: bool

text \<open>\<open>te_makes\<close> says which lengths \<open>make\<close> can allocate, \<open>te_Merge\<close> is the merge delegate.\<close>

record tcp_env =
  te_write_header :: "pushPullHeader \<Rightarrow> bytes option"
  te_read_header :: "bytes \<Rightarrow> (pushPullHeader \<times> bytes) option"
  te_write_node :: "pushNodeState \<Rightarrow> bytes option"
  te_read_node :: "bytes \<Rightarrow> (pushNodeState \<times> bytes) option"
  te_write_user :: "int \<Rightarrow> bytes option"
  te_read_user :: "bytes \<Rightarrow> (int \<times> bytes) option"
  te_read_ping :: "bytes \<Rightarrow> (ping \<times> bytes) option"
  te_read_ack :: "bytes \<Rightarrow> (ackResp \<times> bytes) option"
  te_read_compress :: "bytes \<Rightarrow> (compress \<times> bytes) option"
  te_makes :: "int \<Rightarrow> bool"
  te_Merge :: "(Node list \<Rightarrow> string option) option"

datatype tcp_error =
  ShortRead | EncryptionNotConfigured | NotEncrypted | StateTooLarge nat | Undecryptable crypt_error
| Undecodable | Undecompressable | UnexpectedType byte | VersionMismatch version_error
| MergeCanceled string | WrongSeqNo "32 word" "32 word"

definition maxPushStateBytes :: nat where "maxPushStateBytes = 10 * 1024 * 1024"

fun obind :: "('e, 'a) result option \<Rightarrow> ('a \<Rightarrow> ('e, 'b) result option) \<Rightarrow> ('e, 'b) result option" where
  "obind None f = None"
| "obind (Some (Inl e)) f = Some (Inl e)"
| "obind (Some (Inr a)) f = f a"

subsection \<open>Writing\<close>

text \<open>The \<open>n\<close>-th nonce is used.\<close>

definition encryptLocalState :: "net_env \<Rightarrow> nat \<Rightarrow> bytes \<Rightarrow> bytes option" where
  "encryptLocalState env n sendBuf =
     (let encVsn = encryptionVersion env;
          buf = encryptMsg # be_bytes 4 (encryptedLength encVsn (length sendBuf))
      in case encryptPayload (gcm_Seal (ne_cipher env)) (ne_random env n) encVsn (primary_key env) sendBuf
                (take 5 buf) buf of
           Inl e \<Rightarrow> None
         | Inr b \<Rightarrow> Some b)"

text \<open>Unlike a packet, a stream is compressed also where that makes it longer.\<close>

definition stream_compressed :: "net_env \<Rightarrow> bytes \<Rightarrow> bytes" where
  "stream_compressed env sendBuf =
     (if ne_EnableCompression env then
        (case compressPayload env sendBuf of None \<Rightarrow> sendBuf | Some b \<Rightarrow> b)
      else sendBuf)"

definition rawSendMsgTCP :: "net_env \<Rightarrow> nat \<Rightarrow> bytes \<Rightarrow> bytes option" where
  "rawSendMsgTCP env n sendBuf =
     (let b = stream_compressed env sendBuf in
      if EncryptionEnabled env then encryptLocalState env n b else Some b)"

definition push_state :: "nodeState \<Rightarrow> pushNodeState" where
  "push_state n =
     \<lparr>pn_Name = n_Name n, pn_Addr = n_Addr n, pn_Port = n_Port n, pn_Meta = n_Meta n,
      pn_Incarnation = ns_Incarnation n, pn_State = ns_State n, pn_Vsn = versions n\<rparr>"

fun encode_nodes :: "tcp_env \<Rightarrow> pushNodeState list \<Rightarrow> bytes option" where
  "encode_nodes tenv [] = Some []"
| "encode_nodes tenv (n # ns) =
     (case te_write_node tenv n of
        None \<Rightarrow> None
      | Some b \<Rightarrow> map_option (\<lambda>bs. b @ bs) (encode_nodes tenv ns))"

definition local_state :: "tcp_env \<Rightarrow> bool \<Rightarrow> bytes \<Rightarrow> pushNodeState list \<Rightarrow> bytes option" where
  "local_state tenv join userData localNodes =
     (case te_write_header tenv \<lparr>ph_Nodes = int (length localNodes), ph_UserStateLen = int (length userData), ph_Join = join\<rparr> of
        None \<Rightarrow> None
      | Some h \<Rightarrow> map_option (\<lambda>ns. pushPullMsg # h @ ns @ userData) (encode_nodes tenv localNodes))"

text \<open>\<open>userData\<close> is what the delegate's \<open>LocalState\<close> returns.\<close>

definition sendLocalState :: "net_env \<Rightarrow> tcp_env \<Rightarrow> nat \<Rightarrow> bool \<Rightarrow> bytes \<Rightarrow> memberlist \<Rightarrow> bytes option" where
  "sendLocalState env tenv n join userData m =
     (case local_state tenv join userData (map push_state (local_nodes m)) of
        None \<Rightarrow> None
      | Some b \<Rightarrow> rawSendMsgTCP env n b)"

definition sendTCPUserMsg :: "net_env \<Rightarrow> tcp_env \<Rightarrow> nat \<Rightarrow> bytes \<Rightarrow> bytes option" where
  "sendTCPUserMsg env tenv n sendBuf =
     (case te_write_user tenv (int (length sendBuf)) of
        None \<Rightarrow> None
      | Some h \<Rightarrow> rawSendMsgTCP env n (userMsg # h @ sendBuf))"

subsection \<open>Reading\<close>

definition decryptRemoteState :: "net_env \<Rightarrow> bytes \<Rightarrow> (tcp_error, bytes) result option" where
  "decryptRemoteState env input =
     (if length input < 4 then Some (Inl ShortRead)
      else
        (let moreBytes = be_nat (take 4 input) in
         if maxPushStateBytes < moreBytes then Some (Inl (StateTooLarge moreBytes))
         else if length (drop 4 input) < moreBytes then Some (Inl ShortRead)
         else
           (case decryptPayload (gcm_Open (ne_cipher env)) (case ne_Keyring env of None \<Rightarrow> [] | Some k \<Rightarrow> GetKeys k)
                   (take moreBytes (drop 4 input)) (encryptMsg # take 4 input) of
              None \<Rightarrow> None
            | Some (Inl e) \<Rightarrow> Some (Inl (Undecryptable e))
            | Some (Inr plain) \<Rightarrow> Some (Inr plain))))"

text \<open>The type of a message and the rest of the stream.\<close>

definition split_type :: "bytes \<Rightarrow> (tcp_error, byte \<times> bytes) result option" where
  "split_type buf = (case buf of [] \<Rightarrow> None | t # rest \<Rightarrow> Some (Inr (t, rest)))"

definition read_decrypted :: "net_env \<Rightarrow> bytes \<Rightarrow> (tcp_error, byte \<times> bytes) result option" where
  "read_decrypted env input =
     (case input of
        [] \<Rightarrow> Some (Inl ShortRead)
      | msgType # rest \<Rightarrow>
          if msgType = encryptMsg then
            (if \<not> EncryptionEnabled env then Some (Inl EncryptionNotConfigured)
             else obind (decryptRemoteState env rest) split_type)
          else if EncryptionEnabled env then Some (Inl NotEncrypted)
          else Some (Inr (msgType, rest)))"

definition read_decompressed ::
  "net_env \<Rightarrow> tcp_env \<Rightarrow> byte \<times> bytes \<Rightarrow> (tcp_error, byte \<times> bytes) result option" where
  "read_decompressed env tenv x =
     (let (msgType, rest) = x in
      if msgType = compressMsg then
        (case te_read_compress tenv rest of
           None \<Rightarrow> Some (Inl Undecodable)
         | Some (c, _) \<Rightarrow>
             (case decompressBuffer env c of
                None \<Rightarrow> Some (Inl Undecompressable)
              | Some (decomp, _) \<Rightarrow> split_type decomp))
      else Some (Inr (msgType, rest)))"

definition readTCP :: "net_env \<Rightarrow> tcp_env \<Rightarrow> bytes \<Rightarrow> (tcp_error, byte \<times> bytes) result option" where
  "readTCP env tenv input = obind (read_decrypted env input) (read_decompressed env tenv)"

fun decode_nodes :: "tcp_env \<Rightarrow> nat \<Rightarrow> bytes \<Rightarrow> (pushNodeState list \<times> bytes) option" where
  "decode_nodes tenv 0 input = Some ([], input)"
| "decode_nodes tenv (Suc k) input =
     (case te_read_node tenv input of
        None \<Rightarrow> None
      | Some (n, rest) \<Rightarrow>
          (case decode_nodes tenv k rest of None \<Rightarrow> None | Some (ns, rest') \<Rightarrow> Some (n # ns, rest')))"

text \<open>\<open>io.ReadAtLeast\<close> into a buffer of the length that is asked for.\<close>

definition read_user_state :: "tcp_env \<Rightarrow> int \<Rightarrow> bytes \<Rightarrow> (tcp_error, bytes) result option" where
  "read_user_state tenv len input =
     (if 0 < len then
        (if \<not> te_makes tenv len then None
         else if length input < nat len then Some (Inl ShortRead)
         else Some (Inr (take (nat len) input)))
      else Some (Inr []))"

definition mask_node :: "net_env \<Rightarrow> pushNodeState \<Rightarrow> pushNodeState" where
  "mask_node env n = n\<lparr>pn_Port := masked_port env (pn_Port n)\<rparr>"

definition readRemoteState ::
  "net_env \<Rightarrow> tcp_env \<Rightarrow> bytes \<Rightarrow> (tcp_error, bool \<times> pushNodeState list \<times> bytes) result option" where
  "readRemoteState env tenv input =
     (case te_read_header tenv input of
        None \<Rightarrow> Some (Inl Undecodable)
      | Some (h, rest) \<Rightarrow>
          if ph_Nodes h < 0 \<or> \<not> te_makes tenv (ph_Nodes h) then None
          else
            (case decode_nodes tenv (nat (ph_Nodes h)) rest of
               None \<Rightarrow> Some (Inl Undecodable)
             | Some (remoteNodes, rest') \<Rightarrow>
                 obind (read_user_state tenv (ph_UserStateLen h) rest')
                   (\<lambda>userBuf. Some (Inr (ph_Join h, map (mask_node env) remoteNodes, userBuf)))))"

text \<open>The messages a delegate gets; none for an empty one.\<close>

definition readUserMsg :: "tcp_env \<Rightarrow> bytes \<Rightarrow> (tcp_error, bytes list) result option" where
  "readUserMsg tenv input =
     (case te_read_user tenv input of
        None \<Rightarrow> Some (Inl Undecodable)
      | Some (len, rest) \<Rightarrow>
          obind (read_user_state tenv len rest) (\<lambda>b. Some (Inr (if 0 < len then [b] else []))))"

subsection \<open>Merging\<close>

definition pushed_Node :: "pushNodeState \<Rightarrow> Node" where
  "pushed_Node n = alive_Node (pushed_alive n)"

record merged =
  mg_memberlist :: memberlist
  mg_out :: "swim_output list"
  mg_user :: "(bytes \<times> bool) option"

text \<open>\<open>n.Vsn[5]\<close> of every node is read for the merge delegate.\<close>

definition mergeRemoteState ::
  "net_env \<Rightarrow> tcp_env \<Rightarrow> swim_env \<Rightarrow> bool \<Rightarrow> pushNodeState list \<Rightarrow> bytes \<Rightarrow> memberlist \<Rightarrow>
     (tcp_error, merged) result run" where
  "mergeRemoteState env tenv senv join remoteNodes userBuf m =
     (case verifyProtocol remoteNodes m of
        None \<Rightarrow> Panics
      | Some (Some e) \<Rightarrow> Returns (Inl (VersionMismatch e))
      | Some None \<Rightarrow>
          if join \<and> te_Merge tenv \<noteq> None \<and> (\<exists>n \<in> set remoteNodes. length (pn_Vsn n) < 6) then Panics
          else
            (case (if join then (case te_Merge tenv of None \<Rightarrow> None | Some notify \<Rightarrow> notify (map pushed_Node remoteNodes))
                   else None) of
               Some reason \<Rightarrow> Returns (Inl (MergeCanceled reason))
             | None \<Rightarrow>
                 (case mergeState senv remoteNodes m of
                    Returns (m', out) \<Rightarrow>
                      Returns (Inr \<lparr>mg_memberlist = m', mg_out = out, mg_user = Some (userBuf, join)\<rparr>)
                  | Panics \<Rightarrow> Panics
                  | Hangs \<Rightarrow> Hangs)))"

subsection \<open>Connections\<close>

text \<open>What is written back, the messages for the delegate, and what has become of the view.\<close>

record conn_result =
  cn_reply :: "bytes option"
  cn_messages :: "bytes list"
  cn_merged :: "(tcp_error, merged) result option"

definition nothing_done :: conn_result where
  "nothing_done = \<lparr>cn_reply = None, cn_messages = [], cn_merged = None\<rparr>"

definition handle_push_pull ::
  "net_env \<Rightarrow> tcp_env \<Rightarrow> swim_env \<Rightarrow> nat \<Rightarrow> (bool \<Rightarrow> bytes) \<Rightarrow> bytes \<Rightarrow> memberlist \<Rightarrow> conn_result run" where
  "handle_push_pull env tenv senv n localState rest m =
     (case readRemoteState env tenv rest of
        None \<Rightarrow> Panics
      | Some (Inl e) \<Rightarrow> Returns nothing_done
      | Some (Inr (join, remoteNodes, userState)) \<Rightarrow>
          (case sendLocalState env tenv n join (localState join) m of
             None \<Rightarrow> Returns nothing_done
           | Some reply \<Rightarrow>
               (case mergeRemoteState env tenv senv join remoteNodes userState m of
                  Returns r \<Rightarrow> Returns \<lparr>cn_reply = Some reply, cn_messages = [], cn_merged = Some r\<rparr>
                | Panics \<Rightarrow> Panics
                | Hangs \<Rightarrow> Hangs)))"

definition handle_tcp_ping :: "net_env \<Rightarrow> tcp_env \<Rightarrow> nat \<Rightarrow> bytes \<Rightarrow> conn_result" where
  "handle_tcp_ping env tenv n rest =
     (case te_read_ping tenv rest of
        None \<Rightarrow> nothing_done
      | Some (p, _) \<Rightarrow>
          if pi_Node p \<noteq> [] \<and> pi_Node p \<noteq> ne_Name env then nothing_done
          else
            (case ne_encode_ack env \<lparr>ak_SeqNo = pi_SeqNo p, ak_Payload = []\<rparr> of
               None \<Rightarrow> nothing_done
             | Some b \<Rightarrow> nothing_done\<lparr>cn_reply := rawSendMsgTCP env n (ackRespMsg # b)\<rparr>))"

definition handleConn ::
  "net_env \<Rightarrow> tcp_env \<Rightarrow> swim_env \<Rightarrow> nat \<Rightarrow> (bool \<Rightarrow> bytes) \<Rightarrow> bytes \<Rightarrow> memberlist \<Rightarrow> conn_result run" where
  "handleConn env tenv senv n localState input m =
     (case readTCP env tenv input of
        None \<Rightarrow> Panics
      | Some (Inl e) \<Rightarrow> Returns nothing_done
      | Some (Inr (msgType, rest)) \<Rightarrow>
          if msgType = userMsg then
            (case readUserMsg tenv rest of
               None \<Rightarrow> Panics
             | Some (Inl e) \<Rightarrow> Returns nothing_done
             | Some (Inr msgs) \<Rightarrow> Returns (nothing_done\<lparr>cn_messages := msgs\<rparr>))
          else if msgType = pushPullMsg then handle_push_pull env tenv senv n localState rest m
          else if msgType = pingMsg then Returns (handle_tcp_ping env tenv n rest)
          else Returns nothing_done)"

text \<open>The reply to a push, after \<open>sendLocalState\<close>.\<close>

definition receive_state ::
  "net_env \<Rightarrow> tcp_env \<Rightarrow> bytes \<Rightarrow> (tcp_error, bool \<times> pushNodeState list \<times> bytes) result option" where
  "receive_state env tenv input =
     obind (readTCP env tenv input)
       (\<lambda>(msgType, rest).
          if msgType \<noteq> pushPullMsg then Some (Inl (UnexpectedType msgType))
          else readRemoteState env tenv rest)"

definition pushPullNode ::
  "net_env \<Rightarrow> tcp_env \<Rightarrow> swim_env \<Rightarrow> bool \<Rightarrow> bytes \<Rightarrow> memberlist \<Rightarrow> (tcp_error, merged) result run" where
  "pushPullNode env tenv senv join input m =
     (case receive_state env tenv input of
        None \<Rightarrow> Panics
      | Some (Inl e) \<Rightarrow> Returns (Inl e)
      | Some (Inr (_, remote, userState)) \<Rightarrow> mergeRemoteState env tenv senv join remote userState m)"

text \<open>The answer to a ping over TCP: whether the node was reached.\<close>

definition receive_ack :: "net_env \<Rightarrow> tcp_env \<Rightarrow> ping \<Rightarrow> bytes \<Rightarrow> (tcp_error, bool) result option" where
  "receive_ack env tenv p input =
     obind (readTCP env tenv input)
       (\<lambda>(msgType, rest).
          if msgType \<noteq> ackRespMsg then Some (Inl (UnexpectedType msgType))
          else
            (case te_read_ack tenv rest of
               None \<Rightarrow> Some (Inl Undecodable)
             | Some (ack, _) \<Rightarrow>
                 if ak_SeqNo ack \<noteq> pi_SeqNo p then Some (Inl (WrongSeqNo (ak_SeqNo ack) (pi_SeqNo p)))
                 else Some (Inr True)))"

definition sendPingAndWaitForAck :: "net_env \<Rightarrow> tcp_env \<Rightarrow> nat \<Rightarrow> ping \<Rightarrow> bytes option" where
  "sendPingAndWaitForAck env tenv n p =
     (case ne_encode_ping env p of None \<Rightarrow> None | Some b \<Rightarrow> rawSendMsgTCP env n (pingMsg # b))"

end
