(* ===== verification/PushPullProps.thy ===== *)
theory PushPullProps
  imports PushPull
begin

section \<open>Properties of TCP messages and the exchange of states\<close>

text \<open>
  A message written to a connection is the message that is read from it, and a push/pull leaves
  both nodes with the other's view merged into their own.
\<close>

subsection \<open>Frames\<close>

text \<open>The receiver's codec reads what the sender's writes, also with more behind it.\<close>

definition stream_codec :: "net_env \<Rightarrow> net_env \<Rightarrow> tcp_env \<Rightarrow> bool" where
  "stream_codec s r tr \<longleftrightarrow>
     (\<forall>c b rest. ne_encode_compress s c = Some b \<longrightarrow> te_read_compress tr (b @ rest) = Some (c, rest))
     \<and> (\<forall>x y. ne_lzw_write s x = Some y \<longrightarrow> (\<exists>spare. ne_lzw_read r y = Some (x, spare)))"

text \<open>A stream that is encrypted is read only up to \<open>maxPushStateBytes\<close>; the sender does not check that.\<close>

definition tcp_reads :: "net_env \<Rightarrow> net_env \<Rightarrow> tcp_env \<Rightarrow> bytes \<Rightarrow> bool" where
  "tcp_reads s r tr w \<longleftrightarrow>
     stream_codec s r tr \<and> can_open s r (drop 5 w) (take 5 w)
     \<and> (EncryptionEnabled s \<longrightarrow> length w \<le> 5 + maxPushStateBytes)"

lemma read_stream_compressed:
  assumes "stream_codec s r tr" "t \<noteq> compressMsg" "t \<noteq> encryptMsg"
  shows "\<exists>t' body'. stream_compressed s (t # body) = t' # body' \<and> t' \<noteq> encryptMsg
    \<and> read_decompressed r tr (t', body') = Some (Inr (t, body))"
proof (cases "stream_compressed s (t # body) = t # body")
  case True
  then show ?thesis using assms by (simp add: read_decompressed_def)
next
  case False
  then obtain y b where w: "ne_lzw_write s (t # body) = Some y"
    "ne_encode_compress s \<lparr>cm_Algo = lzwAlgo, cm_Buf = y\<rparr> = Some b" "stream_compressed s (t # body) = compressMsg # b"
    by (auto simp: stream_compressed_def compressPayload_def split: if_splits option.splits)
  obtain spare where "ne_lzw_read r y = Some (t # body, spare)"
    using assms(1) w(1) unfolding stream_codec_def by blast
  moreover have "te_read_compress tr (b @ []) = Some (\<lparr>cm_Algo = lzwAlgo, cm_Buf = y\<rparr>, [])"
    using assms(1) w(2) unfolding stream_codec_def by blast
  ultimately show ?thesis
    using w(3) by (simp add: read_decompressed_def decompressBuffer_def split_type_def message_types)
qed

lemma encryptLocalState_frame:
  assumes "encryptLocalState s n buf = Some w" "length (ne_random s n) = nonceSize"
    and "encryptedLength (encryptionVersion s) (length buf) < 256 ^ 4"
  obtains header c where "w = encryptMsg # header @ c" "length header = 4" "be_nat header = length c"
    "encryptPayload (gcm_Seal (ne_cipher s)) (ne_random s n) (encryptionVersion s) (primary_key s) buf (encryptMsg # header) [] = Inr c"
proof -
  let ?L = "encryptedLength (encryptionVersion s) (length buf)" and ?h = "be_bytes 4 (encryptedLength (encryptionVersion s) (length buf))"
  have h: "take 5 (encryptMsg # ?h) = encryptMsg # ?h" by simp
  have e: "encryptPayload (gcm_Seal (ne_cipher s)) (ne_random s n) (encryptionVersion s) (primary_key s) buf
      (encryptMsg # ?h) (encryptMsg # ?h) = Inr w"
    using assms(1) unfolding encryptLocalState_def Let_def h by (simp split: sum.splits)
  obtain c where w: "w = encryptMsg # ?h @ c"
    and c: "encryptPayload (gcm_Seal (ne_cipher s)) (ne_random s n) (encryptionVersion s) (primary_key s) buf
      (encryptMsg # ?h) [] = Inr c"
    using encryptPayload_prefix [OF assms(2) e] unfolding append_Cons by blast
  have "encryptionVersion s \<le> 1" by (simp add: encryptionVersion_def)
  from gcm.length_encrypted [OF assms(2) this c] have "length c = ?L" by simp
  then have "be_nat ?h = length c" using be_nat_be_bytes_id [OF assms(3)] by simp
  then show thesis using that [OF w _ _ c] by simp
qed

lemma readTCP_rawSendMsgTCP:
  assumes "rawSendMsgTCP s n (t # body) = Some w" "tcp_reads s r tr w" "t \<noteq> compressMsg" "t \<noteq> encryptMsg"
    and "length (ne_random s n) = nonceSize"
  shows "readTCP r tr w = Some (Inr (t, body))"
proof -
  have codec: "stream_codec s r tr" and opens: "can_open s r (drop 5 w) (take 5 w)"
    using assms(2) by (simp_all add: tcp_reads_def)
  from read_stream_compressed [OF codec assms(3,4)] obtain t' body' where
    b: "stream_compressed s (t # body) = t' # body'" "t' \<noteq> encryptMsg"
      "read_decompressed r tr (t', body') = Some (Inr (t, body))" by blast
  show ?thesis
  proof (cases "EncryptionEnabled s")
    case False
    then have "w = t' # body'" "\<not> EncryptionEnabled r"
      using assms(1) opens b(1) by (simp_all add: rawSendMsgTCP_def can_open_def)
    then show ?thesis using b by (simp add: readTCP_def read_decrypted_def)
  next
    case True
    then have w: "encryptLocalState s n (t' # body') = Some w" using assms(1) b(1) by (simp add: rawSendMsgTCP_def)
    have size: "encryptedLength (encryptionVersion s) (length (t' # body')) < 256 ^ 4"
    proof -
      have "encryptionVersion s \<le> 1" by (simp add: encryptionVersion_def)
      from w have "\<exists>hdr d. length hdr = 5
          \<and> encryptPayload (gcm_Seal (ne_cipher s)) (ne_random s n) (encryptionVersion s) (primary_key s) (t' # body') d hdr = Inr w"
        unfolding encryptLocalState_def Let_def
        by (intro exI [of _ "encryptMsg # be_bytes 4 (encryptedLength (encryptionVersion s) (length (t' # body')))"]
            exI [of _ "take 5 (encryptMsg # be_bytes 4 (encryptedLength (encryptionVersion s) (length (t' # body'))))"])
          (simp split: sum.splits)
      with gcm.length_encrypted [OF assms(5) \<open>encryptionVersion s \<le> 1\<close>]
      have "length w = 5 + encryptedLength (encryptionVersion s) (length (t' # body'))" by metis
      then show ?thesis using assms(2) True by (simp add: tcp_reads_def maxPushStateBytes_def)
    qed
    obtain header c where f: "w = encryptMsg # header @ c" "length header = 4" "be_nat header = length c"
      "encryptPayload (gcm_Seal (ne_cipher s)) (ne_random s n) (encryptionVersion s) (primary_key s) (t' # body')
         (encryptMsg # header) [] = Inr c"
      using encryptLocalState_frame [OF w assms(5) size] .
    have "can_open s r c (encryptMsg # header)" using opens f(1,2) by simp
    then obtain k where k: "ne_Keyring r = Some k" "EncryptionEnabled r"
      "decryptPayload (gcm_Open (ne_cipher r)) (GetKeys k) c (encryptMsg # header) = Some (Inr (t' # body'))"
      using open_encrypted [OF _ True assms(5) f(4)] by metis
    have "length c \<le> maxPushStateBytes" using assms(2) True f(1,2) by (simp add: tcp_reads_def)
    then have "decryptRemoteState r (header @ c) = Some (Inr (t' # body'))"
      using k f(2,3) by (simp add: decryptRemoteState_def)
    then show ?thesis
      using k(2) b(3) f(1) by (simp add: readTCP_def read_decrypted_def split_type_def)
  qed
qed

subsection \<open>States\<close>

definition state_codec :: "tcp_env \<Rightarrow> tcp_env \<Rightarrow> bool" where
  "state_codec ts tr \<longleftrightarrow>
     (\<forall>h b rest. te_write_header ts h = Some b \<longrightarrow> te_read_header tr (b @ rest) = Some (h, rest))
     \<and> (\<forall>n b rest. te_write_node ts n = Some b \<longrightarrow> te_read_node tr (b @ rest) = Some (n, rest))"

lemma decode_encode_nodes:
  "state_codec ts tr \<Longrightarrow> encode_nodes ts ns = Some b \<Longrightarrow> decode_nodes tr (length ns) (b @ rest) = Some (ns, rest)"
proof (induction ns arbitrary: b)
  case (Cons n ns)
  then obtain b1 b2 where "te_write_node ts n = Some b1" "encode_nodes ts ns = Some b2" "b = b1 @ b2"
    by (auto split: option.splits)
  with Cons show ?case by (simp add: state_codec_def)
qed simp

lemma readRemoteState_local_state:
  assumes "local_state ts join user ns = Some b" "state_codec ts tr"
    and "te_makes tr (int (length ns))" "te_makes tr (int (length user))"
  shows "\<exists>body. b = pushPullMsg # body
    \<and> readRemoteState r tr body = Some (Inr (join, map (mask_node r) ns, user))"
proof -
  obtain h bs where b: "te_write_header ts \<lparr>ph_Nodes = int (length ns), ph_UserStateLen = int (length user), ph_Join = join\<rparr> = Some h"
    "encode_nodes ts ns = Some bs" "b = pushPullMsg # h @ bs @ user"
    using assms(1) by (auto simp: local_state_def split: option.splits)
  then have "te_read_header tr (h @ bs @ user)
      = Some (\<lparr>ph_Nodes = int (length ns), ph_UserStateLen = int (length user), ph_Join = join\<rparr>, bs @ user)"
    using assms(2) by (auto simp: state_codec_def)
  moreover have "decode_nodes tr (length ns) (bs @ user) = Some (ns, user)"
    by (rule decode_encode_nodes [OF assms(2) b(2)])
  moreover have "read_user_state tr (int (length user)) user = Some (Inr user)"
    using assms(4) by (simp add: read_user_state_def)
  ultimately show ?thesis using assms(3) b(3) by (simp add: readRemoteState_def)
qed

text \<open>What is needed for a node to read the state another one sends.\<close>

definition state_arrives :: "net_env \<Rightarrow> tcp_env \<Rightarrow> net_env \<Rightarrow> tcp_env \<Rightarrow> bytes \<Rightarrow> bytes \<Rightarrow> memberlist \<Rightarrow> bool" where
  "state_arrives s ts r tr w user m \<longleftrightarrow>
     tcp_reads s r tr w \<and> state_codec ts tr \<and> te_makes tr (int (length (local_nodes m))) \<and> te_makes tr (int (length user))
     \<and> (\<forall>n. length (ne_random s n) = nonceSize)"

definition states_of :: "net_env \<Rightarrow> memberlist \<Rightarrow> pushNodeState list" where
  "states_of r m = map (mask_node r) (map push_state (local_nodes m))"

lemma read_sendLocalState:
  assumes "sendLocalState s ts n join user m = Some w" "state_arrives s ts r tr w user m"
  shows "\<exists>body. readTCP r tr w = Some (Inr (pushPullMsg, body))
    \<and> readRemoteState r tr body = Some (Inr (join, states_of r m, user))"
proof -
  obtain b where b: "local_state ts join user (map push_state (local_nodes m)) = Some b" "rawSendMsgTCP s n b = Some w"
    using assms(1) by (auto simp: sendLocalState_def split: option.splits)
  obtain body where body: "b = pushPullMsg # body"
    "readRemoteState r tr body = Some (Inr (join, map (mask_node r) (map push_state (local_nodes m)), user))"
    using readRemoteState_local_state [OF b(1), of tr r] assms(2) by (auto simp: state_arrives_def)
  have "readTCP r tr w = Some (Inr (pushPullMsg, body))"
    using assms(2) b(2) unfolding body(1) state_arrives_def
    by (intro readTCP_rawSendMsgTCP [of s n]) (simp_all add: message_types)
  then show ?thesis using body(2) by (simp add: states_of_def)
qed

subsection \<open>Two nodes\<close>

definition demo_peer :: nodeState where
  "demo_peer =
     \<lparr>n_Name = ''a'', n_Addr = [10, 0, 0, 1], n_Port = 7946, n_Meta = [], n_PMin = 1, n_PMax = 3, n_PCur = 2,
      n_DMin = 2, n_DMax = 4, n_DCur = 3, ns_Incarnation = 1, ns_State = stateAlive, ns_StateChange = 0\<rparr>"

definition demo_peer_view :: memberlist where
  "demo_peer_view = \<lparr>mb_map = [''a'' \<mapsto> demo_peer], mb_nodes = [''a''], mb_incarnation = 1, mb_leave = False\<rparr>"

definition demo_conn :: net_env where
  "demo_conn = demo_plain\<lparr>ne_encode_compress := (\<lambda>c. None)\<rparr>"

definition demo_tcp :: tcp_env where
  "demo_tcp =
     \<lparr>te_write_header = (\<lambda>h. if h = \<lparr>ph_Nodes = 1, ph_UserStateLen = 1, ph_Join = True\<rparr> then Some [1]
         else if h = \<lparr>ph_Nodes = 0, ph_UserStateLen = 1, ph_Join = True\<rparr> then Some [0] else None),
      te_read_header = (\<lambda>b. case b of [] \<Rightarrow> None
         | x # rest \<Rightarrow> Some (\<lparr>ph_Nodes = uint x, ph_UserStateLen = 1, ph_Join = True\<rparr>, rest)),
      te_write_node = (\<lambda>n. if n = push_state demo_peer then Some [7] else None),
      te_read_node = (\<lambda>b. case b of [] \<Rightarrow> None | x # rest \<Rightarrow> Some (push_state demo_peer, rest)),
      te_write_user = (\<lambda>n. None), te_read_user = (\<lambda>b. None), te_read_ping = (\<lambda>b. None), te_read_ack = (\<lambda>b. None),
      te_read_compress = (\<lambda>b. None), te_makes = (\<lambda>n. n < 1000), te_Merge = None\<rparr>"

definition demo_swim_env :: "string \<Rightarrow> swim_env" where
  "demo_swim_env me =
     \<lparr>sw_Name = me, sw_Alive = None, sw_Conflict = True, sw_encodes = (\<lambda>m. True), sw_now = 10, sw_random = 0\<rparr>"

lemma demo_state_arrives:
  "length (local_nodes m) < 1000 \<Longrightarrow> state_arrives demo_conn demo_tcp demo_conn demo_tcp w [x] m"
  by (auto simp: state_arrives_def tcp_reads_def stream_codec_def can_open_def state_codec_def demo_conn_def demo_plain_def
      demo_net_def demo_tcp_def EncryptionEnabled_def)

text \<open>C33: A push/pull exchanges the views. The node that is asked answers with its whole view as it is before
  the merge, and merges the view of the one that asks; that one, given the answer, merges it. Each
  merge is exactly \<open>mergeRemoteState\<close> of all the other's nodes, with their incarnations, states and
  versions, and of the other's user state.\<close>

theorem push_pull_exchanges_views:
  assumes "sendLocalState a ta na join userA mA = Some request" "state_arrives a ta b tb request userA mA"
    and "sendLocalState b tb nb join (localState join) mB = Some answer"
    and "state_arrives b tb a ta answer (localState join) mB"
    and "mergeRemoteState b tb sb join (states_of b mA) userA mB = Returns merged"
  shows "handleConn b tb sb nb localState request mB
      = Returns \<lparr>cn_reply = Some answer, cn_messages = [], cn_merged = Some merged\<rparr>
    \<and> pushPullNode a ta sa join answer mA = mergeRemoteState a ta sa join (states_of a mB) (localState join) mA"
proof -
  obtain body where body: "readTCP b tb request = Some (Inr (pushPullMsg, body))"
    "readRemoteState b tb body = Some (Inr (join, states_of b mA, userA))"
    using read_sendLocalState [OF assms(1,2)] by blast
  obtain body' where body': "readTCP a ta answer = Some (Inr (pushPullMsg, body'))"
    "readRemoteState a ta body' = Some (Inr (join, states_of a mB, localState join))"
    using read_sendLocalState [OF assms(3,4)] by blast
  have "handleConn b tb sb nb localState request mB
      = Returns \<lparr>cn_reply = Some answer, cn_messages = [], cn_merged = Some merged\<rparr>"
    using assms(3,5) body by (simp add: handleConn_def handle_push_pull_def message_types)
  moreover have "pushPullNode a ta sa join answer mA = mergeRemoteState a ta sa join (states_of a mB) (localState join) mA"
    using body' by (simp add: pushPullNode_def receive_state_def)
  ultimately show ?thesis ..
qed

lemma push_pull_exchanges_views_witness:
  "\<exists>request answer merged.
     handleConn demo_conn demo_tcp (demo_swim_env ''b'') 0 (\<lambda>join. [9]) request new_memberlist
       = Returns \<lparr>cn_reply = Some answer, cn_messages = [], cn_merged = Some merged\<rparr>
     \<and> pushPullNode demo_conn demo_tcp (demo_swim_env ''a'') True answer demo_peer_view
       = mergeRemoteState demo_conn demo_tcp (demo_swim_env ''a'') True (states_of demo_conn new_memberlist) [9] demo_peer_view"
proof -
  have w: "sendLocalState demo_conn demo_tcp 0 True [8] demo_peer_view = Some [6, 1, 7, 8]"
    by (simp add: sendLocalState_def local_state_def local_nodes_def demo_peer_view_def demo_tcp_def rawSendMsgTCP_def
        stream_compressed_def demo_conn_def demo_plain_def EncryptionEnabled_def message_types)
  have w': "sendLocalState demo_conn demo_tcp 0 True ((\<lambda>join. [9]) True) new_memberlist = Some [6, 0, 9]"
    by (simp add: sendLocalState_def local_state_def local_nodes_def new_memberlist_def demo_tcp_def rawSendMsgTCP_def
        stream_compressed_def demo_conn_def demo_plain_def EncryptionEnabled_def message_types)
  have "\<exists>merged. mergeRemoteState demo_conn demo_tcp (demo_swim_env ''b'') True (states_of demo_conn demo_peer_view) [8]
      new_memberlist = Returns merged"
    by (simp add: mergeRemoteState_def states_of_def local_nodes_def demo_peer_view_def demo_peer_def new_memberlist_def
        push_state_def mask_node_def versions_def demo_tcp_def demo_swim_env_def verifyProtocol_def all_versions_def
        narrow_def check_versions_def aliveNode_def alive_known_def new_nodeState_def bare_Node_def pushed_alive_def
        Node.defs nodeState.defs Let_def)
  then obtain merged where m: "mergeRemoteState demo_conn demo_tcp (demo_swim_env ''b'') True
      (states_of demo_conn demo_peer_view) [8] new_memberlist = Returns merged" ..
  have arrives: "state_arrives demo_conn demo_tcp demo_conn demo_tcp [6, 1, 7, 8] [8] demo_peer_view"
    "state_arrives demo_conn demo_tcp demo_conn demo_tcp [6, 0, 9] ((\<lambda>join. [9]) True) new_memberlist"
    by (simp_all add: demo_state_arrives local_nodes_def demo_peer_view_def new_memberlist_def)
  from push_pull_exchanges_views [OF w arrives(1) w' arrives(2) m] show ?thesis by blast
qed

subsection \<open>What a peer can do to the reader\<close>

text \<open>A header that asks for less than no nodes crashes the node that reads it.\<close>

lemma negative_count_panics:
  "te_read_header tenv rest = Some (h, left) \<Longrightarrow> ph_Nodes h < 0 \<Longrightarrow>
     handle_push_pull env tenv senv n localState rest m = Panics"
  by (simp add: handle_push_pull_def readRemoteState_def)

text \<open>A node sends a state of any size, and no node reads more than \<open>maxPushStateBytes\<close>.\<close>

lemma large_state_is_refused:
  assumes "encryptLocalState s n buf = Some w" "length (ne_random s n) = nonceSize" "EncryptionEnabled r"
    and "maxPushStateBytes < encryptedLength (encryptionVersion s) (length buf)"
    and "encryptedLength (encryptionVersion s) (length buf) < 256 ^ 4"
  shows "readTCP r tr w = Some (Inl (StateTooLarge (encryptedLength (encryptionVersion s) (length buf))))"
proof -
  obtain header c where f: "w = encryptMsg # header @ c" "length header = 4" "be_nat header = length c"
    "encryptPayload (gcm_Seal (ne_cipher s)) (ne_random s n) (encryptionVersion s) (primary_key s) buf (encryptMsg # header) [] = Inr c"
    using encryptLocalState_frame [OF assms(1,2,5)] .
  have "encryptionVersion s \<le> 1" by (simp add: encryptionVersion_def)
  from gcm.length_encrypted [OF assms(2) this f(4)] have "be_nat header = encryptedLength (encryptionVersion s) (length buf)"
    using f(3) by simp
  then show ?thesis using f(1,2) assms(3,4) by (simp add: readTCP_def read_decrypted_def decryptRemoteState_def)
qed

end
