(* ===== verification/Probe.thy ===== *)
theory Probe
  imports TransportProps
begin

section \<open>Background work: probes and gossip (memberlist/state.go, memberlist/util.go)\<close>

text \<open>
  At every tick a node probes the next node of its list, and gossips to a few nodes it picks at
  random. Other goroutines are taken not to change the list within a call. Random numbers are
  arguments, and so is what arrives on the channel of acks, in order.
\<close>

subsection \<open>Tickers\<close>

text \<open>
  A stop channel is a number; \<open>sd_running\<close> are the stop channels of the goroutines that were
  started, \<open>sd_closed\<close> those that have been closed.
\<close>

record schedule =
  sd_tickers :: nat
  sd_stopTick :: "nat option"
  sd_running :: "nat list"
  sd_closed :: "nat set"
  sd_next :: nat

record intervals =
  iv_Probe :: int
  iv_PushPull :: int
  iv_Gossip :: int
  iv_GossipNodes :: int

definition start_goroutines :: "intervals \<Rightarrow> nat \<Rightarrow> nat list" where
  "start_goroutines conf stopCh =
     (if 0 < iv_Probe conf then [stopCh] else []) @ (if 0 < iv_PushPull conf then [stopCh] else [])
     @ (if 0 < iv_Gossip conf \<and> 0 < iv_GossipNodes conf then [stopCh] else [])"

text \<open>The push/pull goroutine has no ticker.\<close>

definition new_tickers :: "intervals \<Rightarrow> nat" where
  "new_tickers conf =
     (if 0 < iv_Probe conf then 1 else 0) + (if 0 < iv_Gossip conf \<and> 0 < iv_GossipNodes conf then 1 else 0)"

definition schedule_start :: "intervals \<Rightarrow> schedule \<Rightarrow> schedule" where
  "schedule_start conf s =
     (if 0 < sd_tickers s then s
      else
        (let stopCh = sd_next s;
             s1 = s\<lparr>sd_next := stopCh + 1, sd_running := sd_running s @ start_goroutines conf stopCh,
                    sd_tickers := new_tickers conf\<rparr>
         in if 0 < sd_tickers s1 then s1\<lparr>sd_stopTick := Some stopCh\<rparr> else s1))"

definition deschedule :: "schedule \<Rightarrow> schedule" where
  "deschedule s =
     (if sd_tickers s = 0 then s
      else s\<lparr>sd_closed := sd_closed s \<union> set_option (sd_stopTick s), sd_tickers := 0\<rparr>)"

definition still_running :: "schedule \<Rightarrow> nat list" where
  "still_running s = filter (\<lambda>ch. ch \<notin> sd_closed s) (sd_running s)"

definition not_scheduled :: schedule where
  "not_scheduled = \<lparr>sd_tickers = 0, sd_stopTick = None, sd_running = [], sd_closed = {}, sd_next = 0\<rparr>"

subsection \<open>Random nodes\<close>

definition node_of :: "memberlist \<Rightarrow> string \<Rightarrow> nodeState" where
  "node_of m n = the (mb_map m n)"

text \<open>The loop, with the number of tries that are left. The list holds a node once, so a name stands for its pointer.\<close>

primrec pick_nodes ::
  "nat \<Rightarrow> nat \<Rightarrow> string list \<Rightarrow> memberlist \<Rightarrow> (nat \<Rightarrow> 32 word) \<Rightarrow> nat \<Rightarrow> string list \<Rightarrow> string list" where
  "pick_nodes 0 k excludes m random i kNodes = kNodes"
| "pick_nodes (Suc tries) k excludes m random i kNodes =
     (if length kNodes < k then
        (let name = mb_nodes m ! randomOffset (random i) (length (mb_nodes m)); node = node_of m name in
         pick_nodes tries k excludes m random (i + 1)
           (if n_Name node \<in> set excludes then kNodes
            else if ns_State node \<noteq> stateAlive then kNodes
            else if name \<in> set kNodes then kNodes
            else kNodes @ [name]))
      else kNodes)"

definition kRandomNodes :: "nat \<Rightarrow> string list \<Rightarrow> memberlist \<Rightarrow> (nat \<Rightarrow> 32 word) \<Rightarrow> string list" where
  "kRandomNodes k excludes m random = pick_nodes (3 * length (mb_nodes m)) k excludes m random 0 []"

subsection \<open>Gossip\<close>

definition node_addr :: "memberlist \<Rightarrow> string \<Rightarrow> udp_addr" where
  "node_addr m n = (n_Addr (node_of m n), unat (n_Port (node_of m n)))"

fun gossip_to :: "net_env \<Rightarrow> memberlist \<Rightarrow> string list \<Rightarrow> net_state \<Rightarrow> net_state" where
  "gossip_to env m [] st = st"
| "gossip_to env m (n # ns) st =
     (let (st1, msgs) = take_gossip env (udpSendBuf - compoundHeaderOverhead - crypt_overhead env) st in
      if msgs = [] then st1
      else gossip_to env m ns (fst (rawSendMsgUDP env (node_addr m n) (makeCompoundMessage msgs) st1)))"

definition gossip :: "net_env \<Rightarrow> nat \<Rightarrow> (nat \<Rightarrow> 32 word) \<Rightarrow> memberlist \<Rightarrow> net_state \<Rightarrow> net_state" where
  "gossip env gossipNodes random m st =
     gossip_to env m (kRandomNodes gossipNodes [ne_Name env] m random) st"

text \<open>The node \<open>pushPull\<close> exchanges its state with.\<close>

definition pushPull_target :: "net_env \<Rightarrow> (nat \<Rightarrow> 32 word) \<Rightarrow> memberlist \<Rightarrow> udp_addr option" where
  "pushPull_target env random m =
     (case kRandomNodes 1 [ne_Name env] m random of [] \<Rightarrow> None | n # _ \<Rightarrow> Some (node_addr m n))"

subsection \<open>Which node to probe\<close>

definition skip_probe :: "string \<Rightarrow> memberlist \<Rightarrow> string \<Rightarrow> bool" where
  "skip_probe me m n \<longleftrightarrow> n_Name (node_of m n) = me \<or> ns_State (node_of m n) = stateDead"

text \<open>
  The loop of \<open>probe\<close>, up to the call of \<open>probeNode\<close>: the node it finds, and the list and
  \<open>probeIndex\<close> it leaves.
\<close>

partial_function (option) probe_from ::
  "string \<Rightarrow> (string list \<Rightarrow> string list) \<Rightarrow> nat \<Rightarrow> nat \<Rightarrow> memberlist \<Rightarrow> (nodeState option \<times> nat \<times> memberlist) option" where
  "probe_from me shuffle numCheck probeIndex m =
     (if length (mb_nodes m) \<le> numCheck then Some (None, probeIndex, m)
      else if length (mb_nodes m) \<le> probeIndex
      then probe_from me shuffle (numCheck + 1) 0 (resetNodes shuffle m)
      else
        (let n = mb_nodes m ! probeIndex in
         if skip_probe me m n then probe_from me shuffle (numCheck + 1) (probeIndex + 1) m
         else Some (Some (node_of m n), probeIndex + 1, m)))"

definition probe_target ::
  "string \<Rightarrow> (string list \<Rightarrow> string list) \<Rightarrow> nat \<Rightarrow> memberlist \<Rightarrow> (nodeState option \<times> nat \<times> memberlist) option" where
  "probe_target me shuffle probeIndex m = probe_from me shuffle 0 probeIndex m"

subsection \<open>One probe\<close>

text \<open>The ping: the sequence number, the handler that sends to channel \<open>ch\<close>, and whether it was sent.\<close>

definition probe_ping :: "net_env \<Rightarrow> nat \<Rightarrow> nodeState \<Rightarrow> net_state \<Rightarrow> net_state \<times> bool \<times> 32 word" where
  "probe_ping env ch node st =
     (let (st1, seqNo) = nextSeqNo st;
          st2 = setAckChannel seqNo ch st1;
          (st3, ok) = encodeAndSendMsg env (n_Addr node, unat (n_Port node)) pingMsg
            (ne_encode_ping env \<lparr>pi_SeqNo = seqNo, pi_Node = n_Name node\<rparr>) st2
      in (st3, ok, seqNo))"

fun ping_indirectly :: "net_env \<Rightarrow> memberlist \<Rightarrow> indirectPingReq \<Rightarrow> string list \<Rightarrow> net_state \<Rightarrow> net_state" where
  "ping_indirectly env m ind [] st = st"
| "ping_indirectly env m ind (peer # peers) st =
     ping_indirectly env m ind peers
       (fst (encodeAndSendMsg env (node_addr m peer) indirectPingMsg (ne_encode_indirect env ind) st))"

definition probe_indirectly ::
  "net_env \<Rightarrow> (nat \<Rightarrow> 32 word) \<Rightarrow> nodeState \<Rightarrow> 32 word \<Rightarrow> memberlist \<Rightarrow> net_state \<Rightarrow> net_state" where
  "probe_indirectly env random node seqNo m st =
     ping_indirectly env m
       \<lparr>ip_SeqNo = seqNo, ip_Target = n_Addr node, ip_Port = n_Port node, ip_Node = n_Name node\<rparr>
       (kRandomNodes (ne_IndirectChecks env) [ne_Name env, n_Name node] m random) st"

text \<open>
  What the channel gives: the first message, if one comes before the timeout of the probe; what is
  in it when that message is put back; and what comes later. \<open>None\<close> is to wait for ever, \<open>Some b\<close>
  whether an ack was received.
\<close>

fun last_receive :: "ackMessage list \<Rightarrow> bool option" where
  "last_receive [] = None"
| "last_receive (v # _) = Some (am_Complete v)"

definition await_acks :: "nat \<Rightarrow> ackMessage option \<Rightarrow> ackMessage list \<Rightarrow> ackMessage list \<Rightarrow> bool option" where
  "await_acks room first waiting later =
     (case first of
        None \<Rightarrow> last_receive (waiting @ later)
      | Some v \<Rightarrow>
          if am_Complete v then Some True
          else if room \<le> length waiting then None
          else last_receive (waiting @ v # later))"

text \<open>The fallback over TCP is made with nodes that know version 3, unless it is turned off.\<close>

definition tcp_fallback :: "bool \<Rightarrow> nodeState \<Rightarrow> (unit, bool) result \<Rightarrow> bool" where
  "tcp_fallback disableTcpPings node contact \<longleftrightarrow>
     \<not> disableTcpPings \<and> 3 \<le> n_PMax node \<and> contact = Inr True"

definition probe_suspicion :: "net_env \<Rightarrow> nodeState \<Rightarrow> suspect" where
  "probe_suspicion env node =
     \<lparr>su_Incarnation = ns_Incarnation node, su_Node = n_Name node, su_From = ne_Name env\<rparr>"

text \<open>The end of \<open>probeNode\<close>: what becomes of the view, given whether an ack came over UDP or TCP.\<close>

definition finish_probe ::
  "net_env \<Rightarrow> swim_env \<Rightarrow> bool \<Rightarrow> nodeState \<Rightarrow> bool option \<Rightarrow> (unit, bool) result \<Rightarrow> memberlist \<Rightarrow>
     (memberlist \<times> swim_output list) run" where
  "finish_probe env senv disableTcpPings node acked contact m =
     (case acked of
        None \<Rightarrow> Hangs
      | Some True \<Rightarrow> Returns (m, [])
      | Some False \<Rightarrow>
          if tcp_fallback disableTcpPings node contact then Returns (m, [])
          else suspectNode senv (probe_suspicion env node) m)"


text \<open>
  What a probe is given from outside: the channel it makes; what arrives there, as for \<open>await_acks\<close>; the
  random numbers; and the outcome of the ping over TCP. Serf sets no ping delegate.
\<close>

record probe_input =
  px_channel :: nat
  px_first :: "ackMessage option"
  px_waiting :: "ackMessage list"
  px_later :: "ackMessage list"
  px_random :: "nat \<Rightarrow> 32 word"
  px_contact :: "(unit, bool) result"

definition acked_at_once :: "ackMessage option \<Rightarrow> bool" where
  "acked_at_once first = (case first of None \<Rightarrow> False | Some v \<Rightarrow> am_Complete v)"

text \<open>\<open>Hangs\<close> is to wait for ever on the channel.\<close>

definition probeNode ::
  "net_env \<Rightarrow> swim_env \<Rightarrow> bool \<Rightarrow> probe_input \<Rightarrow> nodeState \<Rightarrow> memberlist \<Rightarrow> net_state \<Rightarrow>
     (memberlist \<times> net_state \<times> swim_output list) run" where
  "probeNode env senv disableTcpPings x node m st =
     (let (st1, ok, seqNo) = probe_ping env (px_channel x) node st in
      if \<not> ok then Returns (m, st1, [])
      else
        (let st2 = (if acked_at_once (px_first x) then st1
                    else probe_indirectly env (px_random x) node seqNo m st1);
             acked = await_acks (ne_IndirectChecks env + 1) (px_first x) (px_waiting x) (px_later x)
         in case finish_probe env senv disableTcpPings node acked (px_contact x) m of
              Returns (m', out) \<Rightarrow> Returns (m', st2, out)
            | Panics \<Rightarrow> Panics
            | Hangs \<Rightarrow> Hangs))"

text \<open>One tick: \<open>probeIndex\<close>, the view and the network after it, and what the tick gossips.\<close>

definition probe ::
  "net_env \<Rightarrow> swim_env \<Rightarrow> bool \<Rightarrow> (string list \<Rightarrow> string list) \<Rightarrow> probe_input \<Rightarrow> nat \<Rightarrow> memberlist \<Rightarrow> net_state \<Rightarrow>
     (nat \<times> memberlist \<times> net_state \<times> swim_output list) run" where
  "probe env senv disableTcpPings shuffle x probeIndex m st =
     (case probe_target (ne_Name env) shuffle probeIndex m of
        None \<Rightarrow> Hangs
      | Some (None, i, m1) \<Rightarrow> Returns (i, m1, st, [])
      | Some (Some node, i, m1) \<Rightarrow>
          (case probeNode env senv disableTcpPings x node m1 st of
             Returns (m2, st2, out) \<Rightarrow> Returns (i, m2, st2, out)
           | Panics \<Rightarrow> Panics
           | Hangs \<Rightarrow> Hangs))"

end
