(* ===== verification/ProbeProps.thy ===== *)
theory ProbeProps
  imports Probe SwimLife
begin

section \<open>Properties of probes and gossip\<close>

text \<open>
  Random nodes are alive nodes, each once; a round of probes visits every node that is to be
  probed, once and in order; a handler of acks is invoked once; and only silence raises a
  suspicion.
\<close>

subsection \<open>Starting and stopping\<close>

datatype schedule_op = Start intervals | Stop

primrec schedule_step :: "schedule_op \<Rightarrow> schedule \<Rightarrow> schedule" where
  "schedule_step (Start conf) s = schedule_start conf s"
| "schedule_step Stop s = deschedule s"

text \<open>A push/pull goroutine is never started alone.\<close>

definition has_ticker :: "intervals \<Rightarrow> bool" where
  "has_ticker conf \<longleftrightarrow> 0 < new_tickers conf \<or> iv_PushPull conf \<le> 0"

definition schedule_inv :: "schedule \<Rightarrow> bool" where
  "schedule_inv s \<longleftrightarrow>
     (\<forall>ch \<in> set (sd_running s). ch \<in> sd_closed s \<or> 0 < sd_tickers s \<and> sd_stopTick s = Some ch)
     \<and> (0 < sd_tickers s \<longrightarrow> (\<exists>ch. sd_stopTick s = Some ch \<and> ch \<notin> sd_closed s \<and> ch < sd_next s))
     \<and> (\<forall>ch \<in> sd_closed s. ch < sd_next s)"

lemma schedule_step_inv:
  assumes "schedule_inv s" "\<And>conf. op = Start conf \<Longrightarrow> has_ticker conf"
  shows "schedule_inv (schedule_step op s)"
proof (cases op)
  case (Start conf)
  show ?thesis
  proof (cases "0 < sd_tickers s")
    case True
    then show ?thesis using assms(1) Start by (simp add: schedule_start_def)
  next
    case idle: False
    then have closed: "set (sd_running s) \<subseteq> sd_closed s" using assms(1) by (auto simp: schedule_inv_def)
    have fresh: "sd_next s \<notin> sd_closed s" "\<forall>ch \<in> sd_closed s. ch < sd_next s + 1"
      using assms(1) by (auto simp: schedule_inv_def)
    show ?thesis
    proof (cases "0 < new_tickers conf")
      case True
      have "set (start_goroutines conf (sd_next s)) \<subseteq> {sd_next s}" by (auto simp: start_goroutines_def)
      then show ?thesis using True Start idle closed fresh
        by (auto simp: schedule_start_def schedule_inv_def Let_def)
    next
      case False
      then have "start_goroutines conf (sd_next s) = []"
        using assms(2) [OF Start] by (auto simp: has_ticker_def new_tickers_def start_goroutines_def split: if_splits)
      then show ?thesis using False Start idle closed fresh
        by (auto simp: schedule_start_def schedule_inv_def Let_def)
    qed
  qed
next
  case Stop
  then show ?thesis using assms(1) by (auto simp: schedule_inv_def deschedule_def)
qed

text \<open>\<open>deschedule\<close> stops everything. After any sequence of starts and stops, each start with a probe or a
  gossip interval unless it has no push/pull interval, \<open>deschedule\<close> leaves no goroutine whose stop
  channel is open, and it never closes a channel twice.\<close>

theorem deschedule_stops_all:
  assumes "\<And>conf. Start conf \<in> set ops \<Longrightarrow> has_ticker conf" "s = fold schedule_step ops not_scheduled"
  shows "still_running (deschedule s) = []
    \<and> (0 < sd_tickers s \<longrightarrow> (\<exists>ch. sd_stopTick s = Some ch \<and> ch \<notin> sd_closed s))"
proof -
  have "schedule_inv s0 \<Longrightarrow> schedule_inv (fold schedule_step ops s0)" for s0
    using assms(1)
  proof (induction ops arbitrary: s0)
    case (Cons op ops)
    then have "schedule_inv (schedule_step op s0)" by (intro schedule_step_inv) simp_all
    then show ?case using Cons by simp
  qed simp
  moreover have "schedule_inv not_scheduled" by (simp add: schedule_inv_def not_scheduled_def)
  ultimately have "schedule_inv s" using assms(2) by blast
  then show ?thesis by (auto simp: schedule_inv_def still_running_def deschedule_def filter_empty_conv)
qed

definition demo_intervals :: intervals where
  "demo_intervals = \<lparr>iv_Probe = 1, iv_PushPull = 30, iv_Gossip = 1, iv_GossipNodes = 3\<rparr>"

lemma deschedule_stops_all_witness:
  "still_running (deschedule (fold schedule_step [Start demo_intervals, Stop, Start demo_intervals] not_scheduled)) = []"
  using deschedule_stops_all [of "[Start demo_intervals, Stop, Start demo_intervals]"]
  by (simp add: has_ticker_def new_tickers_def demo_intervals_def)

text \<open>With the push/pull interval alone there is no ticker, and the goroutine runs on.\<close>

lemma lone_push_pull_is_not_stopped:
  "still_running (deschedule (schedule_start \<lparr>iv_Probe = 0, iv_PushPull = 30, iv_Gossip = 0, iv_GossipNodes = 0\<rparr> not_scheduled)) = [0]"
  by (simp add: schedule_start_def deschedule_def still_running_def not_scheduled_def start_goroutines_def
      new_tickers_def Let_def)

subsection \<open>A cluster\<close>

definition demo_node :: "string \<Rightarrow> nodeStateType \<Rightarrow> nodeState" where
  "demo_node name state =
     \<lparr>n_Name = name, n_Addr = [10, 0, 0, 1], n_Port = 7946, n_Meta = [], n_PMin = 1, n_PMax = 3, n_PCur = 2,
      n_DMin = 2, n_DMax = 4, n_DCur = 3, ns_Incarnation = 1, ns_State = state, ns_StateChange = 0\<rparr>"

definition demo_cluster :: memberlist where
  "demo_cluster =
     \<lparr>mb_map = [''a'' \<mapsto> demo_node ''a'' stateAlive, ''b'' \<mapsto> demo_node ''b'' stateAlive,
        ''c'' \<mapsto> demo_node ''c'' stateDead, ''d'' \<mapsto> demo_node ''d'' stateSuspect],
      mb_nodes = [''a'', ''b'', ''c'', ''d''], mb_incarnation = 1, mb_leave = False\<rparr>"

subsection \<open>Random nodes\<close>

definition random_choice :: "nat \<Rightarrow> string list \<Rightarrow> memberlist \<Rightarrow> string list \<Rightarrow> bool" where
  "random_choice k excludes m ns \<longleftrightarrow>
     distinct ns \<and> length ns \<le> k
     \<and> (\<forall>n \<in> set ns. n \<in> set (mb_nodes m) \<and> ns_State (node_of m n) = stateAlive \<and> n_Name (node_of m n) \<notin> set excludes)"

lemma pick_nodes_choice:
  "mb_nodes m \<noteq> [] \<Longrightarrow> random_choice k excludes m ns \<Longrightarrow>
     random_choice k excludes m (pick_nodes tries k excludes m random i ns)"
proof (induction tries arbitrary: i ns)
  case (Suc tries)
  let ?n = "mb_nodes m ! randomOffset (random i) (length (mb_nodes m))"
  have "?n \<in> set (mb_nodes m)"
    using Suc.prems(1) by (intro nth_mem) (simp add: randomOffset_def)
  then have "random_choice k excludes m (ns @ [?n])"
    if "length ns < k" "n_Name (node_of m ?n) \<notin> set excludes" "ns_State (node_of m ?n) = stateAlive" "?n \<notin> set ns"
    using that Suc.prems(2) by (auto simp: random_choice_def)
  then show ?case using Suc by (simp add: Let_def)
qed simp

lemma kRandomNodes_choice: "random_choice k excludes m (kRandomNodes k excludes m random)"
proof (cases "mb_nodes m = []")
  case True
  then show ?thesis by (simp add: kRandomNodes_def random_choice_def)
next
  case False
  then show ?thesis unfolding kRandomNodes_def by (rule pick_nodes_choice) (simp add: random_choice_def)
qed

lemma take_gossip_packet:
  assumes "take_gossip env (udpSendBuf - compoundHeaderOverhead - crypt_overhead env) st = (st1, msgs)" "msgs \<noteq> []"
    and "udp_packet env n (makeCompoundMessage msgs) = Some p" "length (ne_random env n) = nonceSize"
  shows "int (length p) \<le> udpSendBuf"
  using take_gossip_bytes [OF assms(1,2)] length_udp_packet [OF assms(3,4)] length_makeCompoundMessage [of msgs]
  by simp

lemma gossip_to_packets:
  assumes "\<forall>n. length (ne_random env n) = nonceSize"
  shows "\<exists>ms ps. set ms \<subseteq> set ns \<and> length ms \<le> length ns \<and> (distinct ns \<longrightarrow> distinct ms)
    \<and> nt_sent (gossip_to env m ns st) = nt_sent st @ ps
    \<and> list_all2 (\<lambda>n (dest, p). dest = node_addr m n \<and> int (length p) \<le> udpSendBuf) ms ps"
proof (induction ns arbitrary: st)
  case (Cons n ns)
  obtain st1 msgs where g: "take_gossip env (udpSendBuf - compoundHeaderOverhead - crypt_overhead env) st = (st1, msgs)"
    by fastforce
  note sent = take_gossip_sent [OF g]
  show ?case
  proof (cases "msgs = []")
    case True
    then show ?thesis using g sent by (intro exI [of _ "[]"]) simp
  next
    case False
    let ?st2 = "fst (rawSendMsgUDP env (node_addr m n) (makeCompoundMessage msgs) st1)"
    have step: "gossip_to env m (n # ns) st = gossip_to env m ns ?st2" using g False by simp
    obtain ms ps where IH: "set ms \<subseteq> set ns" "length ms \<le> length ns" "distinct ns \<longrightarrow> distinct ms"
      "nt_sent (gossip_to env m ns ?st2) = nt_sent ?st2 @ ps"
      "list_all2 (\<lambda>n (dest, p). dest = node_addr m n \<and> int (length p) \<le> udpSendBuf) ms ps"
      using Cons.IH [of ?st2] by blast
    show ?thesis
    proof (cases "udp_packet env (length (nt_sent st1)) (makeCompoundMessage msgs)")
      case None
      then have "nt_sent ?st2 = nt_sent st" using sent by (simp add: rawSendMsgUDP_def)
      then show ?thesis using IH unfolding step by (intro exI [of _ ms] exI [of _ ps]) auto
    next
      case (Some p)
      then have "nt_sent ?st2 = nt_sent st @ [(node_addr m n, p)]" using sent by (simp add: rawSendMsgUDP_def)
      moreover have "int (length p) \<le> udpSendBuf"
        using take_gossip_packet [OF g False Some] assms by simp
      ultimately show ?thesis using IH unfolding step
        by (intro exI [of _ "n # ms"] exI [of _ "(node_addr m n, p) # ps"]) auto
    qed
  qed
qed (intro exI [of _ "[]"], simp)

text \<open>C38: Gossip goes to at most \<open>GossipNodes\<close> nodes, all different, alive and not the node itself, one packet
  each, and no packet is longer than the limit for UDP, with compression and encryption.\<close>

theorem gossip_goes_to_alive_nodes:
  assumes "\<forall>n. length (ne_random env n) = nonceSize"
  shows "\<exists>ms ps. random_choice k [ne_Name env] m ms
    \<and> nt_sent (gossip env k random m st) = nt_sent st @ ps
    \<and> list_all2 (\<lambda>n (dest, p). dest = node_addr m n \<and> int (length p) \<le> udpSendBuf) ms ps"
proof -
  let ?ns = "kRandomNodes k [ne_Name env] m random"
  obtain ms ps where g: "set ms \<subseteq> set ?ns" "length ms \<le> length ?ns" "distinct ?ns \<longrightarrow> distinct ms"
    "nt_sent (gossip_to env m ?ns st) = nt_sent st @ ps"
    "list_all2 (\<lambda>n (dest, p). dest = node_addr m n \<and> int (length p) \<le> udpSendBuf) ms ps"
    using gossip_to_packets [OF assms] by blast
  then have "random_choice k [ne_Name env] m ms"
    using kRandomNodes_choice [of k "[ne_Name env]" m random] by (auto simp: random_choice_def)
  with g(4,5) show ?thesis by (auto simp: gossip_def)
qed

lemma gossip_goes_to_alive_nodes_witness:
  "\<exists>ms ps. random_choice 3 [''a''] demo_cluster ms
    \<and> nt_sent (gossip demo_net 3 of_nat demo_cluster demo_net_state) = nt_sent demo_net_state @ ps
    \<and> list_all2 (\<lambda>n (dest, p). dest = node_addr demo_cluster n \<and> int (length p) \<le> udpSendBuf) ms ps"
  using gossip_goes_to_alive_nodes [of demo_net 3 demo_cluster of_nat demo_net_state] by (simp add: demo_net_def)

subsection \<open>Rounds of probes\<close>

definition shuffles :: "(string list \<Rightarrow> string list) \<Rightarrow> bool" where
  "shuffles shuffle \<longleftrightarrow> (\<forall>xs. mset (shuffle xs) = mset xs)"

lemma resetNodes_shorter:
  assumes "shuffles shuffle"
  shows "length (mb_nodes (resetNodes shuffle m)) \<le> length (mb_nodes m)"
proof -
  have "size (mset (mb_nodes (resetNodes shuffle m))) \<le> size (mset (mb_nodes m))"
    using assms unfolding shuffles_def
    by (subst resetNodes_spec(1)) (blast, rule size_filter_mset_lesseq)
  then show ?thesis by simp
qed

text \<open>The loop ends, and leaves a node of the list that is to be probed, or none.\<close>

lemma probe_from_terminates:
  assumes "shuffles shuffle" "swim_inv me m"
  shows "\<exists>x i' m'. probe_from me shuffle numCheck i m = Some (x, i', m') \<and> swim_inv me m'
    \<and> (\<forall>node. x = Some node \<longrightarrow> (\<exists>n \<in> set (mb_nodes m'). node = node_of m' n \<and> \<not> skip_probe me m' n))"
  using assms(2)
proof (induction "length (mb_nodes m) - numCheck" arbitrary: numCheck i m rule: less_induct)
  case less
  show ?case
  proof (cases "length (mb_nodes m) \<le> numCheck")
    case True
    then show ?thesis using less.prems by (subst probe_from.simps) simp
  next
    case False
    have sh: "\<And>xs. mset (shuffle xs) = mset xs" using assms(1) by (simp add: shuffles_def)
    have "length (mb_nodes (resetNodes shuffle m)) - (numCheck + 1) < length (mb_nodes m) - numCheck"
      using resetNodes_shorter [OF assms(1), of m] False by simp
    note reset = less.hyps [OF this reset_good(1) [OF sh less.prems], of 0]
    have "length (mb_nodes m) - (numCheck + 1) < length (mb_nodes m) - numCheck" using False by simp
    note skip = less.hyps [OF this less.prems, of "i + 1"]
    show ?thesis
    proof (cases "i < length (mb_nodes m) \<and> \<not> skip_probe me m (mb_nodes m ! i)")
      case True
      then have "probe_from me shuffle numCheck i m = Some (Some (node_of m (mb_nodes m ! i)), i + 1, m)"
        using False by (subst probe_from.simps) (simp add: Let_def)
      with True less.prems show ?thesis by auto
    next
      case no: False
      then show ?thesis using False reset skip by (subst probe_from.simps) (auto simp: Let_def not_less)
    qed
  qed
qed

text \<open>Skipping over nodes that are not probed, to one that is.\<close>

lemma drop_ConsD: "drop i xs = x # ys \<Longrightarrow> i < length xs \<and> xs ! i = x"
  by (metis drop_all list.distinct(1) not_le nth_via_drop)

lemma probe_from_finds:
  assumes "drop i (mb_nodes m) = us @ t # vs" "\<forall>u \<in> set us. skip_probe me m u" "\<not> skip_probe me m t"
    and "numCheck \<le> i" "i \<le> length (mb_nodes m)"
  shows "probe_from me shuffle numCheck i m = Some (Some (node_of m t), i + length us + 1, m)"
  using assms
proof (induction us arbitrary: i numCheck)
  case Nil
  then have "i < length (mb_nodes m)" "mb_nodes m ! i = t" using drop_ConsD [of i "mb_nodes m" t vs] by simp_all
  then show ?case using Nil by (subst probe_from.simps) (simp add: Let_def)
next
  case (Cons u us)
  then have i: "i < length (mb_nodes m)" "mb_nodes m ! i = u"
    using drop_ConsD [of i "mb_nodes m" u "us @ t # vs"] by simp_all
  have "drop (i + 1) (mb_nodes m) = us @ t # vs" using Cons.prems(1) by (metis Suc_eq_plus1 append_Cons drop_Suc list.sel(3) tl_drop)
  then have "probe_from me shuffle (numCheck + 1) (i + 1) m = Some (Some (node_of m t), i + 1 + length us + 1, m)"
    using Cons.prems i by (intro Cons.IH) simp_all
  then show ?case using Cons.prems i by (subst probe_from.simps) (simp add: Let_def)
qed

text \<open>
  The timer of \<open>setAckChannel\<close> puts a message into the channel, so that something arrives. When the
  first message is the timeout it is put back, for which there must be room.
\<close>

definition answered_or_timed_out :: "net_env \<Rightarrow> probe_input \<Rightarrow> bool" where
  "answered_or_timed_out env x \<longleftrightarrow>
     (case px_first x of
        None \<Rightarrow> px_waiting x @ px_later x \<noteq> []
      | Some v \<Rightarrow> am_Complete v \<or> length (px_waiting x) \<le> ne_IndirectChecks env)"

lemma await_acks_answered:
  "answered_or_timed_out env x \<Longrightarrow>
     await_acks (ne_IndirectChecks env + 1) (px_first x) (px_waiting x) (px_later x) \<noteq> None"
  by (cases "px_waiting x"; cases "px_later x") (auto simp: answered_or_timed_out_def await_acks_def split: option.splits)

text \<open>A suspicion leaves the list as it is, and which nodes are to be probed.\<close>

lemma suspicion_keeps_list:
  assumes "swim_inv me m" "mb_map m t = Some node" "t \<noteq> sw_Name senv"
  shows "\<exists>m' out. suspectNode senv (probe_suspicion env node) m = Returns (m', out) \<and> mb_nodes m' = mb_nodes m
    \<and> (\<forall>n. skip_probe me m' n = skip_probe me m n \<and> (mb_map m' n = None \<longleftrightarrow> mb_map m n = None))"
proof -
  have name: "n_Name node = t" using assms(1,2) by (simp add: swim_inv_def)
  let ?node = "node\<lparr>ns_Incarnation := ns_Incarnation node, ns_State := stateSuspect, ns_StateChange := sw_now senv\<rparr>"
  have "suspectNode senv (probe_suspicion env node) m =
      (if ns_State node \<noteq> stateAlive then Returns (m, [])
       else Returns (set_node t ?node m, gossip_out senv (SuspectMsg (probe_suspicion env node)) @ [StartTimer t (sw_now senv)]))"
    using assms(2,3) name by (simp add: suspectNode_def probe_suspicion_def)
  moreover have "skip_probe me (set_node t ?node m) n = skip_probe me m n" if "ns_State node = stateAlive" for n
    using that assms(2) by (simp add: skip_probe_def node_of_def set_node_def)
  ultimately show ?thesis using assms(2) by (auto simp: set_node_def)
qed

lemma probeNode_returns:
  assumes "swim_inv me m" "mb_map m t = Some node" "t \<noteq> me" "sw_Name senv = me" "answered_or_timed_out env x"
  shows "\<exists>m' st' out. probeNode env senv disableTcpPings x node m st = Returns (m', st', out) \<and> swim_inv me m'
    \<and> mb_nodes m' = mb_nodes m \<and> (\<forall>n. skip_probe me m' n = skip_probe me m n)"
proof -
  obtain m1 out1 where s: "suspectNode senv (probe_suspicion env node) m = Returns (m1, out1)" "mb_nodes m1 = mb_nodes m"
    "\<forall>n. skip_probe me m1 n = skip_probe me m n"
    using suspicion_keeps_list [OF assms(1,2)] assms(3,4) by blast
  have inv: "swim_inv me m1" using suspectNode_good [OF s(1)] assms(1,4) by (simp add: good_step_def)
  obtain b where b: "await_acks (ne_IndirectChecks env + 1) (px_first x) (px_waiting x) (px_later x) = Some b"
    using await_acks_answered [OF assms(5)] by blast
  have "\<exists>m' out. finish_probe env senv disableTcpPings node (Some b) (px_contact x) m = Returns (m', out) \<and> swim_inv me m'
      \<and> mb_nodes m' = mb_nodes m \<and> (\<forall>n. skip_probe me m' n = skip_probe me m n)"
    using s inv assms(1) by (cases b) (auto simp: finish_probe_def)
  then obtain m2 out2 where f: "finish_probe env senv disableTcpPings node (Some b) (px_contact x) m = Returns (m2, out2)"
    "swim_inv me m2" "mb_nodes m2 = mb_nodes m" "\<forall>n. skip_probe me m2 n = skip_probe me m n" by blast
  obtain st1 ok seqNo where "probe_ping env (px_channel x) node st = (st1, ok, seqNo)" by (metis prod_cases3)
  then show ?thesis using f b assms(1) by (cases ok) (simp_all add: probeNode_def Let_def)
qed

text \<open>A tick that finds the node \<open>t\<close>, and any tick.\<close>

lemma probe_finds:
  assumes "swim_inv (ne_Name env) m" "sw_Name senv = ne_Name env" "answered_or_timed_out env x"
    and "probe_target (ne_Name env) shuffle i m = Some (Some (node_of m t), i', m)"
    and "t \<in> set (mb_nodes m)" "\<not> skip_probe (ne_Name env) m t"
  shows "\<exists>m' st' out. probe env senv disableTcpPings shuffle x i m st = Returns (i', m', st', out) \<and> swim_inv (ne_Name env) m'
    \<and> mb_nodes m' = mb_nodes m \<and> (\<forall>n. skip_probe (ne_Name env) m' n = skip_probe (ne_Name env) m n)"
proof -
  obtain node where node: "mb_map m t = Some node" "n_Name node = t"
    using assms(1,5) by (auto simp: swim_inv_def)
  then have "node_of m t = node" "t \<noteq> ne_Name env" using assms(6) by (auto simp: node_of_def skip_probe_def)
  with probeNode_returns [OF assms(1) node(1) _ assms(2,3), of disableTcpPings st] assms(4) show ?thesis
    by (auto simp: probe_def)
qed

lemma probe_returns:
  assumes "shuffles shuffle" "swim_inv (ne_Name env) m" "sw_Name senv = ne_Name env" "answered_or_timed_out env x"
  shows "\<exists>r. probe env senv disableTcpPings shuffle x i m st = Returns r"
proof -
  let ?me = "ne_Name env"
  obtain x' i' m' where p: "probe_target ?me shuffle i m = Some (x', i', m')" "swim_inv ?me m'"
    "\<forall>node. x' = Some node \<longrightarrow> (\<exists>n \<in> set (mb_nodes m'). node = node_of m' n \<and> \<not> skip_probe ?me m' n)"
    using probe_from_terminates [OF assms(1,2), of 0 i] by (auto simp: probe_target_def)
  show ?thesis
  proof (cases x')
    case None
    then show ?thesis using p(1) by (simp add: probe_def)
  next
    case (Some node)
    then obtain n where n: "n \<in> set (mb_nodes m')" "node = node_of m' n" "\<not> skip_probe ?me m' n" using p(3) by blast
    then obtain nd where nd: "mb_map m' n = Some nd" "n_Name nd = n" using p(2) by (auto simp: swim_inv_def)
    then have "node = nd" "n \<noteq> ?me" using n by (auto simp: node_of_def skip_probe_def)
    with probeNode_returns [OF p(2) nd(1) _ assms(3,4), of disableTcpPings st] p(1) Some show ?thesis
      by (auto simp: probe_def)
  qed
qed

text \<open>Ticks one after the other, with the names of the nodes they probe.\<close>

fun probe_ticks ::
  "net_env \<Rightarrow> swim_env \<Rightarrow> bool \<Rightarrow> (string list \<Rightarrow> string list) \<Rightarrow> probe_input list \<Rightarrow> nat \<Rightarrow> memberlist \<Rightarrow> net_state \<Rightarrow>
     (string list \<times> nat \<times> memberlist \<times> net_state) run" where
  "probe_ticks env senv disableTcpPings shuffle [] i m st = Returns ([], i, m, st)"
| "probe_ticks env senv disableTcpPings shuffle (x # xs) i m st =
     (case probe env senv disableTcpPings shuffle x i m st of
        Returns (i', m', st', out) \<Rightarrow>
          (case probe_ticks env senv disableTcpPings shuffle xs i' m' st' of
             Returns (ns, r) \<Rightarrow>
               Returns ((case probe_target (ne_Name env) shuffle i m of Some (Some node, _) \<Rightarrow> [n_Name node] | _ \<Rightarrow> []) @ ns, r)
           | Panics \<Rightarrow> Panics
           | Hangs \<Rightarrow> Hangs)
      | Panics \<Rightarrow> Panics
      | Hangs \<Rightarrow> Hangs)"

lemma probe_ticks_round:
  assumes "sw_Name senv = ne_Name env" "\<forall>x \<in> set xs. answered_or_timed_out env x" "length xs = length ts"
    and "swim_inv (ne_Name env) m" "i \<le> length (mb_nodes m)"
    and "filter (\<lambda>n. \<not> skip_probe (ne_Name env) m n) (drop i (mb_nodes m)) = ts"
  shows "\<exists>i' m' st'. probe_ticks env senv disableTcpPings shuffle xs i m st = Returns (ts, i', m', st')
    \<and> mb_nodes m' = mb_nodes m \<and> (\<forall>n \<in> set (drop i' (mb_nodes m)). skip_probe (ne_Name env) m' n)"
  using assms(2-)
proof (induction xs arbitrary: ts i m st)
  case Nil
  then show ?case by (auto simp: filter_empty_conv)
next
  case (Cons x xs)
  let ?me = "ne_Name env"
  obtain t ts' where ts: "ts = t # ts'" using Cons.prems(2) by (cases ts) auto
  with Cons.prems(5) obtain us vs where d: "drop i (mb_nodes m) = us @ t # vs" "\<forall>u \<in> set us. skip_probe ?me m u"
    "\<not> skip_probe ?me m t" "filter (\<lambda>n. \<not> skip_probe ?me m n) vs = ts'"
    by (auto simp: filter_eq_Cons_iff)
  let ?i = "i + length us + 1"
  have p: "probe_target ?me shuffle i m = Some (Some (node_of m t), ?i, m)"
    unfolding probe_target_def using probe_from_finds [OF d(1-3) _ Cons.prems(4)] by simp
  have t: "t \<in> set (mb_nodes m)" using d(1) by (metis in_set_conv_decomp in_set_dropD)
  obtain m1 st1 out where m1: "probe env senv disableTcpPings shuffle x i m st = Returns (?i, m1, st1, out)" "swim_inv ?me m1"
    "mb_nodes m1 = mb_nodes m" "\<forall>n. skip_probe ?me m1 n = skip_probe ?me m n"
    using probe_finds [OF Cons.prems(3) assms(1) _ p t d(3)] Cons.prems(1) by fastforce
  have "drop ?i (mb_nodes m) = drop (length us + 1) (drop i (mb_nodes m))" by (simp add: add.commute add.left_commute)
  then have "drop ?i (mb_nodes m1) = vs" using d(1) m1(3) by simp
  moreover have "?i \<le> length (mb_nodes m1)" using arg_cong [OF d(1), of length] m1(3) by simp
  ultimately obtain i' m' st' where r: "probe_ticks env senv disableTcpPings shuffle xs ?i m1 st1 = Returns (ts', i', m', st')"
    "mb_nodes m' = mb_nodes m" "\<forall>n \<in> set (drop i' (mb_nodes m)). skip_probe ?me m' n"
    using Cons.IH [of ts' m1 ?i st1] Cons.prems(1,2) d(4) m1(2-4) ts by auto
  have "n_Name (node_of m t) = t" using t Cons.prems(3) by (auto simp: swim_inv_def node_of_def)
  with r m1(1) p ts show ?case by simp
qed

text \<open>C36: A round of probes. Let each ping be answered or time out, with room in the channel to put a timeout back.
  Then every tick returns, also where it wraps around and drops dead nodes. From the head of the list, as many ticks as
  there are nodes other than the local one that are not dead probe each of them exactly once, in the order
  of the list, and leave none for the rest of it; the suspicions they raise change neither the list nor who is probed.\<close>

theorem probe_round:
  assumes "shuffles shuffle" "swim_inv (ne_Name env) m" "sw_Name senv = ne_Name env"
    and "ts = filter (\<lambda>n. \<not> skip_probe (ne_Name env) m n) (mb_nodes m)"
    and "length xs = length ts" "\<forall>x \<in> set xs. answered_or_timed_out env x"
  shows "(\<forall>x \<in> set xs. \<forall>i m st. swim_inv (ne_Name env) m \<longrightarrow>
        (\<exists>r. probe env senv disableTcpPings shuffle x i m st = Returns r))
    \<and> (\<exists>i' m' st'. probe_ticks env senv disableTcpPings shuffle xs 0 m st = Returns (ts, i', m', st')
        \<and> mb_nodes m' = mb_nodes m \<and> (\<forall>n \<in> set (drop i' (mb_nodes m)). skip_probe (ne_Name env) m' n))"
proof -
  have "filter (\<lambda>n. \<not> skip_probe (ne_Name env) m n) (drop 0 (mb_nodes m)) = ts" using assms(4) by simp
  note round = probe_ticks_round [OF assms(3,6,5,2) _ this]
  show ?thesis
  proof (intro conjI ballI allI impI)
    fix x i m st
    assume x: "x \<in> set xs" and inv: "swim_inv (ne_Name env) m"
    show "\<exists>r. probe env senv disableTcpPings shuffle x i m st = Returns r"
      by (rule probe_returns [OF assms(1) inv assms(3) bspec [OF assms(6) x]])
  next
    show "\<exists>i' m' st'. probe_ticks env senv disableTcpPings shuffle xs 0 m st = Returns (ts, i', m', st')
        \<and> mb_nodes m' = mb_nodes m \<and> (\<forall>n \<in> set (drop i' (mb_nodes m)). skip_probe (ne_Name env) m' n)"
      by (rule round) simp
  qed
qed

definition demo_prober :: swim_env where
  "demo_prober =
     \<lparr>sw_Name = ''a'', sw_Alive = None, sw_Conflict = True, sw_encodes = (\<lambda>m. True), sw_now = 10, sw_random = 0\<rparr>"

definition demo_timeout :: ackMessage where
  "demo_timeout = \<lparr>am_Complete = False, am_Payload = [], am_Timestamp = 9\<rparr>"

definition demo_silence :: probe_input where
  "demo_silence = \<lparr>px_channel = 1, px_first = None, px_waiting = [demo_timeout], px_later = [], px_random = of_nat,
     px_contact = Inr False\<rparr>"

lemma probe_round_witness:
  "\<exists>i' m' st'. probe_ticks demo_net demo_prober False id [demo_silence, demo_silence] 0 demo_cluster demo_net_state
     = Returns ([''b'', ''d''], i', m', st')"
proof -
  have name: "ne_Name demo_net = ''a''" by (simp add: demo_net_def)
  have sh: "shuffles id" by (simp add: shuffles_def)
  have inv: "swim_inv (ne_Name demo_net) demo_cluster"
    unfolding name by (auto simp: swim_inv_def demo_cluster_def demo_node_def)
  have me: "sw_Name demo_prober = ne_Name demo_net" by (simp add: demo_prober_def name)
  have ts: "[''b'', ''d''] = filter (\<lambda>n. \<not> skip_probe (ne_Name demo_net) demo_cluster n) (mb_nodes demo_cluster)"
    unfolding name by (simp add: demo_cluster_def demo_node_def skip_probe_def node_of_def)
  have len: "length [demo_silence, demo_silence] = length [''b'', ''d'']" by simp
  have ans: "\<forall>x \<in> set [demo_silence, demo_silence]. answered_or_timed_out demo_net x"
    by (simp add: answered_or_timed_out_def demo_silence_def)
  show ?thesis
    using probe_round [OF sh inv me ts len ans, THEN conjunct2, of False demo_net_state] by (elim exE conjE) (intro exI)
qed

text \<open>The tick that wraps around may probe nobody: in a cluster of two, when the local node is shuffled to the front.\<close>

lemma wrapping_tick_probes_nobody:
  defines "m \<equiv> demo_cluster\<lparr>mb_nodes := [''a'', ''b'']\<rparr>"
  assumes "ne_Name env = ''a''"
  shows "probe env senv disableTcpPings id x 2 m st = Returns (1, m, st, [])"
proof -
  have reset: "resetNodes id m = m\<lparr>mb_map := mb_map m\<rparr>"
    by (simp add: resetNodes_def moveDeadNodes_def move_dead.simps is_dead_def m_def demo_cluster_def demo_node_def
        Let_def)
  have "mb_nodes m = [''a'', ''b'']" "skip_probe ''a'' m ''a''"
    by (simp_all add: m_def demo_cluster_def skip_probe_def node_of_def demo_node_def)
  then have "probe_target ''a'' id 2 m = Some (None, 1, m)" unfolding probe_target_def using reset
    by (subst probe_from.simps, simp, subst probe_from.simps, simp add: Let_def, subst probe_from.simps, simp)
  then show ?thesis by (simp add: probe_def assms)
qed

subsection \<open>Acks\<close>

datatype ack_event = Register "32 word" ackHandler | AckCame ackResp int | TimedOut "32 word" ackHandler int

text \<open>The handlers that acks invoke.\<close>

fun ack_run :: "net_env \<Rightarrow> ack_event list \<Rightarrow> net_state \<Rightarrow> net_state \<times> (32 word \<times> ackHandler) list" where
  "ack_run env [] st = (st, [])"
| "ack_run env (Register seq h # es) st = ack_run env es (setAckHandler seq h st)"
| "ack_run env (TimedOut seq h now # es) st = ack_run env es (ack_timeout env seq h now st)"
| "ack_run env (AckCame ack t # es) st =
     (let (st', hs) = ack_run env es (invokeAckHandler env ack t st)
      in (st', (case nt_ackHandlers st (ak_SeqNo ack) of None \<Rightarrow> [] | Some h \<Rightarrow> [(ak_SeqNo ack, h)]) @ hs))"

lemma setAckChannel_handler: "setAckChannel seq ch = setAckHandler seq (AckChannel ch)"
  by (simp add: setAckChannel_def setAckHandler_def fun_eq_iff)

lemma offer_handlers [simp]: "nt_ackHandlers (offer env ch msg st) = nt_ackHandlers st"
  by (simp add: offer_def)

lemma encodeAndSendMsg_handlers [simp]:
  "nt_ackHandlers (fst (encodeAndSendMsg env dest t b st)) = nt_ackHandlers st"
  by (auto simp: encodeAndSendMsg_def sendMsg_def rawSendMsgUDP_def take_gossip_def Let_def
      split: option.split prod.split)

lemma invokeAckHandler_handlers:
  "nt_ackHandlers (invokeAckHandler env ack t st) = (nt_ackHandlers st)(ak_SeqNo ack := None)"
  by (auto simp: invokeAckHandler_def Let_def split: option.split ackHandler.split)

lemma ack_timeout_handlers:
  "nt_ackHandlers (ack_timeout env seq h now st) = (nt_ackHandlers st)(seq := None)"
  by (auto simp: ack_timeout_def Let_def split: ackHandler.split)

definition registered :: "32 word \<Rightarrow> ackHandler \<Rightarrow> net_state \<Rightarrow> nat" where
  "registered seq h st = (if nt_ackHandlers st seq = Some h then 1 else 0)"

text \<open>An ack handler is invoked at most once. In any order of registrations, acks, repeated and late ones
  too, and timeouts, the acks for a sequence number invoke a handler at most as often as it was
  registered for this number.\<close>

theorem ack_handler_invoked_once:
  "count_list (snd (ack_run env es st)) (seq, h) \<le> count_list es (Register seq h) + registered seq h st"
proof (induction env es st rule: ack_run.induct)
  case (2 env seq' h' es st)
  then show ?case by (auto simp: registered_def setAckHandler_def split: if_splits)
next
  case (3 env seq' h' now es st)
  then show ?case by (auto simp: registered_def ack_timeout_handlers split: if_splits)
next
  case (4 env ack t es st)
  then show ?case
    by (auto simp: registered_def invokeAckHandler_handlers Let_def split: if_splits prod.splits option.splits)
qed simp

subsection \<open>Suspicions\<close>

text \<open>What a probe finds on the channel first: an ack, or that the time is up.\<close>

lemma await_acks_acked: "await_acks room (Some v) waiting later = Some True" if "am_Complete v"
  using that by (simp add: await_acks_def)

lemma suspectNode_effect:
  assumes "suspectNode env s m = Returns (m', out)" "(m', out) \<noteq> (m, [])"
  shows "\<exists>st. mb_map m (su_Node s) = Some st \<and> ns_State st = stateAlive \<and> ns_Incarnation st \<le> su_Incarnation s"
  using assms by (auto simp: suspectNode_def not_less split: option.splits if_splits)

text \<open>C37: Only silence raises a suspicion. When a probe changes the view or gossips, the channel gave no ack
  before the timeout of the probe, and then none before the end of the interval, the node was not reached over
  TCP where that is tried, and it is alive in the view with an incarnation no newer than the one that was
  probed: a node that has refuted in the meantime is left alone.\<close>

theorem suspicion_needs_silence:
  assumes "finish_probe env senv disableTcpPings node (await_acks room first waiting later) contact m = Returns (m', out)"
    and "(m', out) \<noteq> (m, [])"
  shows "(\<forall>v. first = Some v \<longrightarrow> \<not> am_Complete v)
    \<and> (\<exists>v. hd (waiting @ (case first of None \<Rightarrow> later | Some u \<Rightarrow> u # later)) = v \<and> \<not> am_Complete v)
    \<and> \<not> tcp_fallback disableTcpPings node contact
    \<and> (\<exists>st. mb_map m (n_Name node) = Some st \<and> ns_State st = stateAlive \<and> ns_Incarnation st \<le> ns_Incarnation node)"
proof -
  from assms have acked: "await_acks room first waiting later = Some False"
    and tcp: "\<not> tcp_fallback disableTcpPings node contact"
    and s: "suspectNode senv (probe_suspicion env node) m = Returns (m', out)"
    by (auto simp: finish_probe_def split: option.splits if_splits bool.splits)
  have last: "\<not> am_Complete (hd xs)" if "last_receive xs = Some False" for xs
    using that by (cases xs) auto
  have "(\<forall>v. first = Some v \<longrightarrow> \<not> am_Complete v)
    \<and> last_receive (waiting @ (case first of None \<Rightarrow> later | Some u \<Rightarrow> u # later)) = Some False"
    using acked by (auto simp: await_acks_def split: option.splits if_splits)
  with last tcp suspectNode_effect [OF s assms(2)] show ?thesis by (auto simp: probe_suspicion_def)
qed

lemma suspicion_needs_silence_witness:
  "\<exists>m' out. finish_probe demo_net demo_prober False (demo_node ''b'' stateAlive)
       (await_acks 4 None [] [demo_timeout]) (Inr False) demo_cluster = Returns (m', out)
     \<and> (m', out) \<noteq> (demo_cluster, [])
     \<and> \<not> tcp_fallback False (demo_node ''b'' stateAlive) (Inr False :: (unit, bool) result)
     \<and> (\<exists>st. mb_map demo_cluster ''b'' = Some st \<and> ns_State st = stateAlive \<and> ns_Incarnation st \<le> 1)"
proof -
  have "\<exists>m' out. finish_probe demo_net demo_prober False (demo_node ''b'' stateAlive)
       (await_acks 4 None [] [demo_timeout]) (Inr False) demo_cluster = Returns (m', out) \<and> (m', out) \<noteq> (demo_cluster, [])"
    by (simp add: finish_probe_def await_acks_def demo_timeout_def tcp_fallback_def suspectNode_def probe_suspicion_def
        demo_cluster_def demo_node_def demo_prober_def gossip_out_def)
  then obtain m' out where f: "finish_probe demo_net demo_prober False (demo_node ''b'' stateAlive)
       (await_acks 4 None [] [demo_timeout]) (Inr False) demo_cluster = Returns (m', out)" "(m', out) \<noteq> (demo_cluster, [])"
    by blast
  from suspicion_needs_silence [OF f] f show ?thesis by (auto simp: demo_node_def)
qed

text \<open>
  Without indirect checks the channel has room for one message. When the timeout is received and
  an ack arrives before it is put back, the probe waits for ever.
\<close>

lemma probe_blocks_without_indirect_checks:
  assumes "px_first x = Some v" "\<not> am_Complete v" "px_waiting x = [ack]" "ne_IndirectChecks env = 0"
    and "fst (snd (probe_ping env (px_channel x) node st))"
  shows "probeNode env senv disableTcpPings x node m st = Hangs"
  using assms by (simp add: probeNode_def await_acks_def finish_probe_def Let_def case_prod_beta)

end
