(* ===== verification/KeyManager.thy ===== *)
theory KeyManager
  imports SerfDelegate Keyring Base64 GoStd
begin

section \<open>Changing the keys of a cluster (serf/keymanager.go, serf/internal_query.go)\<close>

text \<open>
  A key is installed, made primary or removed by a query to all nodes. Each node changes its own
  ring, writes it to a file and answers; the node that asks counts the answers and reports
  success only if all of them say so. Queries with the prefix \<open>_serf_\<close> are handled inside Serf and
  not handed to the application. The codec of the messages and the file system are arguments.
\<close>

subsection \<open>Messages\<close>

definition messageConflictResponseType :: byte where "messageConflictResponseType = 6"
definition messageKeyRequestType :: byte where "messageKeyRequestType = 7"
definition messageKeyResponseType :: byte where "messageKeyResponseType = 8"

record nodeKeyResponse =
  nk_Result :: bool
  nk_Message :: string
  nk_Keys :: "string list"

record KeyResponse =
  kq_Messages :: "string \<rightharpoonup> string"
  kq_NumNodes :: nat
  kq_NumResp :: nat
  kq_NumErr :: nat
  kq_Keys :: "string \<rightharpoonup> nat"

text \<open>
  A request holds a key and nothing else. \<open>ke_text\<close> renders the bytes of a payload in a message,
  \<open>ke_write_file\<close> is the error of writing the keyring file.
\<close>

record key_env =
  ke_encode_request :: "key \<Rightarrow> (string, bytes) result"
  ke_decode_request :: "bytes \<Rightarrow> key option"
  ke_encode_response :: "nodeKeyResponse \<Rightarrow> (string, bytes) result"
  ke_decode_response :: "bytes \<Rightarrow> nodeKeyResponse option"
  ke_encode_conflict :: "Member option \<Rightarrow> (string, bytes) result"
  ke_decode_conflict :: "bytes \<Rightarrow> Member option"
  ke_text :: "bytes \<Rightarrow> string"
  ke_KeyringFile :: string
  ke_write_file :: "string \<Rightarrow> string \<Rightarrow> string option"

definition internalQueryName :: "string \<Rightarrow> string" where
  "internalQueryName name = InternalQueryPrefix @ name"

definition pingQuery :: string where "pingQuery = ''ping''"
definition conflictQuery :: string where "conflictQuery = ''conflict''"
definition installKeyQuery :: string where "installKeyQuery = ''install-key''"
definition useKeyQuery :: string where "useKeyQuery = ''use-key''"
definition removeKeyQuery :: string where "removeKeyQuery = ''remove-key''"
definition listKeysQuery :: string where "listKeysQuery = ''list-keys''"

lemmas internal_queries =
  pingQuery_def conflictQuery_def installKeyQuery_def useKeyQuery_def removeKeyQuery_def listKeysQuery_def

subsection \<open>The keyring file\<close>

text \<open>\<open>json.MarshalIndent\<close> of strings in base64, which have nothing to escape.\<close>

fun json_items :: "string list \<Rightarrow> string" where
  "json_items [] = []"
| "json_items [s] = ''  '' @ CHR 0x22 # s @ [CHR 0x22, CHR 0x0A]"
| "json_items (s # ss) = ''  '' @ CHR 0x22 # s @ CHR 0x22 # CHR 0x2C # CHR 0x0A # json_items ss"

definition json_strings :: "string list \<Rightarrow> string" where
  "json_strings ss = (if ss = [] then ''[]'' else CHR 0x5B # CHR 0x0A # json_items ss @ [CHR 0x5D])"

definition writeKeyringFile :: "key_env \<Rightarrow> ring \<Rightarrow> string option" where
  "writeKeyringFile env k =
     (if ke_KeyringFile env = [] then None
      else map_option (\<lambda>e. ''Failed to write keyring file: '' @ e)
        (ke_write_file env (ke_KeyringFile env) (json_strings (map b64_encode (GetKeys k)))))"

subsection \<open>A node handles a key query\<close>

fun keyring_error_text :: "keyring_error \<Rightarrow> string" where
  "keyring_error_text EmptyPrimaryKey = ''Empty primary key not allowed''"
| "keyring_error_text KeySize = ''key size must be 16, 24 or 32 bytes''"
| "keyring_error_text KeyNotInRing = ''Requested key is not in the keyring''"
| "keyring_error_text PrimaryKeyRemoval = ''Removing the primary key is not allowed''"

definition key_failure :: "string \<Rightarrow> nodeKeyResponse" where
  "key_failure msg = \<lparr>nk_Result = False, nk_Message = msg, nk_Keys = []\<rparr>"

definition key_success :: "string list \<Rightarrow> nodeKeyResponse" where
  "key_success keys = \<lparr>nk_Result = True, nk_Message = [], nk_Keys = keys\<rparr>"

text \<open>
  The three handlers that change the ring differ in the operation. Serf counts a node as
  encrypting if it has a ring at all. \<open>None\<close> is a panic: of \<open>q.Payload[1:]\<close> on an empty payload, or
  of the operation.
\<close>

definition change_ring ::
  "key_env \<Rightarrow> (key \<Rightarrow> ring_op) \<Rightarrow> bytes \<Rightarrow> ring option \<Rightarrow> (nodeKeyResponse \<times> ring option) option" where
  "change_ring env f payload keyring =
     (case payload of
        [] \<Rightarrow> None
      | _ # body \<Rightarrow>
          (case ke_decode_request env body of
             None \<Rightarrow> Some (key_failure [], keyring)
           | Some key \<Rightarrow>
               (case keyring of
                  None \<Rightarrow> Some (key_failure ''No keyring to modify (encryption not enabled)'', keyring)
                | Some k \<Rightarrow>
                    (case ring_step (f key) k of
                       None \<Rightarrow> None
                     | Some (Inl e) \<Rightarrow> Some (key_failure (keyring_error_text e), keyring)
                     | Some (Inr k') \<Rightarrow>
                         (case writeKeyringFile env k' of
                            Some e \<Rightarrow> Some (key_failure e, Some k')
                          | None \<Rightarrow> Some (key_success [], Some k'))))))"

definition handleInstallKey ::
  "key_env \<Rightarrow> bytes \<Rightarrow> ring option \<Rightarrow> (nodeKeyResponse \<times> ring option) option" where
  "handleInstallKey env = change_ring env Add"

definition handleUseKey ::
  "key_env \<Rightarrow> bytes \<Rightarrow> ring option \<Rightarrow> (nodeKeyResponse \<times> ring option) option" where
  "handleUseKey env = change_ring env Use"

definition handleRemoveKey ::
  "key_env \<Rightarrow> bytes \<Rightarrow> ring option \<Rightarrow> (nodeKeyResponse \<times> ring option) option" where
  "handleRemoveKey env = change_ring env Remove"

definition handleListKeys :: "ring option \<Rightarrow> nodeKeyResponse" where
  "handleListKeys keyring =
     (case keyring of
        None \<Rightarrow> key_failure ''Keyring is empty (encryption not enabled)''
      | Some k \<Rightarrow> key_success (map b64_encode (GetKeys k)))"

definition sendKeyResponse ::
  "key_env \<Rightarrow> SerfQuery.net_env \<Rightarrow> squery \<Rightarrow> nodeKeyResponse \<Rightarrow> squery \<times> packet list" where
  "sendKeyResponse env net q resp =
     (case ke_encode_response env resp of
        Inl e \<Rightarrow> (q, [])
      | Inr buf \<Rightarrow> snd (Respond net q (messageKeyResponseType # buf)))"

text \<open>A name conflict: the answer is what this node knows of the name, if it is not its own.\<close>

definition handleConflict ::
  "key_env \<Rightarrow> SerfQuery.net_env \<Rightarrow> squery \<Rightarrow> members_state \<Rightarrow> squery \<times> packet list" where
  "handleConflict env net q ms =
     (let node = bytes_string (q_Payload q) in
      if node = ne_node net then (q, [])
      else
        (case ke_encode_conflict env (map_option (\<lambda>l. Member.truncate (sm_store ms l)) (sm_members ms node)) of
           Inl e \<Rightarrow> (q, [])
         | Inr buf \<Rightarrow> snd (Respond net q (messageConflictResponseType # buf))))"

text \<open>The query, the ring and the packets after an internal query; \<open>None\<close> is a panic.\<close>

definition internal_handleQuery ::
  "key_env \<Rightarrow> SerfQuery.net_env \<Rightarrow> squery \<Rightarrow> members_state \<Rightarrow> ring option \<Rightarrow> (ring option \<times> squery \<times> packet list) option" where
  "internal_handleQuery env net q ms keyring =
     (let queryName = drop (length InternalQueryPrefix) (q_Name q);
          answer = map_option (\<lambda>(resp, keyring'). (keyring', sendKeyResponse env net q resp))
      in if queryName = pingQuery then Some (keyring, q, [])
         else if queryName = conflictQuery then Some (keyring, handleConflict env net q ms)
         else if queryName = installKeyQuery then answer (handleInstallKey env (q_Payload q) keyring)
         else if queryName = useKeyQuery then answer (handleUseKey env (q_Payload q) keyring)
         else if queryName = removeKeyQuery then answer (handleRemoveKey env (q_Payload q) keyring)
         else if queryName = listKeysQuery then Some (keyring, sendKeyResponse env net q (handleListKeys keyring))
         else Some (keyring, q, []))"

text \<open>\<open>stream\<close>: an event is either handled inside, in a goroutine of its own, or passed on.\<close>

datatype query_stream = HandleInside squery | PassOn serf_event | Dropped

definition stream_event :: "bool \<Rightarrow> serf_event \<Rightarrow> query_stream" where
  "stream_event hasOutCh e =
     (case e of
        SawQuery q \<Rightarrow>
          if take (length InternalQueryPrefix) (q_Name q) = InternalQueryPrefix then HandleInside q
          else if hasOutCh then PassOn e else Dropped
      | _ \<Rightarrow> if hasOutCh then PassOn e else Dropped)"

subsection \<open>The node that asks\<close>

definition count_key :: "string \<Rightarrow> (string \<rightharpoonup> nat) \<Rightarrow> string \<rightharpoonup> nat" where
  "count_key key m = (case m key of None \<Rightarrow> m(key \<mapsto> 1) | Some n \<Rightarrow> m(key \<mapsto> n + 1))"

definition key_error :: "string \<Rightarrow> string \<Rightarrow> KeyResponse \<Rightarrow> KeyResponse" where
  "key_error from msg resp =
     resp\<lparr>kq_Messages := (kq_Messages resp)(from \<mapsto> msg), kq_NumErr := kq_NumErr resp + 1\<rparr>"

definition record_response :: "key_env \<Rightarrow> node_response \<Rightarrow> KeyResponse \<Rightarrow> KeyResponse" where
  "record_response env r resp =
     (let resp1 = resp\<lparr>kq_NumResp := kq_NumResp resp + 1\<rparr> in
      case nrs_Payload r of
        [] \<Rightarrow> key_error (nrs_From r) (''Invalid key query response type: '' @ ke_text env (nrs_Payload r)) resp1
      | t # body \<Rightarrow>
          if t \<noteq> messageKeyResponseType
          then key_error (nrs_From r) (''Invalid key query response type: '' @ ke_text env (nrs_Payload r)) resp1
          else
            (case ke_decode_response env body of
               None \<Rightarrow> key_error (nrs_From r) (''Failed to decode key query response: '' @ ke_text env (nrs_Payload r)) resp1
             | Some nr \<Rightarrow>
                 (let resp2 = (if nk_Result nr then resp1 else key_error (nrs_From r) (nk_Message nr) resp1)
                  in resp2\<lparr>kq_Keys := fold count_key (nk_Keys nr) (kq_Keys resp2)\<rparr>)))"

text \<open>The answers that come before the channel is closed.\<close>

fun streamKeyResp :: "key_env \<Rightarrow> node_response list \<Rightarrow> KeyResponse \<Rightarrow> KeyResponse" where
  "streamKeyResp env [] resp = resp"
| "streamKeyResp env (r # rs) resp =
     (let resp1 = record_response env r resp in
      if kq_NumResp resp1 = kq_NumNodes resp1 then resp1 else streamKeyResp env rs resp1)"

definition empty_key_response :: KeyResponse where
  "empty_key_response =
     \<lparr>kq_Messages = Map.empty, kq_NumNodes = 0, kq_NumResp = 0, kq_NumErr = 0, kq_Keys = Map.empty\<rparr>"

datatype key_request_error =
  BadBase64 | BadRequest string | QueryFailed string | NodesReportedFailure nat nat | NodesReportedSuccess nat nat

definition key_verdict :: "KeyResponse \<Rightarrow> key_request_error option" where
  "key_verdict resp =
     (if kq_NumErr resp \<noteq> 0 then Some (NodesReportedFailure (kq_NumErr resp) (kq_NumNodes resp))
      else if kq_NumResp resp \<noteq> kq_NumNodes resp then Some (NodesReportedSuccess (kq_NumResp resp) (kq_NumNodes resp))
      else None)"

text \<open>
  The second part, given the result of \<open>Query\<close>, the number of members after it, and the answers.
  The key that is sent is the decoded one.
\<close>

definition key_query_payload :: "key_env \<Rightarrow> string \<Rightarrow> (key_request_error, bytes) result" where
  "key_query_payload env key =
     (case b64_decode key of
        None \<Rightarrow> Inl BadBase64
      | Some rawKey \<Rightarrow>
          (case ke_encode_request env rawKey of
             Inl e \<Rightarrow> Inl (BadRequest e)
           | Inr b \<Rightarrow> Inr (messageKeyRequestType # b)))"

definition handleKeyRequest ::
  "key_env \<Rightarrow> string \<Rightarrow> string option \<Rightarrow> nat \<Rightarrow> node_response list \<Rightarrow> KeyResponse \<times> key_request_error option" where
  "handleKeyRequest env key queryErr numMembers answers =
     (case key_query_payload env key of
        Inl e \<Rightarrow> (empty_key_response, Some e)
      | Inr _ \<Rightarrow>
          (case queryErr of
             Some e \<Rightarrow> (empty_key_response, Some (QueryFailed e))
           | None \<Rightarrow>
               (let resp = streamKeyResp env answers (empty_key_response\<lparr>kq_NumNodes := numMembers\<rparr>)
                in (resp, key_verdict resp))))"

text \<open>The query that is sent, before its answers are read.\<close>

definition start_key_query ::
  "key_env \<Rightarrow> node_env \<Rightarrow> query_local \<Rightarrow> string \<Rightarrow> string \<Rightarrow> serf_node \<Rightarrow>
     ((string, ltime) result \<times> serf_node \<times> effects) option" where
  "start_key_query env nenv lo key query node =
     (case key_query_payload env key of
        Inl e \<Rightarrow> Some (Inl [], node, no_effects)
      | Inr req \<Rightarrow> Serf_Query nenv lo (internalQueryName query) req (Some (DefaultQueryParams lo)) node)"

definition InstallKey ::
  "key_env \<Rightarrow> node_env \<Rightarrow> query_local \<Rightarrow> string \<Rightarrow> serf_node \<Rightarrow> ((string, ltime) result \<times> serf_node \<times> effects) option" where
  "InstallKey env nenv lo key = start_key_query env nenv lo key installKeyQuery"

definition KeyManager_UseKey ::
  "key_env \<Rightarrow> node_env \<Rightarrow> query_local \<Rightarrow> string \<Rightarrow> serf_node \<Rightarrow> ((string, ltime) result \<times> serf_node \<times> effects) option" where
  "KeyManager_UseKey env nenv lo key = start_key_query env nenv lo key useKeyQuery"

definition KeyManager_RemoveKey ::
  "key_env \<Rightarrow> node_env \<Rightarrow> query_local \<Rightarrow> string \<Rightarrow> serf_node \<Rightarrow> ((string, ltime) result \<times> serf_node \<times> effects) option" where
  "KeyManager_RemoveKey env nenv lo key = start_key_query env nenv lo key removeKeyQuery"

definition ListKeys ::
  "key_env \<Rightarrow> node_env \<Rightarrow> query_local \<Rightarrow> serf_node \<Rightarrow> ((string, ltime) result \<times> serf_node \<times> effects) option" where
  "ListKeys env nenv lo = start_key_query env nenv lo [] listKeysQuery"

subsection \<open>Name conflicts\<close>

text \<open>\<open>handleNodeConflict\<close>: whether a resolution is started.\<close>

definition handleNodeConflict :: "string \<Rightarrow> bool \<Rightarrow> Node \<Rightarrow> bool" where
  "handleNodeConflict me enabled existing \<longleftrightarrow> n_Name existing = me \<and> enabled"

text \<open>The number of answers and of those that give the address of the local node.\<close>

fun count_votes :: "key_env \<Rightarrow> bytes \<Rightarrow> 16 word \<Rightarrow> node_response list \<Rightarrow> nat \<times> nat" where
  "count_votes env addr port [] = (0, 0)"
| "count_votes env addr port (r # rs) =
     (let (responses, matching) = count_votes env addr port rs in
      case nrs_Payload r of
        [] \<Rightarrow> (responses, matching)
      | t # body \<Rightarrow>
          if t \<noteq> messageConflictResponseType then (responses, matching)
          else
            (case ke_decode_conflict env body of
               None \<Rightarrow> (responses, matching)
             | Some m \<Rightarrow>
                 (responses + 1, if m_Addr m = addr \<and> m_Port m = port then matching + 1 else matching)))"

definition wins_vote :: "nat \<times> nat \<Rightarrow> bool" where
  "wins_vote v \<longleftrightarrow> (let (responses, matching) = v; majority = responses div 2 + 1 in majority \<le> matching)"

text \<open>Given the error of \<open>Query\<close>, the answers, and the error of shutting memberlist down.\<close>

definition resolveNodeConflict ::
  "key_env \<Rightarrow> Node \<Rightarrow> string option \<Rightarrow> node_response list \<Rightarrow> string option \<Rightarrow> members_state \<Rightarrow> members_state" where
  "resolveNodeConflict env self queryErr answers err ms =
     (case queryErr of
        Some e \<Rightarrow> ms
      | None \<Rightarrow>
          if wins_vote (count_votes env (n_Addr self) (n_Port self) answers) then ms
          else snd (Shutdown err ms))"

end
