(* ===== verification/KeyManagerProps.thy ===== *)
theory KeyManagerProps
  imports KeyManager Security SerfLife "HOL-Library.Multiset"
begin

section \<open>What a change of keys achieves\<close>

text \<open>
  One node: a key query changes the ring as the operation on key sets says. The cluster: a rotation
  in three phases never leaves a node whose packets another one cannot read. The node that asks: a
  change it reports as successful has happened on every member, if no answer comes twice.
\<close>

subsection \<open>One node\<close>

lemma change_ring_live:
  assumes "live_ring k" "ke_decode_request env body = Some key"
  shows "\<exists>resp k'. change_ring env f (t # body) (Some k) = Some (resp, Some k')
    \<and> live_ring k' \<and> abs_ring k' = key_set_step (f key) (abs_ring k)"
proof -
  from ring_step_refines [OF assms(1), of "f key"] obtain r where r: "ring_step (f key) k = Some r"
    "case r of Inl e \<Rightarrow> key_set_step (f key) (abs_ring k) = abs_ring k
       | Inr k' \<Rightarrow> live_ring k' \<and> abs_ring k' = key_set_step (f key) (abs_ring k)"
    by blast
  show ?thesis
  proof (cases r)
    case (Inl e)
    then show ?thesis using r assms by (simp add: change_ring_def)
  next
    case (Inr k')
    then show ?thesis using r assms by (cases "writeKeyringFile env k'") (simp_all add: change_ring_def)
  qed
qed

lemma change_ring_success:
  assumes "change_ring env f (t # body) keyring = Some (resp, keyring')" "nk_Result resp"
  shows "\<exists>key k k'. ke_decode_request env body = Some key \<and> keyring = Some k \<and> keyring' = Some k'
    \<and> ring_step (f key) k = Some (Inr k') \<and> writeKeyringFile env k' = None"
  using assms by (auto simp: change_ring_def key_failure_def split: option.splits sum.splits)

text \<open>What an operation that succeeds makes of a ring.\<close>

fun op_done :: "ring_op \<Rightarrow> ring \<Rightarrow> bool" where
  "op_done (Add key) k \<longleftrightarrow> key \<in> set k"
| "op_done (Use key) k \<longleftrightarrow> k \<noteq> [] \<and> k ! 0 = key"
| "op_done (Remove key) k \<longleftrightarrow> key \<notin> set k"

lemma ring_step_done:
  assumes "ring_ok k" "ring_step op k = Some (Inr k')"
  shows "op_done op k'"
proof (cases op)
  case (Add key)
  then show ?thesis using AddKey_set(2) [OF assms(1)] assms(2) by simp
next
  case (Use key)
  then have u: "UseKey key k = Inr k'" using assms(2) by simp
  from UseKey_set(3) [OF assms(1) u] u show ?thesis using Use
    by (auto simp: UseKey_def split: if_splits)
next
  case (Remove key)
  then have "k \<noteq> []" "key \<noteq> k ! 0" using assms(2) by (auto simp: RemoveKey_def split: if_splits)
  then show ?thesis using RemoveKey_spec [OF assms(1), of key] assms Remove
    by (auto simp: ring_ok_def)
qed

subsection \<open>A cluster\<close>

text \<open>Key queries handled one after the other, each by a node; \<open>None\<close> is a panic of one.\<close>

type_synonym key_query = "(key \<Rightarrow> ring_op) \<times> bytes"

definition query_node :: "key_env \<Rightarrow> string \<times> key_query \<Rightarrow> (string \<Rightarrow> ring option) \<Rightarrow> (string \<Rightarrow> ring option) option" where
  "query_node env s rings =
     (case s of (node, f, payload) \<Rightarrow>
        map_option (\<lambda>(resp, keyring). rings(node := keyring)) (change_ring env f payload (rings node)))"

fun query_nodes ::
  "key_env \<Rightarrow> (string \<times> key_query) list \<Rightarrow> (string \<Rightarrow> ring option) \<Rightarrow> (string \<Rightarrow> ring option) option" where
  "query_nodes env [] rings = Some rings"
| "query_nodes env (s # ss) rings = Option.bind (query_node env s rings) (query_nodes env ss)"

lemma query_nodes_append:
  "query_nodes env (xs @ ys) rings = Option.bind (query_nodes env xs rings) (query_nodes env ys)"
  by (induction xs arbitrary: rings) (simp_all split: bind_splits)

definition rings_satisfy :: "string set \<Rightarrow> (key \<times> key set \<Rightarrow> bool) \<Rightarrow> (string \<Rightarrow> ring option) \<Rightarrow> bool" where
  "rings_satisfy M I rings \<longleftrightarrow> (\<forall>n\<in>M. \<exists>k. rings n = Some k \<and> live_ring k \<and> I (abs_ring k))"

lemma rings_satisfy_mono: "rings_satisfy M I rings \<Longrightarrow> (\<And>s. I s \<Longrightarrow> J s) \<Longrightarrow> rings_satisfy M J rings"
  unfolding rings_satisfy_def by blast

text \<open>A phase: the same query at some nodes. \<open>I\<close> is kept throughout, \<open>J\<close> holds where the query was.\<close>

lemma phase:
  assumes "rings_satisfy M I rings" "set ns \<subseteq> M" "ke_decode_request env body = Some key"
    and keep: "\<And>s. I s \<Longrightarrow> I (key_set_step (f key) s) \<and> J (key_set_step (f key) s)"
  shows "\<exists>rings'. query_nodes env (map (\<lambda>n. (n, f, t # body)) ns) rings = Some rings'
    \<and> rings_satisfy M I rings' \<and> (\<forall>n\<in>set ns. \<exists>k. rings' n = Some k \<and> J (abs_ring k))"
proof -
  have "\<exists>rings'. query_nodes env (map (\<lambda>n. (n, f, t # body)) ns) rings = Some rings'
    \<and> rings_satisfy M I rings' \<and> (\<forall>n\<in>N \<union> set ns. \<exists>k. rings' n = Some k \<and> J (abs_ring k))"
    if "rings_satisfy M I rings" "\<forall>n\<in>N. \<exists>k. rings n = Some k \<and> J (abs_ring k)" "set ns \<subseteq> M" for N rings
    using that
  proof (induction ns arbitrary: N rings)
    case (Cons n ns)
    then obtain k where k: "rings n = Some k" "live_ring k" "I (abs_ring k)"
      by (auto simp: rings_satisfy_def)
    from change_ring_live [OF k(2) assms(3), of f t] obtain resp k' where
      s: "change_ring env f (t # body) (Some k) = Some (resp, Some k')"
        "live_ring k'" "abs_ring k' = key_set_step (f key) (abs_ring k)" by blast
    define r1 where "r1 = rings(n := Some k')"
    have "query_node env (n, f, t # body) rings = Some r1" by (simp add: query_node_def k(1) s(1) r1_def)
    moreover have "rings_satisfy M I r1"
      using Cons.prems(1) s(2,3) keep [OF k(3)] by (auto simp: rings_satisfy_def r1_def)
    moreover have "\<forall>m\<in>insert n N. \<exists>k. r1 m = Some k \<and> J (abs_ring k)"
      using Cons.prems(2) s(3) keep [OF k(3)] by (auto simp: r1_def)
    ultimately show ?case using Cons.IH [of r1 "insert n N"] Cons.prems(3) by auto
  qed (auto simp: rings_satisfy_def)
  from this [where N = "{}" and rings = rings] assms(1,2) show ?thesis by simp
qed

lemma phase_all:
  assumes "rings_satisfy M I rings" "set ns = M" "ke_decode_request env body = Some key"
    and "\<And>s. I s \<Longrightarrow> I (key_set_step (f key) s) \<and> J (key_set_step (f key) s)"
  shows "\<exists>rings'. query_nodes env (map (\<lambda>n. (n, f, t # body)) ns) rings = Some rings'
    \<and> rings_satisfy M (\<lambda>s. I s \<and> J s) rings'"
proof -
  from phase [where I = I and J = J and t = t and f = f and key = key, OF assms(1) _ assms(3,4)] assms(2) obtain rings' where
    "query_nodes env (map (\<lambda>n. (n, f, t # body)) ns) rings = Some rings'" "rings_satisfy M I rings'"
    "\<forall>n\<in>M. \<exists>k. rings' n = Some k \<and> J (abs_ring k)" by blast
  then show ?thesis unfolding rings_satisfy_def by (metis option.inject)
qed

text \<open>Any two nodes can read each other: the primary key of each is in the ring of the other.\<close>

definition all_readable :: "string set \<Rightarrow> (string \<Rightarrow> ring option) \<Rightarrow> bool" where
  "all_readable M rings \<longleftrightarrow>
     (\<forall>i\<in>M. \<forall>j\<in>M. \<exists>ki kj key. rings i = Some ki \<and> rings j = Some kj \<and> GetPrimaryKey ki = Some key \<and> key \<in> set kj)"

lemma all_readableI:
  "rings_satisfy M (\<lambda>(p, K). p \<in> P \<and> P \<subseteq> K) rings \<Longrightarrow> all_readable M rings"
  unfolding all_readable_def
proof (intro ballI)
  fix i j assume sat: "rings_satisfy M (\<lambda>(p, K). p \<in> P \<and> P \<subseteq> K) rings" and "i \<in> M" "j \<in> M"
  then obtain ki kj where "rings i = Some ki" "rings j = Some kj" "ki \<noteq> []" "ki ! 0 \<in> P" "P \<subseteq> set kj"
    unfolding rings_satisfy_def live_ring_def abs_ring_def by simp blast
  then show "\<exists>ki kj key. rings i = Some ki \<and> rings j = Some kj \<and> GetPrimaryKey ki = Some key \<and> key \<in> set kj"
    by (auto simp: GetPrimaryKey_def)
qed

definition rotation ::
  "bytes \<Rightarrow> bytes \<Rightarrow> string list \<Rightarrow> string list \<Rightarrow> string list \<Rightarrow> (string \<times> key_query) list" where
  "rotation new old adds uses removes =
     map (\<lambda>n. (n, Add, new)) adds @ map (\<lambda>n. (n, Use, new)) uses @ map (\<lambda>n. (n, Remove, old)) removes"

lemma take_append_cases:
  obtains (left) m where "take n (xs @ ys) = take m xs" | (right) m where "take n (xs @ ys) = xs @ take m ys"
  by (cases "n \<le> length xs") auto

lemma rotation_readable:
  assumes start: "rings_satisfy M (\<lambda>(p, K). p = old) rings"
    and dec: "ke_decode_request env new_body = Some new" "ke_decode_request env old_body = Some old" "key_size new"
    and all: "set adds = M" "set uses = M" "set removes \<subseteq> M"
  shows "\<exists>rings'. query_nodes env (take n (rotation (t # new_body) (t # old_body) adds uses removes)) rings = Some rings'
    \<and> all_readable M rings'"
proof -
  let ?add = "\<lambda>ns. map (\<lambda>n. (n, Add, t # new_body)) ns"
  let ?use = "\<lambda>ns. map (\<lambda>n. (n, Use, t # new_body)) ns"
  let ?rem = "\<lambda>ns. map (\<lambda>n. (n, Remove, t # old_body)) ns"
  define I1 where "I1 = (\<lambda>(p, K). p = old \<and> old \<in> K)"
  define I2 where "I2 = (\<lambda>(p, K). (p = old \<or> p = new) \<and> old \<in> K \<and> new \<in> K)"
  define I3 where "I3 = (\<lambda>(p, K). p = new \<and> new \<in> K)"
  have s1: "rings_satisfy M I1 rings"
    using start by (fastforce simp: I1_def rings_satisfy_def abs_ring_def live_ring_def)
  have k1: "\<And>s. I1 s \<Longrightarrow> I1 (key_set_step (Add new) s) \<and> I2 (key_set_step (Add new) s)"
    using dec(3) by (auto simp: I1_def I2_def)
  have k2: "\<And>s. I2 s \<Longrightarrow> I2 (key_set_step (Use new) s) \<and> I3 (key_set_step (Use new) s)"
    by (auto simp: I2_def I3_def)
  have k3: "\<And>s. I3 s \<Longrightarrow> I3 (key_set_step (Remove old) s) \<and> True"
    by (auto simp: I3_def split: if_splits)
  have r1: "all_readable M r" if "rings_satisfy M I1 r" for r
    by (rule all_readableI [where P = "{old}"], rule rings_satisfy_mono [OF that]) (auto simp: I1_def)
  have r2: "all_readable M r" if "rings_satisfy M I2 r" for r
    by (rule all_readableI [where P = "{old, new}"], rule rings_satisfy_mono [OF that]) (auto simp: I2_def)
  have r3: "all_readable M r" if "rings_satisfy M I3 r" for r
    by (rule all_readableI [where P = "{new}"], rule rings_satisfy_mono [OF that]) (auto simp: I3_def)
  from phase_all [where I = I1 and J = I2 and t = t and f = Add and key = new, OF s1 all(1) dec(1) k1] obtain ra where
    a: "query_nodes env (?add adds) rings = Some ra" "rings_satisfy M (\<lambda>s. I1 s \<and> I2 s) ra" by blast
  then have s2: "rings_satisfy M I2 ra" by (auto intro: rings_satisfy_mono)
  from phase_all [where I = I2 and J = I3 and t = t and f = Use and key = new, OF s2 all(2) dec(1) k2] obtain rb where
    b: "query_nodes env (?use uses) ra = Some rb" "rings_satisfy M (\<lambda>s. I2 s \<and> I3 s) rb" by blast
  then have s3: "rings_satisfy M I3 rb" by (auto intro: rings_satisfy_mono)
  have sub: "set (take m xs) \<subseteq> M" if "set xs \<subseteq> M" for m and xs :: "string list"
    by (rule subset_trans [OF set_take_subset that])
  show ?thesis
  proof (cases rule: take_append_cases [where n = n and xs = "?add adds" and ys = "?use uses @ ?rem removes"])
    case (left m)
    then have t: "take n (rotation (t # new_body) (t # old_body) adds uses removes) = ?add (take m adds)"
      by (simp only: rotation_def take_map)
    from phase [where I = I1 and J = I2 and t = t and f = Add and key = new, OF s1 sub dec(1) k1] all(1) r1 show ?thesis
      unfolding t by blast
  next
    case (right m)
    note first = right
    show ?thesis
    proof (cases rule: take_append_cases [where n = m and xs = "?use uses" and ys = "?rem removes"])
      case (left l)
      then have t: "take n (rotation (t # new_body) (t # old_body) adds uses removes) = ?add adds @ ?use (take l uses)"
        using first by (simp only: rotation_def take_map)
      from phase [where I = I2 and J = I3 and t = t and f = Use and key = new, OF s2 sub dec(1) k2] all(2) r2 show ?thesis
        unfolding t query_nodes_append a(1) bind.simps by blast
    next
      case (right l)
      then have t: "take n (rotation (t # new_body) (t # old_body) adds uses removes)
          = ?add adds @ ?use uses @ ?rem (take l removes)"
        using first by (simp only: rotation_def take_map)
      from phase [where I = I3 and J = "\<lambda>_. True" and t = t and f = Remove and key = old, OF s3 sub dec(2) k3] all(3) r3 show ?thesis
        unfolding t query_nodes_append a(1) b(1) bind.simps by blast
    qed
  qed
qed

subsection \<open>The node that asks\<close>

text \<open>An answer that counts as a success.\<close>

definition good_answer :: "key_env \<Rightarrow> node_response \<Rightarrow> bool" where
  "good_answer env r \<longleftrightarrow>
     (\<exists>body nr. nrs_Payload r = messageKeyResponseType # body \<and> ke_decode_response env body = Some nr \<and> nk_Result nr)"

lemma key_error_fields [simp]:
  "kq_NumErr (key_error n msg resp) = kq_NumErr resp + 1" "kq_NumResp (key_error n msg resp) = kq_NumResp resp"
  "kq_NumNodes (key_error n msg resp) = kq_NumNodes resp" "kq_Keys (key_error n msg resp) = kq_Keys resp"
  by (simp_all add: key_error_def)

lemma record_response_fields:
  "kq_NumResp (record_response env r resp) = kq_NumResp resp + 1"
  "kq_NumNodes (record_response env r resp) = kq_NumNodes resp"
  "kq_NumErr (record_response env r resp) = kq_NumErr resp + (if good_answer env r then 0 else 1)"
  by (auto simp: record_response_def good_answer_def Let_def split: list.splits option.splits)

text \<open>No more answers are read than there are nodes.\<close>

lemma stream_reads:
  assumes "kq_NumResp resp + missing = kq_NumNodes resp" "0 < missing"
  shows "streamKeyResp env rs resp = fold (record_response env) (take missing rs) resp"
  using assms
proof (induction rs arbitrary: resp missing)
  case (Cons r rs)
  obtain m where m: "missing = Suc m" using Cons.prems(2) by (cases missing) auto
  show ?case
  proof (cases m)
    case 0
    then show ?thesis using Cons.prems(1) m by (simp add: record_response_fields Let_def)
  next
    case (Suc l)
    then show ?thesis using Cons.prems(1) m Cons.IH [of "record_response env r resp" m]
      by (simp add: record_response_fields Let_def)
  qed
qed simp

lemma fold_record_fields:
  "kq_NumResp (fold (record_response env) rs resp) = kq_NumResp resp + length rs"
  "kq_NumNodes (fold (record_response env) rs resp) = kq_NumNodes resp"
  "kq_NumErr (fold (record_response env) rs resp) = kq_NumErr resp + length (filter (\<lambda>r. \<not> good_answer env r) rs)"
  by (induction rs arbitrary: resp) (simp_all add: record_response_fields)

lemma key_request_success:
  assumes "handleKeyRequest env key queryErr n answers = (resp, None)" "0 < n"
  shows "resp = fold (record_response env) (take n answers) (empty_key_response\<lparr>kq_NumNodes := n\<rparr>)"
    and "n \<le> length answers" and "\<forall>r\<in>set (take n answers). good_answer env r"
proof -
  from assms have s: "resp = streamKeyResp env answers (empty_key_response\<lparr>kq_NumNodes := n\<rparr>)"
    and v: "key_verdict resp = None"
    by (auto simp: handleKeyRequest_def Let_def split: sum.splits option.splits)
  have r: "resp = fold (record_response env) (take n answers) (empty_key_response\<lparr>kq_NumNodes := n\<rparr>)"
    unfolding s by (rule stream_reads) (simp_all add: empty_key_response_def assms(2))
  from v have "kq_NumErr resp = 0" "kq_NumResp resp = kq_NumNodes resp"
    by (auto simp: key_verdict_def split: if_splits)
  then show "n \<le> length answers" "\<forall>r\<in>set (take n answers). good_answer env r"
    by (auto simp: r fold_record_fields empty_key_response_def filter_empty_conv)
  show "resp = fold (record_response env) (take n answers) (empty_key_response\<lparr>kq_NumNodes := n\<rparr>)" by (rule r)
qed

text \<open>An answer of a node to a change, with the ring it had and the one it has then.\<close>

definition answered ::
  "key_env \<Rightarrow> (key \<Rightarrow> ring_op) \<Rightarrow> bytes \<Rightarrow> (string \<Rightarrow> ring option) \<Rightarrow> (string \<Rightarrow> ring option) \<Rightarrow> node_response \<Rightarrow> bool" where
  "answered env f payload rings rings' r \<longleftrightarrow>
     (\<exists>resp buf. change_ring env f payload (rings (nrs_From r)) = Some (resp, rings' (nrs_From r))
        \<and> ke_encode_response env resp = Inr buf \<and> nrs_Payload r = messageKeyResponseType # buf)"

text \<open>What the model relies on of the codec: what it encodes it decodes.\<close>

definition key_codec :: "key_env \<Rightarrow> bool" where
  "key_codec env \<longleftrightarrow>
     (\<forall>key b. ke_encode_request env key = Inr b \<longrightarrow> ke_decode_request env b = Some key)
     \<and> (\<forall>resp b. ke_encode_response env resp = Inr b \<longrightarrow> ke_decode_response env b = Some resp)"

lemma answered_good:
  assumes "key_codec env" "answered env f (t # body) rings rings' r" "good_answer env r"
  shows "\<exists>key k k'. ke_decode_request env body = Some key \<and> rings (nrs_From r) = Some k
    \<and> rings' (nrs_From r) = Some k' \<and> ring_step (f key) k = Some (Inr k') \<and> writeKeyringFile env k' = None"
proof -
  from assms(2) obtain resp buf where a: "change_ring env f (t # body) (rings (nrs_From r)) = Some (resp, rings' (nrs_From r))"
    "ke_encode_response env resp = Inr buf" "nrs_Payload r = messageKeyResponseType # buf"
    by (auto simp: answered_def)
  with assms(1,3) have "nk_Result resp" by (auto simp: good_answer_def key_codec_def)
  from change_ring_success [OF a(1) this] show ?thesis by simp
qed

lemma answers_of_all:
  assumes "finite M" "distinct (map nrs_From answers)" "nrs_From ` set answers \<subseteq> M" "card M \<le> length answers"
  shows "nrs_From ` set (take (card M) answers) = M"
proof (rule card_subset_eq [OF assms(1)])
  show "nrs_From ` set (take (card M) answers) \<subseteq> M"
    using assms(3) set_take_subset [of "card M" answers] by blast
  have "distinct (map nrs_From (take (card M) answers))"
    using assms(2) by (simp add: take_map [symmetric])
  from distinct_card [OF this] show "card (nrs_From ` set (take (card M) answers)) = card M"
    using assms(4) by simp
qed

lemma key_change_success:
  assumes codec: "key_codec env" and M: "finite M"
    and payload: "key_query_payload env key = Inr payload"
    and success: "handleKeyRequest env key queryErr (card M) answers = (resp, None)"
    and once: "distinct (map nrs_From answers)" "nrs_From ` set answers \<subseteq> M"
    and ans: "\<forall>r\<in>set answers. answered env f payload rings rings' r"
    and ok: "\<forall>n\<in>M. \<forall>k. rings n = Some k \<longrightarrow> ring_ok k"
  shows "\<forall>n\<in>M. \<exists>k' rawKey. b64_decode key = Some rawKey \<and> rings' n = Some k' \<and> op_done (f rawKey) k'
    \<and> writeKeyringFile env k' = None"
proof
  fix n assume n: "n \<in> M"
  with M have pos: "0 < card M" by (auto simp: card_gt_0_iff)
  note s = key_request_success [OF success pos]
  from answers_of_all [OF M once s(2)] n obtain r where r: "r \<in> set (take (card M) answers)" "nrs_From r = n"
    by (metis imageE)
  then have "r \<in> set answers" by (meson in_set_takeD)
  with ans have a: "answered env f payload rings rings' r" by blast
  from payload codec obtain rawKey b where p: "b64_decode key = Some rawKey" "payload = messageKeyRequestType # b"
    "ke_decode_request env b = Some rawKey"
    by (auto simp: key_query_payload_def key_codec_def split: option.splits sum.splits)
  from answered_good [OF codec a [unfolded p(2)]] s(3) r p(3) obtain k k' where
    k: "rings n = Some k" "rings' n = Some k'" "ring_step (f rawKey) k = Some (Inr k')" "writeKeyringFile env k' = None"
    by auto
  with ring_step_done [OF _ k(3)] ok n p(1) show "\<exists>k' rawKey. b64_decode key = Some rawKey \<and> rings' n = Some k'
    \<and> op_done (f rawKey) k' \<and> writeKeyringFile env k' = None" by blast
qed

subsection \<open>Votes\<close>

text \<open>The member that an answer names, if it is a valid one.\<close>

definition vote :: "key_env \<Rightarrow> node_response \<Rightarrow> Member option" where
  "vote env r =
     (case nrs_Payload r of
        [] \<Rightarrow> None
      | t # body \<Rightarrow> if t = messageConflictResponseType then ke_decode_conflict env body else None)"

definition votes_for :: "key_env \<Rightarrow> bytes \<Rightarrow> 16 word \<Rightarrow> node_response \<Rightarrow> bool" where
  "votes_for env addr port r \<longleftrightarrow> (\<exists>m. vote env r = Some m \<and> m_Addr m = addr \<and> m_Port m = port)"

lemma count_votes_eq:
  "count_votes env addr port rs =
     (size {#r \<in># mset rs. vote env r \<noteq> None#}, size {#r \<in># mset rs. votes_for env addr port r#})"
proof (induction rs)
  case (Cons r rs)
  then show ?case
    by (auto simp: vote_def votes_for_def split: list.split option.split)
qed simp

text \<open>The votes for two addresses among answers that both nodes got.\<close>

lemma votes_disjoint:
  assumes "(addr, port) \<noteq> (addr', port')"
  shows "size {#r \<in># C. votes_for env addr port r#} + size {#r \<in># C. votes_for env addr' port' r#}
    \<le> size {#r \<in># C. vote env r \<noteq> None#}"
  using assms by (induction C) (auto simp: votes_for_def)

lemma votes_valid: "size {#r \<in># C. votes_for env addr port r#} \<le> size {#r \<in># C. vote env r \<noteq> None#}"
  by (induction C) (auto simp: votes_for_def)

lemma wins_vote_iff: "wins_vote (n, k) \<longleftrightarrow> n < 2 * k"
  by (auto simp: wins_vote_def)

text \<open>Two nodes that both win have got different answers, two at least.\<close>

lemma two_winners_differ:
  assumes "(addr, port) \<noteq> (addr', port')"
    and "wins_vote (count_votes env addr port as)" "wins_vote (count_votes env addr' port' bs)"
  shows "2 \<le> size (mset as - mset bs) + size (mset bs - mset as)"
proof -
  let ?V = "\<lambda>M. size {#r \<in># M. vote env r \<noteq> None#}"
  let ?A = "\<lambda>M. size {#r \<in># M. votes_for env addr port r#}" and ?B = "\<lambda>M. size {#r \<in># M. votes_for env addr' port' r#}"
  define C X Y where "C = mset as \<inter># mset bs" and "X = mset as - mset bs" and "Y = mset bs - mset as"
  have split: "mset as = C + X" "mset bs = C + Y"
    unfolding C_def X_def Y_def multiset_eq_iff by (simp, arith)+
  have "?V C + ?V X < 2 * (?A C + ?A X)" "?V C + ?V Y < 2 * (?B C + ?B Y)"
    using assms(2,3) by (simp_all add: count_votes_eq wins_vote_iff split)
  moreover have "?A C + ?B C \<le> ?V C" by (rule votes_disjoint [OF assms(1)])
  moreover have "?A X \<le> ?V X" "?B Y \<le> ?V Y" by (rule votes_valid)+
  moreover have "?V X \<le> size X" "?V Y \<le> size Y" by (rule size_filter_mset_lesseq)+
  ultimately show ?thesis by (simp add: X_def Y_def)
qed

lemma resolve_shutdown:
  "\<not> wins_vote (count_votes env (n_Addr self) (n_Port self) answers) \<Longrightarrow>
     sm_state (resolveNodeConflict env self None answers err ms) = SerfShutdown"
  by (simp add: resolveNodeConflict_def Shutdown_def)

subsection \<open>Properties\<close>

text \<open>
  A node with the ring \<open>kj\<close> reads what another encrypts with \<open>key\<close>, if none of its other keys opens
  the packet by accident.
\<close>

definition reads_key :: "cipher \<Rightarrow> ring \<Rightarrow> key \<Rightarrow> bool" where
  "reads_key E kj key \<longleftrightarrow>
     (\<forall>random vsn msg data c. length random = nonceSize \<longrightarrow> vsn \<le> 1
        \<longrightarrow> encryptPayload (gcm_Seal E) random vsn key msg data [] = Inr c
        \<longrightarrow> (\<forall>k\<in>set kj - {key}. decryptMessage (gcm_Open E) k c data = None)
        \<longrightarrow> decryptPayload (gcm_Open E) (GetKeys kj) c data = Some (Inr msg))"

lemma in_ring_reads:
  assumes "key \<in> set kj"
  shows "reads_key E kj key"
proof -
  from assms obtain before after where kj: "kj = before @ key # after" "key \<notin> set before"
    by (meson split_list_first)
  then have "set before \<subseteq> set kj - {key}" by auto
  then show ?thesis unfolding reads_key_def GetKeys_def kj(1)
    by (auto intro!: gcm.decrypt_encrypt)
qed

text \<open>C15: When a change of keys is reported as successful, it has happened everywhere: if the answers come from
  different members, every member holds the key it was to install, uses the key it was to use, or
  has lost the key it was to remove, and has written its keyring file.\<close>

theorem key_change_reaches_every_member:
  assumes "key_codec env" "finite M" "key_query_payload env key = Inr payload"
    and "handleKeyRequest env key queryErr (card M) answers = (resp, None)"
    and "distinct (map nrs_From answers)" "nrs_From ` set answers \<subseteq> M"
    and "\<forall>r\<in>set answers. answered env f payload rings rings' r"
    and "\<forall>n\<in>M. \<forall>k. rings n = Some k \<longrightarrow> ring_ok k"
  shows "\<forall>n\<in>M. \<exists>k rawKey. rings' n = Some k \<and> b64_decode key = Some rawKey \<and> writeKeyringFile env k = None
    \<and> (f = Add \<longrightarrow> rawKey \<in> set k) \<and> (f = Use \<longrightarrow> GetPrimaryKey k = Some rawKey) \<and> (f = Remove \<longrightarrow> rawKey \<notin> set k)"
proof
  fix n assume "n \<in> M"
  with key_change_success [OF assms] obtain k rawKey where
    "b64_decode key = Some rawKey" "rings' n = Some k" "op_done (f rawKey) k" "writeKeyringFile env k = None" by blast
  then show "\<exists>k rawKey. rings' n = Some k \<and> b64_decode key = Some rawKey \<and> writeKeyringFile env k = None
    \<and> (f = Add \<longrightarrow> rawKey \<in> set k) \<and> (f = Use \<longrightarrow> GetPrimaryKey k = Some rawKey) \<and> (f = Remove \<longrightarrow> rawKey \<notin> set k)"
    by (intro exI [of _ k] exI [of _ rawKey]) (auto simp: GetPrimaryKey_def)
qed

text \<open>C16: Changing the key of a running cluster does not cut it in two. All nodes start with the old primary key;
  the new key is installed on all of them, then used by all, then the old key is removed,
  in any order inside a phase: after every step, what a node encrypts with its primary key every
  other node decrypts.\<close>

theorem key_rotation_keeps_nodes_readable:
  assumes "\<forall>n\<in>M. \<exists>k. rings n = Some k \<and> live_ring k \<and> GetPrimaryKey k = Some old"
    and "ke_decode_request env new_body = Some new" "ke_decode_request env old_body = Some old" "key_size new"
    and "set adds = M" "set uses = M" "set removes \<subseteq> M"
  shows "\<exists>rings'. query_nodes env (take n (rotation (t # new_body) (t # old_body) adds uses removes)) rings = Some rings'
    \<and> (\<forall>i\<in>M. \<forall>j\<in>M. \<exists>ki kj key. rings' i = Some ki \<and> rings' j = Some kj \<and> GetPrimaryKey ki = Some key
        \<and> reads_key E kj key)"
proof -
  have "rings_satisfy M (\<lambda>(p, K). p = old) rings"
    using assms(1) by (fastforce simp: rings_satisfy_def abs_ring_def GetPrimaryKey_def split: if_splits)
  from rotation_readable [OF this assms(2-7)] obtain rings' where
    r: "query_nodes env (take n (rotation (t # new_body) (t # old_body) adds uses removes)) rings = Some rings'"
    and readable: "all_readable M rings'" by blast
  have "\<forall>i\<in>M. \<forall>j\<in>M. \<exists>ki kj key. rings' i = Some ki \<and> rings' j = Some kj \<and> GetPrimaryKey ki = Some key \<and> reads_key E kj key"
    using readable unfolding all_readable_def by (meson in_ring_reads)
  with r show ?thesis by blast
qed

text \<open>C18: Of two nodes with one name and different addresses at most one stays. Each asks on its own and hears its own
  answers, in its own order: if both queries were sent and the answers the two got differ in at most one, then at
  least one of the nodes shuts down. A node that gets no answer shuts down; one that could not ask stays.\<close>

theorem at_most_one_keeps_the_name:
  assumes "(n_Addr a, n_Port a) \<noteq> (n_Addr b, n_Port b)"
    and "size (mset as - mset bs) + size (mset bs - mset as) \<le> 1"
  shows "(sm_state (resolveNodeConflict env a None as err msa) = SerfShutdown
      \<or> sm_state (resolveNodeConflict env b None bs err' msb) = SerfShutdown)
    \<and> sm_state (resolveNodeConflict env a None [] err msa) = SerfShutdown
    \<and> resolveNodeConflict env a (Some e) as err msa = msa"
proof -
  have "\<not> wins_vote (count_votes env (n_Addr a) (n_Port a) as) \<or> \<not> wins_vote (count_votes env (n_Addr b) (n_Port b) bs)"
    using two_winners_differ [OF assms(1), of env as bs] assms(2) by linarith
  moreover have "\<not> wins_vote (count_votes env (n_Addr a) (n_Port a) [])" by (simp add: wins_vote_iff)
  ultimately show ?thesis using resolve_shutdown by (auto simp: resolveNodeConflict_def)
qed

text \<open>With two different answers both can stay: each hears only the one in its favour.\<close>

lemma both_stay_when_they_hear_differently:
  assumes "vote env ra = Some ma" "m_Addr ma = n_Addr a" "m_Port ma = n_Port a"
    and "vote env rb = Some mb" "m_Addr mb = n_Addr b" "m_Port mb = n_Port b"
  shows "resolveNodeConflict env a None [ra] err msa = msa \<and> resolveNodeConflict env b None [rb] err' msb = msb"
  using assms by (simp add: resolveNodeConflict_def count_votes_eq votes_for_def wins_vote_iff)

subsection \<open>Instances\<close>

definition demo_keys :: key_env where
  "demo_keys =
     \<lparr>ke_encode_request = Inr, ke_decode_request = Some,
      ke_encode_response = (\<lambda>r. if r = key_success [] then Inr [1] else Inl ''too large''),
      ke_decode_response = (\<lambda>b. if b = [1] then Some (key_success []) else None),
      ke_encode_conflict = (\<lambda>m. Inl ''no conflict''), ke_decode_conflict = (\<lambda>b. None),
      ke_text = bytes_string, ke_KeyringFile = [], ke_write_file = (\<lambda>f c. None)\<rparr>"

definition old_key :: key where "old_key = replicate 16 1"
definition new_key :: key where "new_key = replicate 32 2"

definition demo_answers :: "string list \<Rightarrow> node_response list" where
  "demo_answers = map (\<lambda>n. \<lparr>nrs_From = n, nrs_Payload = [messageKeyResponseType, 1]\<rparr>)"

lemma demo_codec: "key_codec demo_keys"
  by (simp add: key_codec_def demo_keys_def)

lemma demo_rings: "ring_ok [old_key, new_key]" "ring_ok [old_key]" "key_size new_key" "new_key \<noteq> old_key"
    "AddKey new_key [old_key] = Inr [old_key, new_key]"
  by (simp_all add: ring_ok_def old_key_def new_key_def key_size_def AddKey_def GetPrimaryKey_def installKeys_def)

lemma demo_install:
  "change_ring demo_keys Add (messageKeyRequestType # new_key) (Some [old_key]) = Some (key_success [], Some [old_key, new_key])"
  by (simp add: change_ring_def demo_keys_def demo_rings writeKeyringFile_def)

lemma demo_payload: "key_query_payload demo_keys (b64_encode new_key) = Inr (messageKeyRequestType # new_key)"
  by (simp add: key_query_payload_def b64_decode_encode demo_keys_def)

lemma demo_key_request:
  "\<exists>resp. handleKeyRequest demo_keys (b64_encode new_key) None 2 (demo_answers [m, n]) = (resp, None)"
  by (simp add: handleKeyRequest_def demo_payload demo_answers_def Let_def record_response_def key_verdict_def
      empty_key_response_def, simp add: demo_keys_def key_success_def)

lemma two_names: "''n1'' \<noteq> ''n2''" by simp

lemma key_change_reaches_every_member_witness:
  "\<exists>k rawKey. Some [old_key, new_key] = Some k \<and> b64_decode (b64_encode new_key) = Some rawKey
    \<and> writeKeyringFile demo_keys k = None \<and> rawKey \<in> set k"
proof -
  obtain resp where r: "handleKeyRequest demo_keys (b64_encode new_key) None (card {''n1'', ''n2''}) (demo_answers [''n1'', ''n2'']) = (resp, None)"
    using demo_key_request [of "''n1''" "''n2''"] by (metis card_2_iff two_names)
  have "\<forall>n\<in>{''n1'', ''n2''}. \<exists>k rawKey. Some [old_key, new_key] = Some k \<and> b64_decode (b64_encode new_key) = Some rawKey
    \<and> writeKeyringFile demo_keys k = None
    \<and> (Add = Add \<longrightarrow> rawKey \<in> set k) \<and> (Add = Use \<longrightarrow> GetPrimaryKey k = Some rawKey) \<and> (Add = Remove \<longrightarrow> rawKey \<notin> set k)"
    by (rule key_change_reaches_every_member [OF demo_codec _ demo_payload r,
          where rings = "\<lambda>_. Some [old_key]" and rings' = "\<lambda>_. Some [old_key, new_key]"])
       (auto simp: demo_answers_def answered_def demo_install demo_rings, simp_all add: demo_keys_def)
  then show ?thesis by blast
qed

lemma key_rotation_keeps_nodes_readable_witness:
  "\<exists>rings' ki kj key. query_nodes demo_keys
      (take 3 (rotation (messageKeyRequestType # new_key) (messageKeyRequestType # old_key)
        [''n1'', ''n2''] [''n2'', ''n1''] [''n1'', ''n2''])) (\<lambda>_. Some [old_key]) = Some rings'
    \<and> rings' ''n1'' = Some ki \<and> rings' ''n2'' = Some kj \<and> GetPrimaryKey ki = Some key \<and> reads_key demo_cipher kj key"
proof -
  have "\<exists>rings'. query_nodes demo_keys
      (take 3 (rotation (messageKeyRequestType # new_key) (messageKeyRequestType # old_key)
        [''n1'', ''n2''] [''n2'', ''n1''] [''n1'', ''n2''])) (\<lambda>_. Some [old_key]) = Some rings'
    \<and> (\<forall>i\<in>{''n1'', ''n2''}. \<forall>j\<in>{''n1'', ''n2''}. \<exists>ki kj key. rings' i = Some ki \<and> rings' j = Some kj
        \<and> GetPrimaryKey ki = Some key \<and> reads_key demo_cipher kj key)"
    by (rule key_rotation_keeps_nodes_readable [where old = old_key and new = new_key])
       (auto simp: live_ring_def demo_rings GetPrimaryKey_def, simp_all add: demo_keys_def)
  then show ?thesis by blast
qed

definition demo_namesake :: "bytes \<Rightarrow> Node" where
  "demo_namesake addr = \<lparr>n_Name = ''n'', n_Addr = addr, n_Port = 7946, n_Meta = [],
     n_PMin = 1, n_PMax = 2, n_PCur = 2, n_DMin = 2, n_DMax = 4, n_DCur = 4\<rparr>"

text \<open>A third node knows the first of the two, and both hear it.\<close>

definition demo_vote_env :: key_env where
  "demo_vote_env = demo_keys\<lparr>ke_decode_conflict := (\<lambda>_. Some
     \<lparr>m_Name = ''n'', m_Addr = [10, 0, 0, 1], m_Port = 7946, m_Tags = Map.empty, m_Status = StatusAlive,
      m_ProtocolMin = 1, m_ProtocolMax = 2, m_ProtocolCur = 2, m_DelegateMin = 2, m_DelegateMax = 4, m_DelegateCur = 4\<rparr>)\<rparr>"

lemma at_most_one_keeps_the_name_witness:
  "sm_state (resolveNodeConflict demo_vote_env (demo_namesake [10, 0, 0, 2]) None
     [\<lparr>nrs_From = ''m'', nrs_Payload = [messageConflictResponseType]\<rparr>] None (members_init 4)) = SerfShutdown"
proof -
  let ?as = "[\<lparr>nrs_From = ''m'', nrs_Payload = [messageConflictResponseType]\<rparr>]"
  have "(n_Addr (demo_namesake [10, 0, 0, 1]), n_Port (demo_namesake [10, 0, 0, 1]))
      \<noteq> (n_Addr (demo_namesake [10, 0, 0, 2]), n_Port (demo_namesake [10, 0, 0, 2]))"
    "size (mset ?as - mset ?as) + size (mset ?as - mset ?as) \<le> 1"
    by (simp_all add: demo_namesake_def)
  note at_most_one_keeps_the_name [OF this, of demo_vote_env None "members_init 4" None "members_init 4"]
  moreover have "sm_state (resolveNodeConflict demo_vote_env (demo_namesake [10, 0, 0, 1]) None ?as None (members_init 4)) \<noteq> SerfShutdown"
    by (simp add: resolveNodeConflict_def demo_vote_env_def demo_namesake_def wins_vote_def members_init_def)
  ultimately show ?thesis by blast
qed

subsection \<open>What can go wrong\<close>

text \<open>A query without a payload, which any node can send, is a panic of every node that handles it.\<close>

lemma empty_key_query_panics:
  assumes "q_Name q = internalQueryName name" "name \<in> {installKeyQuery, useKeyQuery, removeKeyQuery}" "q_Payload q = []"
  shows "internal_handleQuery env net q ms keyring = None"
  using assms
  by (auto simp: internal_handleQuery_def internalQueryName_def handleInstallKey_def handleUseKey_def
      handleRemoveKey_def change_ring_def Let_def internal_queries)

text \<open>Answers are counted, not nodes: an answer that arrives twice stands for one that is missing.\<close>

lemma repeated_answer_reports_success:
  "\<exists>resp. handleKeyRequest demo_keys (b64_encode new_key) None 2 (demo_answers [''n1'', ''n1'']) = (resp, None)"
  by (rule demo_key_request)

text \<open>A node whose keyring file cannot be written reports a failure, but has changed its ring.\<close>

lemma failed_write_keeps_key:
  assumes "writeKeyringFile env k' = Some e" "ke_decode_request env body = Some key" "ring_step (f key) k = Some (Inr k')"
  shows "change_ring env f (t # body) (Some k) = Some (key_failure e, Some k')"
  using assms by (simp add: change_ring_def)

text \<open>
  A ring that was made without keys makes Serf take the node for one that encrypts: a request to
  remove a key is a panic there.
\<close>

lemma removal_from_empty_ring_panics:
  "ke_decode_request env body = Some key \<Longrightarrow> change_ring env Remove (t # body) (Some []) = None"
  by (simp add: change_ring_def RemoveKey_def)

text \<open>
  Keys are used out of order: a node told to remove the old key before all others use the new one
  no longer reads them.
\<close>

lemma early_removal_cuts_off:
  "\<exists>rings'. query_nodes demo_keys
      [(''n1'', Add, 7 # new_key), (''n2'', Add, 7 # new_key), (''n1'', Use, 7 # new_key), (''n1'', Remove, 7 # old_key)]
      (\<lambda>_. Some [old_key]) = Some rings'
    \<and> \<not> all_readable {''n1'', ''n2''} rings'"
proof -
  have "remove_loop old_key 0 [new_key, old_key] None
      = Some ([new_key] @ [], ([new_key] @ []) @ [last [new_key, old_key]])"
    by (rule remove_loop_found) (simp_all add: demo_rings(4))
  then have "RemoveKey old_key [new_key, old_key] = Some (Inr ([new_key], [new_key, old_key]))"
    by (simp add: RemoveKey_def demo_rings(4) [symmetric])
  moreover have "UseKey new_key [old_key, new_key] = Inr [new_key, old_key]"
    by (simp add: UseKey_def installKeys_def demo_rings(4) demo_rings(4) [symmetric])
  ultimately have ops: "change_ring demo_keys Use (7 # new_key) (Some [old_key, new_key]) = Some (key_success [], Some [new_key, old_key])"
    "change_ring demo_keys Remove (7 # old_key) (Some [new_key, old_key]) = Some (key_success [], Some [new_key])"
    by (simp_all add: change_ring_def demo_keys_def writeKeyringFile_def)
  define r where "r = (\<lambda>n. if n = ''n1'' then Some [new_key] else if n = ''n2'' then Some [old_key, new_key] else Some [old_key])"
  have "query_nodes demo_keys
      [(''n1'', Add, 7 # new_key), (''n2'', Add, 7 # new_key), (''n1'', Use, 7 # new_key), (''n1'', Remove, 7 # old_key)]
      (\<lambda>_. Some [old_key]) = Some r"
    using demo_install unfolding messageKeyRequestType_def
    by (simp add: query_node_def ops) (auto simp: r_def)
  moreover have "r ''n2'' = Some [old_key, new_key]" "r ''n1'' = Some [new_key]" by (simp_all add: r_def)
  then have "\<not> all_readable {''n1'', ''n2''} r"
    using demo_rings(4) unfolding all_readable_def by (force simp: GetPrimaryKey_def)
  ultimately show ?thesis by blast
qed

end
