(* ===== verification/Resolve.thy ===== *)
theory Resolve
  imports NetAddr Prelude
begin

section \<open>Addresses read back (Go's package net, resolveAddr of memberlist/memberlist.go)\<close>

text \<open>
  \<open>ParseIP\<close> and \<open>SplitHostPort\<close> as Go reads addresses, and \<open>resolveAddr\<close> on top of them. Names are
  looked up by a service, an argument. What \<open>TCPAddr.String\<close> prints for an IPv4 address comes
  back: with it the addresses of a snapshot and of failed members are dialled again.
\<close>

subsection \<open>IP addresses\<close>

text \<open>An IPv4 address is held in 16 bytes, after \<open>v4InV6Prefix\<close>.\<close>

definition v4InV6Prefix :: bytes where "v4InV6Prefix = replicate 10 0 @ [255, 255]"

definition parse_octet :: "string \<Rightarrow> byte option" where
  "parse_octet s = (case parse_unsigned s of Some n \<Rightarrow> if n \<le> 255 then Some (of_nat n) else None | None \<Rightarrow> None)"

definition parseIPv4 :: "string \<Rightarrow> bytes option" where
  "parseIPv4 s =
     (case map parse_octet (split_on (CHR ''.'') s) of
        [Some a, Some b, Some c, Some d] \<Rightarrow> Some (v4InV6Prefix @ [a, b, c, d])
      | _ \<Rightarrow> None)"

definition hex_val :: "char \<Rightarrow> nat option" where
  "hex_val c =
     (let n = of_char c :: nat in
      if 48 \<le> n \<and> n \<le> 57 then Some (n - 48)
      else if 97 \<le> n \<and> n \<le> 102 then Some (n - 87)
      else if 65 \<le> n \<and> n \<le> 70 then Some (n - 55) else None)"

text \<open>\<open>xtoi\<close>: the number at the start of the string and the rest; no digit or a huge number fails.\<close>

fun xtoi_from :: "nat \<Rightarrow> nat \<Rightarrow> string \<Rightarrow> (nat \<times> nat \<times> string) option" where
  "xtoi_from digits n [] = Some (digits, n, [])"
| "xtoi_from digits n (c # cs) =
     (case hex_val c of
        None \<Rightarrow> Some (digits, n, c # cs)
      | Some v \<Rightarrow> if 16 ^ 6 - 1 \<le> n * 16 + v then None else xtoi_from (digits + 1) (n * 16 + v) cs)"

definition xtoi :: "string \<Rightarrow> (nat \<times> string) option" where
  "xtoi s = (case xtoi_from 0 0 s of Some (digits, n, rest) \<Rightarrow> if digits = 0 then None else Some (n, rest) | None \<Rightarrow> None)"

lemma xtoi_from_shorter: "xtoi_from d n s = Some (d', n', r) \<Longrightarrow> length r + d' = length s + d"
  by (induction d n s arbitrary: d' n' r rule: xtoi_from.induct) (fastforce split: option.splits if_splits)+

lemma xtoi_shorter: "xtoi s = Some (n, r) \<Longrightarrow> length r < length s"
  by (auto simp: xtoi_def dest!: xtoi_from_shorter split: option.splits if_splits)

text \<open>
  The loop over the groups: the bytes read so far, and how many of them come before the \<open>::\<close>. The
  result is the same with all bytes, and what is left of the string.
\<close>

function ipv6_groups :: "string \<Rightarrow> bytes \<Rightarrow> nat option \<Rightarrow> (bytes \<times> nat option \<times> string) option" where
  "ipv6_groups s ip ellipsis =
     (if 16 \<le> length ip then Some (ip, ellipsis, s)
      else
        (case xtoi s of
           None \<Rightarrow> None
         | Some (n, rest) \<Rightarrow>
             if n > 65535 then None
             else if rest \<noteq> [] \<and> hd rest = CHR ''.'' then
               (if ellipsis = None \<and> length ip \<noteq> 12 then None
                else if length ip + 4 > 16 then None
                else
                  (case parseIPv4 s of
                     None \<Rightarrow> None
                   | Some ip4 \<Rightarrow> Some (ip @ drop 12 ip4, ellipsis, [])))
             else
               (let ip' = ip @ [of_nat (n div 256), of_nat n] in
                if rest = [] then Some (ip', ellipsis, [])
                else if hd rest \<noteq> CHR '':'' \<or> tl rest = [] then None
                else if hd (tl rest) = CHR '':'' then
                  (if ellipsis \<noteq> None then None
                   else if tl (tl rest) = [] then Some (ip', Some (length ip'), [])
                   else ipv6_groups (tl (tl rest)) ip' (Some (length ip')))
                else ipv6_groups (tl rest) ip' ellipsis)))"
  by pat_completeness auto
termination
  by (relation "measure (\<lambda>(s, _, _). length s)") (auto dest!: xtoi_shorter)

declare ipv6_groups.simps [simp del]

definition expand_ellipsis :: "bytes \<Rightarrow> nat option \<Rightarrow> bytes option" where
  "expand_ellipsis ip ellipsis =
     (if length ip < 16 then
        map_option (\<lambda>e. take e ip @ replicate (16 - length ip) 0 @ drop e ip) ellipsis
      else if ellipsis = None then Some ip else None)"

definition parseIPv6 :: "string \<Rightarrow> bytes option" where
  "parseIPv6 s =
     (let leading = take 2 s = ''::'' in
      if leading \<and> length s = 2 then Some (replicate 16 0)
      else
        (case ipv6_groups (if leading then drop 2 s else s) [] (if leading then Some 0 else None) of
           None \<Rightarrow> None
         | Some (ip, ellipsis, rest) \<Rightarrow> if rest \<noteq> [] then None else expand_ellipsis ip ellipsis))"

fun ParseIP_from :: "string \<Rightarrow> string \<Rightarrow> bytes option" where
  "ParseIP_from s [] = None"
| "ParseIP_from s (c # cs) =
     (if c = CHR ''.'' then parseIPv4 s else if c = CHR '':'' then parseIPv6 s else ParseIP_from s cs)"

definition ParseIP :: "string \<Rightarrow> bytes option" where
  "ParseIP s = ParseIP_from s s"

subsection \<open>Host and port\<close>

datatype addr_error = MissingPort | MissingBracket | TooManyColons | UnexpectedOpen | UnexpectedClose

definition last_colon :: "string \<Rightarrow> nat option" where
  "last_colon s = (if CHR '':'' \<in> set s then Some (length s - 1 - length (takeWhile (\<lambda>c. c \<noteq> CHR '':'') (rev s))) else None)"

definition SplitHostPort :: "string \<Rightarrow> (addr_error, string \<times> string) result" where
  "SplitHostPort hostport =
     (case last_colon hostport of
        None \<Rightarrow> Inl MissingPort
      | Some i \<Rightarrow>
          (let finish = (\<lambda>host j k.
                if CHR ''['' \<in> set (drop j hostport) then Inl UnexpectedOpen
                else if CHR '']'' \<in> set (drop k hostport) then Inl UnexpectedClose
                else Inr (host, drop (i + 1) hostport))
           in if hd hostport = CHR ''['' then
                (if CHR '']'' \<notin> set hostport then Inl MissingBracket
                 else
                   (let end = length (takeWhile (\<lambda>c. c \<noteq> CHR '']'') hostport) in
                    if end + 1 = length hostport then Inl MissingPort
                    else if end + 1 = i then finish (drop 1 (take end hostport)) 1 (end + 1)
                    else if hostport ! (end + 1) = CHR '':'' then Inl TooManyColons
                    else Inl MissingPort))
              else if CHR '':'' \<in> set (take i hostport) then Inl TooManyColons
              else if CHR ''%'' \<in> set (take i hostport) then Inl MissingBracket
              else finish (take i hostport) 0 0))"

subsection \<open>resolveAddr\<close>

datatype resolve_error = BadAddress addr_error | BadPort string | LookupFailed string

text \<open>\<open>strconv.ParseUint(sport, 10, 16)\<close>\<close>

definition parse_port :: "string \<Rightarrow> (16 word) option" where
  "parse_port s = (case parse_unsigned s of Some n \<Rightarrow> if n < 2 ^ 16 then Some (of_nat n) else None | None \<Rightarrow> None)"

definition resolve_host ::
  "(string \<Rightarrow> (string, bytes list) result) \<Rightarrow> string \<Rightarrow> 16 word \<Rightarrow> (resolve_error, bytes list \<times> 16 word) result" where
  "resolve_host LookupIP host port =
     (case ParseIP host of
        Some ip \<Rightarrow> Inr ([ip], port)
      | None \<Rightarrow> (case LookupIP host of Inl e \<Rightarrow> Inl (LookupFailed e) | Inr ips \<Rightarrow> Inr (ips, port)))"

definition resolveAddr ::
  "(string \<Rightarrow> (string, bytes list) result) \<Rightarrow> 16 word \<Rightarrow> string \<Rightarrow> (resolve_error, bytes list \<times> 16 word) result" where
  "resolveAddr LookupIP bindPort hostStr =
     (case SplitHostPort hostStr of
        Inl MissingPort \<Rightarrow> resolve_host LookupIP hostStr bindPort
      | Inl e \<Rightarrow> Inl (BadAddress e)
      | Inr (host, sport) \<Rightarrow>
          (case parse_port sport of None \<Rightarrow> Inl (BadPort sport) | Some port \<Rightarrow> resolve_host LookupIP host port))"

subsection \<open>What is printed is read back: IPv4\<close>

text \<open>\<open>To16\<close>: the 16 bytes of an address.\<close>

definition to16 :: "bytes \<Rightarrow> bytes" where
  "to16 ip = (if length ip = 4 then v4InV6Prefix @ ip else ip)"

text \<open>The characters that separate the parts of an address.\<close>

definition addr_marks :: "char set" where
  "addr_marks = {CHR ''.'', CHR '':'', CHR ''%'', CHR ''['', CHR '']''}"

lemma hex_digit_plain: "d < 16 \<Longrightarrow> digit_char d \<notin> addr_marks"
proof -
  assume d: "d < 16"
  then have "(of_char (digit_char d) :: nat) = (if d < 10 then 48 + d else 87 + d)" by (simp add: digit_char_def)
  then show ?thesis using d by (auto simp: addr_marks_def split: if_splits)
qed

lemma show_base_digits: "2 \<le> b \<Longrightarrow> set (show_base b n) \<subseteq> digit_char ` {0..<b}"
proof (induction n rule: less_induct)
  case (less n)
  then show ?case using less.IH [of "n div b"] by (subst show_base.simps) auto
qed

lemma show_base_plain: "2 \<le> b \<Longrightarrow> b \<le> 16 \<Longrightarrow> set (show_base b n) \<inter> addr_marks = {}"
  using show_base_digits [of b n] hex_digit_plain by fastforce

lemma show_nat_plain: "set (show_nat n) \<inter> addr_marks = {}"
  unfolding show_nat_def by (rule show_base_plain) simp_all

lemma parse_octet_show [simp]: "parse_octet (show_nat (unat b)) = Some b"
  using unsigned_less [of b, where ?'a = nat] by (simp add: parse_octet_def)

lemma split_host_port:
  assumes "set host \<inter> {CHR '':'', CHR ''%'', CHR ''['', CHR '']''} = {}" "set port \<inter> addr_marks = {}"
  shows "SplitHostPort (host @ '':'' @ port) = Inr (host, port)"
proof -
  have "takeWhile (\<lambda>c. c \<noteq> CHR '':'') (rev port @ CHR '':'' # rev host) = rev port"
    using assms(2) by (subst takeWhile_append2) (auto simp: addr_marks_def)
  then have l: "last_colon (host @ '':'' @ port) = Some (length host)"
    by (simp add: last_colon_def)
  have "hd (host @ '':'' @ port) \<noteq> CHR ''[''" using assms(1) by (cases host) auto
  with l assms show ?thesis by (auto simp: SplitHostPort_def Let_def addr_marks_def)
qed

lemma split_bracketed:
  assumes "set host \<inter> {CHR ''['', CHR '']''} = {}" "set port \<inter> addr_marks = {}"
  shows "SplitHostPort (''['' @ host @ '']:'' @ port) = Inr (host, port)"
proof -
  let ?s = "''['' @ host @ '']:'' @ port"
  have "takeWhile (\<lambda>c. c \<noteq> CHR '':'') (rev port @ CHR '':'' # CHR '']'' # rev host @ ''['') = rev port"
    using assms(2) by (subst takeWhile_append2) (auto simp: addr_marks_def)
  then have l: "last_colon ?s = Some (length host + 2)" by (simp add: last_colon_def)
  have "takeWhile (\<lambda>c. c \<noteq> CHR '']'') ?s = ''['' @ host"
    using assms(1) by (auto simp: takeWhile_append)
  with l assms show ?thesis by (auto simp: SplitHostPort_def Let_def addr_marks_def)
qed

lemma ParseIP_from_skip:
  "set xs \<inter> addr_marks = {} \<Longrightarrow> ParseIP_from s (xs @ ys) = ParseIP_from s ys"
  by (induction xs) (auto simp: addr_marks_def)

lemma ParseIP_dotted:
  "ParseIP (show_nat (unat a) @ ''.'' @ show_nat (unat b) @ ''.'' @ show_nat (unat c) @ ''.'' @ show_nat (unat d)) =
     Some (v4InV6Prefix @ [a, b, c, d])"
proof -
  have plain: "CHR ''.'' \<notin> set (show_nat n)" for n using show_nat_plain [of n] by (auto simp: addr_marks_def)
  show ?thesis
    unfolding ParseIP_def
    by (subst ParseIP_from_skip [OF show_nat_plain])
       (simp add: parseIPv4_def split_on_append_sep [OF plain] split_on_no_sep [OF plain])
qed

lemma ip_String_dotted:
  assumes "to4 ip = Some p"
  shows "ParseIP (ip_String ip) = Some (to16 ip)"
    and "set (ip_String ip) \<inter> {CHR '':'', CHR ''%'', CHR ''['', CHR '']''} = {}"
proof -
  have len: "length p = 4" "ip \<noteq> []" using assms by (auto simp: to4_def split: if_splits)
  then obtain a b c d where p: "p = [a, b, c, d]"
    by (auto simp: length_Suc_conv eval_nat_numeral)
  have "to16 ip = v4InV6Prefix @ p"
    using assms by (auto simp: to4_def to16_def v4InV6Prefix_def split: if_splits) (metis append_Cons append_Nil append_assoc append_take_drop_id)
  with assms len(2) show "ParseIP (ip_String ip) = Some (to16 ip)"
    using ParseIP_dotted [of a b c d] by (simp add: ip_String_def p)
  show "set (ip_String ip) \<inter> {CHR '':'', CHR ''%'', CHR ''['', CHR '']''} = {}"
    using assms len(2) show_nat_plain by (fastforce simp: ip_String_def p addr_marks_def)
qed

subsection \<open>What is printed is read back: IPv6\<close>

lemma hex_val_digit [simp]: "d < 16 \<Longrightarrow> hex_val (digit_char d) = Some d"
  by (simp add: hex_val_def digit_char_def)

lemma xtoi_from_show:
  "n < 65536 \<Longrightarrow> \<exists>k. xtoi_from 0 0 (show_base 16 n @ ys) = xtoi_from (Suc k) n ys"
proof (induction n arbitrary: ys rule: less_induct)
  case (less n)
  show ?case
  proof (cases "n < 16")
    case True
    then show ?thesis by (intro exI [of _ 0]) (simp add: show_base.simps [of 16 n])
  next
    case False
    from False less.prems have small: "n div 16 < n" "n div 16 < 65536" by simp_all
    from less.IH [OF small] obtain k where "xtoi_from 0 0 (show_base 16 (n div 16) @ digit_char (n mod 16) # ys)
        = xtoi_from (Suc k) (n div 16) (digit_char (n mod 16) # ys)"
      by blast
    with False less.prems show ?thesis
      by (intro exI [of _ "Suc k"]) (simp add: show_base.simps [of 16 n])
  qed
qed

lemma xtoi_show:
  assumes "n < 65536" "rest = [] \<or> hex_val (hd rest) = None"
  shows "xtoi (show_base 16 n @ rest) = Some (n, rest)"
proof -
  obtain k where "xtoi_from 0 0 (show_base 16 n @ rest) = xtoi_from (Suc k) n rest"
    using xtoi_from_show [OF assms(1)] by blast
  then show ?thesis using assms(2) by (cases rest) (auto simp: xtoi_def)
qed

definition group_bytes :: "nat \<Rightarrow> bytes" where
  "group_bytes g = [of_nat (g div 256), of_nat g]"

lemma length_group_bytes [simp]: "length (group_bytes g) = 2" by (simp add: group_bytes_def)

lemma length_groups [simp]: "length (concat (map group_bytes gs)) = 2 * length gs"
  by (induction gs) simp_all

lemma hex_val_colon [simp]: "hex_val (CHR '':'') = None" by (simp add: hex_val_def)

lemma ipv6_last:
  "length ip < 16 \<Longrightarrow> g < 65536 \<Longrightarrow> ipv6_groups (show_base 16 g) ip e = Some (ip @ group_bytes g, e, [])"
  using xtoi_show [of g "[]"] by (subst ipv6_groups.simps) (simp add: Let_def group_bytes_def)

lemma ipv6_next:
  "length ip < 16 \<Longrightarrow> g < 65536 \<Longrightarrow> r \<noteq> [] \<Longrightarrow> hd r \<noteq> CHR '':'' \<Longrightarrow>
     ipv6_groups (show_base 16 g @ CHR '':'' # r) ip e = ipv6_groups r (ip @ group_bytes g) e"
  using xtoi_show [of g "CHR '':'' # r"] by (subst ipv6_groups.simps) (simp add: Let_def group_bytes_def)

lemma ipv6_ellipsis:
  "length ip < 16 \<Longrightarrow> g < 65536 \<Longrightarrow>
     ipv6_groups (show_base 16 g @ CHR '':'' # CHR '':'' # r) ip None =
       (if r = [] then Some (ip @ group_bytes g, Some (length ip + 2), [])
        else ipv6_groups r (ip @ group_bytes g) (Some (length ip + 2)))"
  using xtoi_show [of g "CHR '':'' # CHR '':'' # r"]
  by (subst ipv6_groups.simps) (simp add: Let_def group_bytes_def)

lemma hex_groups_Nil [simp]: "hex_groups [] = []" by (simp add: hex_groups_def)

lemma hex_groups_Cons:
  "hex_groups (g # gs) = show_base 16 g @ concat (map (\<lambda>h. CHR '':'' # show_base 16 h) gs)"
proof -
  have "map (\<lambda>i. CHR '':'' # show_base 16 (gs ! i)) [0..<length gs] = map (\<lambda>h. CHR '':'' # show_base 16 h) gs"
    by (rule nth_equalityI) simp_all
  moreover have "[0..<Suc (length gs)] = 0 # map Suc [0..<length gs]"
    by (simp add: map_Suc_upt upt_conv_Cons del: upt_Suc)
  ultimately show ?thesis by (simp add: hex_groups_def comp_def del: upt_Suc)
qed

lemma hex_groups_step: "hex_groups (g # h # gs) = show_base 16 g @ CHR '':'' # hex_groups (h # gs)"
  by (simp add: hex_groups_Cons)

lemma hex_groups_hd: "hd (hex_groups (g # gs) @ t) \<noteq> CHR '':''" "hex_groups (g # gs) \<noteq> []"
proof -
  obtain c cs where c: "show_base 16 g = c # cs" by (meson list.exhaust show_base_nonempty)
  then have "c \<noteq> CHR '':''" using show_base_plain [of 16 g] by (auto simp: addr_marks_def)
  with c show "hd (hex_groups (g # gs) @ t) \<noteq> CHR '':''" "hex_groups (g # gs) \<noteq> []"
    by (simp_all add: hex_groups_Cons)
qed

lemma groups_read:
  "length ip + 2 * length gs \<le> 16 \<Longrightarrow> gs \<noteq> [] \<Longrightarrow> \<forall>g\<in>set gs. g < 65536 \<Longrightarrow>
     ipv6_groups (hex_groups gs) ip e = Some (ip @ concat (map group_bytes gs), e, [])"
proof (induction gs arbitrary: ip)
  case (Cons g gs)
  show ?case
  proof (cases gs)
    case Nil
    then show ?thesis using Cons.prems ipv6_last [of ip g e] by (simp add: hex_groups_Cons)
  next
    case (Cons h hs)
    then show ?thesis
      using Cons.IH [of "ip @ group_bytes g"] Cons.prems hex_groups_hd(1) [of h hs "[]"] hex_groups_hd(2) [of h hs]
        ipv6_next [of ip g "hex_groups gs" e]
      by (simp add: hex_groups_step)
  qed
qed simp

lemma groups_then_ellipsis:
  "length ip + 2 * length gs \<le> 16 \<Longrightarrow> gs \<noteq> [] \<Longrightarrow> \<forall>g\<in>set gs. g < 65536 \<Longrightarrow>
     ipv6_groups (hex_groups gs @ ''::'' @ r) ip None =
       (let ip' = ip @ concat (map group_bytes gs); e = Some (length ip + 2 * length gs)
        in if r = [] then Some (ip', e, []) else ipv6_groups r ip' e)"
proof (induction gs arbitrary: ip)
  case (Cons g gs)
  show ?case
  proof (cases gs)
    case Nil
    then show ?thesis using Cons.prems ipv6_ellipsis [of ip g r] by (simp add: hex_groups_Cons Let_def)
  next
    case (Cons h hs)
    have "hex_groups gs @ ''::'' @ r \<noteq> []" "hd (hex_groups gs @ ''::'' @ r) \<noteq> CHR '':''"
      using hex_groups_hd(1) [of h hs "''::'' @ r"] Cons by simp_all
    then show ?thesis
      using Cons.IH [of "ip @ group_bytes g"] Cons.prems ipv6_next [of ip g "hex_groups gs @ ''::'' @ r" None] Cons
      by (simp add: hex_groups_step Let_def)
  qed
qed simp

lemma longest_run_zeros:
  assumes "longest_run gs = (s, l)"
  shows "gs = take s gs @ replicate l 0 @ drop (s + l) gs"
proof -
  have run: "l \<le> zero_run gs s"
    if "fold (\<lambda>i (s, l). if l < zero_run gs i then (i, zero_run gs i) else (s, l)) is (s0, l0) = (s, l)"
      "l0 \<le> zero_run gs s0" for "is" s0 l0
    using that by (induction "is" arbitrary: s0 l0) (auto split: if_splits)
  have l: "l \<le> zero_run gs s" using run assms unfolding longest_run_def by fastforce
  let ?w = "takeWhile (\<lambda>g. g = 0) (drop s gs)"
  have "take l ?w = replicate l 0"
    using l by (intro replicate_eqI) (auto simp: zero_run_def dest!: in_set_takeD set_takeWhileD)
  moreover have "take l (drop s gs) = take l ?w"
    using l by (metis takeWhile_eq_take take_take min.absorb1 zero_run_def)
  ultimately have "drop s gs = replicate l 0 @ drop l (drop s gs)" by (metis append_take_drop_id)
  then show ?thesis by (metis append_take_drop_id drop_drop add.commute)
qed

lemma ip_groups_bytes:
  assumes "length ip = 16"
  shows "concat (map group_bytes (ip_groups ip)) = ip" "length (ip_groups ip) = 8" "\<forall>g\<in>set (ip_groups ip). g < 65536"
proof -
  have b: "unat (b :: byte) < 256" for b using unsigned_less [of b, where ?'a = nat] by simp
  have g: "group_bytes (unat a * 256 + unat c) = [a, c]" for a c :: byte
  proof -
    have z: "(256 :: byte) = 0" by simp
    have "of_nat (unat a * 256 + unat c) = a * 256 + c" by simp
    then have "of_nat (unat a * 256 + unat c) = c" unfolding z by simp
    moreover have "(unat a * 256 + unat c) div 256 = unat a" using b [of c] by simp
    ultimately show ?thesis by (simp only: group_bytes_def) simp
  qed
  obtain a0 a1 a2 a3 a4 a5 a6 a7 a8 a9 a10 a11 a12 a13 a14 a15 where
    ip: "ip = [a0, a1, a2, a3, a4, a5, a6, a7, a8, a9, a10, a11, a12, a13, a14, a15]"
    using assms by (auto simp: length_Suc_conv eval_nat_numeral)
  have "[0..<8] = [0, 1, 2, 3, 4, 5, 6, 7 :: nat]" by (simp add: upt_rec)
  then show "concat (map group_bytes (ip_groups ip)) = ip" by (simp add: ip_groups_def ip g)
  show "length (ip_groups ip) = 8" by (simp add: ip_groups_def)
  have "unat a * 256 + unat c < 65536" for a c :: byte using b [of a] b [of c] by linarith
  then show "\<forall>g\<in>set (ip_groups ip). g < 65536" by (auto simp: ip_groups_def)
qed

lemma expand_zeros:
  assumes "length (a @ b) = 16 - n" "n \<le> 16" "0 < n"
  shows "expand_ellipsis (a @ b) (Some (length a)) = Some (a @ replicate n 0 @ b)"
  using assms by (simp add: expand_ellipsis_def)

lemma group_zeros: "concat (replicate n (group_bytes 0)) = replicate (2 * n) 0"
  by (induction n) (simp_all add: group_bytes_def)

text \<open>The text of eight groups, with a run of at least two zeros left out or not.\<close>

lemma parse_full:
  assumes "length gs = 8" "\<forall>g\<in>set gs. g < 65536"
  shows "parseIPv6 (hex_groups gs) = Some (concat (map group_bytes gs))"
proof -
  obtain g hs where gs: "gs = g # hs" using assms(1) by (cases gs) auto
  have "take 2 (hex_groups gs) \<noteq> ''::''"
    using hex_groups_hd(1) [of g hs "[]"] hex_groups_hd(2) [of g hs]
    by (cases "hex_groups gs") (auto simp: gs)
  with groups_read [of "[]" gs None] assms gs show ?thesis
    by (simp add: parseIPv6_def expand_ellipsis_def)
qed

lemma parse_compressed:
  assumes "length a + n + length b = 8" "2 \<le> n" "\<forall>g\<in>set (a @ b). g < 65536"
  shows "parseIPv6 (hex_groups a @ ''::'' @ hex_groups b) =
    Some (concat (map group_bytes a) @ replicate (2 * n) 0 @ concat (map group_bytes b))"
proof -
  let ?A = "concat (map group_bytes a)" and ?B = "concat (map group_bytes b)"
  have len: "length (?A @ ?B) = 16 - 2 * n" using assms(1) by simp
  have ex: "expand_ellipsis (?A @ ?B) (Some (length ?A)) = Some (?A @ replicate (2 * n) 0 @ ?B)"
    using expand_zeros [OF len] assms(1,2) by simp
  have b: "ipv6_groups (hex_groups b) ?A e = Some (?A @ ?B, e, [])" if "b \<noteq> []" for e
    using groups_read [of ?A b e] that assms by auto
  show ?thesis
  proof (cases a)
    case Nil
    then show ?thesis using ex b assms(1) hex_groups_hd(2)
      by (cases b) (auto simp: parseIPv6_def Let_def)
  next
    case (Cons g hs)
    have "take 2 (hex_groups a @ ''::'' @ hex_groups b) \<noteq> ''::''"
      using hex_groups_hd(1) [of g hs "[]"] hex_groups_hd(2) [of g hs] Cons
      by (cases "hex_groups a") auto
    moreover have "ipv6_groups (hex_groups a @ ''::'' @ hex_groups b) [] None = Some (?A @ ?B, Some (length ?A), [])"
      using groups_then_ellipsis [of "[]" a "hex_groups b"] assms Cons b hex_groups_hd(2)
      by (cases b) (auto simp: Let_def)
    ultimately show ?thesis using ex by (simp add: parseIPv6_def)
  qed
qed

lemma hex_groups_chars: "set (hex_groups gs) \<subseteq> insert (CHR '':'') (- addr_marks)"
proof -
  have digits: "set (show_base 16 g) \<subseteq> - addr_marks" for g using show_base_plain [of 16 g] by auto
  show ?thesis
  proof (cases gs)
    case (Cons g hs)
    then show ?thesis using digits by (simp add: hex_groups_Cons) blast
  qed simp
qed

lemma hex_groups_colon: "2 \<le> length gs \<Longrightarrow> CHR '':'' \<in> set (hex_groups gs)"
  by (cases gs; cases "tl gs") (auto simp: hex_groups_Cons)

lemma ParseIP_colon:
  "set xs \<subseteq> insert (CHR '':'') (- addr_marks) \<Longrightarrow> CHR '':'' \<in> set xs \<Longrightarrow> ParseIP_from s xs = parseIPv6 s"
  by (induction xs) (auto simp: addr_marks_def)

lemma ip_String_groups:
  assumes "length ip = 16" "to4 ip = None"
  shows "ParseIP (ip_String ip) = Some ip" "CHR '':'' \<in> set (ip_String ip)"
    and "set (ip_String ip) \<subseteq> insert (CHR '':'') (- addr_marks)"
proof -
  let ?gs = "ip_groups ip"
  obtain s l where r: "longest_run ?gs = (s, l)" by fastforce
  have str: "ip_String ip = (if l \<le> 1 then hex_groups ?gs
      else hex_groups (take s ?gs) @ ''::'' @ hex_groups (drop (s + l) ?gs))"
    using assms r by (auto simp: ip_String_def Let_def)
  note gs = ip_groups_bytes [OF assms(1)]
  have parse: "parseIPv6 (ip_String ip) = Some ip"
  proof (cases "l \<le> 1")
    case True
    then show ?thesis using parse_full [OF gs(2,3)] gs(1) by (simp add: str)
  next
    case False
    note z = longest_run_zeros [OF r]
    have len: "length (take s ?gs) + l + length (drop (s + l) ?gs) = 8"
      using arg_cong [OF z, of length] gs(2) by simp
    have small: "\<forall>g\<in>set (take s ?gs @ drop (s + l) ?gs). g < 65536"
      using gs(3) by (auto dest: in_set_takeD in_set_dropD)
    have "concat (map group_bytes (take s ?gs)) @ replicate (2 * l) 0 @ concat (map group_bytes (drop (s + l) ?gs)) = ip"
      using arg_cong [OF z, of "\<lambda>gs. concat (map group_bytes gs)"] gs(1) by (simp add: group_zeros)
    with parse_compressed [OF len _ small] False show ?thesis by (simp add: str)
  qed
  show chars: "set (ip_String ip) \<subseteq> insert (CHR '':'') (- addr_marks)"
    unfolding str using hex_groups_chars by auto
  show colon: "CHR '':'' \<in> set (ip_String ip)"
    unfolding str using hex_groups_colon [of ?gs] gs(2) by auto
  show "ParseIP (ip_String ip) = Some ip"
    unfolding ParseIP_def using ParseIP_colon [OF chars colon] parse by simp
qed

lemma parse_port_show: "parse_port (show_nat (unat (port :: 16 word))) = Some port"
  using unsigned_less [of port, where ?'a = nat] by (simp add: parse_port_def)

lemma address_resolves:
  assumes "length ip = 4 \<or> length ip = 16"
  shows "resolveAddr LookupIP bindPort (TCPAddr_String ip port) = Inr ([to16 ip], port)"
proof -
  have ip: "ip \<noteq> []" using assms by auto
  have port: "set (show_nat (unat port)) \<inter> addr_marks = {}" by (rule show_nat_plain)
  have "SplitHostPort (TCPAddr_String ip port) = Inr (ip_String ip, show_nat (unat port))
      \<and> ParseIP (ip_String ip) = Some (to16 ip)"
  proof (cases "to4 ip")
    case (Some p)
    note d = ip_String_dotted [OF Some]
    have "TCPAddr_String ip port = ip_String ip @ '':'' @ show_nat (unat port)"
      using ip d(2) by (auto simp: TCPAddr_String_def JoinHostPort_def)
    with split_host_port [OF d(2) port] d(1) show ?thesis by simp
  next
    case None
    with assms have "length ip = 16" by (auto simp: to4_def)
    note g = ip_String_groups [OF this None]
    have "TCPAddr_String ip port = ''['' @ ip_String ip @ '']:'' @ show_nat (unat port)"
      using ip g(2) by (simp add: TCPAddr_String_def JoinHostPort_def)
    moreover have "set (ip_String ip) \<inter> {CHR ''['', CHR '']''} = {}" using g(3) by (auto simp: addr_marks_def)
    ultimately show ?thesis using split_bracketed [OF _ port] g(1) \<open>length ip = 16\<close> by (simp add: to16_def)
  qed
  then show ?thesis by (simp add: resolveAddr_def resolve_host_def parse_port_show)
qed

text \<open>C19: An address of 4 or 16 bytes and a port, as they are written to the snapshot and given to \<open>Join\<close> again,
  resolve to the same address, in its form of 16 bytes, and the same port.\<close>

theorem printed_address_resolves:
  assumes "length ip = 4 \<or> length ip = 16"
  shows "resolveAddr LookupIP bindPort (TCPAddr_String ip port) = Inr ([to16 ip], port)"
  by (rule address_resolves [OF assms])

lemma printed_address_resolves_witness:
  "resolveAddr (\<lambda>_. Inl ''no such host'') 7946 (TCPAddr_String (replicate 15 0 @ [1]) 7946) = Inr ([to16 (replicate 15 0 @ [1])], 7946)"
  by (rule printed_address_resolves) simp

end
