(* ===== verification/Startup.thy ===== *)
theory Startup
  imports Resolve Probe PushPull Keyring SwimProps
begin

section \<open>Starting, joining and stopping (memberlist/memberlist.go)\<close>

text \<open>
  \<open>Create\<close> checks the configuration, sets the keyring up, opens the sockets, announces the local node
  and starts the background work; \<open>Join\<close> exchanges states with every address the given names
  resolve to; \<open>Shutdown\<close> ends it. The sockets and the interfaces of the machine are arguments.
\<close>

subsection \<open>Configuration\<close>

definition ProtocolVersionMin :: byte where "ProtocolVersionMin = 1"
definition ProtocolVersionMax :: byte where "ProtocolVersionMax = 3"
definition MetaMaxSize :: nat where "MetaMaxSize = 512"

record ml_config =
  mc_Name :: string
  mc_ProtocolVersion :: byte
  mc_SecretKey :: key
  mc_Keyring :: "ring option"
  mc_BindAddr :: string
  mc_BindPort :: int
  mc_AdvertiseAddr :: string
  mc_AdvertisePort :: int
  mc_DelegateMin :: byte
  mc_DelegateMax :: byte
  mc_DelegateVersion :: byte
  mc_NodeMeta :: "(nat \<Rightarrow> bytes option) option"

text \<open>
  The error or the address of the TCP listener for an address to bind to (nil for none) and a port,
  the error of the UDP listener, and the addresses of the interfaces; those that are not of IP
  are \<open>None\<close>.
\<close>

record machine =
  mh_ListenTCP :: "bytes option \<Rightarrow> int \<Rightarrow> (string, bytes \<times> int) result"
  mh_ListenUDP :: "bytes option \<Rightarrow> int \<Rightarrow> string option"
  mh_InterfaceAddrs :: "(string, bytes option list) result"

datatype create_error =
  ProtocolTooLow | ProtocolTooHigh | BadKey keyring_error | TCPFailed string | UDPFailed string
| BadAdvertiseAddr | NoInterfaces string | NoPrivateIP

subsection \<open>newMemberlist\<close>

definition check_protocol :: "byte \<Rightarrow> create_error option" where
  "check_protocol v =
     (if v < ProtocolVersionMin then Some ProtocolTooLow
      else if ProtocolVersionMax < v then Some ProtocolTooHigh else None)"

definition setup_keyring :: "key \<Rightarrow> ring option \<Rightarrow> (keyring_error, ring option) result" where
  "setup_keyring secretKey keyring =
     (if secretKey = [] then Inr keyring
      else case keyring of
        None \<Rightarrow> rbind (NewKeyring [] secretKey) (\<lambda>k. Inr (Some k))
      | Some k \<Rightarrow> rbind (AddKey secretKey k) (\<lambda>k1. rbind (UseKey secretKey k1) (\<lambda>k2. Inr (Some k2))))"

text \<open>The configuration as it is used, and the address of the TCP listener.\<close>

definition newMemberlist :: "machine \<Rightarrow> ml_config \<Rightarrow> (create_error, ml_config \<times> bytes \<times> int) result" where
  "newMemberlist h conf =
     (case check_protocol (mc_ProtocolVersion conf) of
        Some e \<Rightarrow> Inl e
      | None \<Rightarrow>
          (case setup_keyring (mc_SecretKey conf) (mc_Keyring conf) of
             Inl e \<Rightarrow> Inl (BadKey e)
           | Inr keyring \<Rightarrow>
               (case mh_ListenTCP h (ParseIP (mc_BindAddr conf)) (mc_BindPort conf) of
                  Inl e \<Rightarrow> Inl (TCPFailed e)
                | Inr (addr, port) \<Rightarrow>
                    (let bindPort = (if mc_BindPort conf = 0 then port else mc_BindPort conf) in
                     case mh_ListenUDP h (ParseIP (mc_BindAddr conf)) bindPort of
                       Some e \<Rightarrow> Inl (UDPFailed e)
                     | None \<Rightarrow> Inr (conf\<lparr>mc_Keyring := keyring, mc_BindPort := bindPort\<rparr>, addr, port)))))"

subsection \<open>The address a node announces\<close>

definition block_contains :: "bytes \<Rightarrow> bytes \<Rightarrow> bytes option \<Rightarrow> bool" where
  "block_contains net msk ip =
     (case ip of
        None \<Rightarrow> False
      | Some a \<Rightarrow>
          (let x = (case to4 a of Some p \<Rightarrow> p | None \<Rightarrow> a) in
           length x = length net \<and> list_all (\<lambda>i. net ! i AND msk ! i = x ! i AND msk ! i) [0..<length net]))"

definition privateBlocks :: "(bytes \<times> bytes) list" where
  "privateBlocks = [([10, 0, 0, 0], [255, 0, 0, 0]), ([172, 16, 0, 0], [255, 240, 0, 0]), ([192, 168, 0, 0], [255, 255, 0, 0])]"

definition loopbackBlock :: "bytes \<times> bytes" where
  "loopbackBlock = ([127, 0, 0, 0], [255, 0, 0, 0])"

definition isPrivateIP :: "string \<Rightarrow> bool" where
  "isPrivateIP s = list_ex (\<lambda>(net, msk). block_contains net msk (ParseIP s)) privateBlocks"

definition isLoopbackIP :: "string \<Rightarrow> bool" where
  "isLoopbackIP s = block_contains (fst loopbackBlock) (snd loopbackBlock) (ParseIP s)"

fun first_private :: "bytes option list \<Rightarrow> bytes option" where
  "first_private [] = None"
| "first_private (None # as) = first_private as"
| "first_private (Some ip # as) =
     (if to4 ip = None then first_private as
      else if \<not> isPrivateIP (ip_String ip) then first_private as
      else Some ip)"

definition advertised :: "machine \<Rightarrow> ml_config \<Rightarrow> bytes \<times> int \<Rightarrow> (create_error, bytes \<times> int) result" where
  "advertised h conf listener =
     (if mc_AdvertiseAddr conf \<noteq> [] then
        (case ParseIP (mc_AdvertiseAddr conf) of
           None \<Rightarrow> Inl BadAdvertiseAddr
         | Some ip \<Rightarrow> Inr (case to4 ip of Some p \<Rightarrow> p | None \<Rightarrow> ip, mc_AdvertisePort conf))
      else if mc_BindAddr conf = ''0.0.0.0'' then
        (case mh_InterfaceAddrs h of
           Inl e \<Rightarrow> Inl (NoInterfaces e)
         | Inr as \<Rightarrow> (case first_private as of None \<Rightarrow> Inl NoPrivateIP | Some ip \<Rightarrow> Inr (ip, snd listener)))
      else Inr listener)"

text \<open>Whether a warning is due: a public address without encryption.\<close>

definition warns_public :: "ml_config \<Rightarrow> bytes \<Rightarrow> bool" where
  "warns_public conf addr \<longleftrightarrow>
     \<not> isPrivateIP (ip_String addr) \<and> \<not> isLoopbackIP (ip_String addr)
     \<and> (case mc_Keyring conf of None \<Rightarrow> True | Some k \<Rightarrow> GetKeys k = [])"

definition local_versions :: "ml_config \<Rightarrow> bytes" where
  "local_versions conf =
     [ProtocolVersionMin, ProtocolVersionMax, mc_ProtocolVersion conf,
      mc_DelegateMin conf, mc_DelegateMax conf, mc_DelegateVersion conf]"

text \<open>\<open>None\<close> is a panic of the delegate, or over meta data that is too long.\<close>

definition local_meta :: "ml_config \<Rightarrow> bytes option" where
  "local_meta conf =
     (case mc_NodeMeta conf of
        None \<Rightarrow> Some []
      | Some f \<Rightarrow>
          (case f MetaMaxSize of
             None \<Rightarrow> None
           | Some meta \<Rightarrow> if MetaMaxSize < length meta then None else Some meta))"

definition local_alive :: "ml_config \<Rightarrow> bytes \<Rightarrow> int \<Rightarrow> bytes \<Rightarrow> alive" where
  "local_alive conf addr port meta =
     \<lparr>al_Incarnation = 0, al_Node = mc_Name conf, al_Addr = addr, al_Port = word_of_int port, al_Meta = meta,
      al_Vsn = local_versions conf\<rparr>"

subsection \<open>Create, Shutdown\<close>

record ml_instance =
  mi_conf :: ml_config
  mi_members :: memberlist
  mi_schedule :: schedule
  mi_shutdown :: bool

definition Memberlist_Create ::
  "machine \<Rightarrow> intervals \<Rightarrow> swim_env \<Rightarrow> ml_config \<Rightarrow> (create_error, ml_instance \<times> swim_output list) result run" where
  "Memberlist_Create h iv env conf =
     (case newMemberlist h conf of
        Inl e \<Rightarrow> Returns (Inl e)
      | Inr (conf1, addr, port) \<Rightarrow>
          (case advertised h conf1 (addr, port) of
             Inl e \<Rightarrow> Returns (Inl e)
           | Inr (addr, port) \<Rightarrow>
               (case local_meta conf1 of
                  None \<Rightarrow> Panics
                | Some meta \<Rightarrow>
                    (case setAlive env (local_alive conf1 addr port meta) new_memberlist of
                       Returns (m, out) \<Rightarrow>
                         Returns (Inr (\<lparr>mi_conf = conf1, mi_members = m,
                           mi_schedule = schedule_start iv not_scheduled, mi_shutdown = False\<rparr>, out))
                     | Panics \<Rightarrow> Panics
                     | Hangs \<Rightarrow> Hangs))))"

definition Memberlist_Shutdown :: "ml_instance \<Rightarrow> ml_instance" where
  "Memberlist_Shutdown i =
     (if mi_shutdown i then i else i\<lparr>mi_shutdown := True, mi_schedule := deschedule (mi_schedule i)\<rparr>)"

text \<open>\<open>None\<close> is the nil pointer when the local node is not in the map.\<close>

definition LocalNode :: "ml_instance \<Rightarrow> Node option" where
  "LocalNode i = map_option Node.truncate (mb_map (mi_members i) (mc_Name (mi_conf i)))"

text \<open>\<open>UpdateNode\<close>: the error, which is a broadcast not sent in time, and the members after it.\<close>

definition Memberlist_UpdateNode ::
  "swim_env \<Rightarrow> bool \<Rightarrow> ml_instance \<Rightarrow> (string option \<times> ml_instance \<times> swim_output list) run" where
  "Memberlist_UpdateNode env notified i =
     (case local_meta (mi_conf i) of
        None \<Rightarrow> Panics
      | Some meta \<Rightarrow>
          (case UpdateNode env meta (local_versions (mi_conf i)) (mi_members i) of
             Returns (m, out) \<Rightarrow>
               Returns (if anyAlive env m \<and> \<not> notified then Some ''timeout waiting for update broadcast'' else None,
                        i\<lparr>mi_members := m\<rparr>, out)
           | Panics \<Rightarrow> Panics
           | Hangs \<Rightarrow> Hangs))"

subsection \<open>Join\<close>

text \<open>The exchange with one address changes the state and may fail.\<close>

datatype join_error = NotResolved resolve_error | NotReached string

fun join_addrs ::
  "(bytes \<Rightarrow> 16 word \<Rightarrow> 's \<Rightarrow> string option \<times> 's) \<Rightarrow> 16 word \<Rightarrow> bytes list \<Rightarrow> nat \<times> join_error option \<times> 's \<Rightarrow>
     nat \<times> join_error option \<times> 's" where
  "join_addrs exchange port [] r = r"
| "join_addrs exchange port (addr # addrs) (n, retErr, s) =
     (case exchange addr port s of
        (Some e, s') \<Rightarrow> join_addrs exchange port addrs (n, Some (NotReached e), s')
      | (None, s') \<Rightarrow> join_addrs exchange port addrs (n + 1, retErr, s'))"

fun join_hosts ::
  "(string \<Rightarrow> (resolve_error, bytes list \<times> 16 word) result) \<Rightarrow> (bytes \<Rightarrow> 16 word \<Rightarrow> 's \<Rightarrow> string option \<times> 's) \<Rightarrow>
     string list \<Rightarrow> nat \<times> join_error option \<times> 's \<Rightarrow> nat \<times> join_error option \<times> 's" where
  "join_hosts resolve exchange [] r = r"
| "join_hosts resolve exchange (exist # existing) (n, retErr, s) =
     (case resolve exist of
        Inl e \<Rightarrow> join_hosts resolve exchange existing (n, Some (NotResolved e), s)
      | Inr (addrs, port) \<Rightarrow> join_hosts resolve exchange existing (join_addrs exchange port addrs (n, retErr, s)))"

definition Memberlist_Join ::
  "(string \<Rightarrow> (resolve_error, bytes list \<times> 16 word) result) \<Rightarrow> (bytes \<Rightarrow> 16 word \<Rightarrow> 's \<Rightarrow> string option \<times> 's) \<Rightarrow>
     string list \<Rightarrow> 's \<Rightarrow> nat \<times> join_error option \<times> 's" where
  "Memberlist_Join resolve exchange existing s =
     (let (numSuccess, retErr, s') = join_hosts resolve exchange existing (0, None, s)
      in (numSuccess, if 0 < numSuccess then None else retErr, s'))"

subsection \<open>User messages\<close>

definition SendTo :: "net_env \<Rightarrow> udp_addr \<Rightarrow> bytes \<Rightarrow> net_state \<Rightarrow> net_state \<times> bool" where
  "SendTo env to msg st = rawSendMsgUDP env to (userMsg # msg) st"

definition SendToUDP :: "net_env \<Rightarrow> Node \<Rightarrow> bytes \<Rightarrow> net_state \<Rightarrow> net_state \<times> bool" where
  "SendToUDP env to msg st = rawSendMsgUDP env (n_Addr to, unat (n_Port to)) (userMsg # msg) st"

definition SendToTCP :: "net_env \<Rightarrow> tcp_env \<Rightarrow> nat \<Rightarrow> bytes \<Rightarrow> bytes option" where
  "SendToTCP env tenv n msg = sendTCPUserMsg env tenv n msg"

subsection \<open>Starting\<close>

lemma setup_keyring_primary:
  assumes "setup_keyring secretKey keyring = Inr kr" "\<forall>k. keyring = Some k \<longrightarrow> ring_ok k"
  shows "if secretKey = [] then kr = keyring
    else \<exists>k. kr = Some k \<and> live_ring k \<and> GetPrimaryKey k = Some secretKey"
proof (cases "secretKey = []")
  case False
  show ?thesis
  proof (cases keyring)
    case None
    with assms(1) False obtain k where "NewKeyring [] secretKey = Inr k" "kr = Some k"
      by (auto simp: setup_keyring_def rbind_eq_Inr_iff)
    with NewKeyring_live [OF this(1) False] False show ?thesis
      by (auto simp: GetPrimaryKey_def abs_ring_def live_ring_def)
  next
    case (Some k)
    with assms(1) False obtain k1 k2 where k: "AddKey secretKey k = Inr k1" "UseKey secretKey k1 = Inr k2" "kr = Some k2"
      by (auto simp: setup_keyring_def rbind_eq_Inr_iff)
    have ok: "ring_ok k1" using AddKey_set(1) [OF _ k(1)] assms(2) Some by simp
    from UseKey_set [OF ok k(2)] have "ring_ok k2" "k2 ! 0 = secretKey" "secretKey \<in> set k2"
      by auto
    then show ?thesis using False k(3) by (auto simp: GetPrimaryKey_def live_ring_def)
  qed
qed (use assms in \<open>simp add: setup_keyring_def\<close>)

lemma Memberlist_created:
  assumes "Memberlist_Create h iv env conf = Returns (Inr (i, out))"
  obtains addr port meta where
    "check_protocol (mc_ProtocolVersion conf) = None"
    "setup_keyring (mc_SecretKey conf) (mc_Keyring conf) = Inr (mc_Keyring (mi_conf i))"
    "mc_Name (mi_conf i) = mc_Name conf" "mc_NodeMeta (mi_conf i) = mc_NodeMeta conf"
    "local_meta conf = Some meta"
    "setAlive env (local_alive (mi_conf i) addr port meta) new_memberlist = Returns (mi_members i, out)"
    "mi_schedule i = schedule_start iv not_scheduled" "\<not> mi_shutdown i"
proof -
  obtain conf1 a0 p0 addr port where n: "newMemberlist h conf = Inr (conf1, a0, p0)"
    and adv: "advertised h conf1 (a0, p0) = Inr (addr, port)"
    using assms by (auto simp: Memberlist_Create_def split: sum.splits prod.splits)
  obtain meta where m: "local_meta conf1 = Some meta"
    using assms n adv by (auto simp: Memberlist_Create_def split: option.splits)
  have s: "setAlive env (local_alive conf1 addr port meta) new_memberlist = Returns (mi_members i, out)"
      "i = \<lparr>mi_conf = conf1, mi_members = mi_members i, mi_schedule = schedule_start iv not_scheduled, mi_shutdown = False\<rparr>"
    using assms n adv m by (auto simp: Memberlist_Create_def split: run.splits)
  have c: "check_protocol (mc_ProtocolVersion conf) = None"
      "setup_keyring (mc_SecretKey conf) (mc_Keyring conf) = Inr (mc_Keyring conf1)"
      "mc_Name conf1 = mc_Name conf" "mc_NodeMeta conf1 = mc_NodeMeta conf"
    using n by (auto simp: newMemberlist_def Let_def split: option.splits sum.splits)
  have "mi_conf i = conf1" "mi_schedule i = schedule_start iv not_scheduled" "\<not> mi_shutdown i"
    by (subst s(2), simp)+
  then show thesis using that [of meta addr port] c m s(1) by (simp add: local_meta_def)
qed

text \<open>Without an alive delegate the first announcement is accepted.\<close>

lemma setAlive_alone:
  assumes "setAlive env a new_memberlist = Returns (m, out)" "sw_Alive env = None" "length (al_Vsn a) = 6"
  shows "memberlist_Members m = [alive_Node (a\<lparr>al_Incarnation := 1, al_Node := sw_Name env\<rparr>)]"
    and "mb_map m (sw_Name env) \<noteq> None"
proof -
  let ?a = "a\<lparr>al_Incarnation := 1, al_Node := sw_Name env\<rparr>"
  let ?st = "accept_alive env ?a (new_nodeState ?a)"
  have m: "mb_map m = [sw_Name env \<mapsto> ?st]" "mb_nodes m = [sw_Name env]"
    using assms by (auto simp: setAlive_def aliveNode_def alive_known_def Let_def new_memberlist_def add_node_def
        randomOffset_def)
  have "Node.truncate ?st = alive_Node ?a"
    using assms(3) by (auto simp: accept_alive_def Let_def new_nodeState_def bare_Node_def Node.extend_def
        Node.truncate_def alive_Node_def)
  with m show "memberlist_Members m = [alive_Node ?a]" "mb_map m (sw_Name env) \<noteq> None"
    by (simp_all add: memberlist_Members_def is_dead_def)
qed

subsection \<open>Joining\<close>

text \<open>The addresses that are contacted, and the errors of contacting them one after the other.\<close>

definition join_targets ::
  "(string \<Rightarrow> (resolve_error, bytes list \<times> 16 word) result) \<Rightarrow> string list \<Rightarrow> (bytes \<times> 16 word) list" where
  "join_targets resolve existing =
     concat (map (\<lambda>e. case resolve e of Inl _ \<Rightarrow> [] | Inr (addrs, port) \<Rightarrow> map (\<lambda>a. (a, port)) addrs) existing)"

fun contact_all ::
  "(bytes \<Rightarrow> 16 word \<Rightarrow> 's \<Rightarrow> string option \<times> 's) \<Rightarrow> (bytes \<times> 16 word) list \<Rightarrow> 's \<Rightarrow> string option list \<times> 's" where
  "contact_all exchange [] s = ([], s)"
| "contact_all exchange ((addr, port) # ts) s =
     (let (e, s1) = exchange addr port s; (es, s2) = contact_all exchange ts s1 in (e # es, s2))"

lemma contact_all_append:
  "contact_all exchange (xs @ ys) s =
     (let (es, s1) = contact_all exchange xs s; (es', s2) = contact_all exchange ys s1 in (es @ es', s2))"
  by (induction exchange xs s rule: contact_all.induct) (auto split: prod.splits)

definition contacted :: "string option list \<Rightarrow> nat" where
  "contacted es = length (filter (\<lambda>e. e = None) es)"

lemma contacted_simps [simp]:
  "contacted [] = 0" "contacted (None # es) = contacted es + 1" "contacted (Some e # es) = contacted es"
  "contacted (es @ es') = contacted es + contacted es'"
  by (simp_all add: contacted_def)

lemma contacted_all: "contacted es = length es \<longleftrightarrow> (\<forall>e\<in>set es. e = None)"
  by (auto simp: contacted_def filter_id_conv dest: length_filter_less)

lemma join_addrs_contact:
  assumes "contact_all exchange (map (\<lambda>a. (a, port)) addrs) s = (es, s')"
  shows "fst (join_addrs exchange port addrs (n, retErr, s)) = n + contacted es
    \<and> snd (snd (join_addrs exchange port addrs (n, retErr, s))) = s'
    \<and> (fst (snd (join_addrs exchange port addrs (n, retErr, s))) = None \<longleftrightarrow> retErr = None \<and> (\<forall>e\<in>set es. e = None))"
  using assms
proof (induction addrs arbitrary: n retErr s es)
  case (Cons addr addrs)
  obtain e s1 where e: "exchange addr port s = (e, s1)" by fastforce
  with Cons.prems obtain es1 where es: "contact_all exchange (map (\<lambda>a. (a, port)) addrs) s1 = (es1, s')" "es = e # es1"
    by (auto split: prod.splits)
  show ?case using Cons.IH [OF es(1)] e es(2) by (cases e) simp_all
qed simp

lemma join_hosts_contact:
  assumes "contact_all exchange (join_targets resolve existing) s = (es, s')"
  shows "fst (join_hosts resolve exchange existing (n, retErr, s)) = n + contacted es
    \<and> snd (snd (join_hosts resolve exchange existing (n, retErr, s))) = s'
    \<and> (fst (snd (join_hosts resolve exchange existing (n, retErr, s))) = None
        \<longleftrightarrow> retErr = None \<and> (\<forall>e\<in>set es. e = None) \<and> (\<forall>e\<in>set existing. \<not> isl (resolve e)))"
  using assms
proof (induction existing arbitrary: n retErr s es)
  case Nil
  then show ?case by (simp add: join_targets_def)
next
  case (Cons e existing)
  show ?case
  proof (cases "resolve e")
    case (Inl err)
    with Cons.prems have "contact_all exchange (join_targets resolve existing) s = (es, s')"
      by (simp add: join_targets_def)
    from Cons.IH [OF this] Inl show ?thesis by simp
  next
    case (Inr t)
    obtain addrs port where t: "t = (addrs, port)" by fastforce
    obtain es1 s1 where c1: "contact_all exchange (map (\<lambda>a. (a, port)) addrs) s = (es1, s1)" by fastforce
    obtain es2 where c2: "contact_all exchange (join_targets resolve existing) s1 = (es2, s')" "es = es1 @ es2"
      using Cons.prems Inr t c1 by (auto simp: join_targets_def contact_all_append split: prod.splits)
    obtain n1 err1 where j: "join_addrs exchange port addrs (n, retErr, s) = (n1, err1, s1)"
      using join_addrs_contact [OF c1, of n retErr] by (metis prod.collapse)
    with join_addrs_contact [OF c1, of n retErr] have
      "n1 = n + contacted es1" "err1 = None \<longleftrightarrow> retErr = None \<and> (\<forall>e\<in>set es1. e = None)" by simp_all
    then show ?thesis using Cons.IH [OF c2(1), of n1 err1] j Inr t c2(2) by auto
  qed
qed

subsection \<open>Properties\<close>

text \<open>A memberlist that is created speaks a version it supports, encrypts with the secret key if there is one,
  lists exactly itself, with the versions and meta data it was given, and is in an initial state of
  the failure detector.\<close>

theorem created_node_lists_itself:
  assumes "Memberlist_Create h iv env conf = Returns (Inr (i, out))"
    and "sw_Name env = mc_Name conf" "sw_Alive env = None" "\<forall>k. mc_Keyring conf = Some k \<longrightarrow> ring_ok k"
  shows "ProtocolVersionMin \<le> mc_ProtocolVersion conf \<and> mc_ProtocolVersion conf \<le> ProtocolVersionMax
    \<and> (mc_SecretKey conf \<noteq> [] \<longrightarrow>
         (\<exists>k. mc_Keyring (mi_conf i) = Some k \<and> live_ring k \<and> GetPrimaryKey k = Some (mc_SecretKey conf)))
    \<and> (\<exists>nd. memberlist_Members (mi_members i) = [nd] \<and> n_Name nd = mc_Name conf \<and> versions nd = local_versions (mi_conf i)
         \<and> length (n_Meta nd) \<le> MetaMaxSize \<and> LocalNode i = Some nd)
    \<and> swim_reach (mc_Name conf) out (mi_members i)"
proof -
  from Memberlist_created [OF assms(1)] obtain addr port meta where c:
    "check_protocol (mc_ProtocolVersion conf) = None"
    "setup_keyring (mc_SecretKey conf) (mc_Keyring conf) = Inr (mc_Keyring (mi_conf i))"
    "mc_Name (mi_conf i) = mc_Name conf" "local_meta conf = Some meta"
    "setAlive env (local_alive (mi_conf i) addr port meta) new_memberlist = Returns (mi_members i, out)"
    by blast
  let ?a = "(local_alive (mi_conf i) addr port meta)\<lparr>al_Incarnation := 1, al_Node := sw_Name env\<rparr>"
  note alone = setAlive_alone [OF c(5) assms(3)]
  have vsn: "length (al_Vsn (local_alive (mi_conf i) addr port meta)) = 6"
    by (simp add: local_alive_def local_versions_def)
  have reach: "swim_reach (mc_Name conf) out (mi_members i)"
    using swim_reach.start [OF assms(2) c(5)] alone(2) [OF vsn] assms(2) by simp
  have nd: "n_Name (alive_Node ?a) = mc_Name conf" "versions (alive_Node ?a) = local_versions (mi_conf i)"
      "n_Meta (alive_Node ?a) = meta"
    by (simp_all add: alive_Node_def assms(2) local_alive_def versions_def local_versions_def)
  have "length meta \<le> MetaMaxSize"
    using c(4) by (auto simp: local_meta_def split: option.splits if_splits)
  moreover have "LocalNode i = Some (alive_Node ?a)"
  proof -
    have "alive_Node ?a \<in> set (memberlist_Members (mi_members i))" using alone(1) [OF vsn] by simp
    then obtain k st where k: "mb_map (mi_members i) k = Some st" "alive_Node ?a = Node.truncate st"
      using swim_reach_good [OF reach] unfolding swim_inv_def memberlist_Members_def by force
    then have "k = mc_Name conf"
      using swim_reach_good [OF reach] nd(1) unfolding swim_inv_def by (metis truncate_name)
    then show ?thesis using k c(3) by (simp add: LocalNode_def)
  qed
  ultimately show ?thesis
    using c(1) setup_keyring_primary [OF c(2) assms(4)] alone(1) [OF vsn] nd reach
    by (auto simp: check_protocol_def not_less split: if_splits)
qed

text \<open>\<open>Join\<close> contacts all addresses that the names resolve to, in order, each in the state the last left; it
  returns how many answered, and an error exactly if none did and a name or an address failed.\<close>

theorem join_contacts_all:
  assumes "contact_all exchange (join_targets resolve existing) s = (es, s')"
  shows "fst (Memberlist_Join resolve exchange existing s) = contacted es
    \<and> snd (snd (Memberlist_Join resolve exchange existing s)) = s'
    \<and> (fst (snd (Memberlist_Join resolve exchange existing s)) = None
        \<longleftrightarrow> 0 < contacted es \<or> es = [] \<and> (\<forall>e\<in>set existing. \<not> isl (resolve e)))"
proof -
  obtain n err where j: "join_hosts resolve exchange existing (0, None, s) = (n, err, s')"
    using join_hosts_contact [OF assms, of 0 None] by (metis prod.collapse)
  have "(\<forall>e\<in>set es. e = None) \<longleftrightarrow> es = []" if "contacted es = 0"
    using that contacted_all [of es] by auto
  then show ?thesis
    using join_hosts_contact [OF assms, of 0 None] j by (auto simp: Memberlist_Join_def)
qed

subsection \<open>Instances\<close>

definition demo_machine :: machine where
  "demo_machine =
     \<lparr>mh_ListenTCP = (\<lambda>_ port. Inr ([127, 0, 0, 1], port)), mh_ListenUDP = (\<lambda>_ _. None), mh_InterfaceAddrs = Inr []\<rparr>"

definition demo_conf :: ml_config where
  "demo_conf =
     \<lparr>mc_Name = ''n1'', mc_ProtocolVersion = 2, mc_SecretKey = replicate 16 1, mc_Keyring = None, mc_BindAddr = ''127.0.0.1'',
      mc_BindPort = 7946, mc_AdvertiseAddr = [], mc_AdvertisePort = 0, mc_DelegateMin = 2, mc_DelegateMax = 4,
      mc_DelegateVersion = 4, mc_NodeMeta = None\<rparr>"

definition start_intervals :: intervals where
  "start_intervals = \<lparr>iv_Probe = 1, iv_PushPull = 30, iv_Gossip = 1, iv_GossipNodes = 3\<rparr>"

lemma demo_creates:
  assumes "check_protocol (mc_ProtocolVersion c) = None" "setup_keyring (mc_SecretKey c) (mc_Keyring c) = Inr kr"
    and "mc_AdvertiseAddr c = []" "mc_BindAddr c = ''127.0.0.1''" "local_meta c = Some meta"
  shows "\<exists>i out. Memberlist_Create demo_machine start_intervals demo_swim c = Returns (Inr (i, out))"
proof -
  have n: "newMemberlist demo_machine c = Inr (c\<lparr>mc_Keyring := kr\<rparr>, [127, 0, 0, 1], if mc_BindPort c = 0 then 0 else mc_BindPort c)"
    using assms by (simp add: newMemberlist_def demo_machine_def Let_def)
  have "\<exists>r. setAlive demo_swim (local_alive c' addr port meta') new_memberlist = Returns r" for c' addr port meta'
    by (simp add: setAlive_def aliveNode_def alive_known_def Let_def new_memberlist_def demo_swim_def
        local_alive_def local_versions_def)
  then obtain m out where "setAlive demo_swim (local_alive (c\<lparr>mc_Keyring := kr\<rparr>) [127, 0, 0, 1]
      (if mc_BindPort c = 0 then 0 else mc_BindPort c) meta) new_memberlist = Returns (m, out)" by (metis surj_pair)
  moreover have "local_meta (c\<lparr>mc_Keyring := kr\<rparr>) = Some meta" using assms(5) by (simp add: local_meta_def)
  ultimately show ?thesis
    unfolding Memberlist_Create_def n using assms(3,4) by (simp add: advertised_def)
qed

lemma demo_created: "\<exists>i out. Memberlist_Create demo_machine start_intervals demo_swim demo_conf = Returns (Inr (i, out))"
proof (rule demo_creates)
  show "setup_keyring (mc_SecretKey demo_conf) (mc_Keyring demo_conf) = Inr (Some [replicate 16 1])"
    by (simp add: demo_conf_def setup_keyring_def NewKeyring_def AddKey_def key_size_def GetPrimaryKey_def installKeys_def)
qed (simp_all add: demo_conf_def check_protocol_def ProtocolVersionMin_def ProtocolVersionMax_def local_meta_def)

lemma created_node_lists_itself_witness:
  "\<exists>i out. ProtocolVersionMin \<le> mc_ProtocolVersion demo_conf \<and> mc_ProtocolVersion demo_conf \<le> ProtocolVersionMax
    \<and> (mc_SecretKey demo_conf \<noteq> [] \<longrightarrow>
         (\<exists>k. mc_Keyring (mi_conf i) = Some k \<and> live_ring k \<and> GetPrimaryKey k = Some (mc_SecretKey demo_conf)))
    \<and> (\<exists>nd. memberlist_Members (mi_members i) = [nd] \<and> n_Name nd = mc_Name demo_conf \<and> versions nd = local_versions (mi_conf i)
         \<and> length (n_Meta nd) \<le> MetaMaxSize \<and> LocalNode i = Some nd)
    \<and> swim_reach (mc_Name demo_conf) out (mi_members i)"
proof -
  obtain i out where c: "Memberlist_Create demo_machine start_intervals demo_swim demo_conf = Returns (Inr (i, out))"
    using demo_created by blast
  have "sw_Name demo_swim = mc_Name demo_conf" "sw_Alive demo_swim = None" "\<forall>k. mc_Keyring demo_conf = Some k \<longrightarrow> ring_ok k"
    by (simp_all add: demo_swim_def demo_conf_def)
  from created_node_lists_itself [OF c this] show ?thesis by blast
qed

text \<open>One name does not resolve, the second has two addresses, of which one answers.\<close>

definition demo_resolve :: "string \<Rightarrow> (resolve_error, bytes list \<times> 16 word) result" where
  "demo_resolve e = (if e = ''db'' then Inr ([[10, 0, 0, 1], [10, 0, 0, 2]], 7946) else Inl (LookupFailed e))"

definition demo_exchange :: "bytes \<Rightarrow> 16 word \<Rightarrow> bytes list \<Rightarrow> string option \<times> bytes list" where
  "demo_exchange addr port s = (if addr = [10, 0, 0, 1] then (Some ''refused'', s) else (None, addr # s))"

lemma join_contacts_all_witness:
  "fst (Memberlist_Join demo_resolve demo_exchange [''web'', ''db''] []) = contacted [Some ''refused'', None]
    \<and> snd (snd (Memberlist_Join demo_resolve demo_exchange [''web'', ''db''] [])) = [[10, 0, 0, 2]]
    \<and> (fst (snd (Memberlist_Join demo_resolve demo_exchange [''web'', ''db''] [])) = None
        \<longleftrightarrow> 0 < contacted [Some ''refused'', None] \<or> [Some ''refused'', None] = []
          \<and> (\<forall>e\<in>set [''web'', ''db'']. \<not> isl (demo_resolve e)))"
  by (rule join_contacts_all) (simp add: join_targets_def demo_resolve_def demo_exchange_def)

subsection \<open>What can go wrong\<close>

text \<open>
  A node whose own alive delegate turns it away is created all the same, but is not in its list:
  asking for the local node is a nil pointer, and so is an update.
\<close>

lemma rejected_by_its_own_delegate:
  assumes "sw_Alive env = Some f" "\<And>n. f n \<noteq> None" "length (al_Vsn a) = 6"
  shows "setAlive env a new_memberlist = Returns (new_memberlist\<lparr>mb_incarnation := 1\<rparr>, [])"
    and "UpdateNode env meta vsn (new_memberlist\<lparr>mb_incarnation := 1\<rparr>) = Panics"
  using assms by (simp_all add: setAlive_def aliveNode_def new_memberlist_def Let_def UpdateNode_def)

text \<open>
  An IPv4 address has two forms, and they are compared byte by byte: a node that announces itself in
  the other form, as it does when it is given an address to advertise instead of finding its own, is
  taken for another one with its name.
\<close>

lemma other_form_conflicts:
  assumes "length (n_Addr st) = 4" "al_Addr a = to16 (n_Addr st)"
  shows "alive_known env a bootstrap st m =
    Returns (m, if sw_Conflict env then [NotifyConflict (Node.truncate st) (bare_Node a)] else [])"
proof -
  have "n_Addr st \<noteq> al_Addr a" using assms by (auto simp: to16_def v4InV6Prefix_def dest: arg_cong [where f = length])
  then show ?thesis by (simp add: alive_known_def)
qed

text \<open>Only \<open>0.0.0.0\<close> counts as no address in particular; bound to \<open>::\<close> or to nothing, a node announces \<open>::\<close>.\<close>

lemma unspecified_address_is_announced:
  assumes "mc_AdvertiseAddr conf = []" "mc_BindAddr conf = ''::'' \<or> mc_BindAddr conf = []"
  shows "advertised h conf (replicate 16 0, port) = Inr (replicate 16 0, port)"
  using assms by (auto simp: advertised_def)

end
