(* ===== verification/Delegates.thy ===== *)
theory Delegates
  imports SwimProps SerfLife KeyManager
begin

section \<open>What memberlist tells Serf (serf/event_delegate.go, conflict_delegate.go, merge_delegate.go)\<close>

text \<open>
  Memberlist calls its delegates while it holds its own lock; the calls change Serf's members. This
  theory models the delegates and puts the two components together: memberlist's handlers, the
  notifications on their way, and what Serf does on its own interleave in any order.
\<close>

subsection \<open>The delegates\<close>

definition event_NotifyJoin :: "members_env \<Rightarrow> Node \<Rightarrow> members_state \<Rightarrow> members_state \<times> MemberEvent list" where
  "event_NotifyJoin env n s = handleNodeJoin env n s"

definition event_NotifyLeave :: "int \<Rightarrow> Node \<Rightarrow> members_state \<Rightarrow> members_state \<times> MemberEvent list" where
  "event_NotifyLeave now n s = handleNodeLeave now n s"

definition event_NotifyUpdate :: "members_env \<Rightarrow> Node \<Rightarrow> members_state \<Rightarrow> members_state \<times> MemberEvent list" where
  "event_NotifyUpdate env n s = handleNodeUpdate env n s"

text \<open>\<open>enabled\<close> is \<open>EnableNameConflictResolution\<close>; the result is whether a resolution is started.\<close>

definition conflict_NotifyConflict :: "members_env \<Rightarrow> bool \<Rightarrow> Node \<Rightarrow> Node \<Rightarrow> bool" where
  "conflict_NotifyConflict env enabled existing other = handleNodeConflict (sv_NodeName env) enabled existing"

definition nodeToMember :: "members_env \<Rightarrow> Node \<Rightarrow> Member" where
  "nodeToMember env n =
     \<lparr>m_Name = n_Name n, m_Addr = n_Addr n, m_Port = n_Port n, m_Tags = decodeTags env (n_Meta n),
      m_Status = StatusNone, m_ProtocolMin = n_PMin n, m_ProtocolMax = n_PMax n, m_ProtocolCur = n_PCur n,
      m_DelegateMin = n_DMin n, m_DelegateMax = n_DMax n, m_DelegateCur = n_DCur n\<rparr>"

text \<open>The application's merge delegate refuses a list of members with an error.\<close>

definition merge_NotifyMerge :: "members_env \<Rightarrow> (Member list \<Rightarrow> string option) \<Rightarrow> Node list \<Rightarrow> string option" where
  "merge_NotifyMerge env app nodes = app (map (nodeToMember env) nodes)"

definition merge_NotifyAlive :: "members_env \<Rightarrow> (Member list \<Rightarrow> string option) \<Rightarrow> Node \<Rightarrow> string option" where
  "merge_NotifyAlive env app peer = app [nodeToMember env peer]"

text \<open>One output of memberlist: the state, the events, and whether a conflict resolution starts.\<close>

definition deliver ::
  "members_env \<Rightarrow> int \<Rightarrow> bool \<Rightarrow> swim_output \<Rightarrow> members_state \<Rightarrow> members_state \<times> MemberEvent list \<times> bool" where
  "deliver env now enabled out s =
     (case out of
        NotifyJoin n \<Rightarrow> (let (s', evs) = event_NotifyJoin env n s in (s', evs, False))
      | NotifyLeave n \<Rightarrow> (let (s', evs) = event_NotifyLeave now n s in (s', evs, False))
      | NotifyUpdate n \<Rightarrow> (let (s', evs) = event_NotifyUpdate env n s in (s', evs, False))
      | NotifyConflict existing other \<Rightarrow> (s, [], conflict_NotifyConflict env enabled existing other)
      | Gossip _ \<Rightarrow> (s, [], False)
      | StartTimer _ _ \<Rightarrow> (s, [], False))"

subsection \<open>Both components\<close>

text \<open>What Serf does without a report of memberlist.\<close>

inductive own_step :: "members_env \<Rightarrow> members_state \<times> nat \<Rightarrow> members_state \<times> nat \<Rightarrow> bool" for env where
  own_leave_intent: "own_step env (s, k) (fst (snd (handleNodeLeaveIntent env lm s)), k)"
| own_join_intent: "own_step env (s, k) (snd (handleNodeJoinIntent jm s), k)"
| own_reap: "own_step env (s, k) (fst (handleReap_round now1 rt now2 tt s), k)"
| own_join: "own_step env (s, k) (fst (snd (serf_Join env joined s)), k)"
| own_refute: "own_step env (s, k) (fst (snd (broadcastJoin env t s)), k)"
| own_remove_failed: "own_step env (s, k) (fst (snd (RemoveFailedNode env node notified s)), k)"
| own_shutdown: "own_step env (s, k) (snd (Shutdown err s), k)"
| own_leave_over: "Leave_begin env s = (LeaveReturns e, s', out) \<Longrightarrow> own_step env (s, k) (s', k)"
| own_leave_waits: "Leave_begin env s = (LeaveWaits queued, s', out) \<Longrightarrow> own_step env (s, k) (s', Suc k)"
| own_leave_ends: "own_step env (s, Suc k) (snd (Leave_finish queued notified err s), k)"

record node_pair =
  np_memberlist :: memberlist
  np_pending :: "swim_output list"
  np_serf :: members_state
  np_leaving :: nat

inductive pair_step :: "members_env \<Rightarrow> node_pair \<Rightarrow> node_pair \<Rightarrow> bool" for env where
  swim: "swim_step (sv_NodeName env) (np_memberlist p) out m \<Longrightarrow>
     pair_step env p (p\<lparr>np_memberlist := m, np_pending := np_pending p @ out\<rparr>)"
| notify: "np_pending p = out # outs \<Longrightarrow>
     pair_step env p (p\<lparr>np_pending := outs, np_serf := fst (deliver env now enabled out (np_serf p))\<rparr>)"
| own: "own_step env (np_serf p, np_leaving p) (s, k) \<Longrightarrow> pair_step env p (p\<lparr>np_serf := s, np_leaving := k\<rparr>)"

text \<open>\<open>Create\<close> makes the members, with a clock \<open>c\<close>, before memberlist announces the local node.\<close>

inductive pair_reach :: "members_env \<Rightarrow> nat \<Rightarrow> node_pair \<Rightarrow> bool" for env n where
  created: "sw_Name senv = sv_NodeName env \<Longrightarrow> setAlive senv a new_memberlist = Returns (m, out) \<Longrightarrow>
     mb_map m (sv_NodeName env) \<noteq> None \<Longrightarrow>
     pair_reach env n \<lparr>np_memberlist = m, np_pending = out, np_serf = (members_init n)\<lparr>sm_clock := c\<rparr>, np_leaving = 0\<rparr>"
| steps: "pair_reach env n p \<Longrightarrow> pair_step env p p' \<Longrightarrow> pair_reach env n p'"

subsection \<open>What a member shows\<close>

definition member_live :: "members_state \<Rightarrow> string \<Rightarrow> bool" where
  "member_live s n \<longleftrightarrow> status_of s n \<in> {Some StatusAlive, Some StatusLeaving}"

type_synonym member_data = "bytes \<times> 16 word \<times> (string \<rightharpoonup> string)"

definition member_data :: "'a Member_scheme \<Rightarrow> member_data" where
  "member_data m = (m_Addr m, m_Port m, m_Tags m)"

definition shown :: "members_env \<Rightarrow> node_data \<Rightarrow> member_data" where
  "shown env = (\<lambda>(addr, port, meta). (addr, port, decodeTags env meta))"

text \<open>The data of the members that are alive or leaving.\<close>

definition live_data :: "members_state \<Rightarrow> string \<Rightarrow> member_data option" where
  "live_data s n = (if member_live s n then map_option (\<lambda>l. member_data (sm_store s l)) (sm_members s n) else None)"

lemma own_change_live:
  "own_change x y \<Longrightarrow> x \<in> {Some StatusAlive, Some StatusLeaving} \<longleftrightarrow> y \<in> {Some StatusAlive, Some StatusLeaving}"
  by (induction rule: own_change.induct) auto

lemma own_step_change:
  "own_step env c c' \<Longrightarrow> members_inv (fst c) \<Longrightarrow> own_change (status_of (fst c) n) (status_of (fst c') n)"
proof (induction rule: own_step.induct)
  case (own_shutdown s k err)
  show ?case by (simp add: Shutdown_def own_stays)
next
  case (own_leave_over s e s' out k)
  then show ?case using Leave_begin_own [of s n env] by simp
next
  case (own_leave_waits s queued s' out k)
  then show ?case using Leave_begin_own [of s n env] by simp
next
  case (own_leave_ends s k queued notified err)
  show ?case by (simp add: Leave_finish_def own_stays split: option.splits)
qed (simp_all add: leave_intent_own join_intent_own reap_own serf_Join_own broadcastJoin_own RemoveFailedNode_own)

lemma own_step_serf: "own_step env c c' \<Longrightarrow> serf_step env c c'"
  by (induction rule: own_step.induct) (auto intro: serf_step.intros member_step.intros)

lemma deliver_serf: "serf_step env (s, k) (fst (deliver env now enabled out s), k) \<or> fst (deliver env now enabled out s) = s"
  by (cases out)
     (auto simp: deliver_def event_NotifyJoin_def event_NotifyLeave_def event_NotifyUpdate_def case_prod_beta
       intro: serf_step.intros member_step.intros)

subsection \<open>What changes the data of a member\<close>

text \<open>Serf on its own neither adds a member nor changes where it is and what its tags are.\<close>

definition keeps_data :: "members_state \<Rightarrow> members_state \<Rightarrow> bool" where
  "keeps_data s s' \<longleftrightarrow> sm_members s' \<subseteq>\<^sub>m sm_members s \<and> (\<forall>l. member_data (sm_store s' l) = member_data (sm_store s l))"

lemma keeps_data_refl [simp]: "keeps_data s s" by (simp add: keeps_data_def)

lemma keeps_data_trans: "keeps_data s s' \<Longrightarrow> keeps_data s' s'' \<Longrightarrow> keeps_data s s''"
  by (auto simp: keeps_data_def intro: map_le_trans)

lemma keeps_data_fields [simp]:
  "keeps_data (s\<lparr>sm_clock := c\<rparr>) s' = keeps_data s s'" "keeps_data (s\<lparr>sm_state := st\<rparr>) s' = keeps_data s s'"
  "keeps_data s (s'\<lparr>sm_state := st\<rparr>) = keeps_data s s'" "keeps_data (s\<lparr>sm_failed := ls\<rparr>) s' = keeps_data s s'"
  "keeps_data s (s'\<lparr>sm_failed := ls\<rparr>) = keeps_data s s'" "keeps_data s (s'\<lparr>sm_left := ls\<rparr>) = keeps_data s s'"
  by (simp_all add: keeps_data_def)

lemma intents_keep_data:
  "keeps_data s (fst (snd (handleNodeLeaveIntent env lm s)))" "keeps_data s (snd (handleNodeJoinIntent jm s))"
proof -
  show "keeps_data s (fst (snd (handleNodeLeaveIntent env lm s)))"
    by (simp add: handleNodeLeaveIntent_def Let_def keeps_data_def write_member_def member_data_def
        split: option.split MemberStatus.split)
  show "keeps_data s (snd (handleNodeJoinIntent jm s))"
    by (simp add: handleNodeJoinIntent_def Let_def keeps_data_def write_member_def member_data_def
        split: option.split)
qed

lemma reap_keeps_data: "reap now timeout old s = (old', s', evs) \<Longrightarrow> keeps_data s s'"
  by (auto simp: reap_def keeps_data_def map_le_def restrict_map_def dest!: reap_from_spec split: prod.splits if_splits)

lemma round_keeps_data: "keeps_data s (fst (handleReap_round now1 rt now2 tt s))"
proof -
  obtain failed s1 evs1 where r1: "reap now1 rt (sm_failed s) s = (failed, s1, evs1)"
    by (cases "reap now1 rt (sm_failed s) s")
  obtain left s3 evs2 where r2: "reap now2 tt (sm_left s1) (s1\<lparr>sm_failed := failed\<rparr>) = (left, s3, evs2)"
    by (cases "reap now2 tt (sm_left s1) (s1\<lparr>sm_failed := failed\<rparr>)")
  from reap_keeps_data [OF r1] reap_keeps_data [OF r2] show ?thesis
    by (auto simp: handleReap_round_def r1 r2 intro: keeps_data_trans)
qed

lemma broadcastJoin_keeps_data: "keeps_data s (fst (snd (broadcastJoin env t s)))"
  using intents_keep_data(2) [of "s\<lparr>sm_clock := clock_Witness t (sm_clock s)\<rparr>"]
  by (simp add: broadcastJoin_def Let_def case_prod_beta)

lemma Leave_begin_keeps_data: "keeps_data s (fst (snd (Leave_begin env s)))"
  using intents_keep_data(1) [of "s\<lparr>sm_state := SerfLeaving, sm_clock := clock_Increment (sm_clock s)\<rparr>" env]
  by (auto simp: Leave_begin_def Let_def case_prod_beta split: SerfState.split option.splits)

lemma own_step_keeps_data: "own_step env c c' \<Longrightarrow> keeps_data (fst c) (fst c')"
proof (induction rule: own_step.induct)
  case (own_join s k joined)
  show ?case using broadcastJoin_keeps_data [of s env "sm_clock s"]
    by (auto simp: serf_Join_def case_prod_beta split: option.splits)
next
  case (own_remove_failed s k node notified)
  show ?case
    using intents_keep_data(1) [of "s\<lparr>sm_clock := clock_Increment (sm_clock s)\<rparr>" env]
    by (auto simp: RemoveFailedNode_def Let_def case_prod_beta split: option.splits)
next
  case (own_leave_over s e s' out k)
  then show ?case using Leave_begin_keeps_data [of s env] by simp
next
  case (own_leave_waits s queued s' out k)
  then show ?case using Leave_begin_keeps_data [of s env] by simp
next
  case (own_leave_ends s k queued notified err)
  show ?case by (simp add: Leave_finish_def split: option.splits)
qed (simp_all add: intents_keep_data round_keeps_data broadcastJoin_keeps_data Shutdown_def)

lemma member_live_iff:
  "member_live s n \<longleftrightarrow> (\<exists>l. sm_members s n = Some l \<and> m_Status (sm_store s l) \<in> {StatusAlive, StatusLeaving})"
  by (auto simp: member_live_def status_of_def)

lemma own_step_live:
  assumes "own_step env c c'" "members_inv (fst c)"
  shows "member_live (fst c') n = member_live (fst c) n \<and> live_data (fst c') n = live_data (fst c) n"
proof -
  have live: "member_live (fst c') n = member_live (fst c) n"
    using own_change_live [OF own_step_change [OF assms, of n]] by (simp add: member_live_def)
  moreover have "live_data (fst c') n = live_data (fst c) n"
  proof (cases "member_live (fst c') n")
    case True
    then obtain l where "sm_members (fst c') n = Some l" by (auto simp: member_live_iff)
    moreover from this have "sm_members (fst c) n = Some l"
      using own_step_keeps_data [OF assms(1)] by (auto simp: keeps_data_def map_le_def dom_def)
    ultimately show ?thesis
      using own_step_keeps_data [OF assms(1)] live by (simp add: live_data_def keeps_data_def)
  qed (use live in \<open>simp add: live_data_def\<close>)
  ultimately show ?thesis by simp
qed

subsection \<open>What a notification does\<close>

lemma status_of_other:
  assumes "members_inv s" "n' \<noteq> n"
    and "sm_members s' n' = sm_members s n'" "\<And>l. l \<noteq> l0 \<Longrightarrow> sm_store s' l = sm_store s l"
    and "sm_members s n = Some l0 \<or> l0 = sm_next s"
  shows "member_live s' n' = member_live s n' \<and> live_data s' n' = live_data s n'"
proof -
  have inv: "lists_inv (sm_store s) (sm_members s) (sm_next s) (sm_failed s) (sm_left s)"
    using assms(1) by (simp add: members_inv_def)
  have "l \<noteq> l0" if "sm_members s n' = Some l" for l
    using assms(2,5) lists_invD(1,2) [OF inv that] lists_invD(1) [OF inv, of n l0] that by auto
  with assms(3,4) show ?thesis by (auto simp: member_live_iff live_data_def)
qed

lemma join_state:
  obtains l where
    "sm_members (fst (handleNodeJoin env n s)) = (sm_members s)(n_Name n \<mapsto> l)"
    "\<And>k. k \<noteq> l \<Longrightarrow> sm_store (fst (handleNodeJoin env n s)) k = sm_store s k"
    "sm_members s (n_Name n) = Some l \<or> l = sm_next s"
    "m_Status (sm_store (fst (handleNodeJoin env n s)) l) \<in> {StatusAlive, StatusLeaving}"
    "member_data (sm_store (fst (handleNodeJoin env n s)) l) = shown env (node_data n)"
proof (cases "sm_members s (n_Name n)")
  case None
  have "member_data (new_member env n s) = shown env (node_data n)"
    by (simp add: new_member_def Let_def member_data_def shown_def node_data_def split: option.split)
  with None new_member_status [of env n s] show ?thesis
    by (intro that [of "sm_next s"]) (auto simp: handleNodeJoin_def Let_def write_member_def set_versions_def member_data_def)
next
  case (Some l)
  then show ?thesis
    by (intro that [of l])
       (auto simp: handleNodeJoin_def Let_def write_member_def set_versions_def member_data_def shown_def node_data_def
         fun_upd_idem)
qed

lemma deliver_live:
  assumes inv: "members_inv s" and t: "track n (member_live s n) [out] = Some b"
    and c: "live_data s n = map_option (shown env) c"
  shows "member_live (fst (deliver env now enabled out s)) n = b
    \<and> live_data (fst (deliver env now enabled out s)) n = map_option (shown env) (reported n c [out])"
proof (cases out)
  case (NotifyJoin x)
  obtain l where j: "sm_members (fst (handleNodeJoin env x s)) = (sm_members s)(n_Name x \<mapsto> l)"
    "\<And>k. k \<noteq> l \<Longrightarrow> sm_store (fst (handleNodeJoin env x s)) k = sm_store s k"
    "sm_members s (n_Name x) = Some l \<or> l = sm_next s"
    "m_Status (sm_store (fst (handleNodeJoin env x s)) l) \<in> {StatusAlive, StatusLeaving}"
    "member_data (sm_store (fst (handleNodeJoin env x s)) l) = shown env (node_data x)"
    by (rule join_state [of env x s]) (rule that)
  show ?thesis
  proof (cases "n = n_Name x")
    case True
    with j t NotifyJoin show ?thesis
      by (auto simp: deliver_def event_NotifyJoin_def case_prod_beta member_live_iff live_data_def split: if_splits)
  next
    case False
    with status_of_other [OF inv False _ j(2,3)] j(1) t c NotifyJoin show ?thesis
      by (simp add: deliver_def event_NotifyJoin_def case_prod_beta)
  qed
next
  case (NotifyLeave x)
  show ?thesis
  proof (cases "sm_members s (n_Name x)")
    case None
    with t c NotifyLeave show ?thesis
      by (auto simp: deliver_def event_NotifyLeave_def handleNodeLeave_def member_live_iff live_data_def split: if_splits)
  next
    case (Some l)
    have m: "sm_members (fst (handleNodeLeave now x s)) = sm_members s"
      and st: "\<And>k. k \<noteq> l \<Longrightarrow> sm_store (fst (handleNodeLeave now x s)) k = sm_store s k"
      and left: "m_Status (sm_store (fst (handleNodeLeave now x s)) l) \<notin> {StatusAlive, StatusLeaving}"
      using Some by (auto simp: handleNodeLeave_def Let_def write_member_def split: MemberStatus.split)
    show ?thesis
    proof (cases "n = n_Name x")
      case True
      with Some m left t NotifyLeave show ?thesis
        by (auto simp: deliver_def event_NotifyLeave_def case_prod_beta member_live_iff live_data_def split: if_splits)
    next
      case False
      with status_of_other [OF inv False _ st] m Some t c NotifyLeave show ?thesis
        by (simp add: deliver_def event_NotifyLeave_def case_prod_beta)
    qed
  qed
next
  case (NotifyUpdate x)
  show ?thesis
  proof (cases "sm_members s (n_Name x)")
    case None
    with t c NotifyUpdate show ?thesis
      by (auto simp: deliver_def event_NotifyUpdate_def handleNodeUpdate_def member_live_iff live_data_def)
  next
    case (Some l)
    have m: "sm_members (fst (handleNodeUpdate env x s)) = sm_members s"
      and st: "\<And>k. k \<noteq> l \<Longrightarrow> sm_store (fst (handleNodeUpdate env x s)) k = sm_store s k"
      and new: "m_Status (sm_store (fst (handleNodeUpdate env x s)) l) = m_Status (sm_store s l)"
        "member_data (sm_store (fst (handleNodeUpdate env x s)) l) = shown env (node_data x)"
      using Some by (auto simp: handleNodeUpdate_def Let_def write_member_def member_data_def shown_def node_data_def)
    show ?thesis
    proof (cases "n = n_Name x")
      case True
      with Some m new t c NotifyUpdate show ?thesis
        by (cases c) (auto simp: deliver_def event_NotifyUpdate_def case_prod_beta member_live_iff live_data_def split: if_splits)
    next
      case False
      with status_of_other [OF inv False _ st] m Some t c NotifyUpdate show ?thesis
        by (simp add: deliver_def event_NotifyUpdate_def case_prod_beta)
    qed
  qed
qed (use t c in \<open>simp_all add: deliver_def\<close>)

subsection \<open>Both together\<close>

text \<open>The notifications on their way are the difference between what Serf shows and what memberlist knows.\<close>

definition pair_inv :: "members_env \<Rightarrow> node_pair \<Rightarrow> bool" where
  "pair_inv env p \<longleftrightarrow>
     swim_inv (sv_NodeName env) (np_memberlist p) \<and> members_inv (np_serf p)
     \<and> (\<forall>n. track n (member_live (np_serf p) n) (np_pending p) = Some (present (np_memberlist p) n))
     \<and> (\<forall>n. \<exists>c. live_data (np_serf p) n = map_option (shown env) c
          \<and> reported n c (np_pending p) = known (np_memberlist p) n)"

lemma pair_step_inv:
  assumes "pair_step env p p'" "pair_inv env p"
  shows "pair_inv env p'"
  using assms(1)
proof cases
  case (swim out m)
  note good = step_good [OF swim(2)]
  have "swim_inv (sv_NodeName env) m" using good assms(2) by (simp add: pair_inv_def)
  moreover have "track n (member_live (np_serf p) n) (np_pending p @ out) = Some (present m n)" for n
    using good assms(2) by (simp add: pair_inv_def track_append)
  moreover have "\<exists>c. live_data (np_serf p) n = map_option (shown env) c \<and> reported n c (np_pending p @ out) = known m n" for n
  proof -
    from assms(2) obtain c where "live_data (np_serf p) n = map_option (shown env) c"
      "reported n c (np_pending p) = known (np_memberlist p) n" by (auto simp: pair_inv_def)
    then show ?thesis using good assms(2) by (intro exI [of _ c]) (simp add: pair_inv_def)
  qed
  ultimately show ?thesis using swim(1) assms(2) by (simp add: pair_inv_def)
next
  case (notify out outs now enabled)
  let ?s = "fst (deliver env now enabled out (np_serf p))"
  have inv: "members_inv (np_serf p)" using assms(2) by (simp add: pair_inv_def)
  have "members_inv ?s"
    using deliver_serf [of env "np_serf p" 0 now enabled out] serf_step_inv inv by fastforce
  moreover have "track n (member_live ?s n) outs = Some (present (np_memberlist p) n)
    \<and> (\<exists>c. live_data ?s n = map_option (shown env) c \<and> reported n c outs = known (np_memberlist p) n)" for n
  proof -
    from assms(2) have t: "track n (member_live (np_serf p) n) ([out] @ outs) = Some (present (np_memberlist p) n)"
      by (simp add: pair_inv_def notify(2))
    then obtain b where b: "track n (member_live (np_serf p) n) [out] = Some b"
      "track n b outs = Some (present (np_memberlist p) n)"
      unfolding track_append by (auto split: option.splits)
    from assms(2) obtain c where c: "live_data (np_serf p) n = map_option (shown env) c"
      "reported n c ([out] @ outs) = known (np_memberlist p) n" by (auto simp: pair_inv_def notify(2))
    from deliver_live [OF inv b(1) c(1), of now enabled] b(2) c(2) show ?thesis
      unfolding reported_append by auto
  qed
  ultimately show ?thesis using notify(1) assms(2) by (simp add: pair_inv_def)
next
  case (own s k)
  have inv: "members_inv (np_serf p)" using assms(2) by (simp add: pair_inv_def)
  then have "members_inv s" using serf_step_inv [OF own_step_serf [OF own(2)]] by simp
  then show ?thesis
    using own(1) assms(2) own_step_live [OF own(2)] inv by (simp add: pair_inv_def)
qed

lemma live_data_init: "member_live ((members_init n)\<lparr>sm_clock := c\<rparr>) k = False" "live_data ((members_init n)\<lparr>sm_clock := c\<rparr>) k = None"
  by (simp_all add: member_live_iff live_data_def members_init_def)

lemma pair_reach_inv: "pair_reach env n p \<Longrightarrow> pair_inv env p"
proof (induction rule: pair_reach.induct)
  case (created senv a m out c)
  have "members_inv ((members_init n)\<lparr>sm_clock := c\<rparr>)"
    using members_inv_init [of n] by (simp add: members_inv_def)
  then show ?case using created start_good [OF created(2)]
    by (auto simp: pair_inv_def live_data_init)
qed (rule pair_step_inv)

lemma Members_known:
  assumes "swim_inv me m"
  shows "known m k = Some d \<longleftrightarrow> (\<exists>nd \<in> set (memberlist_Members m). n_Name nd = k \<and> node_data nd = d)"
proof -
  have inv: "set (mb_nodes m) = dom (mb_map m)" "\<And>n st. mb_map m n = Some st \<Longrightarrow> n_Name st = n"
    using assms by (auto simp: swim_inv_def)
  have "nd \<in> set (memberlist_Members m) \<longleftrightarrow>
      (\<exists>n st. mb_map m n = Some st \<and> ns_State st \<noteq> stateDead \<and> nd = Node.truncate st)"
    (is "_ \<longleftrightarrow> ?listed nd") for nd
    unfolding memberlist_Members_def using inv(1) by (auto simp: is_dead_def image_iff split: option.splits)
  then have "(\<exists>nd \<in> set (memberlist_Members m). n_Name nd = k \<and> node_data nd = d)
      \<longleftrightarrow> (\<exists>n st. mb_map m n = Some st \<and> ns_State st \<noteq> stateDead
            \<and> n_Name (Node.truncate st) = k \<and> node_data (Node.truncate st) = d)"
    (is "?lhs \<longleftrightarrow> ?rhs")
  proof -
    assume l: "\<And>nd. nd \<in> set (memberlist_Members m) \<longleftrightarrow> ?listed nd"
    show ?thesis
    proof
      assume ?lhs
      then obtain nd where "?listed nd" "n_Name nd = k" "node_data nd = d" using l by blast
      then show ?rhs by blast
    next
      assume ?rhs
      then obtain n st where "mb_map m n = Some st" "ns_State st \<noteq> stateDead"
        "n_Name (Node.truncate st) = k" "node_data (Node.truncate st) = d" by blast
      moreover from this have "Node.truncate st \<in> set (memberlist_Members m)" using l by blast
      ultimately show ?lhs by blast
    qed
  qed
  also have "\<dots> \<longleftrightarrow> (\<exists>st. mb_map m k = Some st \<and> ns_State st \<noteq> stateDead \<and> node_data st = d)"
    using inv(2) by (auto simp del: split_paired_Ex)
  finally show ?thesis
    by (auto simp: known_def known_of_def alive_or_suspect_def bind_eq_Some_conv)
qed

lemma live_data_Some:
  "live_data s k = Some d \<longleftrightarrow>
     (\<exists>l. sm_members s k = Some l \<and> m_Status (sm_store s l) \<in> {StatusAlive, StatusLeaving} \<and> member_data (sm_store s l) = d)"
  by (auto simp: live_data_def member_live_iff)

subsection \<open>Properties\<close>

text \<open>C12: Serf shows what memberlist knows. Whatever memberlist hears, Serf is told of intents, reaps or is asked to
  do, in any order: once all notifications have been delivered, the members that are alive or leaving
  are those that memberlist lists, with their addresses, ports and decoded tags.\<close>

theorem serf_shows_memberlist:
  assumes "pair_reach env n p" "np_pending p = []"
  shows "(\<exists>l. sm_members (np_serf p) k = Some l \<and> m_Status (sm_store (np_serf p) l) \<in> {StatusAlive, StatusLeaving}
        \<and> m_Addr (sm_store (np_serf p) l) = addr \<and> m_Port (sm_store (np_serf p) l) = port
        \<and> m_Tags (sm_store (np_serf p) l) = tags)
    \<longleftrightarrow> (\<exists>nd \<in> set (memberlist_Members (np_memberlist p)). n_Name nd = k \<and> n_Addr nd = addr \<and> n_Port nd = port
        \<and> decodeTags env (n_Meta nd) = tags)"
proof -
  have inv: "pair_inv env p" by (rule pair_reach_inv [OF assms(1)])
  then have "live_data (np_serf p) k = map_option (shown env) (known (np_memberlist p) k)"
    using assms(2) by (auto simp: pair_inv_def)
  moreover have listed: "known (np_memberlist p) k = Some d \<longleftrightarrow>
      (\<exists>nd \<in> set (memberlist_Members (np_memberlist p)). n_Name nd = k \<and> node_data nd = d)" for d
    by (rule Members_known [of "sv_NodeName env"]) (use inv in \<open>simp add: pair_inv_def\<close>)
  ultimately have "live_data (np_serf p) k = Some (addr, port, tags) \<longleftrightarrow>
      (\<exists>d. known (np_memberlist p) k = Some d \<and> shown env d = (addr, port, tags))"
    by (simp add: map_option_eq_Some del: split_paired_Ex)
  also have "\<dots> \<longleftrightarrow>
      (\<exists>nd \<in> set (memberlist_Members (np_memberlist p)). n_Name nd = k \<and> shown env (node_data nd) = (addr, port, tags))"
    unfolding listed by blast
  finally show ?thesis by (auto simp: live_data_Some member_data_def shown_def node_data_def)
qed

text \<open>The notifications can always be delivered: nothing but their number stands between the two.\<close>

lemma pending_delivered:
  "pair_reach env n p \<Longrightarrow> \<exists>p'. pair_reach env n p' \<and> np_pending p' = [] \<and> np_memberlist p' = np_memberlist p"
proof (induction "np_pending p" arbitrary: p)
  case Nil
  then show ?case by (intro exI [of _ p]) simp
next
  case (Cons out outs)
  have "pair_reach env n (p\<lparr>np_pending := outs, np_serf := fst (deliver env 0 False out (np_serf p))\<rparr>)"
    by (rule pair_reach.steps [OF Cons.prems pair_step.notify]) (simp add: Cons.hyps(2) [symmetric])
  from Cons.hyps(1) [OF _ this] show ?case by simp
qed

text \<open>
  What a node says of its protocol versions is not followed: a node that comes back with other
  versions before it is declared dead is announced neither as joined nor, if its tags are the same,
  as updated; and an update leaves the versions as they were.
\<close>

lemma versions_not_followed:
  "ns_State st = stateAlive \<Longrightarrow> al_Meta a = n_Meta st \<Longrightarrow> alive_notify st (accept_alive senv a st) = []"
  "sm_members s (n_Name n) = Some l \<Longrightarrow>
     m_ProtocolCur (sm_store (fst (handleNodeUpdate env n s)) l) = m_ProtocolCur (sm_store s l)"
  by (simp_all add: alive_notify_def handleNodeUpdate_def Let_def write_member_def)

subsection \<open>A concrete run\<close>

definition demo_joint :: node_pair where
  "demo_joint = \<lparr>np_memberlist = demo_cluster stateAlive, np_pending = [], np_serf = demo_pair, np_leaving = 0\<rparr>"

lemma demo_truncate: "Node.truncate (demo_view k i st) = demo_member k"
  by (simp add: Node.truncate_def demo_view_def demo_member_def)

lemma demo_joint_reach: "pair_reach demo_serf 4 demo_joint"
proof -
  have name: "sw_Name demo_swim = sv_NodeName demo_serf" by (simp add: demo_swim_def demo_serf_def)
  let ?m = "\<lparr>mb_map = [''n1'' \<mapsto> demo_view ''n1'' 1 stateAlive], mb_nodes = [''n1''], mb_incarnation = 1, mb_leave = False\<rparr>"
  let ?o1 = "[Gossip (AliveMsg (demo_alive ''n1'' 1)), NotifyJoin (demo_member ''n1'')]"
  let ?o2 = "[Gossip (AliveMsg (demo_alive ''n2'' 2)), NotifyJoin (demo_member ''n2'')]"
  have "pair_reach demo_serf 4 \<lparr>np_memberlist = ?m, np_pending = ?o1, np_serf = members_init 4, np_leaving = 0\<rparr>"
    using pair_reach.created [OF name demo_start, of 4 1] by (simp add: demo_truncate demo_serf_def members_init_def)
  from pair_reach.steps [OF this pair_step.swim [OF swim_step.alive [where env = demo_swim]]] name demo_joined
  have "pair_reach demo_serf 4 \<lparr>np_memberlist = demo_cluster stateAlive, np_pending = ?o1 @ ?o2,
      np_serf = members_init 4, np_leaving = 0\<rparr>"
    by (simp add: demo_truncate)
  from pair_reach.steps [OF this pair_step.notify [where now = 0 and enabled = False]]
  have "pair_reach demo_serf 4 \<lparr>np_memberlist = demo_cluster stateAlive, np_pending = tl ?o1 @ ?o2,
      np_serf = members_init 4, np_leaving = 0\<rparr>"
    by (simp add: deliver_def)
  from pair_reach.steps [OF this pair_step.notify [where now = 0 and enabled = False]]
  have "pair_reach demo_serf 4 \<lparr>np_memberlist = demo_cluster stateAlive, np_pending = ?o2,
      np_serf = fst (handleNodeJoin demo_serf (demo_member ''n1'') (members_init 4)), np_leaving = 0\<rparr>"
    by (simp add: deliver_def event_NotifyJoin_def case_prod_beta)
  from pair_reach.steps [OF this pair_step.notify [where now = 0 and enabled = False]]
  have "pair_reach demo_serf 4 \<lparr>np_memberlist = demo_cluster stateAlive, np_pending = tl ?o2,
      np_serf = fst (handleNodeJoin demo_serf (demo_member ''n1'') (members_init 4)), np_leaving = 0\<rparr>"
    by (simp add: deliver_def)
  from pair_reach.steps [OF this pair_step.notify [where now = 0 and enabled = False]]
  show ?thesis
    by (simp add: deliver_def event_NotifyJoin_def case_prod_beta demo_joint_def demo_pair_def)
qed

lemma serf_shows_memberlist_witness:
  "(\<exists>l. sm_members (np_serf demo_joint) ''n2'' = Some l
        \<and> m_Status (sm_store (np_serf demo_joint) l) \<in> {StatusAlive, StatusLeaving}
        \<and> m_Addr (sm_store (np_serf demo_joint) l) = [127, 0, 0, 1] \<and> m_Port (sm_store (np_serf demo_joint) l) = 7946
        \<and> m_Tags (sm_store (np_serf demo_joint) l) = [''role'' \<mapsto> []])
    \<longleftrightarrow> (\<exists>nd \<in> set (memberlist_Members (np_memberlist demo_joint)). n_Name nd = ''n2'' \<and> n_Addr nd = [127, 0, 0, 1]
        \<and> n_Port nd = 7946 \<and> decodeTags demo_serf (n_Meta nd) = [''role'' \<mapsto> []])"
  by (rule serf_shows_memberlist [OF demo_joint_reach]) (simp add: demo_joint_def)

end
