(* ===== verification/Upkeep.thy ===== *)
theory Upkeep
  imports Startup Delegates SnapshotProps SerfSync
begin

section \<open>Creating and keeping up a node (serf/serf.go, serf/config.go)\<close>

text \<open>
  \<open>Create\<close> wires the parts together and takes up the state of a snapshot; the tags of a node travel
  as the meta data of memberlist; failed members are contacted again, and after a restart the nodes
  of the snapshot. The random numbers, the codec of the tags and the exchange of states with
  another node are arguments.
\<close>

subsection \<open>Tags\<close>

text \<open>\<open>None\<close> is a panic: the encoder failed.\<close>

definition encodeTags :: "byte \<Rightarrow> ((string \<rightharpoonup> string) \<Rightarrow> bytes option) \<Rightarrow> (string \<rightharpoonup> string) \<Rightarrow> bytes option" where
  "encodeTags protocol encode tags =
     (if protocol < 3 then Some (string_bytes (case tags ''role'' of None \<Rightarrow> [] | Some role \<Rightarrow> role))
      else map_option (\<lambda>b. tagMagicByte # b) (encode tags))"

text \<open>The meta data that memberlist asks the delegate for; too much of it is a panic.\<close>

definition NodeMeta ::
  "byte \<Rightarrow> ((string \<rightharpoonup> string) \<Rightarrow> bytes option) \<Rightarrow> (string \<rightharpoonup> string) \<Rightarrow> nat \<Rightarrow> bytes option" where
  "NodeMeta protocol encode tags limit =
     (case encodeTags protocol encode tags of
        None \<Rightarrow> None
      | Some b \<Rightarrow> if limit < length b then None else Some b)"

subsection \<open>Create\<close>

definition SerfProtocolMin :: byte where "SerfProtocolMin = 2"
definition SerfProtocolMax :: byte where "SerfProtocolMax = 4"

definition ProtocolVersionMap :: "byte \<Rightarrow> byte" where
  "ProtocolVersionMap v = (if v = 2 \<or> v = 3 \<or> v = 4 then 2 else 0)"

record serf_config =
  sf_NodeName :: string
  sf_Tags :: "(string \<rightharpoonup> string) option"
  sf_ProtocolVersion :: byte
  sf_hasEventCh :: bool
  sf_CoalescePeriod :: int
  sf_QuiescentPeriod :: int
  sf_UserCoalescePeriod :: int
  sf_UserQuiescentPeriod :: int
  sf_RecentIntentBuffer :: nat
  sf_EventBuffer :: nat
  sf_QueryBuffer :: nat
  sf_SnapshotPath :: string
  sf_hasMerge :: bool
  sf_memberlist :: ml_config

definition conf_Init :: "serf_config \<Rightarrow> serf_config" where
  "conf_Init c = c\<lparr>sf_Tags := Some (case sf_Tags c of None \<Rightarrow> Map.empty | Some t \<Rightarrow> t)\<rparr>"

text \<open>What an event passes on its way to the application, in this order.\<close>

datatype stage = SnapshotStage | InternalQueryStage | UserCoalesceStage | MemberCoalesceStage

definition event_stages :: "serf_config \<Rightarrow> stage list" where
  "event_stages c =
     (if sf_SnapshotPath c \<noteq> [] then [SnapshotStage] else []) @ [InternalQueryStage]
     @ (if 0 < sf_UserCoalescePeriod c \<and> 0 < sf_UserQuiescentPeriod c \<and> sf_hasEventCh c then [UserCoalesceStage] else [])
     @ (if 0 < sf_CoalescePeriod c \<and> 0 < sf_QuiescentPeriod c \<and> sf_hasEventCh c then [MemberCoalesceStage] else [])"

text \<open>The clocks start at 1 and witness those of the snapshot, if there is one.\<close>

definition restored :: "snap_view option \<Rightarrow> (snap_view \<Rightarrow> ltime) \<Rightarrow> ltime" where
  "restored snap f = clock_Witness (case snap of None \<Rightarrow> 0 | Some v \<Rightarrow> f v) (clock_Increment 0)"

definition created_serf_node :: "serf_config \<Rightarrow> snap_view option \<Rightarrow> serf_node" where
  "created_serf_node c snap =
     \<lparr>sn_members = (members_init (sf_RecentIntentBuffer c))\<lparr>sm_clock := restored snap sv_lastClock\<rparr>,
      sn_events = Create_events (sf_EventBuffer c) snap,
      sn_queries = Create_queries (sf_QueryBuffer c) snap,
      sn_running = Map.empty\<rparr>"

text \<open>The configuration that memberlist gets.\<close>

definition memberlist_conf :: "serf_config \<Rightarrow> ((string \<rightharpoonup> string) \<Rightarrow> bytes option) \<Rightarrow> ml_config" where
  "memberlist_conf c encode =
     (sf_memberlist c)\<lparr>mc_Name := sf_NodeName c, mc_ProtocolVersion := ProtocolVersionMap (sf_ProtocolVersion c),
        mc_DelegateMin := SerfProtocolMin, mc_DelegateMax := SerfProtocolMax, mc_DelegateVersion := sf_ProtocolVersion c,
        mc_NodeMeta := Some (NodeMeta (sf_ProtocolVersion c) encode (the (sf_Tags c)))\<rparr>"

datatype serf_error = SerfProtocolTooLow | SerfProtocolTooHigh | SerfTagsTooLong | SnapshotFailed string | MemberlistFailed create_error

record serf_instance =
  si_conf :: serf_config
  si_stages :: "stage list"
  si_node :: serf_node
  si_memberlist :: ml_instance
  si_previous :: "(string \<times> string) list"

text \<open>
  \<open>snapshot\<close> is the error of the snapshotter or the view it recovered, \<open>order\<close> the random order of
  its nodes. \<open>Panics\<close> covers tags that cannot be encoded.
\<close>

definition Serf_Create ::
  "((string \<rightharpoonup> string) \<Rightarrow> bytes option) \<Rightarrow> (string, snap_view) result \<Rightarrow> ((string \<rightharpoonup> string) \<Rightarrow> string list) \<Rightarrow>
     machine \<Rightarrow> intervals \<Rightarrow> swim_env \<Rightarrow> serf_config \<Rightarrow> (serf_error, serf_instance \<times> swim_output list) result run" where
  "Serf_Create encode snapshot order h iv env conf0 =
     (let conf = conf_Init conf0 in
      if sf_ProtocolVersion conf < SerfProtocolMin then Returns (Inl SerfProtocolTooLow)
      else if SerfProtocolMax < sf_ProtocolVersion conf then Returns (Inl SerfProtocolTooHigh)
      else
        (case encodeTags (sf_ProtocolVersion conf) encode (the (sf_Tags conf)) of
           None \<Rightarrow> Panics
         | Some meta \<Rightarrow>
             if MetaMaxSize < length meta then Returns (Inl SerfTagsTooLong)
             else
               (case (if sf_SnapshotPath conf = [] then Inr None
                      else case snapshot of Inl e \<Rightarrow> Inl e | Inr v \<Rightarrow> Inr (Some v)) of
                  Inl e \<Rightarrow> Returns (Inl (SnapshotFailed e))
                | Inr snap \<Rightarrow>
                    (case Memberlist_Create h iv env (memberlist_conf conf encode) of
                       Panics \<Rightarrow> Panics
                     | Hangs \<Rightarrow> Hangs
                     | Returns (Inl e) \<Rightarrow> Returns (Inl (MemberlistFailed e))
                     | Returns (Inr (ml, out)) \<Rightarrow>
                         Returns (Inr (\<lparr>si_conf = conf, si_stages = event_stages conf,
                           si_node = created_serf_node conf snap, si_memberlist = ml,
                           si_previous = (case snap of None \<Rightarrow> []
                             | Some v \<Rightarrow> map (\<lambda>n. (n, the (sv_aliveNodes v n))) (order (sv_aliveNodes v)))\<rparr>, out))))))"

subsection \<open>Changing the tags\<close>

text \<open>
  \<open>SetTags\<close> changes the configuration, which the delegate of memberlist reads when it is asked for the meta data,
  and has memberlist announce it. \<open>notified\<close> says whether the broadcast is sent before the timeout.
  The tags stay changed if it is not.
\<close>

datatype set_tags_error = TagsTooLong | UpdateFailed string

definition SetTags ::
  "((string \<rightharpoonup> string) \<Rightarrow> bytes option) \<Rightarrow> swim_env \<Rightarrow> bool \<Rightarrow> (string \<rightharpoonup> string) \<Rightarrow> serf_instance \<Rightarrow>
     (set_tags_error option \<times> serf_instance \<times> swim_output list) run" where
  "SetTags encode env notified tags i =
     (let conf = si_conf i; ml = si_memberlist i; protocol = sf_ProtocolVersion conf in
      case encodeTags protocol encode tags of
        None \<Rightarrow> Panics
      | Some b \<Rightarrow>
          if MetaMaxSize < length b then Returns (Some TagsTooLong, i, [])
          else
            (let i1 = i\<lparr>si_conf := conf\<lparr>sf_Tags := Some tags\<rparr>\<rparr>;
                 ml1 = ml\<lparr>mi_conf := (mi_conf ml)\<lparr>mc_NodeMeta := Some (NodeMeta protocol encode tags)\<rparr>\<rparr>
             in case Memberlist_UpdateNode env notified ml1 of
                  Returns (err, ml2, out) \<Rightarrow> Returns (map_option UpdateFailed err, i1\<lparr>si_memberlist := ml2\<rparr>, out)
                | Panics \<Rightarrow> Panics
                | Hangs \<Rightarrow> Hangs))"

subsection \<open>Contacting nodes again\<close>

text \<open>\<open>join\<close> is memberlist's \<open>Join\<close> of one address.\<close>

fun handleRejoin ::
  "string \<Rightarrow> (string \<Rightarrow> 's \<Rightarrow> nat \<times> join_error option \<times> 's) \<Rightarrow> (string \<times> string) list \<Rightarrow> 's \<Rightarrow> bool \<times> 's" where
  "handleRejoin me join [] s = (False, s)"
| "handleRejoin me join ((name, addr) # previous) s =
     (if name = me then handleRejoin me join previous s
      else
        (case join addr s of
           (_, None, s') \<Rightarrow> (True, s')
         | (_, Some e, s') \<Rightarrow> handleRejoin me join previous s'))"

text \<open>
  The address to join, if any. \<open>forgo\<close> says whether the random \<open>float32\<close> exceeds the quotient
  of its arguments, \<open>r\<close> is the random \<open>uint32\<close>. There are fewer than \<open>2 ^ 32\<close> failed members.
\<close>

definition reconnect :: "(int \<Rightarrow> int \<Rightarrow> bool) \<Rightarrow> 32 word \<Rightarrow> members_state \<Rightarrow> string option" where
  "reconnect forgo r s =
     (let n = length (sm_failed s) in
      if n = 0 then None
      else
        (let numAlive = int (card (dom (sm_members s))) - int n - int (length (sm_left s));
             numAlive' = (if numAlive = 0 then 1 else numAlive)
         in if forgo (int n) numAlive' then None
            else (let mem = sm_store s (sm_failed s ! (unat r mod n))
                  in Some (TCPAddr_String (m_Addr mem) (m_Port mem)))))"

subsection \<open>Queues and statistics\<close>

definition checkQueueDepth_round ::
  "nat \<Rightarrow> 'b limitedBroadcast list \<Rightarrow> 'b limitedBroadcast list \<times> 'b list" where
  "checkQueueDepth_round maxQueueDepth q =
     (if maxQueueDepth < NumQueued q then queue_Prune maxQueueDepth q else (q, []))"

definition Stats :: "serf_node \<Rightarrow> serf_queues \<Rightarrow> bool \<Rightarrow> (string \<times> string) list" where
  "Stats node q encrypted =
     [(''members'', show_nat (card (dom (sm_members (sn_members node))))),
      (''failed'', show_nat (length (sm_failed (sn_members node)))),
      (''left'', show_nat (length (sm_left (sn_members node)))),
      (''member_time'', show_nat (unat (sm_clock (sn_members node)))),
      (''event_time'', show_nat (unat (es_clock (sn_events node)))),
      (''query_time'', show_nat (unat (qy_clock (sn_queries node)))),
      (''intent_queue'', show_nat (NumQueued (gq_intents q))),
      (''event_queue'', show_nat (NumQueued (gq_events q))),
      (''query_queue'', show_nat (NumQueued (gq_queries q))),
      (''encrypted'', if encrypted then ''true'' else ''false'')]"

subsection \<open>Tags on their way\<close>

text \<open>What \<open>encodeTags\<close> writes \<open>decodeTags\<close> reads, from protocol 3 on; before, the role is all that is left.\<close>

definition tag_codec :: "((string \<rightharpoonup> string) \<Rightarrow> bytes option) \<Rightarrow> members_env \<Rightarrow> bool" where
  "tag_codec encode env \<longleftrightarrow> (\<forall>tags b. encode tags = Some b \<longrightarrow> sv_decode_map env b = tags)"

lemma tags_roundtrip:
  assumes "tag_codec encode env" "encodeTags protocol encode tags = Some b" "3 \<le> protocol"
  shows "decodeTags env b = tags"
  using assms by (auto simp: encodeTags_def decodeTags_def tag_codec_def tagMagicByte_def split: if_splits)

lemma role_roundtrip:
  assumes "protocol < 3" "tags ''role'' = Some role" "string_bytes role = [] \<or> hd (string_bytes role) \<noteq> tagMagicByte"
  shows "map_option (decodeTags env) (encodeTags protocol encode tags) = Some [''role'' \<mapsto> role]"
  using assms by (auto simp: encodeTags_def decodeTags_def)

text \<open>A role that starts with the byte that marks tags is taken for tags.\<close>

lemma role_with_magic_byte:
  assumes "protocol < 3" "tags ''role'' = Some (bytes_string (tagMagicByte # b))"
  shows "map_option (decodeTags env) (encodeTags protocol encode tags) = Some (sv_decode_map env b)"
  using assms by (simp add: encodeTags_def decodeTags_def)

text \<open>What an accepted \<open>SetTags\<close> has done: the configuration has the tags, and memberlist was updated with them.\<close>

lemma SetTags_accepted:
  assumes "SetTags encode senv notified tags i = Returns (err, i', out)" "err \<noteq> Some TagsTooLong"
  obtains meta vsn where "encodeTags (sf_ProtocolVersion (si_conf i)) encode tags = Some meta" "length vsn = 6"
    "UpdateNode senv meta vsn (mi_members (si_memberlist i)) = Returns (mi_members (si_memberlist i'), out)"
    "sf_Tags (si_conf i') = Some tags"
proof -
  let ?protocol = "sf_ProtocolVersion (si_conf i)" and ?ml = "si_memberlist i"
  let ?conf = "(mi_conf ?ml)\<lparr>mc_NodeMeta := Some (NodeMeta ?protocol encode tags)\<rparr>"
  obtain meta where meta: "encodeTags ?protocol encode tags = Some meta" "length meta \<le> MetaMaxSize"
    using assms by (auto simp: SetTags_def Let_def not_less split: option.splits if_splits)
  have local: "local_meta ?conf = Some meta"
    using meta by (simp add: local_meta_def NodeMeta_def)
  obtain m where m: "UpdateNode senv meta (local_versions ?conf) (mi_members ?ml) = Returns (m, out)"
    "mi_members (si_memberlist i') = m" "sf_Tags (si_conf i') = Some tags"
    using assms(1) meta local
    by (auto simp: SetTags_def Let_def Memberlist_UpdateNode_def not_less [symmetric] split: run.splits)
  show thesis by (rule that [OF meta(1) _ m(1) [folded m(2)] m(3)]) (simp add: local_versions_def)
qed

text \<open>Tags that the update of memberlist did not get out stay in the configuration.\<close>

lemma failed_SetTags_keeps_tags:
  assumes "SetTags encode senv notified tags i = Returns (Some (UpdateFailed e), i', out)"
  shows "sf_Tags (si_conf i') = Some tags \<and> e = ''timeout waiting for update broadcast''"
proof -
  obtain meta vsn where "sf_Tags (si_conf i') = Some tags"
    by (rule SetTags_accepted [OF assms]) simp_all
  moreover have "e = ''timeout waiting for update broadcast''"
    using assms
    by (simp add: SetTags_def Let_def Memberlist_UpdateNode_def split: option.splits if_splits run.splits) (simp split: prod.splits if_splits)
  ultimately show ?thesis ..
qed

subsection \<open>A node that was created\<close>

lemma restored_greater:
  "(\<And>v. snap = Some v \<Longrightarrow> f v \<noteq> - 1) \<Longrightarrow> 0 < restored snap f \<and> (\<forall>v. snap = Some v \<longrightarrow> f v < restored snap f)"
proof -
  assume f: "\<And>v. snap = Some v \<Longrightarrow> f v \<noteq> - 1"
  define t where "t = (case snap of None \<Rightarrow> 0 | Some v \<Rightarrow> f v)"
  have "t \<noteq> - 1" using f by (auto simp: t_def split: option.split)
  then have "t < restored snap f" using clock_Witness_greater by (simp add: restored_def t_def)
  moreover from this have "0 < restored snap f" by (rule order_le_less_trans [rotated]) simp
  ultimately show ?thesis by (auto simp: t_def)
qed

lemma created_node_ok:
  assumes "\<And>v. snap = Some v \<Longrightarrow> sv_lastClock v \<noteq> - 1" "0 < sf_EventBuffer c" "sf_EventBuffer c < 2 ^ 64"
  shows "node_ok (created_serf_node c snap)"
proof -
  have "times_ok ((members_init k)\<lparr>sm_clock := restored snap sv_lastClock\<rparr>)" for k
    using restored_greater [of snap sv_lastClock] assms(1) by (auto simp: times_ok_def members_init_def)
  moreover have "events_ok (Create_events (sf_EventBuffer c) snap)"
    using assms(2,3) by (simp add: events_ok_def Create_events_def Let_def)
  moreover have "members_inv ((members_init k)\<lparr>sm_clock := t\<rparr>)" for k t
    using members_inv_init [of k] by (simp add: members_inv_def)
  ultimately show ?thesis by (simp add: node_ok_def created_serf_node_def)
qed

lemma Serf_created:
  assumes "Serf_Create encode snapshot order h iv senv conf = Returns (Inr (i, out))"
  obtains snap where
    "snap = (if sf_SnapshotPath conf = [] then None else case snapshot of Inl _ \<Rightarrow> None | Inr v \<Rightarrow> Some v)"
    "si_node i = created_serf_node (conf_Init conf) snap"
    "Memberlist_Create h iv senv (memberlist_conf (conf_Init conf) encode) = Returns (Inr (si_memberlist i, out))"
    "si_previous i = (case snap of None \<Rightarrow> [] | Some v \<Rightarrow> map (\<lambda>n. (n, the (sv_aliveNodes v n))) (order (sv_aliveNodes v)))"
proof -
  obtain snap where snap: "(if sf_SnapshotPath (conf_Init conf) = [] then Inr None
      else case snapshot of Inl e \<Rightarrow> Inl e | Inr v \<Rightarrow> Inr (Some v)) = Inr snap"
    using assms by (auto simp: Serf_Create_def Let_def split: if_splits option.splits sum.splits)
  have "snap = (if sf_SnapshotPath conf = [] then None else case snapshot of Inl _ \<Rightarrow> None | Inr v \<Rightarrow> Some v)"
    using snap by (auto simp: conf_Init_def split: if_splits sum.splits)
  moreover obtain ml where "Memberlist_Create h iv senv (memberlist_conf (conf_Init conf) encode) = Returns (Inr (ml, out))"
      "si_memberlist i = ml" "si_node i = created_serf_node (conf_Init conf) snap"
      "si_previous i = (case snap of None \<Rightarrow> [] | Some v \<Rightarrow> map (\<lambda>n. (n, the (sv_aliveNodes v n))) (order (sv_aliveNodes v)))"
    using assms snap unfolding Serf_Create_def Let_def
    by (auto split: if_splits option.splits sum.splits run.splits)
  ultimately show thesis using that by blast
qed

text \<open>C13: Every node that \<open>Create\<close> returns starts in order: its lists, clocks and ring of events are well formed, its
  clocks are ahead of all times of the snapshot, and it is an initial state of the run of Serf and
  memberlist in which Serf shows what memberlist knows.\<close>

theorem created_serf_node_is_ready:
  assumes "Serf_Create encode snapshot order h iv senv conf = Returns (Inr (i, out))"
    and "sw_Name senv = sf_NodeName conf" "sw_Alive senv = None" "sv_NodeName env = sf_NodeName conf"
    and "\<forall>v. snapshot = Inr v \<longrightarrow> - 1 \<notin> {sv_lastClock v, sv_lastEventClock v, sv_lastQueryClock v}"
    and "0 < sf_EventBuffer conf" "sf_EventBuffer conf < 2 ^ 64"
  shows "node_ok (si_node i)
    \<and> pair_reach env (sf_RecentIntentBuffer conf)
        \<lparr>np_memberlist = mi_members (si_memberlist i), np_pending = out, np_serf = sn_members (si_node i), np_leaving = 0\<rparr>
    \<and> (sf_SnapshotPath conf \<noteq> [] \<longrightarrow> (\<exists>v. snapshot = Inr v \<and> sv_lastClock v < sm_clock (sn_members (si_node i))
        \<and> sv_lastEventClock v < es_clock (sn_events (si_node i)) \<and> sv_lastQueryClock v < qy_clock (sn_queries (si_node i))))"
proof -
  from Serf_created [OF assms(1)] obtain snap where snap:
    "snap = (if sf_SnapshotPath conf = [] then None else case snapshot of Inl _ \<Rightarrow> None | Inr v \<Rightarrow> Some v)"
    and node: "si_node i = created_serf_node (conf_Init conf) snap"
    and ml: "Memberlist_Create h iv senv (memberlist_conf (conf_Init conf) encode) = Returns (Inr (si_memberlist i, out))"
    by blast
  have c: "sf_EventBuffer (conf_Init conf) = sf_EventBuffer conf" "sf_RecentIntentBuffer (conf_Init conf) = sf_RecentIntentBuffer conf"
    "sf_NodeName (conf_Init conf) = sf_NodeName conf" by (simp_all add: conf_Init_def)
  have clocks: "f v \<noteq> - 1" if "snap = Some v" "f \<in> {sv_lastClock, sv_lastEventClock, sv_lastQueryClock}" for v f
    using assms(5) snap that by (auto split: if_splits sum.splits)
  have "node_ok (si_node i)"
    unfolding node using clocks assms(6,7) by (intro created_node_ok) (simp_all add: c)
  moreover have "pair_reach env (sf_RecentIntentBuffer conf)
      \<lparr>np_memberlist = mi_members (si_memberlist i), np_pending = out, np_serf = sn_members (si_node i), np_leaving = 0\<rparr>"
  proof -
    from Memberlist_created [OF ml] obtain addr port meta where
      s: "setAlive senv (local_alive (mi_conf (si_memberlist i)) addr port meta) new_memberlist
        = Returns (mi_members (si_memberlist i), out)" by blast
    from setAlive_alone(2) [OF s assms(3)] assms(2,4)
    have "mb_map (mi_members (si_memberlist i)) (sv_NodeName env) \<noteq> None"
      by (simp add: local_alive_def local_versions_def)
    with pair_reach.created [OF _ s this, of "sf_RecentIntentBuffer conf" "restored snap sv_lastClock"] assms(2,4)
    show ?thesis by (simp add: node created_serf_node_def c)
  qed
  moreover have "\<exists>v. snapshot = Inr v \<and> sv_lastClock v < sm_clock (sn_members (si_node i))
        \<and> sv_lastEventClock v < es_clock (sn_events (si_node i)) \<and> sv_lastQueryClock v < qy_clock (sn_queries (si_node i))"
    if path: "sf_SnapshotPath conf \<noteq> []"
  proof -
    have "\<exists>v. snapshot = Inr v"
      using assms(1) path by (auto simp: Serf_Create_def Let_def conf_Init_def split: if_splits option.splits sum.splits)
    then obtain v where v: "snapshot = Inr v" by blast
    then have sv: "snap = Some v" using snap path by simp
    have "f v < restored snap f" if "f \<in> {sv_lastClock, sv_lastEventClock, sv_lastQueryClock}" for f
      using restored_greater [of snap f] clocks [OF _ that] sv by blast
    then show ?thesis using v sv
      by (simp add: node created_serf_node_def Create_events_def Create_queries_def restored_def Let_def)
  qed
  ultimately show ?thesis by blast
qed

subsection \<open>New tags reach the members\<close>

lemma UpdateNode_known:
  assumes "UpdateNode senv meta vsn m = Returns (m', out)" "sw_Alive senv = None" "length vsn = 6"
    and "mb_map m (sw_Name senv) = Some st" "n_Name st = sw_Name senv" "\<not> mb_leave m"
    and "ns_Incarnation st \<le> mb_incarnation m + 1"
  shows "known m' (sw_Name senv) = Some (n_Addr st, n_Port st, meta)"
  using assms by (auto simp: UpdateNode_def aliveNode_def alive_known_def Let_def not_less known_def known_of_def
      alive_or_suspect_def node_data_def split: if_splits)

lemma shown_member:
  assumes "pair_reach env n q" "np_pending q = []" "known (np_memberlist q) k = Some d"
  shows "\<exists>l. sm_members (np_serf q) k = Some l \<and> m_Status (sm_store (np_serf q) l) \<in> {StatusAlive, StatusLeaving}
    \<and> member_data (sm_store (np_serf q) l) = shown env d"
proof -
  have "live_data (np_serf q) k = Some (shown env d)"
    using pair_reach_inv [OF assms(1)] assms(2,3) by (auto simp: pair_inv_def)
  then show ?thesis by (auto simp: live_data_Some)
qed

text \<open>C14: On a node that is not leaving, speaks protocol 3 or later and has no alive delegate, tags that
  \<open>SetTags\<close> accepts take effect, also when it reports that the update was not sent in time. The
  configuration has them; the notifications of the update of memberlist can be delivered; and whenever none is on its
  way, the node's own member in Serf is alive or leaving and has these tags, as \<open>decodeTags\<close> reads
  them from the meta data that memberlist announced.\<close>

theorem new_tags_reach_the_member:
  assumes "pair_reach env n p" "np_memberlist p = mi_members (si_memberlist i)"
    and "sw_Name senv = sv_NodeName env" "sw_Alive senv = None" "tag_codec encode env"
    and "3 \<le> sf_ProtocolVersion (si_conf i)"
    and "SetTags encode senv notified tags i = Returns (err, i', out)" "err \<noteq> Some TagsTooLong"
    and "mb_map (np_memberlist p) (sw_Name senv) = Some st" "\<not> mb_leave (np_memberlist p)"
    and "ns_Incarnation st \<le> mb_incarnation (np_memberlist p) + 1"
  shows "sf_Tags (si_conf i') = Some tags
    \<and> (\<exists>q. pair_reach env n q \<and> np_memberlist q = mi_members (si_memberlist i') \<and> np_pending q = [])
    \<and> (\<forall>q. pair_reach env n q \<longrightarrow> np_memberlist q = mi_members (si_memberlist i') \<longrightarrow> np_pending q = [] \<longrightarrow>
         (\<exists>l. sm_members (np_serf q) (sv_NodeName env) = Some l
            \<and> m_Status (sm_store (np_serf q) l) \<in> {StatusAlive, StatusLeaving} \<and> m_Tags (sm_store (np_serf q) l) = tags))"
proof -
  let ?m = "mi_members (si_memberlist i')"
  obtain meta vsn where meta: "encodeTags (sf_ProtocolVersion (si_conf i)) encode tags = Some meta" "length vsn = 6"
    and up: "UpdateNode senv meta vsn (np_memberlist p) = Returns (?m, out)" and conf: "sf_Tags (si_conf i') = Some tags"
    using SetTags_accepted [OF assms(7,8)] assms(2) by metis
  have inv: "swim_inv (sv_NodeName env) (np_memberlist p)"
    using pair_reach_inv [OF assms(1)] by (simp add: pair_inv_def)
  have name: "n_Name st = sw_Name senv" using inv assms(9) by (auto simp: swim_inv_def)
  have known: "known ?m (sv_NodeName env) = Some (n_Addr st, n_Port st, meta)"
    using UpdateNode_known [OF up assms(4) meta(2) assms(9) name assms(10,11)] assms(3) by simp
  have tags: "decodeTags env meta = tags" by (rule tags_roundtrip [OF assms(5) meta(1) assms(6)])
  have "pair_reach env n (p\<lparr>np_memberlist := ?m, np_pending := np_pending p @ out\<rparr>)"
    by (rule pair_reach.steps [OF assms(1)], rule pair_step.swim, rule swim_step.update [OF assms(3) up])
  from pending_delivered [OF this] have "\<exists>q. pair_reach env n q \<and> np_memberlist q = ?m \<and> np_pending q = []" by auto
  moreover have "\<exists>l. sm_members (np_serf q) (sv_NodeName env) = Some l
      \<and> m_Status (sm_store (np_serf q) l) \<in> {StatusAlive, StatusLeaving} \<and> m_Tags (sm_store (np_serf q) l) = tags"
    if q: "pair_reach env n q" "np_memberlist q = ?m" "np_pending q = []" for q
  proof -
    have "known (np_memberlist q) (sv_NodeName env) = Some (n_Addr st, n_Port st, meta)" using known q(2) by simp
    from shown_member [OF q(1,3) this] show ?thesis using tags by (auto simp: member_data_def shown_def)
  qed
  ultimately show ?thesis using conf by blast
qed

subsection \<open>Rejoining after a restart\<close>

text \<open>Contacting addresses until one answers.\<close>

fun contact_first ::
  "(bytes \<Rightarrow> 16 word \<Rightarrow> 's \<Rightarrow> string option \<times> 's) \<Rightarrow> (bytes \<times> 16 word) list \<Rightarrow> 's \<Rightarrow> bool \<times> 's" where
  "contact_first exchange [] s = (False, s)"
| "contact_first exchange ((addr, port) # ts) s =
     (case exchange addr port s of (None, s') \<Rightarrow> (True, s') | (Some e, s') \<Rightarrow> contact_first exchange ts s')"

lemma join_one:
  assumes "length ip = 4 \<or> length ip = 16" "resolveAddr LookupIP bindPort (TCPAddr_String ip port) = Inr ([to16 ip], port)"
  shows "Memberlist_Join (resolveAddr LookupIP bindPort) exchange [TCPAddr_String ip port] s =
    (case exchange (to16 ip) port s of (None, s') \<Rightarrow> (1, None, s') | (Some e, s') \<Rightarrow> (0, Some (NotReached e), s'))"
  using assms by (simp add: Memberlist_Join_def Let_def split: prod.split option.split)

text \<open>C17: A restarted node finds its cluster: for the members that its snapshot recorded, with their addresses as
  text, the rejoin contacts the addresses of these members, never itself, one after the other until
  the first answers.\<close>

theorem rejoin_contacts_recorded_members:
  assumes "\<forall>(name, ip, port) \<in> set members. length ip = 4 \<or> length ip = 16"
  shows "handleRejoin me (\<lambda>addr. Memberlist_Join (resolveAddr LookupIP bindPort) exchange [addr])
      (map (\<lambda>(name, ip, port). (name, TCPAddr_String ip port)) members) s
    = contact_first exchange (map (\<lambda>(name, ip, port). (to16 ip, port)) (filter (\<lambda>(name, _). name \<noteq> me) members)) s"
  using assms
proof (induction members arbitrary: s)
  case (Cons m members)
  obtain name ip port where m: "m = (name, ip, port)" by (metis prod_cases3)
  have len: "length ip = 4 \<or> length ip = 16" using Cons.prems m by auto
  have IH: "handleRejoin me (\<lambda>addr. Memberlist_Join (resolveAddr LookupIP bindPort) exchange [addr])
      (map (\<lambda>(name, ip, port). (name, TCPAddr_String ip port)) members) t
    = contact_first exchange (map (\<lambda>(name, ip, port). (to16 ip, port)) (filter (\<lambda>(name, _). name \<noteq> me) members)) t" for t
    using Cons.prems by (intro Cons.IH) simp
  obtain e s1 where e: "exchange (to16 ip) port s = (e, s1)" by fastforce
  show ?case
    by (cases e) (simp_all add: m e IH join_one [OF len address_resolves [OF len]])
qed simp

text \<open>
  A name that resolves to no address at all counts as joined: \<open>Join\<close> returns neither a node nor an
  error, and the other nodes of the snapshot are not tried.
\<close>

lemma empty_lookup_ends_rejoin:
  assumes "ParseIP host = None" "LookupIP host = Inr []" "SplitHostPort addr = Inr (host, sport)" "parse_port sport = Some port"
    and "name \<noteq> me"
  shows "handleRejoin me (\<lambda>addr. Memberlist_Join (resolveAddr LookupIP bindPort) exchange [addr]) ((name, addr) # previous) s
    = (True, s)"
  using assms by (simp add: Memberlist_Join_def resolveAddr_def resolve_host_def)

subsection \<open>Queues\<close>

text \<open>The depth of a queue is cut to the limit; the newest messages stay.\<close>

lemma queue_depth_is_cut:
  "length (fst (checkQueueDepth_round maxDepth q)) = min maxDepth (length q)
     \<and> (\<exists>dropped. q = dropped @ fst (checkQueueDepth_round maxDepth q))"
  by (auto simp: checkQueueDepth_round_def queue_Prune_def NumQueued_def intro: exI [of _ "take (length q - maxDepth) q"])

subsection \<open>Instances\<close>

definition demo_serf_conf :: serf_config where
  "demo_serf_conf =
     \<lparr>sf_NodeName = ''n1'', sf_Tags = None, sf_ProtocolVersion = 4, sf_hasEventCh = True, sf_CoalescePeriod = 0,
      sf_QuiescentPeriod = 0, sf_UserCoalescePeriod = 0, sf_UserQuiescentPeriod = 0, sf_RecentIntentBuffer = 128,
      sf_EventBuffer = 512, sf_QueryBuffer = 512, sf_SnapshotPath = ''snapshot'', sf_hasMerge = False,
      sf_memberlist = demo_conf\<lparr>mc_SecretKey := []\<rparr>\<rparr>"

definition demo_view_restored :: snap_view where
  "demo_view_restored = \<lparr>sv_aliveNodes = [''n2'' \<mapsto> ''10.0.0.2:7946''], sv_lastClock = 5, sv_lastEventClock = 3, sv_lastQueryClock = 2\<rparr>"

definition no_tags_codec :: "(string \<rightharpoonup> string) \<Rightarrow> bytes option" where
  "no_tags_codec tags = (if tags = Map.empty then Some [128] else None)"

lemma demo_tags: "encodeTags 4 no_tags_codec Map.empty = Some [255, 128]"
  by (simp add: encodeTags_def no_tags_codec_def tagMagicByte_def)

lemma demo_Serf_created:
  "\<exists>i out. Serf_Create no_tags_codec (Inr demo_view_restored) (\<lambda>_. [''n2'']) demo_machine start_intervals demo_swim demo_serf_conf
     = Returns (Inr (i, out))"
proof -
  let ?c = "memberlist_conf (conf_Init demo_serf_conf) no_tags_codec"
  have "\<exists>ml out. Memberlist_Create demo_machine start_intervals demo_swim ?c = Returns (Inr (ml, out))"
  proof (rule demo_creates)
    show "local_meta ?c = Some [255, 128]"
      by (simp add: local_meta_def memberlist_conf_def conf_Init_def demo_serf_conf_def NodeMeta_def demo_tags MetaMaxSize_def)
    show "setup_keyring (mc_SecretKey ?c) (mc_Keyring ?c) = Inr None"
      by (simp add: setup_keyring_def memberlist_conf_def conf_Init_def demo_serf_conf_def demo_conf_def)
  qed (simp_all add: memberlist_conf_def conf_Init_def demo_serf_conf_def demo_conf_def check_protocol_def ProtocolVersionMin_def
      ProtocolVersionMax_def ProtocolVersionMap_def)
  then show ?thesis
    by (auto simp: Serf_Create_def Let_def conf_Init_def demo_serf_conf_def demo_tags SerfProtocolMin_def SerfProtocolMax_def
        MetaMaxSize_def)
qed

lemma created_serf_node_is_ready_witness:
  "\<exists>(i :: serf_instance) out. node_ok (si_node i)
    \<and> pair_reach demo_serf (sf_RecentIntentBuffer demo_serf_conf)
        \<lparr>np_memberlist = mi_members (si_memberlist i), np_pending = out, np_serf = sn_members (si_node i), np_leaving = 0\<rparr>
    \<and> sv_lastClock demo_view_restored < sm_clock (sn_members (si_node i))
    \<and> sv_lastEventClock demo_view_restored < es_clock (sn_events (si_node i))
    \<and> sv_lastQueryClock demo_view_restored < qy_clock (sn_queries (si_node i))"
proof -
  obtain i out where c: "Serf_Create no_tags_codec (Inr demo_view_restored) (\<lambda>_. [''n2'']) demo_machine start_intervals demo_swim
      demo_serf_conf = Returns (Inr (i, out))" using demo_Serf_created by blast
  have "sw_Name demo_swim = sf_NodeName demo_serf_conf" "sw_Alive demo_swim = None" "sv_NodeName demo_serf = sf_NodeName demo_serf_conf"
    "\<forall>v. Inr demo_view_restored = (Inr v :: (string, snap_view) result) \<longrightarrow> - 1 \<notin> {sv_lastClock v, sv_lastEventClock v, sv_lastQueryClock v}"
    "0 < sf_EventBuffer demo_serf_conf" "sf_EventBuffer demo_serf_conf < 2 ^ 64"
    by (simp_all add: demo_swim_def demo_serf_def demo_serf_conf_def demo_view_restored_def)
  from created_serf_node_is_ready [OF c this] show ?thesis
    by (auto simp: demo_serf_conf_def)
qed

definition demo_instance :: serf_instance where
  "demo_instance =
     \<lparr>si_conf = demo_serf_conf, si_stages = [], si_node = demo_sn,
      si_memberlist = \<lparr>mi_conf = demo_conf, mi_members = demo_cluster stateAlive, mi_schedule = not_scheduled, mi_shutdown = False\<rparr>,
      si_previous = []\<rparr>"

lemma demo_SetTags: "\<exists>err i' out. SetTags no_tags_codec demo_swim True Map.empty demo_instance = Returns (err, i', out) \<and> err = None"
proof -
  have "local_meta (demo_conf\<lparr>mc_NodeMeta := Some (NodeMeta 4 no_tags_codec Map.empty)\<rparr>) = Some [255, 128]"
    by (simp add: local_meta_def NodeMeta_def demo_tags MetaMaxSize_def)
  then show ?thesis
    by (simp add: SetTags_def demo_instance_def demo_serf_conf_def demo_tags MetaMaxSize_def Memberlist_UpdateNode_def UpdateNode_def
        demo_cluster_def demo_swim_def demo_view_def Let_def aliveNode_def alive_known_def local_versions_def)
qed

lemma new_tags_reach_the_member_witness:
  "\<exists>q l. pair_reach demo_serf 4 q \<and> np_pending q = [] \<and> sm_members (np_serf q) (sv_NodeName demo_serf) = Some l
     \<and> m_Status (sm_store (np_serf q) l) \<in> {StatusAlive, StatusLeaving} \<and> m_Tags (sm_store (np_serf q) l) = Map.empty"
proof -
  obtain i' out where u: "SetTags no_tags_codec demo_swim True Map.empty demo_instance = Returns (None, i', out)"
    using demo_SetTags by blast
  have "np_memberlist demo_joint = mi_members (si_memberlist demo_instance)" "sw_Name demo_swim = sv_NodeName demo_serf"
    "sw_Alive demo_swim = None" "tag_codec no_tags_codec demo_serf" "3 \<le> sf_ProtocolVersion (si_conf demo_instance)"
    by (simp_all add: demo_swim_def demo_serf_def tag_codec_def no_tags_codec_def demo_joint_def demo_instance_def demo_serf_conf_def)
  moreover have "None \<noteq> Some TagsTooLong" by simp
  moreover have "mb_map (np_memberlist demo_joint) (sw_Name demo_swim) = Some (demo_view ''n1'' 1 stateAlive)"
    "\<not> mb_leave (np_memberlist demo_joint)"
    "ns_Incarnation (demo_view ''n1'' 1 stateAlive) \<le> mb_incarnation (np_memberlist demo_joint) + 1"
    by (simp_all add: demo_joint_def demo_cluster_def demo_swim_def demo_view_def)
  ultimately show ?thesis
    using new_tags_reach_the_member [OF demo_joint_reach _ _ _ _ _ u] by blast
qed

lemma rejoin_contacts_recorded_members_witness:
  "handleRejoin ''n1'' (\<lambda>addr. Memberlist_Join (resolveAddr (\<lambda>_. Inl ''no such host'') 7946) demo_exchange [addr])
      (map (\<lambda>(name, ip, port). (name, TCPAddr_String ip port)) [(''n1'', [10, 0, 0, 9], 7946), (''n2'', [10, 0, 0, 2], 7946)]) []
    = contact_first demo_exchange (map (\<lambda>(name, ip, port). (to16 ip, port))
        (filter (\<lambda>(name, _). name \<noteq> ''n1'') [(''n1'', [10, 0, 0, 9], 7946), (''n2'', [10, 0, 0, 2], 7946)])) []"
  by (rule rejoin_contacts_recorded_members) simp

end
