(* ===== verification/RpcClient.thy ===== *)
theory RpcClient
  imports AgentServer
begin

section \<open>The RPC client (serf/client/rpc_client.go)\<close>

text \<open>
  The command line's end of the RPC connection. Every request carries a number of its own; a
  goroutine reads the responses and hands each to the handler registered under its number, which
  reads the body that follows from the same connection. Handlers of calls pass one error to the
  caller that waits, handlers of logs, events and queries pass records to channels until they are
  deregistered. The encoding of requests and responses and the write to the socket are arguments.
\<close>

subsection \<open>Requests and responses\<close>

record responseHeader =
  rs_Seq :: "64 word"
  rs_Error :: string

datatype rpc_request =
  HandshakeReq int
| AuthReq string
| EventReq string bytes bool
| ForceLeaveReq string
| JoinReq "string list" bool
| MembersFilteredReq "string \<rightharpoonup> string" string string
| StreamReq string
| MonitorReq string
| StopReq "64 word"
| KeyReq string
| TagsReq "string \<rightharpoonup> string" "string list"
| QueryReq query_param
| RespondReq "64 word" bytes

text \<open>The body a caller wants, and what it decodes to; \<open>NoValue\<close> is the zero value.\<close>

datatype reply_kind = NoReply | JoinReply | MembersReply | KeyReply | StatsReply

record keyResponse =
  kp_Messages :: "string \<rightharpoonup> string"
  kp_Keys :: "string \<rightharpoonup> nat"
  kp_NumNodes :: nat

datatype rpc_value =
  NoValue
| JoinValue int
| MembersValue "client_member list"
| KeyValue keyResponse
| StatsValue "string \<rightharpoonup> (string \<rightharpoonup> string)"

text \<open>
  A record of an event stream is a map of fields. A header is decoded over the previous one: what
  an object does not set stays. \<open>cd_write\<close> is the error of writing a request: its deadline, its
  encoding, or the socket.
\<close>

type_synonym stream_record = "string \<rightharpoonup> bytes"

record client_codec =
  cd_header :: "responseHeader \<Rightarrow> bytes \<Rightarrow> responseHeader option"
  cd_reply :: "reply_kind \<Rightarrow> bytes \<Rightarrow> rpc_value option"
  cd_log :: "bytes \<Rightarrow> string option"
  cd_event :: "bytes \<Rightarrow> stream_record option"
  cd_query :: "bytes \<Rightarrow> queryRecord option"
  cd_write :: "requestHeader \<Rightarrow> rpc_request option \<Rightarrow> string option"

definition maxIPCVersion :: int where "maxIPCVersion = 1"
definition authRequired :: string where "authRequired = ''Authentication required''"
definition clientClosed :: string where "clientClosed = ''client closed''"
definition streamClosed :: string where "streamClosed = ''Stream closed''"

subsection \<open>Handlers\<close>

text \<open>The handler of \<open>genericRPC\<close>: the channel of one error, and the variable for the body.\<close>

record seqCallback =
  cb_kind :: reply_kind
  cb_value :: rpc_value
  cb_errCh :: "string option list"

text \<open>What the other three have in common. \<open>sp_initCh\<close>, of capacity one too, is sent to once.\<close>

record stream_part =
  sp_closed :: bool
  sp_init :: bool
  sp_initCh :: "string option list"

text \<open>A channel that the caller did not give is nil, \<open>None\<close>.\<close>

datatype seqHandler =
  CallHandler seqCallback
| MonitorHandler stream_part "string chan option"
| StreamHandler stream_part "stream_record chan option"
| QueryHandler stream_part "string chan option" "NodeResponse chan option"

definition new_part :: stream_part where
  "new_part = \<lparr>sp_closed = False, sp_init = False, sp_initCh = []\<rparr>"

definition init_part :: "string option \<Rightarrow> stream_part \<Rightarrow> stream_part" where
  "init_part e p = p\<lparr>sp_init := True, sp_initCh := sp_initCh p @ [e]\<rparr>"

definition offer_to :: "'a \<Rightarrow> 'a chan option \<Rightarrow> 'a chan option option" where
  "offer_to x ch = (case ch of None \<Rightarrow> Some None | Some c \<Rightarrow> map_option Some (chan_offer x c))"

definition close_given :: "'a chan option \<Rightarrow> 'a chan option option" where
  "close_given ch = (case ch of None \<Rightarrow> Some None | Some c \<Rightarrow> map_option Some (chan_close c))"

definition cleanup_part :: "stream_part \<Rightarrow> stream_part" where
  "cleanup_part p = (if sp_init p then p else init_part (Some streamClosed) p)\<lparr>sp_closed := True\<rparr>"

text \<open>\<open>None\<close> is the panic of closing a closed channel.\<close>

fun Cleanup :: "seqHandler \<Rightarrow> seqHandler option" where
  "Cleanup (CallHandler cb) = Some (CallHandler cb)"
| "Cleanup (MonitorHandler p logCh) =
     (if sp_closed p then Some (MonitorHandler p logCh)
      else map_option (MonitorHandler (cleanup_part p)) (close_given logCh))"
| "Cleanup (StreamHandler p eventCh) =
     (if sp_closed p then Some (StreamHandler p eventCh)
      else map_option (StreamHandler (cleanup_part p)) (close_given eventCh))"
| "Cleanup (QueryHandler p ackCh respCh) =
     (if sp_closed p then Some (QueryHandler p ackCh respCh)
      else
        (case close_given ackCh of
           None \<Rightarrow> None
         | Some a \<Rightarrow> map_option (QueryHandler (cleanup_part p) a) (close_given respCh)))"

text \<open>
  What a handler makes of a response and of the objects behind its header: itself afterwards, the
  objects left, and whether it deregisters itself. It waits when the channel of a call is full.
  The end of the objects is the end of the connection.
\<close>

datatype handled = Handled seqHandler "bytes list" bool | HandleWaits | HandlePanics

definition read_object :: "(bytes \<Rightarrow> 'a option) \<Rightarrow> bytes list \<Rightarrow> 'a option \<times> bytes list" where
  "read_object decode input = (case input of [] \<Rightarrow> (None, []) | obj # rest \<Rightarrow> (decode obj, rest))"

definition wants_body :: "responseHeader \<Rightarrow> reply_kind \<Rightarrow> bool" where
  "wants_body h kind \<longleftrightarrow> rs_Error h \<noteq> authRequired \<and> kind \<noteq> NoReply"

definition decode_error :: string where "decode_error = ''decode failed''"

text \<open>The error a response to a call stands for, and its value if one was decoded.\<close>

definition call_reply ::
  "client_codec \<Rightarrow> reply_kind \<Rightarrow> responseHeader \<Rightarrow> bytes list \<Rightarrow> string option \<times> rpc_value option" where
  "call_reply codec kind h input =
     (if wants_body h kind then
        (case fst (read_object (cd_reply codec kind) input) of
           None \<Rightarrow> (Some decode_error, None)
         | Some v \<Rightarrow> (strToError (rs_Error h), Some v))
      else (strToError (rs_Error h), None))"

definition handle_call :: "client_codec \<Rightarrow> responseHeader \<Rightarrow> bytes list \<Rightarrow> seqCallback \<Rightarrow> handled" where
  "handle_call codec h input cb =
     (let (err, v) = call_reply codec (cb_kind cb) h input;
          cb' = cb\<lparr>cb_errCh := cb_errCh cb @ [err], cb_value := (case v of None \<Rightarrow> cb_value cb | Some v \<Rightarrow> v)\<rparr>
      in if cb_errCh cb \<noteq> [] then HandleWaits
         else Handled (CallHandler cb') (if wants_body h (cb_kind cb) then tl input else input) False)"

text \<open>A record that decodes is offered to a channel; one that does not ends the stream.\<close>

definition handle_record ::
  "(bytes \<Rightarrow> 'r option) \<Rightarrow> ('r \<Rightarrow> seqHandler option \<times> bool) \<Rightarrow> bytes list \<Rightarrow> seqHandler \<Rightarrow> handled" where
  "handle_record decode act input sh =
     (case read_object decode input of
        (None, rest) \<Rightarrow> Handled sh rest True
      | (Some r, rest) \<Rightarrow>
          (case act r of (None, _) \<Rightarrow> HandlePanics | (Some sh', done) \<Rightarrow> Handled sh' rest done))"

fun Handle :: "client_codec \<Rightarrow> responseHeader \<Rightarrow> bytes list \<Rightarrow> seqHandler \<Rightarrow> handled" where
  "Handle codec h input (CallHandler cb) = handle_call codec h input cb"
| "Handle codec h input (MonitorHandler p logCh) =
     (if \<not> sp_init p then Handled (MonitorHandler (init_part (strToError (rs_Error h)) p) logCh) input False
      else handle_record (cd_log codec)
        (\<lambda>l. (map_option (MonitorHandler p) (offer_to l logCh), False)) input (MonitorHandler p logCh))"
| "Handle codec h input (StreamHandler p eventCh) =
     (if \<not> sp_init p then Handled (StreamHandler (init_part (strToError (rs_Error h)) p) eventCh) input False
      else handle_record (cd_event codec)
        (\<lambda>r. (map_option (StreamHandler p) (offer_to r eventCh), False)) input (StreamHandler p eventCh))"
| "Handle codec h input (QueryHandler p ackCh respCh) =
     (if \<not> sp_init p then Handled (QueryHandler (init_part (strToError (rs_Error h)) p) ackCh respCh) input False
      else handle_record (cd_query codec)
        (\<lambda>r. if rec_Type r = ''ack'' then
                (map_option (\<lambda>c. QueryHandler p c respCh) (offer_to (rec_From r) ackCh), False)
              else if rec_Type r = ''response'' then
                (map_option (QueryHandler p ackCh)
                   (offer_to \<lparr>nr_From = rec_From r, nr_Payload = rec_Payload r\<rparr> respCh), False)
              else (Some (QueryHandler p ackCh respCh), rec_Type r = ''done''))
        input (QueryHandler p ackCh respCh))"

subsection \<open>The client\<close>

text \<open>
  Handlers live on after they are deregistered, in the hands of their callers: \<open>rc_handlers\<close> has
  all of them by number, \<open>rc_dispatch\<close> the numbers registered. \<open>rc_input\<close> is what the server will
  have sent when the connection ends, less what was read. \<open>rc_found\<close> is the handler that \<open>listen\<close>
  has looked up and not yet called: the lock of the table is not held in between.
\<close>

record rpc_client =
  rc_seq :: "64 word"
  rc_handlers :: "64 word \<Rightarrow> seqHandler"
  rc_dispatch :: "64 word list"
  rc_shutdown :: bool
  rc_written :: "(requestHeader \<times> rpc_request option) list"
  rc_input :: "bytes list"
  rc_header :: responseHeader
  rc_found :: "64 word option"

definition new_callback :: "reply_kind \<Rightarrow> seqCallback" where
  "new_callback kind = \<lparr>cb_kind = kind, cb_value = NoValue, cb_errCh = []\<rparr>"

definition new_client :: "bytes list \<Rightarrow> rpc_client" where
  "new_client input =
     \<lparr>rc_seq = 0, rc_handlers = (\<lambda>_. CallHandler (new_callback NoReply)), rc_dispatch = [], rc_shutdown = False,
      rc_written = [], rc_input = input, rc_header = \<lparr>rs_Seq = 0, rs_Error = []\<rparr>, rc_found = None\<rparr>"

definition handleSeq :: "64 word \<Rightarrow> seqHandler \<Rightarrow> rpc_client \<Rightarrow> rpc_client" where
  "handleSeq seq sh c =
     c\<lparr>rc_dispatch := List.insert seq (rc_dispatch c), rc_handlers := (rc_handlers c)(seq := sh)\<rparr>"

definition client_deregister :: "64 word \<Rightarrow> rpc_client \<Rightarrow> rpc_client option" where
  "client_deregister seq c =
     (if seq \<in> set (rc_dispatch c) then
        (case Cleanup (rc_handlers c seq) of
           None \<Rightarrow> None
         | Some sh \<Rightarrow> Some (c\<lparr>rc_dispatch := removeAll seq (rc_dispatch c), rc_handlers := (rc_handlers c)(seq := sh)\<rparr>))
      else Some c)"

text \<open>\<open>deregisterAll\<close> over the numbers in the order of the map.\<close>

fun deregister_all :: "64 word list \<Rightarrow> rpc_client \<Rightarrow> rpc_client option" where
  "deregister_all [] c = Some (c\<lparr>rc_dispatch := []\<rparr>)"
| "deregister_all (seq # seqs) c =
     (case Cleanup (rc_handlers c seq) of
        None \<Rightarrow> None
      | Some sh \<Rightarrow> deregister_all seqs (c\<lparr>rc_handlers := (rc_handlers c)(seq := sh)\<rparr>))"

definition client_IsClosed :: "rpc_client \<Rightarrow> bool" where "client_IsClosed c = rc_shutdown c"

definition client_Close :: "rpc_client \<Rightarrow> rpc_client option" where
  "client_Close c =
     (if rc_shutdown c then Some c else deregister_all (rc_dispatch c) (c\<lparr>rc_shutdown := True\<rparr>))"

definition client_send ::
  "client_codec \<Rightarrow> requestHeader \<Rightarrow> rpc_request option \<Rightarrow> rpc_client \<Rightarrow> string option \<times> rpc_client" where
  "client_send codec header req c =
     (if rc_shutdown c then (Some clientClosed, c)
      else
        (case cd_write codec header req of
           Some e \<Rightarrow> (Some e, c)
         | None \<Rightarrow> (None, c\<lparr>rc_written := rc_written c @ [(header, req)]\<rparr>)))"

text \<open>
  One turn of \<open>listen\<close>: a header is read and its handler looked up, which ends the client if there
  is none to read; then the handler runs. \<open>None\<close> is a panic.
\<close>

definition listen_header :: "client_codec \<Rightarrow> rpc_client \<Rightarrow> rpc_client option" where
  "listen_header codec c =
     (case read_object (cd_header codec (rc_header c)) (rc_input c) of
        (None, rest) \<Rightarrow> client_Close (c\<lparr>rc_input := rest\<rparr>)
      | (Some h, rest) \<Rightarrow>
          Some (c\<lparr>rc_header := h, rc_input := rest,
                  rc_found := (if rs_Seq h \<in> set (rc_dispatch c) then Some (rs_Seq h) else None)\<rparr>))"

datatype listened = Listened rpc_client | ListenWaits | ListenPanics

definition listen_handle :: "client_codec \<Rightarrow> rpc_client \<Rightarrow> listened" where
  "listen_handle codec c =
     (case rc_found c of
        None \<Rightarrow> Listened c
      | Some seq \<Rightarrow>
          (case Handle codec (rc_header c) (rc_input c) (rc_handlers c seq) of
             HandleWaits \<Rightarrow> ListenWaits
           | HandlePanics \<Rightarrow> ListenPanics
           | Handled sh rest done \<Rightarrow>
               (let c' = c\<lparr>rc_handlers := (rc_handlers c)(seq := sh), rc_input := rest, rc_found := None\<rparr> in
                if done then (case client_deregister seq c' of None \<Rightarrow> ListenPanics | Some c'' \<Rightarrow> Listened c'')
                else Listened c')))"

subsection \<open>Calls\<close>

text \<open>
  The two halves of \<open>genericRPC\<close>, before and after the wait. The first gives the number of the
  call; a request that cannot be sent ends it with the error.
\<close>

definition begin_call ::
  "client_codec \<Rightarrow> string \<Rightarrow> rpc_request option \<Rightarrow> reply_kind \<Rightarrow> rpc_client \<Rightarrow> string option \<times> 64 word \<times> rpc_client" where
  "begin_call codec command req kind c =
     (let seq = rc_seq c + 1;
          c1 = handleSeq seq (CallHandler (new_callback kind)) (c\<lparr>rc_seq := seq\<rparr>)
      in case client_send codec \<lparr>rq_Command = command, rq_Seq = seq\<rparr> req c1 of
           (None, c2) \<Rightarrow> (None, seq, c2)
         | (Some e, c2) \<Rightarrow> (Some e, seq, c2\<lparr>rc_dispatch := removeAll seq (rc_dispatch c2)\<rparr>))"

text \<open>\<open>closed\<close> picks the case of the \<open>select\<close>; \<open>None\<close> is a case that is not ready.\<close>

definition end_call ::
  "bool \<Rightarrow> 64 word \<Rightarrow> rpc_client \<Rightarrow> ((string option \<times> rpc_value) \<times> rpc_client) option" where
  "end_call closed seq c =
     (case rc_handlers c seq of
        CallHandler cb \<Rightarrow>
          (let c' = c\<lparr>rc_dispatch := removeAll seq (rc_dispatch c)\<rparr> in
           if closed then
             (if rc_shutdown c then Some ((Some clientClosed, cb_value cb), c') else None)
           else
             (case cb_errCh cb of
                [] \<Rightarrow> None
              | e # es \<Rightarrow>
                  Some ((e, cb_value cb), c'\<lparr>rc_handlers := (rc_handlers c)(seq := CallHandler (cb\<lparr>cb_errCh := es\<rparr>))\<rparr>)))
      | _ \<Rightarrow> None)"

type_synonym rpc_begin = "rpc_client \<Rightarrow> string option \<times> 64 word \<times> rpc_client"

definition client_ForceLeave :: "client_codec \<Rightarrow> string \<Rightarrow> rpc_begin" where
  "client_ForceLeave codec node = begin_call codec ''force-leave'' (Some (ForceLeaveReq node)) NoReply"

definition client_Join :: "client_codec \<Rightarrow> string list \<Rightarrow> bool \<Rightarrow> rpc_begin" where
  "client_Join codec addrs replay = begin_call codec ''join'' (Some (JoinReq addrs replay)) JoinReply"

definition client_Members :: "client_codec \<Rightarrow> rpc_begin" where
  "client_Members codec = begin_call codec ''members'' None MembersReply"

definition client_MembersFiltered ::
  "client_codec \<Rightarrow> (string \<rightharpoonup> string) \<Rightarrow> string \<Rightarrow> string \<Rightarrow> rpc_begin" where
  "client_MembersFiltered codec tags status name =
     begin_call codec ''members-filtered'' (Some (MembersFilteredReq tags status name)) MembersReply"

definition client_UserEvent :: "client_codec \<Rightarrow> string \<Rightarrow> bytes \<Rightarrow> bool \<Rightarrow> rpc_begin" where
  "client_UserEvent codec name payload coalesce = begin_call codec ''event'' (Some (EventReq name payload coalesce)) NoReply"

definition client_Leave :: "client_codec \<Rightarrow> rpc_begin" where
  "client_Leave codec = begin_call codec ''leave'' None NoReply"

definition client_UpdateTags :: "client_codec \<Rightarrow> (string \<rightharpoonup> string) \<Rightarrow> string list \<Rightarrow> rpc_begin" where
  "client_UpdateTags codec tags delTags = begin_call codec ''tags'' (Some (TagsReq tags delTags)) NoReply"

definition client_Respond :: "client_codec \<Rightarrow> 64 word \<Rightarrow> bytes \<Rightarrow> rpc_begin" where
  "client_Respond codec i buf = begin_call codec ''respond'' (Some (RespondReq i buf)) NoReply"

definition client_InstallKey :: "client_codec \<Rightarrow> string \<Rightarrow> rpc_begin" where
  "client_InstallKey codec key = begin_call codec ''install-key'' (Some (KeyReq key)) KeyReply"

definition client_UseKey :: "client_codec \<Rightarrow> string \<Rightarrow> rpc_begin" where
  "client_UseKey codec key = begin_call codec ''use-key'' (Some (KeyReq key)) KeyReply"

definition client_RemoveKey :: "client_codec \<Rightarrow> string \<Rightarrow> rpc_begin" where
  "client_RemoveKey codec key = begin_call codec ''remove-key'' (Some (KeyReq key)) KeyReply"

definition client_ListKeys :: "client_codec \<Rightarrow> rpc_begin" where
  "client_ListKeys codec = begin_call codec ''list-keys'' None KeyReply"

definition client_Stats :: "client_codec \<Rightarrow> rpc_begin" where
  "client_Stats codec = begin_call codec ''stats'' None StatsReply"

definition client_handshake :: "client_codec \<Rightarrow> rpc_begin" where
  "client_handshake codec = begin_call codec ''handshake'' (Some (HandshakeReq maxIPCVersion)) NoReply"

definition client_auth :: "client_codec \<Rightarrow> string \<Rightarrow> rpc_begin" where
  "client_auth codec authKey = begin_call codec ''auth'' (Some (AuthReq authKey)) NoReply"

subsection \<open>Streams\<close>

definition begin_stream ::
  "client_codec \<Rightarrow> string \<Rightarrow> rpc_request \<Rightarrow> seqHandler \<Rightarrow> rpc_client \<Rightarrow> (string option \<times> 64 word \<times> rpc_client) option" where
  "begin_stream codec command req sh c =
     (let seq = rc_seq c + 1; c1 = handleSeq seq sh (c\<lparr>rc_seq := seq\<rparr>) in
      case client_send codec \<lparr>rq_Command = command, rq_Seq = seq\<rparr> (Some req) c1 of
        (None, c2) \<Rightarrow> Some (None, seq, c2)
      | (Some e, c2) \<Rightarrow> map_option (\<lambda>c3. (Some e, seq, c3)) (client_deregister seq c2))"

definition client_Monitor ::
  "client_codec \<Rightarrow> string \<Rightarrow> string chan option \<Rightarrow> rpc_client \<Rightarrow> (string option \<times> 64 word \<times> rpc_client) option" where
  "client_Monitor codec level ch = begin_stream codec ''monitor'' (MonitorReq level) (MonitorHandler new_part ch)"

definition client_Stream ::
  "client_codec \<Rightarrow> string \<Rightarrow> stream_record chan option \<Rightarrow> rpc_client \<Rightarrow> (string option \<times> 64 word \<times> rpc_client) option" where
  "client_Stream codec type ch = begin_stream codec ''stream'' (StreamReq type) (StreamHandler new_part ch)"

definition client_Query ::
  "client_codec \<Rightarrow> query_param \<Rightarrow> string chan option \<Rightarrow> NodeResponse chan option \<Rightarrow> rpc_client \<Rightarrow>
     (string option \<times> 64 word \<times> rpc_client) option" where
  "client_Query codec params ackCh respCh =
     begin_stream codec ''query'' (QueryReq params) (QueryHandler new_part ackCh respCh)"

fun handler_part :: "seqHandler \<Rightarrow> stream_part option" where
  "handler_part (CallHandler cb) = None"
| "handler_part (MonitorHandler p logCh) = Some p"
| "handler_part (StreamHandler p eventCh) = Some p"
| "handler_part (QueryHandler p ackCh respCh) = Some p"

text \<open>The end of the wait: the error, and the client. The first \<open>None\<close> is a case not ready.\<close>

definition end_stream :: "bool \<Rightarrow> 64 word \<Rightarrow> rpc_client \<Rightarrow> (string option \<times> rpc_client option) option" where
  "end_stream closed seq c =
     (if closed then (if rc_shutdown c then Some (Some clientClosed, client_deregister seq c) else None)
      else
        (case handler_part (rc_handlers c seq) of
           None \<Rightarrow> None
         | Some p \<Rightarrow> (case sp_initCh p of [] \<Rightarrow> None | e # _ \<Rightarrow> Some (e, Some c))))"

definition client_Stop ::
  "client_codec \<Rightarrow> 64 word \<Rightarrow> rpc_client \<Rightarrow> (string option \<times> 64 word \<times> rpc_client) option" where
  "client_Stop codec handle c =
     map_option (begin_call codec ''stop'' (Some (StopReq handle)) NoReply) (client_deregister handle c)"

subsection \<open>One caller at a time\<close>

text \<open>
  Waiting for the reply to a call while nothing but \<open>listen\<close> runs, which stops when the reply is
  there or the client is closed. \<open>None\<close> is a panic, or waiting for ever: for a handler, or for the
  server, unless that has closed the connection.
\<close>

definition call_ready :: "64 word \<Rightarrow> rpc_client \<Rightarrow> bool" where
  "call_ready seq c \<longleftrightarrow>
     rc_shutdown c
     \<or> (case rc_handlers c seq of
           CallHandler cb \<Rightarrow> cb_errCh cb \<noteq> []
         | sh \<Rightarrow> (case handler_part sh of None \<Rightarrow> False | Some p \<Rightarrow> sp_initCh p \<noteq> []))"

definition listen_turn :: "client_codec \<Rightarrow> rpc_client \<Rightarrow> rpc_client option" where
  "listen_turn codec c =
     (case listen_header codec c of
        None \<Rightarrow> None
      | Some c1 \<Rightarrow> (case listen_handle codec c1 of Listened c2 \<Rightarrow> Some c2 | _ \<Rightarrow> None))"

text \<open>Each turn reads an object or closes the client: \<open>n\<close> turns are enough for \<open>n - 1\<close> objects.\<close>

fun await :: "nat \<Rightarrow> client_codec \<Rightarrow> bool \<Rightarrow> 64 word \<Rightarrow> rpc_client \<Rightarrow> rpc_client option" where
  "await 0 codec closed seq c = (if call_ready seq c then Some c else None)"
| "await (Suc n) codec closed seq c =
     (if call_ready seq c then Some c
      else if rc_input c = [] \<and> \<not> closed then None
      else (case listen_turn codec c of None \<Rightarrow> None | Some c' \<Rightarrow> await n codec closed seq c'))"

text \<open>
  A server answers a request with objects, and may close the connection. What it sends is read
  as it comes.
\<close>

type_synonym 's rpc_server = "requestHeader \<times> rpc_request option \<Rightarrow> 's \<Rightarrow> bytes list \<times> bool \<times> 's"

definition sync_call ::
  "client_codec \<Rightarrow> rpc_begin \<Rightarrow> 's rpc_server \<Rightarrow> rpc_client \<times> 's \<Rightarrow> ((string option \<times> rpc_value) \<times> rpc_client \<times> 's) option" where
  "sync_call codec call server cs =
     (let (c, s) = cs in
      case call c of
        (Some e, seq, c1) \<Rightarrow> Some ((Some e, NoValue), c1, s)
      | (None, seq, c1) \<Rightarrow>
          (let (objs, closed, s') = server (last (rc_written c1)) s;
               c2 = c1\<lparr>rc_input := rc_input c1 @ objs\<rparr>
           in case await (Suc (length (rc_input c2))) codec closed seq c2 of
                None \<Rightarrow> None
              | Some c3 \<Rightarrow>
                  map_option (\<lambda>(r, c4). (r, c4, s'))
                    (case end_call False seq c3 of Some r \<Rightarrow> Some r | None \<Rightarrow> end_call True seq c3)))"

text \<open>A query, up to its first response: the error, the number it has, the client and the server.\<close>

definition sync_Query ::
  "client_codec \<Rightarrow> query_param \<Rightarrow> string chan option \<Rightarrow> NodeResponse chan option \<Rightarrow> 's rpc_server \<Rightarrow> rpc_client \<times> 's \<Rightarrow>
     (string option \<times> 64 word \<times> rpc_client \<times> 's) option" where
  "sync_Query codec params ackCh respCh server cs =
     (let (c, s) = cs in
      case client_Query codec params ackCh respCh c of
        None \<Rightarrow> None
      | Some (Some e, seq, c1) \<Rightarrow> Some (Some e, seq, c1, s)
      | Some (None, seq, c1) \<Rightarrow>
          (let (objs, closed, s') = server (last (rc_written c1)) s;
               c2 = c1\<lparr>rc_input := rc_input c1 @ objs\<rparr>
           in case await (Suc (length (rc_input c2))) codec closed seq c2 of
                None \<Rightarrow> None
              | Some c3 \<Rightarrow>
                  (case (case end_stream False seq c3 of Some r \<Rightarrow> Some r | None \<Rightarrow> end_stream True seq c3) of
                     Some (e, Some c4) \<Rightarrow> Some (e, seq, c4, s')
                   | _ \<Rightarrow> None)))"

text \<open>
  \<open>ClientFromConfig\<close>, given the error of dialling: the client, or the error of the handshake or of
  the authentication, after which the client is closed.
\<close>

definition ClientFromConfig ::
  "client_codec \<Rightarrow> string option \<Rightarrow> string \<Rightarrow> 's rpc_server \<Rightarrow> 's \<Rightarrow> (string, rpc_client \<times> 's) result option" where
  "ClientFromConfig codec dialErr authKey server s =
     (case dialErr of
        Some e \<Rightarrow> Some (Inl e)
      | None \<Rightarrow>
          (case sync_call codec (client_handshake codec) server (new_client [], s) of
             None \<Rightarrow> None
           | Some ((Some e, _), c, s1) \<Rightarrow> map_option (\<lambda>_. Inl e) (client_Close c)
           | Some ((None, _), c, s1) \<Rightarrow>
               if authKey = [] then Some (Inr (c, s1))
               else
                 (case sync_call codec (client_auth codec authKey) server (c, s1) of
                    None \<Rightarrow> None
                  | Some ((Some e, _), c', s2) \<Rightarrow> map_option (\<lambda>_. Inl e) (client_Close c')
                  | Some ((None, _), c', s2) \<Rightarrow> Some (Inr (c', s2)))))"

end
