(* ===== verification/RpcClientProps.thy ===== *)
theory RpcClientProps
  imports RpcClient
begin

section \<open>Replies reach their callers\<close>

text \<open>
  Callers, \<open>Close\<close>, \<open>Stop\<close> and the goroutine that reads the connection run side by side; a step of the
  relation is one section that no other goroutine can interrupt. The properties: what a call
  returns is what some response under its number says; no channel is sent to or closed after it
  was closed, unless a stream is stopped while one of its records is being handled; and a client
  that talks to the server of \<open>AgentServer\<close> gets from it what the agent's node knows.
\<close>

subsection \<open>Every interleaving\<close>

datatype client_event = Begun "64 word" reply_kind | Returned "64 word" "string option \<times> rpc_value" | Silent

text \<open>A handler as \<open>Monitor\<close>, \<open>Stream\<close> and \<open>Query\<close> make it, with channels of its own that are open.\<close>

fun new_stream :: "seqHandler \<Rightarrow> bool" where
  "new_stream (CallHandler cb) \<longleftrightarrow> False"
| "new_stream (MonitorHandler p ch) \<longleftrightarrow> p = new_part \<and> (\<forall>c. ch = Some c \<longrightarrow> \<not> ch_closed c)"
| "new_stream (StreamHandler p ch) \<longleftrightarrow> p = new_part \<and> (\<forall>c. ch = Some c \<longrightarrow> \<not> ch_closed c)"
| "new_stream (QueryHandler p ackCh respCh) \<longleftrightarrow>
     p = new_part \<and> (\<forall>c. ackCh = Some c \<longrightarrow> \<not> ch_closed c) \<and> (\<forall>c. respCh = Some c \<longrightarrow> \<not> ch_closed c)"

inductive client_step :: "client_codec \<Rightarrow> rpc_client \<Rightarrow> client_event \<Rightarrow> rpc_client \<Rightarrow> bool" for codec where
  call: "begin_call codec command req kind c = (e, seq, c') \<Longrightarrow> client_step codec c (Begun seq kind) c'"
| return: "end_call closed seq c = Some (r, c') \<Longrightarrow> client_step codec c (Returned seq r) c'"
| stream: "new_stream sh \<Longrightarrow> begin_stream codec command req sh c = Some (e, seq, c') \<Longrightarrow> client_step codec c Silent c'"
| deregister: "client_deregister seq c = Some c' \<Longrightarrow> client_step codec c Silent c'"
| close: "client_Close c = Some c' \<Longrightarrow> client_step codec c Silent c'"
| header: "rc_found c = None \<Longrightarrow> listen_header codec c = Some c' \<Longrightarrow> client_step codec c Silent c'"
| handle: "listen_handle codec c = Listened c' \<Longrightarrow> client_step codec c Silent c'"

inductive client_run :: "client_codec \<Rightarrow> bytes list \<Rightarrow> client_event list \<Rightarrow> rpc_client \<Rightarrow> bool" for codec input where
  start: "client_run codec input [] (new_client input)"
| steps: "client_run codec input evs c \<Longrightarrow> client_step codec c ev c' \<Longrightarrow> client_run codec input (evs @ [ev]) c'"

text \<open>A response under a number, with what follows its header.\<close>

definition response_at :: "client_codec \<Rightarrow> bytes list \<Rightarrow> responseHeader \<Rightarrow> bytes list \<Rightarrow> bool" where
  "response_at codec input h rest \<longleftrightarrow>
     (\<exists>pre obj h0. input = pre @ obj # rest \<and> cd_header codec h0 obj = Some h)"

definition says :: "client_codec \<Rightarrow> bytes list \<Rightarrow> 64 word \<Rightarrow> reply_kind \<Rightarrow> string option \<times> rpc_value option \<Rightarrow> bool" where
  "says codec input seq kind r \<longleftrightarrow>
     (\<exists>h rest. response_at codec input h rest \<and> rs_Seq h = seq \<and> call_reply codec kind h rest = r)"

definition call_ok :: "client_codec \<Rightarrow> bytes list \<Rightarrow> client_event list \<Rightarrow> 64 word \<Rightarrow> seqCallback \<Rightarrow> bool" where
  "call_ok codec input evs seq cb \<longleftrightarrow>
     (\<forall>e \<in> set (cb_errCh cb). Begun seq (cb_kind cb) \<in> set evs \<and> (\<exists>v. says codec input seq (cb_kind cb) (e, v)))
     \<and> (cb_value cb = NoValue
        \<or> Begun seq (cb_kind cb) \<in> set evs \<and> (\<exists>e. says codec input seq (cb_kind cb) (e, Some (cb_value cb))))"

definition client_inv :: "client_codec \<Rightarrow> bytes list \<Rightarrow> client_event list \<Rightarrow> rpc_client \<Rightarrow> bool" where
  "client_inv codec input evs c \<longleftrightarrow>
     (\<exists>pre. input = pre @ rc_input c)
     \<and> (\<forall>seq cb. rc_handlers c seq = CallHandler cb \<longrightarrow> call_ok codec input evs seq cb
          \<and> (seq \<in> set (rc_dispatch c) \<or> rc_found c = Some seq \<longrightarrow> Begun seq (cb_kind cb) \<in> set evs))
     \<and> (\<forall>seq. rc_found c = Some seq \<longrightarrow> rs_Seq (rc_header c) = seq \<and> response_at codec input (rc_header c) (rc_input c))"

lemma call_ok_new [simp]: "call_ok codec input evs seq (new_callback kind)"
  by (simp add: call_ok_def new_callback_def)

lemma call_ok_mono: "call_ok codec input evs seq cb \<Longrightarrow> call_ok codec input (evs @ [ev]) seq cb"
  by (auto simp: call_ok_def)

lemma client_inv_mono: "client_inv codec input evs c \<Longrightarrow> client_inv codec input (evs @ [ev]) c"
  by (fastforce simp: client_inv_def intro: call_ok_mono)

lemma Cleanup_call: "Cleanup sh = Some (CallHandler cb) \<Longrightarrow> sh = CallHandler cb"
  by (cases sh) (auto split: if_splits option.splits)

lemma Cleanup_CallHandler [simp]: "Cleanup sh = Some sh' \<Longrightarrow> sh' = CallHandler cb \<longleftrightarrow> sh = CallHandler cb"
  by (cases sh) (auto split: if_splits option.splits)

text \<open>What leaves the connection and the calls alone.\<close>

definition calls_kept :: "rpc_client \<Rightarrow> rpc_client \<Rightarrow> bool" where
  "calls_kept c c' \<longleftrightarrow> rc_input c' = rc_input c \<and> rc_header c' = rc_header c \<and> rc_found c' = rc_found c
     \<and> set (rc_dispatch c') \<subseteq> set (rc_dispatch c)
     \<and> (\<forall>seq cb. rc_handlers c' seq = CallHandler cb \<longrightarrow> rc_handlers c seq = CallHandler cb)"

lemma calls_kept_inv: "client_inv codec input evs c \<Longrightarrow> calls_kept c c' \<Longrightarrow> client_inv codec input evs c'"
proof -
  assume inv: "client_inv codec input evs c" and "calls_kept c c'"
  then have k: "rc_input c' = rc_input c" "rc_header c' = rc_header c" "rc_found c' = rc_found c"
    "set (rc_dispatch c') \<subseteq> set (rc_dispatch c)"
    "\<And>seq cb. rc_handlers c' seq = CallHandler cb \<Longrightarrow> rc_handlers c seq = CallHandler cb"
    by (auto simp: calls_kept_def)
  have "call_ok codec input evs seq cb \<and> (seq \<in> set (rc_dispatch c') \<or> rc_found c' = Some seq \<longrightarrow> Begun seq (cb_kind cb) \<in> set evs)"
    if "rc_handlers c' seq = CallHandler cb" for seq cb
    using inv k(3,4) k(5) [OF that] unfolding client_inv_def by auto
  then show ?thesis using inv k(1-3) by (simp add: client_inv_def)
qed

lemma calls_kept_trans: "calls_kept c c' \<Longrightarrow> calls_kept c' c'' \<Longrightarrow> calls_kept c c''"
  unfolding calls_kept_def by auto

lemma deregister_calls_kept: "client_deregister seq c = Some c' \<Longrightarrow> calls_kept c c'"
  by (auto simp: client_deregister_def calls_kept_def split: if_splits option.splits dest: Cleanup_call)

lemma deregister_all_calls_kept: "deregister_all seqs c = Some c' \<Longrightarrow> calls_kept c c'"
proof (induction seqs c rule: deregister_all.induct)
  case (2 seq seqs c)
  then obtain sh where sh: "Cleanup (rc_handlers c seq) = Some sh"
    "deregister_all seqs (c\<lparr>rc_handlers := (rc_handlers c)(seq := sh)\<rparr>) = Some c'" by (auto split: option.splits)
  have "calls_kept c (c\<lparr>rc_handlers := (rc_handlers c)(seq := sh)\<rparr>)"
    using sh(1) by (auto simp: calls_kept_def dest: Cleanup_call)
  with "2.IH" [OF sh] show ?case by (rule calls_kept_trans [rotated])
qed (auto simp: calls_kept_def)

lemma Close_calls_kept: "client_Close c = Some c' \<Longrightarrow> calls_kept c c'"
  by (auto simp: client_Close_def calls_kept_def split: if_splits dest!: deregister_all_calls_kept)

lemma listen_header_inv:
  assumes "client_inv codec input evs c" "rc_found c = None" "listen_header codec c = Some c'"
  shows "client_inv codec input evs c'"
proof (cases "fst (read_object (cd_header codec (rc_header c)) (rc_input c))")
  case None
  with assms(3) have close: "client_Close (c\<lparr>rc_input := tl (rc_input c)\<rparr>) = Some c'"
    by (auto simp: listen_header_def read_object_def split: list.splits prod.splits)
  obtain pre where "input = pre @ rc_input c" using assms(1) by (auto simp: client_inv_def)
  then have "\<exists>pre. input = pre @ tl (rc_input c)"
    by (cases "rc_input c") (auto intro: exI [of _ "pre @ [hd (rc_input c)]"])
  with assms(1,2) have "client_inv codec input evs (c\<lparr>rc_input := tl (rc_input c)\<rparr>)"
    by (auto simp: client_inv_def)
  then show ?thesis using Close_calls_kept [OF close] calls_kept_inv by blast
next
  case (Some h)
  then obtain obj rest where obj: "rc_input c = obj # rest" "cd_header codec (rc_header c) obj = Some h"
    by (auto simp: read_object_def split: list.splits)
  have c': "c' = c\<lparr>rc_header := h, rc_input := rest,
      rc_found := (if rs_Seq h \<in> set (rc_dispatch c) then Some (rs_Seq h) else None)\<rparr>"
    using assms(3) obj by (simp add: listen_header_def read_object_def)
  obtain pre where pre: "input = pre @ obj # rest" using assms(1) obj by (auto simp: client_inv_def)
  then have "response_at codec input h rest" "\<exists>pre. input = pre @ rest"
    using obj(2) by (auto simp: response_at_def intro: exI [of _ "pre @ [obj]"])
  with assms(1) show ?thesis by (auto simp: client_inv_def c')
qed

lemma handle_record_call: "handle_record decode act input sh = Handled sh' rest d \<Longrightarrow>
    (\<And>r x. act r = (Some (CallHandler x), d) \<Longrightarrow> False) \<Longrightarrow> sh \<noteq> CallHandler cb \<Longrightarrow> sh' \<noteq> CallHandler cb"
  by (auto simp: handle_record_def split: prod.splits option.splits)

lemma Handle_call:
  "Handle codec h input sh = Handled (CallHandler cb') rest d \<Longrightarrow>
     \<exists>cb. sh = CallHandler cb \<and> handle_call codec h input cb = Handled (CallHandler cb') rest d"
  by (cases sh) (auto simp: handle_record_def split: if_splits prod.splits option.splits)

lemma Handle_rest: "Handle codec h input sh = Handled sh' rest d \<Longrightarrow> rest = input \<or> rest = tl input"
  by (cases sh) (auto simp: handle_call_def Let_def handle_record_def read_object_def
      split: if_splits prod.splits option.splits list.splits)

lemma listen_handle_inv:
  assumes "client_inv codec input evs c" "listen_handle codec c = Listened c'"
  shows "client_inv codec input evs c'"
proof (cases "rc_found c")
  case (Some seq)
  obtain sh rest d where h: "Handle codec (rc_header c) (rc_input c) (rc_handlers c seq) = Handled sh rest d"
    using assms(2) Some by (auto simp: listen_handle_def split: handled.splits)
  let ?c = "c\<lparr>rc_handlers := (rc_handlers c)(seq := sh), rc_input := rest, rc_found := None\<rparr>"
  have r: "rs_Seq (rc_header c) = seq" "response_at codec input (rc_header c) (rc_input c)"
    using assms(1) Some by (auto simp: client_inv_def)
  obtain pre where "input = pre @ rc_input c" using assms(1) by (auto simp: client_inv_def)
  then have pre: "\<exists>pre. input = pre @ rest"
    using Handle_rest [OF h] by (cases "rc_input c") (auto intro: exI [of _ "pre @ [hd (rc_input c)]"])
  have "call_ok codec input evs seq cb \<and> Begun seq (cb_kind cb) \<in> set evs" if sh: "sh = CallHandler cb" for cb
  proof -
    obtain cb0 where cb0: "rc_handlers c seq = CallHandler cb0"
      "handle_call codec (rc_header c) (rc_input c) cb0 = Handled (CallHandler cb) rest d"
      using Handle_call h sh by blast
    have ok: "call_ok codec input evs seq cb0" "Begun seq (cb_kind cb0) \<in> set evs"
      using assms(1) cb0(1) Some by (auto simp: client_inv_def)
    obtain e v where ev: "call_reply codec (cb_kind cb0) (rc_header c) (rc_input c) = (e, v)" by fastforce
    then have "says codec input seq (cb_kind cb0) (e, v)" using r by (auto simp: says_def)
    then show ?thesis
      using cb0(2) ok ev by (auto simp: handle_call_def Let_def call_ok_def split: if_splits option.splits)
  qed
  then have "client_inv codec input evs ?c"
    using assms(1) pre Some by (auto simp: client_inv_def)
  then show ?thesis
    using assms(2) Some h by (auto simp: listen_handle_def Let_def split: if_splits option.splits
        dest!: deregister_calls_kept intro: calls_kept_inv)
qed (use assms in \<open>simp add: listen_handle_def\<close>)

lemma send_fields:
  "client_send codec header req c = (e, c') \<Longrightarrow> rc_input c' = rc_input c \<and> rc_header c' = rc_header c \<and> rc_found c' = rc_found c
     \<and> rc_dispatch c' = rc_dispatch c \<and> rc_handlers c' = rc_handlers c \<and> rc_seq c' = rc_seq c"
  by (auto simp: client_send_def split: if_splits option.splits)

lemma begin_call_inv:
  assumes "client_inv codec input evs c" "begin_call codec command req kind c = (e, seq, c')"
  shows "client_inv codec input (evs @ [Begun seq kind]) c'"
proof -
  let ?c1 = "handleSeq seq (CallHandler (new_callback kind)) (c\<lparr>rc_seq := seq\<rparr>)"
  obtain e2 c2 where s: "client_send codec \<lparr>rq_Command = command, rq_Seq = seq\<rparr> req ?c1 = (e2, c2)" by fastforce
  have c': "c' = c2 \<or> c' = c2\<lparr>rc_dispatch := removeAll seq (rc_dispatch c2)\<rparr>"
    using assms(2) s by (auto simp: begin_call_def Let_def split: prod.splits option.splits)
  have "client_inv codec input (evs @ [Begun seq kind]) ?c1"
    using client_inv_mono [OF assms(1), of "Begun seq kind"]
    by (auto simp: client_inv_def handleSeq_def) (simp_all add: new_callback_def)
  then have "client_inv codec input (evs @ [Begun seq kind]) c2"
    using send_fields [OF s] by (simp add: client_inv_def)
  moreover have "calls_kept c2 (c2\<lparr>rc_dispatch := removeAll seq (rc_dispatch c2)\<rparr>)" by (auto simp: calls_kept_def)
  ultimately show ?thesis using c' calls_kept_inv by blast
qed

lemma begin_stream_inv:
  assumes "client_inv codec input evs c" "new_stream sh" "begin_stream codec command req sh c = Some (e, seq, c')"
  shows "client_inv codec input evs c'"
proof -
  let ?c1 = "handleSeq (rc_seq c + 1) sh (c\<lparr>rc_seq := rc_seq c + 1\<rparr>)"
  obtain e2 c2 where s: "client_send codec \<lparr>rq_Command = command, rq_Seq = rc_seq c + 1\<rparr> (Some req) ?c1 = (e2, c2)" by fastforce
  have "client_inv codec input evs ?c1"
    using assms(1,2) by (auto simp: client_inv_def handleSeq_def)
  then have "client_inv codec input evs c2" using send_fields [OF s] by (simp add: client_inv_def)
  moreover have "c' = c2 \<or> client_deregister seq c2 = Some c'"
    using assms(3) s by (auto simp: begin_stream_def Let_def split: option.splits)
  ultimately show ?thesis by (auto dest: deregister_calls_kept intro: calls_kept_inv)
qed

lemma end_call_inv:
  assumes "client_inv codec input evs c" "end_call closed seq c = Some (r, c')"
  shows "client_inv codec input evs c'"
proof -
  obtain cb where cb: "rc_handlers c seq = CallHandler cb"
    using assms(2) by (auto simp: end_call_def split: seqHandler.splits)
  have ok: "call_ok codec input evs seq cb" using assms(1) cb by (simp add: client_inv_def)
  have "call_ok codec input evs seq (cb\<lparr>cb_errCh := es\<rparr>)" if "cb_errCh cb = e # es" for e es
    using ok unfolding call_ok_def by (auto simp: that)
  then show ?thesis
    using assms cb by (auto simp: end_call_def client_inv_def Let_def split: if_splits list.splits)
qed

lemma client_step_inv:
  assumes "client_step codec c ev c'" "client_inv codec input evs c"
  shows "client_inv codec input (evs @ [ev]) c'"
  using assms
proof cases
  case (call command req kind e seq)
  then show ?thesis using begin_call_inv assms(2) by blast
next
  case (return closed seq r)
  then show ?thesis using end_call_inv client_inv_mono assms(2) by blast
next
  case (stream sh command req e seq)
  then show ?thesis using begin_stream_inv client_inv_mono assms(2) by blast
next
  case (deregister seq)
  then show ?thesis using deregister_calls_kept calls_kept_inv client_inv_mono assms(2) by blast
next
  case close
  then show ?thesis using Close_calls_kept calls_kept_inv client_inv_mono assms(2) by blast
next
  case header
  then show ?thesis using listen_header_inv client_inv_mono assms(2) by blast
next
  case handle
  then show ?thesis using listen_handle_inv client_inv_mono assms(2) by blast
qed

lemma client_run_inv: "client_run codec input evs c \<Longrightarrow> client_inv codec input evs c"
proof (induction rule: client_run.induct)
  case start
  show ?case by (simp add: client_inv_def new_client_def)
qed (rule client_step_inv)

lemma end_call_says:
  assumes "client_inv codec input evs c" "end_call closed seq c = Some ((e, v), c')"
  shows "(e = Some clientClosed \<or> (\<exists>kind v'. Begun seq kind \<in> set evs \<and> says codec input seq kind (e, v')))
    \<and> (v = NoValue \<or> (\<exists>kind e'. Begun seq kind \<in> set evs \<and> says codec input seq kind (e', Some v)))"
proof -
  obtain cb where cb: "rc_handlers c seq = CallHandler cb"
    using assms(2) by (auto simp: end_call_def split: seqHandler.splits)
  then have ok: "call_ok codec input evs seq cb" using assms(1) by (simp add: client_inv_def)
  show ?thesis
    using assms(2) cb ok by (auto simp: end_call_def call_ok_def Let_def split: if_splits list.splits)
qed

lemma client_run_returned:
  "client_run codec input evs c \<Longrightarrow> Returned seq (e, v) \<in> set evs \<Longrightarrow>
     (e = Some clientClosed \<or> (\<exists>kind v'. Begun seq kind \<in> set evs \<and> says codec input seq kind (e, v')))
     \<and> (v = NoValue \<or> (\<exists>kind e'. Begun seq kind \<in> set evs \<and> says codec input seq kind (e', Some v)))"
proof (induction rule: client_run.induct)
  case (steps evs c ev c')
  show ?case
  proof (cases "Returned seq (e, v) \<in> set evs")
    case True
    with steps.IH show ?thesis by auto
  next
    case False
    with steps.prems have "ev = Returned seq (e, v)" by auto
    with steps.hyps(2) obtain closed where "end_call closed seq c = Some ((e, v), c')"
      by (auto elim: client_step.cases)
    from end_call_says [OF client_run_inv [OF steps.hyps(1)] this] show ?thesis by auto
  qed
qed simp

text \<open>C21: A call gets its own reply. In every interleaving of calls, streams, their ends and the reading of the
  connection, a call returns the error that a response under its own number says, unless the client was closed,
  and its value was decoded from the body behind such a response, as the kind of value the caller asked for.\<close>

theorem calls_get_their_own_replies:
  assumes "client_run codec input evs c" "Returned seq (e, v) \<in> set evs"
  shows "(e = Some clientClosed
      \<or> (\<exists>kind v' h rest. Begun seq kind \<in> set evs \<and> response_at codec input h rest \<and> rs_Seq h = seq
           \<and> call_reply codec kind h rest = (e, v')))
    \<and> (v = NoValue
      \<or> (\<exists>kind e' h rest. Begun seq kind \<in> set evs \<and> response_at codec input h rest \<and> rs_Seq h = seq
           \<and> call_reply codec kind h rest = (e', Some v)))"
  using client_run_returned [OF assms] unfolding says_def by blast

subsection \<open>No channel is used after it was closed\<close>

definition open_chan :: "'a chan option \<Rightarrow> bool" where
  "open_chan ch \<longleftrightarrow> (\<forall>c. ch = Some c \<longrightarrow> \<not> ch_closed c)"

fun handler_open :: "seqHandler \<Rightarrow> bool" where
  "handler_open (CallHandler cb) = True"
| "handler_open (MonitorHandler p ch) \<longleftrightarrow> \<not> sp_closed p \<and> open_chan ch"
| "handler_open (StreamHandler p ch) \<longleftrightarrow> \<not> sp_closed p \<and> open_chan ch"
| "handler_open (QueryHandler p ackCh respCh) \<longleftrightarrow> \<not> sp_closed p \<and> open_chan ackCh \<and> open_chan respCh"

text \<open>
  What registers handlers promises: those registered are open and cleaning them up works; and
  handling a response keeps them open.
\<close>

lemma open_chan_ops:
  "open_chan ch \<Longrightarrow> close_given ch \<noteq> None" "open_chan ch \<Longrightarrow> offer_to x ch \<noteq> None"
  "open_chan ch \<Longrightarrow> offer_to x ch = Some ch' \<Longrightarrow> open_chan ch'"
  by (auto simp: open_chan_def close_given_def chan_close_def offer_to_def chan_offer_def split: option.splits if_splits)

lemma open_close: "open_chan ch \<Longrightarrow> \<exists>ch'. close_given ch = Some ch'"
  using open_chan_ops(1) [of ch] by blast

lemma open_Cleanup: "handler_open sh \<Longrightarrow> \<exists>sh'. Cleanup sh = Some sh'"
  by (cases sh) (auto dest!: open_close)

lemma open_handle_record:
  assumes "handler_open sh" "\<And>r. \<exists>sh' d. act r = (Some sh', d) \<and> handler_open sh'"
  shows "handle_record decode act input sh \<noteq> HandlePanics"
    and "handle_record decode act input sh = Handled sh' rest d \<Longrightarrow> handler_open sh'"
proof -
  have "handle_record decode act input sh \<noteq> HandlePanics
    \<and> (handle_record decode act input sh = Handled sh' rest d \<longrightarrow> handler_open sh')"
  proof (cases "read_object decode input")
    case (Pair obj rest')
    show ?thesis
    proof (cases obj)
      case (Some r)
      from assms(2) [of r] obtain sh2 d2 where "act r = (Some sh2, d2)" "handler_open sh2" by blast
      then show ?thesis using Pair Some by (auto simp: handle_record_def)
    qed (use assms(1) Pair in \<open>auto simp: handle_record_def\<close>)
  qed
  then show "handle_record decode act input sh \<noteq> HandlePanics"
    and "handle_record decode act input sh = Handled sh' rest d \<Longrightarrow> handler_open sh'" by blast+
qed

lemma open_offer: "open_chan ch \<Longrightarrow> \<exists>ch'. offer_to x ch = Some ch' \<and> open_chan ch'"
  by (cases ch) (auto simp: open_chan_def offer_to_def chan_offer_def)

lemma open_Handle:
  assumes "handler_open sh"
  shows "Handle codec h input sh \<noteq> HandlePanics"
    and "Handle codec h input sh = Handled sh' rest d \<Longrightarrow> handler_open sh'"
proof -
  have *: "Handle codec h input sh \<noteq> HandlePanics
    \<and> (Handle codec h input sh = Handled sh' rest d \<longrightarrow> handler_open sh')"
  proof (cases sh)
    case (CallHandler cb)
    then show ?thesis by (auto simp: handle_call_def Let_def split: prod.splits)
  next
    case (MonitorHandler p ch)
    have "\<exists>sh' d. (map_option (MonitorHandler p) (offer_to l ch), False) = (Some sh', d) \<and> handler_open sh'" for l
      using assms MonitorHandler open_offer [of ch l] by auto
    from open_handle_record [of sh "\<lambda>l. (map_option (MonitorHandler p) (offer_to l ch), False)", OF assms this] show ?thesis
      using MonitorHandler assms by (auto simp: init_part_def)
  next
    case (StreamHandler p ch)
    have "\<exists>sh' d. (map_option (StreamHandler p) (offer_to r ch), False) = (Some sh', d) \<and> handler_open sh'" for r
      using assms StreamHandler open_offer [of ch r] by auto
    from open_handle_record [of sh "\<lambda>r. (map_option (StreamHandler p) (offer_to r ch), False)", OF assms this] show ?thesis
      using StreamHandler assms by (auto simp: init_part_def)
  next
    case (QueryHandler p ackCh respCh)
    let ?act = "\<lambda>r. if rec_Type r = ''ack'' then
                (map_option (\<lambda>c. QueryHandler p c respCh) (offer_to (rec_From r) ackCh), False)
              else if rec_Type r = ''response'' then
                (map_option (QueryHandler p ackCh)
                   (offer_to \<lparr>nr_From = rec_From r, nr_Payload = rec_Payload r\<rparr> respCh), False)
              else (Some (QueryHandler p ackCh respCh), rec_Type r = ''done'')"
    have q: "\<not> sp_closed p" "open_chan ackCh" "open_chan respCh" using assms QueryHandler by simp_all
    have "\<exists>sh' d. ?act r = (Some sh', d) \<and> handler_open sh'" for r
    proof -
      obtain a where "offer_to (rec_From r) ackCh = Some a" "open_chan a" using open_offer [OF q(2)] by blast
      moreover obtain b where "offer_to \<lparr>nr_From = rec_From r, nr_Payload = rec_Payload r\<rparr> respCh = Some b" "open_chan b"
        using open_offer [OF q(3)] by blast
      ultimately show ?thesis using q by auto
    qed
    from open_handle_record [of sh ?act, OF assms this] show ?thesis
      using QueryHandler assms by (auto simp: init_part_def)
  qed
  then show "Handle codec h input sh \<noteq> HandlePanics"
    and "Handle codec h input sh = Handled sh' rest d \<Longrightarrow> handler_open sh'" by blast+
qed

lemma open_new_stream: "new_stream sh \<Longrightarrow> handler_open sh"
  by (cases sh) (auto simp: new_part_def open_chan_def)

text \<open>
  The state in which nothing can panic: registered handlers are open, and so is the one that
  \<open>listen\<close> is about to call.
\<close>

definition client_calm :: "rpc_client \<Rightarrow> bool" where
  "client_calm c \<longleftrightarrow> distinct (rc_dispatch c)
     \<and> (\<forall>seq \<in> set (rc_dispatch c). handler_open (rc_handlers c seq))
     \<and> (\<forall>seq. rc_found c = Some seq \<longrightarrow> handler_open (rc_handlers c seq))"

text \<open>The handler that was looked up is not cleaned up before it has run.\<close>

definition found_kept :: "rpc_client \<Rightarrow> rpc_client \<Rightarrow> bool" where
  "found_kept c c' \<longleftrightarrow> (\<forall>seq. rc_found c = Some seq \<and> rc_found c' = Some seq \<and> handler_open (rc_handlers c seq)
     \<longrightarrow> handler_open (rc_handlers c' seq))"

inductive calm_run :: "client_codec \<Rightarrow> bytes list \<Rightarrow> rpc_client \<Rightarrow> bool" for codec input where
  start: "calm_run codec input (new_client input)"
| steps: "calm_run codec input c \<Longrightarrow> client_step codec c ev c' \<Longrightarrow> found_kept c c' \<Longrightarrow> calm_run codec input c'"

lemma deregister_open:
  assumes "distinct (rc_dispatch c)" "\<forall>seq \<in> set (rc_dispatch c). handler_open (rc_handlers c seq)"
  shows "\<exists>c'. client_deregister seq c = Some c' \<and> distinct (rc_dispatch c')
    \<and> (\<forall>seq \<in> set (rc_dispatch c'). handler_open (rc_handlers c' seq)) \<and> rc_found c' = rc_found c"
proof (cases "seq \<in> set (rc_dispatch c)")
  case True
  then obtain sh where "Cleanup (rc_handlers c seq) = Some sh" using open_Cleanup assms(2) by blast
  with True assms show ?thesis by (auto simp: client_deregister_def distinct_removeAll)
qed (use assms in \<open>auto simp: client_deregister_def\<close>)

lemma deregister_all_open:
  "distinct seqs \<Longrightarrow> \<forall>seq \<in> set seqs. handler_open (rc_handlers c seq) \<Longrightarrow>
     \<exists>c'. deregister_all seqs c = Some c' \<and> rc_dispatch c' = [] \<and> rc_found c' = rc_found c"
proof (induction seqs c rule: deregister_all.induct)
  case (2 seq seqs c)
  then obtain sh where sh: "Cleanup (rc_handlers c seq) = Some sh" using open_Cleanup by fastforce
  have "\<forall>s \<in> set seqs. handler_open (rc_handlers (c\<lparr>rc_handlers := (rc_handlers c)(seq := sh)\<rparr>) s)"
    using "2.prems" by auto
  from "2.IH" [OF sh _ this] "2.prems"(1) sh show ?case by auto
qed simp

lemma Close_open:
  assumes "distinct (rc_dispatch c)" "\<forall>seq \<in> set (rc_dispatch c). handler_open (rc_handlers c seq)"
  shows "\<exists>c'. client_Close c = Some c' \<and> distinct (rc_dispatch c')
    \<and> (\<forall>seq \<in> set (rc_dispatch c'). handler_open (rc_handlers c' seq)) \<and> rc_found c' = rc_found c"
proof (cases "rc_shutdown c")
  case False
  have "\<forall>seq \<in> set (rc_dispatch c). handler_open (rc_handlers (c\<lparr>rc_shutdown := True\<rparr>) seq)" using assms(2) by simp
  from deregister_all_open [OF assms(1) this] False show ?thesis by (auto simp: client_Close_def)
qed (use assms in \<open>auto simp: client_Close_def\<close>)

lemma begin_stream_open:
  assumes "distinct (rc_dispatch c)" "\<forall>seq \<in> set (rc_dispatch c). handler_open (rc_handlers c seq)" "new_stream sh"
  shows "\<exists>e seq c'. begin_stream codec command req sh c = Some (e, seq, c') \<and> distinct (rc_dispatch c')
    \<and> (\<forall>seq \<in> set (rc_dispatch c'). handler_open (rc_handlers c' seq)) \<and> rc_found c' = rc_found c"
proof -
  let ?c1 = "handleSeq (rc_seq c + 1) sh (c\<lparr>rc_seq := rc_seq c + 1\<rparr>)"
  obtain e2 c2 where s: "client_send codec \<lparr>rq_Command = command, rq_Seq = rc_seq c + 1\<rparr> (Some req) ?c1 = (e2, c2)" by fastforce
  have "distinct (rc_dispatch ?c1)" "\<forall>seq \<in> set (rc_dispatch ?c1). handler_open (rc_handlers ?c1 seq)"
    using assms open_new_stream by (auto simp: handleSeq_def)
  then have c2: "distinct (rc_dispatch c2)" "\<forall>seq \<in> set (rc_dispatch c2). handler_open (rc_handlers c2 seq)"
    "rc_found c2 = rc_found c" using send_fields [OF s] by (simp_all add: handleSeq_def)
  show ?thesis
    using deregister_open [OF c2(1,2), of "rc_seq c + 1"] c2 s
    by (cases e2) (auto simp: begin_stream_def Let_def)
qed

lemma listen_header_open:
  assumes "client_calm c"
  shows "\<exists>c'. listen_header codec c = Some c' \<and> (rc_found c = None \<longrightarrow> client_calm c')"
proof (cases "read_object (cd_header codec (rc_header c)) (rc_input c)")
  case (Pair obj rest)
  show ?thesis
  proof (cases obj)
    case None
    have "distinct (rc_dispatch (c\<lparr>rc_input := rest\<rparr>))"
      "\<forall>seq \<in> set (rc_dispatch (c\<lparr>rc_input := rest\<rparr>)). handler_open (rc_handlers (c\<lparr>rc_input := rest\<rparr>) seq)"
      using assms by (simp_all add: client_calm_def)
    from Close_open [OF this] None Pair show ?thesis by (auto simp: listen_header_def client_calm_def)
  qed (use assms Pair in \<open>auto simp: listen_header_def client_calm_def\<close>)
qed

lemma listen_handle_open:
  assumes "client_calm c"
  shows "listen_handle codec c \<noteq> ListenPanics"
    and "listen_handle codec c = Listened c' \<Longrightarrow> client_calm c'"
proof -
  have "listen_handle codec c \<noteq> ListenPanics \<and> (listen_handle codec c = Listened c' \<longrightarrow> client_calm c')"
  proof (cases "rc_found c")
    case (Some seq)
    then have op: "handler_open (rc_handlers c seq)" using assms by (simp add: client_calm_def)
    show ?thesis
    proof (cases "Handle codec (rc_header c) (rc_input c) (rc_handlers c seq)")
      case (Handled sh rest d)
      let ?c = "c\<lparr>rc_handlers := (rc_handlers c)(seq := sh), rc_input := rest, rc_found := None\<rparr>"
      have "distinct (rc_dispatch ?c)" "\<forall>s \<in> set (rc_dispatch ?c). handler_open (rc_handlers ?c s)"
        using assms open_Handle(2) [OF op Handled] by (auto simp: client_calm_def)
      then show ?thesis
        using deregister_open [of ?c seq] Some Handled
        by (auto simp: listen_handle_def Let_def client_calm_def)
    qed (use open_Handle(1) [OF op] Some in \<open>auto simp: listen_handle_def\<close>)
  qed (use assms in \<open>auto simp: listen_handle_def\<close>)
  then show "listen_handle codec c \<noteq> ListenPanics"
    and "listen_handle codec c = Listened c' \<Longrightarrow> client_calm c'" by blast+
qed

lemma calm_step:
  assumes "client_step codec c ev c'" "found_kept c c'" "client_calm c"
  shows "client_calm c'"
proof -
  have k: "distinct (rc_dispatch c)" "\<forall>seq \<in> set (rc_dispatch c). handler_open (rc_handlers c seq)"
    using assms(3) by (auto simp: client_calm_def)
  have calm: "client_calm c'" if "distinct (rc_dispatch c')" "\<forall>seq \<in> set (rc_dispatch c'). handler_open (rc_handlers c' seq)"
    "rc_found c' = rc_found c"
    using that assms(2,3) by (auto simp: client_calm_def found_kept_def)
  from assms(1) show ?thesis
  proof cases
    case (call command req kind e seq)
    let ?c1 = "handleSeq (rc_seq c + 1) (CallHandler (new_callback kind)) (c\<lparr>rc_seq := rc_seq c + 1\<rparr>)"
    obtain e2 c2 where s: "client_send codec \<lparr>rq_Command = command, rq_Seq = rc_seq c + 1\<rparr> req ?c1 = (e2, c2)" by fastforce
    have "distinct (rc_dispatch c')" "\<forall>seq \<in> set (rc_dispatch c'). handler_open (rc_handlers c' seq)" "rc_found c' = rc_found c"
      using call(2) s send_fields [OF s] k
      by (auto simp: begin_call_def Let_def handleSeq_def distinct_removeAll split: option.splits)
    then show ?thesis by (rule calm)
  next
    case (return closed seq r)
    then have "distinct (rc_dispatch c')" "\<forall>seq \<in> set (rc_dispatch c'). handler_open (rc_handlers c' seq)" "rc_found c' = rc_found c"
      using k by (auto simp: end_call_def Let_def distinct_removeAll split: seqHandler.splits if_splits list.splits)
    then show ?thesis by (rule calm)
  next
    case (stream sh command req e seq)
    from begin_stream_open [OF k stream(2), of codec command req] stream(3)
    show ?thesis by (auto intro: calm)
  next
    case (deregister seq)
    with deregister_open [OF k, of seq] show ?thesis by (auto intro: calm)
  next
    case close
    with Close_open [OF k] show ?thesis by (auto intro: calm)
  next
    case header
    with listen_header_open [OF assms(3), of codec] show ?thesis by auto
  next
    case handle
    with listen_handle_open(2) [OF assms(3)] show ?thesis by blast
  qed
qed

lemma calm_run_calm: "calm_run codec input c \<Longrightarrow> client_calm c"
proof (induction rule: calm_run.induct)
  case start
  show ?case by (simp add: client_calm_def new_client_def)
qed (rule calm_step)

text \<open>C22: The client never panics, in any interleaving in which no handler is cleaned up between the moment
  the reader of the connection looks it up and its call: reading and handling responses, closing,
  stopping and opening streams all work in every state that can be reached.\<close>

theorem client_never_panics:
  assumes "calm_run codec input c"
  shows "listen_header codec c \<noteq> None \<and> listen_handle codec c \<noteq> ListenPanics \<and> client_Close c \<noteq> None
    \<and> client_deregister seq c \<noteq> None \<and> (new_stream sh \<longrightarrow> begin_stream codec command req sh c \<noteq> None)"
proof -
  note calm = calm_run_calm [OF assms]
  then have k: "distinct (rc_dispatch c)" "\<forall>seq \<in> set (rc_dispatch c). handler_open (rc_handlers c seq)"
    by (auto simp: client_calm_def)
  have "listen_header codec c \<noteq> None" using listen_header_open [OF calm, of codec] by auto
  moreover have "listen_handle codec c \<noteq> ListenPanics" by (rule listen_handle_open(1) [OF calm])
  moreover have "client_Close c \<noteq> None" using Close_open [OF k] by auto
  moreover have "client_deregister seq c \<noteq> None" using deregister_open [OF k, of seq] by auto
  moreover have "begin_stream codec command req sh c \<noteq> None" if "new_stream sh"
    using begin_stream_open [OF k that, of codec command req] by auto
  ultimately show ?thesis by blast
qed

text \<open>
  When a stream is stopped, or the client closed, after the reader has looked its handler up, the
  record is sent to a closed channel.
\<close>

lemma stop_races_with_record:
  assumes "rc_found c = Some seq" "seq \<in> set (rc_dispatch c)" "rc_handlers c seq = StreamHandler p (Some ch)"
    and "sp_init p" "\<not> sp_closed p" "\<not> ch_closed ch" "rc_input c = obj # rest" "cd_event codec obj = Some r"
  shows "\<exists>c'. client_deregister seq c = Some c' \<and> listen_handle codec c' = ListenPanics"
  using assms
  by (auto simp: client_deregister_def close_given_def chan_close_def listen_handle_def cleanup_part_def
      handle_record_def read_object_def offer_to_def chan_offer_def)

text \<open>A stream that the server refuses stays registered: its channel is closed only with the client.\<close>

lemma refused_stream_stays_registered:
  assumes "handler_part (rc_handlers c seq) = Some p" "sp_initCh p = [Some e]"
  shows "end_stream False seq c = Some (Some e, Some c)"
  using assms by (simp add: end_stream_def)

text \<open>
  Errors of the server other than the missing key are expected to come with the body the caller
  wants; one that does not takes the next response for the body, or the end of the connection.
\<close>

lemma error_without_body_is_lost:
  assumes "kind \<noteq> NoReply" "e \<noteq> authRequired"
  shows "call_reply codec kind \<lparr>rs_Seq = seq, rs_Error = e\<rparr> [] = (Some decode_error, None)"
  using assms by (simp add: call_reply_def wants_body_def read_object_def)

subsection \<open>The handler of queries is that of the polling loop\<close>

definition as_query_handler :: "bool \<Rightarrow> seqHandler \<Rightarrow> query_handler \<Rightarrow> bool" where
  "as_query_handler registered sh q \<longleftrightarrow>
     (case sh of
        QueryHandler p (Some a) (Some r) \<Rightarrow>
          q = \<lparr>qh_registered = registered, qh_closed = sp_closed p, qh_init = sp_init p,
               qh_initCh = (case sp_initCh p of [] \<Rightarrow> None | e # _ \<Rightarrow> Some e), qh_ackCh = a, qh_respCh = r\<rparr>
          \<and> (\<not> sp_init p \<longrightarrow> sp_initCh p = [])
      | _ \<Rightarrow> False)"

text \<open>A response that reaches a registered handler has the effect that \<open>Query\<close> reckons with.\<close>

lemma query_handler_agrees:
  assumes "as_query_handler True sh q" "Handle codec h (obj # rest) sh = Handled sh' rest' d"
  shows "if d then deregisterHandler q = queryHandler_Handle (rs_Error h) (cd_query codec obj) q \<and> sh' = sh
    else \<exists>q'. queryHandler_Handle (rs_Error h) (cd_query codec obj) q = Some q' \<and> as_query_handler True sh' q'"
proof -
  obtain p a r where sh: "sh = QueryHandler p (Some a) (Some r)"
    using assms(1) by (auto simp: as_query_handler_def split: seqHandler.splits option.splits)
  have q: "q = \<lparr>qh_registered = True, qh_closed = sp_closed p, qh_init = sp_init p,
               qh_initCh = (case sp_initCh p of [] \<Rightarrow> None | e # _ \<Rightarrow> Some e), qh_ackCh = a, qh_respCh = r\<rparr>"
    "\<not> sp_init p \<longrightarrow> sp_initCh p = []"
    using assms(1) by (simp_all add: as_query_handler_def sh)
  show ?thesis
  proof (cases "sp_init p")
    case False
    then show ?thesis
      using assms(2) q by (auto simp: sh as_query_handler_def queryHandler_Handle_def init_part_def)
  next
    case True
    then show ?thesis
      using assms(2) q
      by (cases "cd_query codec obj")
         (auto simp: sh as_query_handler_def queryHandler_Handle_def handle_record_def read_object_def offer_to_def
           split: if_splits option.splits)
  qed
qed

subsection \<open>Instances\<close>

text \<open>An object of one byte is a header without an error under that number, a longer one is a record.\<close>

definition demo_client_codec :: client_codec where
  "demo_client_codec =
     \<lparr>cd_header = (\<lambda>_ obj. case obj of [b] \<Rightarrow> Some \<lparr>rs_Seq = ucast b, rs_Error = []\<rparr> | _ \<Rightarrow> None),
      cd_reply = (\<lambda>_ _. None), cd_log = (\<lambda>_. None), cd_event = (\<lambda>obj. Some [''Event'' \<mapsto> obj]), cd_query = (\<lambda>_. None),
      cd_write = (\<lambda>_ _. None)\<rparr>"

lemma demo_answered_run:
  "\<exists>c. client_run demo_client_codec [[1]] [Begun 1 NoReply, Silent, Silent, Returned 1 (None, NoValue)] c"
proof -
  let ?c0 = "new_client [[1]]"
  let ?c1 = "?c0\<lparr>rc_seq := 1, rc_dispatch := [1], rc_handlers := (rc_handlers ?c0)(1 := CallHandler (new_callback NoReply)),
    rc_written := [(\<lparr>rq_Command = ''leave'', rq_Seq = 1\<rparr>, None)]\<rparr>"
  have 1: "client_step demo_client_codec ?c0 (Begun 1 NoReply) ?c1"
    by (rule client_step.call [where command = "''leave''" and req = None and e = None])
       (simp add: begin_call_def new_client_def handleSeq_def client_send_def demo_client_codec_def)
  let ?c2 = "?c1\<lparr>rc_header := \<lparr>rs_Seq = 1, rs_Error = []\<rparr>, rc_input := [], rc_found := Some 1\<rparr>"
  have 2: "client_step demo_client_codec ?c1 Silent ?c2"
    by (rule client_step.header) (simp_all add: listen_header_def read_object_def new_client_def demo_client_codec_def)
  let ?c3 = "?c2\<lparr>rc_handlers := (rc_handlers ?c2)(1 := CallHandler ((new_callback NoReply)\<lparr>cb_errCh := [None]\<rparr>)), rc_found := None\<rparr>"
  have 3: "client_step demo_client_codec ?c2 Silent ?c3"
    by (rule client_step.handle)
       (simp add: listen_handle_def handle_call_def call_reply_def wants_body_def new_callback_def strToError_def Let_def)
  have 4: "\<exists>c4. client_step demo_client_codec ?c3 (Returned 1 (None, NoValue)) c4"
    by (rule exI, rule client_step.return [where closed = False]) (simp add: end_call_def new_callback_def)
  from 4 obtain c4 where "client_step demo_client_codec ?c3 (Returned 1 (None, NoValue)) c4" by blast
  from client_run.steps [OF client_run.steps [OF client_run.steps [OF client_run.steps [OF client_run.start 1] 2] 3] this]
  show ?thesis by auto
qed

lemma calls_get_their_own_replies_witness:
  "\<exists>kind v' h rest. Begun 1 kind \<in> set [Begun 1 NoReply, Silent, Silent, Returned 1 (None, NoValue)]
     \<and> response_at demo_client_codec [[1]] h rest \<and> rs_Seq h = 1 \<and> call_reply demo_client_codec kind h rest = (None, v')"
proof -
  obtain c where "client_run demo_client_codec [[1]] [Begun 1 NoReply, Silent, Silent, Returned 1 (None, NoValue)] c"
    using demo_answered_run by blast
  from calls_get_their_own_replies [OF this, of 1 None NoValue] show ?thesis by simp
qed

lemma client_never_panics_witness:
  "\<exists>c. rc_dispatch c = [1] \<and> listen_header demo_client_codec c \<noteq> None \<and> listen_handle demo_client_codec c \<noteq> ListenPanics
     \<and> client_Close c \<noteq> None \<and> client_deregister 1 c \<noteq> None"
proof -
  let ?sh = "StreamHandler new_part (Some (make_chan 1))"
  obtain c where b: "begin_stream demo_client_codec ''stream'' (StreamReq []) ?sh (new_client [[1], [1], [2, 3]]) = Some (None, 1, c)"
    "rc_dispatch c = [1]" "rc_found c = None"
    by (simp add: begin_stream_def new_client_def handleSeq_def client_send_def demo_client_codec_def)
  have "new_stream ?sh" by (simp add: make_chan_def)
  then have "client_step demo_client_codec (new_client [[1], [1], [2, 3]]) Silent c"
    using b(1) by (rule client_step.stream)
  moreover have "found_kept (new_client [[1], [1], [2, 3]]) c" by (simp add: found_kept_def new_client_def)
  ultimately have "calm_run demo_client_codec [[1], [1], [2, 3]] c" by (rule calm_run.steps [OF calm_run.start])
  from client_never_panics [OF this, of 1] b(2) show ?thesis by blast
qed

end
