(* ===== verification/RpcSession.thy ===== *)
theory RpcSession
  imports RpcClientProps ClusterQuery
begin

section \<open>Client and server of the RPC connection\<close>

text \<open>
  The client of \<open>RpcClient\<close> talks to the server of \<open>AgentServer\<close>. What one side writes the other reads:
  the encodings of the two ends agree. Together they are the connection that the query of the
  command line takes as given: the theorems say what it can rely on.
\<close>

subsection \<open>The server at work\<close>

text \<open>\<open>handleClient\<close> over the objects that have arrived, with whether it ended and the last header.\<close>

function serve ::
  "(respond_error \<Rightarrow> string) \<Rightarrow> ipc_env \<Rightarrow> requestHeader \<Rightarrow> bytes list \<Rightarrow> connection \<Rightarrow> (bool \<times> requestHeader \<times> connection) option" where
  "serve str env h [] c = Some (False, h, c)"
| "serve str env h (obj # objs) c =
     (case id_header (ie_codec env) h obj of
        None \<Rightarrow> Some (True, h, c)
      | Some h' \<Rightarrow>
          (case handleRequest str env h' objs (cn_client c) (cn_node c) (cn_agent c) of
             None \<Rightarrow> None
           | Some (r, a, used) \<Rightarrow>
               if ir_err r \<noteq> None then Some (True, h', after_request r a c)
               else serve str env h' (drop (if used then 1 else 0) objs) (after_request r a c)))"
  by pat_completeness auto
termination by (relation "measure (\<lambda>(_, _, _, objs, _). length objs)") auto

declare serve.simps(2) [simp del]

lemma serve_handleClient: "map_option (\<lambda>(_, _, c). c) (serve str env h objs c) = handleClient str env h objs c"
proof (induction str env h objs c rule: serve.induct)
  case (2 str env h obj objs c)
  show ?case
    using "2.IH" by (auto simp: serve.simps(2) handleClient_cons split: option.splits prod.splits)
qed simp

text \<open>How each end writes what the other reads. A reply without a body is a header alone.\<close>

record rpc_wire =
  wr_header :: "requestHeader \<Rightarrow> bytes"
  wr_request :: "rpc_request \<Rightarrow> bytes"
  wr_reply :: "responseHeader \<Rightarrow> bytes"
  wr_body :: "ipc_body \<Rightarrow> bytes"

definition reply_objects :: "rpc_wire \<Rightarrow> ipc_reply \<Rightarrow> bytes list" where
  "reply_objects w r =
     wr_reply w \<lparr>rs_Seq = rp_Seq r, rs_Error = rp_Error r\<rparr> # (if rp_Body r = NoBody then [] else [wr_body w (rp_Body r)])"

definition request_objects :: "rpc_wire \<Rightarrow> requestHeader \<times> rpc_request option \<Rightarrow> bytes list" where
  "request_objects w rq = wr_header w (fst rq) # (case snd rq of None \<Rightarrow> [] | Some r \<Rightarrow> [wr_request w r])"

text \<open>A server that panics is gone, and its connections with it.\<close>

definition agent_server ::
  "(respond_error \<Rightarrow> string) \<Rightarrow> ipc_env \<Rightarrow> rpc_wire \<Rightarrow> (requestHeader \<times> connection) rpc_server" where
  "agent_server str env w rq hc =
     (case serve str env (fst hc) (request_objects w rq) (snd hc) of
        None \<Rightarrow> ([], True, hc)
      | Some (closed, h, c) \<Rightarrow>
          (concat (map (reply_objects w) (drop (length (cn_sent (snd hc))) (cn_sent c))), closed, h, c))"

text \<open>A member as the client sees it.\<close>

definition client_view :: "ipc_Member \<Rightarrow> client_member" where
  "client_view m =
     \<lparr>cm_name = im_Name m, cm_addr = im_Addr m, cm_port = im_Port m, cm_tags = im_Tags m, cm_status = im_Status m,
      cm_protocol = (im_ProtocolMin m, im_ProtocolMax m, im_ProtocolCur m),
      cm_delegate = (im_DelegateMin m, im_DelegateMax m, im_DelegateCur m)\<rparr>"

text \<open>
  What the encodings are relied on for: what was written is read back, for a query \<open>q\<close> and the
  members \<open>ms\<close> in the reply. The tags of a filter are read in some order. Writes do not fail.
\<close>

definition wire_ok ::
  "ipc_env \<Rightarrow> client_codec \<Rightarrow> rpc_wire \<Rightarrow> ((string \<rightharpoonup> string) \<Rightarrow> (string \<times> string) list) \<Rightarrow> query_param \<Rightarrow> ipc_Member list \<Rightarrow> bool" where
  "wire_ok env codec w order q ms \<longleftrightarrow>
     (\<forall>h h'. id_header (ie_codec env) h' (wr_header w h) = Some h)
     \<and> id_handshake (ie_codec env) (wr_request w (HandshakeReq maxIPCVersion)) = Some maxIPCVersion
     \<and> (\<forall>k. id_auth (ie_codec env) (wr_request w (AuthReq k)) = Some k)
     \<and> id_members (ie_codec env) (wr_request w (MembersFilteredReq (qp_FilterTags q) [] []))
          = Some \<lparr>mfr_Tags = order (qp_FilterTags q), mfr_Status = [], mfr_Name = []\<rparr>
     \<and> id_query (ie_codec env) (wr_request w (QueryReq q))
          = Some \<lparr>qrq_FilterNodes = qp_FilterNodes q, qrq_FilterTags = order (qp_FilterTags q), qrq_RequestAck = qp_RequestAck q,
              qrq_Timeout = qp_Timeout q, qrq_Name = qp_Name q, qrq_Payload = Some (qp_Payload q)\<rparr>
     \<and> (\<forall>h h'. cd_header codec h' (wr_reply w h) = Some h)
     \<and> cd_reply codec MembersReply (wr_body w (MembersBody ms)) = Some (MembersValue (map client_view ms))
     \<and> (\<forall>h rq. cd_write codec h rq = None) \<and> (\<forall>r. ie_send env r = None)"

subsection \<open>One call of a client that has nothing else to do\<close>

definition idle :: "rpc_client \<Rightarrow> bool" where
  "idle c \<longleftrightarrow> \<not> rc_shutdown c \<and> rc_input c = [] \<and> rc_found c = None"

lemma sync_call_answered:
  assumes "idle c" "cd_write codec \<lparr>rq_Command = command, rq_Seq = rc_seq c + 1\<rparr> req = None"
    and "server (\<lparr>rq_Command = command, rq_Seq = rc_seq c + 1\<rparr>, req) s = (obj # rest, closed, s')"
    and "cd_header codec (rc_header c) obj = Some \<lparr>rs_Seq = rc_seq c + 1, rs_Error = e\<rparr>"
    and "call_reply codec kind \<lparr>rs_Seq = rc_seq c + 1, rs_Error = e\<rparr> rest = (err, v)"
  shows "\<exists>c'. sync_call codec (begin_call codec command req kind) server (c, s)
      = Some ((err, case v of None \<Rightarrow> NoValue | Some v \<Rightarrow> v), c', s')
    \<and> \<not> rc_shutdown c' \<and> rc_found c' = None \<and> rc_seq c' = rc_seq c + 1
    \<and> rc_input c' = (if wants_body \<lparr>rs_Seq = rc_seq c + 1, rs_Error = e\<rparr> kind then tl rest else rest)
    \<and> rc_dispatch c' = removeAll (rc_seq c + 1) (rc_dispatch c)"
proof -
  let ?seq = "rc_seq c + 1"
  let ?h = "\<lparr>rs_Seq = ?seq, rs_Error = e\<rparr>"
  let ?c1 = "handleSeq ?seq (CallHandler (new_callback kind)) (c\<lparr>rc_seq := ?seq\<rparr>)"
  let ?c2 = "?c1\<lparr>rc_written := rc_written c @ [(\<lparr>rq_Command = command, rq_Seq = ?seq\<rparr>, req)]\<rparr>"
  let ?c3 = "?c2\<lparr>rc_input := obj # rest\<rparr>"
  let ?c4 = "?c3\<lparr>rc_header := ?h, rc_input := rest, rc_found := Some ?seq\<rparr>"
  let ?cb = "(new_callback kind)\<lparr>cb_errCh := [err], cb_value := (case v of None \<Rightarrow> NoValue | Some v \<Rightarrow> v)\<rparr>"
  let ?c5 = "?c4\<lparr>rc_handlers := (rc_handlers ?c4)(?seq := CallHandler ?cb),
    rc_input := (if wants_body ?h kind then tl rest else rest), rc_found := None\<rparr>"
  have b: "begin_call codec command req kind c = (None, ?seq, ?c2)"
    using assms(1,2) by (simp add: begin_call_def client_send_def handleSeq_def idle_def Let_def)
  have h: "listen_header codec ?c3 = Some ?c4"
    using assms(4) by (simp add: listen_header_def read_object_def handleSeq_def)
  have "listen_handle codec ?c4 = Listened ?c5"
    using assms(5) by (cases v) (simp_all add: listen_handle_def handle_call_def new_callback_def handleSeq_def Let_def)
  then have t: "listen_turn codec ?c3 = Some ?c5" by (simp add: listen_turn_def h)
  have "\<not> call_ready ?seq ?c3"
    using assms(1) by (simp add: call_ready_def handleSeq_def new_callback_def idle_def)
  moreover have "call_ready ?seq ?c5" by (simp add: call_ready_def)
  ultimately have "await (Suc (length (rc_input ?c3))) codec closed ?seq ?c3 = Some ?c5"
    using t by simp
  moreover have "?c2\<lparr>rc_input := rc_input ?c2 @ obj # rest\<rparr> = ?c3"
    using assms(1) by (simp add: idle_def handleSeq_def)
  moreover have "server (last (rc_written ?c2)) s = (obj # rest, closed, s')" using assms(3) by simp
  ultimately have s: "sync_call codec (begin_call codec command req kind) server (c, s)
      = map_option (\<lambda>(r, c4). (r, c4, s')) (case end_call False ?seq ?c5 of Some r \<Rightarrow> Some r | None \<Rightarrow> end_call True ?seq ?c5)"
    by (simp only: sync_call_def b Let_def prod.case option.case)
  have "end_call False ?seq ?c5 = Some ((err, case v of None \<Rightarrow> NoValue | Some v \<Rightarrow> v),
      ?c5\<lparr>rc_dispatch := removeAll ?seq (rc_dispatch ?c5), rc_handlers := (rc_handlers ?c5)(?seq := CallHandler (?cb\<lparr>cb_errCh := []\<rparr>))\<rparr>)"
    by (simp add: end_call_def Let_def)
  then show ?thesis
    using s assms(1) by (intro exI [of _ "?c5\<lparr>rc_dispatch := removeAll ?seq (rc_dispatch ?c5), rc_handlers := (rc_handlers ?c5)(?seq := CallHandler (?cb\<lparr>cb_errCh := []\<rparr>))\<rparr>"])
      (simp add: idle_def handleSeq_def List.insert_def)
qed

text \<open>A call that wants no body.\<close>

lemma sync_plain:
  assumes "idle c" "cd_write codec \<lparr>rq_Command = command, rq_Seq = rc_seq c + 1\<rparr> req = None"
    and "server (\<lparr>rq_Command = command, rq_Seq = rc_seq c + 1\<rparr>, req) s = ([obj], closed, s')"
    and "cd_header codec (rc_header c) obj = Some \<lparr>rs_Seq = rc_seq c + 1, rs_Error = e\<rparr>"
  obtains c' where "sync_call codec (begin_call codec command req NoReply) server (c, s) = Some ((strToError e, NoValue), c', s')"
    "idle c'" "rc_dispatch c' = removeAll (rc_seq c + 1) (rc_dispatch c)"
proof -
  have "call_reply codec NoReply \<lparr>rs_Seq = rc_seq c + 1, rs_Error = e\<rparr> [] = (strToError e, None)"
    by (simp add: call_reply_def wants_body_def)
  from sync_call_answered [where kind = NoReply and rest = "[]" and server = server and s = s and c = c, OF assms this] that show thesis
    by (auto simp: idle_def wants_body_def)
qed

lemma sync_Query_answered:
  assumes "idle c" "cd_write codec \<lparr>rq_Command = ''query'', rq_Seq = rc_seq c + 1\<rparr> (Some (QueryReq q)) = None"
    and "server (\<lparr>rq_Command = ''query'', rq_Seq = rc_seq c + 1\<rparr>, Some (QueryReq q)) s = ([obj], closed, s')"
    and "cd_header codec (rc_header c) obj = Some \<lparr>rs_Seq = rc_seq c + 1, rs_Error = e\<rparr>"
  shows "\<exists>c'. sync_Query codec q ackCh respCh server (c, s) = Some (strToError e, rc_seq c + 1, c', s') \<and> idle c'
    \<and> rc_seq c' = rc_seq c + 1"
proof -
  let ?seq = "rc_seq c + 1"
  let ?h = "\<lparr>rs_Seq = ?seq, rs_Error = e\<rparr>"
  let ?c1 = "handleSeq ?seq (QueryHandler new_part ackCh respCh) (c\<lparr>rc_seq := ?seq\<rparr>)"
  let ?c2 = "?c1\<lparr>rc_written := rc_written c @ [(\<lparr>rq_Command = ''query'', rq_Seq = ?seq\<rparr>, Some (QueryReq q))]\<rparr>"
  let ?c3 = "?c2\<lparr>rc_input := [obj]\<rparr>"
  let ?c4 = "?c3\<lparr>rc_header := ?h, rc_input := [], rc_found := Some ?seq\<rparr>"
  let ?c5 = "?c4\<lparr>rc_handlers := (rc_handlers ?c4)(?seq := QueryHandler (init_part (strToError e) new_part) ackCh respCh), rc_found := None\<rparr>"
  have b: "client_Query codec q ackCh respCh c = Some (None, ?seq, ?c2)"
    using assms(1,2) by (simp add: client_Query_def begin_stream_def client_send_def handleSeq_def idle_def Let_def)
  have h: "listen_header codec ?c3 = Some ?c4"
    using assms(4) by (simp add: listen_header_def read_object_def handleSeq_def)
  have "listen_handle codec ?c4 = Listened ?c5"
    by (simp add: listen_handle_def handleSeq_def Let_def new_part_def)
  then have t: "listen_turn codec ?c3 = Some ?c5" by (simp add: listen_turn_def h)
  have "\<not> call_ready ?seq ?c3"
    using assms(1) by (simp add: call_ready_def handleSeq_def new_part_def idle_def)
  moreover have "call_ready ?seq ?c5" by (simp add: call_ready_def init_part_def)
  ultimately have "await (Suc (length (rc_input ?c3))) codec closed ?seq ?c3 = Some ?c5"
    using t by simp
  moreover have "?c2\<lparr>rc_input := rc_input ?c2 @ [obj]\<rparr> = ?c3"
    using assms(1) by (simp add: idle_def handleSeq_def)
  moreover have "server (last (rc_written ?c2)) s = ([obj], closed, s')" using assms(3) by simp
  moreover have "end_stream False ?seq ?c5 = Some (strToError e, Some ?c5)"
    by (simp add: end_stream_def init_part_def new_part_def)
  ultimately have "sync_Query codec q ackCh respCh server (c, s) = Some (strToError e, ?seq, ?c5, s')"
    by (simp only: sync_Query_def b Let_def prod.case option.case)
  then show ?thesis
    using assms(1) by (intro exI [of _ ?c5]) (simp add: idle_def handleSeq_def)
qed

subsection \<open>One request of the server\<close>

lemma agent_server_answers:
  assumes "\<forall>h h'. id_header (ie_codec env) h' (wr_header w h) = Some h"
    and "handleRequest str env rh [wr_request w rq] (cn_client c) (cn_node c) (cn_agent c) = Some (r, a, True)"
    and "ir_err r = None" "ir_sent r = [rp]"
  shows "agent_server str env w (rh, Some rq) (h, c) = (reply_objects w rp, False, rh, after_request r a c)"
  using assms by (simp add: agent_server_def request_objects_def serve.simps(2) after_request_def)

text \<open>The state of a server whose client has shaken hands and authenticated.\<close>

definition admitted :: "ipc_env \<Rightarrow> IPCClient \<Rightarrow> bool" where
  "admitted env client \<longleftrightarrow> ic_version client \<noteq> 0 \<and> (ie_auth env = [] \<or> ic_didAuth client)"

lemma handleRequest_admitted:
  assumes "admitted env client" "rq_Command rh \<in> set ipc_commands_with_body"
  shows "handleRequest str env rh [body] client node a
    = map_option (\<lambda>(r, a'). (r, a', True)) (ipc_dispatch str env (rq_Command rh) (rq_Seq rh) body client node a)"
  using assms by (auto simp: handleRequest_def Let_def admitted_def)

lemma Send_ok [simp]: "\<forall>r. ie_send env r = None \<Longrightarrow> Send env rp = (None, [rp])"
  by (simp add: Send_def)

lemma served_handshake:
  assumes "wire_ok env codec w order q ms" "cn_client c = new_IPCClient"
  shows "\<exists>c'. agent_server str env w (\<lparr>rq_Command = ''handshake'', rq_Seq = seq\<rparr>, Some (HandshakeReq maxIPCVersion)) (h, c)
      = ([wr_reply w \<lparr>rs_Seq = seq, rs_Error = []\<rparr>], False, \<lparr>rq_Command = ''handshake'', rq_Seq = seq\<rparr>, c')
    \<and> cn_client c' = new_IPCClient\<lparr>ic_version := 1\<rparr> \<and> cn_node c' = cn_node c \<and> cn_agent c' = cn_agent c"
proof -
  let ?rh = "\<lparr>rq_Command = ''handshake'', rq_Seq = seq\<rparr>"
  let ?r = "ipc_done env seq [] NoBody (new_IPCClient\<lparr>ic_version := maxIPCVersion\<rparr>) (cn_node c) no_effects"
  have "handleRequest str env ?rh [wr_request w (HandshakeReq maxIPCVersion)] (cn_client c) (cn_node c) (cn_agent c)
      = Some (?r, cn_agent c, True)"
    using assms by (simp add: handleRequest_def ipc_commands_with_body_def ipc_dispatch_def handleHandshake_def wire_ok_def
        MinIPCVersion_def MaxIPCVersion_def maxIPCVersion_def new_IPCClient_def Let_def)
  from agent_server_answers [OF _ this, of "\<lparr>rp_Seq = seq, rp_Error = [], rp_Body = NoBody\<rparr>" h] assms(1)
  show ?thesis
    by (simp add: wire_ok_def reply_objects_def after_request_def maxIPCVersion_def)
qed

lemma served_auth:
  assumes "wire_ok env codec w order q ms" "ic_version (cn_client c) \<noteq> 0"
  shows "\<exists>c'. agent_server str env w (\<lparr>rq_Command = ''auth'', rq_Seq = seq\<rparr>, Some (AuthReq key)) (h, c)
      = ([wr_reply w \<lparr>rs_Seq = seq, rs_Error = (if key = ie_auth env then [] else ''Invalid authentication token'')\<rparr>],
         False, \<lparr>rq_Command = ''auth'', rq_Seq = seq\<rparr>, c')
    \<and> cn_client c' = (if key = ie_auth env then (cn_client c)\<lparr>ic_didAuth := True\<rparr> else cn_client c)
    \<and> cn_node c' = cn_node c \<and> cn_agent c' = cn_agent c"
proof -
  let ?rh = "\<lparr>rq_Command = ''auth'', rq_Seq = seq\<rparr>"
  let ?e = "if key = ie_auth env then [] else ''Invalid authentication token''"
  let ?cl = "if key = ie_auth env then (cn_client c)\<lparr>ic_didAuth := True\<rparr> else cn_client c"
  let ?r = "ipc_done env seq ?e NoBody ?cl (cn_node c) no_effects"
  have "handleRequest str env ?rh [wr_request w (AuthReq key)] (cn_client c) (cn_node c) (cn_agent c)
      = Some (?r, cn_agent c, True)"
    using assms by (simp add: handleRequest_def ipc_commands_with_body_def ipc_dispatch_def handleAuth_def wire_ok_def Let_def)
  from agent_server_answers [OF _ this, of "\<lparr>rp_Seq = seq, rp_Error = ?e, rp_Body = NoBody\<rparr>" h] assms(1)
  show ?thesis
    by (simp add: wire_ok_def reply_objects_def after_request_def)
qed

lemma served_query:
  assumes "wire_ok env codec w order q ms" "admitted env (cn_client c)"
    and "agent_Query (ie_node env) (ie_local env) (qp_Name q) (Some (qp_Payload q))
      (Some \<lparr>sq_FilterNodes = qp_FilterNodes q, sq_FilterTags = order (qp_FilterTags q), sq_RequestAck = qp_RequestAck q,
         sq_Timeout = qp_Timeout q\<rparr>) (cn_node c) = Some (r, node', e)"
  shows "\<exists>c'. agent_server str env w (\<lparr>rq_Command = ''query'', rq_Seq = seq\<rparr>, Some (QueryReq q)) (h, c)
      = ([wr_reply w \<lparr>rs_Seq = seq, rs_Error = (case r of Inl err \<Rightarrow> err | Inr _ \<Rightarrow> [])\<rparr>],
         False, \<lparr>rq_Command = ''query'', rq_Seq = seq\<rparr>, c')
    \<and> cn_client c' = cn_client c \<and> cn_node c' = node' \<and> cn_effects c' = add_effects (cn_effects c) e
    \<and> cn_started c' = cn_started c @ (case r of Inl _ \<Rightarrow> [] | Inr t \<Rightarrow> [(seq, t)])"
proof -
  let ?rh = "\<lparr>rq_Command = ''query'', rq_Seq = seq\<rparr>"
  let ?e = "case r of Inl err \<Rightarrow> err | Inr _ \<Rightarrow> []"
  let ?d = "ipc_done env seq ?e NoBody (cn_client c) node' e"
  let ?r = "?d\<lparr>ir_stream := (case r of Inl _ \<Rightarrow> None | Inr t \<Rightarrow> Some (seq, t))\<rparr>"
  have d: "?d\<lparr>ir_stream := None\<rparr> = ?d" by (simp add: ipc_done_def case_prod_beta)
  have "ipc_handleQuery env seq (wr_request w (QueryReq q)) (cn_client c) (cn_node c) = Some ?r"
    using assms(1,3) d by (cases r) (simp_all add: ipc_handleQuery_def wire_ok_def Let_def)
  then have "handleRequest str env ?rh [wr_request w (QueryReq q)] (cn_client c) (cn_node c) (cn_agent c)
      = Some (?r, cn_agent c, True)"
    using handleRequest_admitted [OF assms(2), of ?rh str "wr_request w (QueryReq q)"]
    by (simp add: ipc_commands_with_body_def ipc_dispatch_def)
  from agent_server_answers [OF _ this, of "\<lparr>rp_Seq = seq, rp_Error = ?e, rp_Body = NoBody\<rparr>" h] assms(1)
  show ?thesis
    by (cases r) (simp_all add: wire_ok_def reply_objects_def after_request_def)
qed

lemma served_members:
  assumes "wire_ok env codec w order q (map ipc_member ms)" "admitted env (cn_client c)"
    and "filterMembers (ie_regexp env) (members_list (ie_names env) (sn_members (cn_node c)))
      (tags_request (order (qp_FilterTags q))) = Inr ms"
  shows "\<exists>c'. agent_server str env w (\<lparr>rq_Command = ''members-filtered'', rq_Seq = seq\<rparr>,
        Some (MembersFilteredReq (qp_FilterTags q) [] [])) (h, c)
      = ([wr_reply w \<lparr>rs_Seq = seq, rs_Error = []\<rparr>, wr_body w (MembersBody (map ipc_member ms))],
         False, \<lparr>rq_Command = ''members-filtered'', rq_Seq = seq\<rparr>, c')
    \<and> cn_client c' = cn_client c \<and> cn_node c' = cn_node c"
proof -
  let ?rh = "\<lparr>rq_Command = ''members-filtered'', rq_Seq = seq\<rparr>"
  let ?r = "ipc_done env seq [] (MembersBody (map ipc_member ms)) (cn_client c) (cn_node c) no_effects"
  have "handleRequest str env ?rh [wr_request w (MembersFilteredReq (qp_FilterTags q) [] [])] (cn_client c) (cn_node c) (cn_agent c)
      = Some (?r, cn_agent c, True)"
    using assms(1,3) handleRequest_admitted [OF assms(2), of ?rh str "wr_request w (MembersFilteredReq (qp_FilterTags q) [] [])"]
    by (simp add: ipc_commands_with_body_def ipc_dispatch_def handleMembers_def wire_ok_def tags_request_def Let_def)
  from agent_server_answers [OF _ this, of "\<lparr>rp_Seq = seq, rp_Error = [], rp_Body = MembersBody (map ipc_member ms)\<rparr>" h] assms(1)
  show ?thesis
    by (simp add: wire_ok_def reply_objects_def after_request_def)
qed

subsection \<open>The conversation of a query\<close>

lemma wire_headers:
  assumes "wire_ok env codec w order q ms"
  shows "cd_header codec h (wr_reply w \<lparr>rs_Seq = seq, rs_Error = e\<rparr>) = Some \<lparr>rs_Seq = seq, rs_Error = e\<rparr>"
    and "cd_write codec header rq = None"
  using assms by (simp_all add: wire_ok_def)

lemma shaken_hands:
  assumes "wire_ok env codec w order q ms" "cn_client cn = new_IPCClient"
  obtains c h' cn' where
    "sync_call codec (client_handshake codec) (agent_server str env w) (new_client [], h, cn) = Some ((None, NoValue), c, h', cn')"
    "idle c" "rc_dispatch c = []" "cn_client cn' = new_IPCClient\<lparr>ic_version := 1\<rparr>" "cn_node cn' = cn_node cn"
proof -
  let ?c = "new_client []"
  have i: "idle ?c" by (simp add: idle_def new_client_def)
  obtain cn' where srv: "agent_server str env w (\<lparr>rq_Command = ''handshake'', rq_Seq = rc_seq ?c + 1\<rparr>, Some (HandshakeReq maxIPCVersion)) (h, cn)
      = ([wr_reply w \<lparr>rs_Seq = rc_seq ?c + 1, rs_Error = []\<rparr>], False, \<lparr>rq_Command = ''handshake'', rq_Seq = rc_seq ?c + 1\<rparr>, cn')"
    "cn_client cn' = new_IPCClient\<lparr>ic_version := 1\<rparr>" "cn_node cn' = cn_node cn"
    using served_handshake [OF assms, of str "rc_seq ?c + 1" h] by blast
  show thesis
  proof (rule sync_plain [where codec = codec and e = "[]" and server = "agent_server str env w" and s = "(h, cn)" and c = "new_client []", OF i _ srv(1)])
    fix c'
    assume "sync_call codec (begin_call codec ''handshake'' (Some (HandshakeReq maxIPCVersion)) NoReply) (agent_server str env w)
        (new_client [], h, cn) = Some ((strToError [], NoValue), c', \<lparr>rq_Command = ''handshake'', rq_Seq = rc_seq ?c + 1\<rparr>, cn')"
      "idle c'" "rc_dispatch c' = removeAll (rc_seq ?c + 1) (rc_dispatch ?c)"
    then show thesis
      using that [of c' "\<lparr>rq_Command = ''handshake'', rq_Seq = rc_seq ?c + 1\<rparr>" cn'] srv(2,3)
      by (simp add: client_handshake_def strToError_def) (simp add: new_client_def)
  qed (simp_all add: wire_headers [OF assms(1)])
qed

lemma authenticated:
  assumes "wire_ok env codec w order q ms" "idle c" "ic_version (cn_client cn) \<noteq> 0"
  obtains c' h' cn' where
    "sync_call codec (client_auth codec key) (agent_server str env w) (c, h, cn)
      = Some ((if key = ie_auth env then None else Some ''Invalid authentication token'', NoValue), c', h', cn')"
    "idle c'" "rc_dispatch c' = removeAll (rc_seq c + 1) (rc_dispatch c)"
    "cn_client cn' = (if key = ie_auth env then (cn_client cn)\<lparr>ic_didAuth := True\<rparr> else cn_client cn)"
    "cn_node cn' = cn_node cn"
proof -
  let ?e = "if key = ie_auth env then [] else ''Invalid authentication token''"
  obtain cn' where srv: "agent_server str env w (\<lparr>rq_Command = ''auth'', rq_Seq = rc_seq c + 1\<rparr>, Some (AuthReq key)) (h, cn)
      = ([wr_reply w \<lparr>rs_Seq = rc_seq c + 1, rs_Error = ?e\<rparr>], False, \<lparr>rq_Command = ''auth'', rq_Seq = rc_seq c + 1\<rparr>, cn')"
    "cn_client cn' = (if key = ie_auth env then (cn_client cn)\<lparr>ic_didAuth := True\<rparr> else cn_client cn)"
    "cn_node cn' = cn_node cn"
    using served_auth [OF assms(1,3), of str "rc_seq c + 1" key h] by blast
  show thesis
  proof (rule sync_plain [where codec = codec and e = ?e and server = "agent_server str env w" and s = "(h, cn)" and c = c, OF assms(2) _ srv(1)])
    fix c'
    assume "sync_call codec (begin_call codec ''auth'' (Some (AuthReq key)) NoReply) (agent_server str env w)
        (c, h, cn) = Some ((strToError ?e, NoValue), c', \<lparr>rq_Command = ''auth'', rq_Seq = rc_seq c + 1\<rparr>, cn')"
      "idle c'" "rc_dispatch c' = removeAll (rc_seq c + 1) (rc_dispatch c)"
    moreover have "strToError ?e = (if key = ie_auth env then None else Some ''Invalid authentication token'')"
      by (simp add: strToError_def)
    ultimately show thesis
      using that [of c' "\<lparr>rq_Command = ''auth'', rq_Seq = rc_seq c + 1\<rparr>" cn'] srv(2,3)
      unfolding client_auth_def by simp
  qed (simp_all add: wire_headers [OF assms(1)])
qed

lemma connected:
  assumes "wire_ok env codec w order q ms" "cn_client cn = new_IPCClient"
  obtains c h' cn' where
    "ClientFromConfig codec None (ie_auth env) (agent_server str env w) (h, cn) = Some (Inr (c, h', cn'))"
    "idle c" "admitted env (cn_client cn')" "cn_node cn' = cn_node cn"
proof -
  obtain c h1 cn1 where hs: "sync_call codec (client_handshake codec) (agent_server str env w) (new_client [], h, cn)
      = Some ((None, NoValue), c, h1, cn1)" "idle c" "cn_client cn1 = new_IPCClient\<lparr>ic_version := 1\<rparr>" "cn_node cn1 = cn_node cn"
    using shaken_hands [OF assms, of str h] by blast
  have v: "ic_version (cn_client cn1) \<noteq> 0" using hs(3) by (simp add: new_IPCClient_def)
  show thesis
  proof (cases "ie_auth env = []")
    case True
    then show ?thesis using that [of c h1 cn1] hs v by (simp add: ClientFromConfig_def admitted_def)
  next
    case False
    obtain c' h2 cn2 where "sync_call codec (client_auth codec (ie_auth env)) (agent_server str env w) (c, h1, cn1)
        = Some ((if ie_auth env = ie_auth env then None else Some ''Invalid authentication token'', NoValue), c', h2, cn2)" "idle c'"
      "rc_dispatch c' = removeAll (rc_seq c + 1) (rc_dispatch c)"
      "cn_client cn2 = (if ie_auth env = ie_auth env then (cn_client cn1)\<lparr>ic_didAuth := True\<rparr> else cn_client cn1)" "cn_node cn2 = cn_node cn1"
      by (rule authenticated [OF assms(1) hs(2) v])
    then show ?thesis using that [of c' h2 cn2] hs False v by (simp add: ClientFromConfig_def admitted_def)
  qed
qed

lemma wrong_key_refused:
  assumes "wire_ok env codec w order q ms" "cn_client cn = new_IPCClient" "key \<noteq> ie_auth env" "key \<noteq> []"
  shows "ClientFromConfig codec None key (agent_server str env w) (h, cn) = Some (Inl ''Invalid authentication token'')"
proof -
  obtain c h1 cn1 where hs: "sync_call codec (client_handshake codec) (agent_server str env w) (new_client [], h, cn)
      = Some ((None, NoValue), c, h1, cn1)" "idle c" "rc_dispatch c = []" "cn_client cn1 = new_IPCClient\<lparr>ic_version := 1\<rparr>"
    using shaken_hands [OF assms(1,2), of str h] by blast
  have v: "ic_version (cn_client cn1) \<noteq> 0" using hs(4) by (simp add: new_IPCClient_def)
  obtain c' h2 cn2 where "sync_call codec (client_auth codec key) (agent_server str env w) (c, h1, cn1)
      = Some ((if key = ie_auth env then None else Some ''Invalid authentication token'', NoValue), c', h2, cn2)" "idle c'"
    "rc_dispatch c' = removeAll (rc_seq c + 1) (rc_dispatch c)"
    "cn_client cn2 = (if key = ie_auth env then (cn_client cn1)\<lparr>ic_didAuth := True\<rparr> else cn_client cn1)" "cn_node cn2 = cn_node cn1"
    by (rule authenticated [OF assms(1) hs(2) v])
  then have "sync_call codec (client_auth codec key) (agent_server str env w) (c, h1, cn1)
      = Some ((Some ''Invalid authentication token'', NoValue), c', h2, cn2)" "rc_dispatch c' = []"
    using assms(3) hs(3) by simp_all
  then show ?thesis using hs(1) assms(4) by (simp add: ClientFromConfig_def client_Close_def)
qed

text \<open>The parameters of a query as the server reads them.\<close>

definition served_params :: "((string \<rightharpoonup> string) \<Rightarrow> (string \<times> string) list) \<Rightarrow> query_param \<Rightarrow> query_params" where
  "served_params order q =
     \<lparr>sq_FilterNodes = qp_FilterNodes q, sq_FilterTags = order (qp_FilterTags q), sq_RequestAck = qp_RequestAck q,
      sq_Timeout = qp_Timeout q\<rparr>"

lemma asked_and_counted:
  assumes "wire_ok env codec w order q (map ipc_member ms)" "idle c" "admitted env (cn_client cn)"
    and "agent_Query (ie_node env) (ie_local env) (qp_Name q) (Some (qp_Payload q)) (Some (served_params order q)) (cn_node cn)
      = Some (r, node', e)"
    and "filterMembers (ie_regexp env) (members_list (ie_names env) (sn_members node')) (tags_request (order (qp_FilterTags q))) = Inr ms"
  obtains seq c1 h1 cn1 c2 s2 where
    "sync_Query codec q ackCh respCh (agent_server str env w) (c, h, cn)
       = Some (case r of Inl err \<Rightarrow> strToError err | Inr _ \<Rightarrow> None, seq, c1, h1, cn1)"
    "cn_node cn1 = node'" "cn_started cn1 = cn_started cn @ (case r of Inl _ \<Rightarrow> [] | Inr t \<Rightarrow> [(seq, t)])"
    "sync_call codec (client_MembersFiltered codec (qp_FilterTags q) [] []) (agent_server str env w) (c1, h1, cn1)
       = Some ((None, MembersValue (map client_view (map ipc_member ms))), c2, s2)"
proof -
  let ?e = "case r of Inl err \<Rightarrow> err | Inr _ \<Rightarrow> []"
  let ?rh = "\<lparr>rq_Command = ''query'', rq_Seq = rc_seq c + 1\<rparr>"
  obtain cn1 where srv: "agent_server str env w (?rh, Some (QueryReq q)) (h, cn)
      = ([wr_reply w \<lparr>rs_Seq = rc_seq c + 1, rs_Error = ?e\<rparr>], False, ?rh, cn1)"
    "cn_client cn1 = cn_client cn" "cn_node cn1 = node'"
    "cn_started cn1 = cn_started cn @ (case r of Inl _ \<Rightarrow> [] | Inr t \<Rightarrow> [(rc_seq c + 1, t)])"
    using served_query [OF assms(1,3) assms(4) [unfolded served_params_def], of str "rc_seq c + 1" h] by blast
  have "\<exists>c1. sync_Query codec q ackCh respCh (agent_server str env w) (c, h, cn) = Some (strToError ?e, rc_seq c + 1, c1, ?rh, cn1)
      \<and> idle c1 \<and> rc_seq c1 = rc_seq c + 1"
    by (rule sync_Query_answered [where e = ?e and server = "agent_server str env w" and s = "(h, cn)" and c = c, OF assms(2) _ srv(1)]) (simp_all add: wire_headers [OF assms(1)])
  then obtain c1 where c1: "sync_Query codec q ackCh respCh (agent_server str env w) (c, h, cn) = Some (strToError ?e, rc_seq c + 1, c1, ?rh, cn1)"
    "idle c1" by blast
  let ?mh = "\<lparr>rq_Command = ''members-filtered'', rq_Seq = rc_seq c1 + 1\<rparr>"
  let ?h = "\<lparr>rs_Seq = rc_seq c1 + 1, rs_Error = []\<rparr>"
  let ?body = "wr_body w (MembersBody (map ipc_member ms))"
  obtain cn2 where mem: "agent_server str env w (?mh, Some (MembersFilteredReq (qp_FilterTags q) [] [])) (?rh, cn1)
      = ([wr_reply w ?h, ?body], False, ?mh, cn2)"
    using served_members [OF assms(1), of cn1 str "rc_seq c1 + 1" ?rh] assms(3,5) srv(2,3) by auto
  have reply: "call_reply codec MembersReply ?h [?body] = (None, Some (MembersValue (map client_view (map ipc_member ms))))"
    using assms(1) by (simp add: call_reply_def wants_body_def read_object_def wire_ok_def authRequired_def strToError_def)
  have "\<exists>c2. sync_call codec (begin_call codec ''members-filtered'' (Some (MembersFilteredReq (qp_FilterTags q) [] [])) MembersReply)
      (agent_server str env w) (c1, ?rh, cn1) = Some ((None, MembersValue (map client_view (map ipc_member ms))), c2, ?mh, cn2)"
    using sync_call_answered [where kind = MembersReply and server = "agent_server str env w" and s = "(?rh, cn1)" and c = c1,
        OF c1(2) _ mem _ reply] wire_headers [OF assms(1)] by auto
  then obtain c2 where "sync_call codec (client_MembersFiltered codec (qp_FilterTags q) [] []) (agent_server str env w) (c1, ?rh, cn1)
      = Some ((None, MembersValue (map client_view (map ipc_member ms))), c2, ?mh, cn2)"
    by (auto simp: client_MembersFiltered_def)
  moreover have "strToError ?e = (case r of Inl err \<Rightarrow> strToError err | Inr _ \<Rightarrow> None)"
    by (simp add: strToError_def split: sum.split)
  ultimately show thesis using that [of "rc_seq c + 1" c1 ?rh cn1 c2 "(?mh, cn2)"] c1(1) srv(3,4) by simp
qed

text \<open>C20: The RPC connection keeps what the command line relies on. With the key of the server a client connects; its
  query is put to the agent's Serf, which accepts it, and starts the stream of its answers, exactly if the
  client gets no error; and the members it then gets are those of the agent's node whose tags match.
  With any other key it does not connect.\<close>

theorem rpc_connection_serves_the_query:
  assumes "wire_ok env codec w order q (map ipc_member ms)" "cn_client cn = new_IPCClient"
    and "agent_Query (ie_node env) (ie_local env) (qp_Name q) (Some (qp_Payload q)) (Some (served_params order q)) (cn_node cn)
      = Some (r, node', e)"
    and "filterMembers (ie_regexp env) (members_list (ie_names env) (sn_members node')) (tags_request (order (qp_FilterTags q))) = Inr ms"
  shows "(\<exists>c h0 cn0 seq c1 h1 cn1 c2 s2.
      ClientFromConfig codec None (ie_auth env) (agent_server str env w) (h, cn) = Some (Inr (c, h0, cn0))
      \<and> sync_Query codec q ackCh respCh (agent_server str env w) (c, h0, cn0)
          = Some (case r of Inl err \<Rightarrow> strToError err | Inr _ \<Rightarrow> None, seq, c1, h1, cn1)
      \<and> cn_node cn1 = node' \<and> cn_started cn1 = cn_started cn0 @ (case r of Inl _ \<Rightarrow> [] | Inr t \<Rightarrow> [(seq, t)])
      \<and> sync_call codec (client_MembersFiltered codec (qp_FilterTags q) [] []) (agent_server str env w) (c1, h1, cn1)
          = Some ((None, MembersValue (map client_view (map ipc_member ms))), c2, s2))
    \<and> (key \<noteq> ie_auth env \<longrightarrow> key \<noteq> [] \<longrightarrow>
        ClientFromConfig codec None key (agent_server str env w) (h, cn) = Some (Inl ''Invalid authentication token''))"
proof -
  obtain c h0 cn0 where con: "ClientFromConfig codec None (ie_auth env) (agent_server str env w) (h, cn) = Some (Inr (c, h0, cn0))"
    "idle c" "admitted env (cn_client cn0)" "cn_node cn0 = cn_node cn"
    using connected [OF assms(1,2), of str h] by blast
  obtain seq c1 h1 cn1 c2 s2 where
    "sync_Query codec q ackCh respCh (agent_server str env w) (c, h0, cn0)
       = Some (case r of Inl err \<Rightarrow> strToError err | Inr _ \<Rightarrow> None, seq, c1, h1, cn1)"
    "cn_node cn1 = node'" "cn_started cn1 = cn_started cn0 @ (case r of Inl _ \<Rightarrow> [] | Inr t \<Rightarrow> [(seq, t)])"
    "sync_call codec (client_MembersFiltered codec (qp_FilterTags q) [] []) (agent_server str env w) (c1, h1, cn1)
       = Some ((None, MembersValue (map client_view (map ipc_member ms))), c2, s2)"
    using asked_and_counted [OF assms(1) con(2,3) assms(3) [folded con(4)] assms(4), of ackCh respCh str h0] by blast
  with con(1) wrong_key_refused [OF assms(1,2)] show ?thesis by blast
qed

text \<open>
  An expression that does not compile ends the connection without a reply: the client is told only
  that it is closed.
\<close>

lemma closed_without_reply:
  assumes "idle c" "cd_write codec \<lparr>rq_Command = command, rq_Seq = rc_seq c + 1\<rparr> req = None"
    and "server (\<lparr>rq_Command = command, rq_Seq = rc_seq c + 1\<rparr>, req) s = ([], True, s')" "rc_dispatch c = []"
  shows "\<exists>c'. sync_call codec (begin_call codec command req kind) server (c, s) = Some ((Some clientClosed, NoValue), c', s')"
  using assms
  by (simp add: sync_call_def begin_call_def client_send_def handleSeq_def idle_def Let_def call_ready_def new_callback_def
      listen_turn_def listen_header_def read_object_def client_Close_def listen_handle_def end_call_def)

lemma bad_expression_closes_client:
  assumes "wire_ok env codec w order q ms" "idle c" "rc_dispatch c = []" "admitted env (cn_client cn)"
    and "filterMembers (ie_regexp env) (members_list (ie_names env) (sn_members (cn_node cn)))
      (tags_request (order (qp_FilterTags q))) = Inl err"
  shows "\<exists>c' s'. sync_call codec (client_MembersFiltered codec (qp_FilterTags q) [] []) (agent_server str env w) (c, h, cn)
    = Some ((Some clientClosed, NoValue), c', s')"
proof -
  let ?rh = "\<lparr>rq_Command = ''members-filtered'', rq_Seq = rc_seq c + 1\<rparr>"
  let ?rq = "MembersFilteredReq (qp_FilterTags q) [] []"
  let ?r = "close_connection err (cn_client cn) (cn_node cn)"
  have "handleRequest str env ?rh [wr_request w ?rq] (cn_client cn) (cn_node cn) (cn_agent cn) = Some (?r, cn_agent cn, True)"
    using assms(1,5) handleRequest_admitted [OF assms(4), of ?rh str "wr_request w ?rq"]
    by (simp add: ipc_commands_with_body_def ipc_dispatch_def handleMembers_def wire_ok_def tags_request_def Let_def)
  then have srv: "agent_server str env w (?rh, Some ?rq) (h, cn) = ([], True, ?rh, after_request ?r (cn_agent cn) cn)"
    using assms(1) by (simp add: agent_server_def request_objects_def serve.simps(2) close_connection_def after_request_def wire_ok_def)
  show ?thesis
    unfolding client_MembersFiltered_def
    using closed_without_reply [where server = "agent_server str env w" and s = "(h, cn)" and kind = MembersReply,
      OF assms(2) wire_headers(2) [OF assms(1)] srv assms(3)] by blast
qed

subsection \<open>Instances\<close>

definition demo_asking :: query_param where
  "demo_asking =
     \<lparr>qp_FilterNodes = [], qp_FilterTags = [''agent'' \<mapsto> ''true''], qp_RequestAck = False, qp_Timeout = 10, qp_Name = ''deploy'',
      qp_Payload = [7]\<rparr>"

definition demo_order :: "(string \<rightharpoonup> string) \<Rightarrow> (string \<times> string) list" where
  "demo_order tags = [(''agent'', ''true'')]"

text \<open>A header is eight bytes and a text.\<close>

definition header_bytes :: "64 word \<Rightarrow> string \<Rightarrow> bytes" where
  "header_bytes seq t = be_bytes 8 (unat seq) @ string_bytes t"

lemma header_bytes_read: "of_nat (be_nat (take 8 (header_bytes seq t))) = seq" "bytes_string (drop 8 (header_bytes seq t)) = t"
  using unsigned_less [of seq, where ?'a = nat] by (simp_all add: header_bytes_def be_nat_be_bytes)

definition demo_session :: ipc_env where
  "demo_session = (demo_ipc ''key'')
     \<lparr>ie_codec := demo_ipc_codec
        \<lparr>id_header := (\<lambda>_ b. Some \<lparr>rq_Command = bytes_string (drop 8 b), rq_Seq = of_nat (be_nat (take 8 b))\<rparr>),
         id_auth := (\<lambda>b. Some (bytes_string b)),
         id_members := (\<lambda>_. Some (tags_request [(''agent'', ''true'')])),
         id_query := (\<lambda>_. Some \<lparr>qrq_FilterNodes = [], qrq_FilterTags = [(''agent'', ''true'')], qrq_RequestAck = False,
            qrq_Timeout = 10, qrq_Name = ''deploy'', qrq_Payload = Some [7]\<rparr>)\<rparr>\<rparr>"

definition demo_known :: "Member list" where
  "demo_known = members_list [''n1'', ''n2''] demo_pair"

definition demo_session_codec :: client_codec where
  "demo_session_codec = demo_client_codec
     \<lparr>cd_header := (\<lambda>_ b. Some \<lparr>rs_Seq = of_nat (be_nat (take 8 b)), rs_Error = bytes_string (drop 8 b)\<rparr>),
      cd_reply := (\<lambda>_ _. Some (MembersValue (map client_view (map ipc_member demo_known))))\<rparr>"

definition demo_rpc_wire :: rpc_wire where
  "demo_rpc_wire =
     \<lparr>wr_header = (\<lambda>h. header_bytes (rq_Seq h) (rq_Command h)),
      wr_request = (\<lambda>r. case r of AuthReq k \<Rightarrow> string_bytes k | _ \<Rightarrow> []),
      wr_reply = (\<lambda>h. header_bytes (rs_Seq h) (rs_Error h)), wr_body = (\<lambda>_. [])\<rparr>"

lemma demo_wire_ok: "wire_ok demo_session demo_session_codec demo_rpc_wire demo_order demo_asking (map ipc_member demo_known)"
  by (simp add: wire_ok_def demo_session_def demo_session_codec_def demo_rpc_wire_def demo_order_def demo_asking_def
      demo_ipc_def demo_ipc_codec_def demo_client_codec_def header_bytes_read maxIPCVersion_def tags_request_def)

lemma demo_handled:
  "\<exists>b qs sent out. serf_handleQuery demo_node
     (query_message lo (qy_clock demo_queries) [[filterTagType, 2]] ps name payload) demo_queries = Some (b, qs, sent, out)"
  by (simp add: serf_handleQuery_def query_seen_def query_message_def demo_node_def demo_queries_def
      demo_filter_def filterNodeType_def filterTagType_def Let_def clock_Witness_def)

lemma demo_query_accepted:
  "\<exists>t node' e. agent_Query (ie_node demo_session) (ie_local demo_session) (qp_Name demo_asking) (Some (qp_Payload demo_asking))
     (Some (served_params demo_order demo_asking)) demo_sn = Some (Inr t, node', e) \<and> sn_members node' = demo_pair"
proof -
  have f: "encodeFilters (se_filter demo_node) [] [(''agent'', ''true'')] = Inr [[filterTagType, 2]]"
    by (simp add: encodeFilters_def demo_node_def demo_filter_def)
  have n: "strip_prefix InternalQueryPrefix ''deploy'' = None" by (simp add: InternalQueryPrefix_def)
  have e: "nd_serf (ie_node demo_session) = demo_node" "we_encode_query (nd_wire (ie_node demo_session)) = (\<lambda>_. Inr [2])"
    "ie_local demo_session = ie_local (demo_ipc ''key'')"
    by (simp_all add: demo_session_def demo_ipc_def demo_nd_def demo_wire_def)
  have p: "\<not> lo_Protocol (ie_local demo_session) < 4" by (simp add: demo_session_def demo_ipc_def)
  let ?ps = "served_params demo_order demo_asking"
  have ps: "sq_FilterNodes ?ps = []" "sq_FilterTags ?ps = [(''agent'', ''true'')]" "sq_Timeout ?ps \<noteq> 0"
    by (simp_all add: served_params_def demo_order_def demo_asking_def)
  obtain b qs sent out where h: "serf_handleQuery demo_node (query_message (ie_local demo_session) (qy_clock demo_queries)
      [[filterTagType, 2]] ?ps ''deploy'' [7]) demo_queries = Some (b, qs, sent, out)"
    using demo_handled by blast
  have sn: "sn_queries demo_sn = demo_queries" "sn_members demo_sn = demo_pair" by (simp_all add: demo_sn_def)
  have q: "qp_Name demo_asking = ''deploy''" "qp_Payload demo_asking = [7]" by (simp_all add: demo_asking_def)
  show ?thesis
    by (simp add: agent_Query_def Serf_Query_def n e(1,2) p ps f h sn q QuerySizeLimit_def Let_def)
qed


theorem rpc_connection_serves_the_query_witness:
  "(\<exists>c h0 cn0 seq c1 h1 cn1 c2 s2.
      ClientFromConfig demo_session_codec None ''key'' (agent_server (\<lambda>_. []) demo_session demo_rpc_wire)
        (\<lparr>rq_Command = [], rq_Seq = 0\<rparr>, demo_connection) = Some (Inr (c, h0, cn0))
      \<and> sync_Query demo_session_codec demo_asking None None (agent_server (\<lambda>_. []) demo_session demo_rpc_wire) (c, h0, cn0)
          = Some (None, seq, c1, h1, cn1)
      \<and> length (cn_started cn1) = Suc (length (cn_started cn0))
      \<and> sync_call demo_session_codec (client_MembersFiltered demo_session_codec [''agent'' \<mapsto> ''true''] [] [])
          (agent_server (\<lambda>_. []) demo_session demo_rpc_wire) (c1, h1, cn1)
          = Some ((None, MembersValue (map client_view (map ipc_member demo_known))), c2, s2))
    \<and> ClientFromConfig demo_session_codec None ''guess'' (agent_server (\<lambda>_. []) demo_session demo_rpc_wire)
        (\<lparr>rq_Command = [], rq_Seq = 0\<rparr>, demo_connection) = Some (Inl ''Invalid authentication token'')"
proof -
  obtain t node' e where q: "agent_Query (ie_node demo_session) (ie_local demo_session) (qp_Name demo_asking) (Some (qp_Payload demo_asking))
      (Some (served_params demo_order demo_asking)) (cn_node demo_connection) = Some (Inr t, node', e)" "sn_members node' = demo_pair"
    using demo_query_accepted by (auto simp: demo_connection_def)
  have key: "ie_auth demo_session = ''key''" by (simp add: demo_session_def demo_ipc_def)
  have tags: "qp_FilterTags demo_asking = [''agent'' \<mapsto> ''true'']" by (simp add: demo_asking_def)
  have f: "filterMembers (ie_regexp demo_session) (members_list (ie_names demo_session) (sn_members node'))
      (tags_request (demo_order (qp_FilterTags demo_asking))) = Inr demo_known"
    by (simp add: q(2) demo_session_def demo_ipc_def demo_known_def filterMembers_def passes_def)
  have n: "cn_client demo_connection = new_IPCClient" by (simp add: demo_connection_def)
  from rpc_connection_serves_the_query [OF demo_wire_ok n q(1) f, of "\<lambda>_. []" "\<lparr>rq_Command = [], rq_Seq = 0\<rparr>" None None "''guess''"]
  show ?thesis unfolding key tags by fastforce
qed

end
