(* ===== verification/Spec2Isabelle.thy ===== *)
theory Spec2Isabelle
  imports SerfLife ClusterQuery SwimProps SnapshotProps CoalesceProps PushPullProps ProbeProps KeyManagerProps Upkeep RpcSession
begin

text \<open>
  Serfbort runs deploy scripts on the machines of a Serf cluster. An agent on each machine is a
  Serf node that answers queries; the command line sends one query through the RPC port of any
  node, and collects acknowledgements and answers. This development models that path and the
  vendored libraries it runs through, and proves what makes it correct.

  \<^bold>\<open>Parts and theories.\<close>

  \<^item> \<open>Prelude\<close>, \<open>GoStd\<close>, \<open>Base64\<close>: Go's basic types, results, and the functions of Go's
    standard library the code calls (strings, strconv, sort.Search, encoding/base64).
  \<^item> \<open>Util\<close> (\<open>src/util.go\<close>): tag and host arguments, keys, \<open>FilterMembers\<close> by binary search.
  \<^item> \<open>MsgpackEnc\<close>, \<open>MsgpackDec\<close>, \<open>MsgpackWire\<close>, \<open>MsgpackSkip\<close> (\<open>ugorji/go/codec\<close>): the msgpack
    driver and the struct encoder and decoder, for the kinds of field the payloads have.
    \<open>Message\<close> (\<open>src/message.go\<close>): the two payloads; both are interpretations of one codec locale.
  \<^item> \<open>Runner\<close> (\<open>src/cmd/cmd.go\<close>), \<open>SerfQuery\<close> (\<open>serf/event.go\<close>: \<open>Respond\<close>), \<open>Agent\<close>
    (\<open>src/agent.go\<close>, \<open>src/config.go\<close>): expanding and running a script, and the agent's handler.
  \<^item> \<open>Cli\<close> (\<open>codegangsta/cli\<close> over Go's \<open>flag\<close>), \<open>Program\<close> and \<open>CommandLine\<close> (\<open>src/main.go\<close>,
    \<open>src/file_load.go\<close>, \<open>src/master.go\<close>): the table of commands, its dispatch, what each command
    starts with.
  \<^item> \<open>Channel\<close> (bounded Go channels, behind the locale \<open>dropping_queue\<close>), \<open>Query\<close>
    (\<open>src/query.go\<close>, \<open>src/cluster_status.go\<close>, the query handler of \<open>serf/client/rpc_client.go\<close>):
    the query sent, and the polling loop against the handler goroutine in every interleaving.
  \<^item> \<open>Lamport\<close> (\<open>serf/lamport.go\<close>): the clock, its contract \<open>logical_clock\<close>, and its
    compare-and-swap loop with any number of callers.
  \<^item> \<open>SerfEvents\<close>, \<open>SerfQueries\<close> (\<open>serf/serf.go\<close>, \<open>serf/query.go\<close>): receiving user events and
    queries once, behind the locale \<open>once_buffer\<close>; filters; collecting the answers.
  \<^item> \<open>SerfMembers\<close>, \<open>Membership\<close>, \<open>SerfLife\<close> (\<open>serf/serf.go\<close>): the members with the pointers that
    the map and the two lists share, the handlers, the reaper and the calls of the application;
    the invariant; the runs.
  \<^item> \<open>SerfDelegate\<close>, \<open>SerfSync\<close> (\<open>serf/delegate.go\<close>, \<open>serf/serf.go\<close>): a whole node; messages from
    memberlist, the exchange of states, sending events and queries. \<open>SerfSync\<close> states what an
    exchange achieves behind the locale \<open>catch_up_buffer\<close>.
  \<^item> \<open>AgentStream\<close>, \<open>AgentIPC\<close>, \<open>AgentServer\<close>, \<open>AgentShared\<close> (\<open>serf/command/agent\<close>: \<open>ipc.go\<close>, \<open>agent.go\<close>,
    \<open>event_handler.go\<close>, \<open>ipc_event_stream.go\<close>, \<open>ipc_query_response_stream.go\<close>): the RPC server of a
    master: filters and streams of events, the requests, one connection with its gates, and
    all clients with the goroutines and timers they share.
  \<^item> \<open>ClusterQuery\<close>: whom the program counts, whom a query reaches, and what is streamed back.
  \<^item> \<open>Swim\<close>, \<open>SwimLife\<close>, \<open>SwimProps\<close> (\<open>memberlist/state.go\<close>, \<open>memberlist.go\<close>): memberlist's view of the
    cluster; alive, suspect and dead messages, refutation, the suspicion timer, the clean-up.
    \<open>SwimLife\<close> has the step relation and its invariants.
  \<^item> \<open>Broadcast\<close> (\<open>memberlist/queue.go\<close>, \<open>broadcast.go\<close>, \<open>serf/delegate.go\<close>): the queues of messages to
    gossip and the filling of packets.
  \<^item> \<open>NetAddr\<close> (Go's \<open>net\<close>), \<open>Snapshot\<close>, \<open>SnapshotLife\<close>, \<open>SnapshotProps\<close> (\<open>serf/snapshot.go\<close>): the file a
    restarted node recovers from; its lines, the writer, compaction, and every state of the disk a
    crash can leave. \<open>SnapshotLife\<close> refines the file to a list of records.
  \<^item> \<open>Coalesce\<close>, \<open>CoalesceProps\<close> (\<open>serf/coalesce.go\<close>, \<open>coalesce_member.go\<close>, \<open>coalesce_user.go\<close>): holding
    back events, behind the locale \<open>coalescer\<close>.
  \<^item> \<open>Keyring\<close>, \<open>Security\<close> (\<open>memberlist/keyring.go\<close>, \<open>security.go\<close>): the keys of a node and encrypted
    payloads. What a cipher with authentication promises is the locale \<open>aead\<close>, interpreted on
    GCM over any block cipher.
  \<^item> \<open>Packet\<close>, \<open>Transport\<close>, \<open>TransportProps\<close> (\<open>memberlist/net.go\<close>, \<open>util.go\<close>): what UDP packets hold, and
    the way of a message from \<open>sendMsg\<close> through compound messages, compression and encryption to
    the handlers of another node; acks.
  \<^item> \<open>Verify\<close>, \<open>PushPull\<close>, \<open>PushPullProps\<close> (\<open>memberlist/net.go\<close>, \<open>state.go\<close>): connections, the check of
    versions, and the exchange of whole views.
  \<^item> \<open>Probe\<close>, \<open>ProbeProps\<close> (\<open>memberlist/state.go\<close>, \<open>util.go\<close>): tickers, the choice of random nodes, gossip,
    and rounds of probes.
  \<^item> \<open>KeyManager\<close>, \<open>KeyManagerProps\<close> (\<open>serf/keymanager.go\<close>, \<open>internal_query.go\<close>, parts of \<open>serf.go\<close>): keys
    changed by queries to all nodes, on the node that asks and on those that answer, and the
    vote between two nodes with one name. \<open>KeyManagerProps\<close> follows a change of the key through the
    cluster.
  \<^item> \<open>Delegates\<close> (\<open>serf/event_delegate.go\<close>, \<open>conflict_delegate.go\<close>, \<open>merge_delegate.go\<close>): what memberlist
    tells Serf, and both components in one step relation with the notifications on their way.
  \<^item> \<open>Resolve\<close> (Go's \<open>net\<close>, \<open>memberlist/memberlist.go\<close>), \<open>Startup\<close> (\<open>memberlist.go\<close>, \<open>util.go\<close>): addresses as
    they are read, \<open>Create\<close>, \<open>Join\<close>, \<open>UpdateNode\<close> and \<open>Shutdown\<close> of memberlist.
  \<^item> \<open>Upkeep\<close> (\<open>serf/serf.go\<close>, \<open>config.go\<close>, \<open>delegate.go\<close>): \<open>Create\<close> of Serf, which yields the initial states of
    the runs above; tags, reconnecting, rejoining after a restart, the depth of the queues.
  \<^item> \<open>RpcClient\<close>, \<open>RpcClientProps\<close> (\<open>serf/client/rpc_client.go\<close>): the client's end of the RPC connection; requests
    and their numbers, the handlers of calls, logs, events and queries, and the goroutine that
    reads responses, in every interleaving with the callers.
  \<^item> \<open>RpcSession\<close>: the client of \<open>RpcClient\<close> and the server of \<open>AgentServer\<close> on one connection, with encodings
    that agree: what the query of the command line relies on.

  \<^bold>\<open>Conventions.\<close> A struct is a record whose fields carry a short prefix, machine integers are
  words (\<open>int\<close> only where Go's 64 bits cannot be exceeded: lengths, counters, times), errors
  are \<open>Inl\<close> or \<open>Some\<close> text, a panic is \<open>None\<close>. Strings are byte sequences. Effects are results: the
  packets, events, broadcasts and output a function produces are returned beside its state.
  Goroutines are step relations over the shared state, one step for each section that runs
  without interruption.

  \<^bold>\<open>What the lemmas show.\<close> \<open>MsgpackWire\<close> and \<open>MsgpackSkip\<close>: reading back what the encoder wrote,
  with any bytes behind it. \<open>Cli\<close>: parsing options rendered from values sets those values.
  \<open>Query\<close>: an invariant of the counters and channels over all interleavings, and when the loop
  ends. \<open>SerfEvents\<close>: a ring that forgets rejects what it has forgotten. \<open>Membership\<close>: each
  handler keeps the lists and the map consistent. \<open>AgentShared\<close>: an invariant of the streams and
  pending queries that every turn of the server keeps. \<open>Delegates\<close>: the notifications on their
  way are the difference between what Serf shows and what memberlist knows. The theorem of this theory follows one query
  from the command line to an agent and back.

  \<^bold>\<open>Bounds and fuel.\<close> Skipping an unknown value in the msgpack decoder recurses over the input; its
  fuel \<open>swallow_fuel\<close> is the number of bytes left plus two, and \<open>MsgpackSkip\<close> shows that this is
  enough on every input, well-formed or not. Loops with an index (\<open>fs_Parse\<close>, \<open>reap_from\<close>,
  \<open>go_search\<close>) are total functions with a measure. The polling loop of \<open>DoQuery\<close> may not end and
  is a relation; that it ends, and that it does not, are theorems. The unpacking of packets
  recurses on what they decompress to, under a depth; a packet of \<open>sendMsg\<close> needs three. Round trips need strings
  shorter than \<open>2 ^ 32\<close> bytes, as the format does.

  \<^bold>\<open>Parameters.\<close> The shell and the file system, text/template, encoding/json, regular expressions,
  the text of durations, the network, random numbers, logarithms and the message codec of go-msgpack
  are arguments (the records whose names end in \<open>_env\<close> or \<open>_lib\<close>); what is assumed of one is a named
  hypothesis, and each theorem with one has a witness.

  \<^bold>\<open>Not modelled.\<close> Log lines, metrics, elapsed times and the layout of tables, which nothing reads
  back. Of the command line library: subcommands, completion and the flag types the program
  does not use. Of the codec: formats other than msgpack and kinds of field no payload has.
  Of the RPC server: keys, tags, statistics and the log monitor, which are a parameter behind the
  same gates. Of memberlist: the sockets with their deadlines and the waits on timers. The serf agent command with its
  configuration, event scripts and logs is not run by serfbort. LZW, mdns, dns and the terminal
  package are third-party code below the interfaces used here.
\<close>

section \<open>From the command line to the agents and back\<close>

text \<open>
  The way of an answer: the agent that asked takes it from its Serf node, where the query is running; the stream of
  the query sends it as a record; the handler of the RPC client puts it into the channel of answers; and the
  loop of the command line reads it. \<open>None\<close> if it does not come through.
\<close>

definition sent_record :: "ipc_reply \<Rightarrow> queryRecord option" where
  "sent_record rp =
     (case rp_Body rp of
        QueryRecordBody type from payload \<Rightarrow> Some \<lparr>rec_Type = type, rec_From = from, rec_Payload = payload\<rparr>
      | _ \<Rightarrow> None)"

definition answer_way ::
  "ipc_env \<Rightarrow> 64 word \<Rightarrow> int \<Rightarrow> nat \<Rightarrow> messageQueryResponse \<Rightarrow> running_queries \<Rightarrow> query_loop \<Rightarrow> query_loop option" where
  "answer_way env seq now expected resp running s =
     (case handleQueryResponse now resp running of
        None \<Rightarrow> None
      | Some running' \<Rightarrow>
          (case running' (mqr_LTime resp) of
             None \<Rightarrow> None
           | Some r \<Rightarrow>
               (case answers_turn env seq ResponseCase r of
                  Some (_, [rp], _) \<Rightarrow>
                    (case query_next expected (Deliver (rp_Error rp) (sent_record rp)) s of
                       None \<Rightarrow> None
                     | Some s' \<Rightarrow> query_next expected (Iterate CaseResp) s')
                | _ \<Rightarrow> None)))"

text \<open>The query is running on the agent that asked, its stream and the loop keep up with the answers, and the loop waits.\<close>

definition waits_for_answers :: "ipc_env \<Rightarrow> int \<Rightarrow> ltime \<Rightarrow> 32 word \<Rightarrow> running_queries \<Rightarrow> query_loop \<Rightarrow> bool" where
  "waits_for_answers env now t i running s \<longleftrightarrow>
     (\<exists>r. running t = Some r \<and> qr_id r = i \<and> \<not> QueryResponse_Finished now r
        \<and> ch_queue (qr_respCh r) = [] \<and> 0 < ch_cap (qr_respCh r) \<and> \<not> ch_closed (qr_respCh r))
     \<and> (\<forall>rp. ie_send env rp = None)
     \<and> qh_registered (ql_handler s) \<and> qh_init (ql_handler s) \<and> \<not> ql_exited s
     \<and> ch_queue (qh_respCh (ql_handler s)) = [] \<and> 0 < ch_cap (qh_respCh (ql_handler s))
     \<and> \<not> ch_closed (qh_respCh (ql_handler s))"

lemma answer_way_through:
  assumes "waits_for_answers env now (mqr_LTime resp) (mqr_ID resp) running s" "mqr_Flags resp = 0"
    and "DecodeQueryResponse (mqr_Payload resp) = (answer, None)"
  shows "\<exists>s'. answer_way env seq now n resp running s = Some s'
    \<and> ql_resps s' = ql_resps s @ [\<lparr>nr_From = mqr_From resp, nr_Payload = mqr_Payload resp\<rparr>]
    \<and> ql_out s' = ql_out s @ [response_line (mqr_From resp) answer]
    \<and> ql_errors s' = (if failed_response answer then ql_errors s @ [answer] else ql_errors s)"
proof -
  obtain r where r: "running (mqr_LTime resp) = Some r" "qr_id r = mqr_ID resp" "\<not> QueryResponse_Finished now r"
    "ch_queue (qr_respCh r) = []" "0 < ch_cap (qr_respCh r)" "\<not> ch_closed (qr_respCh r)"
    using assms(1) by (auto simp: waits_for_answers_def)
  let ?nr = "\<lparr>nrs_From = mqr_From resp, nrs_Payload = mqr_Payload resp\<rparr>"
  let ?r = "r\<lparr>qr_respCh := (qr_respCh r)\<lparr>ch_queue := [?nr]\<rparr>\<rparr>"
  have h: "handleQueryResponse now resp running = Some (running(mqr_LTime resp \<mapsto> ?r))"
    using r assms(2) by (simp add: handleQueryResponse_def response_wanted_def response_deliver_def mqr_Ack_def chan_offer_def)
  have a: "\<exists>r'. answers_turn env seq ResponseCase ?r = Some (True, [query_record ''response'' (mqr_From resp) (mqr_Payload resp) seq], r')"
    using assms(1) by (simp add: answers_turn_def chan_ready_def chan_receive_def Send_def waits_for_answers_def)
  show ?thesis
    using assms(1,3) a
    by (auto simp: answer_way_def h sent_record_def query_record_def query_next_def respondSeq_def queryHandler_Handle_def
        chan_offer_def loop_iteration_def chan_ready_def chan_receive_def exit_test_def waits_for_answers_def Let_def)
qed

text \<open>The agent has the target, the action a script there, and the expanded script ran without error, with the output \<open>out\<close>.\<close>

definition agent_ran :: "'tmpl agent_env \<Rightarrow> Config \<Rightarrow> string \<Rightarrow> string \<Rightarrow> string \<Rightarrow> string \<Rightarrow> bool" where
  "agent_ran env config action target arg out \<longleftrightarrow>
     (\<exists>t script expanded.
        Targets config target = Some t \<and> action_script action t = Some script \<and> script \<noteq> []
        \<and> expanded_script (ag_run env) (runner_New target script arg) = Some expanded
        \<and> exec_command (ag_run env) (agent_command (os_environ (ag_run env)) arg expanded) = Finished out None)"

lemma agent_ran_answer:
  fixes env :: "'tmpl agent_env"
  assumes "message_fits m" "answer = query_answer env config action (MessagePayload_Encode m)"
  shows "Err answer = None \<longleftrightarrow> (\<exists>out. agent_ran env config action (Target m) (Argument m) out)"
    and "agent_ran env config action (Target m) (Argument m) out \<Longrightarrow> Output answer = out"
proof -
  have m: "DecodeMessagePayload (MessagePayload_Encode m) = (m, None)" by (rule message.decode_encode [OF assms(1)])
  have ok: "Err answer = None \<longleftrightarrow> agent_ran env config action (Target m) (Argument m) (Output answer)"
    using query_answer_ok [of env config action "MessagePayload_Encode m"]
    by (simp add: assms(2) m runner_command_New agent_ran_def)
  have run: "runner_Run renv r = (Some out, None)"
    if "expanded_script renv r = Some e" "exec_command renv (runner_command renv r e) = Finished out None"
    for renv :: "'tmpl run_env" and r e out
    using that by (auto simp: runner_Run_def expanded_script_def split: sum.splits)
  have out: "Output answer = out" if ran: "agent_ran env config action (Target m) (Argument m) out" for out
  proof -
    obtain t script e where r: "Targets config (Target m) = Some t" "action_script action t = Some script" "script \<noteq> []"
      "expanded_script (ag_run env) (runner_New (Target m) script (Argument m)) = Some e"
      "exec_command (ag_run env) (agent_command (os_environ (ag_run env)) (Argument m) e) = Finished out None"
      using ran by (auto simp: agent_ran_def)
    show ?thesis
      unfolding assms(2) query_answer_sent [OF assms(1)]
      using r(1-3) run [OF r(4), of out] r(5) by (simp add: runner_command_New buffer_String_def)
  qed
  then show "agent_ran env config action (Target m) (Argument m) out \<Longrightarrow> Output answer = out" by blast
  show "Err answer = None \<longleftrightarrow> (\<exists>out. agent_ran env config action (Target m) (Argument m) out)" proof
    assume "Err answer = None"
    then show "\<exists>out. agent_ran env config action (Target m) (Argument m) out" using ok by blast
  next
    assume "\<exists>out. agent_ran env config action (Target m) (Argument m) out"
    then obtain out where "agent_ran env config action (Target m) (Argument m) out" ..
    then show "Err answer = None" using ok out by simp
  qed
qed

text \<open>C1: The command line reports what the agent did. Let an agent send its answer to a query of the command line, which
  it does when the answer is small enough, in time and not the second; let its message decode as it was encoded, and
  reach the agent that asked while the query is running and nothing is queued. Then the loop counts one more answer. It
  prints \<open>OK\<close> with the output of the script, and counts no error, exactly when the agent has the target,
  the action has a script there, and the expanded script ran without an error; otherwise it prints \<open>ERROR\<close>
  and counts one.\<close>

theorem query_reports_agent_run:
  assumes "DoQuery pr cenv rpc action config c = Polling q n" "ctx_Args c = target # args"
    and "length target < 2 ^ 32" "length (args_First args) < 2 ^ 32"
    and "q_Name sq = qp_Name q" "q_Payload sq = qp_Payload q"
    and "agent_handleQuery aenv net aconfig sq = (sq', [pkt])"
    and "\<forall>msg raw. ne_encode net msg = Inr raw \<longrightarrow> decode raw = Some msg" "decode (p_raw pkt) = Some resp"
    and "response_fits (query_answer aenv aconfig (qp_Name q) (qp_Payload q))"
    and "waits_for_answers env now (q_LTime sq) (q_id sq) running s"
  shows "\<exists>s'. answer_way env seq now n resp running s = Some s' \<and> length (ql_resps s') = Suc (length (ql_resps s))
    \<and> (if \<exists>out. agent_ran aenv aconfig action target (args_First args) out
       then ql_errors s' = ql_errors s \<and> (\<forall>out. agent_ran aenv aconfig action target (args_First args) out \<longrightarrow>
              ql_out s' = ql_out s @ [''OK    '' @ ne_node net @ '': '' @ trim_space out])
       else length (ql_errors s') = Suc (length (ql_errors s))
          \<and> (\<exists>text. ql_out s' = ql_out s @ [''ERROR '' @ ne_node net @ '': '' @ text]))"
proof -
  let ?m = "\<lparr>Target = target, Argument = args_First args\<rparr>" and ?answer = "query_answer aenv aconfig (qp_Name q) (qp_Payload q)"
  have "args_First args = (if args = [] then [] else hd args)"
    by (cases args) (simp_all add: args_First_def)
  then have q: "qp_Name q = action" "qp_Payload q = MessagePayload_Encode ?m"
    using DoQuery_polling [OF assms(1)] assms(2) by auto
  have fits: "message_fits ?m" using assms(3,4) by (simp add: message_fits_def)
  let ?msg = "response_message net sq (QueryResponse_Encode ?answer)"
  have "ne_encode net ?msg = Inr (p_raw pkt)"
    using assms(5-7) by (auto simp: agent_handleQuery_def respondToQuery_def Respond_def Let_def split: Respond_splits)
  then have resp: "resp = ?msg" using assms(8,9) by simp
  have dec: "DecodeQueryResponse (mqr_Payload resp) = (?answer, None)"
    unfolding resp by (simp add: response_message_def response.decode_encode [OF assms(10)])
  have ids: "mqr_LTime resp = q_LTime sq" "mqr_ID resp = q_id sq" "mqr_Flags resp = 0" "mqr_From resp = ne_node net"
    by (simp_all add: resp response_message_def)
  obtain s' where s': "answer_way env seq now n resp running s = Some s'"
    "ql_resps s' = ql_resps s @ [\<lparr>nr_From = mqr_From resp, nr_Payload = mqr_Payload resp\<rparr>]"
    "ql_out s' = ql_out s @ [response_line (ne_node net) ?answer]"
    "ql_errors s' = (if failed_response ?answer then ql_errors s @ [?answer] else ql_errors s)"
    using answer_way_through [of env now resp running s ?answer seq n] assms(11) dec ids by auto
  have failed: "failed_response ?answer \<longleftrightarrow> Err ?answer \<noteq> None"
    by (simp add: failed_response_def Status_query_answer)
  note ran = agent_ran_answer [OF fits, of ?answer aenv aconfig action]
  show ?thesis
    using s' ran failed q by (auto simp: response_line_def)
qed

subsection \<open>A query that is answered\<close>

definition demo_payload_sent :: bytes where
  "demo_payload_sent = MessagePayload_Encode \<lparr>Target = ''web'', Argument = ''v1''\<rparr>"

definition demo_answered :: QueryResponse where
  "demo_answered = \<lparr>Output = ''install v1'', Err = None, Status = 0\<rparr>"

definition demo_seen_query :: squery where
  "demo_seen_query = \<lparr>q_LTime = 1, q_Name = ''deploy'', q_Payload = demo_payload_sent, q_id = 5, q_addr = [127, 0, 0, 1],
     q_port = 7946, q_deadline = Some 10\<rparr>"

definition demo_message :: messageQueryResponse where
  "demo_message = \<lparr>mqr_LTime = 1, mqr_ID = 5, mqr_From = ''n1'', mqr_Flags = 0, mqr_Payload = QueryResponse_Encode demo_answered\<rparr>"

text \<open>A codec for one message.\<close>

definition demo_answerer :: SerfQuery.net_env where
  "demo_answerer = \<lparr>ne_now = 0, ne_node = ''n1'',
     ne_encode = (\<lambda>m. if m = demo_message then Inr [9] else Inl ''unsupported''), ne_send = (\<lambda>_. None)\<rparr>"

definition demo_open_query :: running_queries where
  "demo_open_query = [1 \<mapsto> \<lparr>qr_ackCh = None, qr_deadline = 10, qr_id = 5, qr_lTime = 1, qr_respCh = make_chan 4, qr_closed = False\<rparr>]"

definition demo_waiting :: query_loop where
  "demo_waiting = query_start\<lparr>ql_handler := new_query_handler\<lparr>qh_init := True\<rparr>\<rparr>"

lemma demo_answer_value: "query_answer demo_env demo_config ''deploy'' demo_payload_sent = demo_answered"
proof -
  have "message_fits \<lparr>Target = ''web'', Argument = ''v1''\<rparr>" by (simp add: message_fits_def)
  from query_answer_sent [OF this, of demo_env demo_config "''deploy''"] show ?thesis
    by (simp add: demo_payload_sent_def demo_answered_def demo_config_def demo_env_def action_script_def runner_Run_def
        simple_env_def simple_execute_def runner_New_def runner_command_def echo_shell_def buffer_String_def)
qed

lemma demo_answer_sent:
  "\<exists>sq' pkt. agent_handleQuery demo_env demo_answerer demo_config demo_seen_query = (sq', [pkt]) \<and> p_raw pkt = [9]"
proof -
  have "query_answer demo_env demo_config (q_Name demo_seen_query) (q_Payload demo_seen_query) = demo_answered"
    by (simp add: demo_seen_query_def demo_answer_value)
  moreover have "response_message demo_answerer demo_seen_query (QueryResponse_Encode demo_answered) = demo_message"
    by (simp add: response_message_def demo_answerer_def demo_seen_query_def demo_message_def)
  ultimately show ?thesis
    by (simp add: agent_handleQuery_def respondToQuery_def Respond_def)
      (simp add: demo_answerer_def demo_seen_query_def QueryResponseSizeLimit_def)
qed

lemma demo_agent_ran: "agent_ran demo_env demo_config ''deploy'' ''web'' ''v1'' ''install v1''"
  by (simp add: agent_ran_def demo_config_def action_script_def expanded_script_def demo_env_def simple_env_def
      simple_execute_def runner_New_def agent_command_def echo_shell_def)

lemma demo_waits: "waits_for_answers (demo_ipc ''key'') 0 1 5 demo_open_query demo_waiting"
  by (simp add: waits_for_answers_def demo_open_query_def demo_waiting_def query_start_def new_query_handler_def make_chan_def
      CHANNEL_BUFFER_def QueryResponse_Finished_def demo_ipc_def)

theorem query_reports_agent_run_witness:
  "\<exists>s'. answer_way (demo_ipc ''key'') 3 0 1 demo_message demo_open_query demo_waiting = Some s'
     \<and> ql_out s' = [''OK    n1: install v1''] \<and> ql_errors s' = []"
proof -
  obtain q where q: "DoQuery (\<lambda>_. True) demo_cli demo_rpc ''deploy'' demo_config demo_ctx = Polling q 1"
    using demo_DoQuery by blast
  have args: "ctx_Args demo_ctx = ''web'' # [''v1'']" by (simp add: demo_ctx_def ctx_Args_def)
  have q': "qp_Name q = ''deploy''" "qp_Payload q = demo_payload_sent"
    using DoQuery_polling [OF q] args by (auto simp: demo_payload_sent_def)
  obtain sq' pkt where sent: "agent_handleQuery demo_env demo_answerer demo_config demo_seen_query = (sq', [pkt])" "p_raw pkt = [9]"
    using demo_answer_sent by blast
  have len: "length ''web'' < 2 ^ 32" "length (args_First [''v1'']) < 2 ^ 32" by (simp_all add: args_First_def)
  have asked: "q_Name demo_seen_query = qp_Name q" "q_Payload demo_seen_query = qp_Payload q" by (simp_all add: demo_seen_query_def q')
  let ?decode = "\<lambda>b. if b = [9] then Some demo_message else None"
  have codec: "\<forall>msg raw. ne_encode demo_answerer msg = Inr raw \<longrightarrow> ?decode raw = Some msg"
    by (simp add: demo_answerer_def split: if_splits)
  have fits: "response_fits (query_answer demo_env demo_config (qp_Name q) (qp_Payload q))"
    unfolding q' demo_answer_value by (simp add: response_fits_def demo_answered_def)
  have waits: "waits_for_answers (demo_ipc ''key'') 0 (q_LTime demo_seen_query) (q_id demo_seen_query) demo_open_query demo_waiting"
    using demo_waits by (simp add: demo_seen_query_def)
  have "?decode (p_raw pkt) = Some demo_message" by (simp add: sent)
  note r = query_reports_agent_run [where decode = ?decode, OF q args len asked sent(1) codec this fits waits, of 3]
  have "args_First [''v1''] = ''v1''" by (simp add: args_First_def)
  from r [unfolded this] obtain s' where s': "answer_way (demo_ipc ''key'') 3 0 1 demo_message demo_open_query demo_waiting = Some s'"
    "if \<exists>out. agent_ran demo_env demo_config ''deploy'' ''web'' ''v1'' out
     then ql_errors s' = ql_errors demo_waiting \<and> (\<forall>out. agent_ran demo_env demo_config ''deploy'' ''web'' ''v1'' out \<longrightarrow>
         ql_out s' = ql_out demo_waiting @ [''OK    '' @ ne_node demo_answerer @ '': '' @ trim_space out])
     else length (ql_errors s') = Suc (length (ql_errors demo_waiting))
       \<and> (\<exists>text. ql_out s' = ql_out demo_waiting @ [''ERROR '' @ ne_node demo_answerer @ '': '' @ text])"
    by blast
  have "ql_errors s' = ql_errors demo_waiting"
    "ql_out s' = ql_out demo_waiting @ [''OK    '' @ ne_node demo_answerer @ '': '' @ trim_space ''install v1'']"
    using s'(2) demo_agent_ran by (metis (no_types, lifting))+
  moreover have "trim_space ''install v1'' = ''install v1''" by code_simp
  ultimately show ?thesis using s'(1)
    by (simp add: demo_waiting_def query_start_def demo_answerer_def)
qed

end
